(* ===== verification/Prelude.thy ===== *)
theory Prelude
  imports Complex_Main "HOL-Library.Multiset" "HOL-Library.Product_Lexorder" "HOL-Library.List_Lexorder" "HOL-Library.Char_ord"
begin

text \<open>
  Shared material of the development: JavaScript's rounding on exact numbers, the
  exceptions of the HTTP layer as a sum type with its bind, the tables of the
  database as lists of rows, and the generic lemmas the component proofs rest on.

  JavaScript's \<open>number\<close> is modelled by the type \<^typ>\<open>rat\<close> of exact rationals: amounts are
  decimal rupees, quantities and percentages are decimals, and every integer quantity
  (paise, counters, milliseconds) is an \<^typ>\<open>int\<close>.
\<close>

named_theorems money_simps \<open>unfolding rules of the money arithmetic\<close>
named_theorems guard_simps \<open>inversion of successful operations\<close>

type_synonym num = rat
type_synonym id = string

section \<open>Numbers\<close>

text \<open>\<open>Math.round\<close> rounds halves towards plus infinity.\<close>

definition js_round :: "rat \<Rightarrow> int" where
  "js_round x = \<lfloor>x + 1/2\<rfloor>"

lemma js_round_of_int [simp]: "js_round (of_int n) = n"
  by (simp add: js_round_def floor_eq_iff)

lemma js_round_0 [simp]: "js_round 0 = 0"
  using js_round_of_int [of 0] by simp

lemma js_round_mono: "x \<le> y \<Longrightarrow> js_round x \<le> js_round y"
  by (simp add: js_round_def floor_mono)

lemma js_round_bounds: "x - 1/2 < of_int (js_round x) \<and> of_int (js_round x) \<le> x + 1/2"
  unfolding js_round_def by linarith

lemma js_round_nonneg: "0 \<le> x \<Longrightarrow> 0 \<le> js_round x"
  using js_round_mono [of 0 x] by simp

lemma js_round_le_of_int: "x \<le> of_int n \<Longrightarrow> js_round x \<le> n"
  using js_round_mono [of x "of_int n"] by simp

lemma js_round_ge_of_int: "of_int n \<le> x \<Longrightarrow> n \<le> js_round x"
  using js_round_mono [of "of_int n" x] by simp

lemma js_round_add_of_int: "js_round (x + of_int n) = js_round x + n"
  unfolding js_round_def by linarith

text \<open>
  A column of SQL type \<open>numeric(p, s)\<close> keeps \<open>s\<close> decimals: PostgreSQL rounds a stored
  value to the nearest one, ties away from zero.
\<close>

definition round_away :: "rat \<Rightarrow> int" where
  "round_away x = (if 0 \<le> x then \<lfloor>x + 1/2\<rfloor> else - \<lfloor>- x + 1/2\<rfloor>)"

definition numeric_col :: "nat \<Rightarrow> rat \<Rightarrow> rat" where
  "numeric_col s x = of_int (round_away (x * 10 ^ s)) / 10 ^ s"

lemma round_away_of_int [simp]: "round_away (of_int n) = n"
proof -
  have *: "\<lfloor>(of_int m :: rat) + 1/2\<rfloor> = m" for m :: int by (simp add: floor_eq_iff)
  show ?thesis using * [of n] * [of "- n"] by (simp add: round_away_def)
qed

text \<open>A value with at most \<open>s\<close> decimals is stored exactly.\<close>

definition decimals :: "nat \<Rightarrow> rat \<Rightarrow> bool" where
  "decimals s x \<longleftrightarrow> x * 10 ^ s \<in> \<int>"

lemma decimalsE:
  assumes "decimals s x" obtains n :: int where "x = of_int n / 10 ^ s"
proof -
  from assms obtain n :: int where "x * 10 ^ s = of_int n"
    by (auto simp: decimals_def elim: Ints_cases)
  then have "x = of_int n / 10 ^ s" by (simp add: field_simps)
  then show ?thesis by (rule that)
qed

lemma decimals_of_int_div [simp]: "decimals s (of_int n / 10 ^ s)"
  by (simp add: decimals_def)

lemma numeric_col_exact: "decimals s x \<Longrightarrow> numeric_col s x = x"
  by (elim decimalsE) (simp add: numeric_col_def)

lemma decimals_numeric_col [simp]: "decimals s (numeric_col s x)"
  by (simp add: numeric_col_def)

lemma decimals_0 [simp]: "decimals s 0"
  by (simp add: decimals_def)

lemma decimals_numeral [simp]: "decimals s (numeral n)"
proof -
  have "(numeral n :: rat) * 10 ^ s = of_int (numeral n * 10 ^ s)" by simp
  then show ?thesis unfolding decimals_def by (metis Ints_of_int)
qed

lemma decimals_add: "decimals s x \<Longrightarrow> decimals s y \<Longrightarrow> decimals s (x + y)"
  by (simp add: decimals_def distrib_right)

lemma decimals_minus: "decimals s x \<Longrightarrow> decimals s (- x)"
  by (simp add: decimals_def)

lemma decimals_diff: "decimals s x \<Longrightarrow> decimals s y \<Longrightarrow> decimals s (x - y)"
  using decimals_add [of s x "- y"] by (simp add: decimals_minus)

lemma decimals_mult_of_int: "decimals s x \<Longrightarrow> decimals s (x * of_int n)"
proof -
  assume "decimals s x"
  then have "(x * 10 ^ s) * of_int n \<in> \<int>" by (simp add: decimals_def)
  then show ?thesis by (simp add: decimals_def ac_simps)
qed

lemma decimals_minus_numeral [simp]: "decimals s (- numeral n)"
  by (intro decimals_minus decimals_numeral)

lemma round_away_mono: "x \<le> y \<Longrightarrow> round_away x \<le> round_away y"
  unfolding round_away_def by (auto; linarith)

lemma numeric_col_mono: "x \<le> y \<Longrightarrow> numeric_col s x \<le> numeric_col s y"
  by (simp add: numeric_col_def divide_right_mono round_away_mono)

lemma round_away_error: "\<bar>of_int (round_away x) - x\<bar> \<le> 1/2"
  using js_round_bounds [of x] js_round_bounds [of "- x"]
  unfolding round_away_def js_round_def abs_le_iff by (cases "0 \<le> x") (simp_all only: if_True if_False of_int_minus, linarith+)

lemma numeric_col_error: "\<bar>numeric_col s x - x\<bar> \<le> 1 / (2 * 10 ^ s)"
proof -
  have "\<bar>numeric_col s x - x\<bar> = \<bar>of_int (round_away (x * 10 ^ s)) - x * 10 ^ s\<bar> / 10 ^ s"
    unfolding numeric_col_def by (subst abs_of_pos [of "10 ^ s :: rat", symmetric], simp, subst abs_divide [symmetric]) (simp add: diff_divide_distrib)
  also have "\<dots> \<le> (1/2) / 10 ^ s" by (intro divide_right_mono round_away_error) simp
  finally show ?thesis by simp
qed

section \<open>Exceptions\<close>

text \<open>
  A template literal is a list of parts: text, and the numbers it interpolates. The
  exceptions are the ones of the HTTP layer that the services throw, the violation of a
  unique constraint (error code P2002) and a row a query requires but does not find.
\<close>

datatype part = Txt string | Num rat

type_synonym msg = "part list"

datatype api_error =
    BadRequest msg
  | Forbidden msg
  | NotFound msg
  | Conflict msg
  | UniqueViolation
  | RowMissing

type_synonym 'a result = "api_error + 'a"

definition bad :: "string \<Rightarrow> 'a result" where
  "bad s = Inl (BadRequest [Txt s])"

definition ebind :: "'a result \<Rightarrow> ('a \<Rightarrow> 'b result) \<Rightarrow> 'b result" where
  "ebind m f = (case m of Inl e \<Rightarrow> Inl e | Inr x \<Rightarrow> f x)"

text \<open>A guard: throw \<open>e\<close> when the condition fails.\<close>

definition require :: "bool \<Rightarrow> api_error \<Rightarrow> unit result" where
  "require b e = (if b then Inr () else Inl e)"

definition some_or :: "'a option \<Rightarrow> api_error \<Rightarrow> 'a result" where
  "some_or x e = (case x of None \<Rightarrow> Inl e | Some y \<Rightarrow> Inr y)"

text \<open>A loop whose body may throw.\<close>

fun efold :: "('a \<Rightarrow> 's \<Rightarrow> 's result) \<Rightarrow> 'a list \<Rightarrow> 's \<Rightarrow> 's result" where
  "efold f [] s = Inr s"
| "efold f (x # xs) s = ebind (f x s) (efold f xs)"

fun emap :: "('a \<Rightarrow> 'b result) \<Rightarrow> 'a list \<Rightarrow> 'b list result" where
  "emap f [] = Inr []"
| "emap f (x # xs) = ebind (f x) (\<lambda>y. ebind (emap f xs) (\<lambda>ys. Inr (y # ys)))"

lemma ebind_simps [simp]:
  "ebind (Inl e) f = Inl e" "ebind (Inr x) f = f x"
  by (simp_all add: ebind_def)

lemma bad_neq_Inr [simp]: "bad s \<noteq> Inr x" "Inr x \<noteq> bad s"
  by (simp_all add: bad_def)

lemma ebind_eq_Inr [guard_simps]: "ebind m f = Inr y \<longleftrightarrow> (\<exists>x. m = Inr x \<and> f x = Inr y)"
  by (cases m) auto

lemma require_eq_Inr [guard_simps]: "require b e = Inr u \<longleftrightarrow> b"
  by (simp add: require_def)

lemma require_simps [simp]: "require True e = Inr ()" "require False e = Inl e"
  by (simp_all add: require_def)

lemma some_or_eq_Inr [guard_simps]: "some_or x e = Inr y \<longleftrightarrow> x = Some y"
  by (cases x) (auto simp: some_or_def)

lemma some_or_simps [simp]: "some_or None e = Inl e" "some_or (Some y) e = Inr y"
  by (simp_all add: some_or_def)

lemma efold_append: "efold f (xs @ ys) s = ebind (efold f xs s) (efold f ys)"
  by (induction xs arbitrary: s) (auto simp: ebind_def split: sum.split)

text \<open>An invariant of the body is an invariant of the loop.\<close>

lemma efold_invariant:
  assumes "efold f xs s = Inr t" and "P s"
    and "\<And>x s t. x \<in> set xs \<Longrightarrow> P s \<Longrightarrow> f x s = Inr t \<Longrightarrow> P t"
  shows "P t"
  using assms
proof (induction xs arbitrary: s)
  case Nil
  then show ?case by simp
next
  case (Cons x xs)
  from Cons.prems(1) obtain s' where "f x s = Inr s'" and "efold f xs s' = Inr t"
    by (auto simp: guard_simps)
  with Cons show ?case by (metis list.set_intros)
qed

lemma emap_Inr_member: "emap f xs = Inr ys \<Longrightarrow> x \<in> set xs \<Longrightarrow> \<exists>y. f x = Inr y"
  by (induction xs arbitrary: ys) (auto simp: guard_simps)

lemma emap_Inr_preimage: "emap f xs = Inr ys \<Longrightarrow> y \<in> set ys \<Longrightarrow> \<exists>x \<in> set xs. f x = Inr y"
  by (induction xs arbitrary: ys) (auto simp: guard_simps)

lemma emap_Inr_map:
  "emap f xs = Inr ys \<Longrightarrow> (\<And>x y. x \<in> set xs \<Longrightarrow> f x = Inr y \<Longrightarrow> g y = h x) \<Longrightarrow> map g ys = map h xs"
  by (induction xs arbitrary: ys) (auto simp: guard_simps)

lemma emap_length: "emap f xs = Inr ys \<Longrightarrow> length ys = length xs"
  by (induction xs arbitrary: ys) (auto simp: guard_simps)

section \<open>Optional values\<close>

text \<open>\<open>a ?? b\<close> on a nullable value, and \<open>a ?? b\<close> between two nullable values.\<close>

definition or_else :: "'a option \<Rightarrow> 'a \<Rightarrow> 'a" where
  "or_else x d = (case x of None \<Rightarrow> d | Some y \<Rightarrow> y)"

definition coalesce :: "'a option \<Rightarrow> 'a option \<Rightarrow> 'a option" where
  "coalesce x y = (case x of None \<Rightarrow> y | Some _ \<Rightarrow> x)"

lemma or_else_simps [simp]: "or_else None d = d" "or_else (Some y) d = y"
  by (simp_all add: or_else_def)

lemma coalesce_simps [simp]: "coalesce None y = y" "coalesce (Some z) y = Some z"
  by (simp_all add: coalesce_def)

text \<open>The truthiness of a nullable string: neither null nor empty.\<close>

definition truthy :: "string option \<Rightarrow> bool" where
  "truthy s = (case s of None \<Rightarrow> False | Some t \<Rightarrow> t \<noteq> [])"

lemma truthy_simps [simp]: "\<not> truthy None" "truthy (Some t) \<longleftrightarrow> t \<noteq> []"
  by (simp_all add: truthy_def)

section \<open>Lists\<close>

lemma sum_list_of_int: "(\<Sum>x\<leftarrow>xs. of_int (f x) :: rat) = of_int (\<Sum>x\<leftarrow>xs. f x)"
  by (induction xs) simp_all

lemma sum_list_map_add: "(\<Sum>x\<leftarrow>xs. f x + g x) = (\<Sum>x\<leftarrow>xs. f x) + (\<Sum>x\<leftarrow>xs. (g x :: 'a :: comm_monoid_add))"
  by (induction xs) (simp_all add: ac_simps)

lemma sum_list_nonneg_map: "(\<And>x. x \<in> set xs \<Longrightarrow> 0 \<le> f x) \<Longrightarrow> 0 \<le> (\<Sum>x\<leftarrow>xs. f x :: 'a :: ordered_comm_monoid_add)"
  by (rule sum_list_nonneg) auto

lemma sum_list_update_int:
  "i < length xs \<Longrightarrow> sum_list (xs[i := x]) = sum_list xs - xs ! i + (x :: int)"
  by (induction xs arbitrary: i) (auto split: nat.split)

lemma find_SomeD: "List.find P xs = Some x \<Longrightarrow> x \<in> set xs \<and> P x"
  by (induction xs) (auto split: if_splits)

lemma find_None_iff_ball: "List.find P xs = None \<longleftrightarrow> (\<forall>x\<in>set xs. \<not> P x)"
  by (induction xs) auto

lemma find_append_None: "List.find P xs = None \<Longrightarrow> List.find P (xs @ ys) = List.find P ys"
  by (induction xs) (auto split: if_splits)

text \<open>\<open>[...new Set(xs)]\<close> keeps the first occurrence of each element.\<close>

definition js_set :: "'a list \<Rightarrow> 'a list" where
  "js_set xs = rev (remdups (rev xs))"

lemma set_js_set [simp]: "set (js_set xs) = set xs"
  by (simp add: js_set_def)

lemma distinct_js_set [simp]: "distinct (js_set xs)"
  by (simp add: js_set_def)

text \<open>A JavaScript \<open>Map\<close> as an association list in insertion order: \<open>set\<close> on a present key keeps its place.\<close>

fun js_map_set :: "'k \<Rightarrow> 'v \<Rightarrow> ('k \<times> 'v) list \<Rightarrow> ('k \<times> 'v) list" where
  "js_map_set k v [] = [(k, v)]"
| "js_map_set k v ((k', v') # m) = (if k = k' then (k, v) # m else (k', v') # js_map_set k v m)"

definition js_map_add :: "'k \<Rightarrow> 'v::{zero,plus} \<Rightarrow> ('k \<times> 'v) list \<Rightarrow> ('k \<times> 'v) list" where
  "js_map_add k v m = js_map_set k (or_else (map_of m k) 0 + v) m"

lemma map_of_js_map_set [simp]: "map_of (js_map_set k v m) = (map_of m)(k \<mapsto> v)"
  by (induction k v m rule: js_map_set.induct) auto

lemma set_js_map_set: "set (js_map_set k v m) \<subseteq> insert (k, v) (set m)"
  by (induction k v m rule: js_map_set.induct) auto

lemma keys_js_map_set: "fst ` set (js_map_set k v m) = insert k (fst ` set m)"
  by (induction k v m rule: js_map_set.induct) auto

lemma distinct_js_map_set: "distinct (map fst m) \<Longrightarrow> distinct (map fst (js_map_set k v m))"
  by (induction k v m rule: js_map_set.induct) (auto simp: keys_js_map_set)

lemma distinct_js_map_add: "distinct (map fst m) \<Longrightarrow> distinct (map fst (js_map_add k v m))"
  by (simp add: js_map_add_def distinct_js_map_set)

lemma sum_js_map_add:
  "distinct (map fst m) \<Longrightarrow> (\<Sum>p\<leftarrow>js_map_add k v m. snd p) = (\<Sum>p\<leftarrow>m. snd p) + (v :: 'v :: comm_monoid_add)"
proof (induction m)
  case Nil
  then show ?case by (simp add: js_map_add_def)
next
  case (Cons p m)
  then show ?case
    by (cases p) (auto simp: js_map_add_def ac_simps)
qed

section \<open>Strings\<close>

text \<open>\<open>toUpperCase\<close> and \<open>toLowerCase\<close> on ASCII letters, the white space of \<open>trim\<close> and \<open>\s\<close> among one-byte characters.\<close>

definition lower :: "char \<Rightarrow> char" where
  "lower c = (if CHR ''A'' \<le> c \<and> c \<le> CHR ''Z'' then char_of ((of_char c :: nat) + 32) else c)"

definition upper :: "char \<Rightarrow> char" where
  "upper c = (if CHR ''a'' \<le> c \<and> c \<le> CHR ''z'' then char_of ((of_char c :: nat) - 32) else c)"

definition is_space :: "char \<Rightarrow> bool" where
  "is_space c \<longleftrightarrow> (of_char c :: nat) \<in> {9, 10, 11, 12, 13, 32, 160}"

definition trim :: "string \<Rightarrow> string" where
  "trim s = rev (dropWhile is_space (rev (dropWhile is_space s)))"

text \<open>\<open>String(n)\<close> of an integer.\<close>

fun nat_digits :: "nat \<Rightarrow> string" where
  "nat_digits n = (if n < 10 then [char_of (n + 48)] else nat_digits (n div 10) @ [char_of (n mod 10 + 48)])"

declare nat_digits.simps [simp del]

definition int_string :: "int \<Rightarrow> string" where
  "int_string n = (if n < 0 then ''-'' @ nat_digits (nat (- n)) else nat_digits (nat n))"

definition digits_value :: "string \<Rightarrow> nat" where
  "digits_value s = foldl (\<lambda>a c. a * 10 + (of_char c - 48)) 0 s"

lemma digits_value_nat_digits: "digits_value (nat_digits n) = n"
proof (induction n rule: nat_digits.induct)
  case (1 n)
  show ?case
  proof (cases "n < 10")
    case True
    then show ?thesis by (simp add: nat_digits.simps [of n] digits_value_def)
  next
    case False
    have "(of_char (char_of (n mod 10 + 48)) :: nat) - 48 = n mod 10" by simp
    then show ?thesis using 1 [OF False] False by (simp add: nat_digits.simps [of n] digits_value_def)
  qed
qed

lemma nat_digits_digit: "c \<in> set (nat_digits n) \<Longrightarrow> (of_char c :: nat) \<in> {48..57}"
proof (induction n rule: nat_digits.induct)
  case (1 n)
  then show ?case by (cases "n < 10") (auto simp: nat_digits.simps [of n])
qed

lemma nat_digits_not_minus [simp]: "nat_digits n \<noteq> CHR ''-'' # s" "CHR ''-'' # s \<noteq> nat_digits n"
proof -
  show "nat_digits n \<noteq> CHR ''-'' # s" using nat_digits_digit [of "CHR ''-''" n] by auto
  then show "CHR ''-'' # s \<noteq> nat_digits n" by metis
qed

lemma inj_int_string: "int_string m = int_string n \<Longrightarrow> m = n"
proof -
  assume e: "int_string m = int_string n"
  have d: "a = b" if "nat_digits a = nat_digits b" for a b
    using arg_cong [OF that, of digits_value] by (simp add: digits_value_nat_digits)
  show ?thesis
    using e d [of "nat m" "nat n"] d [of "nat (- m)" "nat (- n)"]
    by (auto simp: int_string_def split: if_splits)
qed

section \<open>Tables\<close>

text \<open>
  A table is the list of its rows in insertion order. \<open>update_where\<close> is \<open>updateMany\<close>
  (and \<open>update\<close>, whose \<open>where\<close> selects one row by its key); \<open>List.find\<close> is \<open>findFirst\<close>.
\<close>

definition update_where :: "('r \<Rightarrow> bool) \<Rightarrow> ('r \<Rightarrow> 'r) \<Rightarrow> 'r list \<Rightarrow> 'r list" where
  "update_where P f = map (\<lambda>r. if P r then f r else r)"

lemma length_update_where [simp]: "length (update_where P f rs) = length rs"
  by (simp add: update_where_def)

lemma update_where_Nil [simp]: "update_where P f [] = []"
  by (simp add: update_where_def)

lemma update_where_Cons [simp]:
  "update_where P f (r # rs) = (if P r then f r else r) # update_where P f rs"
  by (simp add: update_where_def)

lemma update_where_append [simp]:
  "update_where P f (rs @ ss) = update_where P f rs @ update_where P f ss"
  by (simp add: update_where_def)

lemma set_update_where: "set (update_where P f rs) = (\<lambda>r. if P r then f r else r) ` set rs"
  by (simp add: update_where_def)

lemma map_update_where:
  "(\<And>r. r \<in> set rs \<Longrightarrow> P r \<Longrightarrow> g (f r) = g r) \<Longrightarrow> map g (update_where P f rs) = map g rs"
  by (simp add: update_where_def)

lemma find_update_where_other:
  assumes "\<And>r. r \<in> set rs \<Longrightarrow> P r \<Longrightarrow> \<not> Q r \<and> \<not> Q (f r)"
  shows "List.find Q (update_where P f rs) = List.find Q rs"
  using assms by (induction rs) auto

lemma find_update_where_same:
  assumes "\<And>r. P r \<Longrightarrow> P (f r)"
  shows "List.find P (update_where P f rs) = map_option f (List.find P rs)"
  using assms by (induction rs) auto

text \<open>
  The interface between a component and a table of the database: how the rows are read,
  how they are replaced, and the key of a row. The client's lemmas say what a lookup by
  key returns after an insert and after an update, and that both keep keys unique.
\<close>

definition row_by :: "('r \<Rightarrow> id) \<Rightarrow> id \<Rightarrow> 'r list \<Rightarrow> 'r option" where
  "row_by key i rs = List.find (\<lambda>r. key r = i) rs"

definition set_row :: "('r \<Rightarrow> id) \<Rightarrow> id \<Rightarrow> ('r \<Rightarrow> 'r) \<Rightarrow> 'r list \<Rightarrow> 'r list" where
  "set_row key i f = update_where (\<lambda>r. key r = i) f"

lemma row_by_simps [simp]:
  "row_by key i [] = None"
  "row_by key i (r # rs) = (if key r = i then Some r else row_by key i rs)"
  by (simp_all add: row_by_def)

lemma map_key_set_row: "(\<And>r. key (f r) = key r) \<Longrightarrow> map key (set_row key i f rs) = map key rs"
  by (simp add: set_row_def map_update_where)

lemma image_key_set_row: "(\<And>r. key (f r) = key r) \<Longrightarrow> key ` set (set_row key i f rs) = key ` set rs"
  using map_key_set_row [of key f i rs] by (metis list.set_map)

lemma set_row_memberE:
  assumes "s \<in> set (set_row key i f rs)"
  obtains r where "r \<in> set rs" "key r = i" "s = f r" | "s \<in> set rs" "key s \<noteq> i"
  using assms by (auto simp: set_row_def set_update_where split: if_splits)

lemma set_row_absent: "i \<notin> key ` set rs \<Longrightarrow> set_row key i f rs = rs"
  unfolding set_row_def update_where_def by (intro map_idI) (auto simp: image_iff)

lemma set_row_append: "set_row key i f (rs @ ss) = set_row key i f rs @ set_row key i f ss"
  by (simp add: set_row_def)

lemma row_by_Some: "row_by key i rs = Some r \<Longrightarrow> r \<in> set rs \<and> key r = i"
  unfolding row_by_def by (rule find_SomeD)

lemma sum_list_set_row:
  assumes "distinct (map key rs)" and "row_by key i rs = Some r"
  shows "(\<Sum>s\<leftarrow>set_row key i f rs. g s) = (\<Sum>s\<leftarrow>rs. g s) - g r + (g (f r) :: 'n :: ab_group_add)"
  using assms
proof (induction rs)
  case (Cons s rs)
  have "update_where (\<lambda>r. key r = key s) f rs = rs" if "key s \<notin> key ` set rs"
    using that unfolding update_where_def by (intro map_idI) (auto simp: image_iff)
  with Cons show ?case by (auto simp: set_row_def split: if_splits)
qed simp

lemma row_by_None: "row_by key i rs = None \<longleftrightarrow> i \<notin> key ` set rs"
  by (auto simp: row_by_def find_None_iff_ball)

lemma row_by_append:
  "row_by key i (rs @ ss) = (case row_by key i rs of Some r \<Rightarrow> Some r | None \<Rightarrow> row_by key i ss)"
  by (induction rs) (simp_all add: row_by_def)

lemma row_by_distinct: "distinct (map key rs) \<Longrightarrow> r \<in> set rs \<Longrightarrow> row_by key (key r) rs = Some r"
  by (induction rs) (auto simp: image_iff)

locale table =
  fixes rows :: "'db \<Rightarrow> 'r list"
    and rows_update :: "('r list \<Rightarrow> 'r list) \<Rightarrow> 'db \<Rightarrow> 'db"
    and key :: "'r \<Rightarrow> id"
  assumes rows_of_update: "rows (rows_update f d) = f (rows d)"
    and update_update: "rows_update g (rows_update f d) = rows_update (g \<circ> f) d"
begin

abbreviation keys_distinct :: "'db \<Rightarrow> bool" where
  "keys_distinct d \<equiv> distinct (map key (rows d))"

lemma lookup_set_row:
  assumes "\<And>r. key (f r) = key r"
  shows "row_by key i (rows (rows_update (set_row key j f) d)) =
    (if i = j then map_option f (row_by key i (rows d)) else row_by key i (rows d))"
  using assms
  by (auto simp: rows_of_update row_by_def set_row_def find_update_where_same
      intro!: find_update_where_other)

lemma lookup_insert:
  "row_by key i (rows (rows_update (\<lambda>rs. rs @ [r]) d)) =
    (case row_by key i (rows d) of Some s \<Rightarrow> Some s | None \<Rightarrow> if key r = i then Some r else None)"
  by (simp add: rows_of_update row_by_append split: option.split)

lemma keys_set_row:
  assumes "\<And>r. key (f r) = key r"
  shows "map key (rows (rows_update (set_row key j f) d)) = map key (rows d)"
  using assms by (simp add: rows_of_update set_row_def map_update_where)

lemma distinct_set_row:
  assumes "\<And>r. key (f r) = key r" and "keys_distinct d"
  shows "keys_distinct (rows_update (set_row key j f) d)"
  using keys_set_row [of f j d, OF assms(1)] assms(2) by simp

lemma distinct_insert:
  assumes "keys_distinct d" and "key r \<notin> key ` set (rows d)"
  shows "keys_distinct (rows_update (\<lambda>rs. rs @ [r]) d)"
  using assms by (simp add: rows_of_update)

lemma row_by_member:
  assumes "keys_distinct d" and "r \<in> set (rows d)"
  shows "row_by key (key r) (rows d) = Some r"
  using assms by (rule row_by_distinct)

end

section \<open>Ledgers\<close>

text \<open>
  Several components keep a running balance on a row beside the list of entries that explain it
  (gift cards, stock, loyalty points). \<open>ledger_balanced\<close> says that the entries explain every balance:
  keys are unique, every entry belongs to a row, and a row's balance is the sum of its entries.
\<close>

definition entry_sum :: "('e \<Rightarrow> id) \<Rightarrow> ('e \<Rightarrow> 'n :: comm_monoid_add) \<Rightarrow> id \<Rightarrow> 'e list \<Rightarrow> 'n" where
  "entry_sum owner amount i es = (\<Sum>e\<leftarrow>filter (\<lambda>e. owner e = i) es. amount e)"

definition ledger_balanced ::
  "('r \<Rightarrow> id) \<Rightarrow> ('r \<Rightarrow> 'n :: comm_monoid_add) \<Rightarrow> ('e \<Rightarrow> id) \<Rightarrow> ('e \<Rightarrow> 'n) \<Rightarrow> 'r list \<Rightarrow> 'e list \<Rightarrow> bool" where
  "ledger_balanced key balance owner amount rs es \<longleftrightarrow>
     distinct (map key rs) \<and> owner ` set es \<subseteq> key ` set rs \<and>
     (\<forall>r \<in> set rs. balance r = entry_sum owner amount (key r) es)"

lemma entry_sum_simps [simp]:
  "entry_sum owner amount i [] = 0"
  "entry_sum owner amount i (es @ fs) = entry_sum owner amount i es + entry_sum owner amount i fs"
  "entry_sum owner amount i [e] = (if owner e = i then amount e else 0)"
  by (simp_all add: entry_sum_def)

lemma entry_sum_unused: "i \<notin> owner ` set es \<Longrightarrow> entry_sum owner amount i es = 0"
  by (induction es) (auto simp: entry_sum_def)

locale ledger = table rows rows_update key
  for rows :: "'db \<Rightarrow> 'r list" and rows_update :: "('r list \<Rightarrow> 'r list) \<Rightarrow> 'db \<Rightarrow> 'db" and key :: "'r \<Rightarrow> id" +
  fixes balance :: "'r \<Rightarrow> 'n :: comm_monoid_add"
    and entries :: "'db \<Rightarrow> 'e list"
    and entries_update :: "('e list \<Rightarrow> 'e list) \<Rightarrow> 'db \<Rightarrow> 'db"
    and owner :: "'e \<Rightarrow> id"
    and amount :: "'e \<Rightarrow> 'n"
  assumes entries_of_update: "entries (entries_update g d) = g (entries d)"
    and entries_of_rows_update: "entries (rows_update f d) = entries d"
    and rows_of_entries_update: "rows (entries_update g d) = rows d"
begin

abbreviation balanced :: "'db \<Rightarrow> bool" where
  "balanced d \<equiv> ledger_balanced key balance owner amount (rows d) (entries d)"

text \<open>Posting an entry against an existing row, which moves by the amount of the entry.\<close>

lemma balanced_post:
  assumes b: "balanced d" and look: "row_by key i (rows d) = Some r"
    and f: "\<And>s. key (f s) = key s" "balance (f r) = balance r + amount e" and e: "owner e = i"
  shows "balanced (entries_update (\<lambda>es. es @ [e]) (rows_update (set_row key i f) d))"
proof -
  have r: "r \<in> set (rows d)" "key r = i" using row_by_Some [OF look] by auto
  have same: "s = r" if "s \<in> set (rows d)" "key s = i" for s
    using b that r row_by_distinct [of key "rows d" s] look by (simp add: ledger_balanced_def)
  have old: "balance s = entry_sum owner amount (key s) (entries d)" if "s \<in> set (rows d)" for s
    using b that by (simp add: ledger_balanced_def)
  have "balance s' = entry_sum owner amount (key s') (entries d @ [e])"
    if "s' \<in> set (set_row key i f (rows d))" for s'
    using that
  proof (cases rule: set_row_memberE)
    case (1 s)
    then show ?thesis using same [of s] f e r old [OF r(1)] by simp
  next
    case 2
    then show ?thesis using e old [OF 2(1)] by simp
  qed
  moreover have "owner ` set (entries d @ [e]) \<subseteq> key ` set (rows d)"
    using b r e by (auto simp: ledger_balanced_def)
  ultimately show ?thesis using b f(1)
    by (simp add: ledger_balanced_def entries_of_update rows_of_entries_update rows_of_update
        entries_of_rows_update map_key_set_row image_key_set_row del: set_append)
qed

text \<open>A new row with its opening entry, and a new row with balance zero and none.\<close>

lemma unused_key: "balanced d \<Longrightarrow> i \<notin> key ` set (rows d) \<Longrightarrow> entry_sum owner amount i (entries d) = 0"
  by (rule entry_sum_unused) (auto simp: ledger_balanced_def)

lemma balanced_open:
  assumes "balanced d" and "key r \<notin> key ` set (rows d)" and "owner e = key r" and "balance r = amount e"
  shows "balanced (entries_update (\<lambda>es. es @ [e]) (rows_update (\<lambda>rs. rs @ [r]) d))"
  using assms unused_key [OF assms(1,2)]
  by (auto simp: ledger_balanced_def entries_of_update rows_of_entries_update rows_of_update entries_of_rows_update)

lemma balanced_open_empty:
  assumes "balanced d" and "key r \<notin> key ` set (rows d)" and "balance r = 0"
  shows "balanced (rows_update (\<lambda>rs. rs @ [r]) d)"
  using assms unused_key [OF assms(1,2)]
  by (auto simp: ledger_balanced_def rows_of_update entries_of_rows_update)

text \<open>A change of a row that leaves its balance alone.\<close>

lemma balanced_touch:
  assumes "balanced d" and f: "\<And>s. key (f s) = key s" "\<And>s. balance (f s) = balance s"
  shows "balanced (rows_update (set_row key i f) d)"
proof -
  have "balance s = entry_sum owner amount (key s) (entries d)" if "s \<in> set (set_row key i f (rows d))" for s
    using that by (elim set_row_memberE) (use assms in \<open>auto simp: ledger_balanced_def\<close>)
  then show ?thesis using assms(1) f(1)
    by (simp add: ledger_balanced_def rows_of_update entries_of_rows_update map_key_set_row image_key_set_row)
qed

end

section \<open>Drawn identifiers\<close>

text \<open>The ids in use were drawn before the \<open>n\<close>th: the next one is new, and later draws keep that.\<close>

lemma unused_id:
  assumes "inj src" and "X \<subseteq> src ` {..<n :: nat}"
  shows "src n \<notin> X"
proof
  assume "src n \<in> X"
  with assms(2) obtain k where "k < n" "src n = src k" by blast
  then show False using injD [OF assms(1), of n k] by simp
qed

lemma drawn_mono: "X \<subseteq> src ` {..<n :: nat} \<Longrightarrow> n \<le> m \<Longrightarrow> X \<subseteq> src ` {..<m}"
  by (erule subset_trans) (rule image_mono, simp)

lemma drawn_later: "X \<subseteq> src ` {..<n :: nat} \<Longrightarrow> n \<le> m \<Longrightarrow> x \<in> X \<Longrightarrow> x \<in> src ` {..<m}"
  using drawn_mono by blast

lemma drawn_next: "X \<subseteq> src ` {..<n :: nat} \<Longrightarrow> X \<subseteq> src ` {..<n + 1}" "src n \<in> src ` {..<n + 1 :: nat}"
  by (erule drawn_mono) simp_all

end
