(* ===== verification/Money.thy ===== *)
theory Money
  imports Prelude
begin

text \<open>
  The money arithmetic of \<open>packages/shared/src/money.ts\<close>, \<open>billing.ts\<close> and \<open>coupon.ts\<close>, and
  the CGST/SGST/IGST split of \<open>invoices.service.ts\<close>: paise conversions, bill totals, the
  largest-remainder allocation, the equal split of a bill and the coupon rules.
\<close>

section \<open>Paise\<close>

definition toPaise :: "num \<Rightarrow> int" where
  "toPaise rupees = js_round (rupees * 100)"

definition fromPaise :: "num \<Rightarrow> num" where
  "fromPaise paise = of_int (js_round paise) / 100"

definition lineTotalPaise :: "num \<Rightarrow> int \<Rightarrow> int" where
  "lineTotalPaise unitPriceRupees quantity = toPaise unitPriceRupees * quantity"

lemma fromPaise_of_int [simp]: "fromPaise (of_int n) = of_int n / 100"
  by (simp add: fromPaise_def)

lemma fromPaise_numeral_simps [simp]:
  "fromPaise 0 = 0" "fromPaise 1 = 1 / 100" "fromPaise (numeral k) = numeral k / 100"
  using fromPaise_of_int [of 0] fromPaise_of_int [of 1] fromPaise_of_int [of "numeral k"]
  by simp_all

lemma toPaise_of_int_div [simp]: "toPaise (of_int n / 100) = n"
  by (simp add: toPaise_def)

lemma toPaise_fromPaise: "toPaise (fromPaise (of_int n)) = n"
  by simp

lemma toPaise_of_int: "toPaise (of_int n) = n * 100"
  unfolding toPaise_def using js_round_of_int [of "n * 100"] by simp

lemma toPaise_numeral [simp]: "toPaise (numeral n) = numeral n * 100" "toPaise 1 = 100"
  using toPaise_of_int [of "numeral n"] toPaise_of_int [of 1] by simp_all

lemma paise_exact_numeral [simp]: "decimals 2 (numeral n)" "decimals 2 1"
  by (simp_all add: decimals_def)

lemma toPaise_0 [simp]: "toPaise 0 = 0"
  by (simp add: toPaise_def)

lemma toPaise_mono: "x \<le> y \<Longrightarrow> toPaise x \<le> toPaise y"
  by (simp add: toPaise_def js_round_mono)

lemma toPaise_nonneg: "0 \<le> x \<Longrightarrow> 0 \<le> toPaise x"
  by (simp add: toPaise_def js_round_nonneg)

text \<open>An amount of whole paise: the amounts the schemas admit (\<open>multipleOf(0.01)\<close>) and the columns hold.\<close>

abbreviation paise_exact :: "num \<Rightarrow> bool" where
  "paise_exact x \<equiv> decimals 2 x"

lemma paise_exact_iff: "paise_exact x \<longleftrightarrow> of_int (toPaise x) / 100 = x"
proof
  assume "paise_exact x"
  then obtain n :: int where "x = of_int n / 10 ^ 2" by (rule decimalsE)
  then have "x = of_int n / 100" by simp
  then show "of_int (toPaise x) / 100 = x" by (simp only: toPaise_of_int_div)
next
  assume "of_int (toPaise x) / 100 = x"
  then have "x = of_int (toPaise x) / 10 ^ 2" by simp
  then show "paise_exact x" by (metis decimals_of_int_div)
qed

lemma paise_exact_of_int_div [simp]: "paise_exact (of_int n / 100)"
  using decimals_of_int_div [of 2 n] by simp

lemma paise_exact_toPaise: "paise_exact x \<Longrightarrow> of_int (toPaise x) = x * 100"
  by (simp add: paise_exact_iff field_simps)

section \<open>Bill totals\<close>

record money_line =
  ml_lineTotalPaise :: int
  ml_taxRatePercent :: num

record order_totals =
  ot_subtotal :: num
  ot_discountAmount :: num
  ot_taxAmount :: num
  ot_total :: num

definition subtotal_paise :: "money_line list \<Rightarrow> int" where
  "subtotal_paise lines = (\<Sum>l\<leftarrow>lines. ml_lineTotalPaise l)"

definition raw_tax_paise :: "money_line list \<Rightarrow> num" where
  "raw_tax_paise lines = (\<Sum>l\<leftarrow>lines. of_int (ml_lineTotalPaise l) * ml_taxRatePercent l / 100)"

definition computeOrderTotals :: "money_line list \<Rightarrow> num \<Rightarrow> order_totals" where
  "computeOrderTotals lines discountRupees =
    (let subtotalPaise = subtotal_paise lines;
         discountPaise = min (max 0 (toPaise discountRupees)) subtotalPaise;
         taxablePaise = subtotalPaise - discountPaise;
         rawTaxPaise = raw_tax_paise lines;
         taxPaise = (if subtotalPaise > 0
                     then js_round (rawTaxPaise * of_int taxablePaise / of_int subtotalPaise) else 0);
         totalPaise = taxablePaise + taxPaise
     in \<lparr> ot_subtotal = fromPaise (of_int subtotalPaise),
          ot_discountAmount = fromPaise (of_int discountPaise),
          ot_taxAmount = fromPaise (of_int taxPaise),
          ot_total = fromPaise (of_int totalPaise) \<rparr>)"

record service_charge =
  sc_percent :: num
  sc_taxable :: bool

record bill_options =
  bo_discountRupees :: num
  bo_serviceCharge :: "service_charge option"
  bo_roundOff :: bool

record bill_totals = order_totals +
  bt_serviceChargeAmount :: num
  bt_roundOff :: num
  bt_totalBeforeRoundOff :: num

definition computeBill :: "money_line list \<Rightarrow> bill_options \<Rightarrow> bill_totals" where
  "computeBill lines opts =
    (let subtotalPaise = subtotal_paise lines;
         discountPaise = min (max 0 (toPaise (bo_discountRupees opts))) subtotalPaise;
         taxablePaise = subtotalPaise - discountPaise;
         sc = bo_serviceCharge opts;
         scPaise = (case sc of None \<Rightarrow> 0
                    | Some c \<Rightarrow> if sc_percent c > 0
                                then js_round (of_int taxablePaise * sc_percent c / 100) else 0);
         rawTaxPaise = raw_tax_paise lines;
         taxBasePaise = taxablePaise + (case sc of None \<Rightarrow> 0 | Some c \<Rightarrow> if sc_taxable c then scPaise else 0);
         taxPaise = (if subtotalPaise > 0
                     then js_round (rawTaxPaise * of_int taxBasePaise / of_int subtotalPaise) else 0);
         preRoundPaise = taxablePaise + scPaise + taxPaise;
         totalPaise = (if bo_roundOff opts then js_round (of_int preRoundPaise / 100) * 100
                       else preRoundPaise)
     in \<lparr> ot_subtotal = fromPaise (of_int subtotalPaise),
          ot_discountAmount = fromPaise (of_int discountPaise),
          ot_taxAmount = fromPaise (of_int taxPaise),
          ot_total = fromPaise (of_int totalPaise),
          bt_serviceChargeAmount = fromPaise (of_int scPaise),
          bt_roundOff = fromPaise (of_int (totalPaise - preRoundPaise)),
          bt_totalBeforeRoundOff = fromPaise (of_int preRoundPaise) \<rparr>)"

section \<open>Largest-remainder allocation\<close>

fun hand_out :: "nat \<Rightarrow> nat \<Rightarrow> nat list \<Rightarrow> int list \<Rightarrow> int list" where
  "hand_out 0 k ord parts = parts"
| "hand_out (Suc rest) k ord parts =
     hand_out rest ((k + 1) mod length ord) ord (parts[ord ! k := parts ! (ord ! k) + 1])"

definition by_fraction :: "num list \<Rightarrow> nat list" where
  "by_fraction exact =
     sort_key (\<lambda>i. (- frac (exact ! i), i)) [0 ..< length exact]"

definition exact_shares :: "int \<Rightarrow> num list \<Rightarrow> num list" where
  "exact_shares totalPaise weights =
    (let s = (\<Sum>w\<leftarrow>weights. max 0 w);
         ws = (if s > 0 then map (max 0) weights else map (\<lambda>_. 1) weights);
         wSum = (if s > 0 then s else of_nat (length weights))
     in map (\<lambda>x. of_int totalPaise * x / wSum) ws)"

definition allocatePaise :: "int \<Rightarrow> num list \<Rightarrow> int list" where
  "allocatePaise totalPaise weights =
    (if weights = [] then []
     else let exact = exact_shares totalPaise weights;
              parts = map floor exact;
              rest = totalPaise - sum_list parts
          in hand_out (nat rest) 0 (by_fraction exact) parts)"

section \<open>Equal split\<close>

definition bump :: "nat \<Rightarrow> nat \<Rightarrow> int list list \<Rightarrow> int list list" where
  "bump c li out = out[c := (out ! c)[li := out ! c ! li + 1]]"

definition split_line :: "nat \<Rightarrow> int \<times> nat \<Rightarrow> int list list \<times> nat \<Rightarrow> int list list \<times> nat" where
  "split_line parts = (\<lambda>(p, li) (out, offset).
    (let base = p div int parts;
         rem = nat (p - base * int parts);
         out1 = map (\<lambda>row. row[li := base]) out;
         out2 = fold (\<lambda>k m. bump ((offset + k) mod parts) li m) [0 ..< rem] out1
     in (out2, (offset + rem) mod parts)))"

definition splitLinesEqually :: "int list \<Rightarrow> nat \<Rightarrow> int list list" where
  "splitLinesEqually linePaise parts =
     fst (fold (split_line parts) (zip linePaise [0 ..< length linePaise])
            (replicate parts (map (\<lambda>_. 0) linePaise), 0))"

section \<open>The tax split\<close>

definition stateOf :: "string option \<Rightarrow> string option" where
  "stateOf gstin = (case gstin of None \<Rightarrow> None
                    | Some g \<Rightarrow> if 2 \<le> length g then Some (take 2 g) else None)"

record tax_split =
  cgst :: num
  sgst :: num
  igst :: num
  interState :: bool

definition splitTax :: "num \<Rightarrow> string option \<Rightarrow> string option \<Rightarrow> tax_split" where
  "splitTax tax sellerState buyerGstin =
    (let buyerState = stateOf buyerGstin;
         inter = truthy buyerState \<and> truthy sellerState \<and> buyerState \<noteq> sellerState
     in if inter
        then \<lparr> cgst = 0, sgst = 0, igst = of_int (js_round (tax * 100)) / 100, interState = True \<rparr>
        else let taxPaise = toPaise tax; cgstPaise = taxPaise div 2
             in \<lparr> cgst = fromPaise (of_int cgstPaise), sgst = fromPaise (of_int (taxPaise - cgstPaise)),
                  igst = 0, interState = False \<rparr>)"

section \<open>Coupons\<close>

datatype coupon_type = PERCENT | FLAT

record coupon_rule =
  cr_type :: coupon_type
  cr_value :: num
  cr_minOrder :: num
  cr_maxDiscount :: "num option"
  cr_validFrom :: "int option"
  cr_validTo :: "int option"
  cr_usageLimit :: "int option"
  cr_usedCount :: int
  cr_isActive :: bool

record coupon_evaluation =
  ce_valid :: bool
  ce_discount :: num
  ce_message :: msg

definition rejected :: "msg \<Rightarrow> coupon_evaluation" where
  "rejected m = \<lparr> ce_valid = False, ce_discount = 0, ce_message = m \<rparr>"

definition coupon_discount :: "coupon_rule \<Rightarrow> num \<Rightarrow> num" where
  "coupon_discount c sub =
    (let d0 = (case cr_type c of PERCENT \<Rightarrow> sub * cr_value c / 100 | FLAT \<Rightarrow> cr_value c);
         d1 = (case cr_maxDiscount c of None \<Rightarrow> d0 | Some m \<Rightarrow> min d0 m);
         d2 = min d1 sub
     in of_int (js_round (d2 * 100)) / 100)"

definition evaluateCoupon :: "coupon_rule option \<Rightarrow> num \<Rightarrow> int \<Rightarrow> coupon_evaluation" where
  "evaluateCoupon coupon sub now =
    (case coupon of
       None \<Rightarrow> rejected [Txt ''Coupon not found'']
     | Some c \<Rightarrow>
         if \<not> cr_isActive c then rejected [Txt ''Coupon is inactive'']
         else if (case cr_validFrom c of None \<Rightarrow> False | Some f \<Rightarrow> now < f)
           then rejected [Txt ''Coupon is not valid yet'']
         else if (case cr_validTo c of None \<Rightarrow> False | Some t \<Rightarrow> now > t)
           then rejected [Txt ''Coupon has expired'']
         else if (case cr_usageLimit c of None \<Rightarrow> False | Some u \<Rightarrow> cr_usedCount c \<ge> u)
           then rejected [Txt ''Coupon usage limit reached'']
         else if sub < cr_minOrder c
           then rejected [Txt ''Requires a minimum order of Rs '', Num (cr_minOrder c)]
         else \<lparr> ce_valid = True, ce_discount = coupon_discount c sub,
                ce_message = [Txt ''Coupon applied''] \<rparr>)"

section \<open>Totals: facts\<close>

lemma min_max_paise: "0 \<le> (s::int) \<Longrightarrow> 0 \<le> min (max 0 d) s \<and> min (max 0 d) s \<le> s"
  by linarith

lemma subtotal_paise_nonneg:
  "\<forall>l\<in>set lines. 0 \<le> ml_lineTotalPaise l \<Longrightarrow> 0 \<le> subtotal_paise lines"
  unfolding subtotal_paise_def by (rule sum_list_nonneg_map) simp

lemma raw_tax_paise_nonneg:
  "\<forall>l\<in>set lines. 0 \<le> ml_lineTotalPaise l \<and> 0 \<le> ml_taxRatePercent l \<Longrightarrow> 0 \<le> raw_tax_paise lines"
  unfolding raw_tax_paise_def by (rule sum_list_nonneg_map) simp

lemma js_round_div_100: "js_round (of_int n / 100) * 100 - n \<in> {-49 .. 50}"
proof -
  have "(of_int n / 100 :: rat) - 1/2 < of_int (js_round (of_int n / 100))"
    and "of_int (js_round (of_int n / 100)) \<le> (of_int n / 100 :: rat) + 1/2"
    using js_round_bounds by blast+
  then have "(of_int n :: rat) - 50 < of_int (js_round (of_int n / 100) * 100)"
    and "of_int (js_round (of_int n / 100) * 100) \<le> (of_int n :: rat) + 50"
    by simp_all
  then have "n - 50 < js_round (of_int n / 100) * 100" and "js_round (of_int n / 100) * 100 \<le> n + 50"
    by linarith+
  then show ?thesis by simp
qed

text \<open>Without service charge and round-off the full bill is the plain formula the offline device uses.\<close>

theorem computeBill_plain:
  "order_totals.truncate (computeBill lines \<lparr>bo_discountRupees = d, bo_serviceCharge = None, bo_roundOff = False\<rparr>)
     = computeOrderTotals lines d
   \<and> bt_serviceChargeAmount (computeBill lines \<lparr>bo_discountRupees = d, bo_serviceCharge = None, bo_roundOff = False\<rparr>) = 0
   \<and> bt_roundOff (computeBill lines \<lparr>bo_discountRupees = d, bo_serviceCharge = None, bo_roundOff = False\<rparr>) = 0"
  by (simp add: computeBill_def computeOrderTotals_def order_totals.defs Let_def)

text \<open>The figures of a bill in paise, one by one, for the proofs below.\<close>

definition bill_discount :: "money_line list \<Rightarrow> bill_options \<Rightarrow> int" where
  "bill_discount lines opts = min (max 0 (toPaise (bo_discountRupees opts))) (subtotal_paise lines)"

definition bill_taxable :: "money_line list \<Rightarrow> bill_options \<Rightarrow> int" where
  "bill_taxable lines opts = subtotal_paise lines - bill_discount lines opts"

definition bill_service :: "money_line list \<Rightarrow> bill_options \<Rightarrow> int" where
  "bill_service lines opts = (case bo_serviceCharge opts of None \<Rightarrow> 0
     | Some c \<Rightarrow> if sc_percent c > 0 then js_round (of_int (bill_taxable lines opts) * sc_percent c / 100) else 0)"

definition bill_base :: "money_line list \<Rightarrow> bill_options \<Rightarrow> int" where
  "bill_base lines opts = bill_taxable lines opts
     + (case bo_serviceCharge opts of None \<Rightarrow> 0 | Some c \<Rightarrow> if sc_taxable c then bill_service lines opts else 0)"

definition bill_tax :: "money_line list \<Rightarrow> bill_options \<Rightarrow> int" where
  "bill_tax lines opts = (if subtotal_paise lines > 0
     then js_round (raw_tax_paise lines * of_int (bill_base lines opts) / of_int (subtotal_paise lines)) else 0)"

definition bill_pre :: "money_line list \<Rightarrow> bill_options \<Rightarrow> int" where
  "bill_pre lines opts = bill_taxable lines opts + bill_service lines opts + bill_tax lines opts"

definition bill_total :: "money_line list \<Rightarrow> bill_options \<Rightarrow> int" where
  "bill_total lines opts = (if bo_roundOff opts then js_round (of_int (bill_pre lines opts) / 100) * 100
     else bill_pre lines opts)"

lemma computeBill_paise:
  "computeBill lines opts =
     \<lparr> ot_subtotal = of_int (subtotal_paise lines) / 100,
       ot_discountAmount = of_int (bill_discount lines opts) / 100,
       ot_taxAmount = of_int (bill_tax lines opts) / 100,
       ot_total = of_int (bill_total lines opts) / 100,
       bt_serviceChargeAmount = of_int (bill_service lines opts) / 100,
       bt_roundOff = of_int (bill_total lines opts - bill_pre lines opts) / 100,
       bt_totalBeforeRoundOff = of_int (bill_pre lines opts) / 100 \<rparr>"
  unfolding computeBill_def Let_def fromPaise_of_int bill_total_def bill_pre_def bill_tax_def bill_base_def
    bill_service_def bill_taxable_def bill_discount_def ..

text \<open>C1. Every bill balances to the paisa: the total is the discounted subtotal plus service charge, tax and round-off.\<close>

theorem computeBill_balances:
  "ot_total (computeBill lines opts) =
     ot_subtotal (computeBill lines opts) - ot_discountAmount (computeBill lines opts)
       + bt_serviceChargeAmount (computeBill lines opts) + ot_taxAmount (computeBill lines opts)
       + bt_roundOff (computeBill lines opts)"
  by (simp add: computeBill_paise bill_pre_def bill_taxable_def diff_divide_distrib add_divide_distrib)

text \<open>With round-off the payable total is a whole number of rupees and the recorded
  adjustment lies between -0.49 and +0.50 rupees.\<close>

theorem computeBill_roundOff_range:
  assumes "bo_roundOff opts"
  shows "ot_total (computeBill lines opts) \<in> \<int>
     \<and> - 49 / 100 \<le> bt_roundOff (computeBill lines opts)
     \<and> bt_roundOff (computeBill lines opts) \<le> 50 / 100"
proof -
  let ?pre = "bill_pre lines opts"
  have t: "bill_total lines opts = js_round (of_int ?pre / 100) * 100"
    using assms by (simp add: bill_total_def)
  have "- 49 \<le> bill_total lines opts - ?pre" "bill_total lines opts - ?pre \<le> 50"
    using js_round_div_100 [of ?pre] by (simp_all add: t)
  then have "(- 49 :: rat) \<le> of_int (bill_total lines opts - ?pre)"
    "of_int (bill_total lines opts - ?pre) \<le> (50 :: rat)"
    by linarith+
  moreover have "ot_total (computeBill lines opts) = of_int (js_round (of_int ?pre / 100))"
    by (simp add: computeBill_paise t)
  ultimately show ?thesis by (simp add: computeBill_paise divide_right_mono)
qed

theorem computeBill_roundOff_range_witness:
  "ot_total (computeBill [\<lparr>ml_lineTotalPaise = 10150, ml_taxRatePercent = 5\<rparr>]
       \<lparr>bo_discountRupees = 0, bo_serviceCharge = None, bo_roundOff = True\<rparr>) \<in> \<int>"
  using computeBill_roundOff_range
    [of "\<lparr>bo_discountRupees = 0, bo_serviceCharge = None, bo_roundOff = True\<rparr>"
        "[\<lparr>ml_lineTotalPaise = 10150, ml_taxRatePercent = 5\<rparr>]"]
  by simp

text \<open>Monotonicity in the discount, figure by figure.\<close>

lemma bill_taxable_antimono:
  assumes "bo_discountRupees o1 \<le> bo_discountRupees o2"
  shows "bill_taxable lines o2 \<le> bill_taxable lines o1"
  using toPaise_mono [OF assms] by (simp add: bill_taxable_def bill_discount_def)

lemma bill_taxable_nonneg: "0 \<le> subtotal_paise lines \<Longrightarrow> 0 \<le> bill_taxable lines opts"
  by (simp add: bill_taxable_def bill_discount_def)

lemma bill_service_mono:
  assumes "bill_taxable lines o2 \<le> bill_taxable lines o1" and "bo_serviceCharge o1 = bo_serviceCharge o2"
  shows "bill_service lines o2 \<le> bill_service lines o1"
proof (cases "bo_serviceCharge o2")
  case None
  with assms show ?thesis by (simp add: bill_service_def)
next
  case (Some c)
  have "0 < sc_percent c \<Longrightarrow>
      of_int (bill_taxable lines o2) * sc_percent c / 100 \<le> of_int (bill_taxable lines o1) * sc_percent c / 100"
    using assms(1) by (simp add: divide_right_mono mult_right_mono)
  with Some assms(2) show ?thesis by (simp add: bill_service_def js_round_mono)
qed

lemma bill_service_nonneg:
  "0 \<le> subtotal_paise lines \<Longrightarrow> 0 \<le> bill_service lines opts"
  using bill_taxable_nonneg [of lines opts]
  by (auto simp: bill_service_def js_round_nonneg split: option.split)

lemma bill_tax_mono:
  assumes "bill_base lines o2 \<le> bill_base lines o1" and "0 \<le> raw_tax_paise lines"
  shows "bill_tax lines o2 \<le> bill_tax lines o1"
proof -
  have "raw_tax_paise lines * of_int (bill_base lines o2) \<le> raw_tax_paise lines * of_int (bill_base lines o1)"
    using assms by (simp add: mult_left_mono)
  then show ?thesis by (simp add: bill_tax_def js_round_mono divide_right_mono)
qed

lemma bill_tax_nonneg:
  assumes "0 \<le> subtotal_paise lines" and "0 \<le> raw_tax_paise lines"
  shows "0 \<le> bill_tax lines opts"
proof -
  have "0 \<le> bill_base lines opts"
    using bill_taxable_nonneg [OF assms(1), of opts] bill_service_nonneg [OF assms(1), of opts]
    by (auto simp: bill_base_def split: option.split)
  then have "0 \<le> raw_tax_paise lines * of_int (bill_base lines opts) / of_int (subtotal_paise lines)"
    using assms by simp
  then show ?thesis by (simp add: bill_tax_def js_round_nonneg)
qed

lemma bill_total_mono: "bill_pre lines o2 \<le> bill_pre lines o1 \<Longrightarrow> bo_roundOff o1 = bo_roundOff o2 \<Longrightarrow>
  bill_total lines o2 \<le> bill_total lines o1"
  by (simp add: bill_total_def js_round_mono divide_right_mono)

text \<open>A larger discount never raises the payable total, and no total is negative, with or
  without service charge (taxable or not) and round-off.\<close>

theorem computeBill_total_antimono:
  assumes "\<forall>l\<in>set lines. 0 \<le> ml_lineTotalPaise l \<and> 0 \<le> ml_taxRatePercent l"
    and "d1 \<le> d2"
  shows "0 \<le> ot_total (computeBill lines (opts\<lparr>bo_discountRupees := d2\<rparr>))
    \<and> ot_total (computeBill lines (opts\<lparr>bo_discountRupees := d2\<rparr>))
        \<le> ot_total (computeBill lines (opts\<lparr>bo_discountRupees := d1\<rparr>))"
proof -
  let ?o1 = "opts\<lparr>bo_discountRupees := d1\<rparr>" and ?o2 = "opts\<lparr>bo_discountRupees := d2\<rparr>"
  have s: "0 \<le> subtotal_paise lines" and r: "0 \<le> raw_tax_paise lines"
    using assms(1) subtotal_paise_nonneg raw_tax_paise_nonneg by blast+
  have t: "bill_taxable lines ?o2 \<le> bill_taxable lines ?o1"
    by (rule bill_taxable_antimono) (simp add: assms(2))
  then have sv: "bill_service lines ?o2 \<le> bill_service lines ?o1"
    by (rule bill_service_mono) simp
  have "bill_base lines ?o2 \<le> bill_base lines ?o1"
    using t sv by (auto simp: bill_base_def split: option.split)
  then have tx: "bill_tax lines ?o2 \<le> bill_tax lines ?o1" using r by (rule bill_tax_mono)
  have le: "bill_total lines ?o2 \<le> bill_total lines ?o1"
    using t sv tx by (intro bill_total_mono) (simp_all add: bill_pre_def)
  have pre: "0 \<le> bill_pre lines ?o2"
    using bill_taxable_nonneg [OF s, of ?o2] bill_service_nonneg [OF s, of ?o2] bill_tax_nonneg [OF s r, of ?o2]
    by (simp add: bill_pre_def)
  have "0 \<le> bill_total lines ?o2"
    using pre js_round_nonneg [of "of_int (bill_pre lines ?o2) / 100"] by (simp add: bill_total_def)
  with le show ?thesis by (simp add: computeBill_paise divide_right_mono)
qed

theorem computeBill_total_antimono_witness:
  "0 \<le> ot_total (computeBill [\<lparr>ml_lineTotalPaise = 25000, ml_taxRatePercent = 5\<rparr>]
       \<lparr>bo_discountRupees = 100, bo_serviceCharge = Some \<lparr>sc_percent = 10, sc_taxable = True\<rparr>, bo_roundOff = True\<rparr>)"
  using computeBill_total_antimono [of "[\<lparr>ml_lineTotalPaise = 25000, ml_taxRatePercent = 5\<rparr>]" 0 100
    "\<lparr>bo_discountRupees = 0, bo_serviceCharge = Some \<lparr>sc_percent = 10, sc_taxable = True\<rparr>, bo_roundOff = True\<rparr>"]
  by simp

section \<open>Allocation: facts\<close>

lemma length_hand_out [simp]: "length (hand_out r k ord parts) = length parts"
  by (induction r k ord parts rule: hand_out.induct) simp_all

lemma hand_out_sum:
  assumes "k < length ord" and "\<forall>i\<in>set ord. i < length parts"
  shows "sum_list (hand_out r k ord parts) = sum_list parts + int r"
  using assms
proof (induction r k ord parts rule: hand_out.induct)
  case (1 k ord parts)
  then show ?case by simp
next
  case (2 rest k ord parts)
  then have "ord ! k < length parts" by simp
  moreover have "(k + 1) mod length ord < length ord" using "2.prems" by (intro mod_less_divisor) auto
  ultimately show ?case using "2.IH" "2.prems" by (simp add: sum_list_update_int)
qed

text \<open>Within one round of the loop every index of \<open>order\<close> gets at most one paisa.\<close>

lemma hand_out_nth:
  assumes "k + r \<le> length ord" and "distinct ord" and "\<forall>i\<in>set ord. i < length parts" and "i < length parts"
  shows "hand_out r k ord parts ! i = parts ! i + (if i \<in> set (take r (drop k ord)) then 1 else 0)"
  using assms
proof (induction r arbitrary: k parts)
  case 0
  then show ?case by simp
next
  case (Suc r)
  let ?ps = "parts[ord ! k := parts ! (ord ! k) + 1]"
  have k: "k < length ord" using Suc.prems(1) by simp
  have d: "drop k ord = ord ! k # drop (Suc k) ord" using k by (simp add: Cons_nth_drop_Suc)
  have notin: "ord ! k \<notin> set (take r (drop (Suc k) ord))"
    using Suc.prems(2) k d by (metis distinct.simps(2) distinct_drop in_set_takeD)
  have "hand_out (Suc r) k ord parts ! i = hand_out r (if Suc k < length ord then Suc k else 0) ord ?ps ! i"
    using k by (simp add: mod_Suc)
  also have "\<dots> = ?ps ! i + (if i \<in> set (take r (drop (Suc k) ord)) then 1 else 0)"
  proof (cases "Suc k < length ord")
    case True
    then show ?thesis using Suc.prems by (simp add: Suc.IH)
  next
    case False
    then have "r = 0" using Suc.prems(1) by simp
    then show ?thesis by simp
  qed
  finally show ?case using Suc.prems k d notin by (auto simp: nth_list_update)
qed

lemma by_fraction_props:
  "mset (by_fraction exact) = mset [0 ..< length exact]"
  "distinct (by_fraction exact)" "length (by_fraction exact) = length exact"
  "set (by_fraction exact) = {..< length exact}"
  by (auto simp: by_fraction_def)

lemma by_fraction_decreasing:
  assumes "j \<le> l" and "l < length exact"
  shows "frac (exact ! (by_fraction exact ! l)) \<le> frac (exact ! (by_fraction exact ! j))"
proof -
  let ?f = "\<lambda>i. (- frac (exact ! i), i)"
  have "sorted (map ?f (by_fraction exact))" by (simp add: by_fraction_def)
  then have "?f (by_fraction exact ! j) \<le> ?f (by_fraction exact ! l)"
    using assms by (auto simp: sorted_iff_nth_mono by_fraction_props)
  then show ?thesis by (auto simp: less_eq_prod_def)
qed

lemma sum_list_frac_floor:
  "(\<Sum>x\<leftarrow>xs. (x :: rat)) = of_int (\<Sum>x\<leftarrow>xs. \<lfloor>x\<rfloor>) + (\<Sum>x\<leftarrow>xs. frac x)"
  by (induction xs) (simp_all add: frac_def)

lemma length_exact_shares [simp]: "length (exact_shares t ws) = length ws"
  by (simp add: exact_shares_def Let_def)

lemma sum_exact_shares:
  assumes "ws \<noteq> []" shows "sum_list (exact_shares t ws) = of_int t"
proof -
  define s where "s = (\<Sum>w\<leftarrow>ws. max 0 (w :: rat))"
  have dist: "(\<Sum>x\<leftarrow>xs. of_int t * x / c) = of_int t * sum_list xs / c" for xs and c :: rat
    by (induction xs) (simp_all add: distrib_left add_divide_distrib)
  have "map (max 0) ws = map (\<lambda>w. max 0 w) ws" by simp
  then show ?thesis
    using assms
    by (auto simp: exact_shares_def Let_def dist sum_list_triv simp flip: s_def)
qed

text \<open>The number of left-over paise is the sum of the fractional parts.\<close>

lemma rest_is_frac_sum:
  assumes "ws \<noteq> []"
  shows "of_int (t - sum_list (map floor (exact_shares t ws))) = (\<Sum>x\<leftarrow>exact_shares t ws. frac x)"
  using sum_list_frac_floor [of "exact_shares t ws"] sum_exact_shares [OF assms, of t] by simp

lemma sum_list_frac_bounds: "0 \<le> (\<Sum>x\<leftarrow>xs. frac (x :: rat)) \<and> (\<Sum>x\<leftarrow>xs. frac x) \<le> of_nat (length xs)"
proof (induction xs)
  case Nil
  then show ?case by simp
next
  case (Cons x xs)
  then show ?case using frac_ge_0 [of x] frac_lt_1 [of x] by simp
qed

lemma rest_range:
  assumes "ws \<noteq> []"
  shows "0 \<le> t - sum_list (map floor (exact_shares t ws))
    \<and> nat (t - sum_list (map floor (exact_shares t ws))) \<le> length ws"
proof -
  let ?r = "t - sum_list (map floor (exact_shares t ws))"
  have "(0 :: rat) \<le> of_int ?r" and "(of_int ?r :: rat) \<le> of_nat (length ws)"
    using rest_is_frac_sum [OF assms, of t] sum_list_frac_bounds [of "exact_shares t ws"] by simp_all
  then have "0 \<le> ?r" and "?r \<le> int (length ws)" by linarith+
  then show ?thesis by linarith
qed

text \<open>Only parts whose exact share is fractional are rounded up.\<close>

lemma rounded_up_fractional:
  assumes "ws \<noteq> []"
    and "i \<in> set (take (nat (t - sum_list (map floor (exact_shares t ws)))) (by_fraction (exact_shares t ws)))"
  shows "0 < frac (exact_shares t ws ! i)"
proof (rule ccontr)
  let ?x = "exact_shares t ws" and ?ord = "by_fraction (exact_shares t ws)"
  let ?r = "nat (t - sum_list (map floor ?x))" and ?f = "\<lambda>i. frac (exact_shares t ws ! i)"
  assume "\<not> 0 < ?f i"
  then have zero: "?f i = 0" using frac_ge_0 [of "?x ! i"] by linarith
  from assms(2) obtain j where j: "j < ?r" "j < length ?ord" "?ord ! j = i"
    by (auto simp: in_set_conv_nth)
  have later: "?f (?ord ! l) = 0" if "j \<le> l" "l < length ?ord" for l
    using by_fraction_decreasing [of j l ?x] that zero j(3) frac_ge_0 [of "?x ! (?ord ! l)"]
    by (simp add: by_fraction_props)
  then have tail: "map ?f (drop j ?ord) = map (\<lambda>_. 0) (drop j ?ord)"
    by (auto simp: in_set_conv_nth intro!: map_cong)
  have "(\<Sum>x\<leftarrow>?x. frac x) = (\<Sum>i\<leftarrow>[0 ..< length ?x]. ?f i)"
    by (subst map_nth [of ?x, symmetric], subst map_map) (simp add: comp_def)
  also have "\<dots> = (\<Sum>i\<leftarrow>?ord. ?f i)"
    using arg_cong [OF by_fraction_props(1) [of ?x], of "\<lambda>M. sum_mset (image_mset ?f M)"]
    by (simp only: mset_map [symmetric] sum_mset_sum_list)
  also have "\<dots> = (\<Sum>i\<leftarrow>take j ?ord. ?f i) + (\<Sum>i\<leftarrow>drop j ?ord. ?f i)"
    by (metis append_take_drop_id map_append sum_list_append)
  also have "\<dots> = (\<Sum>i\<leftarrow>take j ?ord. ?f i)" by (simp add: tail)
  also have "\<dots> \<le> of_nat j"
    using sum_list_frac_bounds [of "map (\<lambda>i. ?x ! i) (take j ?ord)"] j(2) by (simp add: comp_def)
  finally have "of_int (t - sum_list (map floor ?x)) \<le> (of_nat j :: rat)"
    using rest_is_frac_sum [OF assms(1), of t] by simp
  then have "t - sum_list (map floor ?x) \<le> int j" by linarith
  with j(1) show False by linarith
qed

lemma allocatePaise_nth:
  assumes "i < length ws"
  shows "\<lfloor>exact_shares t ws ! i\<rfloor> \<le> allocatePaise t ws ! i \<and> allocatePaise t ws ! i \<le> \<lceil>exact_shares t ws ! i\<rceil>"
proof -
  let ?x = "exact_shares t ws"
  have ne: "ws \<noteq> []" using assms by auto
  have "allocatePaise t ws ! i = \<lfloor>?x ! i\<rfloor>
      + (if i \<in> set (take (nat (t - sum_list (map floor ?x))) (by_fraction ?x)) then 1 else 0)"
    using ne rest_range [OF ne, of t] assms
    by (simp add: allocatePaise_def Let_def hand_out_nth by_fraction_props)
  moreover have "\<lceil>?x ! i\<rceil> = \<lfloor>?x ! i\<rfloor> + 1" if "0 < frac (?x ! i)"
    using that by (simp add: ceiling_altdef frac_def)
  moreover have "\<lfloor>?x ! i\<rfloor> \<le> \<lceil>?x ! i\<rceil>" by (rule floor_le_ceiling)
  ultimately show ?thesis using rounded_up_fractional [OF ne, of i t] by auto
qed

lemma allocatePaise_spec:
  assumes "weights \<noteq> []"
  shows "sum_list (allocatePaise t weights) = t \<and> length (allocatePaise t weights) = length weights
    \<and> (\<forall>i < length weights. \<lfloor>exact_shares t weights ! i\<rfloor> \<le> allocatePaise t weights ! i
          \<and> allocatePaise t weights ! i \<le> \<lceil>exact_shares t weights ! i\<rceil>)"
proof -
  have "sum_list (allocatePaise t weights) = t"
    using assms rest_range [OF assms, of t]
    by (simp add: allocatePaise_def Let_def hand_out_sum by_fraction_props)
  moreover have "length (allocatePaise t weights) = length weights"
    using assms by (simp add: allocatePaise_def Let_def)
  ultimately show ?thesis using allocatePaise_nth by blast
qed

text \<open>The largest-remainder allocation is exact: the parts sum to the total for any weights,
  and each part is its exact proportional share rounded down or up.\<close>

theorem allocatePaise_exact:
  assumes "weights \<noteq> []"
  shows "sum_list (allocatePaise t weights) = t \<and> length (allocatePaise t weights) = length weights
    \<and> (\<forall>i < length weights. \<lfloor>exact_shares t weights ! i\<rfloor> \<le> allocatePaise t weights ! i
          \<and> allocatePaise t weights ! i \<le> \<lceil>exact_shares t weights ! i\<rceil>)"
  by (rule allocatePaise_spec [OF assms])

theorem allocatePaise_exact_witness:
  "sum_list (allocatePaise 1000 [1, 1, 1]) = 1000"
  using allocatePaise_exact [of "[1, 1, 1]" 1000] by simp

lemma exact_shares_le_weight:
  assumes "\<forall>w\<in>set ws. 0 \<le> w" and "0 \<le> t" and "t \<le> sum_list ws" and "i < length ws"
  shows "exact_shares t (map of_int ws) ! i \<le> of_int (ws ! i)"
proof -
  have m: "map (max 0) (map of_int ws) = (map of_int ws :: rat list)"
    using assms(1) by (auto simp: max_def)
  have s: "(\<Sum>w\<leftarrow>map of_int ws. max 0 w) = (of_int (sum_list ws) :: rat)"
    using arg_cong [OF m, of sum_list] sum_list_of_int [of "\<lambda>x. x" ws] by (simp add: comp_def)
  have w: "0 \<le> ws ! i" using assms(1,4) by simp
  have e: "exact_shares t (map of_int ws) ! i = (if 0 < sum_list ws
      then of_int t * of_int (ws ! i) / of_int (sum_list ws) else of_int t / of_nat (length ws))"
    unfolding exact_shares_def Let_def m using assms(4) sum_list_of_int [of "\<lambda>x. x" ws] by simp
  show ?thesis
  proof (cases "0 < sum_list ws")
    case True
    have "of_int t * of_int (ws ! i) \<le> (of_int (ws ! i) * of_int (sum_list ws) :: rat)"
      using assms(3) w by (subst mult.commute) (rule mult_left_mono, simp_all)
    then show ?thesis using True by (simp add: e pos_divide_le_eq)
  next
    case False
    then have "t = 0" using assms(2,3) by simp
    with e False have "exact_shares t (map of_int ws) ! i = 0" by simp
    then show ?thesis using w by simp
  qed
qed

lemma allocatePaise_range:
  assumes "\<forall>w\<in>set ws. 0 \<le> w" and "0 \<le> t" and "t \<le> sum_list ws" and "i < length ws"
  shows "0 \<le> allocatePaise t (map of_int ws) ! i \<and> allocatePaise t (map of_int ws) ! i \<le> ws ! i"
proof -
  let ?e = "exact_shares t (map of_int ws) ! i"
  have "?e \<le> of_int (ws ! i)" using assms by (rule exact_shares_le_weight)
  then have "\<lceil>?e\<rceil> \<le> ws ! i" by (simp add: ceiling_le_iff)
  moreover have "0 \<le> ?e"
    using assms by (auto simp: exact_shares_def Let_def)
  then have "0 \<le> \<lfloor>?e\<rfloor>" by simp
  ultimately show ?thesis using allocatePaise_nth [of i "map of_int ws" t] assms(4) by (simp del: zero_le_floor)
qed

text \<open>A bill-level discount no larger than the bill, allocated over checks by their subtotals,
  never exceeds a check's own subtotal and is never negative.\<close>

theorem allocatePaise_within_weights:
  assumes "\<forall>w\<in>set ws. 0 \<le> w" and "0 \<le> t" and "t \<le> sum_list ws" and "i < length ws"
  shows "0 \<le> allocatePaise t (map of_int ws) ! i \<and> allocatePaise t (map of_int ws) ! i \<le> ws ! i"
  by (rule allocatePaise_range [OF assms])

theorem allocatePaise_within_weights_witness:
  "0 \<le> allocatePaise 500 (map of_int [300, 0, 701]) ! 1 \<and> allocatePaise 500 (map of_int [300, 0, 701]) ! 1 \<le> 0"
  using allocatePaise_within_weights [of "[300, 0, 701]" 500 1] by simp

section \<open>Equal split: facts\<close>

text \<open>The number of left-over paise of a line that check \<open>c\<close> takes.\<close>

definition hits :: "nat \<Rightarrow> nat \<Rightarrow> nat \<Rightarrow> nat \<Rightarrow> nat" where
  "hits parts offset m c = length (filter (\<lambda>k. (offset + k) mod parts = c) [0 ..< m])"

lemma hits_cyclic:
  assumes "offset < parts" and "m \<le> parts" and "c < parts"
  shows "hits parts offset m c =
    (if offset + m \<le> parts then (if offset \<le> c \<and> c < offset + m then 1 else 0)
     else (if offset \<le> c \<or> c < offset + m - parts then 1 else 0))"
  using assms(2)
proof (induction m)
  case 0
  then show ?case using assms(1) by (simp add: hits_def)
next
  case (Suc m)
  have step: "hits parts offset (Suc m) c = hits parts offset m c + (if (offset + m) mod parts = c then 1 else 0)"
    by (simp add: hits_def)
  have w: "(offset + m) mod parts = (if offset + m < parts then offset + m else offset + m - parts)"
    using assms(1) Suc.prems by (simp add: mod_if)
  show ?case using Suc assms(1,3) unfolding step w by auto
qed

lemma length_bump [simp]: "length (bump c li out) = length out"
  by (simp add: bump_def)

lemma bump_nth:
  "d < length out \<Longrightarrow> bump c li out ! d = (if d = c then (out ! c)[li := out ! c ! li + 1] else out ! d)"
  by (simp add: bump_def nth_list_update)

lemma fold_bump_nth:
  assumes "0 < parts" and "length out = parts" and "\<forall>row\<in>set out. li < length row" and "d < parts"
  shows "length (fold (\<lambda>k m. bump ((offset + k) mod parts) li m) [0 ..< n] out) = parts
    \<and> fold (\<lambda>k m. bump ((offset + k) mod parts) li m) [0 ..< n] out ! d
       = (out ! d)[li := out ! d ! li + int (hits parts offset n d)]"
  using assms(4)
proof (induction n arbitrary: d)
  case 0
  then show ?case using assms(2) by (simp add: hits_def)
next
  case (Suc n)
  let ?f = "fold (\<lambda>k m. bump ((offset + k) mod parts) li m)"
  have l: "length (?f [0 ..< n] out) = parts" using Suc by blast
  have IH: "?f [0 ..< n] out ! e = (out ! e)[li := out ! e ! li + int (hits parts offset n e)]"
    if "e < parts" for e using Suc.IH that by blast
  have c: "(offset + n) mod parts < parts" using assms(1) by simp
  have li: "li < length (out ! e)" if "e < parts" for e using assms(2,3) that by simp
  show ?case using Suc.prems l c
    by (auto simp: bump_nth IH li hits_def add.assoc)
qed

text \<open>One line's share of a check, and the state of the split after some lines: the rows so far
  differ only by the rotating left-over paise, which the first \<open>offset\<close> checks hold.\<close>

definition split_inv :: "nat \<Rightarrow> nat \<Rightarrow> nat \<Rightarrow> int \<Rightarrow> int list list \<times> nat \<Rightarrow> bool" where
  "split_inv parts n done q = (\<lambda>(out, offset).
     length out = parts \<and> offset < parts \<and>
     (\<forall>c < parts. length (out ! c) = n \<and> (\<forall>li. done \<le> li \<and> li < n \<longrightarrow> out ! c ! li = 0)
        \<and> sum_list (out ! c) = q + (if c < offset then 1 else 0)))"

lemma split_line_nth:
  assumes "0 < parts" and "split_inv parts n li q (out, offset)" and "li < n" and "c < parts"
    and "split_line parts (p, li) (out, offset) = (out', offset')"
  shows "out' ! c = (out ! c)[li := p div int parts + int (hits parts offset (nat (p mod int parts)) c)]"
    and "length out' = parts" and "offset' = (offset + nat (p mod int parts)) mod parts"
proof -
  let ?o1 = "map (\<lambda>row. row[li := p div int parts]) out"
  have rem: "p - p div int parts * int parts = p mod int parts"
    by (simp add: minus_div_mult_eq_mod)
  have o1: "length ?o1 = parts" "\<forall>row\<in>set ?o1. li < length row" "?o1 ! c = (out ! c)[li := p div int parts]"
    using assms(2-4) by (auto simp: split_inv_def in_set_conv_nth)
  have li: "li < length (out ! c)" using assms(2-4) by (auto simp: split_inv_def)
  have "out' = fold (\<lambda>k m. bump ((offset + k) mod parts) li m) [0 ..< nat (p mod int parts)] ?o1"
    and off: "offset' = (offset + nat (p mod int parts)) mod parts"
    using assms(5) by (simp_all add: split_line_def Let_def rem)
  then show "out' ! c = (out ! c)[li := p div int parts + int (hits parts offset (nat (p mod int parts)) c)]"
    and "length out' = parts"
    using fold_bump_nth [OF assms(1) o1(1,2) assms(4), of offset "nat (p mod int parts)"] o1(3) li by simp_all
  show "offset' = (offset + nat (p mod int parts)) mod parts" by (rule off)
qed

lemma split_line_inv:
  assumes "0 < parts" and inv: "split_inv parts n li q (out, offset)" and "li < n"
    and s: "split_line parts (p, li) (out, offset) = (out', offset')"
  shows "\<exists>q'. split_inv parts n (Suc li) q' (out', offset')"
proof -
  let ?r = "nat (p mod int parts)"
  let ?q = "q + p div int parts + (if offset + ?r < parts then 0 else 1)"
  have r: "?r < parts" using assms(1) by (simp add: nat_less_iff)
  have off: "offset < parts" "length out = parts" using inv by (auto simp: split_inv_def)
  note nth = split_line_nth [OF assms(1) inv assms(3) _ s]
  have "length (out' ! c) = n \<and> (\<forall>l. Suc li \<le> l \<and> l < n \<longrightarrow> out' ! c ! l = 0)
        \<and> sum_list (out' ! c) = ?q + (if c < offset' then 1 else 0)" if c: "c < parts" for c
  proof -
    have row: "length (out ! c) = n" "out ! c ! li = 0" "sum_list (out ! c) = q + (if c < offset then 1 else 0)"
      "\<forall>l. li \<le> l \<and> l < n \<longrightarrow> out ! c ! l = 0"
      using inv c assms(3) by (auto simp: split_inv_def)
    have "offset' = (if offset + ?r < parts then offset + ?r else offset + ?r - parts)"
      using nth(3) [OF c] off r by (simp add: mod_if)
    moreover have "sum_list (out' ! c) = q + (if c < offset then 1 else 0) + p div int parts + int (hits parts offset ?r c)"
      using nth(1) [OF c] row assms(3) by (simp add: sum_list_update_int)
    moreover have "hits parts offset ?r c = (if offset + ?r \<le> parts then (if offset \<le> c \<and> c < offset + ?r then 1 else 0)
        else (if offset \<le> c \<or> c < offset + ?r - parts then 1 else 0))"
      using off(1) r c by (intro hits_cyclic) simp_all
    ultimately have "sum_list (out' ! c) = ?q + (if c < offset' then 1 else 0)" using c off r by auto
    then show ?thesis using nth(1) [OF c] row by (auto simp: nth_list_update)
  qed
  moreover have "offset' < parts" using nth(3) [of 0] assms(1) by simp
  ultimately have "split_inv parts n (Suc li) ?q (out', offset')"
    using nth(2) [of 0] assms(1) by (simp add: split_inv_def)
  then show ?thesis ..
qed

lemma hits_sum: "0 < parts \<Longrightarrow> (\<Sum>c < parts. int (hits parts offset m c)) = int m"
proof (induction m)
  case 0
  then show ?case by (simp add: hits_def)
next
  case (Suc m)
  have "(\<Sum>c < parts. int (hits parts offset (Suc m) c))
      = (\<Sum>c < parts. int (hits parts offset m c)) + (\<Sum>c < parts. if (offset + m) mod parts = c then 1 else 0)"
    by (subst sum.distrib [symmetric], rule sum.cong) (simp_all add: hits_def)
  also have "(\<Sum>c < parts. if (offset + m) mod parts = c then 1 else (0::int)) = 1"
    using Suc.prems by simp
  finally show ?case using Suc by simp
qed

lemma split_line_column:
  assumes "0 < parts" and inv: "split_inv parts n li q (out, offset)" and "li < n"
    and s: "split_line parts (p, li) (out, offset) = (out', offset')"
  shows "(\<Sum>c < parts. out' ! c ! l) = (if l = li then p else (\<Sum>c < parts. out ! c ! l))"
proof -
  note nth = split_line_nth(1) [OF assms(1) inv assms(3) _ s]
  have len: "li < length (out ! c)" if "c < parts" for c using inv that assms(3) by (auto simp: split_inv_def)
  show ?thesis
  proof (cases "l = li")
    case True
    then have "(\<Sum>c < parts. out' ! c ! l) = (\<Sum>c < parts. p div int parts + int (hits parts offset (nat (p mod int parts)) c))"
      by (intro sum.cong) (simp_all add: nth len)
    also have "\<dots> = int parts * (p div int parts) + p mod int parts"
      using assms(1) by (simp add: sum.distrib hits_sum)
    finally show ?thesis using True by simp
  next
    case False
    then show ?thesis by (simp add: nth)
  qed
qed

lemma split_lines_fold:
  assumes "0 < parts" and "split_inv parts n k q (out, offset)" and "k + length ps = n"
  shows "\<exists>q'. split_inv parts n n q' (fold (split_line parts) (zip ps [k ..< n]) (out, offset))
    \<and> (\<forall>l. (\<Sum>c < parts. fst (fold (split_line parts) (zip ps [k ..< n]) (out, offset)) ! c ! l)
          = (if k \<le> l \<and> l < n then ps ! (l - k) else (\<Sum>c < parts. out ! c ! l)))"
  using assms(2,3)
proof (induction ps arbitrary: k q out offset)
  case Nil
  then show ?case by auto
next
  case (Cons p ps)
  obtain out' offset' where s: "split_line parts (p, k) (out, offset) = (out', offset')" by fastforce
  have k: "k < n" using Cons.prems by simp
  then have z: "zip (p # ps) [k ..< n] = (p, k) # zip ps [Suc k ..< n]" by (simp add: upt_rec)
  obtain q1 where inv: "split_inv parts n (Suc k) q1 (out', offset')"
    using split_line_inv [OF assms(1) Cons.prems(1) k s] by blast
  have col: "(\<Sum>c < parts. out' ! c ! l) = (if l = k then p else (\<Sum>c < parts. out ! c ! l))" for l
    using split_line_column [OF assms(1) Cons.prems(1) k s] .
  have "Suc k + length ps = n" using Cons.prems by simp
  from Cons.IH [OF inv this] obtain q' where
    inv': "split_inv parts n n q' (fold (split_line parts) (zip ps [Suc k ..< n]) (out', offset'))" and
    cols: "\<And>l. (\<Sum>c < parts. fst (fold (split_line parts) (zip ps [Suc k ..< n]) (out', offset')) ! c ! l)
          = (if Suc k \<le> l \<and> l < n then ps ! (l - Suc k) else (\<Sum>c < parts. out' ! c ! l))" by blast
  show ?case unfolding z using inv' k by (intro exI [of _ q']) (auto simp: s cols col nth_Cons')
qed

lemma splitLinesEqually_spec:
  assumes "0 < parts"
  shows "length (splitLinesEqually ps parts) = parts
    \<and> (\<forall>c < parts. length (splitLinesEqually ps parts ! c) = length ps)
    \<and> (\<forall>l < length ps. (\<Sum>c < parts. splitLinesEqually ps parts ! c ! l) = ps ! l)
    \<and> (\<forall>c < parts. \<forall>d < parts.
         \<bar>sum_list (splitLinesEqually ps parts ! c) - sum_list (splitLinesEqually ps parts ! d)\<bar> \<le> 1)"
proof -
  let ?init = "(replicate parts (map (\<lambda>_. 0) ps), 0 :: nat)"
  let ?res = "fold (split_line parts) (zip ps [0 ..< length ps]) ?init"
  have "split_inv parts (length ps) 0 0 ?init"
    using assms by (simp add: split_inv_def map_replicate_const sum_list_replicate)
  from split_lines_fold [OF assms this, of ps] obtain q where
    inv: "split_inv parts (length ps) (length ps) q ?res" and
    col: "\<And>l. l < length ps \<Longrightarrow> (\<Sum>c < parts. fst ?res ! c ! l) = ps ! l" by auto
  show ?thesis using inv col by (cases ?res) (auto simp: splitLinesEqually_def split_inv_def)
qed

text \<open>The equal split is exact and fair: every line's paise are divided among the checks without
  loss, and two checks' subtotals never differ by more than one paisa.\<close>

theorem splitLinesEqually_exact:
  assumes "0 < parts"
  shows "length (splitLinesEqually ps parts) = parts
    \<and> (\<forall>c < parts. length (splitLinesEqually ps parts ! c) = length ps)
    \<and> (\<forall>l < length ps. (\<Sum>c < parts. splitLinesEqually ps parts ! c ! l) = ps ! l)
    \<and> (\<forall>c < parts. \<forall>d < parts.
         \<bar>sum_list (splitLinesEqually ps parts ! c) - sum_list (splitLinesEqually ps parts ! d)\<bar> \<le> 1)"
  by (rule splitLinesEqually_spec [OF assms])

theorem splitLinesEqually_exact_witness:
  "\<bar>sum_list (splitLinesEqually [1000, 505, 101] 3 ! 0) - sum_list (splitLinesEqually [1000, 505, 101] 3 ! 2)\<bar> \<le> 1"
proof -
  have h: "(0::nat) < 3" by simp
  show ?thesis using splitLinesEqually_exact [OF h, of "[1000, 505, 101]"] by simp
qed

section \<open>Tax split and coupons: facts\<close>

text \<open>The tax components of an invoice add up to the tax exactly; inside a state CGST and SGST
  differ by at most one paisa and IGST is zero, across states the whole tax is IGST.\<close>

theorem splitTax_exact:
  assumes "paise_exact tax"
  shows "cgst (splitTax tax seller buyer) + sgst (splitTax tax seller buyer) + igst (splitTax tax seller buyer) = tax
    \<and> (if interState (splitTax tax seller buyer)
       then cgst (splitTax tax seller buyer) = 0 \<and> sgst (splitTax tax seller buyer) = 0
       else igst (splitTax tax seller buyer) = 0
          \<and> 0 \<le> sgst (splitTax tax seller buyer) - cgst (splitTax tax seller buyer)
          \<and> sgst (splitTax tax seller buyer) - cgst (splitTax tax seller buyer) \<le> 1 / 100)"
proof -
  obtain n :: int where n: "tax = of_int n / 100"
    using assms by (metis paise_exact_iff)
  have "n - 2 * (n div 2) = 0 \<or> n - 2 * (n div 2) = 1" by presburger
  then have d: "0 \<le> n - 2 * (n div 2)" "n - 2 * (n div 2) \<le> 1" by auto
  have "(of_int (n - n div 2) - of_int (n div 2) :: rat) = of_int (n - 2 * (n div 2))" by simp
  moreover have "(0::rat) \<le> of_int (n - 2 * (n div 2))" "of_int (n - 2 * (n div 2)) \<le> (1::rat)"
    using d by linarith+
  ultimately have e: "0 \<le> (of_int (n - n div 2) / 100 - of_int (n div 2) / 100 :: rat)"
    "of_int (n - n div 2) / 100 - of_int (n div 2) / 100 \<le> (1 / 100 :: rat)"
    by (simp_all only: diff_divide_distrib [symmetric]) (simp_all add: divide_right_mono)
  have s: "(of_int (n div 2) / 100 + of_int (n - n div 2) / 100 :: rat) = of_int n / 100"
    by (simp add: add_divide_distrib [symmetric])
  have r: "of_int (js_round (of_int n / 100 * 100)) / 100 = (of_int n / 100 :: rat)" by simp
  show ?thesis unfolding n splitTax_def Let_def toPaise_of_int_div fromPaise_of_int r
    using e s by (simp only: tax_split.simps if_True if_False add_0 add_0_right split: if_split) simp
qed

theorem splitTax_exact_witness:
  "cgst (splitTax (of_int 10505 / 100) (Some ''29'') None) + sgst (splitTax (of_int 10505 / 100) (Some ''29'') None)
     + igst (splitTax (of_int 10505 / 100) (Some ''29'') None) = of_int 10505 / 100"
  using splitTax_exact [OF paise_exact_of_int_div [of 10505], of "Some ''29''" None] by blast

lemma coupon_discount_le_subtotal:
  assumes "paise_exact sub" shows "coupon_discount c sub \<le> sub"
proof -
  have "js_round (d * 100) \<le> toPaise sub" if "d \<le> sub" for d
    using toPaise_mono [OF that] by (simp add: toPaise_def)
  then have "of_int (js_round (d * 100)) / 100 \<le> sub" if "d \<le> sub" for d
    using assms that paise_exact_toPaise [OF assms] by (smt (verit) of_int_le_iff pos_divide_le_eq zero_less_numeral)
  then show ?thesis by (simp add: coupon_discount_def Let_def)
qed

lemma evaluateCoupon_valid:
  "ce_valid (evaluateCoupon (Some c) sub now) \<longleftrightarrow>
     cr_isActive c \<and> (\<forall>f. cr_validFrom c = Some f \<longrightarrow> f \<le> now) \<and> (\<forall>t. cr_validTo c = Some t \<longrightarrow> now \<le> t)
     \<and> (\<forall>u. cr_usageLimit c = Some u \<longrightarrow> cr_usedCount c < u) \<and> cr_minOrder c \<le> sub"
  by (auto simp: evaluateCoupon_def rejected_def split: option.split)

lemma coupon_discount_nonneg:
  assumes "0 \<le> cr_value c" and "\<forall>m. cr_maxDiscount c = Some m \<longrightarrow> 0 \<le> m" and "0 \<le> sub"
  shows "0 \<le> coupon_discount c sub"
  using assms by (auto simp: coupon_discount_def Let_def js_round_nonneg split: coupon_type.split option.split)

text \<open>A coupon grants a discount exactly when it is active, inside its dates, under its usage limit and
  the order reaches its minimum; the discount then lies between zero and the order's subtotal.\<close>

theorem evaluateCoupon_sound:
  assumes "paise_exact sub" and "0 \<le> sub" and "0 \<le> cr_value c"
    and "\<forall>m. cr_maxDiscount c = Some m \<longrightarrow> 0 \<le> m"
  shows "(ce_valid (evaluateCoupon (Some c) sub now) \<longleftrightarrow>
       cr_isActive c \<and> (\<forall>f. cr_validFrom c = Some f \<longrightarrow> f \<le> now) \<and> (\<forall>t. cr_validTo c = Some t \<longrightarrow> now \<le> t)
       \<and> (\<forall>u. cr_usageLimit c = Some u \<longrightarrow> cr_usedCount c < u) \<and> cr_minOrder c \<le> sub)
    \<and> 0 \<le> ce_discount (evaluateCoupon (Some c) sub now)
    \<and> ce_discount (evaluateCoupon (Some c) sub now) \<le> sub"
  using evaluateCoupon_valid [of c sub now] coupon_discount_nonneg [OF assms(3,4,2)]
    coupon_discount_le_subtotal [OF assms(1), of c] assms(2)
  by (auto simp: evaluateCoupon_def rejected_def split: option.split)

theorem evaluateCoupon_sound_witness:
  "ce_discount (evaluateCoupon (Some \<lparr>cr_type = PERCENT, cr_value = 10, cr_minOrder = 100, cr_maxDiscount = Some 50,
     cr_validFrom = None, cr_validTo = Some 99, cr_usageLimit = Some 5, cr_usedCount = 4, cr_isActive = True\<rparr>)
     (of_int 80000 / 100) 7) \<le> of_int 80000 / 100"
  using evaluateCoupon_sound [OF paise_exact_of_int_div [of 80000], of
    "\<lparr>cr_type = PERCENT, cr_value = 10, cr_minOrder = 100, cr_maxDiscount = Some 50,
     cr_validFrom = None, cr_validTo = Some 99, cr_usageLimit = Some 5, cr_usedCount = 4, cr_isActive = True\<rparr>" 7]
  by (simp del: of_int_numeral)

end
