(* ===== verification/Dates.thy ===== *)
theory Dates
  imports Prelude
begin

text \<open>
  The calendar helpers of \<open>packages/shared/src/hr-accounting.ts\<close>: business dates in Indian
  Standard Time as \<open>"YYYY-MM-DD"\<close> strings. What they use of JavaScript's \<open>Date\<close> (ECMAScript's
  \<open>DayFromYear\<close>, \<open>YearFromTime\<close>, \<open>MonthFromTime\<close>, \<open>DateFromTime\<close> and \<open>MakeDay\<close>) is written out on
  integers: days since 1970-01-01.
\<close>

section \<open>The calendar of \<open>Date\<close>\<close>

definition DayFromYear :: "int \<Rightarrow> int" where
  "DayFromYear y = 365 * (y - 1970) + (y - 1969) div 4 - (y - 1901) div 100 + (y - 1601) div 400"

definition leap :: "int \<Rightarrow> bool" where
  "leap y \<longleftrightarrow> y mod 4 = 0 \<and> (y mod 100 \<noteq> 0 \<or> y mod 400 = 0)"

definition month_starts :: "bool \<Rightarrow> int list" where
  "month_starts l = (if l then [0, 31, 60, 91, 121, 152, 182, 213, 244, 274, 305, 335]
                     else [0, 31, 59, 90, 120, 151, 181, 212, 243, 273, 304, 334])"

text \<open>\<open>YearFromTime\<close>: the largest year that starts on or before the day, searched upwards.\<close>

function year_search :: "int \<Rightarrow> int \<Rightarrow> int" where
  "year_search y n = (if DayFromYear (y + 1) \<le> n then year_search (y + 1) n else y)"
  by pat_completeness auto

lemma div_bounds: "0 < k \<Longrightarrow> k * (x div k) \<le> x \<and> x < k * (x div k) + (k :: int)"
  using mult_div_mod_eq [of k x] pos_mod_sign [of k x] pos_mod_bound [of k x] by linarith

lemma div_succ:
  assumes "0 < (k :: int)"
  shows "(x + 1) div k = x div k + (if (x + 1) mod k = 0 then 1 else 0)"
proof -
  have e: "x = k * (x div k) + x mod k" by simp
  have r: "0 \<le> x mod k" "x mod k < k" using assms by auto
  show ?thesis
  proof (cases "x mod k + 1 = k")
    case True
    have "x + 1 = k * (x div k) + k" using e True by linarith
    then have "x + 1 = k * (x div k + 1) + 0" by (simp add: distrib_left)
    then have "(x + 1) div k = x div k + 1" "(x + 1) mod k = 0"
      using assms int_div_pos_eq [of "x + 1" k _ 0] int_mod_pos_eq [of "x + 1" k _ 0] by blast+
    then show ?thesis by simp
  next
    case False
    have "x + 1 = k * (x div k) + (x mod k + 1)" using e by linarith
    then have "(x + 1) div k = x div k" "(x + 1) mod k = x mod k + 1"
      using r False int_div_pos_eq [of "x + 1" k "x div k" "x mod k + 1"]
        int_mod_pos_eq [of "x + 1" k "x div k" "x mod k + 1"] by linarith+
    then show ?thesis using r by simp
  qed
qed

lemma leap_count:
  assumes "R \<Longrightarrow> Q" and "Q \<Longrightarrow> P"
  shows "k + 365 + (a + (if P then 1 else 0)) - (b + (if Q then 1 else 0)) + (c + (if R then 1 else 0))
    = k + a - b + c + (if P \<and> (\<not> Q \<or> R) then 366 else (365 :: int))"
  using assms by (cases P; cases Q; cases R) simp_all

lemma DayFromYear_Suc: "DayFromYear (y + 1) = DayFromYear y + (if leap y then 366 else 365)"
proof -
  have m: "(y - 1968) mod 4 = y mod 4" "(y - 1900) mod 100 = y mod 100" "(y - 1600) mod 400 = y mod 400"
    by (simp_all add: mod_eq_dvd_iff)
  have 1: "(y - 1968) div 4 = (y - 1969) div 4 + (if y mod 4 = 0 then 1 else 0)"
    using div_succ [of 4 "y - 1969"] m(1) by simp
  have 2: "(y - 1900) div 100 = (y - 1901) div 100 + (if y mod 100 = 0 then 1 else 0)"
    using div_succ [of 100 "y - 1901"] m(2) by simp
  have 3: "(y - 1600) div 400 = (y - 1601) div 400 + (if y mod 400 = 0 then 1 else 0)"
    using div_succ [of 400 "y - 1601"] m(3) by simp
  have "100 dvd y \<Longrightarrow> 4 dvd y" "400 dvd y \<Longrightarrow> 100 dvd y"
    using dvd_trans [of 4 100 y] dvd_trans [of 100 400 y] by simp_all
  then have i: "y mod 400 = 0 \<Longrightarrow> y mod 100 = 0" "y mod 100 = 0 \<Longrightarrow> y mod 4 = 0"
    by (simp_all add: dvd_eq_mod_eq_0)
  have D: "DayFromYear (y + 1) = 365 * (y - 1970) + 365 + (y - 1968) div 4 - (y - 1900) div 100 + (y - 1600) div 400"
    by (simp add: DayFromYear_def)
  show ?thesis by (simp only: D 1 2 3 leap_def leap_count [OF i] DayFromYear_def [of y])
qed

lemma DayFromYear_ge: "y \<le> z \<Longrightarrow> DayFromYear y + 365 * (z - y) \<le> DayFromYear z"
proof (induction z rule: int_ge_induct)
  case base
  then show ?case by simp
next
  case (step z)
  then show ?case using DayFromYear_Suc [of z] by (auto split: if_splits)
qed

termination year_search
proof (relation "measure (\<lambda>(y, n). nat (n - DayFromYear y))")
  fix y n assume "DayFromYear (y + 1) \<le> n"
  moreover have "DayFromYear y + 365 * (y + 1 - y) \<le> DayFromYear (y + 1)" by (rule DayFromYear_ge) simp
  ultimately show "((y + 1, n), (y, n)) \<in> measure (\<lambda>(y, n). nat (n - DayFromYear y))"
    by (simp add: zless_nat_conj)
qed simp

declare year_search.simps [simp del]

definition year_of_day :: "int \<Rightarrow> int" where
  "year_of_day n = year_search (if 0 \<le> n then 1970 + n div 366 else 1969 + n div 365) n"

definition civil :: "int \<Rightarrow> int \<times> int \<times> int" where
  "civil n = (let y = year_of_day n; dwy = n - DayFromYear y;
                  starts = month_starts (leap y);
                  m = length (filter (\<lambda>s. s \<le> dwy) starts)
              in (y, int m, dwy - starts ! (m - 1) + 1))"

text \<open>\<open>MakeDay\<close>, with months counted from 1: the month may lie outside 1--12 and the day outside the month.\<close>

definition day_number :: "int \<Rightarrow> int \<Rightarrow> int \<Rightarrow> int" where
  "day_number y m d = (let y0 = y + (m - 1) div 12
     in DayFromYear y0 + month_starts (leap y0) ! nat ((m - 1) mod 12) + d - 1)"

section \<open>Correctness of the calendar\<close>

lemma year_search_bounds:
  "DayFromYear y \<le> n \<Longrightarrow> DayFromYear (year_search y n) \<le> n \<and> n < DayFromYear (year_search y n + 1)"
proof (induction y n rule: year_search.induct)
  case (1 y n)
  then show ?case by (cases "DayFromYear (y + 1) \<le> n") (simp_all add: year_search.simps [of y n])
qed

lemma year_start_bound: "DayFromYear (if 0 \<le> n then 1970 + n div 366 else 1969 + n div 365) \<le> n"
proof (cases "0 \<le> n")
  case True
  define k where "k = n div 366"
  have k: "0 \<le> k" "366 * k \<le> n" using True div_bounds [of 366 n] by (simp_all add: k_def pos_imp_zdiv_nonneg_iff)
  have a: "4 * ((k + 1) div 4) \<le> k + 1" "400 * ((k + 369) div 400) \<le> k + 369"
    "k + 69 < 100 * ((k + 69) div 100) + 100" "0 \<le> (k + 69) div 100" "0 \<le> (k + 1) div 4"
    using div_bounds [of 4 "k + 1"] div_bounds [of 400 "k + 369"] div_bounds [of 100 "k + 69"] k
    by (simp_all add: pos_imp_zdiv_nonneg_iff)
  then have "(k + 369) div 400 \<le> (k + 69) div 100" "(k + 1) div 4 \<le> k" using k by linarith+
  then have "DayFromYear (1970 + k) \<le> n" using k by (simp add: DayFromYear_def add.commute)
  then show ?thesis using True by (simp add: k_def)
next
  case False
  define k where "k = n div 365 - 1"
  have k: "k < -1" "365 * k + 365 \<le> n"
    using False div_bounds [of 365 n] by (simp_all add: k_def pos_imp_zdiv_neg_iff)
  have "4 * ((k + 1) div 4) \<le> k + 1" "400 * ((k + 369) div 400) \<le> k + 369"
    "k + 69 < 100 * ((k + 69) div 100) + 100"
    using div_bounds [of 4 "k + 1"] div_bounds [of 400 "k + 369"] div_bounds [of 100 "k + 69"] by simp_all
  then have "(k + 1) div 4 - (k + 69) div 100 + (k + 369) div 400 \<le> 365" using k by linarith
  then have "365 * k + ((k + 1) div 4 - (k + 69) div 100 + (k + 369) div 400) \<le> 365 * k + 365"
    by (rule add_left_mono)
  also have "\<dots> \<le> n" by (rule k(2))
  finally have "DayFromYear (1970 + k) \<le> n" by (simp add: DayFromYear_def add.commute)
  moreover have "1969 + n div 365 = 1970 + k" by (simp add: k_def)
  ultimately show ?thesis using False by (simp only: if_False)
qed

lemma year_of_day_bounds: "DayFromYear (year_of_day n) \<le> n \<and> n < DayFromYear (year_of_day n + 1)"
  unfolding year_of_day_def by (rule year_search_bounds [OF year_start_bound])

lemma month_of_day:
  assumes "0 \<le> w" shows "1 \<le> length (filter (\<lambda>s. s \<le> w) (month_starts l))"
    and "length (filter (\<lambda>s. s \<le> w) (month_starts l)) \<le> 12"
  using assms by (auto simp: month_starts_def)

lemma day_number_civil: "(case civil n of (y, m, d) \<Rightarrow> day_number y m d) = n"
proof -
  let ?y = "year_of_day n"
  let ?m = "length (filter (\<lambda>s. s \<le> n - DayFromYear ?y) (month_starts (leap ?y)))"
  have "1 \<le> ?m" "?m \<le> 12" using month_of_day [of "n - DayFromYear ?y" "leap ?y"] year_of_day_bounds [of n] by auto
  then have "(int ?m - 1) div 12 = 0" "(int ?m - 1) mod 12 = int ?m - 1"
    by (intro div_pos_pos_trivial mod_pos_pos_trivial; linarith)+
  moreover have "nat (int ?m - 1) = ?m - 1" by simp
  ultimately show ?thesis unfolding civil_def day_number_def Let_def by (simp only: prod.case) simp
qed

lemma day_number_add: "day_number y m (d + k) = day_number y m d + k"
  by (simp add: day_number_def Let_def)

text \<open>A civil date of the calendar.\<close>

definition month_length :: "int \<Rightarrow> int \<Rightarrow> int" where
  "month_length y m = day_number y (m + 1) 1 - day_number y m 1"

definition valid_civil :: "int \<Rightarrow> int \<Rightarrow> int \<Rightarrow> bool" where
  "valid_civil y m d \<longleftrightarrow> 1 \<le> m \<and> m \<le> 12 \<and> 1 \<le> d \<and> d \<le> month_length y m"

lemma DayFromYear_strict: "DayFromYear y \<le> n \<Longrightarrow> n < DayFromYear (y + 1) \<Longrightarrow> year_of_day n = y"
proof -
  assume n: "DayFromYear y \<le> n" "n < DayFromYear (y + 1)"
  let ?z = "year_of_day n"
  have z: "DayFromYear ?z \<le> n" "n < DayFromYear (?z + 1)" using year_of_day_bounds by blast+
  have "\<not> ?z < y" using DayFromYear_ge [of "?z + 1" y] n z by auto
  moreover have "\<not> y < ?z" using DayFromYear_ge [of "y + 1" ?z] n z by auto
  ultimately show ?thesis by simp
qed

lemma lt_12_cases:
  "i < (12 :: nat) \<Longrightarrow> i = 0 \<or> i = 1 \<or> i = 2 \<or> i = 3 \<or> i = 4 \<or> i = 5 \<or> i = 6 \<or> i = 7 \<or> i = 8 \<or> i = 9 \<or> i = 10 \<or> i = 11"
  by presburger

text \<open>Where the next month starts, counted from the start of the year.\<close>

definition month_end :: "bool \<Rightarrow> nat \<Rightarrow> int" where
  "month_end l i = (if i = 11 then (if l then 366 else 365) else month_starts l ! (i + 1))"

lemma month_unique:
  assumes "i < 12" and "month_starts l ! i \<le> w" and "w < month_end l i"
  shows "length (filter (\<lambda>s. s \<le> w) (month_starts l)) = i + 1"
proof -
  let ?xs = "month_starts l"
  have len: "length ?xs = 12" and srt: "sorted ?xs" by (simp_all add: month_starts_def)
  have "\<forall>s \<in> set (take (i + 1) ?xs). s \<le> w"
  proof
    fix s assume "s \<in> set (take (i + 1) ?xs)"
    then obtain j where "j \<le> i" "s = ?xs ! j" using len assms(1) by (auto simp: in_set_conv_nth less_Suc_eq_le)
    then show "s \<le> w" using sorted_nth_mono [OF srt, of j i] len assms by simp
  qed
  moreover have "\<forall>s \<in> set (drop (i + 1) ?xs). \<not> s \<le> w"
  proof
    fix s assume "s \<in> set (drop (i + 1) ?xs)"
    then obtain j where "j < length (drop (i + 1) ?xs)" "s = drop (i + 1) ?xs ! j" by (auto simp: in_set_conv_nth)
    then have j: "i + 1 + j < 12" "s = ?xs ! (i + 1 + j)" using len by simp_all
    then show "\<not> s \<le> w" using sorted_nth_mono [OF srt, of "i + 1" "i + 1 + j"] len assms(3)
      by (auto simp: month_end_def)
  qed
  ultimately have "filter (\<lambda>s. s \<le> w) (take (i + 1) ?xs @ drop (i + 1) ?xs) = take (i + 1) ?xs"
    by (simp only: filter_append filter_True filter_False append_Nil2)
  then show ?thesis using len assms(1) by simp
qed

lemma month_start_end: "i < 12 \<Longrightarrow> 0 \<le> month_starts l ! i \<and> month_end l i \<le> (if l then 366 else 365)"
  using lt_12_cases [of i] by (cases l) (auto simp: month_starts_def month_end_def)

lemma month_length_eq:
  assumes "1 \<le> m" and "m \<le> 12"
  shows "month_length y m = month_end (leap y) (nat (m - 1)) - month_starts (leap y) ! nat (m - 1)"
proof (cases "m = 12")
  case True
  have "(m + 1 - 1) div 12 = 1" "(m + 1 - 1) mod 12 = 0" "(m - 1) div 12 = 0" "(m - 1) mod 12 = 11" using True by auto
  moreover have "month_starts l ! 0 = 0" for l by (simp add: month_starts_def)
  ultimately show ?thesis using True DayFromYear_Suc [of y]
    by (simp add: month_length_def day_number_def Let_def month_end_def)
next
  case False
  then have "m div 12 = 0" "m mod 12 = m" "(m - 1) div 12 = 0" "(m - 1) mod 12 = m - 1"
    using assms by (simp_all add: div_pos_pos_trivial mod_pos_pos_trivial)
  moreover have "nat m = nat (m - 1) + 1" using assms(1) by simp
  moreover have "nat (m - 1) \<noteq> 11" using False assms by simp
  ultimately show ?thesis using False assms
    by (simp add: month_length_def day_number_def Let_def month_end_def)
qed

lemma civil_day_number:
  assumes "valid_civil y m d" shows "civil (day_number y m d) = (y, m, d)"
proof -
  let ?i = "nat (m - 1)" and ?l = "leap y"
  have m: "1 \<le> m" "m \<le> 12" and d: "1 \<le> d" "d \<le> month_end ?l ?i - month_starts ?l ! ?i"
    using assms month_length_eq [of m y] by (auto simp: valid_civil_def)
  have n: "day_number y m d = DayFromYear y + (month_starts ?l ! ?i + d - 1)"
    using m by (simp add: day_number_def Let_def div_pos_pos_trivial mod_pos_pos_trivial)
  let ?w = "month_starts ?l ! ?i + d - 1"
  have i: "?i < 12" using m by simp
  have w: "0 \<le> ?w" "DayFromYear y + ?w < DayFromYear (y + 1)"
    using d month_start_end [OF i, of ?l] DayFromYear_Suc [of y] by linarith+
  then have y: "year_of_day (day_number y m d) = y" unfolding n by (intro DayFromYear_strict) auto
  have "length (filter (\<lambda>s. s \<le> ?w) (month_starts ?l)) = ?i + 1"
    using d m by (intro month_unique) auto
  then show ?thesis using m by (simp add: civil_def Let_def y) (simp add: n)
qed

section \<open>Business dates\<close>

text \<open>
  A date string \<open>"YYYY-MM-DD"\<close> is represented by the three numbers that
  \<open>date.split("-").map(Number)\<close> reads from it, a month \<open>"YYYY-MM"\<close> by two, a wall-clock time
  \<open>"HH:MM"\<close> by two. The strings compare as the numbers do (four-digit years, zero-padded
  months and days). An instant is in milliseconds since the epoch, an \<^typ>\<open>int\<close>.
\<close>

type_synonym date = "int \<times> int \<times> int"

definition IST_OFFSET_MIN :: int where
  "IST_OFFSET_MIN = 330"

definition istDateOf :: "int \<Rightarrow> date" where
  "istDateOf t = civil ((t + IST_OFFSET_MIN * 60000) div 86400000)"

fun istAt :: "date \<Rightarrow> int \<times> int \<Rightarrow> int" where
  "istAt (y, m, d) (hh, mm) = day_number y m d * 86400000 + hh * 3600000 + mm * 60000 - IST_OFFSET_MIN * 60000"

fun addDays :: "date \<Rightarrow> int \<Rightarrow> date" where
  "addDays (y, m, d) days = civil (day_number y m (d + days))"

definition istRange :: "date \<Rightarrow> date \<Rightarrow> int \<times> int" where
  "istRange from to = (istAt from (0, 0), istAt (addDays to 1) (0, 0))"

fun daysBetween :: "date \<Rightarrow> date \<Rightarrow> int" where
  "daysBetween (y, m, d) (y', m', d') = day_number y' m' d' - day_number y m d"

fun daysInMonth :: "int \<times> int \<Rightarrow> int" where
  "daysInMonth (y, m) = (case civil (day_number y (m + 1) 0) of (_, _, d) \<Rightarrow> d)"

fun monthDates :: "int \<times> int \<Rightarrow> date list" where
  "monthDates (y, m) = map (\<lambda>i. (y, m, int i + 1)) [0..<nat (daysInMonth (y, m))]"

fun weekdayOf :: "date \<Rightarrow> int" where
  "weekdayOf (y, m, d) = (day_number y m d + 4) mod 7"

definition leaveDays :: "date \<Rightarrow> date \<Rightarrow> bool \<Rightarrow> num" where
  "leaveDays fromDate toDate halfDay = (if halfDay then 1/2 else of_int (daysBetween fromDate toDate + 1))"

datatype compare_mode = Prev | Yoy

fun yoy_shift :: "date \<Rightarrow> date" where
  "yoy_shift (y, m, day) = (y - 1, m, min day (daysInMonth (y - 1, m)))"

fun comparePeriod :: "date \<Rightarrow> date \<Rightarrow> compare_mode \<Rightarrow> date \<times> date" where
  "comparePeriod from to Yoy = (yoy_shift from, yoy_shift to)"
| "comparePeriod from to Prev = (let len = daysBetween from to + 1 in (addDays from (- len), addDays from (-1)))"

section \<open>Properties of the business dates\<close>

fun valid_date :: "date \<Rightarrow> bool" where
  "valid_date (y, m, d) = valid_civil y m d"

fun day_of :: "date \<Rightarrow> int" where
  "day_of (y, m, d) = day_number y m d"

lemma month_span: "i < 12 \<Longrightarrow> 28 \<le> month_end l i - month_starts l ! i \<and> month_end l i - month_starts l ! i \<le> 31"
  using lt_12_cases [of i] by (cases l) (auto simp: month_end_def month_starts_def)

lemma month_length_pos: "1 \<le> m \<Longrightarrow> m \<le> 12 \<Longrightarrow> 28 \<le> month_length y m \<and> month_length y m \<le> 31"
  using month_span [of "nat (m - 1)" "leap y"] month_length_eq [of m y] by simp

lemma day_of_civil [simp]: "day_of (civil n) = n"
  using day_number_civil [of n] by (cases "civil n") simp

lemma civil_day_of: "valid_date d \<Longrightarrow> civil (day_of d) = d"
  by (cases d) (simp add: civil_day_number)

lemma day_of_inj: "valid_date d \<Longrightarrow> valid_date e \<Longrightarrow> day_of d = day_of e \<Longrightarrow> d = e"
  by (metis civil_day_of)

lemma addDays_eq: "addDays d n = civil (day_of d + n)"
  by (cases d) (simp add: day_number_add)

lemma daysBetween_eq: "daysBetween d e = day_of e - day_of d"
  by (cases d; cases e) simp

lemma daysInMonth_eq:
  assumes "1 \<le> m" and "m \<le> 12" shows "daysInMonth (y, m) = month_length y m"
proof -
  have "day_number y (m + 1) 0 = day_number y m (month_length y m)"
    using day_number_add [of y "m + 1" 1 "-1"] day_number_add [of y m 1 "month_length y m - 1"]
    by (simp add: month_length_def)
  moreover have "valid_civil y m (month_length y m)"
    using assms month_length_pos [of m y] by (simp add: valid_civil_def)
  ultimately show ?thesis by (simp add: civil_day_number)
qed

lemma monthDates_valid: "1 \<le> m \<Longrightarrow> m \<le> 12 \<Longrightarrow> \<forall>d \<in> set (monthDates (y, m)). valid_date d"
  by (auto simp: daysInMonth_eq valid_civil_def simp del: daysInMonth.simps)

lemma month_contains:
  assumes "0 \<le> w" and "w < (if l then 366 else 365)" and "i = length (filter (\<lambda>s. s \<le> w) (month_starts l)) - 1"
  shows "month_starts l ! i \<le> w" and "w < month_end l i"
proof -
  let ?xs = "month_starts l"
  have n: "1 \<le> length (filter (\<lambda>s. s \<le> w) ?xs)" "length (filter (\<lambda>s. s \<le> w) ?xs) \<le> 12"
    using month_of_day [OF assms(1)] by blast+
  then have i: "i < 12" using assms(3) by simp
  define J where "J = {j. j < 12 \<and> ?xs ! j \<le> w}"
  define j where "j = Max J"
  have J: "finite J" "0 \<in> J" using assms(1) by (simp_all add: J_def month_starts_def)
  then have "j \<in> J" unfolding j_def by (intro Max_in) auto
  moreover have "j + 1 \<notin> J" using Max_ge [OF J(1), of "j + 1"] by (auto simp: j_def)
  ultimately have j: "j < 12" "?xs ! j \<le> w" "w < month_end l j"
    using assms(2) by (auto simp: J_def month_end_def)
  then have "j = i" using month_unique [OF j] assms(3) by simp
  then show "?xs ! i \<le> w" "w < month_end l i" using j by simp_all
qed

lemma valid_civil_of_day: "valid_date (civil n)"
proof -
  let ?y = "year_of_day n"
  let ?w = "n - DayFromYear ?y"
  let ?m = "length (filter (\<lambda>s. s \<le> ?w) (month_starts (leap ?y)))"
  have w: "0 \<le> ?w" "?w < (if leap ?y then 366 else 365)"
    using year_of_day_bounds [of n] DayFromYear_Suc [of ?y] by linarith+
  have m: "1 \<le> ?m" "?m \<le> 12" using month_of_day [OF w(1)] by blast+
  have "month_length ?y (int ?m) = month_end (leap ?y) (?m - 1) - month_starts (leap ?y) ! (?m - 1)"
    using month_length_eq [of "int ?m" ?y] m by (simp add: nat_diff_distrib)
  moreover have "month_starts (leap ?y) ! (?m - 1) \<le> ?w" "?w < month_end (leap ?y) (?m - 1)"
    using month_contains [OF w refl] by blast+
  ultimately show ?thesis using m by (simp add: civil_def Let_def valid_civil_def)
qed

lemma month_end_le_start: "i < j \<Longrightarrow> j < 12 \<Longrightarrow> month_end l i \<le> month_starts l ! j"
proof -
  assume ij: "i < j" "j < 12"
  have "sorted (month_starts l)" "length (month_starts l) = 12" by (simp_all add: month_starts_def)
  then show ?thesis using sorted_nth_mono [of "month_starts l" "i + 1" j] ij by (simp add: month_end_def)
qed

lemma day_of_offset:
  assumes "valid_date (y, m, d)"
  obtains i where "i < 12" "int i = m - 1" "day_of (y, m, d) = DayFromYear y + month_starts (leap y) ! i + d - 1"
    "1 \<le> d" "month_starts (leap y) ! i + d \<le> month_end (leap y) i"
proof
  have m: "1 \<le> m" "m \<le> 12" and d: "1 \<le> d" "d \<le> month_length y m" using assms by (simp_all add: valid_civil_def)
  show "nat (m - 1) < 12" "int (nat (m - 1)) = m - 1" using m by simp_all
  show "day_of (y, m, d) = DayFromYear y + month_starts (leap y) ! nat (m - 1) + d - 1"
    using m by (simp add: day_number_def Let_def div_pos_pos_trivial mod_pos_pos_trivial)
  show "1 \<le> d" "month_starts (leap y) ! nat (m - 1) + d \<le> month_end (leap y) (nat (m - 1))"
    using d month_length_eq [OF m, of y] by simp_all
qed

lemma day_of_strict:
  assumes "valid_date a" and "valid_date b" and "a < b" shows "day_of a < day_of b"
proof -
  obtain y m d y' m' d' where ab: "a = (y, m, d)" "b = (y', m', d')" by (cases a; cases b)
  obtain i where i: "i < 12" "int i = m - 1" "day_of a = DayFromYear y + month_starts (leap y) ! i + d - 1"
    "1 \<le> d" "month_starts (leap y) ! i + d \<le> month_end (leap y) i"
    using day_of_offset assms(1) unfolding ab by metis
  obtain j where j: "j < 12" "int j = m' - 1" "day_of b = DayFromYear y' + month_starts (leap y') ! j + d' - 1"
    "1 \<le> d'" "month_starts (leap y') ! j + d' \<le> month_end (leap y') j"
    using day_of_offset assms(2) unfolding ab by metis
  consider "y < y'" | "y = y'" "m < m'" | "y = y'" "m = m'" "d < d'"
    using assms(3) unfolding ab less_prod_def' by (auto simp: order_le_less)
  then show ?thesis
  proof cases
    case 1
    then have "DayFromYear (y + 1) \<le> DayFromYear y'" using DayFromYear_ge [of "y + 1" y'] by simp
    then show ?thesis using i j month_start_end [OF i(1), of "leap y"] month_start_end [OF j(1), of "leap y'"]
        DayFromYear_Suc [of y] by linarith
  next
    case 2
    then have "i < j" using i(2) j(2) by linarith
    then show ?thesis using 2 i j month_end_le_start [of i j "leap y"] by simp
  next
    case 3
    then have "i = j" using i(2) j(2) by linarith
    then show ?thesis unfolding i(3) j(3) using 3 by simp
  qed
qed

lemma day_of_le_iff: "valid_date a \<Longrightarrow> valid_date b \<Longrightarrow> day_of a \<le> day_of b \<longleftrightarrow> a \<le> b"
  by (metis day_of_strict linorder_not_less order_le_less)

lemma valid_addDays: "valid_date (addDays d n)"
  by (simp add: addDays_eq valid_civil_of_day)

lemma istAt_eq: "istAt d (hh, mm) = day_of d * 86400000 + hh * 3600000 + mm * 60000 - 19800000"
  by (cases d) (simp add: IST_OFFSET_MIN_def)

lemma day_of_istDateOf: "day_of (istDateOf t) = (t + 19800000) div 86400000"
  by (simp add: istDateOf_def IST_OFFSET_MIN_def)

lemma day_le_iff: "a \<le> t div 86400000 \<longleftrightarrow> a * 86400000 \<le> (t :: int)"
  using div_bounds [of 86400000 t] by auto

text \<open>Adding days composes, is undone by subtracting them, and agrees with \<open>daysBetween\<close>: the calendar
  of business dates is the group of integers acting on the valid dates, in date order.\<close>

theorem addDays_daysBetween:
  assumes "valid_date d" and "valid_date e"
  shows "addDays (addDays d a) b = addDays d (a + b) \<and> daysBetween d (addDays d a) = a
    \<and> addDays d (daysBetween d e) = e \<and> (0 \<le> daysBetween d e \<longleftrightarrow> d \<le> e)"
proof (intro conjI)
  show "addDays (addDays d a) b = addDays d (a + b)" by (simp add: addDays_eq add.assoc)
  show "daysBetween d (addDays d a) = a" by (simp add: addDays_eq daysBetween_eq)
  show "addDays d (daysBetween d e) = e" using civil_day_of [OF assms(2)] by (simp add: addDays_eq daysBetween_eq)
  show "0 \<le> daysBetween d e \<longleftrightarrow> d \<le> e" using day_of_le_iff [OF assms] by (simp add: daysBetween_eq)
qed

text \<open>An instant is in the IST range of the dates \<open>from\<close> to \<open>to\<close> exactly when the IST date of the
  instant lies between them, both included.\<close>

theorem istRange_iff:
  assumes "valid_date from" and "valid_date to"
  shows "fst (istRange from to) \<le> t \<and> t < snd (istRange from to) \<longleftrightarrow> from \<le> istDateOf t \<and> istDateOf t \<le> to"
proof -
  have v: "valid_date (istDateOf t)" by (simp add: istDateOf_def valid_civil_of_day)
  have "fst (istRange from to) \<le> t \<longleftrightarrow> day_of from \<le> day_of (istDateOf t)"
    using day_le_iff [of "day_of from" "t + 19800000"] by (simp add: istRange_def istAt_eq day_of_istDateOf) linarith
  moreover have "t < snd (istRange from to) \<longleftrightarrow> day_of (istDateOf t) \<le> day_of to"
    using day_le_iff [of "day_of to + 1" "t + 19800000"]
    by (simp add: istRange_def istAt_eq day_of_istDateOf addDays_eq) linarith
  ultimately show ?thesis using day_of_le_iff assms v by blast
qed

lemma valid_feb29: "valid_date (2024, 2, 29)" and valid_mar31: "valid_date (2026, 3, 31)"
  by (simp_all add: valid_civil_def month_length_eq month_end_def month_starts_def leap_def)

theorem addDays_daysBetween_witness:
  "addDays (addDays (2024, 2, 29) 5) (-5) = addDays (2024, 2, 29) 0
    \<and> addDays (2024, 2, 29) (daysBetween (2024, 2, 29) (2026, 3, 31)) = (2026, 3, 31)"
  using addDays_daysBetween [OF valid_feb29 valid_mar31, of 5 "-5"] by (simp only: add.right_inverse simp_thms)

theorem istRange_iff_witness:
  "fst (istRange (2024, 2, 29) (2026, 3, 31)) \<le> 1735669799999 \<and> 1735669799999 < snd (istRange (2024, 2, 29) (2026, 3, 31))
    \<longleftrightarrow> (2024, 2, 29) \<le> istDateOf 1735669799999 \<and> istDateOf 1735669799999 \<le> (2026, 3, 31)"
  using istRange_iff [OF valid_feb29 valid_mar31] by blast

text \<open>The comparison window of a period ends the day before it starts and is as long as it.\<close>

theorem comparePeriod_prev:
  assumes "valid_date from" and "valid_date to"
  shows "case comparePeriod from to Prev of (a, b) \<Rightarrow> addDays b 1 = from \<and> daysBetween a b = daysBetween from to"
  using assms civil_day_of [OF assms(1)]
  by (simp add: Let_def addDays_eq daysBetween_eq)

theorem comparePeriod_prev_witness:
  "case comparePeriod (2024, 2, 29) (2026, 3, 31) Prev of
     (a, b) \<Rightarrow> addDays b 1 = (2024, 2, 29) \<and> daysBetween a b = daysBetween (2024, 2, 29) (2026, 3, 31)"
  by (rule comparePeriod_prev [OF valid_feb29 valid_mar31])

end
