(* ===== verification/Attendance.thy ===== *)
theory Attendance
  imports Dates
begin

text \<open>
  The attendance maths of \<open>packages/shared/src/hr-accounting.ts\<close>: one day's punches against the rostered shift
  (\<open>computeDayAttendance\<close>) and the roll-up of a month into payroll inputs (\<open>summariseMonth\<close>). Times of day are pairs of
  hours and minutes, instants are milliseconds, fractions of days are exact numbers.
\<close>

section \<open>Data\<close>

datatype leave_type = Casual | Sick | Earned | Unpaid

datatype day_status = DayPresent | DayHalf | DayAbsent | DayOff | DayOpen

record shift_spec =
  sh_startTime :: "int \<times> int"
  sh_endTime :: "int \<times> int"
  sh_breakMinutes :: int
  sh_graceMinutes :: int

record clock_punch =
  cp_clockIn :: int
  cp_clockOut :: "int option"
  cp_breakMinutes :: int

record attendance_rules =
  ar_halfDayMinutes :: int
  ar_overtimeThresholdMinutes :: int
  ar_standardDayMinutes :: int

definition DEFAULT_ATTENDANCE_RULES :: attendance_rules where
  "DEFAULT_ATTENDANCE_RULES = \<lparr> ar_halfDayMinutes = 240, ar_overtimeThresholdMinutes = 30, ar_standardDayMinutes = 480 \<rparr>"

record day_attendance =
  da_status :: day_status
  da_workedMinutes :: int
  da_scheduledMinutes :: int
  da_lateMinutes :: int
  da_earlyLeaveMinutes :: int
  da_overtimeMinutes :: int

section \<open>One day\<close>

definition minutes_of :: "int \<Rightarrow> int" where
  "minutes_of ms = ms div 60000"

text \<open>A shift whose end is not after its start ends the next day.\<close>

definition shift_bounds :: "date \<Rightarrow> shift_spec \<Rightarrow> int \<times> int" where
  "shift_bounds date shift = (let s = istAt date (sh_startTime shift); t = istAt date (sh_endTime shift)
     in (s, if t \<le> s then t + 86400000 else t))"

definition scheduled_minutes :: "attendance_rules \<Rightarrow> date \<Rightarrow> shift_spec option \<Rightarrow> int" where
  "scheduled_minutes rules date shift = (case shift of
     None \<Rightarrow> ar_standardDayMinutes rules
   | Some sh \<Rightarrow> (case shift_bounds date sh of (s, t) \<Rightarrow> max 0 (minutes_of (t - s) - sh_breakMinutes sh)))"

text \<open>An open punch adds nothing.\<close>

definition punch_minutes :: "clock_punch \<Rightarrow> int" where
  "punch_minutes p = (case cp_clockOut p of None \<Rightarrow> 0 | Some t \<Rightarrow> max 0 (minutes_of (t - cp_clockIn p) - cp_breakMinutes p))"

definition worked_minutes :: "clock_punch list \<Rightarrow> int" where
  "worked_minutes punches = foldl (\<lambda>worked p. worked + punch_minutes p) 0 punches"

definition late_minutes :: "date \<Rightarrow> shift_spec option \<Rightarrow> clock_punch list \<Rightarrow> int" where
  "late_minutes date shift ordered = (case shift of None \<Rightarrow> 0 | Some sh \<Rightarrow>
     let lateBy = minutes_of (cp_clockIn (hd ordered) - fst (shift_bounds date sh))
     in if lateBy > sh_graceMinutes sh then lateBy else 0)"

definition early_minutes :: "date \<Rightarrow> shift_spec option \<Rightarrow> clock_punch list \<Rightarrow> int" where
  "early_minutes date shift ordered = (case shift of None \<Rightarrow> 0 | Some sh \<Rightarrow>
     let lastOut = Max (set (map (\<lambda>p. the (cp_clockOut p)) ordered))
     in max 0 (minutes_of (snd (shift_bounds date sh) - lastOut)))"

definition computeDayAttendance :: "date \<Rightarrow> shift_spec option \<Rightarrow> clock_punch list \<Rightarrow> attendance_rules \<Rightarrow> day_attendance" where
  "computeDayAttendance date shift punches rules =
    (let scheduled = scheduled_minutes rules date shift
     in if punches = [] then
          \<lparr> da_status = (if shift \<noteq> None then DayAbsent else DayOff), da_workedMinutes = 0, da_scheduledMinutes = scheduled,
            da_lateMinutes = 0, da_earlyLeaveMinutes = 0, da_overtimeMinutes = 0 \<rparr>
        else
          let ordered = sort_key cp_clockIn punches;
              worked = worked_minutes ordered;
              open_day = list_ex (\<lambda>p. cp_clockOut p = None) ordered;
              extra = worked - scheduled
          in \<lparr> da_status = (if open_day then DayOpen else if worked < ar_halfDayMinutes rules then DayHalf else DayPresent),
               da_workedMinutes = worked, da_scheduledMinutes = scheduled,
               da_lateMinutes = late_minutes date shift ordered,
               da_earlyLeaveMinutes = (if open_day then 0 else early_minutes date shift ordered),
               da_overtimeMinutes = (if extra \<ge> ar_overtimeThresholdMinutes rules then extra else 0) \<rparr>)"

section \<open>A month\<close>

record month_day =
  md_date :: date
  md_shift :: "shift_spec option"
  md_punches :: "clock_punch list"
  md_leave :: "(leave_type \<times> num) option"
  md_employed :: bool

record month_summary =
  ms_presentDays :: num
  ms_absentDays :: num
  ms_paidLeaveDays :: num
  ms_unpaidLeaveDays :: num
  ms_lopDays :: num
  ms_workedMinutes :: int
  ms_overtimeMinutes :: int
  ms_lateDays :: int
  ms_lateMinutes :: int

definition blank_summary :: month_summary where
  "blank_summary = \<lparr> ms_presentDays = 0, ms_absentDays = 0, ms_paidLeaveDays = 0, ms_unpaidLeaveDays = 0, ms_lopDays = 0,
     ms_workedMinutes = 0, ms_overtimeMinutes = 0, ms_lateDays = 0, ms_lateMinutes = 0 \<rparr>"

definition attended :: "day_status \<Rightarrow> num" where
  "attended st = (if st = DayPresent \<or> st = DayOpen then 1 else if st = DayHalf then 1/2 else 0)"

definition paid_leave :: "month_day \<Rightarrow> num" where
  "paid_leave d = (case md_leave d of Some (t, f) \<Rightarrow> if t \<noteq> Unpaid then f else 0 | None \<Rightarrow> 0)"

definition unpaid_leave :: "month_day \<Rightarrow> num" where
  "unpaid_leave d = (case md_leave d of Some (t, f) \<Rightarrow> if t = Unpaid then f else 0 | None \<Rightarrow> 0)"

definition add_presence :: "day_attendance \<Rightarrow> month_summary \<Rightarrow> month_summary" where
  "add_presence day s = s\<lparr> ms_presentDays := ms_presentDays s + attended (da_status day),
     ms_workedMinutes := ms_workedMinutes s + da_workedMinutes day,
     ms_overtimeMinutes := ms_overtimeMinutes s + da_overtimeMinutes day,
     ms_lateDays := ms_lateDays s + (if da_lateMinutes day > 0 then 1 else 0),
     ms_lateMinutes := ms_lateMinutes s + (if da_lateMinutes day > 0 then da_lateMinutes day else 0) \<rparr>"

definition cover_day :: "num \<Rightarrow> num \<Rightarrow> num \<Rightarrow> month_summary \<Rightarrow> month_summary" where
  "cover_day att paid unpaid s =
    (let usedPaid = min paid (1 - att); uncovered = 1 - att - usedPaid
     in s\<lparr> ms_paidLeaveDays := ms_paidLeaveDays s + usedPaid,
           ms_unpaidLeaveDays := ms_unpaidLeaveDays s + min unpaid (1 - att - usedPaid),
           ms_lopDays := ms_lopDays s + uncovered,
           ms_absentDays := ms_absentDays s + max 0 (uncovered - unpaid) \<rparr>)"

definition add_day :: "attendance_rules \<Rightarrow> month_summary \<Rightarrow> month_day \<Rightarrow> month_summary" where
  "add_day rules s d =
    (if \<not> md_employed d then s\<lparr> ms_lopDays := ms_lopDays s + 1 \<rparr>
     else let day = computeDayAttendance (md_date d) (md_shift d) (md_punches d) rules;
              s1 = add_presence day s
          in if md_shift d \<noteq> None then cover_day (attended (da_status day)) (paid_leave d) (unpaid_leave d) s1 else s1)"

definition summariseMonth :: "month_day list \<Rightarrow> attendance_rules \<Rightarrow> month_summary" where
  "summariseMonth days rules = foldl (add_day rules) blank_summary days"

section \<open>The day does not depend on the order of its punches\<close>

lemma worked_minutes_sum: "worked_minutes ps = (\<Sum>p\<leftarrow>ps. punch_minutes p)"
proof -
  have "foldl (\<lambda>w p. w + punch_minutes p) k ps = k + (\<Sum>p\<leftarrow>ps. punch_minutes p)" for k
    by (induction ps arbitrary: k) simp_all
  then show ?thesis by (simp add: worked_minutes_def)
qed

lemma punch_minutes_nonneg: "0 \<le> punch_minutes p"
  by (simp add: punch_minutes_def split: option.splits)

lemma worked_minutes_nonneg: "0 \<le> worked_minutes ps"
  unfolding worked_minutes_sum by (rule sum_list_nonneg) (auto simp: punch_minutes_nonneg)

lemma worked_minutes_mset: "mset ps = mset qs \<Longrightarrow> worked_minutes ps = worked_minutes qs"
  unfolding worked_minutes_sum by (metis mset_map sum_mset_sum_list)

lemma hd_sort_key: "xs \<noteq> [] \<Longrightarrow> f (hd (sort_key f xs)) = Min (f ` set xs)"
proof -
  assume ne: "xs \<noteq> []"
  define ys where "ys = map f (sort_key f xs)"
  have s: "sorted ys" "set ys = f ` set xs" by (simp_all add: ys_def)
  then have "ys \<noteq> []" using ne by (metis image_is_empty set_empty)
  then obtain y zs where ys: "ys = y # zs" by (cases ys) auto
  have "Min (set ys) = y" using s(1) unfolding ys by (intro Min_eqI) auto
  moreover have "f (hd (sort_key f xs)) = y" using ys unfolding ys_def by auto
  ultimately show ?thesis using s(2) by simp
qed

lemma computeDayAttendance_perm:
  assumes "mset ps = mset qs"
  shows "computeDayAttendance date shift ps rules = computeDayAttendance date shift qs rules"
proof (cases "qs = []")
  case False
  have ne: "ps \<noteq> []" using assms False by auto
  have st: "set ps = set qs" using assms by (rule mset_eq_setD)
  have late: "late_minutes date shift (sort_key cp_clockIn ps) = late_minutes date shift (sort_key cp_clockIn qs)"
    by (simp only: late_minutes_def hd_sort_key [OF ne] hd_sort_key [OF False] st)
  have worked: "worked_minutes (sort_key cp_clockIn ps) = worked_minutes (sort_key cp_clockIn qs)"
    by (rule worked_minutes_mset) (simp add: assms)
  have early: "early_minutes date shift (sort_key cp_clockIn ps) = early_minutes date shift (sort_key cp_clockIn qs)"
    by (simp only: early_minutes_def set_map set_sort st)
  have opn: "list_ex (\<lambda>p. cp_clockOut p = None) (sort_key cp_clockIn ps) = list_ex (\<lambda>p. cp_clockOut p = None) (sort_key cp_clockIn qs)"
    by (simp add: list_ex_iff st)
  show ?thesis using ne False by (simp add: computeDayAttendance_def Let_def late worked early opn)
next
  case True
  then show ?thesis using assms by simp
qed

section \<open>The month adds up\<close>

definition off_work :: "attendance_rules \<Rightarrow> month_day \<Rightarrow> num" where
  "off_work rules d = (if md_employed d \<and> md_shift d = None
     then attended (da_status (computeDayAttendance (md_date d) None (md_punches d) rules)) else 0)"

definition due_day :: "month_day \<Rightarrow> bool" where
  "due_day d \<longleftrightarrow> \<not> md_employed d \<or> md_shift d \<noteq> None"

definition leave_ok :: "month_day \<Rightarrow> bool" where
  "leave_ok d \<longleftrightarrow> (case md_leave d of Some (t, f) \<Rightarrow> 0 \<le> f | None \<Rightarrow> True)"

lemma attended_range: "0 \<le> attended st" "attended st \<le> 1"
  by (simp_all add: attended_def)

lemma leave_nonneg: "leave_ok d \<Longrightarrow> 0 \<le> paid_leave d \<and> 0 \<le> unpaid_leave d"
  by (auto simp: leave_ok_def paid_leave_def unpaid_leave_def split: option.splits)

lemma min_max_split: "min u x + max 0 (x - u) = (x :: num)"
  by (simp add: min_def max_def)

lemma add_day_balance:
  "ms_presentDays (add_day rules s d) + ms_paidLeaveDays (add_day rules s d) + ms_lopDays (add_day rules s d)
     = ms_presentDays s + ms_paidLeaveDays s + ms_lopDays s + (if due_day d then 1 else 0) + off_work rules d"
  "ms_lopDays (add_day rules s d) - ms_absentDays (add_day rules s d) - ms_unpaidLeaveDays (add_day rules s d)
     = ms_lopDays s - ms_absentDays s - ms_unpaidLeaveDays s + (if md_employed d then 0 else 1)"
  by (auto simp: add_day_def add_presence_def cover_day_def off_work_def due_day_def Let_def min_def max_def)

definition nonneg_summary :: "month_summary \<Rightarrow> bool" where
  "nonneg_summary s \<longleftrightarrow> 0 \<le> ms_presentDays s \<and> 0 \<le> ms_absentDays s \<and> 0 \<le> ms_paidLeaveDays s \<and> 0 \<le> ms_unpaidLeaveDays s \<and> 0 \<le> ms_lopDays s"

lemma add_day_nonneg: "nonneg_summary s \<Longrightarrow> leave_ok d \<Longrightarrow> nonneg_summary (add_day rules s d)"
  using attended_range [of "da_status (computeDayAttendance (md_date d) (md_shift d) (md_punches d) rules)"] leave_nonneg [of d]
  by (auto simp: nonneg_summary_def add_day_def add_presence_def cover_day_def Let_def min_def max_def)

lemma fold_balance:
  "ms_presentDays (foldl (add_day rules) s days) + ms_paidLeaveDays (foldl (add_day rules) s days) + ms_lopDays (foldl (add_day rules) s days)
     = ms_presentDays s + ms_paidLeaveDays s + ms_lopDays s + of_nat (length (filter due_day days)) + (\<Sum>d\<leftarrow>days. off_work rules d)"
  "ms_lopDays (foldl (add_day rules) s days) - ms_absentDays (foldl (add_day rules) s days) - ms_unpaidLeaveDays (foldl (add_day rules) s days)
     = ms_lopDays s - ms_absentDays s - ms_unpaidLeaveDays s + of_nat (length (filter (\<lambda>d. \<not> md_employed d) days))"
  by (induction days arbitrary: s) (simp_all add: add_day_balance)

lemma fold_nonneg: "nonneg_summary s \<Longrightarrow> \<forall>d\<in>set days. leave_ok d \<Longrightarrow> nonneg_summary (foldl (add_day rules) s days)"
  by (induction days arbitrary: s) (simp_all add: add_day_nonneg)

text \<open>The roll-up of a month accounts for every day: presence, paid leave and loss of pay add up to the days that were due (rostered,
  or outside employment) plus the work done on weekly offs; loss of pay is exactly the days outside employment, the absences and the
  unpaid leave; and with leave fractions that are not negative no figure is.\<close>

theorem summariseMonth_adds_up:
  assumes "\<forall>d\<in>set days. leave_ok d"
  shows "ms_presentDays (summariseMonth days rules) + ms_paidLeaveDays (summariseMonth days rules) + ms_lopDays (summariseMonth days rules)
           = of_nat (length (filter due_day days)) + (\<Sum>d\<leftarrow>days. off_work rules d) \<and>
         ms_lopDays (summariseMonth days rules) = of_nat (length (filter (\<lambda>d. \<not> md_employed d) days))
           + ms_absentDays (summariseMonth days rules) + ms_unpaidLeaveDays (summariseMonth days rules) \<and>
         nonneg_summary (summariseMonth days rules)"
proof -
  have "nonneg_summary blank_summary" by (simp add: nonneg_summary_def blank_summary_def)
  from fold_nonneg [OF this assms, of rules] show ?thesis
    using fold_balance [of rules blank_summary days] by (simp add: summariseMonth_def blank_summary_def algebra_simps)
qed

section \<open>A concrete week\<close>

definition shift0 :: shift_spec where
  "shift0 = \<lparr> sh_startTime = (10, 0), sh_endTime = (18, 0), sh_breakMinutes = 30, sh_graceMinutes = 10 \<rparr>"

definition day0 :: month_day where
  "day0 = \<lparr> md_date = (2024, 5, 6), md_shift = Some shift0, md_punches = [], md_leave = Some (Sick, 1/2), md_employed = True \<rparr>"

theorem summariseMonth_adds_up_witness:
  "ms_lopDays (summariseMonth [day0, day0\<lparr>md_employed := False\<rparr>] DEFAULT_ATTENDANCE_RULES) = 3/2 \<and>
   ms_lopDays (summariseMonth [day0, day0\<lparr>md_employed := False\<rparr>] DEFAULT_ATTENDANCE_RULES) = 1
     + ms_absentDays (summariseMonth [day0, day0\<lparr>md_employed := False\<rparr>] DEFAULT_ATTENDANCE_RULES)
     + ms_unpaidLeaveDays (summariseMonth [day0, day0\<lparr>md_employed := False\<rparr>] DEFAULT_ATTENDANCE_RULES)"
proof -
  have ok: "\<forall>d\<in>set [day0, day0\<lparr>md_employed := False\<rparr>]. leave_ok d" by (simp add: leave_ok_def day0_def)
  have "length (filter (\<lambda>d. \<not> md_employed d) [day0, day0\<lparr>md_employed := False\<rparr>]) = 1" by (simp add: day0_def)
  moreover have "ms_lopDays (summariseMonth [day0, day0\<lparr>md_employed := False\<rparr>] DEFAULT_ATTENDANCE_RULES) = 3/2"
    by (simp add: summariseMonth_def add_day_def add_presence_def cover_day_def computeDayAttendance_def attended_def paid_leave_def
        unpaid_leave_def day0_def blank_summary_def Let_def)
  ultimately show ?thesis using summariseMonth_adds_up [OF ok, of DEFAULT_ATTENDANCE_RULES] by simp
qed

end
