(* ===== verification/Payslip.thy ===== *)
theory Payslip
  imports Attendance
begin

text \<open>
  The payslip arithmetic of \<open>packages/shared/src/hr-accounting.ts\<close>: the payroll configuration with its statutory parts and
  \<open>computePayslip\<close>, which works in whole paise, and the profit-and-loss statement (\<open>buildPnl\<close>). The payroll service that
  stores and finalises payslips is in the theory \<open>Payroll\<close>.
\<close>

section \<open>Data\<close>

datatype pay_type = Monthly | Daily | Hourly

datatype monthly_basis = Calendar | Basis26 | Basis30

datatype adjustment_kind = Earning | Deduction

type_synonym pay_component = "string \<times> num"

record payroll_config =
  pc_monthlyBasis :: monthly_basis
  pc_standardDayHours :: num
  pc_halfDayHours :: num
  pc_overtimeMultiplier :: num
  pc_overtimeThresholdMinutes :: int
  pc_payPaidLeaveForWageStaff :: bool
  pc_pfEnabled :: bool
  pc_pfEmployeeRate :: num
  pc_pfEmployerRate :: num
  pc_pfWageCeiling :: num
  pc_esiEnabled :: bool
  pc_esiEmployeeRate :: num
  pc_esiEmployerRate :: num
  pc_esiGrossThreshold :: num
  pc_ptEnabled :: bool
  pc_ptSlabs :: "(num option \<times> num) list"

definition DEFAULT_PAYROLL_CONFIG :: payroll_config where
  "DEFAULT_PAYROLL_CONFIG = \<lparr> pc_monthlyBasis = Calendar, pc_standardDayHours = 8, pc_halfDayHours = 4, pc_overtimeMultiplier = 2,
     pc_overtimeThresholdMinutes = 30, pc_payPaidLeaveForWageStaff = True,
     pc_pfEnabled = True, pc_pfEmployeeRate = 12, pc_pfEmployerRate = 12, pc_pfWageCeiling = 15000,
     pc_esiEnabled = True, pc_esiEmployeeRate = 3/4, pc_esiEmployerRate = 13/4, pc_esiGrossThreshold = 21000,
     pc_ptEnabled = True, pc_ptSlabs = [(Some 24999, 0), (None, 200)] \<rparr>"

record pay_adjustment =
  pa_name :: string
  pa_amount :: num
  pa_kind :: adjustment_kind

record pay_inputs =
  pin_payType :: pay_type
  pin_payRate :: num
  pin_allowances :: "pay_component list"
  pin_deductions :: "pay_component list"
  pin_pfApplicable :: bool
  pin_esiApplicable :: bool
  pin_ptApplicable :: bool
  pin_overtimeEligible :: bool
  pin_daysInMonth :: int
  pin_presentDays :: num
  pin_paidLeaveDays :: num
  pin_lopDays :: num
  pin_workedMinutes :: int
  pin_overtimeMinutes :: int
  pin_advanceDue :: num
  pin_adjustments :: "pay_adjustment list"

record payslip_calc =
  pk_payableDays :: num
  pk_basic :: num
  pk_overtimeHours :: num
  pk_overtimePay :: num
  pk_earnings :: "pay_component list"
  pk_gross :: num
  pk_pfEmployee :: num
  pk_esiEmployee :: num
  pk_professionalTax :: num
  pk_advanceRecovery :: num
  pk_otherDeductions :: "pay_component list"
  pk_totalDeductions :: num
  pk_net :: num
  pk_pfEmployer :: num
  pk_esiEmployer :: num
  pk_warnings :: "string list"

section \<open>Paise\<close>

definition pay_paise :: "num \<Rightarrow> int" where
  "pay_paise rupees = js_round (rupees * 100)"

definition pay_rupees :: "int \<Rightarrow> num" where
  "pay_rupees paise = of_int (js_round (of_int paise)) / 100"

definition wholeRupee :: "num \<Rightarrow> int" where
  "wholeRupee paise = js_round (paise / 100) * 100"

section \<open>The parts of a payslip\<close>

definition basis_days :: "payroll_config \<Rightarrow> int \<Rightarrow> num" where
  "basis_days config days = (case pc_monthlyBasis config of Calendar \<Rightarrow> of_int days | Basis26 \<Rightarrow> 26 | Basis30 \<Rightarrow> 30)"

definition lop_days :: "pay_inputs \<Rightarrow> num" where
  "lop_days input = min (pin_lopDays input) (of_int (pin_daysInMonth input))"

text \<open>Basic pay in paise, the hourly rate overtime is paid on, and the share of the allowances that is due.\<close>

definition base_pay :: "pay_inputs \<Rightarrow> payroll_config \<Rightarrow> int \<times> num \<times> num" where
  "base_pay input config =
    (let rate = pay_paise (pin_payRate input)
     in case pin_payType input of
          Monthly \<Rightarrow> (let perDay = of_int rate / basis_days config (pin_daysInMonth input);
                         basic = max 0 (js_round (of_int rate - perDay * lop_days input))
                     in (basic, perDay / pc_standardDayHours config, if rate > 0 then of_int basic / of_int rate else 0))
        | Daily \<Rightarrow> (let days = pin_presentDays input + (if pc_payPaidLeaveForWageStaff config then pin_paidLeaveDays input else 0)
                   in (js_round (of_int rate * days), of_int rate / pc_standardDayHours config, 1))
        | Hourly \<Rightarrow> (let regularMinutes = max 0 (pin_workedMinutes input - pin_overtimeMinutes input);
                        leaveHours = (if pc_payPaidLeaveForWageStaff config then pin_paidLeaveDays input * pc_standardDayHours config else 0)
                    in (js_round (of_int rate * (of_int regularMinutes / 60 + leaveHours)), of_int rate, 1)))"

definition ot_minutes :: "pay_inputs \<Rightarrow> int" where
  "ot_minutes input = (if pin_overtimeEligible input then pin_overtimeMinutes input else 0)"

definition pay_earnings :: "pay_inputs \<Rightarrow> num \<Rightarrow> (string \<times> int) list" where
  "pay_earnings input allowanceFactor =
     map (\<lambda>(name, amount). (name, js_round (of_int (pay_paise amount) * allowanceFactor))) (pin_allowances input) @
     map (\<lambda>a. (pa_name a, pay_paise (pa_amount a))) (filter (\<lambda>a. pa_kind a = Earning) (pin_adjustments input))"

definition pf_parts :: "pay_inputs \<Rightarrow> payroll_config \<Rightarrow> int \<Rightarrow> int \<times> int" where
  "pf_parts input config basic =
    (if pc_pfEnabled config \<and> pin_pfApplicable input then
       let ceiling = pay_paise (pc_pfWageCeiling config);
           pfWage = (if ceiling > 0 then min basic ceiling else basic)
       in (wholeRupee (of_int pfWage * pc_pfEmployeeRate config / 100), wholeRupee (of_int pfWage * pc_pfEmployerRate config / 100))
     else (0, 0))"

definition esi_parts :: "pay_inputs \<Rightarrow> payroll_config \<Rightarrow> int \<Rightarrow> int \<times> int \<times> string list" where
  "esi_parts input config gross =
    (if pc_esiEnabled config \<and> pin_esiApplicable input then
       if gross \<le> pay_paise (pc_esiGrossThreshold config)
       then (wholeRupee (of_int gross * pc_esiEmployeeRate config / 100), wholeRupee (of_int gross * pc_esiEmployerRate config / 100), [])
       else (0, 0, [''Gross above the ESI threshold -- ESI not deducted''])
     else (0, 0, []))"

definition professional_tax :: "pay_inputs \<Rightarrow> payroll_config \<Rightarrow> int \<Rightarrow> int" where
  "professional_tax input config gross =
    (if pc_ptEnabled config \<and> pin_ptApplicable input then
       (case List.find (\<lambda>(upTo, _). case upTo of None \<Rightarrow> True | Some u \<Rightarrow> gross \<le> pay_paise u) (pc_ptSlabs config) of
          Some (_, amount) \<Rightarrow> pay_paise amount
        | None \<Rightarrow> 0)
     else 0)"

definition other_deductions :: "pay_inputs \<Rightarrow> (string \<times> int) list" where
  "other_deductions input = map (\<lambda>(name, amount). (name, pay_paise amount)) (pin_deductions input) @
     map (\<lambda>a. (pa_name a, pay_paise (pa_amount a))) (filter (\<lambda>a. pa_kind a = Deduction) (pin_adjustments input))"

definition amount_sum :: "(string \<times> int) list \<Rightarrow> int" where
  "amount_sum ls = foldl (\<lambda>s l. s + snd l) 0 ls"

definition pay_lines :: "(string \<times> int) list \<Rightarrow> pay_component list" where
  "pay_lines = map (\<lambda>(name, paise). (name, pay_rupees paise))"

section \<open>The payslip\<close>

definition computePayslip :: "pay_inputs \<Rightarrow> payroll_config \<Rightarrow> payslip_calc" where
  "computePayslip input config =
    (let payableDays = max 0 (of_int (pin_daysInMonth input) - lop_days input);
         (basic, hourlyPaise, allowanceFactor) = base_pay input config;
         otMinutes = ot_minutes input;
         overtimePay = js_round (hourlyPaise * (of_int otMinutes / 60) * pc_overtimeMultiplier config);
         earnings = pay_earnings input allowanceFactor;
         gross = basic + overtimePay + amount_sum earnings;
         (pfEmployee, pfEmployer) = pf_parts input config basic;
         (esiEmployee, esiEmployer, esiWarnings) = esi_parts input config gross;
         professionalTax = professional_tax input config gross;
         otherDeductions = other_deductions input;
         fixed = pfEmployee + esiEmployee + professionalTax + amount_sum otherDeductions;
         advanceRecovery = max 0 (min (pay_paise (pin_advanceDue input)) (gross - fixed));
         totalDeductions = fixed + advanceRecovery;
         net = gross - totalDeductions
     in \<lparr> pk_payableDays = payableDays, pk_basic = pay_rupees basic,
          pk_overtimeHours = of_int (js_round (of_int otMinutes / 60 * 100)) / 100, pk_overtimePay = pay_rupees overtimePay,
          pk_earnings = pay_lines earnings, pk_gross = pay_rupees gross, pk_pfEmployee = pay_rupees pfEmployee,
          pk_esiEmployee = pay_rupees esiEmployee, pk_professionalTax = pay_rupees professionalTax,
          pk_advanceRecovery = pay_rupees advanceRecovery, pk_otherDeductions = pay_lines otherDeductions,
          pk_totalDeductions = pay_rupees totalDeductions, pk_net = pay_rupees net,
          pk_pfEmployer = pay_rupees pfEmployer, pk_esiEmployer = pay_rupees esiEmployer,
          pk_warnings = esiWarnings @
            (if advanceRecovery < pay_paise (pin_advanceDue input) then [''Advance recovery reduced to keep net pay non-negative''] else []) @
            (if net < 0 then [''Deductions exceed gross pay''] else []) \<rparr>)"

section \<open>Profit and loss\<close>

record expense_amounts =
  ea_taxableAmount :: num
  ea_cgst :: num
  ea_sgst :: num
  ea_igst :: num
  ea_itcEligible :: bool

definition expenseCost :: "expense_amounts \<Rightarrow> num" where
  "expenseCost e = (if ea_itcEligible e then ea_taxableAmount e
     else pay_rupees (pay_paise (ea_taxableAmount e) + pay_paise (ea_cgst e) + pay_paise (ea_sgst e) + pay_paise (ea_igst e)))"

record pnl_raw =
  pr_grossSales :: num
  pr_discounts :: num
  pr_refunds :: num
  pr_taxCollected :: num
  pr_cogs :: num
  pr_wastage :: num
  pr_expenses :: "(string \<times> num) list"
  pr_payroll :: num
  pr_orders :: int

record pnl_figures =
  pf_grossSales :: num
  pf_discounts :: num
  pf_refunds :: num
  pf_netSales :: num
  pf_taxCollected :: num
  pf_cogs :: num
  pf_wastage :: num
  pf_grossProfit :: num
  pf_expenses :: "(string \<times> num) list"
  pf_totalExpenses :: num
  pf_payroll :: num
  pf_netProfit :: num
  pf_orders :: int

definition by_category :: "(string \<times> num) list \<Rightarrow> (string \<times> int) list" where
  "by_category expenses = foldl (\<lambda>m (category, amount). js_map_add category (pay_paise amount) m) [] expenses"

definition buildPnl :: "pnl_raw \<Rightarrow> pnl_figures" where
  "buildPnl raw =
    (let netSales = pay_paise (pr_grossSales raw) - pay_paise (pr_discounts raw) - pay_paise (pr_refunds raw);
         grossProfit = netSales - pay_paise (pr_cogs raw) - pay_paise (pr_wastage raw);
         byCat = by_category (pr_expenses raw);
         expenses = sort_key (\<lambda>e. - snd e) (pay_lines byCat);
         totalExpenses = amount_sum byCat;
         netProfit = grossProfit - totalExpenses - pay_paise (pr_payroll raw)
     in \<lparr> pf_grossSales = pay_rupees (pay_paise (pr_grossSales raw)), pf_discounts = pay_rupees (pay_paise (pr_discounts raw)),
          pf_refunds = pay_rupees (pay_paise (pr_refunds raw)), pf_netSales = pay_rupees netSales,
          pf_taxCollected = pay_rupees (pay_paise (pr_taxCollected raw)), pf_cogs = pay_rupees (pay_paise (pr_cogs raw)),
          pf_wastage = pay_rupees (pay_paise (pr_wastage raw)), pf_grossProfit = pay_rupees grossProfit, pf_expenses = expenses,
          pf_totalExpenses = pay_rupees totalExpenses, pf_payroll = pay_rupees (pay_paise (pr_payroll raw)),
          pf_netProfit = pay_rupees netProfit, pf_orders = pr_orders raw \<rparr>)"

section \<open>The payslip adds up\<close>

lemma pay_rupees_div [simp]: "pay_rupees p = of_int p / 100"
  by (simp add: pay_rupees_def)

lemma amount_sum_list: "amount_sum ls = (\<Sum>l\<leftarrow>ls. snd l)"
proof -
  have "foldl (\<lambda>s l. s + snd l) k ls = k + (\<Sum>l\<leftarrow>ls. snd l)" for k by (induction ls arbitrary: k) simp_all
  then show ?thesis by (simp add: amount_sum_def)
qed

lemma pay_lines_sum: "(\<Sum>l\<leftarrow>pay_lines ls. snd l) = of_int (amount_sum ls) / 100"
  by (induction ls) (auto simp: pay_lines_def amount_sum_list add_divide_distrib)

definition fixed_deductions :: "payslip_calc \<Rightarrow> num" where
  "fixed_deductions c = pk_pfEmployee c + pk_esiEmployee c + pk_professionalTax c + (\<Sum>l\<leftarrow>pk_otherDeductions c. snd l)"

lemma payslip_sums:
  "pk_gross (computePayslip input config) = pk_basic (computePayslip input config) + pk_overtimePay (computePayslip input config)
     + (\<Sum>l\<leftarrow>pk_earnings (computePayslip input config). snd l)"
  "pk_totalDeductions (computePayslip input config) = fixed_deductions (computePayslip input config) + pk_advanceRecovery (computePayslip input config)"
  "pk_net (computePayslip input config) = pk_gross (computePayslip input config) - pk_totalDeductions (computePayslip input config)"
  by (simp_all add: computePayslip_def fixed_deductions_def Let_def pay_lines_sum add_divide_distrib diff_divide_distrib split: prod.splits)

lemma payslip_advance:
  "pk_advanceRecovery (computePayslip input config) = max 0 (min (of_int (pay_paise (pin_advanceDue input)) / 100)
     (pk_gross (computePayslip input config) - fixed_deductions (computePayslip input config)))"
proof -
  have "(of_int (max 0 (min x (g - f))) :: num) / 100 = max 0 (min (of_int x / 100) (of_int g / 100 - of_int f / 100))" for x g f :: int
    by (simp add: max_def min_def diff_divide_distrib [symmetric] divide_le_cancel)
  then show ?thesis
    unfolding computePayslip_def fixed_deductions_def Let_def case_prod_beta payslip_calc.select_convs pay_rupees_div pay_lines_sum
    by (simp only: of_int_add add_divide_distrib)
qed

lemma payslip_warning:
  "pk_net (computePayslip input config) < 0 \<Longrightarrow> ''Deductions exceed gross pay'' \<in> set (pk_warnings (computePayslip input config))"
proof -
  have "\<exists>n w. pk_net (computePayslip input config) = of_int n / 100 \<and>
      pk_warnings (computePayslip input config) = w @ (if n < 0 then [''Deductions exceed gross pay''] else [])"
    unfolding computePayslip_def Let_def case_prod_beta payslip_calc.select_convs pay_rupees_div
    by (intro exI conjI, rule refl, rule append_assoc [symmetric])
  then show "pk_net (computePayslip input config) < 0 \<Longrightarrow> ?thesis" by (auto simp: divide_less_0_iff)
qed

lemma pk_basic_eq: "pk_basic (computePayslip input config) = of_int (fst (base_pay input config)) / 100"
  by (simp add: computePayslip_def Let_def case_prod_beta)

lemma payslip_recovery_nonneg: "0 \<le> pk_advanceRecovery (computePayslip input config)"
  by (simp add: payslip_advance)

text \<open>C34. A payslip adds up in paise: gross is basic pay, overtime and the listed earnings; deductions are the statutory parts, the listed
  deductions and the advance recovered; net is what is left. The recovery is never negative, never more than what is due, and never drives
  the net pay below zero: a negative net pay comes from the fixed deductions alone, recovers nothing, and carries a warning.\<close>

theorem payslip_adds_up:
  assumes "c = computePayslip input config" and "0 \<le> pin_advanceDue input"
  shows "pk_gross c = pk_basic c + pk_overtimePay c + (\<Sum>l\<leftarrow>pk_earnings c. snd l) \<and>
    pk_totalDeductions c = pk_pfEmployee c + pk_esiEmployee c + pk_professionalTax c + (\<Sum>l\<leftarrow>pk_otherDeductions c. snd l) + pk_advanceRecovery c \<and>
    pk_net c = pk_gross c - pk_totalDeductions c \<and>
    0 \<le> pk_advanceRecovery c \<and> pk_advanceRecovery c \<le> of_int (pay_paise (pin_advanceDue input)) / 100 \<and>
    (pk_net c < 0 \<longrightarrow> pk_advanceRecovery c = 0 \<and> ''Deductions exceed gross pay'' \<in> set (pk_warnings c))"
proof -
  have due: "0 \<le> (of_int (pay_paise (pin_advanceDue input)) :: num) / 100"
    using js_round_nonneg [of "pin_advanceDue input * 100"] assms(2) by (simp add: pay_paise_def)
  then have low: "pk_advanceRecovery c \<le> of_int (pay_paise (pin_advanceDue input)) / 100"
    unfolding assms(1) payslip_advance by (simp only: max.bounded_iff min.coboundedI1 order_refl)
  have "pk_advanceRecovery c = 0" if "pk_net c < 0"
    using that due unfolding assms(1) payslip_sums payslip_advance by (simp add: max_def min_def split: if_splits)
  then show ?thesis
    using low payslip_sums [of input config] payslip_recovery_nonneg [of input config] payslip_warning [of input config]
    unfolding assms(1) fixed_deductions_def by simp
qed

text \<open>A monthly salary is paid in full without loss of pay, and never exceeds the salary.\<close>

lemma monthly_basic:
  assumes "pin_payType input = Monthly" and "0 \<le> pin_payRate input" and "0 \<le> pin_lopDays input" and "0 < pin_daysInMonth input"
  shows "0 \<le> pk_basic (computePayslip input config) \<and> pk_basic (computePayslip input config) \<le> of_int (pay_paise (pin_payRate input)) / 100 \<and>
    (pin_lopDays input = 0 \<longrightarrow> pk_basic (computePayslip input config) = of_int (pay_paise (pin_payRate input)) / 100)"
proof -
  define rate where "rate = pay_paise (pin_payRate input)"
  have r: "0 \<le> rate" using js_round_nonneg [of "pin_payRate input * 100"] assms(2) by (simp add: rate_def pay_paise_def)
  have "0 \<le> lop_days input" using assms(3,4) by (simp add: lop_days_def)
  moreover have "0 < basis_days config (pin_daysInMonth input)" using assms(4) by (simp add: basis_days_def split: monthly_basis.split)
  ultimately have "js_round (of_int rate - of_int rate / basis_days config (pin_daysInMonth input) * lop_days input) \<le> rate"
    using r by (intro js_round_le_of_int) simp
  moreover have "pin_lopDays input = 0 \<Longrightarrow> lop_days input = 0" using assms(4) by (simp add: lop_days_def)
  ultimately show ?thesis
    using assms(1) r unfolding pk_basic_eq by (simp add: base_pay_def Let_def rate_def [symmetric] divide_right_mono)
qed

section \<open>The statement adds up\<close>

lemma by_category_sum: "(\<Sum>p\<leftarrow>by_category es. snd p) = (\<Sum>e\<leftarrow>es. pay_paise (snd e)) \<and> distinct (map fst (by_category es))"
proof -
  have "distinct (map fst m) \<Longrightarrow> (\<Sum>p\<leftarrow>foldl (\<lambda>m (category, amount). js_map_add category (pay_paise amount) m) m es. snd p) =
      (\<Sum>p\<leftarrow>m. snd p) + (\<Sum>e\<leftarrow>es. pay_paise (snd e)) \<and>
      distinct (map fst (foldl (\<lambda>m (category, amount). js_map_add category (pay_paise amount) m) m es))" for m
  proof (induction es arbitrary: m)
    case (Cons e es)
    then show ?case by (cases e) (simp add: sum_js_map_add distinct_js_map_add)
  qed simp
  from this [of "[]"] show ?thesis by (simp add: by_category_def)
qed

theorem buildPnl_adds_up:
  "pf_netProfit (buildPnl raw) = pf_grossSales (buildPnl raw) - pf_discounts (buildPnl raw) - pf_refunds (buildPnl raw)
     - pf_cogs (buildPnl raw) - pf_wastage (buildPnl raw) - (\<Sum>e\<leftarrow>pf_expenses (buildPnl raw). snd e) - pf_payroll (buildPnl raw) \<and>
   (\<Sum>e\<leftarrow>pf_expenses (buildPnl raw). snd e) = (\<Sum>e\<leftarrow>pr_expenses raw. of_int (pay_paise (snd e)) / 100) \<and>
   distinct (map fst (pf_expenses (buildPnl raw)))"
proof -
  define rows where "rows = by_category (pr_expenses raw)"
  have sorted_sum: "(\<Sum>e\<leftarrow>sort_key f xs. snd e) = (\<Sum>e\<leftarrow>xs. snd e)" for f :: "string \<times> num \<Rightarrow> num" and xs :: "(string \<times> num) list"
    by (metis mset_map mset_sort sum_mset_sum_list)
  have total: "(\<Sum>e\<leftarrow>pf_expenses (buildPnl raw). snd e) = of_int (\<Sum>p\<leftarrow>rows. snd p) / 100"
    by (simp add: buildPnl_def Let_def sorted_sum rows_def [symmetric] pay_lines_sum amount_sum_list)
  have all: "(of_int (\<Sum>e\<leftarrow>es. pay_paise (snd e)) :: num) / 100 = (\<Sum>e\<leftarrow>es. of_int (pay_paise (snd e)) / 100)" for es :: "(string \<times> num) list"
    by (induction es) (auto simp: add_divide_distrib)
  have "distinct (map fst (pf_expenses (buildPnl raw)))"
  proof -
    have "mset (map fst (pf_expenses (buildPnl raw))) = mset (map fst rows)"
      by (simp add: buildPnl_def Let_def rows_def [symmetric] pay_lines_def image_mset.compositionality comp_def case_prod_beta)
    then show ?thesis using by_category_sum [of "pr_expenses raw"] unfolding rows_def by (metis mset_eq_imp_distinct_iff)
  qed
  moreover have "pf_netProfit (buildPnl raw) = pf_grossSales (buildPnl raw) - pf_discounts (buildPnl raw) - pf_refunds (buildPnl raw)
     - pf_cogs (buildPnl raw) - pf_wastage (buildPnl raw) - of_int (\<Sum>p\<leftarrow>rows. snd p) / 100 - pf_payroll (buildPnl raw)"
    by (simp add: buildPnl_def Let_def amount_sum_list rows_def diff_divide_distrib)
  ultimately show ?thesis using total by_category_sum [of "pr_expenses raw"] by (simp add: rows_def all)
qed

section \<open>A concrete payslip\<close>

lemma js_round_numeral [simp]: "js_round (numeral n) = numeral n"
  using js_round_of_int [of "numeral n"] by simp

definition cook0 :: pay_inputs where
  "cook0 = \<lparr> pin_payType = Monthly, pin_payRate = 30000, pin_allowances = [(''HRA'', 1000)], pin_deductions = [], pin_pfApplicable = True,
     pin_esiApplicable = False, pin_ptApplicable = True, pin_overtimeEligible = True, pin_daysInMonth = 30, pin_presentDays = 26,
     pin_paidLeaveDays = 1, pin_lopDays = 3, pin_workedMinutes = 12480, pin_overtimeMinutes = 0, pin_advanceDue = 2000, pin_adjustments = [] \<rparr>"

theorem payslip_adds_up_witness:
  "pk_net (computePayslip cook0 DEFAULT_PAYROLL_CONFIG) = 23900 \<and>
   pk_net (computePayslip cook0 DEFAULT_PAYROLL_CONFIG) = pk_gross (computePayslip cook0 DEFAULT_PAYROLL_CONFIG)
     - pk_totalDeductions (computePayslip cook0 DEFAULT_PAYROLL_CONFIG)"
proof -
  have "0 \<le> pin_advanceDue cook0" by (simp add: cook0_def)
  from payslip_adds_up [OF refl this, of DEFAULT_PAYROLL_CONFIG] have *: "pk_net (computePayslip cook0 DEFAULT_PAYROLL_CONFIG) =
      pk_gross (computePayslip cook0 DEFAULT_PAYROLL_CONFIG) - pk_totalDeductions (computePayslip cook0 DEFAULT_PAYROLL_CONFIG)" by blast
  have base: "base_pay cook0 DEFAULT_PAYROLL_CONFIG = (2700000, 12500, 9/10)"
    by (simp add: base_pay_def cook0_def DEFAULT_PAYROLL_CONFIG_def basis_days_def lop_days_def pay_paise_def Let_def)
  have parts: "pay_earnings cook0 (9/10) = [(''HRA'', 90000)]" "pf_parts cook0 DEFAULT_PAYROLL_CONFIG 2700000 = (180000, 180000)"
    "esi_parts cook0 DEFAULT_PAYROLL_CONFIG 2790000 = (0, 0, [])" "professional_tax cook0 DEFAULT_PAYROLL_CONFIG 2790000 = 20000"
    "other_deductions cook0 = []" "ot_minutes cook0 = 0" "pay_paise (pin_advanceDue cook0) = 200000"
    by (simp_all add: pay_earnings_def pf_parts_def esi_parts_def professional_tax_def other_deductions_def ot_minutes_def cook0_def
        DEFAULT_PAYROLL_CONFIG_def wholeRupee_def pay_paise_def Let_def)
  have "pk_net (computePayslip cook0 DEFAULT_PAYROLL_CONFIG) = 23900"
    by (simp add: computePayslip_def base parts amount_sum_def Let_def)
  with * show ?thesis by simp
qed

end
