(* ===== verification/Schema.thy ===== *)
theory Schema
  imports Money Payslip
begin

text \<open>
  The rows the services read and write, as records with the columns of the Prisma models
  (relations that a query includes are nested lists), the database as a record of tables,
  the caller, and the environment of a request: the clock, the source of fresh row ids
  and the time-zone tables, none of which is code of the repository.
\<close>

section \<open>Enumerations\<close>

datatype order_type = DINE_IN | TAKEAWAY | DELIVERY
datatype order_status = OPEN | BILLED | SETTLED | CANCELLED | SPLIT | MERGED
datatype payment_mode = CASH | CARD | UPI | WALLET | OTHER | GIFT_CARD
datatype prep_status = PENDING | PREPARING | READY
datatype drawer_status = DrawerOpen | DrawerClosed
datatype movement_type = SALE | PAY_IN | PAY_OUT | EXPENSE | REFUND
datatype card_kind = GiftCard | StoreCredit
datatype card_status = ACTIVE | VOID
datatype card_txn_type = TxnIssue | TxnRedeem | TxnVoid | TxnStoreCredit
datatype loyalty_type = EARN | REDEEM
datatype refund_status = RefundPending | RefundProcessed | RefundFailed | RefundManual | RefundUnknown
datatype gateway_status = GwCreated | GwPaid | GwExpired | GwCancelled | GwFailed
datatype material_unit = UnitKG | UnitG | UnitL | UnitML | UnitPCS
datatype stock_type = RECEIPT | CONSUMPTION | WASTAGE | ADJUSTMENT | PRODUCTION_OUT | PRODUCTION_IN | TRANSFER_OUT | TRANSFER_IN
datatype count_scope = ScopeFull | ScopeCategory
datatype count_status = CountCounting | CountSubmitted | CountPosted | CountCancelled
datatype indent_status = IndentDraft | IndentDispatched | IndentReceived | IndentCancelled
datatype po_status = PoDraft | PoApproved | PoSent | PoPartiallyReceived | PoReceived | PoClosed | PoCancelled
datatype bill_status = BillOpen | BillPartial | BillPaid | BillVoid

datatype request_status = ReqPending | ReqApproved | ReqRejected | ReqCancelled
datatype punch_source = SourcePin | SourceManual | SourceCorrected
datatype advance_source = FromDrawer | FromBank
datatype advance_status = AdvanceOpen | AdvanceClosed
datatype run_status = RunDraft | RunFinalised
datatype request_mode = ModeDineIn | ModeTakeaway
datatype scan_status = ScanPending | ScanProcessing | ScanAccepted | ScanRejected
datatype reservation_status = Booked | Confirmed | Seated | NoShow | Cancelled
datatype reservation_source = FromPhone | FromWalkIn | FromWeb | FromAggregator | FromOther
datatype waitlist_status = Waiting | Notified | WaitSeated | Left
datatype server_call_type = CallWaiter | CallWater | CallBill
datatype server_call_source = FromDiner | FromStaff
datatype server_call_status = CallOpen | CallAcknowledged | CallResolved

section \<open>Callers\<close>

record auth_user =
  u_id :: id
  u_tenantId :: id
  u_outletIds :: "id list"
  u_permissions :: "string list"

section \<open>Rows\<close>

record outlet_row =
  ou_id :: id
  ou_tenantId :: id
  ou_name :: string
  ou_gstin :: "string option"
  ou_placeOfSupply :: "string option"
  ou_nextBillNumber :: int
  ou_nextKotNumber :: int
  ou_loyaltyEarnRate :: num
  ou_loyaltyPointValue :: num
  ou_isCentralKitchen :: bool
  ou_publicToken :: "string option"

record table_row =
  dt_id :: id
  dt_tenantId :: id
  dt_outletId :: id
  dt_areaId :: id
  dt_name :: string
  dt_seats :: int
  dt_publicToken :: "string option"

record variation_row =
  va_id :: id
  va_name :: string
  va_price :: num

record addon_row =
  ad_id :: id
  ad_name :: string
  ad_price :: num

record addon_group_row =
  ag_tenantId :: id
  ag_outletId :: id
  ag_name :: string
  ag_minSelect :: int
  ag_maxSelect :: int
  ag_addons :: "addon_row list"

record item_row =
  it_id :: id
  it_tenantId :: id
  it_outletId :: id
  it_name :: string
  it_price :: num
  it_inStock :: bool
  it_taxRate :: num
  it_availableStart :: "string option"
  it_availableEnd :: "string option"
  it_deletedAt :: "int option"
  it_stationId :: "id option"
  it_variations :: "variation_row list"
  it_addonGroups :: "addon_group_row list"

record combo_option_row =
  op_itemId :: id
  op_priceDelta :: num
  op_isDefault :: bool

record combo_slot_row =
  sl_id :: id
  sl_name :: string
  sl_sortOrder :: int
  sl_options :: "combo_option_row list"

record combo_row =
  co_id :: id
  co_tenantId :: id
  co_outletId :: id
  co_name :: string
  co_price :: num
  co_inStock :: bool
  co_taxRate :: num
  co_deletedAt :: "int option"
  co_slots :: "combo_slot_row list"

record order_row =
  o_id :: id
  o_tenantId :: id
  o_outletId :: id
  o_billNumber :: "string option"
  o_orderType :: order_type
  o_status :: order_status
  o_tableId :: "id option"
  o_customerName :: "string option"
  o_customerPhone :: "string option"
  o_customerId :: "id option"
  o_couponCode :: "string option"
  o_deviceId :: "id option"
  o_clientId :: "id option"
  o_offlineRef :: "string option"
  o_subtotal :: num
  o_discountAmount :: num
  o_taxAmount :: num
  o_total :: num
  o_version :: int
  o_createdById :: "id option"
  o_serviceChargeAmount :: num
  o_serviceChargeRate :: num
  o_serviceChargeTaxable :: bool
  o_serviceChargeWaived :: bool
  o_serviceChargeWaivedReason :: "string option"
  o_roundOff :: num
  o_allocatedDiscount :: num
  o_parentOrderId :: "id option"
  o_splitIndex :: "int option"
  o_splitCount :: "int option"
  o_mergedIntoOrderId :: "id option"

record line_addon =
  la_addonId :: id
  la_name :: string
  la_price :: num

record order_item_row =
  oi_id :: id
  oi_orderId :: id
  oi_itemId :: id
  oi_itemName :: string
  oi_variationId :: "id option"
  oi_variationName :: "string option"
  oi_quantity :: int
  oi_unitPrice :: num
  oi_lineTotal :: num
  oi_taxRate :: num
  oi_note :: "string option"
  oi_kotId :: "id option"
  oi_stationId :: "id option"
  oi_prepStatus :: prep_status
  oi_preppedAt :: "int option"
  oi_comboId :: "id option"
  oi_comboGroupId :: "id option"
  oi_isComboComponent :: bool
  oi_splitFromItemId :: "id option"
  oi_splitParts :: "int option"
  oi_addons :: "line_addon list"

record kot_row =
  k_id :: id
  k_tenantId :: id
  k_outletId :: id
  k_orderId :: id
  k_kotNumber :: int
  k_createdAt :: int

record payment_row =
  p_orderId :: id
  p_mode :: payment_mode
  p_amount :: num

record customer_row =
  cu_id :: id
  cu_tenantId :: id
  cu_outletId :: id
  cu_name :: "string option"
  cu_phone :: string
  cu_loyaltyPoints :: int
  cu_totalOrders :: int
  cu_totalSpent :: num
  cu_lastVisitAt :: "int option"

record loyalty_txn_row =
  lt_customerId :: id
  lt_type :: loyalty_type
  lt_points :: int
  lt_orderId :: "id option"
  lt_note :: "string option"

record otp_row =
  otp_id :: id
  otp_tenantId :: id
  otp_outletId :: id
  otp_phone :: string
  otp_code :: string
  otp_expiresAt :: int
  otp_consumedAt :: "int option"
  otp_createdAt :: int

record coupon_row =
  cp_id :: id
  cp_outletId :: id
  cp_code :: string
  cp_rule :: coupon_rule

record cash_session_row =
  cs_id :: id
  cs_tenantId :: id
  cs_outletId :: id
  cs_openedById :: "id option"
  cs_openingFloat :: num
  cs_openedAt :: int
  cs_closedAt :: "int option"
  cs_countedCash :: "num option"
  cs_status :: drawer_status

record cash_movement_row =
  cm_id :: id
  cm_sessionId :: id
  cm_type :: movement_type
  cm_amount :: num
  cm_category :: "string option"
  cm_note :: "string option"
  cm_orderId :: "id option"
  cm_createdAt :: int

record gift_card_row =
  gc_id :: id
  gc_tenantId :: id
  gc_issuedOutletId :: id
  gc_code :: string
  gc_kind :: card_kind
  gc_initialValue :: num
  gc_balance :: num
  gc_expiresOn :: "date option"
  gc_status :: card_status
  gc_customerName :: "string option"
  gc_customerPhone :: "string option"
  gc_note :: "string option"
  gc_issuedById :: "id option"
  gc_voidedAt :: "int option"
  gc_voidReason :: "string option"

record gift_txn_row =
  gt_tenantId :: id
  gt_giftCardId :: id
  gt_outletId :: id
  gt_type :: card_txn_type
  gt_amount :: num
  gt_balanceAfter :: num
  gt_orderId :: "id option"
  gt_paymentMode :: "string option"
  gt_userId :: "id option"
  gt_note :: "string option"

record refund_row =
  rf_id :: id
  rf_tenantId :: id
  rf_outletId :: id
  rf_orderId :: id
  rf_amount :: num
  rf_mode :: payment_mode
  rf_reason :: "string option"
  rf_gatewayRef :: "string option"
  rf_status :: refund_status
  rf_requestKey :: "string option"
  rf_gatewayPaymentId :: "id option"

record gateway_payment_row =
  gp_id :: id
  gp_tenantId :: id
  gp_outletId :: id
  gp_orderId :: id
  gp_amount :: num
  gp_status :: gateway_status
  gp_paymentId :: "string option"
  gp_paidAt :: "int option"

record raw_material_row =
  rm_id :: id
  rm_tenantId :: id
  rm_outletId :: id
  rm_name :: string
  rm_unit :: material_unit
  rm_stockQty :: num
  rm_reorderLevel :: num
  rm_costPerUnit :: num
  rm_isSemiFinished :: bool
  rm_deletedAt :: "int option"

record recipe_row =
  ri_itemId :: id
  ri_rawMaterialId :: id
  ri_quantity :: num

record prep_row =
  pi_outputMaterialId :: id
  pi_inputMaterialId :: id
  pi_quantity :: num

record vendor_row =
  ve_id :: id
  ve_tenantId :: id
  ve_outletId :: id
  ve_name :: string
  ve_phone :: "string option"
  ve_deletedAt :: "int option"
  ve_email :: "string option"
  ve_gstin :: "string option"
  ve_address :: "string option"
  ve_paymentTermsDays :: "int option"

record stock_movement_row =
  sm_tenantId :: id
  sm_outletId :: id
  sm_rawMaterialId :: id
  sm_type :: stock_type
  sm_quantity :: num
  sm_unitCost :: "num option"
  sm_reason :: "string option"
  sm_vendorId :: "id option"
  sm_refType :: "string option"
  sm_refId :: "id option"
  sm_createdById :: "id option"
  sm_createdAt :: int

record billing_rules =
  br_serviceChargeEnabled :: bool
  br_serviceChargePercent :: num
  br_serviceChargeTaxable :: bool
  br_serviceChargeOrderTypes :: "order_type list"
  br_roundOffEnabled :: bool
  br_timezone :: string

record billing_settings_row =
  bs_tenantId :: id
  bs_outletId :: id
  bs_rules :: billing_rules

record channel_row =
  ch_id :: id
  ch_tenantId :: id
  ch_outletId :: id
  ch_name :: string
  ch_isActive :: bool

record channel_price_row =
  icp_itemId :: id
  icp_channelId :: id
  icp_price :: num

record audit_row =
  au_tenantId :: id
  au_userId :: "id option"
  au_action :: string
  au_entity :: string
  au_entityId :: "id option"

record order_line_input =
  li_itemId :: id
  li_variationId :: "id option"
  li_addonIds :: "id list"
  li_quantity :: int
  li_note :: "string option"
  li_offlineUnitPrice :: "num option"
  li_offlineTaxRate :: "num option"

record combo_input =
  ci_comboId :: id
  ci_quantity :: int
  ci_note :: "string option"
  ci_selections :: "(id \<times> id) list"

text \<open>What a diner submits, kept as JSON on the request until a member of staff decides.\<close>

record submitted_item =
  sub_itemId :: id
  sub_variationId :: "id option"
  sub_addonIds :: "id list option"
  sub_quantity :: int
  sub_note :: "string option"

record submitted_combo =
  suc_comboId :: id
  suc_quantity :: int
  suc_selections :: "(id \<times> id) list option"
  suc_note :: "string option"

record order_request_row =
  orq_id :: id
  orq_tenantId :: id
  orq_outletId :: id
  orq_tableId :: "id option"
  orq_mode :: request_mode
  orq_customerName :: "string option"
  orq_customerPhone :: "string option"
  orq_items :: "submitted_item list"
  orq_combos :: "submitted_combo list option"
  orq_note :: "string option"
  orq_status :: scan_status
  orq_token :: string
  orq_orderId :: "id option"
  orq_tokenNumber :: "int option"
  orq_createdAt :: int
  orq_decidedAt :: "int option"

datatype parked_line =
    ParkedItem order_line_input string "string option" "string list" num
  | ParkedCombo combo_input string "string list" num

record parked_cart_row =
  pk_id :: id
  pk_tenantId :: id
  pk_outletId :: id
  pk_label :: string
  pk_orderType :: order_type
  pk_tableId :: "id option"
  pk_orderId :: "id option"
  pk_customerName :: "string option"
  pk_customerPhone :: "string option"
  pk_lines :: "parked_line list"
  pk_itemCount :: int
  pk_amount :: num
  pk_parkedById :: "id option"
  pk_createdAt :: int

record reservation_row =
  rv_id :: id
  rv_tenantId :: id
  rv_outletId :: id
  rv_guestName :: string
  rv_phone :: string
  rv_partySize :: int
  rv_startAt :: int
  rv_durationMinutes :: int
  rv_status :: reservation_status
  rv_source :: reservation_source
  rv_notes :: "string option"
  rv_customerId :: "id option"
  rv_createdById :: "id option"
  rv_seatedAt :: "int option"
  rv_createdAt :: int

record reservation_table_row =
  rvt_reservationId :: id
  rvt_tableId :: id

record waitlist_row =
  wl_id :: id
  wl_tenantId :: id
  wl_outletId :: id
  wl_guestName :: string
  wl_phone :: "string option"
  wl_partySize :: int
  wl_quotedMinutes :: int
  wl_status :: waitlist_status
  wl_notes :: "string option"
  wl_tableId :: "id option"
  wl_customerId :: "id option"
  wl_notifiedAt :: "int option"
  wl_seatedAt :: "int option"
  wl_createdAt :: int

record server_call_row =
  sv_id :: id
  sv_tenantId :: id
  sv_outletId :: id
  sv_tableId :: id
  sv_type :: server_call_type
  sv_source :: server_call_source
  sv_status :: server_call_status
  sv_createdById :: "id option"
  sv_acknowledgedById :: "id option"
  sv_acknowledgedAt :: "int option"
  sv_resolvedById :: "id option"
  sv_resolvedAt :: "int option"
  sv_createdAt :: int

record expense_category_row =
  ec_id :: id
  ec_tenantId :: id
  ec_name :: string

record expense_row =
  ex_id :: id
  ex_tenantId :: id
  ex_outletId :: id
  ex_categoryId :: id
  ex_date :: date
  ex_taxableAmount :: num
  ex_cgst :: num
  ex_sgst :: num
  ex_igst :: num
  ex_total :: num
  ex_itcEligible :: bool
  ex_paidFrom :: string
  ex_note :: "string option"
  ex_cashMovementId :: "id option"
  ex_createdById :: "id option"
  ex_voidedAt :: "int option"

record station_row =
  st_id :: id
  st_tenantId :: id
  st_outletId :: id
  st_name :: string
  st_sortOrder :: int
  st_prepMinutes :: int

record planning_row =
  pl_tenantId :: id
  pl_outletId :: id
  pl_rawMaterialId :: id
  pl_category :: "string option"

record stock_count_row =
  sc_id :: id
  sc_tenantId :: id
  sc_outletId :: id
  sc_countNumber :: string
  sc_scope :: count_scope
  sc_category :: "string option"
  sc_status :: count_status
  sc_note :: "string option"
  sc_startedAt :: int
  sc_startedById :: "id option"
  sc_submittedAt :: "int option"
  sc_postedAt :: "int option"
  sc_postedById :: "id option"
  sc_cancelledAt :: "int option"
  sc_varianceValue :: num

record stock_count_line_row =
  cl_id :: id
  cl_stockCountId :: id
  cl_rawMaterialId :: id
  cl_materialName :: string
  cl_unit :: material_unit
  cl_expectedQty :: num
  cl_unitCost :: num
  cl_countedQty :: "num option"
  cl_countedAt :: "int option"
  cl_countedById :: "id option"
  cl_note :: "string option"
  cl_varianceQty :: "num option"
  cl_varianceValue :: "num option"

record indent_item_row =
  ndi_id :: id
  ndi_rawMaterialId :: id
  ndi_materialName :: string
  ndi_unit :: material_unit
  ndi_requestedQty :: num
  ndi_dispatchedQty :: num
  ndi_unitCost :: num

record indent_row =
  in_id :: id
  in_tenantId :: id
  in_fromOutletId :: id
  in_toOutletId :: id
  in_status :: indent_status
  in_note :: "string option"
  in_createdAt :: int
  in_dispatchedAt :: "int option"
  in_receivedAt :: "int option"
  in_items :: "indent_item_row list"

record eway_bill_row =
  ew_id :: id
  ew_tenantId :: id
  ew_indentId :: id
  ew_ewbNo :: string
  ew_value :: num
  ew_fromGstin :: "string option"
  ew_toGstin :: "string option"
  ew_distanceKm :: int
  ew_validUntil :: int

record purchase_order_row =
  po_id :: id
  po_tenantId :: id
  po_outletId :: id
  po_vendorId :: id
  po_poNumber :: string
  po_status :: po_status
  po_expectedDate :: "int option"
  po_note :: "string option"
  po_subtotal :: num
  po_taxAmount :: num
  po_total :: num
  po_createdById :: "id option"
  po_approvedById :: "id option"
  po_approvedAt :: "int option"
  po_sentAt :: "int option"
  po_closedAt :: "int option"
  po_cancelledAt :: "int option"
  po_cancelReason :: "string option"
  po_createdAt :: int

record po_line_row =
  pol_id :: id
  pol_purchaseOrderId :: id
  pol_rawMaterialId :: id
  pol_materialName :: string
  pol_unit :: material_unit
  pol_unitFactor :: num
  pol_orderedQty :: num
  pol_receivedQty :: num
  pol_rate :: num
  pol_taxRate :: num
  pol_sortOrder :: int

record goods_receipt_row =
  gr_id :: id
  gr_tenantId :: id
  gr_outletId :: id
  gr_purchaseOrderId :: id
  gr_vendorId :: id
  gr_grnNumber :: string
  gr_invoiceNo :: "string option"
  gr_note :: "string option"
  gr_subtotal :: num
  gr_taxAmount :: num
  gr_total :: num
  gr_varianceAmount :: num
  gr_createdById :: "id option"

record grn_line_row =
  gl_goodsReceiptId :: id
  gl_purchaseOrderLineId :: id
  gl_rawMaterialId :: id
  gl_quantity :: num
  gl_rate :: num
  gl_poRate :: num
  gl_taxRate :: num
  gl_stockQty :: num
  gl_unitCost :: num
  gl_lineTotal :: num
  gl_priceVariance :: num

record supplier_bill_row =
  sb_id :: id
  sb_tenantId :: id
  sb_outletId :: id
  sb_vendorId :: id
  sb_billNumber :: string
  sb_billDate :: int
  sb_dueDate :: "int option"
  sb_amount :: num
  sb_paidAmount :: num
  sb_status :: bill_status
  sb_purchaseOrderId :: "id option"
  sb_goodsReceiptId :: "id option"
  sb_note :: "string option"
  sb_createdById :: "id option"

record procurement_settings_row =
  pse_tenantId :: id
  pse_outletId :: id
  pse_overReceiptPct :: num
  pse_priceVarianceAlertPct :: num
  pse_coverDays :: int
  pse_leadDays :: int
  pse_lookbackDays :: int

record supplier_payment_row =
  sp_id :: id
  sp_tenantId :: id
  sp_outletId :: id
  sp_vendorId :: id
  sp_amount :: num
  sp_unallocated :: num
  sp_mode :: string
  sp_reference :: "string option"
  sp_note :: "string option"
  sp_paidAt :: int
  sp_createdById :: "id option"

record allocation_row =
  al_id :: id
  al_tenantId :: id
  al_paymentId :: id
  al_billId :: id
  al_amount :: num

record user_row =
  us_id :: id
  us_tenantId :: id
  us_name :: string
  us_isActive :: bool

record staff_row =
  sf_id :: id
  sf_tenantId :: id
  sf_outletId :: id
  sf_userId :: "id option"
  sf_employeeCode :: string
  sf_name :: string
  sf_phone :: "string option"
  sf_designation :: "string option"
  sf_joiningDate :: date
  sf_exitDate :: "date option"
  sf_pinHash :: "string option"
  sf_pinFailedCount :: int
  sf_pinLockedUntil :: "int option"
  sf_payType :: pay_type
  sf_payRate :: num
  sf_allowances :: "pay_component list"
  sf_deductions :: "pay_component list"
  sf_pfApplicable :: bool
  sf_esiApplicable :: bool
  sf_ptApplicable :: bool
  sf_overtimeEligible :: bool
  sf_isActive :: bool

record attendance_row =
  at_id :: id
  at_tenantId :: id
  at_outletId :: id
  at_staffId :: id
  at_date :: date
  at_clockIn :: int
  at_clockOut :: "int option"
  at_breakMinutes :: int
  at_breakStartedAt :: "int option"
  at_source :: punch_source
  at_correctionReason :: "string option"
  at_correctedById :: "id option"

text \<open>The four columns of a shift's times are one \<^typ>\<open>shift_spec\<close>.\<close>

record shift_template_row =
  tp_id :: id
  tp_tenantId :: id
  tp_outletId :: id
  tp_name :: string
  tp_times :: shift_spec
  tp_isActive :: bool

record roster_shift_row =
  rs_id :: id
  rs_tenantId :: id
  rs_outletId :: id
  rs_staffId :: id
  rs_date :: date
  rs_templateId :: "id option"
  rs_times :: shift_spec

record swap_row =
  sw_id :: id
  sw_tenantId :: id
  sw_outletId :: id
  sw_fromShiftId :: id
  sw_toStaffId :: id
  sw_toShiftId :: "id option"
  sw_reason :: "string option"
  sw_status :: request_status
  sw_requestedById :: "id option"
  sw_decidedById :: "id option"
  sw_decidedAt :: "int option"
  sw_decisionNote :: "string option"

record leave_row =
  lv_id :: id
  lv_tenantId :: id
  lv_outletId :: id
  lv_staffId :: id
  lv_type :: leave_type
  lv_fromDate :: date
  lv_toDate :: date
  lv_halfDay :: bool
  lv_days :: num
  lv_reason :: "string option"
  lv_status :: request_status
  lv_requestedById :: "id option"
  lv_decidedById :: "id option"
  lv_decidedAt :: "int option"
  lv_decisionNote :: "string option"

record leave_balance_row =
  lb_id :: id
  lb_tenantId :: id
  lb_staffId :: id
  lb_year :: int
  lb_type :: leave_type
  lb_allotted :: num
  lb_used :: num

record salary_advance_row =
  sa_id :: id
  sa_tenantId :: id
  sa_outletId :: id
  sa_staffId :: id
  sa_amount :: num
  sa_monthlyRecovery :: num
  sa_recovered :: num
  sa_givenOn :: date
  sa_paidFrom :: advance_source
  sa_status :: advance_status
  sa_note :: "string option"
  sa_createdById :: "id option"

record payroll_setting_row =
  pg_tenantId :: id
  pg_config :: payroll_config

record payroll_run_row =
  run_id :: id
  run_tenantId :: id
  run_outletId :: id
  run_month :: "int \<times> int"
  run_status :: run_status
  run_config :: payroll_config
  run_createdById :: "id option"
  run_finalisedById :: "id option"
  run_finalisedAt :: "int option"

text \<open>The JSON column \<open>inputs\<close> of a payslip holds the pay profile and the attendance summary it was computed from.\<close>

record payslip_row =
  py_id :: id
  py_tenantId :: id
  py_runId :: id
  py_staffId :: id
  py_staffName :: string
  py_employeeCode :: string
  py_designation :: "string option"
  py_payType :: pay_type
  py_payRate :: num
  py_pay :: pay_inputs
  py_attendance :: month_summary
  py_lopDays :: num
  py_overtimeMinutes :: int
  py_adjustments :: "pay_adjustment list"
  py_calc :: payslip_calc
  py_gross :: num
  py_totalDeductions :: num
  py_net :: num
  py_employerCost :: num
  py_advanceRecovery :: num
  py_note :: "string option"

section \<open>The database\<close>

record db =
  seq :: nat
  outlets :: "outlet_row list"
  diningTables :: "table_row list"
  items :: "item_row list"
  combos :: "combo_row list"
  orders :: "order_row list"
  orderItems :: "order_item_row list"
  kots :: "kot_row list"
  payments :: "payment_row list"
  customers :: "customer_row list"
  loyaltyTxns :: "loyalty_txn_row list"
  otps :: "otp_row list"
  coupons :: "coupon_row list"
  cashSessions :: "cash_session_row list"
  cashMovements :: "cash_movement_row list"
  giftCards :: "gift_card_row list"
  giftTxns :: "gift_txn_row list"
  refunds :: "refund_row list"
  gatewayPayments :: "gateway_payment_row list"
  rawMaterials :: "raw_material_row list"
  recipes :: "recipe_row list"
  prepRecipes :: "prep_row list"
  vendors :: "vendor_row list"
  stockMovements :: "stock_movement_row list"
  billingSettings :: "billing_settings_row list"
  channels :: "channel_row list"
  channelPrices :: "channel_price_row list"
  auditLogs :: "audit_row list"
  orderRequests :: "order_request_row list"
  parkedCarts :: "parked_cart_row list"
  expenseCategories :: "expense_category_row list"
  expenses :: "expense_row list"
  stations :: "station_row list"
  materialPlannings :: "planning_row list"
  stockCounts :: "stock_count_row list"
  stockCountLines :: "stock_count_line_row list"
  indents :: "indent_row list"
  ewayBills :: "eway_bill_row list"
  purchaseOrders :: "purchase_order_row list"
  poLines :: "po_line_row list"
  goodsReceipts :: "goods_receipt_row list"
  grnLines :: "grn_line_row list"
  supplierBills :: "supplier_bill_row list"
  procurementSettings :: "procurement_settings_row list"
  supplierPayments :: "supplier_payment_row list"
  paymentAllocations :: "allocation_row list"
  users :: "user_row list"
  staffMembers :: "staff_row list"
  attendanceRecords :: "attendance_row list"
  shiftTemplates :: "shift_template_row list"
  rosterShifts :: "roster_shift_row list"
  swapRequests :: "swap_row list"
  leaveRequests :: "leave_row list"
  leaveBalances :: "leave_balance_row list"
  salaryAdvances :: "salary_advance_row list"
  payrollSettings :: "payroll_setting_row list"
  payrollRuns :: "payroll_run_row list"
  payslips :: "payslip_row list"
  reservations :: "reservation_row list"
  reservationTables :: "reservation_table_row list"
  waitlistEntries :: "waitlist_row list"
  serverCalls :: "server_call_row list"

end
