(* ===== verification/Billing_Rules.thy ===== *)
theory Billing_Rules
  imports Schema
begin

text \<open>
  The environment of a request and the primitives of the database, the sale windows of
  \<open>packages/shared/src/billing.ts\<close>, and the outlet rules of
  \<open>apps/api/src/billing/billing-rules.ts\<close>: service charge, channel prices, availability.
\<close>

section \<open>Environment and primitives\<close>

text \<open>
  \<open>e_now\<close> is \<open>Date.now()\<close> in milliseconds; \<open>e_cuid n\<close> the \<open>n\<close>th row id or UUID drawn;
  \<open>e_validZone\<close> and \<open>e_localMinutes\<close> what \<open>Intl.DateTimeFormat\<close> says of a time zone;
  \<open>e_localMidnight\<close> the instant at which a calendar day starts in the server's time zone.
\<close>

record env =
  e_now :: int
  e_cuid :: "nat \<Rightarrow> id"
  e_validZone :: "string \<Rightarrow> bool"
  e_localMinutes :: "string \<Rightarrow> int \<Rightarrow> int"
  e_localMidnight :: "date \<Rightarrow> int"

definition fresh :: "env \<Rightarrow> db \<Rightarrow> id \<times> db" where
  "fresh e d = (e_cuid e (seq d), d\<lparr>seq := seq d + 1\<rparr>)"

text \<open>What the code relies on of the id source: the ids still to come are distinct and unused.\<close>

definition fresh_source :: "env \<Rightarrow> (db \<Rightarrow> id set) \<Rightarrow> db \<Rightarrow> bool" where
  "fresh_source e used d \<longleftrightarrow> inj (e_cuid e) \<and> (\<forall>n \<ge> seq d. e_cuid e n \<notin> used d)"

definition assertOutlet :: "auth_user \<Rightarrow> id \<Rightarrow> unit result" where
  "assertOutlet user outletId =
     require (outletId \<in> set (u_outletIds user)) (Forbidden [Txt ''No access to outlet''])"

definition audit :: "id \<Rightarrow> id option \<Rightarrow> string \<Rightarrow> string \<Rightarrow> id \<Rightarrow> db \<Rightarrow> db" where
  "audit tenant userId action entity entityId d =
     d\<lparr>auditLogs := auditLogs d @ [\<lparr>au_tenantId = tenant, au_userId = userId, au_action = action,
        au_entity = entity, au_entityId = Some entityId\<rparr>]\<rparr>"

lemma assertOutlet_eq_Inr [guard_simps]: "assertOutlet u i = Inr x \<longleftrightarrow> i \<in> set (u_outletIds u)"
  by (simp add: assertOutlet_def guard_simps)

section \<open>Sale windows\<close>

definition digit :: "char \<Rightarrow> int option" where
  "digit c = (if CHR ''0'' \<le> c \<and> c \<le> CHR ''9'' then Some (int (of_char c) - 48) else None)"

text \<open>\<open>/^([01]\d|2[0-3]):([0-5]\d)$/\<close>\<close>

definition parseHHMM :: "string option \<Rightarrow> int option" where
  "parseHHMM value = (case value of
     Some [a, b, c, d, e] \<Rightarrow>
       (case (digit a, digit b, digit d, digit e) of
          (Some h1, Some h2, Some m1, Some m2) \<Rightarrow>
            if c = CHR '':'' \<and> (h1 \<le> 1 \<or> h1 = 2 \<and> h2 \<le> 3) \<and> m1 \<le> 5
            then Some ((h1 * 10 + h2) * 60 + (m1 * 10 + m2)) else None
        | _ \<Rightarrow> None)
   | _ \<Rightarrow> None)"

definition isWithinWindow :: "string option \<Rightarrow> string option \<Rightarrow> int \<Rightarrow> bool" where
  "isWithinWindow start end minutes =
    (let s = parseHHMM start; e = parseHHMM end
     in if s = None \<and> e = None then True
        else let from = or_else s 0; to = or_else e (24 * 60)
             in if from = to then True
                else if from < to then from \<le> minutes \<and> minutes < to
                else from \<le> minutes \<or> minutes < to)"

definition DEFAULT_OUTLET_TIMEZONE :: string where
  "DEFAULT_OUTLET_TIMEZONE = ''Asia/Kolkata''"

definition minutesInZone :: "env \<Rightarrow> int \<Rightarrow> string \<Rightarrow> int" where
  "minutesInZone e date timeZone =
     (let tz = (if e_validZone e timeZone then timeZone else DEFAULT_OUTLET_TIMEZONE)
      in e_localMinutes e tz date)"

definition isAvailableNow :: "env \<Rightarrow> item_row \<Rightarrow> string \<Rightarrow> int \<Rightarrow> bool" where
  "isAvailableNow e item timezone at_time =
     isWithinWindow (it_availableStart item) (it_availableEnd item) (minutesInZone e at_time timezone)"

definition windowLabel :: "item_row \<Rightarrow> string" where
  "windowLabel item = or_else (it_availableStart item) ''00:00'' @ ''-'' @ or_else (it_availableEnd item) ''24:00''"

definition assertAvailable :: "env \<Rightarrow> item_row \<Rightarrow> string \<Rightarrow> int \<Rightarrow> unit result" where
  "assertAvailable e item timezone at_time =
     require (isAvailableNow e item timezone at_time)
       (BadRequest [Txt (it_name item @ '' is not available right now (served '' @ windowLabel item @ '')'')])"

section \<open>Outlet rules\<close>

definition DEFAULT_BILLING_RULES :: billing_rules where
  "DEFAULT_BILLING_RULES =
     \<lparr> br_serviceChargeEnabled = False, br_serviceChargePercent = 0, br_serviceChargeTaxable = True,
       br_serviceChargeOrderTypes = [DINE_IN], br_roundOffEnabled = False,
       br_timezone = DEFAULT_OUTLET_TIMEZONE \<rparr>"

definition loadBillingRules :: "id \<Rightarrow> id \<Rightarrow> db \<Rightarrow> billing_rules" where
  "loadBillingRules tenantId outletId d =
     (case List.find (\<lambda>r. bs_tenantId r = tenantId \<and> bs_outletId r = outletId) (billingSettings d) of
        None \<Rightarrow> DEFAULT_BILLING_RULES
      | Some row \<Rightarrow> bs_rules row)"

definition serviceChargeFor :: "billing_rules \<Rightarrow> order_row \<Rightarrow> service_charge option" where
  "serviceChargeFor rules order =
     (if \<not> br_serviceChargeEnabled rules \<or> br_serviceChargePercent rules \<le> 0 \<or> o_serviceChargeWaived order
      then None
      else if o_orderType order \<notin> set (br_serviceChargeOrderTypes rules) then None
      else Some \<lparr> sc_percent = br_serviceChargePercent rules, sc_taxable = br_serviceChargeTaxable rules \<rparr>)"

text \<open>Saving the rules (\<open>billing-settings.service.ts\<close>): upsert by outlet, then the audit row.\<close>

definition updateBillingSettings :: "auth_user \<Rightarrow> id \<Rightarrow> billing_rules \<Rightarrow> db \<Rightarrow> db result" where
  "updateBillingSettings user outletId input d =
    ebind (assertOutlet user outletId) (\<lambda>_.
    ebind (some_or (List.find (\<lambda>r. ou_id r = outletId \<and> ou_tenantId r = u_tenantId user) (outlets d))
             (NotFound [Txt ''Outlet not found''])) (\<lambda>_.
      let data = input\<lparr>br_serviceChargePercent := numeric_col 2 (br_serviceChargePercent input),
                       br_serviceChargeOrderTypes := js_set (br_serviceChargeOrderTypes input)\<rparr>;
          rows = (if outletId \<in> bs_outletId ` set (billingSettings d)
                  then update_where (\<lambda>r. bs_outletId r = outletId) (\<lambda>r. r\<lparr>bs_rules := data\<rparr>) (billingSettings d)
                  else billingSettings d @ [\<lparr>bs_tenantId = u_tenantId user, bs_outletId = outletId, bs_rules = data\<rparr>])
      in Inr (audit (u_tenantId user) (Some (u_id user)) ''BILLING_SETTINGS_UPDATED'' ''outlet'' outletId
                (d\<lparr>billingSettings := rows\<rparr>))))"

section \<open>Channel prices\<close>

datatype price_source =
    SourcePOS order_type
  | SourceSCAN bool \<comment> \<open>True: dine-in, False: takeaway\<close>
  | SourceAGGREGATOR "string option"
  | SourceSYNC order_type

definition norm_name :: "string \<Rightarrow> string" where
  "norm_name s = filter (\<lambda>c. CHR ''a'' \<le> c \<and> c \<le> CHR ''z'' \<or> CHR ''0'' \<le> c \<and> c \<le> CHR ''9'') (map lower s)"

fun ORDER_TYPE_NAMES :: "order_type \<Rightarrow> string list" where
  "ORDER_TYPE_NAMES DINE_IN = [''dinein'', ''dining'', ''restaurant'']"
| "ORDER_TYPE_NAMES TAKEAWAY = [''takeaway'', ''takeout'', ''parcel'', ''pickup'']"
| "ORDER_TYPE_NAMES DELIVERY = [''delivery'', ''homedelivery'']"

definition SCAN_NAMES :: "string list" where
  "SCAN_NAMES = [''scanorder'', ''scanandorder'', ''qrorder'', ''qr'', ''online'']"

fun channelCandidates :: "price_source \<Rightarrow> string list" where
  "channelCandidates (SourcePOS t) = ORDER_TYPE_NAMES t"
| "channelCandidates (SourceSYNC t) = ORDER_TYPE_NAMES t"
| "channelCandidates (SourceSCAN dineIn) = SCAN_NAMES @ ORDER_TYPE_NAMES (if dineIn then DINE_IN else TAKEAWAY)"
| "channelCandidates (SourceAGGREGATOR name) =
     (if truthy name then [norm_name (the name)] else []) @ ORDER_TYPE_NAMES DELIVERY"

fun index_of :: "'a \<Rightarrow> 'a list \<Rightarrow> nat option" where
  "index_of x [] = None"
| "index_of x (y # ys) = (if x = y then Some 0 else map_option Suc (index_of x ys))"

definition ranked_channels :: "id \<Rightarrow> id \<Rightarrow> price_source \<Rightarrow> db \<Rightarrow> id list" where
  "ranked_channels tenantId outletId source d =
    (let chs = filter (\<lambda>c. ch_tenantId c = tenantId \<and> ch_outletId c = outletId \<and> ch_isActive c) (channels d);
         rank = (\<lambda>c. index_of (norm_name (ch_name c)) (channelCandidates source));
         hit = filter (\<lambda>c. rank c \<noteq> None) chs
     in map ch_id (sort_key (\<lambda>c. or_else (rank c) 0) hit))"

definition resolveChannelPrices :: "id \<Rightarrow> id \<Rightarrow> id list \<Rightarrow> price_source \<Rightarrow> db \<Rightarrow> (id \<rightharpoonup> num)" where
  "resolveChannelPrices tenantId outletId itemIds source d =
    (let ranked = ranked_channels tenantId outletId source d
     in (\<lambda>itemId. if itemId \<in> set itemIds
          then map_option (\<lambda>ch. icp_price (the (List.find (\<lambda>x. icp_itemId x = itemId \<and> icp_channelId x = ch) (channelPrices d))))
                 (List.find (\<lambda>ch. \<exists>x \<in> set (channelPrices d). icp_itemId x = itemId \<and> icp_channelId x = ch) ranked)
          else None))"

section \<open>Facts\<close>

lemma digit_range: "digit c = Some n \<Longrightarrow> 0 \<le> n \<and> n \<le> 9"
proof -
  assume "digit c = Some n"
  then have "CHR ''0'' \<le> c" "c \<le> CHR ''9''" and n: "n = int (of_char c) - 48"
    by (auto simp: digit_def split: if_splits)
  then have "(of_char (CHR ''0'') :: nat) \<le> of_char c" "(of_char c :: nat) \<le> of_char (CHR ''9'')"
    by (simp_all only: less_eq_char_def)
  then show ?thesis using n by simp
qed

lemma parseHHMM_range: "parseHHMM v = Some n \<Longrightarrow> 0 \<le> n \<and> n < 24 * 60"
  by (auto simp: parseHHMM_def split: option.splits list.splits if_splits dest!: digit_range)

text \<open>A sale window that crosses midnight is the complement of the same-day window with its bounds swapped: at
  every minute exactly one of the two is open, whenever both bounds are set and differ.\<close>

theorem window_complement:
  assumes "parseHHMM (Some s) = Some a" and "parseHHMM (Some e) = Some b" and "a \<noteq> b"
  shows "isWithinWindow (Some s) (Some e) m \<longleftrightarrow> \<not> isWithinWindow (Some e) (Some s) m"
  using assms by (auto simp: isWithinWindow_def Let_def)

theorem window_complement_witness:
  "isWithinWindow (Some ''22:00'') (Some ''02:00'') 1380 \<longleftrightarrow> \<not> isWithinWindow (Some ''02:00'') (Some ''22:00'') 1380"
  by (rule window_complement [of _ 1320 _ 120]) (simp_all add: parseHHMM_def digit_def)

section \<open>A concrete environment\<close>

text \<open>A clock, an id source (unary numerals) and an empty database.\<close>

definition env0 :: env where
  "env0 = \<lparr> e_now = 1735669800000, e_cuid = (\<lambda>n. replicate n CHR ''x''), e_validZone = (\<lambda>_. True),
            e_localMinutes = (\<lambda>_ _. 600), e_localMidnight = (\<lambda>_. 1735669800000) \<rparr>"

definition db0 :: db where
  "db0 = \<lparr> seq = 0, outlets = [], diningTables = [], items = [], combos = [], orders = [], orderItems = [],
     kots = [], payments = [], customers = [], loyaltyTxns = [], otps = [], coupons = [], cashSessions = [],
     cashMovements = [], giftCards = [], giftTxns = [], refunds = [], gatewayPayments = [], rawMaterials = [],
     recipes = [], prepRecipes = [], vendors = [], stockMovements = [], billingSettings = [], channels = [],
     channelPrices = [], auditLogs = [], orderRequests = [], parkedCarts = [],
     expenseCategories = [], expenses = [], stations = [], materialPlannings = [], stockCounts = [], stockCountLines = [],
     indents = [], ewayBills = [], purchaseOrders = [], poLines = [], goodsReceipts = [], grnLines = [],
     supplierBills = [], procurementSettings = [],
     supplierPayments = [], paymentAllocations = [], users = [], staffMembers = [], attendanceRecords = [], shiftTemplates = [], rosterShifts = [],
     swapRequests = [], leaveRequests = [], leaveBalances = [], salaryAdvances = [], payrollSettings = [], payrollRuns = [], payslips = [],
     reservations = [], reservationTables = [], waitlistEntries = [], serverCalls = [] \<rparr>"

lemma inj_unary: "inj (\<lambda>n. replicate n c)"
  by (rule injI) (metis length_replicate)

end
