(* ===== verification/Punch.thy ===== *)
theory Punch
  imports Billing_Rules
begin

text \<open>
  \<open>OrdersService.punchItems\<close> (\<open>apps/api/src/orders/orders.service.ts\<close>): the lines of a punch are
  priced and written with a new kitchen ticket, combos are exploded into a priced parent and free
  components, and the recipes of everything punched are taken from stock with a ledger entry each.
\<close>

section \<open>Inputs\<close>

record punch_options =
  po_source :: price_source
  po_offline :: bool
  po_at :: "int option"

record punch_actor =
  ac_tenantId :: id
  ac_id :: "id option"

text \<open>What the loops of a punch accumulate: the database, the consumption by raw material in the
  order of first use, and the names of the items outside their sale window.\<close>

record punch_state =
  ps_db :: db
  ps_consumption :: "(id \<times> num) list"
  ps_unavailable :: "string list"

text \<open>What is fixed during a punch.\<close>

record punch_ctx =
  px_env :: env
  px_actor :: punch_actor
  px_orderId :: id
  px_outletId :: id
  px_offline :: bool
  px_at :: int
  px_timezone :: string
  px_prices :: "id \<rightharpoonup> num"
  px_kotId :: id

section \<open>Pricing a line\<close>

definition check_window :: "punch_ctx \<Rightarrow> item_row \<Rightarrow> string list \<Rightarrow> string list result" where
  "check_window x item unavailable =
    (if px_offline x
     then Inr (if \<not> isAvailableNow (px_env x) item (px_timezone x) (px_at x) \<and> it_name item \<notin> set unavailable
               then unavailable @ [it_name item] else unavailable)
     else ebind (assertAvailable (px_env x) item (px_timezone x) (px_at x)) (\<lambda>_. Inr unavailable))"

definition find_item :: "id \<Rightarrow> id \<Rightarrow> id \<Rightarrow> db \<Rightarrow> item_row option" where
  "find_item tenantId outletId itemId d =
     List.find (\<lambda>i. it_id i = itemId \<and> it_tenantId i = tenantId \<and> it_outletId i = outletId \<and> it_deletedAt i = None) (items d)"

text \<open>The price of the item or of its variation, before addons, with the variation's name.\<close>

definition unit_price :: "punch_ctx \<Rightarrow> order_line_input \<Rightarrow> item_row \<Rightarrow> (num \<times> string option) result" where
  "unit_price x input item =
    (let channelPrice = px_prices x (it_id item);
         channelDelta = (case channelPrice of Some p \<Rightarrow> p - it_price item | None \<Rightarrow> 0);
         offline = (if px_offline x then li_offlineUnitPrice input else None)
     in if truthy (li_variationId input)
        then (case List.find (\<lambda>v. Some (va_id v) = li_variationId input) (it_variations item) of
                None \<Rightarrow> Inl (BadRequest [Txt (''Invalid variation for '' @ it_name item)])
              | Some v \<Rightarrow> Inr (or_else offline (max 0 (fromPaise (of_int (toPaise (va_price v) + toPaise channelDelta)))),
                               Some (va_name v)))
        else Inr (or_else offline (or_else channelPrice (it_price item)), None))"

definition check_addon_group :: "punch_ctx \<Rightarrow> id list \<Rightarrow> addon_group_row \<Rightarrow> unit result" where
  "check_addon_group x addonIds g =
    ebind (require (ag_tenantId g = ac_tenantId (px_actor x) \<and> ag_outletId g = px_outletId x)
             (BadRequest [Txt ''Invalid addon group for this outlet''])) (\<lambda>_.
      let selected = int (length (filter (\<lambda>a. ad_id a \<in> set addonIds) (ag_addons g)))
      in require (ag_minSelect g \<le> selected \<and> selected \<le> ag_maxSelect g)
           (BadRequest [Txt (ag_name g @ '': select between ''), Num (of_int (ag_minSelect g)), Txt '' and '',
              Num (of_int (ag_maxSelect g)), Txt '' addons'']))"

definition pick_addons :: "punch_ctx \<Rightarrow> id list \<Rightarrow> item_row \<Rightarrow> addon_row list result" where
  "pick_addons x addonIds item =
    ebind (require (distinct addonIds) (BadRequest [Txt ''Duplicate addons are not allowed''])) (\<lambda>_.
    ebind (emap (check_addon_group x addonIds) (it_addonGroups item)) (\<lambda>_.
      let allAddons = concat (map ag_addons (it_addonGroups item))
      in emap (\<lambda>i. some_or (List.find (\<lambda>a. ad_id a = i) allAddons) (BadRequest [Txt (''Invalid addon for '' @ it_name item)]))
           addonIds))"

definition item_recipe :: "id \<Rightarrow> db \<Rightarrow> recipe_row list" where
  "item_recipe itemId d = filter (\<lambda>r. ri_itemId r = itemId) (recipes d)"

definition consume :: "id \<Rightarrow> int \<Rightarrow> db \<Rightarrow> (id \<times> num) list \<Rightarrow> (id \<times> num) list" where
  "consume itemId quantity d m =
     foldl (\<lambda>m line. js_map_add (ri_rawMaterialId line) (ri_quantity line * of_int quantity) m) m (item_recipe itemId d)"

text \<open>\<open>orderItem.create\<close>, with the columns the statement leaves at their defaults.\<close>

definition new_line :: "id \<Rightarrow> id \<Rightarrow> id \<Rightarrow> string \<Rightarrow> int \<Rightarrow> num \<Rightarrow> num \<Rightarrow> num \<Rightarrow> order_item_row" where
  "new_line lineId orderId itemId name quantity unitPrice lineTotal taxRate =
     \<lparr> oi_id = lineId, oi_orderId = orderId, oi_itemId = itemId, oi_itemName = name, oi_variationId = None,
       oi_variationName = None, oi_quantity = quantity, oi_unitPrice = numeric_col 2 unitPrice,
       oi_lineTotal = numeric_col 2 lineTotal, oi_taxRate = numeric_col 2 taxRate, oi_note = None, oi_kotId = None,
       oi_stationId = None, oi_prepStatus = PENDING, oi_preppedAt = None, oi_comboId = None, oi_comboGroupId = None,
       oi_isComboComponent = False, oi_splitFromItemId = None, oi_splitParts = None, oi_addons = [] \<rparr>"

definition create_line :: "env \<Rightarrow> (id \<Rightarrow> order_item_row) \<Rightarrow> db \<Rightarrow> db" where
  "create_line e mk d = (case fresh e d of (lineId, d1) \<Rightarrow> orderItems_update (\<lambda>ls. ls @ [mk lineId]) d1)"

section \<open>Lines and combos\<close>

definition punch_line :: "punch_ctx \<Rightarrow> order_line_input \<Rightarrow> punch_state \<Rightarrow> punch_state result" where
  "punch_line x input s =
    ebind (some_or (find_item (ac_tenantId (px_actor x)) (px_outletId x) (li_itemId input) (ps_db s))
             (BadRequest [Txt (''Item not found: '' @ li_itemId input)])) (\<lambda>item.
    ebind (require (it_inStock item) (BadRequest [Txt (it_name item @ '' is out of stock'')])) (\<lambda>_.
    ebind (check_window x item (ps_unavailable s)) (\<lambda>unavailable.
    ebind (unit_price x input item) (\<lambda>(base, variationName).
    ebind (pick_addons x (li_addonIds input) item) (\<lambda>addons.
      let unitPrice = base + (\<Sum>a\<leftarrow>addons. ad_price a);
          taxRate = or_else (if px_offline x then li_offlineTaxRate input else None) (it_taxRate item)
      in Inr (s\<lparr> ps_db := create_line (px_env x) (\<lambda>lineId.
                 (new_line lineId (px_orderId x) (it_id item) (it_name item) (li_quantity input) unitPrice
                    (fromPaise (of_int (lineTotalPaise unitPrice (li_quantity input)))) taxRate)
                 \<lparr> oi_variationId := li_variationId input, oi_variationName := variationName, oi_note := li_note input,
                   oi_kotId := Some (px_kotId x), oi_stationId := it_stationId item,
                   oi_addons := map (\<lambda>a. \<lparr> la_addonId = ad_id a, la_name = ad_name a, la_price = ad_price a \<rparr>) addons \<rparr>) (ps_db s),
                 ps_consumption := consume (it_id item) (li_quantity input) (ps_db s) (ps_consumption s),
                 ps_unavailable := unavailable \<rparr>))))))"

definition choose_option :: "combo_row \<Rightarrow> (id \<times> id) list \<Rightarrow> combo_slot_row \<Rightarrow> combo_option_row result" where
  "choose_option combo selections slot =
    (case List.find (\<lambda>s. fst s = sl_id slot) selections of
       Some sel \<Rightarrow> some_or (List.find (\<lambda>p. op_itemId p = snd sel) (sl_options slot))
                     (BadRequest [Txt (''Invalid choice for '' @ sl_name slot)])
     | None \<Rightarrow> some_or (coalesce (List.find op_isDefault (sl_options slot))
                         (case sl_options slot of [] \<Rightarrow> None | p # _ \<Rightarrow> Some p))
                 (BadRequest [Txt (co_name combo @ '': '' @ sl_name slot @ '' has no options'')]))"

definition punch_component :: "punch_ctx \<Rightarrow> combo_row \<Rightarrow> combo_input \<Rightarrow> id \<Rightarrow> combo_option_row \<Rightarrow> punch_state \<Rightarrow> punch_state result" where
  "punch_component x combo input groupId chosen s =
    ebind (some_or (find_item (ac_tenantId (px_actor x)) (px_outletId x) (op_itemId chosen) (ps_db s))
             (BadRequest [Txt ''A combo component is unavailable''])) (\<lambda>item.
    ebind (require (it_inStock item) (BadRequest [Txt (it_name item @ '' is out of stock'')])) (\<lambda>_.
    ebind (check_window x item (ps_unavailable s)) (\<lambda>unavailable.
      Inr (s\<lparr> ps_db := create_line (px_env x) (\<lambda>lineId.
                (new_line lineId (px_orderId x) (it_id item) (it_name item) (ci_quantity input) 0 0 (it_taxRate item))
                \<lparr> oi_kotId := Some (px_kotId x), oi_stationId := it_stationId item, oi_comboId := Some (co_id combo),
                  oi_comboGroupId := Some groupId, oi_isComboComponent := True \<rparr>) (ps_db s),
              ps_consumption := consume (it_id item) (ci_quantity input) (ps_db s) (ps_consumption s),
              ps_unavailable := unavailable \<rparr>))))"

definition punch_combo :: "punch_ctx \<Rightarrow> combo_input \<Rightarrow> punch_state \<Rightarrow> punch_state result" where
  "punch_combo x input s =
    ebind (some_or (List.find (\<lambda>c. co_id c = ci_comboId input \<and> co_tenantId c = ac_tenantId (px_actor x)
                       \<and> co_outletId c = px_outletId x \<and> co_deletedAt c = None) (combos (ps_db s)))
             (BadRequest [Txt (''Combo not found: '' @ ci_comboId input)])) (\<lambda>combo.
    ebind (require (co_inStock combo) (BadRequest [Txt (co_name combo @ '' is unavailable'')])) (\<lambda>_.
    ebind (emap (choose_option combo (ci_selections input)) (sort_key sl_sortOrder (co_slots combo))) (\<lambda>chosen.
      case fresh (px_env x) (ps_db s) of (groupId, d1) \<Rightarrow>
      let comboUnit = co_price combo + (\<Sum>c\<leftarrow>chosen. op_priceDelta c);
          d2 = create_line (px_env x) (\<lambda>lineId.
                 (new_line lineId (px_orderId x) (co_id combo) (co_name combo) (ci_quantity input) comboUnit
                    (fromPaise (of_int (lineTotalPaise comboUnit (ci_quantity input)))) (co_taxRate combo))
                 \<lparr> oi_note := ci_note input, oi_comboId := Some (co_id combo), oi_comboGroupId := Some groupId \<rparr>) d1
      in efold (punch_component x combo input groupId) chosen (s\<lparr> ps_db := d2 \<rparr>))))"

section \<open>Stock and the whole punch\<close>

definition stock_movement ::
  "env \<Rightarrow> id \<Rightarrow> id \<Rightarrow> id \<Rightarrow> stock_type \<Rightarrow> num \<Rightarrow> num option \<Rightarrow> string option \<Rightarrow> id option \<Rightarrow> string option \<Rightarrow> id option \<Rightarrow> id option
    \<Rightarrow> stock_movement_row" where
  "stock_movement e tenantId outletId materialId type quantity unitCost reason vendorId refType refId createdById =
     \<lparr> sm_tenantId = tenantId, sm_outletId = outletId, sm_rawMaterialId = materialId, sm_type = type,
       sm_quantity = numeric_col 3 quantity, sm_unitCost = map_option (numeric_col 4) unitCost, sm_reason = reason,
       sm_vendorId = vendorId, sm_refType = refType, sm_refId = refId, sm_createdById = createdById,
       sm_createdAt = e_now e \<rparr>"

definition deplete :: "punch_ctx \<Rightarrow> id \<times> num \<Rightarrow> db \<Rightarrow> db result" where
  "deplete x entry d = (case entry of (materialId, qty) \<Rightarrow>
    ebind (some_or (row_by rm_id materialId (rawMaterials d)) RowMissing) (\<lambda>_.
      Inr (stockMovements_update (\<lambda>ms. ms @ [stock_movement (px_env x) (ac_tenantId (px_actor x)) (px_outletId x) materialId
             CONSUMPTION (- qty) None None None (Some ''kot'') (Some (px_kotId x)) (ac_id (px_actor x))])
           (rawMaterials_update (set_row rm_id materialId (\<lambda>m. m\<lparr>rm_stockQty := numeric_col 3 (rm_stockQty m - qty)\<rparr>)) d))))"

text \<open>The next ticket number of the outlet and the new ticket.\<close>

definition open_kot :: "env \<Rightarrow> punch_actor \<Rightarrow> id \<Rightarrow> id \<Rightarrow> outlet_row \<Rightarrow> db \<Rightarrow> id \<times> db" where
  "open_kot e actor orderId outletId outlet d =
    (let d1 = outlets_update (set_row ou_id outletId (\<lambda>u. u\<lparr>ou_nextKotNumber := ou_nextKotNumber u + 1\<rparr>)) d;
         (kotId, d2) = fresh e d1
     in (kotId, kots_update (\<lambda>ks. ks @ [\<lparr> k_id = kotId, k_tenantId = ac_tenantId actor, k_outletId = outletId,
                 k_orderId = orderId, k_kotNumber = ou_nextKotNumber outlet, k_createdAt = e_now e \<rparr>]) d2))"

definition punchItems ::
  "env \<Rightarrow> punch_actor \<Rightarrow> id \<Rightarrow> id \<Rightarrow> order_line_input list \<Rightarrow> combo_input list \<Rightarrow> punch_options \<Rightarrow> db \<Rightarrow> (string list \<times> db) result" where
  "punchItems e actor orderId outletId inputs comboInputs opts d =
    ebind (some_or (List.find (\<lambda>u. ou_id u = outletId \<and> ou_tenantId u = ac_tenantId actor) (outlets d))
             (NotFound [Txt ''Outlet not found''])) (\<lambda>outlet.
      let rules = loadBillingRules (ac_tenantId actor) outletId d;
          prices = resolveChannelPrices (ac_tenantId actor) outletId (js_set (map li_itemId inputs)) (po_source opts) d;
          (kotId, d3) = open_kot e actor orderId outletId outlet d;
          x = \<lparr> px_env = e, px_actor = actor, px_orderId = orderId, px_outletId = outletId, px_offline = po_offline opts,
                px_at = or_else (po_at opts) (e_now e), px_timezone = br_timezone rules, px_prices = prices, px_kotId = kotId \<rparr>
      in ebind (efold (punch_line x) inputs \<lparr> ps_db = d3, ps_consumption = [], ps_unavailable = [] \<rparr>) (\<lambda>s1.
         ebind (efold (punch_combo x) comboInputs s1) (\<lambda>s2.
         ebind (efold (deplete x) (ps_consumption s2) (ps_db s2)) (\<lambda>d4.
           Inr (ps_unavailable s2, d4)))))"

section \<open>What a punch writes\<close>

interpretation stock: ledger "rawMaterials :: db \<Rightarrow> _" rawMaterials_update rm_id rm_stockQty
    stockMovements stockMovements_update sm_rawMaterialId sm_quantity
  by unfold_locales simp_all

text \<open>The quantity of a material in one unit of a dish, and in the kitchen lines of a list.\<close>

definition recipe_need :: "db \<Rightarrow> id \<Rightarrow> id \<Rightarrow> num" where
  "recipe_need d itemId m = (\<Sum>r\<leftarrow>filter (\<lambda>r. ri_rawMaterialId r = m) (item_recipe itemId d). ri_quantity r)"

definition kitchen_use :: "db \<Rightarrow> id \<Rightarrow> order_item_row list \<Rightarrow> num" where
  "kitchen_use d m ls =
     (\<Sum>l\<leftarrow>filter (\<lambda>l. oi_kotId l \<noteq> None) ls. recipe_need d (oi_itemId l) m * of_int (oi_quantity l))"

text \<open>Column types of the stock tables: three decimals.\<close>

definition stock_columns :: "db \<Rightarrow> bool" where
  "stock_columns d \<longleftrightarrow> (\<forall>r \<in> set (recipes d). decimals 3 (ri_quantity r)) \<and> (\<forall>m \<in> set (rawMaterials d). decimals 3 (rm_stockQty m))"

lemma kitchen_use_simps [simp]:
  "kitchen_use d m [] = 0"
  "kitchen_use d m (ls @ ks) = kitchen_use d m ls + kitchen_use d m ks"
  "kitchen_use d m [l] = (if oi_kotId l = None then 0 else recipe_need d (oi_itemId l) m * of_int (oi_quantity l))"
  by (simp_all add: kitchen_use_def)

lemma consume_lookup:
  "or_else (map_of (consume itemId q d c) m) 0 = or_else (map_of c m) 0 + recipe_need d itemId m * of_int q"
proof -
  have "or_else (map_of (foldl (\<lambda>c r. js_map_add (ri_rawMaterialId r) (ri_quantity r * of_int q) c) c rs) m) 0
    = or_else (map_of c m) 0 + (\<Sum>r\<leftarrow>filter (\<lambda>r. ri_rawMaterialId r = m) rs. ri_quantity r) * of_int q" for rs
    by (induction rs arbitrary: c) (auto simp: js_map_add_def distrib_right)
  then show ?thesis by (simp add: consume_def recipe_need_def)
qed

definition consumption_ok :: "(id \<times> num) list \<Rightarrow> bool" where
  "consumption_ok c \<longleftrightarrow> distinct (map fst c) \<and> (\<forall>p \<in> set c. decimals 3 (snd p))"

lemma consumption_ok_add:
  assumes "consumption_ok c" and "decimals 3 v" shows "consumption_ok (js_map_add k v c)"
proof -
  have "decimals 3 (or_else (map_of c k) 0)"
    using assms(1) by (cases "map_of c k") (auto simp: consumption_ok_def dest!: map_of_SomeD)
  then have "decimals 3 (or_else (map_of c k) 0 + v)" using assms(2) by (rule decimals_add)
  then show ?thesis using assms(1) set_js_map_set [of k "or_else (map_of c k) 0 + v" c]
    unfolding consumption_ok_def js_map_add_def by (auto simp: distinct_js_map_set)
qed

lemma consumption_ok_consume:
  assumes "consumption_ok c" and "\<forall>r \<in> set (recipes d). decimals 3 (ri_quantity r)"
  shows "consumption_ok (consume itemId q d c)"
proof -
  have "consumption_ok (foldl (\<lambda>c r. js_map_add (ri_rawMaterialId r) (ri_quantity r * of_int q) c) c rs)"
    if "set rs \<subseteq> set (recipes d)" for rs
    using that assms by (induction rs arbitrary: c) (auto intro!: consumption_ok_add decimals_mult_of_int)
  then show ?thesis by (simp add: consume_def item_recipe_def)
qed

text \<open>The total of a line is its unit price times its quantity, to the paisa.\<close>

definition line_ok :: "order_item_row \<Rightarrow> bool" where
  "line_ok l \<longleftrightarrow> (0 \<le> oi_unitPrice l \<longrightarrow> oi_lineTotal l = oi_unitPrice l * of_int (oi_quantity l))"

lemma round_away_nonneg: "0 \<le> round_away x \<Longrightarrow> js_round x = round_away x"
proof -
  assume r: "0 \<le> round_away x"
  show ?thesis
  proof (cases "0 \<le> x")
    case False
    then have "\<lfloor>- x + 1/2\<rfloor> \<le> 0" using r by (simp add: round_away_def)
    then have x: "- x + 1/2 < 1" by linarith
    have "\<lfloor>- x + 1/2\<rfloor> = 0" "\<lfloor>x + 1/2\<rfloor> = 0" using x False by (simp_all add: floor_eq_iff)
    then show ?thesis using False by (simp add: round_away_def js_round_def)
  qed (simp add: round_away_def js_round_def)
qed

lemma line_total_price:
  assumes "0 \<le> numeric_col 2 up"
  shows "numeric_col 2 (fromPaise (of_int (lineTotalPaise up q))) = numeric_col 2 up * of_int q"
proof -
  have "0 \<le> round_away (up * 100)" using assms by (simp add: numeric_col_def zero_le_divide_iff)
  then have "toPaise up = round_away (up * 100)" unfolding toPaise_def by (rule round_away_nonneg)
  then have "of_int (lineTotalPaise up q) / 100 = numeric_col 2 up * of_int q"
    by (simp add: lineTotalPaise_def numeric_col_def)
  moreover have "numeric_col 2 (fromPaise (of_int (lineTotalPaise up q))) = of_int (lineTotalPaise up q) / 100"
    unfolding fromPaise_of_int by (simp add: numeric_col_exact)
  ultimately show ?thesis by simp
qed

lemma new_line_simps [simp]:
  "oi_id (new_line i oid it n q up lt t) = i" "oi_orderId (new_line i oid it n q up lt t) = oid"
  "oi_itemId (new_line i oid it n q up lt t) = it" "oi_quantity (new_line i oid it n q up lt t) = q"
  "oi_kotId (new_line i oid it n q up lt t) = None"
  by (simp_all add: new_line_def)

lemma line_ok_new [simp]:
  "line_ok (new_line i oid it n q up (of_int (lineTotalPaise up q) / 100) t)" "line_ok (new_line i oid it n q 0 0 t)"
  unfolding line_ok_def new_line_def order_item_row.simps using line_total_price [of up q, unfolded fromPaise_of_int]
  by (blast, simp add: numeric_col_exact)

lemma line_ok_updates [simp]:
  "line_ok (l\<lparr>oi_variationId := a\<rparr>) = line_ok l" "line_ok (l\<lparr>oi_variationName := b\<rparr>) = line_ok l"
  "line_ok (l\<lparr>oi_note := b\<rparr>) = line_ok l" "line_ok (l\<lparr>oi_kotId := a\<rparr>) = line_ok l"
  "line_ok (l\<lparr>oi_stationId := a\<rparr>) = line_ok l" "line_ok (l\<lparr>oi_addons := c\<rparr>) = line_ok l"
  "line_ok (l\<lparr>oi_comboId := a\<rparr>) = line_ok l" "line_ok (l\<lparr>oi_comboGroupId := a\<rparr>) = line_ok l"
  "line_ok (l\<lparr>oi_isComboComponent := f\<rparr>) = line_ok l" "line_ok (l\<lparr>oi_orderId := i\<rparr>) = line_ok l"
  by (simp_all add: line_ok_def)

text \<open>The invariant of the punching loops: only lines and ids are added, and the consumption is that of the lines.\<close>

definition punched :: "punch_ctx \<Rightarrow> db \<Rightarrow> order_item_row list \<Rightarrow> punch_state \<Rightarrow> bool" where
  "punched x d ls s \<longleftrightarrow>
     (\<exists>n \<ge> seq d. ps_db s = d\<lparr>seq := n, orderItems := orderItems d @ ls\<rparr>) \<and>
     (\<forall>l \<in> set ls. oi_orderId l = px_orderId x \<and> oi_kotId l \<in> {None, Some (px_kotId x)} \<and> line_ok l) \<and>
     (\<forall>m. or_else (map_of (ps_consumption s) m) 0 = kitchen_use d m ls) \<and>
     ((\<forall>r \<in> set (recipes d). decimals 3 (ri_quantity r)) \<longrightarrow> consumption_ok (ps_consumption s))"

lemma punched_start: "punched x d [] \<lparr> ps_db = d, ps_consumption = [], ps_unavailable = u \<rparr>"
  by (auto simp: punched_def consumption_ok_def intro!: exI [of _ "seq d"])

text \<open>One kitchen line, and one priced line without a ticket.\<close>

lemma punched_kitchen_line:
  assumes p: "punched x d ls s"
    and mk: "\<And>i. oi_orderId (mk i) = px_orderId x" "\<And>i. oi_kotId (mk i) = Some (px_kotId x)"
      "\<And>i. oi_itemId (mk i) = itemId" "\<And>i. oi_quantity (mk i) = q" "\<And>i. line_ok (mk i)"
  shows "\<exists>l. punched x d (ls @ [l])
    (s\<lparr> ps_db := create_line e mk (ps_db s), ps_consumption := consume itemId q (ps_db s) (ps_consumption s), ps_unavailable := u \<rparr>)"
proof -
  from p obtain n where n: "n \<ge> seq d" "ps_db s = d\<lparr>seq := n, orderItems := orderItems d @ ls\<rparr>" by (auto simp: punched_def)
  have same: "consume itemId q (ps_db s) = consume itemId q d" by (simp add: n consume_def item_recipe_def fun_eq_iff)
  have "create_line e mk (ps_db s) = d\<lparr>seq := n + 1, orderItems := orderItems d @ (ls @ [mk (e_cuid e n)])\<rparr>"
    by (simp add: create_line_def fresh_def n)
  then have "punched x d (ls @ [mk (e_cuid e n)])
    (s\<lparr> ps_db := create_line e mk (ps_db s), ps_consumption := consume itemId q (ps_db s) (ps_consumption s), ps_unavailable := u \<rparr>)"
    using p n(1) mk by (auto simp: punched_def same consume_lookup consumption_ok_consume intro!: exI [of _ "n + 1"])
  then show ?thesis by blast
qed

lemma punched_plain_line:
  assumes p: "punched x d ls s" and mk: "\<And>i. oi_orderId (mk i) = px_orderId x" "\<And>i. oi_kotId (mk i) = None" "\<And>i. line_ok (mk i)"
  shows "\<exists>l. punched x d (ls @ [l]) (s\<lparr> ps_db := create_line e mk (snd (fresh e (ps_db s))) \<rparr>)"
proof -
  from p obtain n where n: "n \<ge> seq d" "ps_db s = d\<lparr>seq := n, orderItems := orderItems d @ ls\<rparr>" by (auto simp: punched_def)
  have "create_line e mk (snd (fresh e (ps_db s))) = d\<lparr>seq := n + 2, orderItems := orderItems d @ (ls @ [mk (e_cuid e (n + 1))])\<rparr>"
    by (simp add: create_line_def fresh_def n)
  then have "punched x d (ls @ [mk (e_cuid e (n + 1))]) (s\<lparr> ps_db := create_line e mk (snd (fresh e (ps_db s))) \<rparr>)"
    using p n(1) mk by (auto simp: punched_def intro!: exI [of _ "n + 2"])
  then show ?thesis by blast
qed

lemma punch_line_inv:
  assumes p: "punched x d ls s"
    and run: "punch_line x input s = Inr s'"
  shows "\<exists>l. punched x d (ls @ [l]) s'"
proof -
  from run obtain item :: item_row and mk u where
    "s' = s\<lparr> ps_db := create_line (px_env x) mk (ps_db s),
             ps_consumption := consume (it_id item) (li_quantity input) (ps_db s) (ps_consumption s), ps_unavailable := u \<rparr>"
    and "\<And>i. oi_orderId (mk i) = px_orderId x" "\<And>i. oi_kotId (mk i) = Some (px_kotId x)"
      "\<And>i. oi_itemId (mk i) = it_id item" "\<And>i. oi_quantity (mk i) = li_quantity input" "\<And>i. line_ok (mk i)"
    unfolding punch_line_def guard_simps Let_def prod.case_eq_if sum.inject
    by (elim exE conjE) (erule that [OF sym], simp_all)
  then show ?thesis using punched_kitchen_line [OF p] by simp
qed

lemma punch_component_inv:
  assumes p: "punched x d ls s"
    and run: "punch_component x combo input g c s = Inr s'"
  shows "\<exists>l. punched x d (ls @ [l]) s'"
proof -
  from run obtain item :: item_row and mk u where
    "s' = s\<lparr> ps_db := create_line (px_env x) mk (ps_db s),
             ps_consumption := consume (it_id item) (ci_quantity input) (ps_db s) (ps_consumption s), ps_unavailable := u \<rparr>"
    and "\<And>i. oi_orderId (mk i) = px_orderId x" "\<And>i. oi_kotId (mk i) = Some (px_kotId x)"
      "\<And>i. oi_itemId (mk i) = it_id item" "\<And>i. oi_quantity (mk i) = ci_quantity input" "\<And>i. line_ok (mk i)"
    unfolding punch_component_def guard_simps sum.inject
    by (elim exE conjE) (rule that, rule sym, assumption, simp_all)
  then show ?thesis using punched_kitchen_line [OF p] by simp
qed

lemma punch_combo_inv:
  assumes p: "punched x d ls s"
    and run: "punch_combo x input s = Inr s'"
  shows "\<exists>ls. punched x d ls s'"
proof -
  from run obtain combo :: combo_row and chosen mk where
    loop: "efold (punch_component x combo input (fst (fresh (px_env x) (ps_db s)))) chosen
       (s\<lparr> ps_db := create_line (px_env x) mk (snd (fresh (px_env x) (ps_db s))) \<rparr>) = Inr s'"
    and "\<And>i. oi_orderId (mk i) = px_orderId x" "\<And>i. oi_kotId (mk i) = None" "\<And>i. line_ok (mk i)"
    unfolding punch_combo_def guard_simps Let_def prod.case_eq_if
    by (elim exE conjE) (rule that, assumption, simp_all)
  then obtain l where "punched x d (ls @ [l]) (s\<lparr> ps_db := create_line (px_env x) mk (snd (fresh (px_env x) (ps_db s))) \<rparr>)"
    using punched_plain_line [OF p, of mk "px_env x"] by auto
  then have "\<exists>ls. punched x d ls (s\<lparr> ps_db := create_line (px_env x) mk (snd (fresh (px_env x) (ps_db s))) \<rparr>)" by blast
  with loop show ?thesis by (rule efold_invariant) (use punch_component_inv in blast)
qed

text \<open>The depletion loop takes each entry of the consumption from its material.\<close>

lemma deplete_frame: "deplete x p d = Inr d' \<Longrightarrow> \<exists>rs ms. d' = d\<lparr>rawMaterials := rs, stockMovements := ms\<rparr>"
proof -
  assume run: "deplete x p d = Inr d'"
  obtain k q where p: "p = (k, q)" by (cases p)
  from run obtain f g where "d' = stockMovements_update g (rawMaterials_update f d)"
    unfolding p deplete_def prod.case guard_simps sum.inject by (elim exE conjE) (erule that [OF sym])
  then show ?thesis by (intro exI [of _ "f (rawMaterials d)"] exI [of _ "g (stockMovements d)"]) simp
qed

lemma deplete_loop_frame:
  "efold (deplete x) c d = Inr d' \<Longrightarrow> \<exists>rs ms. d' = d\<lparr>rawMaterials := rs, stockMovements := ms\<rparr>"
proof (erule efold_invariant)
  show "\<exists>rs ms. d = d\<lparr>rawMaterials := rs, stockMovements := ms\<rparr>"
    by (intro exI [of _ "rawMaterials d"] exI [of _ "stockMovements d"]) simp
  fix p s s' assume "\<exists>rs ms. s = d\<lparr>rawMaterials := rs, stockMovements := ms\<rparr>" and "deplete x p s = Inr s'"
  then show "\<exists>rs ms. s' = d\<lparr>rawMaterials := rs, stockMovements := ms\<rparr>" using deplete_frame [of x p s s'] by force
qed

lemma deplete_spec:
  assumes run: "deplete x (k, q) d = Inr d'" and b: "stock.balanced d" and c: "stock_columns d" and q: "decimals 3 q"
  shows "stock.balanced d'" "stock_columns d'"
    "\<And>m. map_option rm_stockQty (row_by rm_id m (rawMaterials d'))
         = map_option (\<lambda>r. rm_stockQty r - (if m = k then q else 0)) (row_by rm_id m (rawMaterials d))"
proof -
  let ?f = "\<lambda>m. m\<lparr>rm_stockQty := numeric_col 3 (rm_stockQty m - q)\<rparr>"
  let ?e = "stock_movement (px_env x) (ac_tenantId (px_actor x)) (px_outletId x) k
             CONSUMPTION (- q) None None None (Some ''kot'') (Some (px_kotId x)) (ac_id (px_actor x))"
  from run obtain r where r: "row_by rm_id k (rawMaterials d) = Some r"
    and d': "d' = stockMovements_update (\<lambda>ms. ms @ [?e]) (rawMaterials_update (set_row rm_id k ?f) d)"
    unfolding deplete_def prod.case guard_simps sum.inject by metis
  have dec: "decimals 3 (rm_stockQty s)" if "s \<in> set (rawMaterials d)" for s using c that by (simp add: stock_columns_def)
  have rc: "numeric_col 3 (rm_stockQty r - q) = rm_stockQty r - q"
    using dec [of r] row_by_Some [OF r] q by (simp add: numeric_col_exact decimals_diff)
  have mc: "sm_quantity ?e = - q" "sm_rawMaterialId ?e = k"
    using q by (simp_all add: stock_movement_def numeric_col_exact decimals_minus)
  show "stock.balanced d'" unfolding d' by (rule stock.balanced_post [OF b r]) (simp_all add: rc mc)
  have "decimals 3 (rm_stockQty s)" if "s \<in> set (set_row rm_id k ?f (rawMaterials d))" for s
    using that by (cases rule: set_row_memberE) (simp_all add: dec)
  then show "stock_columns d'" using c by (simp add: d' stock_columns_def)
  show "map_option rm_stockQty (row_by rm_id m (rawMaterials d'))
       = map_option (\<lambda>r. rm_stockQty r - (if m = k then q else 0)) (row_by rm_id m (rawMaterials d))" for m
    using stock.lookup_set_row [of ?f m k d] r rc by (auto simp: d' option.map_comp)
qed

lemma deplete_loop:
  assumes "efold (deplete x) c d = Inr d'" and "stock.balanced d" and "stock_columns d" and "consumption_ok c"
  shows "stock.balanced d' \<and> stock_columns d'
    \<and> (\<forall>m. map_option rm_stockQty (row_by rm_id m (rawMaterials d'))
          = map_option (\<lambda>r. rm_stockQty r - or_else (map_of c m) 0) (row_by rm_id m (rawMaterials d)))"
  using assms
proof (induction c arbitrary: d)
  case Nil
  then show ?case by auto
next
  case (Cons p c)
  obtain k q where p: "p = (k, q)" by (cases p)
  from Cons.prems(1) obtain d1 where 1: "deplete x (k, q) d = Inr d1" and 2: "efold (deplete x) c d1 = Inr d'"
    by (auto simp: guard_simps p)
  have ok: "decimals 3 q" "consumption_ok c" "k \<notin> fst ` set c" using Cons.prems(4) by (auto simp: consumption_ok_def p)
  note s1 = deplete_spec [OF 1 Cons.prems(2,3) ok(1)]
  note s2 = Cons.IH [OF 2 s1(1,2) ok(2)]
  have k: "map_of c k = None" using ok(3) by (simp add: map_of_eq_None_iff)
  have "map_option rm_stockQty (row_by rm_id m (rawMaterials d'))
          = map_option (\<lambda>r. rm_stockQty r - or_else (map_of (p # c) m) 0) (row_by rm_id m (rawMaterials d))" for m
  proof -
    have "map_option rm_stockQty (row_by rm_id m (rawMaterials d')) = map_option (\<lambda>a. a - or_else (map_of c m) 0)
        (map_option rm_stockQty (row_by rm_id m (rawMaterials d1)))"
      using s2 by (simp add: option.map_comp comp_def)
    then show ?thesis unfolding s1(3) using k by (simp add: option.map_comp comp_def p)
  qed
  then show ?case using s2 by blast
qed

text \<open>The stages of a successful punch.\<close>

lemma open_kot_eq:
  "snd (open_kot e actor orderId outletId outlet d) = d\<lparr>seq := seq d + 1,
     outlets := set_row ou_id outletId (\<lambda>u. u\<lparr>ou_nextKotNumber := ou_nextKotNumber u + 1\<rparr>) (outlets d),
     kots := kots d @ [\<lparr> k_id = e_cuid e (seq d), k_tenantId = ac_tenantId actor, k_outletId = outletId,
       k_orderId = orderId, k_kotNumber = ou_nextKotNumber outlet, k_createdAt = e_now e \<rparr>]\<rparr>"
  by (simp add: open_kot_def fresh_def Let_def)

lemma punchItems_stages:
  assumes "punchItems e actor orderId outletId inputs cs opts d = Inr (u, d')"
  obtains outlet x s2 ls where
    "List.find (\<lambda>u. ou_id u = outletId \<and> ou_tenantId u = ac_tenantId actor) (outlets d) = Some outlet"
    and "px_orderId x = orderId" and "punched x (snd (open_kot e actor orderId outletId outlet d)) ls s2"
    and "efold (deplete x) (ps_consumption s2) (ps_db s2) = Inr d'"
proof -
  let ?d3 = "\<lambda>outlet. snd (open_kot e actor orderId outletId outlet d)"
  from assms obtain outlet :: outlet_row and x s1 s2 where
    o1: "List.find (\<lambda>u. ou_id u = outletId \<and> ou_tenantId u = ac_tenantId actor) (outlets d) = Some outlet"
    and l1: "efold (punch_line x) inputs \<lparr> ps_db = ?d3 outlet, ps_consumption = [], ps_unavailable = [] \<rparr> = Inr s1"
    and l2: "efold (punch_combo x) cs s1 = Inr s2"
    and l3: "efold (deplete x) (ps_consumption s2) (ps_db s2) = Inr d'"
    and x: "px_orderId x = orderId"
    unfolding punchItems_def Let_def prod.case_eq_if guard_simps sum.inject prod.inject
    by (elim exE conjE) (erule that, assumption, assumption, simp_all)
  have "\<exists>ls. punched x (?d3 outlet) ls \<lparr> ps_db = ?d3 outlet, ps_consumption = [], ps_unavailable = [] \<rparr>"
    using punched_start by blast
  with l1 have "\<exists>ls. punched x (?d3 outlet) ls s1"
    by (rule efold_invariant) (use punch_line_inv in blast)
  with l2 have "\<exists>ls. punched x (?d3 outlet) ls s2"
    by (rule efold_invariant) (use punch_combo_inv in blast)
  then obtain ls where "punched x (?d3 outlet) ls s2" ..
  then show ?thesis using that [OF o1 x _ l3] by blast
qed

lemma punchItems_frame:
  assumes "punchItems e actor orderId outletId inputs cs opts d = Inr (u, d')"
  obtains n ls kot rs ms where "seq d < n" and "\<And>l. l \<in> set ls \<Longrightarrow> oi_orderId l = orderId \<and> line_ok l"
    and "d' = d\<lparr>seq := n, outlets := set_row ou_id outletId (\<lambda>u. u\<lparr>ou_nextKotNumber := ou_nextKotNumber u + 1\<rparr>) (outlets d),
      orderItems := orderItems d @ ls, kots := kots d @ [kot], rawMaterials := rs, stockMovements := ms\<rparr>"
proof -
  from punchItems_stages [OF assms] obtain outlet x s2 ls where x: "px_orderId x = orderId"
    and p: "punched x (snd (open_kot e actor orderId outletId outlet d)) ls s2"
    and l: "efold (deplete x) (ps_consumption s2) (ps_db s2) = Inr d'" by metis
  define d3 where "d3 = snd (open_kot e actor orderId outletId outlet d)"
  note d3 = d3_def [unfolded open_kot_eq]
  from p obtain n where n: "n \<ge> seq d3" "ps_db s2 = d3\<lparr>seq := n, orderItems := orderItems d3 @ ls\<rparr>"
    unfolding d3_def [symmetric] punched_def by blast
  from deplete_loop_frame [OF l] obtain rs ms where d': "d' = (ps_db s2)\<lparr>rawMaterials := rs, stockMovements := ms\<rparr>" by blast
  show ?thesis
  proof (rule that)
    show "seq d < n" using n(1) d3 by simp
    show "oi_orderId l = orderId \<and> line_ok l" if "l \<in> set ls" for l using that p x unfolding punched_def by blast
    show "d' = d\<lparr>seq := n, outlets := set_row ou_id outletId (\<lambda>u. u\<lparr>ou_nextKotNumber := ou_nextKotNumber u + 1\<rparr>) (outlets d),
      orderItems := orderItems d @ ls, kots := kots d @ [\<lparr> k_id = e_cuid e (seq d), k_tenantId = ac_tenantId actor,
        k_outletId = outletId, k_orderId = orderId, k_kotNumber = ou_nextKotNumber outlet, k_createdAt = e_now e \<rparr>],
      rawMaterials := rs, stockMovements := ms\<rparr>"
      unfolding d' n(2) d3 by simp
  qed
qed

text \<open>The stock tables agree with their column types and every balance with its ledger.\<close>

definition stock_ok :: "db \<Rightarrow> bool" where
  "stock_ok d \<longleftrightarrow> ledger_balanced rm_id rm_stockQty sm_rawMaterialId sm_quantity (rawMaterials d) (stockMovements d) \<and> stock_columns d"

lemma punch_stock_ok:
  assumes run: "punchItems e actor orderId outletId inputs cs opts d = Inr (u, d')" and ok: "stock_ok d"
  shows "stock_ok d' \<and> (\<exists>ls. orderItems d' = orderItems d @ ls
    \<and> (\<forall>l \<in> set ls. oi_orderId l = orderId \<and> line_ok l)
    \<and> (\<forall>m. map_option rm_stockQty (row_by rm_id m (rawMaterials d'))
         = map_option (\<lambda>r. rm_stockQty r - kitchen_use d m ls) (row_by rm_id m (rawMaterials d))))"
proof -
  from punchItems_stages [OF run] obtain outlet x s2 ls where x: "px_orderId x = orderId"
    and p: "punched x (snd (open_kot e actor orderId outletId outlet d)) ls s2"
    and l: "efold (deplete x) (ps_consumption s2) (ps_db s2) = Inr d'" by metis
  define d3 where "d3 = snd (open_kot e actor orderId outletId outlet d)"
  note d3 = d3_def [unfolded open_kot_eq]
  note p = p [folded d3_def]
  from p obtain n where n: "ps_db s2 = d3\<lparr>seq := n, orderItems := orderItems d3 @ ls\<rparr>" by (auto simp: punched_def)
  have b: "stock.balanced (ps_db s2)" "stock_columns (ps_db s2)" using ok by (simp_all add: n d3 stock_ok_def stock_columns_def)
  then have c: "consumption_ok (ps_consumption s2)" using p by (simp add: punched_def n stock_columns_def)
  have use: "kitchen_use d3 m ls = kitchen_use d m ls" for m
    by (simp add: kitchen_use_def recipe_need_def item_recipe_def d3)
  have cons: "or_else (map_of (ps_consumption s2) m) 0 = kitchen_use d m ls" for m
    using p use by (simp add: punched_def)
  from deplete_loop_frame [OF l] obtain rs ms where "d' = (ps_db s2)\<lparr>rawMaterials := rs, stockMovements := ms\<rparr>" by blast
  then have "orderItems d' = orderItems d @ ls" by (simp add: n d3)
  moreover have "rawMaterials (ps_db s2) = rawMaterials d" by (simp add: n d3)
  ultimately show ?thesis using deplete_loop [OF l b c] p x cons
    by (auto simp: stock_ok_def punched_def)
qed


section \<open>A concrete punch\<close>

definition outlet0 :: outlet_row where
  "outlet0 = \<lparr> ou_id = ''k'', ou_tenantId = ''t'', ou_name = ''Main'', ou_gstin = None, ou_placeOfSupply = None,
     ou_nextBillNumber = 7, ou_nextKotNumber = 3, ou_loyaltyEarnRate = 0, ou_loyaltyPointValue = 1,
     ou_isCentralKitchen = False, ou_publicToken = None \<rparr>"

definition dish0 :: item_row where
  "dish0 = \<lparr> it_id = ''i'', it_tenantId = ''t'', it_outletId = ''k'', it_name = ''Dal'', it_price = 100, it_inStock = True,
     it_taxRate = 5, it_availableStart = None, it_availableEnd = None, it_deletedAt = None, it_stationId = None,
     it_variations = [], it_addonGroups = [] \<rparr>"

definition material0 :: raw_material_row where
  "material0 = \<lparr> rm_id = ''m'', rm_tenantId = ''t'', rm_outletId = ''k'', rm_name = ''Lentils'', rm_unit = UnitKG,
     rm_stockQty = 10, rm_reorderLevel = 0, rm_costPerUnit = 90, rm_isSemiFinished = False, rm_deletedAt = None \<rparr>"

definition kitchen0 :: db where
  "kitchen0 = db0\<lparr> outlets := [outlet0], items := [dish0],
     recipes := [\<lparr> ri_itemId = ''i'', ri_rawMaterialId = ''m'', ri_quantity = 2 \<rparr>], rawMaterials := [material0],
     stockMovements := [stock_movement env0 ''t'' ''k'' ''m'' RECEIPT 10 None None None None None None] \<rparr>"

definition line0 :: order_line_input where
  "line0 = \<lparr> li_itemId = ''i'', li_variationId = None, li_addonIds = [], li_quantity = 3, li_note = None,
     li_offlineUnitPrice = None, li_offlineTaxRate = None \<rparr>"

definition actor0 :: punch_actor where
  "actor0 = \<lparr> ac_tenantId = ''t'', ac_id = None \<rparr>"

definition pos0 :: punch_options where
  "pos0 = \<lparr> po_source = SourcePOS TAKEAWAY, po_offline = False, po_at = None \<rparr>"

definition kitchen1 :: db where
  "kitchen1 = kitchen0\<lparr> seq := 2, outlets := [outlet0\<lparr>ou_nextKotNumber := 4\<rparr>],
     kots := [\<lparr> k_id = [], k_tenantId = ''t'', k_outletId = ''k'', k_orderId = ''r'', k_kotNumber = 3, k_createdAt = e_now env0 \<rparr>],
     orderItems := [(new_line ''x'' ''r'' ''i'' ''Dal'' 3 100 300 5)\<lparr> oi_kotId := Some [] \<rparr>],
     rawMaterials := [material0\<lparr>rm_stockQty := 4\<rparr>],
     stockMovements := [stock_movement env0 ''t'' ''k'' ''m'' RECEIPT 10 None None None None None None,
       stock_movement env0 ''t'' ''k'' ''m'' CONSUMPTION (- 6) None None None (Some ''kot'') (Some []) None] \<rparr>"

lemma kitchen0_ok: "stock_ok kitchen0"
  by (simp add: stock_ok_def kitchen0_def stock_columns_def ledger_balanced_def material0_def stock_movement_def
      numeric_col_exact entry_sum_def)

lemma punch_kitchen0: "punchItems env0 actor0 ''r'' ''k'' [line0] [] pos0 kitchen0 = Inr ([], kitchen1)"
  by (simp add: punchItems_def open_kot_def fresh_def Let_def kitchen0_def kitchen1_def outlet0_def actor0_def pos0_def line0_def
      db0_def env0_def resolveChannelPrices_def ranked_channels_def punch_line_def find_item_def dish0_def check_window_def
      assertAvailable_def isAvailableNow_def isWithinWindow_def parseHHMM_def unit_price_def pick_addons_def create_line_def
      new_line_def consume_def item_recipe_def js_map_add_def lineTotalPaise_def deplete_def material0_def set_row_def
      numeric_col_exact stock_movement_def)


end
