(* ===== verification/Gift_Cards.thy ===== *)
theory Gift_Cards
  imports Billing_Rules
begin

text \<open>
  Gift cards and store credit (\<open>apps/api/src/gift-cards/gift-cards.service.ts\<close>): issue, redemption
  inside a settlement, store credit for a refund, balance check and void, and the invariant that every
  card's balance is explained by its ledger and never negative. The random draws of a code are an
  argument of the operations.
\<close>

section \<open>Codes\<close>

definition ALPHABET :: string where
  "ALPHABET = ''ABCDEFGHJKLMNPQRSTUVWXYZ23456789''"

text \<open>The twelve results of \<open>randomInt(ALPHABET.length)\<close> are the list \<open>draws\<close>.\<close>

definition newGiftCode :: "string \<Rightarrow> nat list \<Rightarrow> string" where
  "newGiftCode prefix draws = prefix @ map (\<lambda>i. ALPHABET ! i) draws"

definition formatGiftCode :: "string \<Rightarrow> string" where
  "formatGiftCode code = (if length code = 14
     then take 2 code @ ''-'' @ take 4 (drop 2 code) @ ''-'' @ take 4 (drop 6 code) @ ''-'' @ drop 10 code
     else code)"

definition normaliseGiftCode :: "string \<Rightarrow> string" where
  "normaliseGiftCode code = filter (\<lambda>c. \<not> is_space c \<and> c \<noteq> CHR ''-'') (map upper code)"

definition isExpired :: "env \<Rightarrow> date option \<Rightarrow> bool" where
  "isExpired e expiresOn = (case expiresOn of None \<Rightarrow> False | Some x \<Rightarrow> x < istDateOf (e_now e))"

section \<open>Redemption\<close>

definition card_by_code :: "id \<Rightarrow> string \<Rightarrow> db \<Rightarrow> gift_card_row option" where
  "card_by_code tenantId code d = List.find (\<lambda>c. gc_tenantId c = tenantId \<and> gc_code c = code) (giftCards d)"

definition gift_txn :: "id \<Rightarrow> id \<Rightarrow> id \<Rightarrow> card_txn_type \<Rightarrow> num \<Rightarrow> num \<Rightarrow> id option \<Rightarrow> string option \<Rightarrow> id option \<Rightarrow> string option \<Rightarrow> gift_txn_row" where
  "gift_txn tenantId cardId outletId type amount after orderId paymentMode userId note =
     \<lparr> gt_tenantId = tenantId, gt_giftCardId = cardId, gt_outletId = outletId, gt_type = type,
       gt_amount = numeric_col 2 amount, gt_balanceAfter = numeric_col 2 after, gt_orderId = orderId,
       gt_paymentMode = paymentMode, gt_userId = userId, gt_note = note \<rparr>"

definition by_code :: "(string \<times> num) list \<Rightarrow> (string \<times> int) list" where
  "by_code pays = foldl (\<lambda>m (code, amount). js_map_add (normaliseGiftCode code) (toPaise amount) m) [] pays"

definition card_error :: "string \<Rightarrow> string \<Rightarrow> api_error" where
  "card_error code what = BadRequest [Txt (''Gift card '' @ formatGiftCode code @ what)]"

text \<open>One round of the loop: lock the card of the code, check it, take the amount, write the ledger.\<close>

definition redeem_card :: "env \<Rightarrow> id \<Rightarrow> id \<Rightarrow> id \<Rightarrow> id option \<Rightarrow> string \<times> int \<Rightarrow> db \<Rightarrow> db result" where
  "redeem_card e tenantId outletId orderId userId entry d = (case entry of (code, amount) \<Rightarrow>
    ebind (some_or (card_by_code tenantId code d) (card_error code '' not found'')) (\<lambda>card.
    ebind (require (gc_status card = ACTIVE) (card_error code '' is void'')) (\<lambda>_.
    ebind (require (\<not> isExpired e (gc_expiresOn card)) (card_error code '' has expired'')) (\<lambda>_.
      let balance = toPaise (gc_balance card)
      in ebind (require (\<not> balance < amount)
             (BadRequest [Txt (''Gift card '' @ formatGiftCode code @ '' balance is ''), Num (fromPaise (of_int balance))])) (\<lambda>_.
         let after = fromPaise (of_int (balance - amount))
         in Inr (giftTxns_update (\<lambda>ts. ts @ [gift_txn tenantId (gc_id card) outletId TxnRedeem
                     (- fromPaise (of_int amount)) after (Some orderId) None userId None])
               (giftCards_update (set_row gc_id (gc_id card) (\<lambda>c. c\<lparr>gc_balance := numeric_col 2 after\<rparr>)) d)))))))"

definition redeemGiftCardsTx :: "env \<Rightarrow> id \<Rightarrow> id \<Rightarrow> id \<Rightarrow> id option \<Rightarrow> (string \<times> num) list \<Rightarrow> db \<Rightarrow> db result" where
  "redeemGiftCardsTx e tenantId outletId orderId userId pays d =
     (let byCode = by_code pays
      in efold (redeem_card e tenantId outletId orderId userId)
           (map (\<lambda>code. (code, the (map_of byCode code))) (sort (map fst byCode))) d)"

section \<open>Issue, store credit, balance, void\<close>

text \<open>\<open>giftCard.create\<close>: the pair of tenant and code is unique.\<close>

definition create_card :: "gift_card_row \<Rightarrow> db \<Rightarrow> db result" where
  "create_card c d =
     ebind (require (card_by_code (gc_tenantId c) (gc_code c) d = None) UniqueViolation)
       (\<lambda>_. Inr (giftCards_update (\<lambda>cs. cs @ [c]) d))"

definition issueStoreCreditTx ::
  "env \<Rightarrow> nat list \<Rightarrow> id \<Rightarrow> id \<Rightarrow> num \<Rightarrow> id option \<Rightarrow> id option \<Rightarrow> string option \<Rightarrow> string option \<Rightarrow> string option
    \<Rightarrow> db \<Rightarrow> (string \<times> db) result" where
  "issueStoreCreditTx e draws tenantId outletId amount orderId userId note customerPhone customerName d =
    (let code = newGiftCode ''SC'' draws;
         (cardId, d1) = fresh e d;
         card = \<lparr> gc_id = cardId, gc_tenantId = tenantId, gc_issuedOutletId = outletId, gc_code = code,
                  gc_kind = StoreCredit, gc_initialValue = numeric_col 2 amount, gc_balance = numeric_col 2 amount,
                  gc_expiresOn = None, gc_status = ACTIVE, gc_customerName = customerName,
                  gc_customerPhone = customerPhone, gc_note = note, gc_issuedById = userId,
                  gc_voidedAt = None, gc_voidReason = None \<rparr>
     in ebind (create_card card d1) (\<lambda>d2.
          Inr (code, giftTxns_update (\<lambda>ts. ts @ [gift_txn tenantId cardId outletId TxnStoreCredit amount amount orderId
                 None userId (Some (or_else note ''Refund to store credit''))]) d2)))"

record issue_input =
  ii_amount :: num
  ii_paymentMode :: string
  ii_expiresOn :: "date option"
  ii_customerName :: "string option"
  ii_customerPhone :: "string option"
  ii_note :: "string option"

definition open_session :: "id \<Rightarrow> id \<Rightarrow> db \<Rightarrow> cash_session_row option" where
  "open_session tenantId outletId d =
     List.find (\<lambda>s. cs_tenantId s = tenantId \<and> cs_outletId s = outletId \<and> cs_status s = DrawerOpen) (cashSessions d)"

text \<open>\<open>cashMovement.create\<close> on an open drawer, when there is one.\<close>

definition drawer_movement :: "env \<Rightarrow> id \<Rightarrow> id \<Rightarrow> movement_type \<Rightarrow> num \<Rightarrow> string option \<Rightarrow> string option \<Rightarrow> id option \<Rightarrow> db \<Rightarrow> db" where
  "drawer_movement e tenantId outletId type amount category note orderId d =
    (case open_session tenantId outletId d of
       None \<Rightarrow> d
     | Some session \<Rightarrow> (case fresh e d of (mid, d1) \<Rightarrow>
         cashMovements_update (\<lambda>ms. ms @ [\<lparr> cm_id = mid, cm_sessionId = cs_id session, cm_type = type,
           cm_amount = numeric_col 2 amount, cm_category = category, cm_note = note, cm_orderId = orderId,
           cm_createdAt = e_now e \<rparr>]) d1))"

definition issue :: "env \<Rightarrow> nat list \<Rightarrow> auth_user \<Rightarrow> id \<Rightarrow> issue_input \<Rightarrow> db \<Rightarrow> db result" where
  "issue e draws user outletId input d =
    ebind (assertOutlet user outletId) (\<lambda>_.
    ebind (require (\<not> (case ii_expiresOn input of None \<Rightarrow> False | Some x \<Rightarrow> x < istDateOf (e_now e)))
             (BadRequest [Txt ''Expiry is in the past''])) (\<lambda>_.
      let code = newGiftCode ''GC'' draws;
          (cardId, d1) = fresh e d;
          card = \<lparr> gc_id = cardId, gc_tenantId = u_tenantId user, gc_issuedOutletId = outletId, gc_code = code,
                   gc_kind = GiftCard, gc_initialValue = numeric_col 2 (ii_amount input),
                   gc_balance = numeric_col 2 (ii_amount input), gc_expiresOn = ii_expiresOn input,
                   gc_status = ACTIVE, gc_customerName = ii_customerName input,
                   gc_customerPhone = ii_customerPhone input, gc_note = ii_note input,
                   gc_issuedById = Some (u_id user), gc_voidedAt = None, gc_voidReason = None \<rparr>
      in ebind (create_card card d1) (\<lambda>d2.
         let d3 = giftTxns_update (\<lambda>ts. ts @ [gift_txn (u_tenantId user) cardId outletId TxnIssue (ii_amount input)
                    (ii_amount input) None (Some (ii_paymentMode input)) (Some (u_id user)) (ii_note input)]) d2;
             d4 = (if ii_paymentMode input = ''CASH''
                   then drawer_movement e (u_tenantId user) outletId PAY_IN (ii_amount input) (Some ''GIFT_CARD_SALE'')
                          (Some (''Gift card '' @ formatGiftCode code)) None d3
                   else d3)
         in Inr (audit (u_tenantId user) (Some (u_id user)) ''GIFT_CARD_ISSUED'' ''gift_card'' cardId d4))))"

record balance_dto =
  bd_code :: string
  bd_kind :: card_kind
  bd_balance :: num
  bd_usable :: bool
  bd_reason :: "string option"
  bd_expiresOn :: "date option"

definition cardBalance :: "env \<Rightarrow> auth_user \<Rightarrow> id \<Rightarrow> string \<Rightarrow> db \<Rightarrow> balance_dto result" where
  "cardBalance e user outletId rawCode d =
    ebind (assertOutlet user outletId) (\<lambda>_.
      let code = normaliseGiftCode rawCode;
          card = (if code \<noteq> [] then card_by_code (u_tenantId user) code d else None)
      in Inr (case card of
           None \<Rightarrow> \<lparr> bd_code = rawCode, bd_kind = GiftCard, bd_balance = 0, bd_usable = False,
                    bd_reason = Some ''Card not found'', bd_expiresOn = None \<rparr>
         | Some c \<Rightarrow>
             let reason = (if gc_status c \<noteq> ACTIVE then Some ''Card is void''
                           else if isExpired e (gc_expiresOn c) then Some ''Card has expired''
                           else if gc_balance c \<le> 0 then Some ''No balance left'' else None)
             in \<lparr> bd_code = formatGiftCode (gc_code c), bd_kind = gc_kind c, bd_balance = gc_balance c,
                  bd_usable = (reason = None), bd_reason = reason, bd_expiresOn = gc_expiresOn c \<rparr>))"

definition voidCard :: "env \<Rightarrow> auth_user \<Rightarrow> id \<Rightarrow> string \<Rightarrow> db \<Rightarrow> db result" where
  "voidCard e user cardId reason d =
    ebind (some_or (List.find (\<lambda>c. gc_id c = cardId \<and> gc_tenantId c = u_tenantId user) (giftCards d))
             (NotFound [Txt ''Gift card not found''])) (\<lambda>locked.
    ebind (require (gc_status locked \<noteq> VOID) (BadRequest [Txt ''Gift card is already void''])) (\<lambda>_.
      Inr (audit (u_tenantId user) (Some (u_id user)) ''GIFT_CARD_VOIDED'' ''gift_card'' cardId
        (giftTxns_update (\<lambda>ts. ts @ [gift_txn (u_tenantId user) cardId (gc_issuedOutletId locked) TxnVoid
             (- gc_balance locked) 0 None None (Some (u_id user)) (Some reason)])
          (giftCards_update (set_row gc_id cardId (\<lambda>c. c\<lparr>gc_status := VOID, gc_balance := 0,
             gc_voidedAt := Some (e_now e), gc_voidReason := Some reason\<rparr>)) d)))))"

section \<open>The invariant of the cards\<close>

interpretation gl: ledger "giftCards :: db \<Rightarrow> _" giftCards_update gc_id gc_balance giftTxns giftTxns_update gt_giftCardId gt_amount
  by unfold_locales simp_all

text \<open>
  Balances are explained by the ledger; they are whole paise and not negative; a void card has none;
  a code belongs to one card of a tenant.
\<close>

definition card_ok :: "gift_card_row \<Rightarrow> bool" where
  "card_ok c \<longleftrightarrow> paise_exact (gc_balance c) \<and> 0 \<le> gc_balance c \<and> (gc_status c = VOID \<longrightarrow> gc_balance c = 0)"

definition card_code :: "gift_card_row \<Rightarrow> id \<times> string" where
  "card_code c = (gc_tenantId c, gc_code c)"

definition gift_ok :: "db \<Rightarrow> bool" where
  "gift_ok d \<longleftrightarrow> gl.balanced d \<and> (\<forall>c \<in> set (giftCards d). card_ok c) \<and> distinct (map card_code (giftCards d))"

definition balance_sum :: "db \<Rightarrow> num" where
  "balance_sum d = (\<Sum>c\<leftarrow>giftCards d. gc_balance c)"

lemma gift_ok_distinct: "gift_ok d \<Longrightarrow> distinct (map gc_id (giftCards d))"
  by (simp add: gift_ok_def ledger_balanced_def)

lemma gift_ok_row: "gift_ok d \<Longrightarrow> c \<in> set (giftCards d) \<Longrightarrow> row_by gc_id (gc_id c) (giftCards d) = Some c"
  by (rule row_by_distinct [OF gift_ok_distinct])

lemma card_by_code_Some:
  "card_by_code t code d = Some c \<Longrightarrow> c \<in> set (giftCards d) \<and> gc_tenantId c = t \<and> gc_code c = code"
  unfolding card_by_code_def by (drule find_SomeD) simp

text \<open>A posting on one card that moves its balance by the amount of the entry and keeps it well-formed.\<close>

lemma gift_ok_post:
  assumes ok: "gift_ok d" and c: "c \<in> set (giftCards d)"
    and f: "\<And>x. gc_id (f x) = gc_id x" "\<And>x. card_code (f x) = card_code x"
    and e: "gt_giftCardId t = gc_id c" "gc_balance (f c) = gc_balance c + gt_amount t" "card_ok (f c)"
  shows "gift_ok (giftTxns_update (\<lambda>ts. ts @ [t]) (giftCards_update (set_row gc_id (gc_id c) f) d))"
    and "balance_sum (giftTxns_update (\<lambda>ts. ts @ [t]) (giftCards_update (set_row gc_id (gc_id c) f) d))
      = balance_sum d + gt_amount t"
proof -
  have row: "row_by gc_id (gc_id c) (giftCards d) = Some c" by (rule gift_ok_row [OF ok c])
  have "gl.balanced (giftTxns_update (\<lambda>ts. ts @ [t]) (giftCards_update (set_row gc_id (gc_id c) f) d))"
    by (rule gl.balanced_post [OF _ row f(1) e(2,1)]) (use ok in \<open>simp add: gift_ok_def\<close>)
  moreover have "card_ok x" if "x \<in> set (set_row gc_id (gc_id c) f (giftCards d))" for x
    using that
  proof (cases rule: set_row_memberE)
    case (1 r)
    then have "r = c" using row gift_ok_row [OF ok 1(1)] by simp
    then show ?thesis using 1 e by simp
  next
    case 2
    then show ?thesis using ok by (simp add: gift_ok_def)
  qed
  moreover have "map card_code (set_row gc_id (gc_id c) f (giftCards d)) = map card_code (giftCards d)"
    using f(2) by (simp add: set_row_def map_update_where)
  ultimately show "gift_ok (giftTxns_update (\<lambda>ts. ts @ [t]) (giftCards_update (set_row gc_id (gc_id c) f) d))"
    using ok by (simp add: gift_ok_def)
  show "balance_sum (giftTxns_update (\<lambda>ts. ts @ [t]) (giftCards_update (set_row gc_id (gc_id c) f) d))
      = balance_sum d + gt_amount t"
    using sum_list_set_row [OF gift_ok_distinct [OF ok] row, of gc_balance f] e by (simp add: balance_sum_def)
qed

lemma gift_ok_open:
  assumes "gift_ok d" and "gc_id c \<notin> gc_id ` set (giftCards d)" and "card_code c \<notin> card_code ` set (giftCards d)"
    and "gt_giftCardId t = gc_id c" and "gc_balance c = gt_amount t" and "card_ok c"
  shows "gift_ok (giftTxns_update (\<lambda>ts. ts @ [t]) (giftCards_update (\<lambda>cs. cs @ [c]) d))"
  using gl.balanced_open [of d c t] assms by (simp add: gift_ok_def)

lemma gift_ok_cong:
  "giftCards d' = giftCards d \<Longrightarrow> giftTxns d' = giftTxns d \<Longrightarrow> gift_ok d' = gift_ok d"
  by (simp add: gift_ok_def)

lemma card_by_code_None: "card_by_code t code d = None \<longleftrightarrow> (t, code) \<notin> card_code ` set (giftCards d)"
  by (auto simp: card_by_code_def find_None_iff_ball card_code_def)

lemma paise_col: "paise_exact (of_int n / 100)" "numeric_col 2 (of_int n / 100) = of_int n / 100"
  by (simp_all add: numeric_col_exact)

section \<open>Redemption\<close>

lemma redeem_card_spec:
  assumes ok: "gift_ok d" and run: "redeem_card e t u i w (code, amount) d = Inr d'" and "0 \<le> amount"
  shows "gift_ok d' \<and> balance_sum d' = balance_sum d - of_int amount / 100"
proof -
  from run obtain c where c: "card_by_code t code d = Some c" "gc_status c = ACTIVE" "\<not> toPaise (gc_balance c) < amount"
    and d': "d' = giftTxns_update (\<lambda>ts. ts @ [gift_txn t (gc_id c) u TxnRedeem (- (of_int amount / 100))
                (of_int (toPaise (gc_balance c) - amount) / 100) (Some i) None w None])
        (giftCards_update (set_row gc_id (gc_id c) (\<lambda>x. x\<lparr>gc_balance := of_int (toPaise (gc_balance c) - amount) / 100\<rparr>)) d)"
    unfolding redeem_card_def Let_def prod.case guard_simps fromPaise_of_int paise_col sum.inject by metis
  have mem: "c \<in> set (giftCards d)" using card_by_code_Some [OF c(1)] by simp
  then have "paise_exact (gc_balance c)" using ok by (simp add: gift_ok_def card_ok_def)
  then have bal: "of_int (toPaise (gc_balance c)) / 100 = gc_balance c" by (simp only: paise_exact_iff)
  have neg: "numeric_col 2 (- (of_int amount / 100)) = - (of_int amount / 100)"
    using paise_col(2) [of "- amount"] by simp
  let ?f = "\<lambda>x. x\<lparr>gc_balance := of_int (toPaise (gc_balance c) - amount) / 100\<rparr>"
  have "card_ok (?f c)" using c(2,3) paise_col(1) [of "toPaise (gc_balance c) - amount"] by (simp add: card_ok_def)
  moreover have "gc_balance (?f c) = gc_balance c + - (of_int amount / 100)"
    using bal by (simp add: diff_divide_distrib)
  ultimately show ?thesis
    using gift_ok_post [OF ok mem, of ?f "gift_txn t (gc_id c) u TxnRedeem (- (of_int amount / 100))
                (of_int (toPaise (gc_balance c) - amount) / 100) (Some i) None w None"]
    unfolding d' by (simp add: gift_txn_def neg card_code_def)
qed

text \<open>A redemption writes no other table, and adds no card.\<close>

lemma redeem_card_frame:
  assumes "redeem_card e t u i w p d = Inr d'"
  shows "\<exists>cs ts. d' = d\<lparr>giftCards := cs, giftTxns := ts\<rparr> \<and> map gc_id cs = map gc_id (giftCards d)"
proof -
  obtain code amount where p: "p = (code, amount)" by (cases p)
  from assms obtain f ts where "d' = giftTxns_update ts (giftCards_update f d)" "map gc_id (f (giftCards d)) = map gc_id (giftCards d)"
    unfolding p redeem_card_def Let_def prod.case guard_simps sum.inject
    by (elim exE conjE) (rule that, rule sym, assumption, simp add: map_key_set_row)
  then show ?thesis by (intro exI [of _ "f (giftCards d)"] exI [of _ "ts (giftTxns d)"]) simp
qed

lemma redeem_frame:
  assumes "redeemGiftCardsTx e t u i w pays d = Inr d'"
  shows "\<exists>cs ts. d' = d\<lparr>giftCards := cs, giftTxns := ts\<rparr> \<and> map gc_id cs = map gc_id (giftCards d)"
  using assms unfolding redeemGiftCardsTx_def Let_def
proof (rule efold_invariant)
  show "\<exists>cs ts. d = d\<lparr>giftCards := cs, giftTxns := ts\<rparr> \<and> map gc_id cs = map gc_id (giftCards d)"
    by (intro exI [of _ "giftCards d"] exI [of _ "giftTxns d"]) simp
  fix p s s'
  assume "\<exists>cs ts. s = d\<lparr>giftCards := cs, giftTxns := ts\<rparr> \<and> map gc_id cs = map gc_id (giftCards d)"
    and "redeem_card e t u i w p s = Inr s'"
  then show "\<exists>cs ts. s' = d\<lparr>giftCards := cs, giftTxns := ts\<rparr> \<and> map gc_id cs = map gc_id (giftCards d)"
    using redeem_card_frame [of e t u i w p s s'] by force
qed

lemma by_code_sum:
  "(\<Sum>p\<leftarrow>by_code pays. snd p) = (\<Sum>p\<leftarrow>pays. toPaise (snd p)) \<and> distinct (map fst (by_code pays))"
proof -
  have "distinct (map fst m) \<Longrightarrow>
      (\<Sum>p\<leftarrow>foldl (\<lambda>m (code, amount). js_map_add (normaliseGiftCode code) (toPaise amount) m) m pays. snd p)
        = (\<Sum>p\<leftarrow>m. snd p) + (\<Sum>p\<leftarrow>pays. toPaise (snd p))
      \<and> distinct (map fst (foldl (\<lambda>m (code, amount). js_map_add (normaliseGiftCode code) (toPaise amount) m) m pays))" for m
    by (induction pays arbitrary: m) (auto simp: sum_js_map_add distinct_js_map_add)
  from this [of "[]"] show ?thesis by (simp add: by_code_def)
qed

lemma js_map_add_nonneg:
  "\<forall>p \<in> set m. 0 \<le> snd p \<Longrightarrow> 0 \<le> (v :: int) \<Longrightarrow> \<forall>p \<in> set (js_map_add k v m). 0 \<le> snd p"
proof -
  assume m: "\<forall>p \<in> set m. 0 \<le> snd p" and v: "0 \<le> v"
  have "0 \<le> or_else (map_of m k) 0" using m by (cases "map_of m k") (auto dest!: map_of_SomeD)
  then show ?thesis using m v set_js_map_set [of k "or_else (map_of m k) 0 + v" m] by (auto simp: js_map_add_def)
qed

lemma by_code_nonneg:
  assumes "\<forall>p \<in> set pays. 0 \<le> snd p" shows "\<forall>p \<in> set (by_code pays). 0 \<le> snd p"
proof -
  have "\<forall>p \<in> set m. 0 \<le> snd p \<Longrightarrow>
    \<forall>p \<in> set (foldl (\<lambda>m (code, amount). js_map_add (normaliseGiftCode code) (toPaise amount) m) m pays). 0 \<le> snd p" for m
    using assms
  proof (induction pays arbitrary: m)
    case (Cons p pays)
    then show ?case using js_map_add_nonneg [of m "toPaise (snd p)" "normaliseGiftCode (fst p)"] toPaise_nonneg [of "snd p"]
      by (cases p) auto
  qed simp
  from this [of "[]"] show ?thesis by (simp add: by_code_def)
qed

lemma sorted_entries_mset:
  assumes "distinct (map fst m)"
  shows "mset (map (\<lambda>k. (k, the (map_of m k))) (sort (map fst m))) = mset m"
proof -
  have "map (\<lambda>k. (k, the (map_of m k))) (map fst m) = m"
    unfolding map_map by (rule map_idI) (use assms in \<open>auto simp: map_of_is_SomeI\<close>)
  moreover have "mset (map (\<lambda>k. (k, the (map_of m k))) (sort (map fst m))) = mset (map (\<lambda>k. (k, the (map_of m k))) (map fst m))"
    by (simp add: image_mset.compositionality)
  ultimately show ?thesis by simp
qed

lemma redeem_loop:
  assumes "efold (redeem_card e t u i w) es d = Inr d'" and "gift_ok d" and "\<forall>p \<in> set es. 0 \<le> snd p"
  shows "gift_ok d' \<and> balance_sum d' = balance_sum d - of_int (\<Sum>p\<leftarrow>es. snd p) / 100"
  using assms
proof (induction es arbitrary: d)
  case (Cons p es)
  from Cons.prems(1) obtain d1 where 1: "redeem_card e t u i w p d = Inr d1" and 2: "efold (redeem_card e t u i w) es d1 = Inr d'"
    by (auto simp: guard_simps)
  have s: "gift_ok d1 \<and> balance_sum d1 = balance_sum d - of_int (snd p) / 100"
    using redeem_card_spec [of d e t u i w "fst p" "snd p" d1] 1 Cons.prems by simp
  then have "gift_ok d' \<and> balance_sum d' = balance_sum d1 - of_int (\<Sum>p\<leftarrow>es. snd p) / 100"
    using Cons.IH [OF 2] Cons.prems by simp
  then show ?case using s by (simp add: add_divide_distrib)
qed simp

lemma redeem_ok:
  assumes "gift_ok d" and "\<forall>p \<in> set pays. 0 \<le> snd p"
    and "redeemGiftCardsTx e tenantId outletId orderId userId pays d = Inr d'"
  shows "gift_ok d' \<and> balance_sum d' = balance_sum d - of_int (\<Sum>p\<leftarrow>pays. toPaise (snd p)) / 100"
proof -
  let ?m = "by_code pays" and ?es = "map (\<lambda>k. (k, the (map_of (by_code pays) k))) (sort (map fst (by_code pays)))"
  have ms: "mset ?es = mset ?m" by (rule sorted_entries_mset) (simp add: by_code_sum)
  have "\<forall>p \<in> set ?es. 0 \<le> snd p" using by_code_nonneg [OF assms(2)] mset_eq_setD [OF ms] by blast
  moreover have "sum_mset (mset (map snd ?es)) = sum_mset (mset (map snd ?m))"
    unfolding mset_map [of snd] ms ..
  then have "(\<Sum>p\<leftarrow>?es. snd p) = (\<Sum>p\<leftarrow>?m. snd p)" unfolding sum_mset_sum_list .
  then have "(\<Sum>p\<leftarrow>?es. snd p) = (\<Sum>p\<leftarrow>pays. toPaise (snd p))" using by_code_sum [of pays] by argo
  moreover have "efold (redeem_card e tenantId outletId orderId userId) ?es d = Inr d'"
    using assms(3) by (simp only: redeemGiftCardsTx_def Let_def)
  ultimately show ?thesis using redeem_loop [of e tenantId outletId orderId userId ?es d d'] assms(1) by presburger
qed

text \<open>A redemption inside a settlement takes from the cards exactly what the gift-card payments tender, to the paisa,
  and keeps every balance explained by its ledger and not negative: no card is overspent, whatever the codes and
  however often a code is repeated.\<close>

theorem redeemGiftCardsTx_exact:
  assumes "gift_ok d" and "\<forall>p \<in> set pays. 0 \<le> snd p"
    and "redeemGiftCardsTx e tenantId outletId orderId userId pays d = Inr d'"
  shows "gift_ok d' \<and> balance_sum d' = balance_sum d - of_int (\<Sum>p\<leftarrow>pays. toPaise (snd p)) / 100"
  using redeem_ok [OF assms] .

section \<open>Reachable states\<close>

text \<open>
  The cards of a database whose row ids come from the source \<open>src\<close>: any sequence of issues, store credits,
  redemptions and voids, interleaved with steps of the other services, which leave the two tables alone.
  Amounts are validated before a service runs.
\<close>

inductive gift_reach :: "(nat \<Rightarrow> id) \<Rightarrow> db \<Rightarrow> bool" for src where
  start: "giftCards d = [] \<Longrightarrow> giftTxns d = [] \<Longrightarrow> gift_reach src d"
| issue: "gift_reach src d \<Longrightarrow> e_cuid e = src \<Longrightarrow> 0 \<le> ii_amount input \<Longrightarrow>
    issue e draws user outletId input d = Inr d' \<Longrightarrow> gift_reach src d'"
| credit: "gift_reach src d \<Longrightarrow> e_cuid e = src \<Longrightarrow> 0 \<le> amount \<Longrightarrow>
    issueStoreCreditTx e draws tenantId outletId amount orderId userId note phone name d = Inr (code, d') \<Longrightarrow> gift_reach src d'"
| redeem: "gift_reach src d \<Longrightarrow> \<forall>p \<in> set pays. 0 \<le> snd p \<Longrightarrow>
    redeemGiftCardsTx e tenantId outletId orderId userId pays d = Inr d' \<Longrightarrow> gift_reach src d'"
| void: "gift_reach src d \<Longrightarrow> voidCard e user cardId reason d = Inr d' \<Longrightarrow> gift_reach src d'"
| other: "gift_reach src d \<Longrightarrow> giftCards d' = giftCards d \<Longrightarrow> giftTxns d' = giftTxns d \<Longrightarrow> seq d \<le> seq d' \<Longrightarrow> gift_reach src d'"

definition cards_drawn :: "(nat \<Rightarrow> id) \<Rightarrow> db \<Rightarrow> bool" where
  "cards_drawn src d \<longleftrightarrow> gc_id ` set (giftCards d) \<subseteq> src ` {..<seq d}"

lemma cards_drawn_fresh: "inj src \<Longrightarrow> cards_drawn src d \<Longrightarrow> src (seq d) \<notin> gc_id ` set (giftCards d)"
  by (auto simp: cards_drawn_def dest!: inj_onD subsetD)

lemma numeric_col_nonneg: "0 \<le> x \<Longrightarrow> 0 \<le> numeric_col s x"
  by (simp add: numeric_col_def round_away_def)

lemma drawer_movement_frame [simp]:
  "giftCards (drawer_movement e t u ty a c n oid d) = giftCards d"
  "giftTxns (drawer_movement e t u ty a c n oid d) = giftTxns d"
  "seq d \<le> seq (drawer_movement e t u ty a c n oid d)"
  by (auto simp: drawer_movement_def fresh_def split: option.split)

lemma audit_frame [simp]:
  "giftCards (audit t u a en i d) = giftCards d" "giftTxns (audit t u a en i d) = giftTxns d" "seq (audit t u a en i d) = seq d"
  by (simp_all add: audit_def)

text \<open>Opening a card with its first ledger entry, whatever else the operation writes after it.\<close>

lemma gift_inv_open:
  assumes "gift_ok d" and drawn: "cards_drawn src d" and src: "inj src"
    and c: "create_card c (d\<lparr>seq := seq d + 1\<rparr>) = Inr d2" "gc_id c = src (seq d)" "card_ok c"
    and t: "gt_giftCardId t = gc_id c" "gc_balance c = gt_amount t"
    and d': "giftCards d' = giftCards d2" "giftTxns d' = giftTxns d2 @ [t]" "seq d < seq d'"
  shows "gift_ok d' \<and> cards_drawn src d'"
proof -
  from c(1) have n: "card_by_code (gc_tenantId c) (gc_code c) (d\<lparr>seq := seq d + 1\<rparr>) = None"
    and d2: "d2 = giftCards_update (\<lambda>cs. cs @ [c]) (d\<lparr>seq := seq d + 1\<rparr>)"
    by (simp_all add: create_card_def guard_simps)
  have "card_code c \<notin> card_code ` set (giftCards d)"
    using n by (simp add: card_by_code_None) (simp add: card_code_def)
  then have "gift_ok (giftTxns_update (\<lambda>ts. ts @ [t]) (giftCards_update (\<lambda>cs. cs @ [c]) d))"
    using gift_ok_open [OF assms(1) _ _ t c(3)] cards_drawn_fresh [OF src drawn] c(2) by simp
  then have "gift_ok d'" using d' d2 by (subst gift_ok_cong [of _ "giftTxns_update (\<lambda>ts. ts @ [t]) (giftCards_update (\<lambda>cs. cs @ [c]) d)"]) simp_all
  moreover have "cards_drawn src d'" using drawn d' d2 c(2) by (auto simp: cards_drawn_def dest!: subsetD)
  ultimately show ?thesis by blast
qed

lemma card_ok_new: "0 \<le> a \<Longrightarrow> gc_balance c = numeric_col 2 a \<Longrightarrow> gc_status c = ACTIVE \<Longrightarrow> card_ok c"
  by (simp add: card_ok_def numeric_col_nonneg)

lemma issue_inv:
  assumes "gift_ok d" "cards_drawn (e_cuid e) d" "inj (e_cuid e)" "0 \<le> ii_amount input"
    and run: "issue e draws user outletId input d = Inr d'"
  shows "gift_ok d' \<and> cards_drawn (e_cuid e) d'"
proof -
  let ?c = "\<lparr> gc_id = e_cuid e (seq d), gc_tenantId = u_tenantId user, gc_issuedOutletId = outletId,
      gc_code = newGiftCode ''GC'' draws, gc_kind = GiftCard, gc_initialValue = numeric_col 2 (ii_amount input),
      gc_balance = numeric_col 2 (ii_amount input), gc_expiresOn = ii_expiresOn input, gc_status = ACTIVE,
      gc_customerName = ii_customerName input, gc_customerPhone = ii_customerPhone input, gc_note = ii_note input,
      gc_issuedById = Some (u_id user), gc_voidedAt = None, gc_voidReason = None \<rparr>"
  let ?t = "gift_txn (u_tenantId user) (e_cuid e (seq d)) outletId TxnIssue (ii_amount input) (ii_amount input) None
      (Some (ii_paymentMode input)) (Some (u_id user)) (ii_note input)"
  let ?m = "\<lambda>d3. if ii_paymentMode input = ''CASH''
      then drawer_movement e (u_tenantId user) outletId PAY_IN (ii_amount input) (Some ''GIFT_CARD_SALE'')
             (Some (''Gift card '' @ formatGiftCode (newGiftCode ''GC'' draws))) None d3 else d3"
  from run obtain d2 where c: "create_card ?c (d\<lparr>seq := seq d + 1\<rparr>) = Inr d2"
    and d': "d' = audit (u_tenantId user) (Some (u_id user)) ''GIFT_CARD_ISSUED'' ''gift_card'' (e_cuid e (seq d))
        (?m (giftTxns_update (\<lambda>ts. ts @ [?t]) d2))"
    unfolding issue_def Let_def fresh_def prod.case guard_simps sum.inject by metis
  define d4 where "d4 = ?m (giftTxns_update (\<lambda>ts. ts @ [?t]) d2)"
  have "seq d2 = seq d + 1" using c by (auto simp: create_card_def guard_simps)
  moreover have "giftCards d4 = giftCards d2" "giftTxns d4 = giftTxns d2 @ [?t]" "seq d2 \<le> seq d4"
    unfolding d4_def using drawer_movement_frame(3) [of "giftTxns_update (\<lambda>ts. ts @ [?t]) d2" e "u_tenantId user" outletId PAY_IN "ii_amount input"]
    by auto
  ultimately show ?thesis
    by (intro gift_inv_open [OF assms(1-3) c, where t = ?t])
      (use assms(4) d' in \<open>simp_all add: card_ok_new gift_txn_def flip: d4_def\<close>)
qed

lemma credit_inv:
  assumes "gift_ok d" "cards_drawn (e_cuid e) d" "inj (e_cuid e)" "0 \<le> amount"
    and run: "issueStoreCreditTx e draws tenantId outletId amount orderId userId note phone name d = Inr (code, d')"
  shows "gift_ok d' \<and> cards_drawn (e_cuid e) d'"
proof -
  let ?c = "\<lparr> gc_id = e_cuid e (seq d), gc_tenantId = tenantId, gc_issuedOutletId = outletId,
      gc_code = newGiftCode ''SC'' draws, gc_kind = StoreCredit, gc_initialValue = numeric_col 2 amount,
      gc_balance = numeric_col 2 amount, gc_expiresOn = None, gc_status = ACTIVE, gc_customerName = name,
      gc_customerPhone = phone, gc_note = note, gc_issuedById = userId, gc_voidedAt = None, gc_voidReason = None \<rparr>"
  let ?t = "gift_txn tenantId (e_cuid e (seq d)) outletId TxnStoreCredit amount amount orderId None userId
      (Some (or_else note ''Refund to store credit''))"
  from run obtain d2 where c: "create_card ?c (d\<lparr>seq := seq d + 1\<rparr>) = Inr d2" and d': "d' = giftTxns_update (\<lambda>ts. ts @ [?t]) d2"
    unfolding issueStoreCreditTx_def Let_def fresh_def prod.case guard_simps sum.inject prod.inject by metis
  moreover have "seq d2 = seq d + 1" using c by (auto simp: create_card_def guard_simps)
  ultimately show ?thesis
    by (intro gift_inv_open [OF assms(1-3) c, where t = ?t]) (use assms(4) in \<open>simp_all add: card_ok_new gift_txn_def\<close>)
qed

lemma void_inv:
  assumes ok: "gift_ok d" and run: "voidCard e user cardId reason d = Inr d'"
  shows "gift_ok d' \<and> balance_sum d' \<le> balance_sum d"
proof -
  let ?f = "\<lambda>c. c\<lparr>gc_status := VOID, gc_balance := 0, gc_voidedAt := Some (e_now e), gc_voidReason := Some reason\<rparr>"
  from run obtain c where f: "List.find (\<lambda>c. gc_id c = cardId \<and> gc_tenantId c = u_tenantId user) (giftCards d) = Some c"
    and d': "d' = audit (u_tenantId user) (Some (u_id user)) ''GIFT_CARD_VOIDED'' ''gift_card'' cardId
        (giftTxns_update (\<lambda>ts. ts @ [gift_txn (u_tenantId user) cardId (gc_issuedOutletId c) TxnVoid
             (- gc_balance c) 0 None None (Some (u_id user)) (Some reason)])
          (giftCards_update (set_row gc_id cardId ?f) d))"
    unfolding voidCard_def guard_simps sum.inject by (elim exE conjE) (rule that, assumption, rule sym, assumption)
  have c: "c \<in> set (giftCards d)" "gc_id c = cardId" using find_SomeD [OF f] by auto
  have ck: "paise_exact (gc_balance c)" "0 \<le> gc_balance c" using ok c by (simp_all add: gift_ok_def card_ok_def)
  then have n: "numeric_col 2 (- gc_balance c) = - gc_balance c" by (simp add: numeric_col_exact decimals_minus)
  let ?t = "gift_txn (u_tenantId user) cardId (gc_issuedOutletId c) TxnVoid (- gc_balance c) 0 None None (Some (u_id user)) (Some reason)"
  let ?d = "giftTxns_update (\<lambda>ts. ts @ [?t]) (giftCards_update (set_row gc_id cardId ?f) d)"
  have "gift_ok ?d" "balance_sum ?d = balance_sum d + gt_amount ?t"
    using gift_ok_post [OF ok c(1), of ?f ?t] c(2) n by (simp_all add: gift_txn_def card_code_def card_ok_def)
  moreover have "gift_ok d' = gift_ok ?d" "balance_sum d' = balance_sum ?d"
    unfolding d' balance_sum_def by (intro gift_ok_cong; simp)+ simp
  ultimately show ?thesis using ck(2) n by (simp add: gift_txn_def)
qed

lemma gift_reach_inv:
  assumes "gift_reach src d" and "inj src" shows "gift_ok d \<and> cards_drawn src d"
  using assms
proof (induction rule: gift_reach.induct)
  case (start d)
  then show ?case by (simp add: gift_ok_def ledger_balanced_def cards_drawn_def)
next
  case (issue d e input draws user outletId d')
  then show ?case using issue_inv [of d e input draws user outletId d'] by auto
next
  case (credit d e amount draws tenantId outletId orderId userId memo phone name code d')
  then show ?case using credit_inv [of d e amount draws tenantId outletId orderId userId memo phone name code d'] by auto
next
  case (redeem d pays e tenantId outletId orderId userId d')
  from redeem_frame [OF redeem.hyps(3)] have "map gc_id (giftCards d') = map gc_id (giftCards d)" "seq d' = seq d" by auto
  then have "gc_id ` set (giftCards d') = gc_id ` set (giftCards d)" by (metis list.set_map)
  with \<open>seq d' = seq d\<close> show ?case
    using redeem redeem_ok [of d pays e tenantId outletId orderId userId d'] by (simp add: cards_drawn_def)
next
  case (void d e user cardId reason d')
  from void.hyps(2) have "map gc_id (giftCards d') = map gc_id (giftCards d)" "seq d' = seq d"
    by (auto simp: voidCard_def guard_simps map_key_set_row)
  then have "gc_id ` set (giftCards d') = gc_id ` set (giftCards d) \<and> seq d' = seq d" by (metis list.set_map)
  then show ?case using void void_inv [of d e user cardId reason d'] by (simp add: cards_drawn_def)
next
  case (other d d')
  then show ?case using gift_ok_cong [of d' d] by (auto simp: cards_drawn_def dest!: subsetD)
qed

text \<open>C11. In every reachable state each card's balance is the sum of its ledger entries, a whole number of paise
  and not negative; a void card holds nothing; and no two cards of a tenant share a code.\<close>

theorem gift_cards_balanced:
  assumes "gift_reach src d" and "inj src" and "c \<in> set (giftCards d)"
  shows "gc_balance c = entry_sum gt_giftCardId gt_amount (gc_id c) (giftTxns d)
    \<and> 0 \<le> gc_balance c \<and> paise_exact (gc_balance c) \<and> (gc_status c = VOID \<longrightarrow> gc_balance c = 0)
    \<and> (\<forall>c' \<in> set (giftCards d). gc_tenantId c' = gc_tenantId c \<and> gc_code c' = gc_code c \<longrightarrow> c' = c)"
proof -
  have ok: "gift_ok d" using gift_reach_inv assms by blast
  then have "inj_on card_code (set (giftCards d))" by (simp add: gift_ok_def distinct_map)
  then have "c' = c" if "c' \<in> set (giftCards d)" "gc_tenantId c' = gc_tenantId c \<and> gc_code c' = gc_code c" for c'
    using inj_onD [of card_code _ c' c] that assms(3) by (simp add: card_code_def)
  then show ?thesis using ok assms(3) unfolding gift_ok_def card_ok_def ledger_balanced_def by blast
qed

section \<open>A concrete run\<close>

definition gift0 :: db where
  "gift0 = db0\<lparr> seq := 1,
     giftCards := [\<lparr> gc_id = [], gc_tenantId = ''t'', gc_issuedOutletId = ''k'', gc_code = ''GC22'', gc_kind = GiftCard,
       gc_initialValue = 500, gc_balance = 500, gc_expiresOn = None, gc_status = ACTIVE, gc_customerName = None,
       gc_customerPhone = None, gc_note = None, gc_issuedById = None, gc_voidedAt = None, gc_voidReason = None \<rparr>],
     giftTxns := [gift_txn ''t'' [] ''k'' TxnIssue 500 500 None None None None] \<rparr>"

lemma gift0_ok: "gift_ok gift0"
  by (simp add: gift_ok_def gift0_def ledger_balanced_def card_ok_def gift_txn_def numeric_col_exact
      entry_sum_def)

definition gift1 :: db where
  "gift1 = giftTxns_update (\<lambda>ts. ts @ [gift_txn ''t'' [] ''k'' TxnRedeem (- 150) 350 (Some ''r'') None None None])
     (giftCards_update (set_row gc_id [] (\<lambda>c. c\<lparr>gc_balance := 350\<rparr>)) gift0)"

lemma redeem_gift0:
  "redeemGiftCardsTx env0 ''t'' ''k'' ''r'' None [(''gc-22'', 100), ('' GC22 '', 50)] gift0 = Inr gift1"
proof -
  have "normaliseGiftCode ''gc-22'' = ''GC22''" "normaliseGiftCode '' GC22 '' = ''GC22''" by code_simp+
  then have "by_code [(''gc-22'', 100), ('' GC22 '', 50)] = [(''GC22'', 15000)]"
    by (simp add: by_code_def js_map_add_def)
  then show ?thesis
    by (simp add: redeemGiftCardsTx_def redeem_card_def card_by_code_def gift0_def gift1_def isExpired_def Let_def
        numeric_col_exact)
qed

theorem redeemGiftCardsTx_exact_witness:
  "gift_ok gift1 \<and> balance_sum gift1 = balance_sum gift0 - of_int (\<Sum>p\<leftarrow>[(''gc-22'', 100), ('' GC22 '', 50)]. toPaise (snd p)) / 100"
  by (rule redeemGiftCardsTx_exact [OF gift0_ok _ redeem_gift0]) simp

definition credit0 :: gift_card_row where
  "credit0 = \<lparr> gc_id = [], gc_tenantId = ''t'', gc_issuedOutletId = ''k'', gc_code = ''SC'', gc_kind = StoreCredit,
       gc_initialValue = 500, gc_balance = 500, gc_expiresOn = None, gc_status = ACTIVE, gc_customerName = None,
       gc_customerPhone = None, gc_note = None, gc_issuedById = None, gc_voidedAt = None, gc_voidReason = None \<rparr>"

definition gift2 :: db where
  "gift2 = db0\<lparr> seq := 1, giftCards := [credit0],
     giftTxns := [gift_txn ''t'' [] ''k'' TxnStoreCredit 500 500 None None None (Some ''Refund to store credit'')] \<rparr>"

lemma gift2_reach: "gift_reach (e_cuid env0) gift2"
proof -
  have 1: "gift_reach (e_cuid env0) db0" by (rule gift_reach.start) (simp_all add: db0_def)
  have 2: "issueStoreCreditTx env0 [] ''t'' ''k'' 500 None None None None None db0 = Inr (''SC'', gift2)"
    by (simp add: issueStoreCreditTx_def Let_def fresh_def create_card_def card_by_code_def newGiftCode_def db0_def
        gift2_def credit0_def env0_def numeric_col_exact)
  show ?thesis by (rule gift_reach.credit [OF 1 refl _ 2]) simp
qed

theorem gift_cards_balanced_witness:
  "gc_balance credit0 = entry_sum gt_giftCardId gt_amount [] (giftTxns gift2) \<and> 0 \<le> gc_balance credit0"
proof -
  have "credit0 \<in> set (giftCards gift2)" "inj (e_cuid env0)" by (simp_all add: gift2_def env0_def inj_unary)
  moreover have "gc_id credit0 = []" by (simp add: credit0_def)
  ultimately show ?thesis using gift_cards_balanced [OF gift2_reach, of credit0] by simp
qed

end
