(* ===== verification/Loyalty.thy ===== *)
theory Loyalty
  imports Billing_Rules
begin

text \<open>
  One-time passwords for point redemption (\<open>apps/api/src/loyalty/loyalty-otp.service.ts\<close>). The six random
  digits are an argument; the delivery of the message is outside the model.
\<close>

definition OTP_TTL_MS :: int where
  "OTP_TTL_MS = 5 * 60 * 1000"

record otp_reply =
  or_sent :: bool
  or_points :: int
  or_expiresInSec :: num

definition requestOtp :: "env \<Rightarrow> string \<Rightarrow> auth_user \<Rightarrow> id \<Rightarrow> string \<Rightarrow> db \<Rightarrow> (otp_reply \<times> db) result" where
  "requestOtp e code user outletId phone d =
    ebind (assertOutlet user outletId) (\<lambda>_.
    ebind (some_or (List.find (\<lambda>c. cu_outletId c = outletId \<and> cu_phone c = phone) (customers d))
             (BadRequest [Txt ''No loyalty account for this phone''])) (\<lambda>customer.
    ebind (require (\<not> cu_loyaltyPoints customer \<le> 0) (BadRequest [Txt ''No points to redeem''])) (\<lambda>_.
      case fresh e d of (otpId, d1) \<Rightarrow>
      Inr (\<lparr> or_sent = True, or_points = cu_loyaltyPoints customer, or_expiresInSec = of_int OTP_TTL_MS / 1000 \<rparr>,
           otps_update (\<lambda>os. os @ [\<lparr> otp_id = otpId, otp_tenantId = u_tenantId user, otp_outletId = outletId,
             otp_phone = phone, otp_code = code, otp_expiresAt = e_now e + OTP_TTL_MS, otp_consumedAt = None,
             otp_createdAt = e_now e \<rparr>]) d1))))"

text \<open>\<open>findFirst\<close> ordered by \<open>createdAt\<close> descending over the unconsumed, unexpired codes of the phone.\<close>

definition otp_live :: "env \<Rightarrow> id \<Rightarrow> string \<Rightarrow> otp_row \<Rightarrow> bool" where
  "otp_live e outletId phone r \<longleftrightarrow>
     otp_outletId r = outletId \<and> otp_phone r = phone \<and> otp_consumedAt r = None \<and> otp_expiresAt r > e_now e"

definition latest_otp :: "env \<Rightarrow> id \<Rightarrow> string \<Rightarrow> db \<Rightarrow> otp_row option" where
  "latest_otp e outletId phone d =
    (case sort_key (\<lambda>r. - otp_createdAt r) (filter (otp_live e outletId phone) (otps d)) of [] \<Rightarrow> None | r # _ \<Rightarrow> Some r)"

definition verifyAndConsume :: "env \<Rightarrow> id \<Rightarrow> string \<Rightarrow> string option \<Rightarrow> db \<Rightarrow> db result" where
  "verifyAndConsume e outletId phone code d =
    ebind (require (truthy code) (BadRequest [Txt ''An OTP is required to redeem points''])) (\<lambda>_.
    ebind (some_or (latest_otp e outletId phone d) (BadRequest [Txt ''No valid OTP - request a new one''])) (\<lambda>otp.
    ebind (require (otp_code otp = trim (the code)) (BadRequest [Txt ''Incorrect OTP''])) (\<lambda>_.
      Inr (otps_update (set_row otp_id (otp_id otp) (\<lambda>r. r\<lparr>otp_consumedAt := Some (e_now e)\<rparr>)) d))))"

section \<open>A code is spent once\<close>

interpretation ot: table "otps :: db \<Rightarrow> _" otps_update otp_id
  by unfold_locales simp_all

lemma latest_otp_Some:
  assumes "latest_otp e outletId phone d = Some r"
  shows "r \<in> set (otps d) \<and> otp_live e outletId phone r
    \<and> (\<forall>s \<in> set (otps d). otp_live e outletId phone s \<longrightarrow> otp_createdAt s \<le> otp_createdAt r)"
proof -
  let ?l = "sort_key (\<lambda>r. - otp_createdAt r) (filter (otp_live e outletId phone) (otps d))"
  obtain rs where l: "?l = r # rs" using assms by (auto simp: latest_otp_def split: list.splits)
  have "sorted (map (\<lambda>r. - otp_createdAt r) ?l)" by simp
  then have "\<forall>s \<in> set ?l. otp_createdAt s \<le> otp_createdAt r" unfolding l by auto
  moreover have "set ?l = set (filter (otp_live e outletId phone) (otps d))" by simp
  moreover have "r \<in> set ?l" unfolding l by simp
  ultimately show ?thesis by auto
qed

lemma verifyAndConsume_frame: "verifyAndConsume e outletId phone code d = Inr d' \<Longrightarrow> \<exists>os. d' = d\<lparr>otps := os\<rparr>"
proof -
  assume "verifyAndConsume e outletId phone code d = Inr d'"
  then obtain f where "d' = otps_update f d"
    unfolding verifyAndConsume_def guard_simps sum.inject by (elim exE conjE) (erule that [OF sym])
  then show ?thesis by (intro exI [of _ "f (otps d)"]) simp
qed

text \<open>C24. A verified redemption consumes exactly one code: the newest live code of the phone, which matches
  what was typed; it was unexpired and unconsumed, it is consumed afterwards, no other code changes, and so the
  number of live codes of the phone drops by one.\<close>

theorem verifyAndConsume_single_use:
  assumes "verifyAndConsume e outletId phone code d = Inr d'" and "distinct (map otp_id (otps d))"
  shows "\<exists>r \<in> set (otps d). otp_live e outletId phone r \<and> code \<noteq> None \<and> otp_code r = trim (the code)
    \<and> (\<forall>s \<in> set (otps d). otp_live e outletId phone s \<longrightarrow> otp_createdAt s \<le> otp_createdAt r)
    \<and> row_by otp_id (otp_id r) (otps d') = Some (r\<lparr>otp_consumedAt := Some (e_now e)\<rparr>)
    \<and> (\<forall>i. i \<noteq> otp_id r \<longrightarrow> row_by otp_id i (otps d') = row_by otp_id i (otps d))
    \<and> length (filter (otp_live e outletId phone) (otps d')) + 1 = length (filter (otp_live e outletId phone) (otps d))"
proof -
  let ?f = "\<lambda>r. r\<lparr>otp_consumedAt := Some (e_now e)\<rparr>" and ?P = "otp_live e outletId phone"
  from assms(1) obtain r where l: "latest_otp e outletId phone d = Some r" and c: "truthy code" "otp_code r = trim (the code)"
    and d': "d' = otps_update (set_row otp_id (otp_id r) ?f) d"
    unfolding verifyAndConsume_def guard_simps sum.inject by metis
  note r = latest_otp_Some [OF l]
  have row: "row_by otp_id (otp_id r) (otps d) = Some r" using ot.row_by_member assms(2) r by blast
  have look: "row_by otp_id i (otps d') = (if i = otp_id r then map_option ?f (row_by otp_id i (otps d)) else row_by otp_id i (otps d))" for i
    unfolding d' by (rule ot.lookup_set_row) simp
  have "int (length (filter ?P xs)) = (\<Sum>s\<leftarrow>xs. if ?P s then 1 else 0)" for xs
    by (induction xs) auto
  then have "int (length (filter ?P (otps d'))) = int (length (filter ?P (otps d))) - 1"
    using sum_list_set_row [OF assms(2) row, of "\<lambda>s. if ?P s then 1 else 0" ?f] r by (simp add: d' otp_live_def)
  moreover have "code \<noteq> None" using c(1) by (cases code) auto
  ultimately show ?thesis using r c look row by (intro bexI [of _ r]) auto
qed

definition otp0 :: otp_row where
  "otp0 = \<lparr> otp_id = ''p'', otp_tenantId = ''t'', otp_outletId = ''k'', otp_phone = ''98'', otp_code = ''123456'',
     otp_expiresAt = e_now env0 + 1, otp_consumedAt = None, otp_createdAt = 0 \<rparr>"

theorem verifyAndConsume_single_use_witness:
  "\<exists>d'. verifyAndConsume env0 ''k'' ''98'' (Some ''123456'') (db0\<lparr>otps := [otp0]\<rparr>) = Inr d'
    \<and> length (filter (otp_live env0 ''k'' ''98'') (otps d')) + 1
        = length (filter (otp_live env0 ''k'' ''98'') (otps (db0\<lparr>otps := [otp0]\<rparr>)))"
proof -
  have "trim ''123456'' = ''123456''" by code_simp
  then obtain d' where d': "verifyAndConsume env0 ''k'' ''98'' (Some ''123456'') (db0\<lparr>otps := [otp0]\<rparr>) = Inr d'"
    by (auto simp: verifyAndConsume_def latest_otp_def otp_live_def otp0_def guard_simps)
  have "distinct (map otp_id (otps (db0\<lparr>otps := [otp0]\<rparr>)))" by simp
  from verifyAndConsume_single_use [OF d' this] d' show ?thesis by blast
qed

end
