(* ===== verification/Orders.thy ===== *)
theory Orders
  imports Punch Gift_Cards Loyalty
begin

text \<open>
  The order life cycle of \<open>apps/api/src/orders/orders.service.ts\<close>: opening an order at a table, adding
  items, the bill, settlement with discounts, gift cards, loyalty points and the drawer, cancellation,
  and the ingestion of aggregator, scan-and-order and offline orders. An operation runs in one
  transaction: an exception (\<open>Inl\<close>) leaves the database as it was, and the row locks order the
  transactions that touch the same rows. Realtime notifications and events are sent after the commit
  and are not part of the state.
\<close>

section \<open>Reading and locking orders\<close>

definition requireOrder :: "auth_user \<Rightarrow> id \<Rightarrow> db \<Rightarrow> order_row result" where
  "requireOrder user orderId d =
    ebind (some_or (row_by o_id orderId (orders d)) (NotFound [Txt ''Order not found''])) (\<lambda>order.
    ebind (require (o_tenantId order = u_tenantId user) (NotFound [Txt ''Order not found''])) (\<lambda>_.
    ebind (assertOutlet user (o_outletId order)) (\<lambda>_. Inr order)))"

definition lockOpenOrder :: "auth_user \<Rightarrow> id \<Rightarrow> db \<Rightarrow> order_row result" where
  "lockOpenOrder user orderId d =
    ebind (some_or (List.find (\<lambda>r. o_id r = orderId \<and> o_tenantId r = u_tenantId user) (orders d))
             (NotFound [Txt ''Order not found''])) (\<lambda>order.
    ebind (assertOutlet user (o_outletId order)) (\<lambda>_.
    ebind (require (o_status order = OPEN) (BadRequest [Txt ''Order is not open''])) (\<lambda>_. Inr order)))"

definition lockTable :: "id \<Rightarrow> id \<Rightarrow> id \<Rightarrow> db \<Rightarrow> unit result" where
  "lockTable tenantId outletId tableId d =
     require (\<exists>t \<in> set (diningTables d). dt_id t = tableId \<and> dt_tenantId t = tenantId \<and> dt_outletId t = outletId)
       (BadRequest [Txt ''Table not found in this outlet''])"

text \<open>The truthiness of a nullable count.\<close>

definition nonzero :: "int option \<Rightarrow> bool" where
  "nonzero n = (case n of None \<Rightarrow> False | Some k \<Rightarrow> k \<noteq> 0)"

definition assertNotSplit :: "order_row \<Rightarrow> string \<Rightarrow> unit result" where
  "assertNotSplit order action =
    ebind (require (\<not> nonzero (o_splitCount order))
             (BadRequest [Txt (''This bill is split into checks - unsplit it to '' @ action)])) (\<lambda>_.
      require (\<not> truthy (o_parentOrderId order))
        (BadRequest [Txt (''This is a split check - unsplit the parent bill to '' @ action)]))"

definition open_on_table :: "id \<Rightarrow> id \<Rightarrow> id \<Rightarrow> db \<Rightarrow> order_row option" where
  "open_on_table tenantId outletId tableId d =
     List.find (\<lambda>r. o_tenantId r = tenantId \<and> o_outletId r = outletId \<and> o_tableId r = Some tableId \<and> o_status r = OPEN) (orders d)"

section \<open>The bill of an order\<close>

definition order_lines :: "id \<Rightarrow> db \<Rightarrow> money_line list" where
  "order_lines orderId d =
     map (\<lambda>i. \<lparr> ml_lineTotalPaise = toPaise (oi_lineTotal i), ml_taxRatePercent = oi_taxRate i \<rparr>)
       (filter (\<lambda>i. oi_orderId i = orderId) (orderItems d))"

definition billFor :: "id \<Rightarrow> num \<Rightarrow> bool \<Rightarrow> db \<Rightarrow> (bill_totals \<times> service_charge option) result" where
  "billFor orderId discount plain d =
    ebind (some_or (row_by o_id orderId (orders d)) RowMissing) (\<lambda>order.
      let rules = (if plain then None else Some (loadBillingRules (o_tenantId order) (o_outletId order) d));
          sc = (case rules of None \<Rightarrow> None | Some r \<Rightarrow> serviceChargeFor r order)
      in Inr (computeBill (order_lines orderId d)
                \<lparr> bo_discountRupees = discount, bo_serviceCharge = sc,
                  bo_roundOff = (case rules of None \<Rightarrow> False | Some r \<Rightarrow> br_roundOffEnabled r) \<rparr>, sc))"

definition write_totals :: "bill_totals \<Rightarrow> service_charge option \<Rightarrow> order_row \<Rightarrow> order_row" where
  "write_totals totals sc r = r\<lparr>
     o_subtotal := numeric_col 2 (ot_subtotal totals), o_discountAmount := numeric_col 2 (ot_discountAmount totals),
     o_serviceChargeAmount := numeric_col 2 (bt_serviceChargeAmount totals),
     o_serviceChargeRate := numeric_col 2 (case sc of None \<Rightarrow> 0 | Some c \<Rightarrow> sc_percent c),
     o_serviceChargeTaxable := (case sc of None \<Rightarrow> False | Some c \<Rightarrow> sc_taxable c),
     o_taxAmount := numeric_col 2 (ot_taxAmount totals), o_roundOff := numeric_col 2 (bt_roundOff totals),
     o_total := numeric_col 2 (ot_total totals), o_version := o_version r + 1 \<rparr>"

text \<open>Returns the updated row, as \<open>order.update\<close> does.\<close>

definition recomputeTotals :: "id \<Rightarrow> num option \<Rightarrow> bool \<Rightarrow> db \<Rightarrow> (order_row \<times> db) result" where
  "recomputeTotals orderId discount plain d =
    ebind (some_or (row_by o_id orderId (orders d)) RowMissing) (\<lambda>row.
    ebind (billFor orderId (or_else discount (o_allocatedDiscount row)) plain d) (\<lambda>(totals, sc).
      Inr (write_totals totals sc row, orders_update (set_row o_id orderId (write_totals totals sc)) d)))"

section \<open>Opening and changing orders\<close>

text \<open>\<open>order.create\<close>, with the columns the statement leaves at their defaults; the pair of device and
  client id is unique where both are set.\<close>

definition blank_order :: "id \<Rightarrow> id \<Rightarrow> id \<Rightarrow> order_type \<Rightarrow> order_row" where
  "blank_order orderId tenantId outletId type =
     \<lparr> o_id = orderId, o_tenantId = tenantId, o_outletId = outletId, o_billNumber = None, o_orderType = type, o_status = OPEN,
       o_tableId = None, o_customerName = None, o_customerPhone = None, o_customerId = None, o_couponCode = None,
       o_deviceId = None, o_clientId = None, o_offlineRef = None, o_subtotal = 0, o_discountAmount = 0, o_taxAmount = 0,
       o_total = 0, o_version = 1, o_createdById = None, o_serviceChargeAmount = 0, o_serviceChargeRate = 0,
       o_serviceChargeTaxable = False, o_serviceChargeWaived = False, o_serviceChargeWaivedReason = None, o_roundOff = 0,
       o_allocatedDiscount = 0, o_parentOrderId = None, o_splitIndex = None, o_splitCount = None, o_mergedIntoOrderId = None \<rparr>"

definition create_order :: "env \<Rightarrow> (id \<Rightarrow> order_row) \<Rightarrow> db \<Rightarrow> (id \<times> db) result" where
  "create_order e mk d = (case fresh e d of (orderId, d1) \<Rightarrow>
    ebind (require (\<not> (\<exists>r \<in> set (orders d). o_deviceId r \<noteq> None \<and> o_clientId r \<noteq> None
               \<and> o_deviceId r = o_deviceId (mk orderId) \<and> o_clientId r = o_clientId (mk orderId))) UniqueViolation) (\<lambda>_.
      Inr (orderId, orders_update (\<lambda>os. os @ [mk orderId]) d1)))"

record create_input =
  no_outletId :: id
  no_orderType :: order_type
  no_tableId :: "id option"
  no_customerName :: "string option"
  no_customerPhone :: "string option"
  no_items :: "order_line_input list"
  no_combos :: "combo_input list"

text \<open>A dine-in order needs a free table of the outlet.\<close>

definition claim_table :: "id \<Rightarrow> id \<Rightarrow> id option \<Rightarrow> db \<Rightarrow> unit result" where
  "claim_table tenantId outletId tableId d =
    ebind (require (truthy tableId) (BadRequest [Txt ''Dine-in orders need a table''])) (\<lambda>_.
    ebind (lockTable tenantId outletId (the tableId) d) (\<lambda>_.
      require (open_on_table tenantId outletId (the tableId) d = None) (BadRequest [Txt ''Table already has an open order''])))"

definition pos_options :: "order_type \<Rightarrow> punch_options" where
  "pos_options type = \<lparr> po_source = SourcePOS type, po_offline = False, po_at = None \<rparr>"

definition user_actor :: "auth_user \<Rightarrow> punch_actor" where
  "user_actor user = \<lparr> ac_tenantId = u_tenantId user, ac_id = Some (u_id user) \<rparr>"

definition create :: "env \<Rightarrow> auth_user \<Rightarrow> create_input \<Rightarrow> db \<Rightarrow> (id \<times> db) result" where
  "create e user input d =
    ebind (assertOutlet user (no_outletId input)) (\<lambda>_.
    ebind (if no_orderType input = DINE_IN then claim_table (u_tenantId user) (no_outletId input) (no_tableId input) d else Inr ()) (\<lambda>_.
    ebind (create_order e (\<lambda>i. (blank_order i (u_tenantId user) (no_outletId input) (no_orderType input))
             \<lparr> o_tableId := (if no_orderType input = DINE_IN then no_tableId input else None),
               o_customerName := no_customerName input, o_customerPhone := no_customerPhone input,
               o_createdById := Some (u_id user) \<rparr>) d) (\<lambda>(orderId, d1).
    ebind (punchItems e (user_actor user) orderId (no_outletId input) (no_items input) (no_combos input)
             (pos_options (no_orderType input)) d1) (\<lambda>(_, d2).
    ebind (recomputeTotals orderId None False d2) (\<lambda>(_, d3).
      Inr (orderId, audit (u_tenantId user) (Some (u_id user)) ''ORDER_CREATED'' ''order'' orderId d3))))))"

definition addItems :: "env \<Rightarrow> auth_user \<Rightarrow> id \<Rightarrow> order_line_input list \<Rightarrow> combo_input list \<Rightarrow> db \<Rightarrow> db result" where
  "addItems e user orderId inputs comboInputs d =
    ebind (requireOrder user orderId d) (\<lambda>order.
    ebind (lockOpenOrder user orderId d) (\<lambda>locked.
    ebind (assertNotSplit locked ''add items'') (\<lambda>_.
    ebind (punchItems e (user_actor user) (o_id order) (o_outletId order) inputs comboInputs
             (pos_options (o_orderType order)) d) (\<lambda>(_, d1).
    ebind (recomputeTotals (o_id order) None False d1) (\<lambda>(_, d2). Inr d2)))))"

definition cancel :: "auth_user \<Rightarrow> id \<Rightarrow> db \<Rightarrow> db result" where
  "cancel user orderId d =
    ebind (lockOpenOrder user orderId d) (\<lambda>order.
    ebind (assertNotSplit order ''void it'') (\<lambda>_.
      Inr (audit (u_tenantId user) (Some (u_id user)) ''ORDER_CANCELLED'' ''order'' (o_id order)
        (orders_update (set_row o_id (o_id order) (\<lambda>r. r\<lparr>o_status := CANCELLED, o_version := o_version r + 1\<rparr>)) d))))"

definition first_kot :: "id \<Rightarrow> db \<Rightarrow> int" where
  "first_kot orderId d = (case sort (map k_kotNumber (filter (\<lambda>k. k_orderId k = orderId) (kots d))) of [] \<Rightarrow> 0 | n # _ \<Rightarrow> n)"

definition last_kot :: "id \<Rightarrow> db \<Rightarrow> int" where
  "last_kot orderId d = (case rev (sort (map k_kotNumber (filter (\<lambda>k. k_orderId k = orderId) (kots d)))) of [] \<Rightarrow> 0 | n # _ \<Rightarrow> n)"

record ingest_reply =
  ir_orderId :: id
  ir_kotNumber :: int
  ir_total :: num

definition ingestAggregatorOrderTx ::
  "env \<Rightarrow> id \<Rightarrow> id \<Rightarrow> order_line_input list \<Rightarrow> string option \<Rightarrow> string option \<Rightarrow> string option \<Rightarrow> db \<Rightarrow> (ingest_reply \<times> db) result" where
  "ingestAggregatorOrderTx e tenantId outletId inputs customerName customerPhone channelName d =
    ebind (require (inputs \<noteq> []) (BadRequest [Txt ''No mappable items in order''])) (\<lambda>_.
    ebind (create_order e (\<lambda>i. (blank_order i tenantId outletId DELIVERY)
             \<lparr> o_customerName := customerName, o_customerPhone := customerPhone \<rparr>) d) (\<lambda>(orderId, d1).
    ebind (punchItems e \<lparr> ac_tenantId = tenantId, ac_id = None \<rparr> orderId outletId inputs []
             \<lparr> po_source = SourceAGGREGATOR channelName, po_offline = False, po_at = None \<rparr> d1) (\<lambda>(_, d2).
    ebind (recomputeTotals orderId None False d2) (\<lambda>(row, d3).
      Inr (\<lparr> ir_orderId = orderId, ir_kotNumber = first_kot orderId d3, ir_total = o_total row \<rparr>, d3)))))"

text \<open>A scan-and-order request joins the running order of its table, or opens one.\<close>

definition ingestScanOrder ::
  "env \<Rightarrow> id \<Rightarrow> id \<Rightarrow> bool \<Rightarrow> id option \<Rightarrow> order_line_input list \<Rightarrow> combo_input list \<Rightarrow> string option \<Rightarrow> string option
    \<Rightarrow> db \<Rightarrow> (ingest_reply \<times> db) result" where
  "ingestScanOrder e tenantId outletId dineIn tableId inputs comboInputs customerName customerPhone d =
    ebind (require (\<not> (inputs = [] \<and> comboInputs = [])) (BadRequest [Txt ''No items in request''])) (\<lambda>_.
    ebind (if dineIn
           then ebind (require (truthy tableId) (BadRequest [Txt ''Dine-in orders need a table'']))
                  (\<lambda>_. lockTable tenantId outletId (the tableId) d)
           else Inr ()) (\<lambda>_.
      let running = (if dineIn then open_on_table tenantId outletId (the tableId) d else None)
      in ebind (case running of
             Some order \<Rightarrow> ebind (require (\<not> nonzero (o_splitCount order))
                 (BadRequest [Txt ''This table's bill is being split; ask staff to finish billing first''])) (\<lambda>_. Inr (o_id order, d))
           | None \<Rightarrow> create_order e (\<lambda>i. (blank_order i tenantId outletId (if dineIn then DINE_IN else TAKEAWAY))
                 \<lparr> o_tableId := (if dineIn then tableId else None), o_customerName := customerName,
                   o_customerPhone := customerPhone \<rparr>) d) (\<lambda>(orderId, d1).
         ebind (punchItems e \<lparr> ac_tenantId = tenantId, ac_id = None \<rparr> orderId outletId inputs comboInputs
                  \<lparr> po_source = SourceSCAN dineIn, po_offline = False, po_at = None \<rparr> d1) (\<lambda>(_, d2).
         ebind (recomputeTotals orderId None False d2) (\<lambda>(row, d3).
           Inr (\<lparr> ir_orderId = orderId, ir_kotNumber = last_kot orderId d3, ir_total = o_total row \<rparr>, d3))))))"

section \<open>Settlement\<close>

record payment_input =
  pay_mode :: payment_mode
  pay_amount :: num
  pay_giftCardCode :: "string option"

record settle_input =
  si_payments :: "payment_input list"
  si_discountAmount :: "num option"
  si_couponCode :: "string option"
  si_redeemPoints :: "int option"
  si_redeemOtp :: "string option"
  si_customerPhone :: "string option"
  si_customerName :: "string option"

record discounts =
  ds_coupon :: "coupon_row option"
  ds_couponDiscount :: num
  ds_redeemPoints :: int
  ds_redeemDiscount :: num
  ds_totalDiscount :: num

definition resolve_coupon :: "env \<Rightarrow> order_row \<Rightarrow> string option \<Rightarrow> db \<Rightarrow> (coupon_row option \<times> num) result" where
  "resolve_coupon e order couponCode d =
    (if truthy couponCode
     then let c = List.find (\<lambda>c. cp_outletId c = o_outletId order \<and> cp_code c = map upper (the couponCode)) (coupons d);
              ev = evaluateCoupon (map_option cp_rule c) (o_subtotal order) (e_now e)
          in ebind (require (ce_valid ev) (BadRequest (ce_message ev))) (\<lambda>_. Inr (c, ce_discount ev))
     else Inr (None, 0))"

definition resolveDiscounts :: "env \<Rightarrow> order_row \<Rightarrow> settle_input \<Rightarrow> num \<Rightarrow> string \<Rightarrow> db \<Rightarrow> discounts result" where
  "resolveDiscounts e order input pointValue phone d =
    ebind (resolve_coupon e order (si_couponCode input) d) (\<lambda>(coupon, couponDiscount).
      let redeemPoints = or_else (si_redeemPoints input) 0
      in ebind (require (\<not> (redeemPoints > 0 \<and> phone = [])) (BadRequest [Txt ''A customer phone is required to redeem points''])) (\<lambda>_.
         let redeemDiscount = (if redeemPoints > 0 then of_int redeemPoints * pointValue else 0)
         in Inr \<lparr> ds_coupon = coupon, ds_couponDiscount = couponDiscount, ds_redeemPoints = redeemPoints,
                  ds_redeemDiscount = redeemDiscount,
                  ds_totalDiscount = min (o_allocatedDiscount order + or_else (si_discountAmount input) 0 + couponDiscount + redeemDiscount)
                                       (o_subtotal order) \<rparr>))"

definition settle_phone :: "settle_input \<Rightarrow> order_row \<Rightarrow> string" where
  "settle_phone input order = trim (or_else (coalesce (si_customerPhone input) (o_customerPhone order)) [])"

definition settle_name :: "settle_input \<Rightarrow> order_row \<Rightarrow> string option" where
  "settle_name input order = coalesce (si_customerName input) (o_customerName order)"

definition paid_paise :: "payment_input list \<Rightarrow> int" where
  "paid_paise ps = (\<Sum>p\<leftarrow>ps. toPaise (pay_amount p))"

definition bill_number :: "int \<Rightarrow> string" where
  "bill_number n = ''B-'' @ int_string n"

text \<open>\<open>outlet.update\<close> with an increment of the bill counter; the number drawn is the one before it.\<close>

definition draw_bill_number :: "id \<Rightarrow> db \<Rightarrow> (string \<times> db) result" where
  "draw_bill_number outletId d =
    ebind (some_or (row_by ou_id outletId (outlets d)) RowMissing) (\<lambda>outlet.
      Inr (bill_number (ou_nextBillNumber outlet),
           outlets_update (set_row ou_id outletId (\<lambda>u. u\<lparr>ou_nextBillNumber := ou_nextBillNumber u + 1\<rparr>)) d))"

definition record_payments :: "id \<Rightarrow> payment_input list \<Rightarrow> db \<Rightarrow> db" where
  "record_payments orderId ps d =
     payments_update (\<lambda>rs. rs @ map (\<lambda>p. \<lparr> p_orderId = orderId, p_mode = pay_mode p, p_amount = numeric_col 2 (pay_amount p) \<rparr>) ps) d"

text \<open>The gift-card tenders of a settlement.\<close>

definition redeem_tenders :: "env \<Rightarrow> auth_user \<Rightarrow> order_row \<Rightarrow> payment_input list \<Rightarrow> db \<Rightarrow> db result" where
  "redeem_tenders e user order ps d =
    (let gift = filter (\<lambda>p. pay_mode p = GIFT_CARD) ps
     in if gift \<noteq> [] then redeemGiftCardsTx e (u_tenantId user) (o_outletId order) (o_id order) (Some (u_id user))
                           (map (\<lambda>p. (the (pay_giftCardCode p), pay_amount p)) gift) d
        else Inr d)"

text \<open>The cash of a settlement goes into the open drawer of the outlet, when there is one.\<close>

definition record_cash :: "env \<Rightarrow> order_row \<Rightarrow> string \<Rightarrow> payment_input list \<Rightarrow> db \<Rightarrow> db" where
  "record_cash e order billNumber ps d =
    (let cashTaken = (\<Sum>p\<leftarrow>filter (\<lambda>p. pay_mode p = CASH) ps. pay_amount p)
     in if cashTaken > 0
        then (case List.find (\<lambda>s. cs_outletId s = o_outletId order \<and> cs_status s = DrawerOpen) (cashSessions d) of
                None \<Rightarrow> d
              | Some session \<Rightarrow> (case fresh e d of (mid, d1) \<Rightarrow>
                  cashMovements_update (\<lambda>ms. ms @ [\<lparr> cm_id = mid, cm_sessionId = cs_id session, cm_type = SALE,
                    cm_amount = numeric_col 2 cashTaken, cm_category = None, cm_note = Some billNumber,
                    cm_orderId = Some (o_id order), cm_createdAt = e_now e \<rparr>]) d1))
        else d)"

text \<open>The conditional decrement: only rows that still hold enough points.\<close>

definition spend_points :: "id \<Rightarrow> string \<Rightarrow> int \<Rightarrow> db \<Rightarrow> db result" where
  "spend_points outletId phone points d =
    (let hit = (\<lambda>c. cu_outletId c = outletId \<and> cu_phone c = phone \<and> cu_loyaltyPoints c \<ge> points)
     in ebind (require (\<exists>c \<in> set (customers d). hit c) (BadRequest [Txt ''Customer does not have enough points to redeem''])) (\<lambda>_.
        Inr (customers_update (update_where hit (\<lambda>c. c\<lparr>cu_loyaltyPoints := cu_loyaltyPoints c - points\<rparr>)) d)))"

text \<open>\<open>customer.upsert\<close> by outlet and phone.\<close>

definition upsert_customer :: "env \<Rightarrow> id \<Rightarrow> id \<Rightarrow> string \<Rightarrow> string option \<Rightarrow> int \<Rightarrow> num \<Rightarrow> db \<Rightarrow> id \<times> db" where
  "upsert_customer e tenantId outletId phone name earned billTotal d =
    (let hit = (\<lambda>c. cu_outletId c = outletId \<and> cu_phone c = phone)
     in case List.find hit (customers d) of
          Some c \<Rightarrow> (cu_id c, customers_update (set_row cu_id (cu_id c) (\<lambda>c. c\<lparr> cu_name := coalesce name (cu_name c),
              cu_loyaltyPoints := cu_loyaltyPoints c + earned, cu_totalOrders := cu_totalOrders c + 1,
              cu_totalSpent := numeric_col 2 (cu_totalSpent c + billTotal), cu_lastVisitAt := Some (e_now e) \<rparr>)) d)
        | None \<Rightarrow> (case fresh e d of (i, d1) \<Rightarrow> (i, customers_update (\<lambda>cs. cs @ [\<lparr> cu_id = i, cu_tenantId = tenantId,
              cu_outletId = outletId, cu_name = name, cu_phone = phone, cu_loyaltyPoints = earned, cu_totalOrders = 1,
              cu_totalSpent = numeric_col 2 billTotal, cu_lastVisitAt = Some (e_now e) \<rparr>]) d1)))"

definition loyalty_entries :: "id \<Rightarrow> id \<Rightarrow> int \<Rightarrow> int \<Rightarrow> loyalty_txn_row list" where
  "loyalty_entries customerId orderId earned redeemPoints =
     (if earned > 0 then [\<lparr> lt_customerId = customerId, lt_type = EARN, lt_points = earned, lt_orderId = Some orderId, lt_note = None \<rparr>] else [])
     @ (if redeemPoints > 0 then [\<lparr> lt_customerId = customerId, lt_type = REDEEM, lt_points = - redeemPoints,
          lt_orderId = Some orderId, lt_note = Some ''Redeemed at billing'' \<rparr>] else [])"

text \<open>Redeem before earning, then earn on the final total with a ledger entry each.\<close>

definition settle_loyalty ::
  "env \<Rightarrow> auth_user \<Rightarrow> order_row \<Rightarrow> outlet_row \<Rightarrow> string \<Rightarrow> string option \<Rightarrow> int \<Rightarrow> num \<Rightarrow> db \<Rightarrow> (id option \<times> db) result" where
  "settle_loyalty e user order outletRow phone name redeemPoints billTotal d =
    ebind (if redeemPoints > 0 then spend_points (o_outletId order) phone redeemPoints d else Inr d) (\<lambda>d1.
      if phone \<noteq> []
      then let earned = js_round (billTotal * ou_loyaltyEarnRate outletRow);
               (customerId, d2) = upsert_customer e (u_tenantId user) (o_outletId order) phone name earned billTotal d1
           in Inr (Some customerId, loyaltyTxns_update (\<lambda>ts. ts @ loyalty_entries customerId (o_id order) earned redeemPoints) d2)
      else Inr (None, d1))"

definition use_coupon :: "coupon_row option \<Rightarrow> db \<Rightarrow> db" where
  "use_coupon coupon d = (case coupon of None \<Rightarrow> d
     | Some c \<Rightarrow> coupons_update (set_row cp_id (cp_id c) (\<lambda>r. r\<lparr>cp_rule := (cp_rule r)\<lparr>cr_usedCount := cr_usedCount (cp_rule r) + 1\<rparr>\<rparr>)) d)"

definition mark_settled :: "string \<Rightarrow> id option \<Rightarrow> string option \<Rightarrow> string \<Rightarrow> string option \<Rightarrow> order_row \<Rightarrow> order_row" where
  "mark_settled billNumber customerId name phone couponCode r = r\<lparr>
     o_status := SETTLED, o_billNumber := Some billNumber, o_customerId := customerId,
     o_customerName := coalesce name (o_customerName r),
     o_customerPhone := (if phone \<noteq> [] then Some phone else o_customerPhone r),
     o_couponCode := couponCode, o_version := o_version r + 1 \<rparr>"

definition closeSplitParentIfDone :: "auth_user \<Rightarrow> id \<Rightarrow> db \<Rightarrow> db result" where
  "closeSplitParentIfDone user parentId d =
    (if \<exists>r \<in> set (orders d). o_tenantId r = u_tenantId user \<and> o_parentOrderId r = Some parentId \<and> o_status r = OPEN then Inr d
     else ebind (some_or (List.find (\<lambda>r. o_id r = parentId \<and> o_tenantId r = u_tenantId user) (orders d)) RowMissing) (\<lambda>parent.
       if o_status parent \<noteq> OPEN then Inr d
       else Inr (audit (u_tenantId user) (Some (u_id user)) ''ORDER_SPLIT_CLOSED'' ''order'' parentId
              (orders_update (set_row o_id parentId (\<lambda>r. r\<lparr>o_status := SPLIT, o_version := o_version r + 1\<rparr>)) d))))"

definition settle :: "env \<Rightarrow> auth_user \<Rightarrow> id \<Rightarrow> settle_input \<Rightarrow> db \<Rightarrow> db result" where
  "settle e user orderId input d =
    ebind (lockOpenOrder user orderId d) (\<lambda>order.
    ebind (require (\<not> nonzero (o_splitCount order)) (BadRequest [Txt ''This bill is split into checks - settle each check''])) (\<lambda>_.
    ebind (some_or (row_by ou_id (o_outletId order) (outlets d)) RowMissing) (\<lambda>outletRow.
      let phone = settle_phone input order; name = settle_name input order
      in ebind (resolveDiscounts e order input (ou_loyaltyPointValue outletRow) phone d) (\<lambda>ds.
         ebind (if ds_redeemPoints ds > 0 then verifyAndConsume e (o_outletId order) phone (si_redeemOtp input) d else Inr d) (\<lambda>d1.
         ebind (recomputeTotals (o_id order) (Some (ds_totalDiscount ds)) False d1) (\<lambda>(row, d2).
         ebind (require (toPaise (fromPaise (of_int (paid_paise (si_payments input)))) = toPaise (o_total row))
                  (BadRequest [Txt ''Payments ('', Num (fromPaise (of_int (paid_paise (si_payments input)))),
                               Txt '') must equal order total ('', Num (o_total row), Txt '')''])) (\<lambda>_.
         ebind (redeem_tenders e user order (si_payments input) d2) (\<lambda>d3.
         ebind (draw_bill_number (o_outletId order) d3) (\<lambda>(billNumber, d4).
           let d5 = record_cash e order billNumber (si_payments input) (record_payments (o_id order) (si_payments input) d4)
           in ebind (settle_loyalty e user order outletRow phone name (ds_redeemPoints ds) (o_total row) d5) (\<lambda>(customerId, d6).
              let d7 = use_coupon (ds_coupon ds) d6;
                  d8 = orders_update (set_row o_id (o_id order)
                         (mark_settled billNumber customerId name phone (map_option cp_code (ds_coupon ds)))) d7;
                  d9 = audit (u_tenantId user) (Some (u_id user)) ''ORDER_SETTLED'' ''order'' (o_id order) d8
              in if truthy (o_parentOrderId order) then closeSplitParentIfDone user (the (o_parentOrderId order)) d9 else Inr d9))))))))))"

text \<open>What settling now would charge. The buyer's GSTIN is read from the invoice of the order, if one was raised.\<close>

record bill_preview =
  bp_subtotal :: num
  bp_discountAmount :: num
  bp_couponDiscount :: num
  bp_redeemDiscount :: num
  bp_serviceChargeAmount :: num
  bp_serviceChargePercent :: num
  bp_serviceChargeTaxable :: bool
  bp_serviceChargeRemoved :: bool
  bp_taxAmount :: num
  bp_gst :: tax_split
  bp_roundOff :: num
  bp_total :: num

definition seller_state :: "id \<Rightarrow> id \<Rightarrow> db \<Rightarrow> string option" where
  "seller_state tenantId outletId d =
    (case List.find (\<lambda>u. ou_id u = outletId \<and> ou_tenantId u = tenantId) (outlets d) of
       None \<Rightarrow> None
     | Some u \<Rightarrow> coalesce (ou_placeOfSupply u) (stateOf (ou_gstin u)))"

definition preview :: "env \<Rightarrow> auth_user \<Rightarrow> id \<Rightarrow> settle_input \<Rightarrow> string option \<Rightarrow> db \<Rightarrow> bill_preview result" where
  "preview e user orderId input buyerGstin d =
    ebind (requireOrder user orderId d) (\<lambda>order.
    ebind (require (o_status order = OPEN) (BadRequest [Txt ''Order is not open''])) (\<lambda>_.
    ebind (require (\<not> nonzero (o_splitCount order)) (BadRequest [Txt ''This bill is split into checks - settle each check''])) (\<lambda>_.
    ebind (some_or (row_by ou_id (o_outletId order) (outlets d)) RowMissing) (\<lambda>outletRow.
    ebind (resolveDiscounts e order input (ou_loyaltyPointValue outletRow) (settle_phone input order) d) (\<lambda>ds.
    ebind (billFor (o_id order) (ds_totalDiscount ds) False d) (\<lambda>(bill, sc).
      Inr \<lparr> bp_subtotal = ot_subtotal bill, bp_discountAmount = ot_discountAmount bill,
            bp_couponDiscount = ds_couponDiscount ds, bp_redeemDiscount = ds_redeemDiscount ds,
            bp_serviceChargeAmount = bt_serviceChargeAmount bill,
            bp_serviceChargePercent = (case sc of None \<Rightarrow> 0 | Some c \<Rightarrow> sc_percent c),
            bp_serviceChargeTaxable = (case sc of None \<Rightarrow> False | Some c \<Rightarrow> sc_taxable c),
            bp_serviceChargeRemoved = o_serviceChargeWaived order, bp_taxAmount = ot_taxAmount bill,
            bp_gst = splitTax (ot_taxAmount bill) (seller_state (u_tenantId user) (o_outletId order) d) buyerGstin,
            bp_roundOff = bt_roundOff bill, bp_total = ot_total bill \<rparr>))))))"

section \<open>Offline orders\<close>

record synced_order =
  so_clientId :: id
  so_orderType :: order_type
  so_tableId :: "id option"
  so_customerName :: "string option"
  so_customerPhone :: "string option"
  so_items :: "order_line_input list"
  so_payments :: "payment_input list"
  so_status :: order_status
  so_offlineRef :: "string option"
  so_discountAmount :: "num option"
  so_clientUpdatedAt :: int

definition sync_order_row :: "id \<Rightarrow> id \<Rightarrow> id \<Rightarrow> synced_order \<Rightarrow> string option \<Rightarrow> id \<Rightarrow> order_row" where
  "sync_order_row tenantId outletId deviceId order billNumber i =
     (blank_order i tenantId outletId (so_orderType order))
     \<lparr> o_tableId := (if so_orderType order = DINE_IN then so_tableId order else None),
       o_customerName := so_customerName order, o_customerPhone := so_customerPhone order,
       o_deviceId := Some deviceId, o_clientId := Some (so_clientId order), o_offlineRef := so_offlineRef order,
       o_status := so_status order, o_billNumber := billNumber \<rparr>"

text \<open>A settled offline order draws its number from the counter of the outlet, like an online settlement.\<close>

definition sync_bill :: "id \<Rightarrow> synced_order \<Rightarrow> db \<Rightarrow> (string option \<times> db) result" where
  "sync_bill outletId order d =
    (if so_status order = SETTLED then ebind (draw_bill_number outletId d) (\<lambda>(b, d1). Inr (Some b, d1)) else Inr (None, d))"

definition sync_insert :: "env \<Rightarrow> id \<Rightarrow> id \<Rightarrow> id \<Rightarrow> synced_order \<Rightarrow> db \<Rightarrow> (id \<times> db) result" where
  "sync_insert e tenantId outletId deviceId order d =
    (let settled = (so_status order = SETTLED)
     in ebind (sync_bill outletId order d) (\<lambda>(billNumber, d1).
        ebind (create_order e (sync_order_row tenantId outletId deviceId order billNumber) d1) (\<lambda>(orderId, d2).
        ebind (punchItems e \<lparr> ac_tenantId = tenantId, ac_id = None \<rparr> orderId outletId (so_items order) []
                 \<lparr> po_source = SourceSYNC (so_orderType order), po_offline = True, po_at = Some (so_clientUpdatedAt order) \<rparr> d2) (\<lambda>(unavailable, d3).
        ebind (recomputeTotals orderId (Some (or_else (so_discountAmount order) 0)) True d3) (\<lambda>(synced, d4).
        ebind (require (\<not> (settled \<and> (so_payments order = [] \<or> paid_paise (so_payments order) \<noteq> toPaise (o_total synced))))
                 (BadRequest [Txt ''Offline settled order payments do not match the server total''])) (\<lambda>_.
          let d5 = (if settled \<and> so_payments order \<noteq> [] then record_payments orderId (so_payments order) d4 else d4);
              d6 = audit tenantId None ''ORDER_SYNCED'' ''order'' orderId d5;
              d7 = (if unavailable \<noteq> [] then audit tenantId None ''ORDER_SYNC_AVAILABILITY_FLAG'' ''order'' orderId d6 else d6)
          in Inr (orderId, d7)))))))"

definition synced_row :: "id \<Rightarrow> id \<Rightarrow> id \<Rightarrow> id \<Rightarrow> db \<Rightarrow> order_row option" where
  "synced_row tenantId outletId deviceId clientId d =
     List.find (\<lambda>r. o_tenantId r = tenantId \<and> o_outletId r = outletId \<and> o_deviceId r = Some deviceId \<and> o_clientId r = Some clientId) (orders d)"

text \<open>The transaction: the order id, and whether the order was already there.\<close>

definition sync_tx :: "env \<Rightarrow> id \<Rightarrow> id \<Rightarrow> id \<Rightarrow> synced_order \<Rightarrow> db \<Rightarrow> (id \<times> bool \<times> db) result" where
  "sync_tx e tenantId outletId deviceId order d =
    (let insert = ebind (sync_insert e tenantId outletId deviceId order d) (\<lambda>(i, d1). Inr (i, False, d1))
     in if so_orderType order = DINE_IN
        then ebind (require (truthy (so_tableId order)) (BadRequest [Txt ''Dine-in orders need a table''])) (\<lambda>_.
             ebind (lockTable tenantId outletId (the (so_tableId order)) d) (\<lambda>_.
               case synced_row tenantId outletId deviceId (so_clientId order) d of
                 Some previous \<Rightarrow> Inr (o_id previous, True, d)
               | None \<Rightarrow> ebind (require (\<not> (so_status order = OPEN \<and> open_on_table tenantId outletId (the (so_tableId order)) d \<noteq> None))
                             (BadRequest [Txt ''Table already has an open order''])) (\<lambda>_. insert)))
        else insert)"

record sync_reply =
  sr_serverId :: id
  sr_billNumber :: "string option"
  sr_duplicate :: bool

text \<open>A unique violation on device and client id means the order was synced before.\<close>

definition applySyncedOrder :: "env \<Rightarrow> id \<Rightarrow> id \<Rightarrow> id \<Rightarrow> synced_order \<Rightarrow> db \<Rightarrow> (sync_reply \<times> db) result" where
  "applySyncedOrder e tenantId outletId deviceId order d =
    (case sync_tx e tenantId outletId deviceId order d of
       Inl UniqueViolation \<Rightarrow>
         (case synced_row tenantId outletId deviceId (so_clientId order) d of
            Some existing \<Rightarrow> Inr (\<lparr> sr_serverId = o_id existing, sr_billNumber = o_billNumber existing, sr_duplicate = True \<rparr>, d)
          | None \<Rightarrow> Inl UniqueViolation)
     | Inl err \<Rightarrow> Inl err
     | Inr (orderId, duplicate, d1) \<Rightarrow>
         ebind (some_or (row_by o_id orderId (orders d1)) RowMissing) (\<lambda>saved.
           Inr (\<lparr> sr_serverId = orderId, sr_billNumber = o_billNumber saved, sr_duplicate = duplicate \<rparr>, d1)))"

section \<open>What the stages write\<close>

interpretation ord: table "orders :: db \<Rightarrow> _" orders_update o_id
  by unfold_locales simp_all

interpretation outl: table "outlets :: db \<Rightarrow> _" outlets_update ou_id
  by unfold_locales simp_all

text \<open>The tables a bill depends on, and the ones the properties below speak of: a stage that leaves them alone.\<close>

definition same_core :: "db \<Rightarrow> db \<Rightarrow> bool" where
  "same_core d d' \<longleftrightarrow> orders d' = orders d \<and> outlets d' = outlets d \<and> orderItems d' = orderItems d \<and> payments d' = payments d
     \<and> billingSettings d' = billingSettings d \<and> rawMaterials d' = rawMaterials d \<and> stockMovements d' = stockMovements d
     \<and> recipes d' = recipes d \<and> diningTables d' = diningTables d \<and> seq d \<le> seq d'"

lemma same_core_refl [simp]: "same_core d d"
  by (simp add: same_core_def)

lemma same_core_trans: "same_core a b \<Longrightarrow> same_core b c \<Longrightarrow> same_core a c"
  by (simp add: same_core_def)

lemma same_core_audit [simp]: "same_core d (audit t u a en i d)"
  by (simp add: same_core_def audit_def)

lemma same_core_otp: "verifyAndConsume e u p c d = Inr d' \<Longrightarrow> same_core d d'"
  using verifyAndConsume_frame [of e u p c d d'] by (auto simp: same_core_def)

lemma same_core_redeem: "redeem_tenders e user order ps d = Inr d' \<Longrightarrow> same_core d d'"
  using redeem_frame [of e _ _ _ _ _ d d'] by (fastforce simp: redeem_tenders_def Let_def same_core_def split: if_splits)

lemma same_core_cash: "same_core d (record_cash e order b ps d)"
  by (auto simp: record_cash_def Let_def fresh_def same_core_def split: option.split)

lemma same_core_coupon: "same_core d (use_coupon c d)"
  by (simp add: use_coupon_def same_core_def split: option.split)

lemma same_core_customer: "same_core d (snd (upsert_customer e t u p n x y d))"
  by (auto simp: upsert_customer_def Let_def fresh_def same_core_def split: option.split)

lemma same_core_loyalty:
  assumes "settle_loyalty e user order outletRow phone name points billTotal d = Inr (cid, d')"
  shows "same_core d d'"
proof -
  from assms obtain d1 where 1: "(if points > 0 then spend_points (o_outletId order) phone points d else Inr d) = Inr d1"
    and 2: "d' = d1 \<or> (\<exists>x ts. d' = loyaltyTxns_update ts (snd (upsert_customer e (u_tenantId user) (o_outletId order) phone name x billTotal d1)))"
    unfolding settle_loyalty_def guard_simps by (auto simp: Let_def case_prod_beta split: if_splits)
  have "same_core d d1" using 1 by (auto simp: spend_points_def Let_def guard_simps same_core_def split: if_splits)
  moreover have "same_core d1 d'"
    using 2 same_core_customer [of d1 e "u_tenantId user" "o_outletId order" phone name _ billTotal] by (auto simp: same_core_def)
  ultimately show ?thesis by (rule same_core_trans)
qed

lemma billFor_cong: "same_core d d' \<Longrightarrow> billFor orderId x pl d' = billFor orderId x pl d"
proof -
  assume "same_core d d'"
  then have "orders d' = orders d" "order_lines i d' = order_lines i d" "loadBillingRules t u d' = loadBillingRules t u d" for i t u
    by (simp_all add: same_core_def order_lines_def loadBillingRules_def)
  then show ?thesis by (simp only: billFor_def)
qed

lemma set_row_set_row:
  "(\<And>r. key (f r) = key r) \<Longrightarrow> set_row key i g (set_row key i f rs) = set_row key i (g \<circ> f) rs"
  by (induction rs) (auto simp: set_row_def)

lemma lockOpenOrder_Inr:
  "lockOpenOrder user orderId d = Inr r \<Longrightarrow> r \<in> set (orders d) \<and> o_id r = orderId \<and> o_tenantId r = u_tenantId user
     \<and> o_outletId r \<in> set (u_outletIds user) \<and> o_status r = OPEN"
  by (auto simp: lockOpenOrder_def guard_simps dest!: find_SomeD)

lemma write_totals_simps [simp]:
  "o_id (write_totals t sc r) = o_id r" "o_tenantId (write_totals t sc r) = o_tenantId r"
  "o_outletId (write_totals t sc r) = o_outletId r" "o_billNumber (write_totals t sc r) = o_billNumber r"
  "o_status (write_totals t sc r) = o_status r" "o_tableId (write_totals t sc r) = o_tableId r"
  "o_parentOrderId (write_totals t sc r) = o_parentOrderId r" "o_splitCount (write_totals t sc r) = o_splitCount r"
  "o_deviceId (write_totals t sc r) = o_deviceId r" "o_clientId (write_totals t sc r) = o_clientId r"
  "o_total (write_totals t sc r) = numeric_col 2 (ot_total t)" "o_allocatedDiscount (write_totals t sc r) = o_allocatedDiscount r"
  by (simp_all add: write_totals_def)

lemma mark_settled_simps [simp]:
  "o_id (mark_settled b c n p k r) = o_id r" "o_tenantId (mark_settled b c n p k r) = o_tenantId r"
  "o_outletId (mark_settled b c n p k r) = o_outletId r" "o_billNumber (mark_settled b c n p k r) = Some b"
  "o_status (mark_settled b c n p k r) = SETTLED" "o_tableId (mark_settled b c n p k r) = o_tableId r"
  "o_parentOrderId (mark_settled b c n p k r) = o_parentOrderId r" "o_total (mark_settled b c n p k r) = o_total r"
  by (simp_all add: mark_settled_def)

lemma recomputeTotals_Inr:
  assumes "recomputeTotals orderId x pl d = Inr (row, d')"
  obtains old totals sc where "row_by o_id orderId (orders d) = Some old"
    and "billFor orderId (or_else x (o_allocatedDiscount old)) pl d = Inr (totals, sc)"
    and "row = write_totals totals sc old" and "d' = orders_update (set_row o_id orderId (write_totals totals sc)) d"
  using assms by (auto simp: recomputeTotals_def guard_simps)

text \<open>Closing the parent of the last settled check.\<close>

definition split_closed :: "order_row \<Rightarrow> order_row" where
  "split_closed r = r\<lparr>o_status := SPLIT, o_version := o_version r + 1\<rparr>"

lemma closeSplit_Inr:
  assumes "closeSplitParentIfDone user p d = Inr d'"
  shows "same_core d d' \<or> (\<exists>r. List.find (\<lambda>r. o_id r = p \<and> o_tenantId r = u_tenantId user) (orders d) = Some r \<and> o_status r = OPEN
    \<and> same_core (orders_update (set_row o_id p split_closed) d) d')"
proof -
  have f: "split_closed = (\<lambda>r. r\<lparr>o_status := SPLIT, o_version := o_version r + 1\<rparr>)" by (rule ext) (simp add: split_closed_def)
  show ?thesis using assms unfolding f
    by (auto simp: closeSplitParentIfDone_def guard_simps split: if_splits)
qed

text \<open>The effect of a successful settlement on the orders, the counter and the payments.\<close>

lemma settle_effect:
  assumes run: "settle e user orderId input d = Inr d'"
  obtains order outletRow ds totals sc cid old d8 where
    "lockOpenOrder user orderId d = Inr order" "\<not> nonzero (o_splitCount order)"
    "row_by ou_id (o_outletId order) (outlets d) = Some outletRow"
    "resolveDiscounts e order input (ou_loyaltyPointValue outletRow) (settle_phone input order) d = Inr ds"
    "row_by o_id orderId (orders d) = Some old"
    "billFor orderId (ds_totalDiscount ds) False d = Inr (totals, sc)"
    "paid_paise (si_payments input) = toPaise (numeric_col 2 (ot_total totals))"
    "orders d8 = set_row o_id orderId (mark_settled (bill_number (ou_nextBillNumber outletRow)) cid (settle_name input order)
       (settle_phone input order) (map_option cp_code (ds_coupon ds)) \<circ> write_totals totals sc) (orders d)"
    "outlets d8 = set_row ou_id (o_outletId order) (\<lambda>u. u\<lparr>ou_nextBillNumber := ou_nextBillNumber u + 1\<rparr>) (outlets d)"
    "payments d8 = payments d @ map (\<lambda>p. \<lparr> p_orderId = orderId, p_mode = pay_mode p, p_amount = numeric_col 2 (pay_amount p) \<rparr>) (si_payments input)"
    "orderItems d8 = orderItems d" "billingSettings d8 = billingSettings d" "rawMaterials d8 = rawMaterials d"
    "stockMovements d8 = stockMovements d" "recipes d8 = recipes d" "seq d \<le> seq d8"
    "if truthy (o_parentOrderId order) then closeSplitParentIfDone user (the (o_parentOrderId order)) d8 = Inr d' else d' = d8"
proof -
  let ?m = "\<lambda>order ds bd cd. orders_update (set_row o_id (o_id order) (mark_settled (fst bd) (fst cd) (settle_name input order)
      (settle_phone input order) (map_option cp_code (ds_coupon ds)))) (use_coupon (ds_coupon ds) (snd cd))"
  let ?a = "\<lambda>order ds bd cd. audit (u_tenantId user) (Some (u_id user)) ''ORDER_SETTLED'' ''order'' (o_id order) (?m order ds bd cd)"
  from run obtain order outletRow ds d1 rd d3 bd cd where
    1: "lockOpenOrder user orderId d = Inr order" "\<not> nonzero (o_splitCount order)"
    and 2: "row_by ou_id (o_outletId order) (outlets d) = Some outletRow"
    and 3: "resolveDiscounts e order input (ou_loyaltyPointValue outletRow) (settle_phone input order) d = Inr ds"
    and 4: "(if ds_redeemPoints ds > 0 then verifyAndConsume e (o_outletId order) (settle_phone input order) (si_redeemOtp input) d else Inr d) = Inr d1"
    and 5: "recomputeTotals (o_id order) (Some (ds_totalDiscount ds)) False d1 = Inr rd"
    and 6: "toPaise (fromPaise (of_int (paid_paise (si_payments input)))) = toPaise (o_total (fst rd))"
    and 7: "redeem_tenders e user order (si_payments input) (snd rd) = Inr d3"
    and 8: "draw_bill_number (o_outletId order) d3 = Inr bd"
    and 9: "settle_loyalty e user order outletRow (settle_phone input order) (settle_name input order) (ds_redeemPoints ds) (o_total (fst rd))
       (record_cash e order (fst bd) (si_payments input) (record_payments (o_id order) (si_payments input) (snd bd))) = Inr cd"
    and 10: "(if truthy (o_parentOrderId order) then closeSplitParentIfDone user (the (o_parentOrderId order)) (?a order ds bd cd)
       else Inr (?a order ds bd cd)) = Inr d'"
    unfolding settle_def Let_def guard_simps case_prod_beta
    by (elim exE conjE) (rule that, assumption+)
  obtain row d2 b d4 cid d6 where pairs [simp]: "rd = (row, d2)" "bd = (b, d4)" "cd = (cid, d6)"
    by (cases rd; cases bd; cases cd)
  have oid: "o_id order = orderId" using lockOpenOrder_Inr [OF 1(1)] by simp
  have c1: "same_core d d1" using 4 same_core_otp [of e "o_outletId order" "settle_phone input order" "si_redeemOtp input" d d1]
    by (auto split: if_splits)
  from 5 obtain old totals sc where old: "row_by o_id orderId (orders d1) = Some old"
    and bill: "billFor orderId (ds_totalDiscount ds) False d1 = Inr (totals, sc)"
    and row: "row = write_totals totals sc old" and d2: "d2 = orders_update (set_row o_id orderId (write_totals totals sc)) d1"
    unfolding oid pairs by (elim recomputeTotals_Inr) simp
  have c3: "same_core d2 d3" using 7 same_core_redeem by simp
  from 8 have out: "row_by ou_id (o_outletId order) (outlets d) = Some outletRow \<Longrightarrow> b = bill_number (ou_nextBillNumber outletRow)"
      "d4 = outlets_update (set_row ou_id (o_outletId order) (\<lambda>u. u\<lparr>ou_nextBillNumber := ou_nextBillNumber u + 1\<rparr>)) d3"
    using c1 c3 d2 by (auto simp: draw_bill_number_def guard_simps same_core_def)
  define d5 where "d5 = record_payments orderId (si_payments input) d4"
  have c6: "same_core d5 d6" using 9 same_core_loyalty same_core_cash same_core_trans unfolding oid pairs fst_conv snd_conv d5_def by metis
  have c7: "same_core d6 (use_coupon (ds_coupon ds) d6)" by (rule same_core_coupon)
  define d8 where "d8 = ?a order ds bd cd"
  have "orders d8 = set_row o_id orderId (mark_settled b cid (settle_name input order) (settle_phone input order) (map_option cp_code (ds_coupon ds)) \<circ> write_totals totals sc) (orders d)"
    using c1 c3 c6 c7 by (simp add: d8_def oid audit_def same_core_def d5_def record_payments_def out(2) d2 set_row_set_row)
  moreover have "outlets d8 = set_row ou_id (o_outletId order) (\<lambda>u. u\<lparr>ou_nextBillNumber := ou_nextBillNumber u + 1\<rparr>) (outlets d)"
    "payments d8 = payments d @ map (\<lambda>p. \<lparr> p_orderId = orderId, p_mode = pay_mode p, p_amount = numeric_col 2 (pay_amount p) \<rparr>) (si_payments input)"
    "orderItems d8 = orderItems d" "billingSettings d8 = billingSettings d" "rawMaterials d8 = rawMaterials d"
    "stockMovements d8 = stockMovements d" "recipes d8 = recipes d" "seq d \<le> seq d8"
    using c1 c3 c6 c7 by (simp_all add: d8_def audit_def same_core_def d5_def record_payments_def out(2) d2)
  moreover have "billFor orderId (ds_totalDiscount ds) False d = Inr (totals, sc)" using bill billFor_cong [OF c1] by simp
  moreover have "row_by o_id orderId (orders d) = Some old" using old c1 by (simp add: same_core_def)
  moreover have "paid_paise (si_payments input) = toPaise (numeric_col 2 (ot_total totals))" using 6 row by simp
  moreover have "if truthy (o_parentOrderId order) then closeSplitParentIfDone user (the (o_parentOrderId order)) d8 = Inr d' else d' = d8"
    using 10 by (simp add: d8_def split: if_splits)
  ultimately show ?thesis using that [OF 1 2 3] out(1) [OF 2] by blast
qed

section \<open>Settlement is exact\<close>

lemma bill_paise_exact:
  "\<exists>n. ot_total (computeBill ls opts) = of_int n / 100" "\<exists>n. ot_subtotal (computeBill ls opts) = of_int n / 100"
  "\<exists>n. ot_discountAmount (computeBill ls opts) = of_int n / 100" "\<exists>n. ot_taxAmount (computeBill ls opts) = of_int n / 100"
  by (auto simp: computeBill_def Let_def fromPaise_def)

lemma billFor_total_exact: "billFor i x pl d = Inr (totals, sc) \<Longrightarrow> numeric_col 2 (ot_total totals) = ot_total totals"
proof -
  assume "billFor i x pl d = Inr (totals, sc)"
  then obtain ls opts where "totals = computeBill ls opts" by (auto simp: billFor_def guard_simps Let_def)
  then obtain n where n: "ot_total totals = of_int n / 100" using bill_paise_exact(1) by blast
  show ?thesis unfolding n by (rule numeric_col_exact) (rule paise_exact_of_int_div)
qed

lemma lock_row:
  assumes "lockOpenOrder user i d = Inr r" and "distinct (map o_id (orders d))"
  shows "row_by o_id i (orders d) = Some r"
  using lockOpenOrder_Inr [OF assms(1)] ord.row_by_member [OF assms(2), of r] by simp

text \<open>The settled row survives the closing of the parent: only an open row is closed.\<close>

lemma closeSplit_keeps:
  assumes "closeSplitParentIfDone user p d = Inr d'" and "distinct (map o_id (orders d))"
    and "row_by o_id i (orders d) = Some r" and "o_status r \<noteq> OPEN"
  shows "row_by o_id i (orders d') = Some r"
  using closeSplit_Inr [OF assms(1)]
proof (elim disjE exE conjE)
  assume "same_core d d'"
  then show ?thesis using assms(3) by (simp add: same_core_def)
next
  fix q assume q: "List.find (\<lambda>r. o_id r = p \<and> o_tenantId r = u_tenantId user) (orders d) = Some q" "o_status q = OPEN"
    and c: "same_core (orders_update (set_row o_id p split_closed) d) d'"
  have "row_by o_id p (orders d) = Some q" using find_SomeD [OF q(1)] ord.row_by_member [OF assms(2), of q] by simp
  then have "i \<noteq> p" using assms(3,4) q(2) by auto
  then have "row_by o_id i (orders (orders_update (set_row o_id p split_closed) d)) = Some r"
    using assms(3) by (subst ord.lookup_set_row) (simp_all add: split_closed_def)
  then show ?thesis using c by (simp add: same_core_def)
qed

lemma closeSplit_core:
  "closeSplitParentIfDone user p d = Inr d' \<Longrightarrow> outlets d' = outlets d \<and> payments d' = payments d \<and> orderItems d' = orderItems d
     \<and> rawMaterials d' = rawMaterials d \<and> stockMovements d' = stockMovements d"
  using closeSplit_Inr [of user p d d'] by (auto simp: same_core_def)

lemma settle_row:
  assumes run: "settle e user orderId input d = Inr d'" and dist: "distinct (map o_id (orders d))"
  obtains order outletRow ds totals sc cid where
    "lockOpenOrder user orderId d = Inr order" "\<not> nonzero (o_splitCount order)"
    "row_by ou_id (o_outletId order) (outlets d) = Some outletRow"
    "resolveDiscounts e order input (ou_loyaltyPointValue outletRow) (settle_phone input order) d = Inr ds"
    "billFor orderId (ds_totalDiscount ds) False d = Inr (totals, sc)"
    "paid_paise (si_payments input) = toPaise (ot_total totals)"
    "row_by o_id orderId (orders d') = Some (mark_settled (bill_number (ou_nextBillNumber outletRow)) cid (settle_name input order)
       (settle_phone input order) (map_option cp_code (ds_coupon ds)) (write_totals totals sc order))"
    "outlets d' = set_row ou_id (o_outletId order) (\<lambda>u. u\<lparr>ou_nextBillNumber := ou_nextBillNumber u + 1\<rparr>) (outlets d)"
    "payments d' = payments d @ map (\<lambda>p. \<lparr> p_orderId = orderId, p_mode = pay_mode p, p_amount = numeric_col 2 (pay_amount p) \<rparr>) (si_payments input)"
proof -
  from run obtain order outletRow ds totals sc cid old d8 where
    s: "lockOpenOrder user orderId d = Inr order" "\<not> nonzero (o_splitCount order)"
    "row_by ou_id (o_outletId order) (outlets d) = Some outletRow"
    "resolveDiscounts e order input (ou_loyaltyPointValue outletRow) (settle_phone input order) d = Inr ds"
    "row_by o_id orderId (orders d) = Some old"
    "billFor orderId (ds_totalDiscount ds) False d = Inr (totals, sc)"
    "paid_paise (si_payments input) = toPaise (numeric_col 2 (ot_total totals))"
    and o8: "orders d8 = set_row o_id orderId (mark_settled (bill_number (ou_nextBillNumber outletRow)) cid (settle_name input order)
       (settle_phone input order) (map_option cp_code (ds_coupon ds)) \<circ> write_totals totals sc) (orders d)"
    and u8: "outlets d8 = set_row ou_id (o_outletId order) (\<lambda>u. u\<lparr>ou_nextBillNumber := ou_nextBillNumber u + 1\<rparr>) (outlets d)"
    "payments d8 = payments d @ map (\<lambda>p. \<lparr> p_orderId = orderId, p_mode = pay_mode p, p_amount = numeric_col 2 (pay_amount p) \<rparr>) (si_payments input)"
    and close: "if truthy (o_parentOrderId order) then closeSplitParentIfDone user (the (o_parentOrderId order)) d8 = Inr d' else d' = d8"
    by (elim settle_effect) (rule that, assumption+)
  let ?r = "mark_settled (bill_number (ou_nextBillNumber outletRow)) cid (settle_name input order)
       (settle_phone input order) (map_option cp_code (ds_coupon ds)) (write_totals totals sc order)"
  have "old = order" using lock_row [OF s(1) dist] s(5) by simp
  then have r8: "row_by o_id orderId (orders d8) = Some ?r"
    using ord.lookup_set_row [of "mark_settled (bill_number (ou_nextBillNumber outletRow)) cid (settle_name input order)
       (settle_phone input order) (map_option cp_code (ds_coupon ds)) \<circ> write_totals totals sc" orderId orderId d] s(5)
    by (simp add: o8)
  have dist8: "distinct (map o_id (orders d8))" using dist by (simp add: o8 map_key_set_row)
  have "row_by o_id orderId (orders d') = Some ?r"
    using close r8 closeSplit_keeps [OF _ dist8 r8, of user "the (o_parentOrderId order)" d'] by (auto split: if_splits)
  moreover have "outlets d' = outlets d8" "payments d' = payments d8"
    using close closeSplit_core [of user "the (o_parentOrderId order)" d8 d'] by (auto split: if_splits)
  ultimately show ?thesis using that [OF s(1-4,6)] s(7) u8 billFor_total_exact [OF s(6)] by metis
qed


text \<open>C3. What the settle dialog previews is what the settlement charges: with the same discounts on the same state,
  the recorded total is the previewed total.\<close>

theorem settle_as_previewed:
  assumes "preview e user orderId input buyerGstin d = Inr bp" and "settle e user orderId input d = Inr d'"
    and "distinct (map o_id (orders d))"
  shows "map_option o_total (row_by o_id orderId (orders d')) = Some (bp_total bp) \<and> paid_paise (si_payments input) = toPaise (bp_total bp)"
proof -
  from assms(2,3) obtain order outletRow ds totals sc cid where
    s: "lockOpenOrder user orderId d = Inr order" "row_by ou_id (o_outletId order) (outlets d) = Some outletRow"
    "resolveDiscounts e order input (ou_loyaltyPointValue outletRow) (settle_phone input order) d = Inr ds"
    "billFor orderId (ds_totalDiscount ds) False d = Inr (totals, sc)" "paid_paise (si_payments input) = toPaise (ot_total totals)"
    and r: "row_by o_id orderId (orders d') = Some (mark_settled (bill_number (ou_nextBillNumber outletRow)) cid (settle_name input order)
       (settle_phone input order) (map_option cp_code (ds_coupon ds)) (write_totals totals sc order))"
    by (elim settle_row) (assumption, rule that, assumption+)
  have o1: "row_by o_id orderId (orders d) = Some order" "o_id order = orderId"
    using lock_row [OF s(1) assms(3)] lockOpenOrder_Inr [OF s(1)] by simp_all
  then have "requireOrder user orderId d = Inr order"
    using lockOpenOrder_Inr [OF s(1)] by (simp add: requireOrder_def assertOutlet_def)
  then have "bp_total bp = ot_total totals"
    using assms(1) s(2-4) o1(2) by (auto simp: preview_def guard_simps)
  then show ?thesis using r s(5) billFor_total_exact [OF s(4)] by simp
qed


section \<open>Offline orders are applied once\<close>

lemma create_order_Inr:
  assumes "create_order e mk d = Inr (i, d')"
  shows "i = e_cuid e (seq d)" "d' = d\<lparr>seq := seq d + 1, orders := orders d @ [mk i]\<rparr>"
    "\<And>r. r \<in> set (orders d) \<Longrightarrow> o_deviceId r \<noteq> None \<Longrightarrow> o_clientId r \<noteq> None
      \<Longrightarrow> \<not> (o_deviceId r = o_deviceId (mk i) \<and> o_clientId r = o_clientId (mk i))"
  using assms by (auto simp: create_order_def fresh_def guard_simps)

lemma punch_core:
  assumes "punchItems e actor i u inputs cs opts d = Inr (x, d')"
  shows "orders d' = orders d" "payments d' = payments d" "diningTables d' = diningTables d" "seq d \<le> seq d'"
    "outlets d' = set_row ou_id u (\<lambda>u. u\<lparr>ou_nextKotNumber := ou_nextKotNumber u + 1\<rparr>) (outlets d)"
    "recipes d' = recipes d" "billingSettings d' = billingSettings d"
  using assms by (auto elim!: punchItems_frame)

lemma draw_Inr:
  "draw_bill_number u d = Inr (b, d') \<Longrightarrow> \<exists>row. row_by ou_id u (outlets d) = Some row \<and> b = bill_number (ou_nextBillNumber row)
     \<and> d' = d\<lparr>outlets := set_row ou_id u (\<lambda>u. u\<lparr>ou_nextBillNumber := ou_nextBillNumber u + 1\<rparr>) (outlets d)\<rparr>"
  by (auto simp: draw_bill_number_def guard_simps)

text \<open>The rows and the counter after an inserted offline order.\<close>

lemma sync_insert_effect:
  assumes "sync_insert e t u dev order d = Inr (i, d')"
  obtains b totals sc d1 where "sync_bill u order d = Inr (b, d1)"
    and "i = e_cuid e (seq d)" and "seq d < seq d'"
    and "\<And>r. r \<in> set (orders d) \<Longrightarrow> \<not> (o_deviceId r = Some dev \<and> o_clientId r = Some (so_clientId order))"
    and "orders d' = set_row o_id i (write_totals totals sc) (orders d @ [sync_order_row t u dev order b i])"
    and "diningTables d' = diningTables d"
    and "outlets d' = set_row ou_id u (\<lambda>u. u\<lparr>ou_nextKotNumber := ou_nextKotNumber u + 1\<rparr>) (outlets d1)"
proof -
  from assms obtain bd cd pd rd where
    1: "sync_bill u order d = Inr bd"
    and 2: "create_order e (sync_order_row t u dev order (fst bd)) (snd bd) = Inr cd"
    and 3: "punchItems e \<lparr> ac_tenantId = t, ac_id = None \<rparr> (fst cd) u (so_items order) []
                 \<lparr> po_source = SourceSYNC (so_orderType order), po_offline = True, po_at = Some (so_clientUpdatedAt order) \<rparr> (snd cd) = Inr pd"
    and 4: "recomputeTotals (fst cd) (Some (or_else (so_discountAmount order) 0)) True (snd pd) = Inr rd"
    and 5: "i = fst cd" "orders d' = orders (snd rd)" "outlets d' = outlets (snd rd)" "seq d' = seq (snd rd)" "diningTables d' = diningTables (snd rd)"
    unfolding sync_insert_def Let_def guard_simps case_prod_beta
    by (elim exE conjE) (rule that, assumption+, auto simp: record_payments_def audit_def split: if_splits)
  obtain b d1 d2 x d3 row d4 where p [simp]: "bd = (b, d1)" "cd = (i, d2)" "pd = (x, d3)" "rd = (row, d4)"
    using 5(1) by (cases bd; cases cd; cases pd; cases rd) auto
  have d1: "orders d1 = orders d" "seq d1 = seq d" "diningTables d1 = diningTables d"
    using 1 by (auto simp: sync_bill_def guard_simps dest!: draw_Inr split: if_splits)
  note c = create_order_Inr [OF 2 [unfolded p fst_conv snd_conv]]
  note q = punch_core [OF 3 [unfolded p fst_conv snd_conv]]
  from 4 obtain totals sc where r: "d4 = orders_update (set_row o_id i (write_totals totals sc)) d3"
    unfolding p fst_conv snd_conv by (elim recomputeTotals_Inr) simp
  show ?thesis
  proof (rule that)
    show "sync_bill u order d = Inr (b, d1)"
      using 1 by simp
    show "i = e_cuid e (seq d)" using c(1) d1 by simp
    show "seq d < seq d'" using 5 q(4) c(2) d1 r by simp
    show "\<not> (o_deviceId r = Some dev \<and> o_clientId r = Some (so_clientId order))" if "r \<in> set (orders d)" for r
      using c(3) [of r] that d1 by (auto simp: sync_order_row_def)
    show "orders d' = set_row o_id i (write_totals totals sc) (orders d @ [sync_order_row t u dev order b i])"
      using 5 r q(1) c(2) d1 by simp
    show "diningTables d' = diningTables d" using 5 r q(3) c(2) d1 by simp
    show "outlets d' = set_row ou_id u (\<lambda>u. u\<lparr>ou_nextKotNumber := ou_nextKotNumber u + 1\<rparr>) (outlets d1)"
      using 5 r q(5) c(2) by simp
  qed
qed

text \<open>An order that is already there is reported again and nothing is written.\<close>

lemma synced_row_Some:
  "synced_row t u dev c d = Some r \<Longrightarrow> r \<in> set (orders d) \<and> o_tenantId r = t \<and> o_outletId r = u \<and> o_deviceId r = Some dev \<and> o_clientId r = Some c"
  unfolding synced_row_def by (drule find_SomeD) simp

lemma sync_again:
  assumes ex: "synced_row t u dev (so_clientId order) d = Some r" and dist: "distinct (map o_id (orders d))"
    and table: "so_orderType order = DINE_IN \<Longrightarrow> truthy (so_tableId order) \<and> lockTable t u (the (so_tableId order)) d = Inr ()"
    and outlet: "so_status order = SETTLED \<Longrightarrow> row_by ou_id u (outlets d) \<noteq> None"
  shows "applySyncedOrder e t u dev order d = Inr (\<lparr> sr_serverId = o_id r, sr_billNumber = o_billNumber r, sr_duplicate = True \<rparr>, d)"
proof (cases "so_orderType order = DINE_IN")
  case True
  have "row_by o_id (o_id r) (orders d) = Some r" using ord.row_by_member [OF dist] synced_row_Some [OF ex] by blast
  then show ?thesis using True ex table by (simp add: applySyncedOrder_def sync_tx_def Let_def)
next
  case False
  obtain b d1 where b: "sync_bill u order d = Inr (b, d1)" and d1: "orders d1 = orders d" "seq d1 = seq d"
    using outlet by (cases "so_status order = SETTLED") (auto simp: sync_bill_def draw_bill_number_def)
  have "create_order e (sync_order_row t u dev order b) d1 = Inl UniqueViolation"
    using synced_row_Some [OF ex] d1 by (auto simp: create_order_def fresh_def sync_order_row_def require_def)
  then have "sync_tx e t u dev order d = Inl UniqueViolation" using False b by (simp add: sync_tx_def sync_insert_def Let_def)
  then show ?thesis using ex by (simp add: applySyncedOrder_def)
qed

lemma sync_order_row_simps [simp]:
  "o_id (sync_order_row t u dev order b i) = i" "o_deviceId (sync_order_row t u dev order b i) = Some dev"
  "o_clientId (sync_order_row t u dev order b i) = Some (so_clientId order)" "o_tenantId (sync_order_row t u dev order b i) = t"
  "o_outletId (sync_order_row t u dev order b i) = u" "o_billNumber (sync_order_row t u dev order b i) = b"
  "o_status (sync_order_row t u dev order b i) = so_status order"
  by (simp_all add: sync_order_row_def blank_order_def)

lemma lockTable_cong: "diningTables d' = diningTables d \<Longrightarrow> lockTable t u x d' = lockTable t u x d"
  by (simp add: lockTable_def)

lemma set_row_fresh: "i \<notin> key ` set rs \<Longrightarrow> set_row key i f (rs @ [r]) = rs @ [if key r = i then f r else r]"
proof -
  assume "i \<notin> key ` set rs"
  then have "map (\<lambda>r. if key r = i then f r else r) rs = rs" by (intro map_idI) auto
  then show ?thesis by (simp add: set_row_def update_where_def)
qed

lemma sync_tx_cases:
  assumes "sync_tx e t u dev order d = Inr (i, dup, d')"
  shows "so_orderType order = DINE_IN \<Longrightarrow> truthy (so_tableId order) \<and> lockTable t u (the (so_tableId order)) d = Inr ()"
    and "dup \<and> d' = d \<and> (\<exists>r. synced_row t u dev (so_clientId order) d = Some r \<and> i = o_id r \<and> so_orderType order = DINE_IN)
      \<or> \<not> dup \<and> sync_insert e t u dev order d = Inr (i, d')"
  using assms by (auto simp: sync_tx_def Let_def guard_simps split: if_splits option.splits)

lemma sync_tx_unique:
  assumes "sync_tx e t u dev order d = Inl UniqueViolation"
  shows "so_orderType order = DINE_IN \<Longrightarrow> truthy (so_tableId order) \<and> lockTable t u (the (so_tableId order)) d = Inr ()"
    and "so_status order = SETTLED \<Longrightarrow> row_by ou_id u (outlets d) \<noteq> None"
proof -
  show "so_orderType order = DINE_IN \<Longrightarrow> truthy (so_tableId order) \<and> lockTable t u (the (so_tableId order)) d = Inr ()"
    using assms by (auto simp: sync_tx_def Let_def lockTable_def require_def split: if_splits)
  show "row_by ou_id u (outlets d) \<noteq> None" if "so_status order = SETTLED"
  proof
    assume "row_by ou_id u (outlets d) = None"
    then have "sync_insert e t u dev order d = Inl RowMissing" using that
      by (simp add: sync_insert_def sync_bill_def draw_bill_number_def)
    then show False using assms by (auto simp: sync_tx_def Let_def lockTable_def require_def split: if_splits option.splits)
  qed
qed

text \<open>C5. Syncing is idempotent: however an offline order was first delivered (applied, or already a duplicate),
  delivering it again writes nothing, draws no bill number and answers with the same server id and bill number, marked as a
  duplicate.\<close>

theorem applySyncedOrder_idempotent:
  assumes run: "applySyncedOrder e t u dev order d = Inr (reply, d')" and dist: "distinct (map o_id (orders d))"
    and fresh: "e_cuid e (seq d) \<notin> o_id ` set (orders d)"
  shows "applySyncedOrder e' t u dev order d' = Inr (reply\<lparr>sr_duplicate := True\<rparr>, d')"
proof (cases "sync_tx e t u dev order d")
  case (Inl err)
  then obtain r where "err = UniqueViolation" and r: "synced_row t u dev (so_clientId order) d = Some r"
    and d': "d' = d" "reply = \<lparr> sr_serverId = o_id r, sr_billNumber = o_billNumber r, sr_duplicate = True \<rparr>"
    using run by (auto simp: applySyncedOrder_def split: api_error.splits option.splits)
  then show ?thesis using sync_again [OF r dist] sync_tx_unique [of e t u dev order d] Inl by simp
next
  case (Inr x)
  obtain i dup d1 where x: "x = (i, dup, d1)" by (cases x)
  note tx = Inr [unfolded x]
  obtain saved where saved: "row_by o_id i (orders d') = Some saved" and d': "d1 = d'"
    and reply: "reply = \<lparr> sr_serverId = i, sr_billNumber = o_billNumber saved, sr_duplicate = dup \<rparr>"
    using run tx by (auto simp: applySyncedOrder_def guard_simps)
  from sync_tx_cases(2) [OF tx] show ?thesis
  proof (elim disjE conjE exE)
    fix r assume r: "synced_row t u dev (so_clientId order) d = Some r" "i = o_id r" "so_orderType order = DINE_IN" "d1 = d" dup
    have "saved = r" using saved ord.row_by_member [OF dist, of r] synced_row_Some [OF r(1)] r d' by simp
    have "applySyncedOrder e' t u dev order d = Inr (\<lparr> sr_serverId = o_id r, sr_billNumber = o_billNumber r, sr_duplicate = True \<rparr>, d)"
      using r sync_tx_cases(1) [OF tx r(3)] ord.row_by_member [OF dist, of r] synced_row_Some [OF r(1)]
      by (simp add: applySyncedOrder_def sync_tx_def Let_def)
    then show ?thesis using r d' reply \<open>saved = r\<close> by simp
  next
    assume "sync_insert e t u dev order d = Inr (i, d1)"
    then obtain b totals sc d2 where b: "sync_bill u order d = Inr (b, d2)" and i: "i = e_cuid e (seq d)"
      and un: "\<And>r. r \<in> set (orders d) \<Longrightarrow> \<not> (o_deviceId r = Some dev \<and> o_clientId r = Some (so_clientId order))"
      and os: "orders d' = set_row o_id i (write_totals totals sc) (orders d @ [sync_order_row t u dev order b i])"
      and tb: "diningTables d' = diningTables d"
      and us: "outlets d' = set_row ou_id u (\<lambda>u. u\<lparr>ou_nextKotNumber := ou_nextKotNumber u + 1\<rparr>) (outlets d2)"
      unfolding d' by (elim sync_insert_effect) (rule that, assumption+)
    let ?r = "write_totals totals sc (sync_order_row t u dev order b i)"
    have os': "orders d' = orders d @ [?r]" using fresh unfolding os i [symmetric] by (simp add: set_row_fresh)
    have "List.find (\<lambda>r. o_tenantId r = t \<and> o_outletId r = u \<and> o_deviceId r = Some dev \<and> o_clientId r = Some (so_clientId order)) (orders d) = None"
      using un by (auto simp: find_None_iff_ball)
    then have ex: "synced_row t u dev (so_clientId order) d' = Some ?r"
      unfolding synced_row_def os' by (simp add: find_append_None)
    have dist': "distinct (map o_id (orders d'))" using dist fresh unfolding os' i by simp
    have "saved = ?r" using saved ord.row_by_member [OF dist', of ?r] by (simp add: os')
    moreover have "row_by ou_id u (outlets d') \<noteq> None" if settled: "so_status order = SETTLED"
    proof -
      obtain row where "row_by ou_id u (outlets d) = Some row" using b settled by (auto simp: sync_bill_def guard_simps dest!: draw_Inr)
      then have "u \<in> ou_id ` set (outlets d)" using row_by_Some [of ou_id u "outlets d" row] by auto
      then have "u \<in> ou_id ` set (outlets d')"
        using b settled by (auto simp: us image_key_set_row sync_bill_def guard_simps dest!: draw_Inr)
      then show ?thesis by (simp add: row_by_None)
    qed
    ultimately show ?thesis
      using sync_again [OF ex dist'] sync_tx_cases(1) [OF tx] lockTable_cong [OF tb] reply by simp
  qed
qed

section \<open>A concrete settlement\<close>

definition user0 :: auth_user where
  "user0 = \<lparr> u_id = ''u'', u_tenantId = ''t'', u_outletIds = [''k''], u_permissions = [''*''] \<rparr>"

definition order0 :: order_row where
  "order0 = (blank_order ''r'' ''t'' ''k'' TAKEAWAY)\<lparr> o_subtotal := 300, o_taxAmount := 15, o_total := 315 \<rparr>"

definition shop0 :: db where
  "shop0 = kitchen1\<lparr> orders := [order0] \<rparr>"

definition settle0 :: settle_input where
  "settle0 = \<lparr> si_payments = [\<lparr> pay_mode = CASH, pay_amount = 300, pay_giftCardCode = None \<rparr>,
       \<lparr> pay_mode = UPI, pay_amount = 15, pay_giftCardCode = None \<rparr>], si_discountAmount = None, si_couponCode = None,
     si_redeemPoints = None, si_redeemOtp = None, si_customerPhone = None, si_customerName = None \<rparr>"

lemma bill_shop0: "computeBill (order_lines ''r'' shop0) \<lparr> bo_discountRupees = 0, bo_serviceCharge = None, bo_roundOff = False \<rparr>
  = \<lparr> ot_subtotal = 300, ot_discountAmount = 0, ot_taxAmount = 15, ot_total = 315, bt_serviceChargeAmount = 0, bt_roundOff = 0, bt_totalBeforeRoundOff = 315 \<rparr>"
proof -
  have l: "order_lines ''r'' shop0 = [\<lparr> ml_lineTotalPaise = 30000, ml_taxRatePercent = 5 \<rparr>]"
    by (simp add: order_lines_def shop0_def kitchen1_def new_line_def numeric_col_exact)
  have "js_round 1500 = 1500" using js_round_of_int [of 1500] by simp
  then show ?thesis unfolding l by (simp add: computeBill_def Let_def subtotal_paise_def raw_tax_paise_def)
qed

lemma shop0_facts:
  "lockOpenOrder user0 ''r'' shop0 = Inr order0" "requireOrder user0 ''r'' shop0 = Inr order0"
  "row_by ou_id ''k'' (outlets shop0) = Some (outlet0\<lparr>ou_nextKotNumber := 4\<rparr>)"
  "resolveDiscounts env0 order0 settle0 1 [] shop0 = Inr \<lparr> ds_coupon = None, ds_couponDiscount = 0, ds_redeemPoints = 0,
     ds_redeemDiscount = 0, ds_totalDiscount = 0 \<rparr>"
  "billFor ''r'' 0 False shop0 = Inr (computeBill (order_lines ''r'' shop0)
     \<lparr> bo_discountRupees = 0, bo_serviceCharge = None, bo_roundOff = False \<rparr>, None)"
  by (simp_all add: lockOpenOrder_def requireOrder_def assertOutlet_def shop0_def kitchen1_def kitchen0_def order0_def blank_order_def
      user0_def outlet0_def resolveDiscounts_def resolve_coupon_def settle0_def billFor_def loadBillingRules_def db0_def
      DEFAULT_BILLING_RULES_def serviceChargeFor_def)

lemma settle_shop0: "\<exists>d'. settle env0 user0 ''r'' settle0 shop0 = Inr d'"
proof -
  have k: "o_outletId order0 = ''k''" "o_id order0 = ''r''" "o_splitCount order0 = None" "o_parentOrderId order0 = None"
    "row_by o_id ''r'' (orders shop0) = Some order0" "settle_phone settle0 order0 = []" "ou_id outlet0 = ''k''"
    "ou_loyaltyPointValue outlet0 = 1"
    by (simp_all add: order0_def blank_order_def shop0_def settle_phone_def settle0_def trim_def outlet0_def)
  have p: "paid_paise (si_payments settle0) = 31500" "redeem_tenders e user0 order0 (si_payments settle0) d = Inr d" for e d
    by (simp_all add: paid_paise_def settle0_def redeem_tenders_def)
  have o: "outlets shop0 = [outlet0\<lparr>ou_nextKotNumber := 4\<rparr>]" by (simp add: shop0_def kitchen1_def)
  show ?thesis
    by (simp add: settle_def shop0_facts k p nonzero_def recomputeTotals_def bill_shop0 Let_def numeric_col_exact draw_bill_number_def
        settle_loyalty_def o case_prod_beta)
qed


lemma preview_shop0: "\<exists>bp. preview env0 user0 ''r'' settle0 None shop0 = Inr bp"
proof -
  have "o_outletId order0 = ''k''" "o_id order0 = ''r''" "o_splitCount order0 = None" "o_status order0 = OPEN"
    "settle_phone settle0 order0 = []" "ou_loyaltyPointValue outlet0 = 1"
    by (simp_all add: order0_def blank_order_def settle_phone_def settle0_def trim_def outlet0_def)
  then show ?thesis by (simp add: preview_def shop0_facts nonzero_def)
qed

theorem settle_as_previewed_witness:
  "\<exists>bp d'. preview env0 user0 ''r'' settle0 None shop0 = Inr bp \<and> settle env0 user0 ''r'' settle0 shop0 = Inr d'
    \<and> map_option o_total (row_by o_id ''r'' (orders d')) = Some (bp_total bp)"
proof -
  obtain d' bp where r: "settle env0 user0 ''r'' settle0 shop0 = Inr d'" "preview env0 user0 ''r'' settle0 None shop0 = Inr bp"
    using settle_shop0 preview_shop0 by blast
  have "distinct (map o_id (orders shop0))" by (simp add: shop0_def)
  from settle_as_previewed [OF r(2,1) this] r show ?thesis by blast
qed


definition sync0 :: synced_order where
  "sync0 = \<lparr> so_clientId = ''c'', so_orderType = TAKEAWAY, so_tableId = None, so_customerName = None, so_customerPhone = None,
     so_items = [line0], so_payments = [], so_status = OPEN, so_offlineRef = None, so_discountAmount = None, so_clientUpdatedAt = 0 \<rparr>"

lemma sync_kitchen0: "\<exists>reply d'. applySyncedOrder env0 ''t'' ''k'' ''v'' sync0 kitchen0 = Inr (reply, d')"
  by (simp add: applySyncedOrder_def sync_tx_def sync_insert_def sync_bill_def sync0_def Let_def create_order_def fresh_def
      punchItems_def open_kot_def kitchen0_def outlet0_def line0_def db0_def env0_def resolveChannelPrices_def ranked_channels_def
      punch_line_def find_item_def dish0_def check_window_def isAvailableNow_def isWithinWindow_def parseHHMM_def unit_price_def
      pick_addons_def create_line_def new_line_def consume_def item_recipe_def js_map_add_def lineTotalPaise_def deplete_def
      material0_def set_row_def numeric_col_exact stock_movement_def recomputeTotals_def sync_order_row_def blank_order_def billFor_def
      write_totals_def audit_def)

theorem applySyncedOrder_idempotent_witness:
  "\<exists>reply d'. applySyncedOrder env0 ''t'' ''k'' ''v'' sync0 kitchen0 = Inr (reply, d')
    \<and> applySyncedOrder env0 ''t'' ''k'' ''v'' sync0 d' = Inr (reply\<lparr>sr_duplicate := True\<rparr>, d')"
proof -
  obtain reply d' where r: "applySyncedOrder env0 ''t'' ''k'' ''v'' sync0 kitchen0 = Inr (reply, d')" using sync_kitchen0 by blast
  have "distinct (map o_id (orders kitchen0))" "e_cuid env0 (seq kitchen0) \<notin> o_id ` set (orders kitchen0)"
    by (simp_all add: kitchen0_def db0_def)
  from applySyncedOrder_idempotent [OF r this, of env0] r show ?thesis by blast
qed

end
