(* ===== verification/Order_Ops.thy ===== *)
theory Order_Ops
  imports Orders
begin

text \<open>
  Operations on running bills (\<open>apps/api/src/billing/order-ops.service.ts\<close>): waiving the service charge,
  merging bills, moving a bill or some of its lines to another table, splitting a bill into checks and
  undoing a split.
\<close>

section \<open>Locks and guards\<close>

text \<open>The order of the locks decides no result: a missing row and a foreign outlet each have one error.\<close>

definition tenant_order :: "auth_user \<Rightarrow> id \<Rightarrow> db \<Rightarrow> order_row option" where
  "tenant_order user i d = List.find (\<lambda>r. o_id r = i \<and> o_tenantId r = u_tenantId user) (orders d)"

definition lockOrders :: "auth_user \<Rightarrow> id list \<Rightarrow> db \<Rightarrow> (id \<Rightarrow> order_row) result" where
  "lockOrders user ids d =
    ebind (require (\<forall>i \<in> set ids. tenant_order user i d \<noteq> None) (NotFound [Txt ''Order not found''])) (\<lambda>_.
    ebind (require (\<forall>i \<in> set ids. o_outletId (the (tenant_order user i d)) \<in> set (u_outletIds user))
             (Forbidden [Txt ''No access to outlet''])) (\<lambda>_.
      Inr (\<lambda>i. the (tenant_order user i d))))"

definition lockTables :: "auth_user \<Rightarrow> id \<Rightarrow> id option list \<Rightarrow> db \<Rightarrow> unit result" where
  "lockTables user outletId tableIds d =
    ebind (emap (\<lambda>t. lockTable (u_tenantId user) outletId t d)
             (sort (js_set (map the (filter truthy tableIds))))) (\<lambda>_. Inr ())"

definition assertMergeable :: "order_row \<Rightarrow> string \<Rightarrow> unit result" where
  "assertMergeable r label =
    ebind (require (o_status r = OPEN) (BadRequest [Txt (label @ '' is not open'')])) (\<lambda>_. assertNotSplit r ''move it'')"

section \<open>Service charge\<close>

definition setServiceCharge :: "auth_user \<Rightarrow> id \<Rightarrow> bool \<Rightarrow> string option \<Rightarrow> db \<Rightarrow> db result" where
  "setServiceCharge user orderId waive reason d =
    ebind (lockOpenOrder user orderId d) (\<lambda>order.
    ebind (require (\<not> nonzero (o_splitCount order)) (BadRequest [Txt ''This bill is split - change the service charge on each check''])) (\<lambda>_.
      let d1 = orders_update (set_row o_id (o_id order) (\<lambda>r. r\<lparr>o_serviceChargeWaived := waive,
                 o_serviceChargeWaivedReason := (if waive then reason else None)\<rparr>)) d
      in ebind (recomputeTotals (o_id order) None False d1) (\<lambda>(_, d2).
         Inr (audit (u_tenantId user) (Some (u_id user))
                (if waive then ''SERVICE_CHARGE_REMOVED'' else ''SERVICE_CHARGE_RESTORED'') ''order'' (o_id order) d2))))"

section \<open>Merge\<close>

definition mark_merged :: "id \<Rightarrow> order_row \<Rightarrow> order_row" where
  "mark_merged targetId r = r\<lparr> o_status := MERGED, o_mergedIntoOrderId := Some targetId, o_subtotal := 0, o_discountAmount := 0,
     o_taxAmount := 0, o_total := 0, o_serviceChargeAmount := 0, o_roundOff := 0, o_version := o_version r + 1 \<rparr>"

definition moveAll :: "id list \<Rightarrow> order_row \<Rightarrow> db \<Rightarrow> db" where
  "moveAll sourceIds target d =
    (let from_source = (\<lambda>i. i \<in> Some ` set sourceIds);
         d1 = orderItems_update (update_where (\<lambda>l. oi_orderId l \<in> set sourceIds) (\<lambda>l. l\<lparr>oi_orderId := o_id target\<rparr>)) d;
         d2 = kots_update (update_where (\<lambda>k. k_orderId k \<in> set sourceIds) (\<lambda>k. k\<lparr>k_orderId := o_id target\<rparr>)) d1;
         d3 = orderRequests_update (update_where (\<lambda>r. from_source (orq_orderId r)) (\<lambda>r. r\<lparr>orq_orderId := Some (o_id target)\<rparr>)) d2;
         d4 = parkedCarts_update (update_where (\<lambda>p. from_source (pk_orderId p)) (\<lambda>p. p\<lparr>pk_orderId := Some (o_id target)\<rparr>)) d3;
         donor = List.find (\<lambda>r. o_id r \<in> set sourceIds \<and> (o_customerPhone r \<noteq> None \<or> o_customerName r \<noteq> None)) (orders d4);
         d5 = (if \<not> truthy (o_customerPhone target) \<or> \<not> truthy (o_customerName target)
               then (case donor of None \<Rightarrow> d4
                     | Some c \<Rightarrow> orders_update (set_row o_id (o_id target) (\<lambda>r. r\<lparr>o_customerName := coalesce (o_customerName target) (o_customerName c),
                         o_customerPhone := coalesce (o_customerPhone target) (o_customerPhone c)\<rparr>)) d4)
               else d4)
     in orders_update (update_where (\<lambda>r. o_id r \<in> set sourceIds) (mark_merged (o_id target))) d5)"

definition op_audit :: "auth_user \<Rightarrow> string \<Rightarrow> id \<Rightarrow> db \<Rightarrow> db" where
  "op_audit user action entityId d = audit (u_tenantId user) (Some (u_id user)) action ''order'' entityId d"

definition merge :: "auth_user \<Rightarrow> id \<Rightarrow> id list \<Rightarrow> db \<Rightarrow> db result" where
  "merge user targetId sourceOrderIds d =
    (let sourceIds = js_set sourceOrderIds; all = targetId # sourceIds;
         pre = filter (\<lambda>r. o_id r \<in> set all \<and> o_tenantId r = u_tenantId user) (orders d)
     in ebind (require (targetId \<notin> set sourceIds) (BadRequest [Txt ''Cannot merge an order into itself''])) (\<lambda>_.
        ebind (require (length pre = length all) (NotFound [Txt ''Order not found''])) (\<lambda>_.
        let outletId = o_outletId (hd pre)
        in ebind (require (\<forall>r \<in> set pre. o_outletId r = outletId) (BadRequest [Txt ''Orders belong to different outlets''])) (\<lambda>_.
           ebind (assertOutlet user outletId) (\<lambda>_.
           ebind (lockTables user outletId (map o_tableId pre) d) (\<lambda>_.
           ebind (lockOrders user all d) (\<lambda>locked.
           let target = locked targetId
           in ebind (assertMergeable target ''Target order'') (\<lambda>_.
              ebind (emap (\<lambda>i. ebind (require (o_outletId (locked i) = outletId) (BadRequest [Txt ''Orders belong to different outlets'']))
                            (\<lambda>_. assertMergeable (locked i) ''Source order'')) sourceIds) (\<lambda>_.
              ebind (recomputeTotals (o_id target) None False (moveAll sourceIds target d)) (\<lambda>(_, d1).
                Inr (foldl (\<lambda>x i. op_audit user ''ORDER_MERGED_INTO'' i x) (op_audit user ''ORDER_MERGED'' (o_id target) d1) sourceIds)))))))))))"

section \<open>Transfer\<close>

definition resolve_move :: "order_item_row list \<Rightarrow> id \<times> int \<Rightarrow> (id \<times> int) list \<Rightarrow> (id \<times> int) list result" where
  "resolve_move lines req moves = (case req of (orderItemId, quantity) \<Rightarrow>
    ebind (some_or (row_by oi_id orderItemId lines) (BadRequest [Txt ''A selected line is not on this bill''])) (\<lambda>line.
    ebind (require (\<not> oi_isComboComponent line) (BadRequest [Txt ''Select the combo, not its component''])) (\<lambda>_.
    ebind (require (map_of moves (oi_id line) = None) (BadRequest [Txt ''A line was selected twice''])) (\<lambda>_.
    ebind (require (quantity \<le> oi_quantity line)
             (BadRequest [Txt ''Only '', Num (of_int (oi_quantity line)), Txt ('' x '' @ oi_itemName line @ '' on this bill'')])) (\<lambda>_.
      let moves1 = js_map_set (oi_id line) quantity moves
      in if truthy (oi_comboGroupId line)
         then efold (\<lambda>comp m. if oi_quantity line \<noteq> 0 \<and> (oi_quantity comp * quantity) mod oi_quantity line = 0
                      then Inr (js_map_set (oi_id comp) ((oi_quantity comp * quantity) div oi_quantity line) m)
                      else Inl (BadRequest [Txt (oi_itemName line @ '' cannot be divided that way'')]))
                (filter (\<lambda>l. oi_isComboComponent l \<and> oi_comboGroupId l = oi_comboGroupId line) lines) moves1
         else Inr moves1)))))"

definition resolveMoves :: "order_item_row list \<Rightarrow> (id \<times> int) list \<Rightarrow> (id \<times> int) list result" where
  "resolveMoves lines requested = efold (resolve_move lines) requested []"

text \<open>The columns a copy sets; the row id is drawn when it is created.\<close>

definition copyLine :: "order_item_row \<Rightarrow> id \<Rightarrow> int \<Rightarrow> num \<Rightarrow> order_item_row" where
  "copyLine line orderId quantity lineTotal = line\<lparr> oi_id := [], oi_orderId := orderId, oi_quantity := quantity,
     oi_lineTotal := numeric_col 2 lineTotal, oi_splitFromItemId := None, oi_splitParts := None \<rparr>"

definition moveLine :: "env \<Rightarrow> order_item_row \<Rightarrow> int \<Rightarrow> id \<Rightarrow> db \<Rightarrow> db" where
  "moveLine e line qty targetOrderId d =
    (if qty = oi_quantity line
     then orderItems_update (set_row oi_id (oi_id line) (\<lambda>l. l\<lparr>oi_orderId := targetOrderId\<rparr>)) d
     else let unit = oi_unitPrice line;
              d1 = orderItems_update (set_row oi_id (oi_id line) (\<lambda>l. l\<lparr>oi_quantity := oi_quantity line - qty,
                     oi_lineTotal := numeric_col 2 (fromPaise (of_int (lineTotalPaise unit (oi_quantity line - qty))))\<rparr>)) d
          in create_line e (\<lambda>i. (copyLine line targetOrderId qty (fromPaise (of_int (lineTotalPaise unit qty))))\<lparr>oi_id := i\<rparr>) d1)"

text \<open>Lines move one by one; a ticket whose lines all moved follows them.\<close>

definition move_lines :: "env \<Rightarrow> order_item_row list \<Rightarrow> (id \<times> int) list \<Rightarrow> id \<Rightarrow> db \<Rightarrow> db" where
  "move_lines e lines moves targetId d =
     foldl (\<lambda>x line. let qty = or_else (map_of moves (oi_id line)) 0 in if qty = 0 then x else moveLine e line qty targetId x) d lines"

definition touched_kots :: "order_item_row list \<Rightarrow> (id \<times> int) list \<Rightarrow> id list" where
  "touched_kots lines moves =
     js_set (concat (map (\<lambda>l. case oi_kotId l of Some k \<Rightarrow> [k] | None \<Rightarrow> []) (filter (\<lambda>l. or_else (map_of moves (oi_id l)) 0 \<noteq> 0) lines)))"

definition follow_kots :: "id list \<Rightarrow> id \<Rightarrow> id \<Rightarrow> db \<Rightarrow> db" where
  "follow_kots kotIds sourceId targetId d =
     foldl (\<lambda>x k. if \<exists>l \<in> set (orderItems x). oi_kotId l = Some k \<and> oi_orderId l = sourceId then x
                  else kots_update (update_where (\<lambda>r. k_id r = k) (\<lambda>r. r\<lparr>k_orderId := targetId\<rparr>)) x) d kotIds"

definition transfer_lines ::
  "env \<Rightarrow> auth_user \<Rightarrow> order_row \<Rightarrow> order_row option \<Rightarrow> id \<Rightarrow> order_item_row list \<Rightarrow> (id \<times> int) list \<Rightarrow> db \<Rightarrow> (id option \<times> id \<times> db) result" where
  "transfer_lines e user source target toTableId lines moves d =
    ebind (case target of
             Some t \<Rightarrow> Inr (o_id t, d)
           | None \<Rightarrow> create_order e (\<lambda>i. (blank_order i (u_tenantId user) (o_outletId source) DINE_IN)
                      \<lparr> o_tableId := Some toTableId, o_createdById := Some (u_id user) \<rparr>) d) (\<lambda>(targetId, d1).
      let d2 = follow_kots (touched_kots lines moves) (o_id source) targetId (move_lines e lines moves targetId d1)
      in ebind (recomputeTotals (o_id source) None False d2) (\<lambda>(_, d3).
         ebind (recomputeTotals targetId None False d3) (\<lambda>(_, d4).
           Inr (Some (o_id source), targetId, op_audit user ''ORDER_ITEMS_TRANSFERRED'' (o_id source) d4))))"

definition transfer :: "env \<Rightarrow> auth_user \<Rightarrow> id \<Rightarrow> id \<Rightarrow> (id \<times> int) list option \<Rightarrow> db \<Rightarrow> (id option \<times> id \<times> db) result" where
  "transfer e user orderId toTableId inputLines d =
    ebind (requireOrder user orderId d) (\<lambda>pre.
    ebind (require (o_tableId pre \<noteq> Some toTableId) (BadRequest [Txt ''The order is already on that table''])) (\<lambda>_.
    ebind (lockTables user (o_outletId pre) [o_tableId pre, Some toTableId] d) (\<lambda>_.
    ebind (lockOrders user [orderId] d) (\<lambda>locked.
      let source = locked orderId
      in ebind (assertMergeable source ''Order'') (\<lambda>_.
         ebind (require (o_tableId source = o_tableId pre) (BadRequest [Txt ''The order moved tables meanwhile; refresh and retry''])) (\<lambda>_.
         ebind (some_or (List.find (\<lambda>t. dt_id t = toTableId \<and> dt_tenantId t = u_tenantId user) (diningTables d)) RowMissing) (\<lambda>targetTable.
         ebind (case open_on_table (u_tenantId user) (o_outletId source) toTableId d of
                  None \<Rightarrow> Inr None
                | Some existing \<Rightarrow> ebind (lockOrders user [o_id existing] d) (\<lambda>l2.
                    ebind (assertMergeable (l2 (o_id existing)) (dt_name targetTable @ ''s bill'')) (\<lambda>_. Inr (Some (l2 (o_id existing)))))) (\<lambda>target.
           let lines = filter (\<lambda>l. oi_orderId l = o_id source) (orderItems d)
           in ebind (case inputLines of None \<Rightarrow> Inr None | Some req \<Rightarrow> ebind (resolveMoves lines req) (\<lambda>m. Inr (Some m))) (\<lambda>moves.
              let everything = (case moves of None \<Rightarrow> True | Some m \<Rightarrow> \<forall>l \<in> set lines. or_else (map_of m (oi_id l)) 0 = oi_quantity l)
              in if everything
                 then (case target of
                     Some t \<Rightarrow> ebind (recomputeTotals (o_id t) None False (moveAll [o_id source] t d)) (\<lambda>(_, d1).
                       Inr (None, o_id t, op_audit user ''ORDER_MERGED_INTO'' (o_id source) (op_audit user ''ORDER_MERGED'' (o_id t) d1)))
                   | None \<Rightarrow> ebind (recomputeTotals (o_id source) None False
                               (orders_update (set_row o_id (o_id source) (\<lambda>r. r\<lparr>o_tableId := Some toTableId, o_orderType := DINE_IN,
                                  o_version := o_version r + 1\<rparr>)) d)) (\<lambda>(_, d1).
                       Inr (None, o_id source, op_audit user ''ORDER_TABLE_TRANSFERRED'' (o_id source) d1)))
                 else transfer_lines e user source target toTableId lines (the moves) d)))))))))"

section \<open>Split\<close>

datatype split_input =
    SplitEqual nat "num option"
  | SplitItems "(id \<times> int) list list" "num option"

definition split_discount :: "split_input \<Rightarrow> num" where
  "split_discount input = (case input of SplitEqual _ x \<Rightarrow> or_else x 0 | SplitItems _ x \<Rightarrow> or_else x 0)"

text \<open>The rows to create for each check: equal shares of every line, or assigned quantities.\<close>

definition equal_checks :: "order_item_row list \<Rightarrow> nat \<Rightarrow> order_item_row list list" where
  "equal_checks lines parts =
    (let shares = splitLinesEqually (map (\<lambda>l. toPaise (oi_lineTotal l)) lines) parts
     in map (\<lambda>c. map (\<lambda>i. let l = lines ! i
                          in (copyLine l [] (oi_quantity l) (fromPaise (of_int (shares ! c ! i))))
                             \<lparr> oi_kotId := None, oi_splitFromItemId := Some (oi_id l), oi_splitParts := Some (int parts) \<rparr>)
                     [0..<length lines])
            [0..<parts])"

definition item_check :: "order_item_row list \<Rightarrow> (id \<times> int) list \<Rightarrow> order_item_row list" where
  "item_check lines moves =
     map (\<lambda>l. let q = the (map_of moves (oi_id l))
               in (copyLine l [] q (fromPaise (of_int (lineTotalPaise (oi_unitPrice l) q))))
                  \<lparr> oi_kotId := None, oi_splitFromItemId := Some (oi_id l) \<rparr>)
       (filter (\<lambda>l. or_else (map_of moves (oi_id l)) 0 \<noteq> 0) lines)"

definition assigned_qty :: "(id \<times> int) list list \<Rightarrow> id \<Rightarrow> int" where
  "assigned_qty moves i = (\<Sum>m\<leftarrow>moves. or_else (map_of m i) 0)"

definition check_assigned :: "(id \<times> int) list list \<Rightarrow> order_item_row \<Rightarrow> unit result" where
  "check_assigned moves l =
    (let got = assigned_qty moves (oi_id l)
     in require (got = oi_quantity l)
          (BadRequest (if got > oi_quantity l
             then [Txt (oi_itemName l @ '': ''), Num (of_int got), Txt '' assigned but only '', Num (of_int (oi_quantity l)), Txt '' on the bill'']
             else [Txt (oi_itemName l @ '': assign all ''), Num (of_int (oi_quantity l)), Txt '' to a check ('', Num (of_int got), Txt '' assigned)''])))"

definition make_checks :: "order_item_row list \<Rightarrow> split_input \<Rightarrow> order_item_row list list result" where
  "make_checks lines input = (case input of
     SplitEqual parts _ \<Rightarrow> Inr (equal_checks lines parts)
   | SplitItems checks _ \<Rightarrow>
       ebind (emap (resolveMoves lines) checks) (\<lambda>moves.
       ebind (emap (check_assigned moves) lines) (\<lambda>_.
         Inr (map (item_check lines) moves))))"

definition check_subtotal :: "order_item_row list \<Rightarrow> int" where
  "check_subtotal rows = (\<Sum>r\<leftarrow>rows. toPaise (oi_lineTotal r))"

definition create_rows :: "env \<Rightarrow> id \<Rightarrow> order_item_row list \<Rightarrow> db \<Rightarrow> db" where
  "create_rows e orderId rows d = foldl (\<lambda>x row. create_line e (\<lambda>i. row\<lparr>oi_id := i, oi_orderId := orderId\<rparr>) x) d rows"

definition create_check :: "env \<Rightarrow> auth_user \<Rightarrow> order_row \<Rightarrow> nat \<times> order_item_row list \<times> int \<Rightarrow> db \<Rightarrow> db result" where
  "create_check e user parent entry d = (case entry of (c, rows, discount) \<Rightarrow>
    ebind (create_order e (\<lambda>i. (blank_order i (u_tenantId user) (o_outletId parent) (o_orderType parent))
             \<lparr> o_customerName := o_customerName parent, o_customerPhone := o_customerPhone parent, o_createdById := Some (u_id user),
               o_parentOrderId := Some (o_id parent), o_splitIndex := Some (int c + 1),
               o_allocatedDiscount := numeric_col 2 (fromPaise (of_int discount)),
               o_serviceChargeWaived := o_serviceChargeWaived parent,
               o_serviceChargeWaivedReason := o_serviceChargeWaivedReason parent \<rparr>) d) (\<lambda>(childId, d1).
    ebind (recomputeTotals childId None False (create_rows e childId rows d1)) (\<lambda>(_, d2). Inr d2)))"

definition split_discounts :: "num \<Rightarrow> order_item_row list list \<Rightarrow> int list" where
  "split_discounts discount checks =
    (let checkSubtotals = map check_subtotal checks;
         discountPaise = min (toPaise discount) (sum_list checkSubtotals)
     in allocatePaise discountPaise (map of_int checkSubtotals))"

definition split :: "env \<Rightarrow> auth_user \<Rightarrow> id \<Rightarrow> split_input \<Rightarrow> db \<Rightarrow> db result" where
  "split e user orderId input d =
    ebind (lockOpenOrder user orderId d) (\<lambda>parent.
    ebind (require (\<not> nonzero (o_splitCount parent)) (BadRequest [Txt ''This bill is already split''])) (\<lambda>_.
    ebind (require (\<not> truthy (o_parentOrderId parent)) (BadRequest [Txt ''A split check cannot be split again''])) (\<lambda>_.
      let lines = sort_key oi_id (filter (\<lambda>l. oi_orderId l = o_id parent) (orderItems d))
      in ebind (require (\<exists>l \<in> set lines. \<not> oi_isComboComponent l) (BadRequest [Txt ''Nothing to split''])) (\<lambda>_.
         ebind (make_checks lines input) (\<lambda>checks.
         let discounts = split_discounts (split_discount input) checks
         in ebind (efold (create_check e user parent) (zip [0..<length checks] (zip checks discounts)) d) (\<lambda>d1.
            Inr (op_audit user ''ORDER_SPLIT'' (o_id parent)
              (orders_update (set_row o_id (o_id parent) (\<lambda>r. r\<lparr>o_splitCount := Some (int (length checks)), o_version := o_version r + 1\<rparr>)) d1))))))))"

definition unsplit :: "auth_user \<Rightarrow> id \<Rightarrow> db \<Rightarrow> db result" where
  "unsplit user orderId d =
    ebind (requireOrder user orderId d) (\<lambda>pre.
      let preChildren = filter (\<lambda>r. o_tenantId r = u_tenantId user \<and> o_parentOrderId r = Some (o_id pre)) (orders d)
      in ebind (lockOrders user (map o_id preChildren) d) (\<lambda>_.
         ebind (lockOpenOrder user orderId d) (\<lambda>parent.
         ebind (require (nonzero (o_splitCount parent)) (BadRequest [Txt ''This bill is not split''])) (\<lambda>_.
         let children = filter (\<lambda>r. o_tenantId r = u_tenantId user \<and> o_parentOrderId r = Some (o_id parent)) (orders d); ids = map o_id children
         in ebind (require (length children = length preChildren) (BadRequest [Txt ''The split changed meanwhile; refresh and retry''])) (\<lambda>_.
            ebind (require (\<forall>c \<in> set children. o_status c = OPEN)
                     (BadRequest [Txt ''A check has already been settled - the split can no longer be undone''])) (\<lambda>_.
            let d1 = orderItems_update (filter (\<lambda>l. oi_orderId l \<notin> set ids)) d;
                d2 = parkedCarts_update (filter (\<lambda>p. pk_orderId p \<notin> Some ` set ids)) d1;
                d3 = orders_update (filter (\<lambda>r. \<not> (o_id r \<in> set ids \<and> o_tenantId r = u_tenantId user))) d2;
                d4 = orders_update (set_row o_id (o_id parent) (\<lambda>r. r\<lparr>o_splitCount := None, o_version := o_version r + 1\<rparr>)) d3
            in ebind (recomputeTotals (o_id parent) None False d4) (\<lambda>(_, d5).
               Inr (op_audit user ''ORDER_UNSPLIT'' (o_id parent) d5))))))))"

end
