(* ===== verification/Till.thy ===== *)
theory Till
  imports Order_Ops
begin

text \<open>
  The life of bills as an abstract machine, and the refinement of every order operation to it. The
  machine keeps, of each bill, its place, state and number, and of each outlet the next number. Its
  invariants (one open bill per table, a gapless unique series of bill numbers per outlet) hold of
  every reachable state, and through the refinement of every state the services reach.
\<close>

section \<open>The abstract machine\<close>

record bill_view =
  bv_id :: id
  bv_tenantId :: id
  bv_outletId :: id
  bv_tableId :: "id option"
  bv_status :: order_status
  bv_billNumber :: "string option"

record till =
  t_bills :: "bill_view list"
  t_next :: "(id \<times> int) list"

definition occupied :: "till \<Rightarrow> id \<Rightarrow> id \<Rightarrow> id option \<Rightarrow> bool" where
  "occupied t tenantId outletId tableId \<longleftrightarrow>
     tableId \<noteq> None \<and> (\<exists>v \<in> set (t_bills t). bv_tenantId v = tenantId \<and> bv_outletId v = outletId \<and> bv_tableId v = tableId \<and> bv_status v = OPEN)"

definition advance :: "id \<Rightarrow> (id \<times> int) list \<Rightarrow> (id \<times> int) list" where
  "advance u = map (\<lambda>(k, n). (k, if k = u then n + 1 else n))"

inductive till_step :: "till \<Rightarrow> till \<Rightarrow> bool" where
  opens: "bv_id v \<notin> bv_id ` set (t_bills t) \<Longrightarrow> bv_billNumber v = None \<Longrightarrow> bv_status v \<in> {OPEN, CANCELLED} \<Longrightarrow>
    (bv_status v = OPEN \<Longrightarrow> \<not> occupied t (bv_tenantId v) (bv_outletId v) (bv_tableId v)) \<Longrightarrow>
    till_step t (t\<lparr>t_bills := t_bills t @ [v]\<rparr>)"
| arrives: "bv_id v \<notin> bv_id ` set (t_bills t) \<Longrightarrow> bv_status v = SETTLED \<Longrightarrow> map_of (t_next t) (bv_outletId v) = Some n \<Longrightarrow>
    bv_billNumber v = Some (bill_number n) \<Longrightarrow>
    till_step t \<lparr>t_bills = t_bills t @ [v], t_next = advance (bv_outletId v) (t_next t)\<rparr>"
| settles: "v \<in> set (t_bills t) \<Longrightarrow> bv_status v = OPEN \<Longrightarrow> map_of (t_next t) (bv_outletId v) = Some n \<Longrightarrow>
    till_step t \<lparr>t_bills = set_row bv_id (bv_id v) (\<lambda>w. w\<lparr>bv_status := SETTLED, bv_billNumber := Some (bill_number n)\<rparr>) (t_bills t),
                t_next = advance (bv_outletId v) (t_next t)\<rparr>"
| closes: "\<forall>v \<in> set (t_bills t). bv_id v \<in> S \<longrightarrow> bv_status v = OPEN \<Longrightarrow> s \<in> {CANCELLED, SPLIT, MERGED} \<Longrightarrow>
    till_step t (t\<lparr>t_bills := update_where (\<lambda>v. bv_id v \<in> S) (\<lambda>v. v\<lparr>bv_status := s\<rparr>) (t_bills t)\<rparr>)"
| moves: "v \<in> set (t_bills t) \<Longrightarrow> bv_status v = OPEN \<Longrightarrow> \<not> occupied t (bv_tenantId v) (bv_outletId v) tb \<Longrightarrow>
    till_step t (t\<lparr>t_bills := set_row bv_id (bv_id v) (\<lambda>w. w\<lparr>bv_tableId := tb\<rparr>) (t_bills t)\<rparr>)"
| removes: "\<forall>v \<in> set (t_bills t). \<not> P v \<longrightarrow> bv_status v = OPEN \<Longrightarrow>
    till_step t (t\<lparr>t_bills := filter P (t_bills t)\<rparr>)"

section \<open>Invariants of the machine\<close>

definition numbers_of :: "id \<Rightarrow> bill_view list \<Rightarrow> string list" where
  "numbers_of u vs = concat (map (\<lambda>v. case bv_billNumber v of Some b \<Rightarrow> if bv_outletId v = u then [b] else [] | None \<Rightarrow> []) vs)"

definition one_per_table :: "till \<Rightarrow> bool" where
  "one_per_table t \<longleftrightarrow> (\<forall>v \<in> set (t_bills t). \<forall>w \<in> set (t_bills t). bv_status v = OPEN \<longrightarrow> bv_status w = OPEN \<longrightarrow>
     bv_tableId v \<noteq> None \<longrightarrow> bv_tableId w = bv_tableId v \<longrightarrow> bv_tenantId w = bv_tenantId v \<longrightarrow> bv_outletId w = bv_outletId v \<longrightarrow>
     bv_id w = bv_id v)"

definition gapless :: "(id \<Rightarrow> int) \<Rightarrow> till \<Rightarrow> bool" where
  "gapless n0 t \<longleftrightarrow> (\<forall>u n. map_of (t_next t) u = Some n \<longrightarrow>
     n0 u \<le> n \<and> mset (numbers_of u (t_bills t)) = mset (map bill_number [n0 u..n - 1]))"

definition till_ok :: "(id \<Rightarrow> int) \<Rightarrow> till \<Rightarrow> bool" where
  "till_ok n0 t \<longleftrightarrow> distinct (map bv_id (t_bills t)) \<and> (\<forall>v \<in> set (t_bills t). bv_status v = OPEN \<longrightarrow> bv_billNumber v = None)
     \<and> one_per_table t \<and> gapless n0 t"

lemma numbers_of_simps [simp]:
  "numbers_of u [] = []"
  "numbers_of u (v # vs) = (case bv_billNumber v of Some b \<Rightarrow> if bv_outletId v = u then [b] else [] | None \<Rightarrow> []) @ numbers_of u vs"
  "numbers_of u (vs @ ws) = numbers_of u vs @ numbers_of u ws"
  by (simp_all add: numbers_of_def)

lemma map_of_advance: "map_of (advance u m) k = (if k = u then map_option (\<lambda>n. n + 1) (map_of m k) else map_of m k)"
  by (induction m) (auto simp: advance_def)

lemma gapless_next:
  assumes "gapless n0 t" and n: "map_of (t_next t) u = Some n"
    and new: "\<And>k. mset (numbers_of k bs) = mset (numbers_of k (t_bills t)) + (if k = u then {#bill_number n#} else {#})"
  shows "gapless n0 \<lparr>t_bills = bs, t_next = advance u (t_next t)\<rparr>"
proof -
  have "n0 k \<le> m \<and> mset (numbers_of k bs) = mset (map bill_number [n0 k..m - 1])"
    if "map_of (advance u (t_next t)) k = Some m" for k m
  proof (cases "k = u")
    case True
    then have m: "m = n + 1" using that n by (simp add: map_of_advance)
    have "n0 u \<le> n" "mset (numbers_of u (t_bills t)) = mset (map bill_number [n0 u..n - 1])"
      using assms(1) n by (auto simp: gapless_def)
    moreover have "[n0 u..n] = [n0 u..n - 1] @ [n]" using \<open>n0 u \<le> n\<close> by (rule upto_rec2)
    ultimately show ?thesis using True m new [of u] by simp
  next
    case False
    then show ?thesis using that assms(1) new [of k] by (simp add: map_of_advance gapless_def)
  qed
  then show ?thesis by (simp add: gapless_def)
qed

lemma numbers_of_same:
  "(\<And>v. v \<in> set vs \<Longrightarrow> bv_billNumber (f v) = bv_billNumber v \<and> bv_outletId (f v) = bv_outletId v) \<Longrightarrow>
     numbers_of u (map f vs) = numbers_of u vs"
  by (induction vs) (auto split: option.split)

lemma numbers_of_settle:
  assumes "distinct (map bv_id vs)" and "v \<in> set vs" and "bv_billNumber v = None"
  shows "mset (numbers_of u (set_row bv_id (bv_id v) (\<lambda>w. w\<lparr>bv_status := SETTLED, bv_billNumber := Some b\<rparr>) vs))
    = mset (numbers_of u vs) + (if u = bv_outletId v then {#b#} else {#})"
  using assms
proof (induction vs)
  case (Cons w vs)
  show ?case
  proof (cases "w = v")
    case True
    then have "bv_id v \<notin> bv_id ` set vs" using Cons.prems by simp
    then have "update_where (\<lambda>r. bv_id r = bv_id v) f vs = vs" for f
      unfolding update_where_def by (intro map_idI) (auto simp: image_iff)
    then show ?thesis using True Cons.prems by (simp add: set_row_def)
  next
    case False
    then have "v \<in> set vs" "bv_id w \<noteq> bv_id v" using Cons.prems by auto
    then show ?thesis using Cons False by (simp add: set_row_def)
  qed
qed simp

lemma numbers_of_filter:
  "\<forall>v \<in> set vs. \<not> P v \<longrightarrow> bv_billNumber v = None \<Longrightarrow> numbers_of u (filter P vs) = numbers_of u vs"
  by (induction vs) auto

lemma gapless_same:
  assumes "gapless n0 t" and "\<And>u. mset (numbers_of u bs) = mset (numbers_of u (t_bills t))"
  shows "gapless n0 (t\<lparr>t_bills := bs\<rparr>)"
  using assms by (simp add: gapless_def)

lemma one_per_table_mono:
  assumes "one_per_table t"
    and "\<And>v. v \<in> set (t_bills t') \<Longrightarrow> bv_status v = OPEN \<Longrightarrow>
      \<exists>w \<in> set (t_bills t). bv_status w = OPEN \<and> bv_id w = bv_id v \<and> bv_tableId w = bv_tableId v
        \<and> bv_tenantId w = bv_tenantId v \<and> bv_outletId w = bv_outletId v"
  shows "one_per_table t'"
  unfolding one_per_table_def
proof (intro ballI impI)
  fix v w assume v: "v \<in> set (t_bills t')" "w \<in> set (t_bills t')" "bv_status v = OPEN" "bv_status w = OPEN" "bv_tableId v \<noteq> None"
    "bv_tableId w = bv_tableId v" "bv_tenantId w = bv_tenantId v" "bv_outletId w = bv_outletId v"
  from assms(2) [OF v(1,3)] obtain v' where v': "v' \<in> set (t_bills t)" "bv_status v' = OPEN" "bv_id v' = bv_id v"
    "bv_tableId v' = bv_tableId v" "bv_tenantId v' = bv_tenantId v" "bv_outletId v' = bv_outletId v" by (elim bexE conjE)
  from assms(2) [OF v(2,4)] obtain w' where w': "w' \<in> set (t_bills t)" "bv_status w' = OPEN" "bv_id w' = bv_id w"
    "bv_tableId w' = bv_tableId w" "bv_tenantId w' = bv_tenantId w" "bv_outletId w' = bv_outletId w" by (elim bexE conjE)
  have "bv_id w' = bv_id v'" using assms(1) [unfolded one_per_table_def, rule_format, OF v'(1) w'(1)] v v' w' by simp
  then show "bv_id w = bv_id v" using v' w' by simp
qed

lemma one_per_tableD:
  "one_per_table t \<Longrightarrow> v \<in> set (t_bills t) \<Longrightarrow> w \<in> set (t_bills t) \<Longrightarrow> bv_status v = OPEN \<Longrightarrow> bv_status w = OPEN \<Longrightarrow>
     bv_tableId v \<noteq> None \<Longrightarrow> bv_tableId w = bv_tableId v \<Longrightarrow> bv_tenantId w = bv_tenantId v \<Longrightarrow> bv_outletId w = bv_outletId v \<Longrightarrow>
     bv_id w = bv_id v"
  unfolding one_per_table_def by blast

lemma one_per_table_insert:
  assumes "one_per_table t" and free: "bv_status v = OPEN \<Longrightarrow> \<not> occupied t (bv_tenantId v) (bv_outletId v) (bv_tableId v)"
  shows "one_per_table (t\<lparr>t_bills := t_bills t @ [v]\<rparr>)"
  unfolding one_per_table_def
proof (intro ballI impI)
  fix x y assume "x \<in> set (t_bills (t\<lparr>t_bills := t_bills t @ [v]\<rparr>))" "y \<in> set (t_bills (t\<lparr>t_bills := t_bills t @ [v]\<rparr>))"
    and xy: "bv_status x = OPEN" "bv_status y = OPEN" "bv_tableId x \<noteq> None" "bv_tableId y = bv_tableId x"
      "bv_tenantId y = bv_tenantId x" "bv_outletId y = bv_outletId x"
  then consider "x = v" "y = v" | "x = v" "y \<in> set (t_bills t)" | "x \<in> set (t_bills t)" "y = v"
    | "x \<in> set (t_bills t)" "y \<in> set (t_bills t)" by auto
  then show "bv_id y = bv_id x"
  proof cases
    case 4
    then show ?thesis using one_per_tableD [OF assms(1) _ _ xy] by simp
  qed (use free xy in \<open>auto simp: occupied_def\<close>)
qed

lemma till_step_ok:
  assumes "till_step t t'" and ok: "till_ok n0 t" shows "till_ok n0 t'"
proof -
  have d: "distinct (map bv_id (t_bills t))" and un: "\<forall>v \<in> set (t_bills t). bv_status v = OPEN \<longrightarrow> bv_billNumber v = None"
    and one: "one_per_table t" and gap: "gapless n0 t"
    using ok by (auto simp: till_ok_def)
  from assms(1) show ?thesis
  proof cases
    case (opens v)
    have "one_per_table t'" unfolding opens(1) by (rule one_per_table_insert [OF one opens(5)])
    moreover have "gapless n0 t'" unfolding opens(1) using opens by (intro gapless_same [OF gap]) simp
    ultimately show ?thesis using d un opens by (auto simp: till_ok_def)
  next
    case (arrives v n)
    have "one_per_table t'" unfolding arrives(1) using arrives by (intro one_per_table_mono [OF one]) auto
    moreover have "gapless n0 t'" unfolding arrives(1) using arrives by (intro gapless_next [OF gap arrives(4)]) auto
    ultimately show ?thesis using d un arrives by (auto simp: till_ok_def)
  next
    case (settles v n)
    let ?f = "\<lambda>w. w\<lparr>bv_status := SETTLED, bv_billNumber := Some (bill_number n)\<rparr>"
    have "one_per_table t'" unfolding settles(1)
      by (rule one_per_table_mono [OF one]) (auto elim!: set_row_memberE)
    moreover have "gapless n0 t'" unfolding settles(1) using settles un
      by (intro gapless_next [OF gap settles(4)] numbers_of_settle [OF d]) auto
    moreover have "distinct (map bv_id (t_bills t'))" using d settles(1) by (simp add: map_key_set_row)
    moreover have "\<forall>w \<in> set (t_bills t'). bv_status w = OPEN \<longrightarrow> bv_billNumber w = None"
      unfolding settles(1) using un by (auto elim!: set_row_memberE)
    ultimately show ?thesis by (simp add: till_ok_def)
  next
    case (closes S s)
    have "one_per_table t'" unfolding closes(1)
      by (rule one_per_table_mono [OF one]) (use closes(3) in \<open>auto simp: set_update_where split: if_splits\<close>)
    moreover have "gapless n0 t'" unfolding closes(1)
      by (rule gapless_same [OF gap]) (auto simp: update_where_def intro!: arg_cong [of _ _ mset] numbers_of_same)
    moreover have "distinct (map bv_id (t_bills t'))" using d closes(1) by (simp add: map_update_where)
    moreover have "\<forall>w \<in> set (t_bills t'). bv_status w = OPEN \<longrightarrow> bv_billNumber w = None"
      unfolding closes(1) using un closes(3) by (auto simp: set_update_where split: if_splits)
    ultimately show ?thesis by (simp add: till_ok_def)
  next
    case (moves v tb)
    let ?bs = "set_row bv_id (bv_id v) (\<lambda>w. w\<lparr>bv_tableId := tb\<rparr>) (t_bills t)"
    have same: "w = v" if "w \<in> set (t_bills t)" "bv_id w = bv_id v" for w
      using row_by_distinct [OF d] that moves(2) by (metis option.inject)
    have "one_per_table t'" unfolding moves(1) one_per_table_def
    proof (intro ballI impI)
      fix x y assume "x \<in> set (t_bills (t\<lparr>t_bills := ?bs\<rparr>))" "y \<in> set (t_bills (t\<lparr>t_bills := ?bs\<rparr>))"
        and xy: "bv_status x = OPEN" "bv_status y = OPEN" "bv_tableId x \<noteq> None" "bv_tableId y = bv_tableId x"
          "bv_tenantId y = bv_tenantId x" "bv_outletId y = bv_outletId x"
      then have xb: "x \<in> set ?bs" and yb: "y \<in> set ?bs" by simp_all
      have m: "z = v\<lparr>bv_tableId := tb\<rparr> \<or> z \<in> set (t_bills t)" if "z \<in> set ?bs" for z
        using that same by (elim set_row_memberE) auto
      from m [OF xb] m [OF yb] consider "x = v\<lparr>bv_tableId := tb\<rparr>" "y = v\<lparr>bv_tableId := tb\<rparr>"
        | "x = v\<lparr>bv_tableId := tb\<rparr>" "y \<in> set (t_bills t)" | "x \<in> set (t_bills t)" "y = v\<lparr>bv_tableId := tb\<rparr>"
        | "x \<in> set (t_bills t)" "y \<in> set (t_bills t)" by blast
      then show "bv_id y = bv_id x"
      proof cases
        case 4
        then show ?thesis using one_per_tableD [OF one _ _ xy] by simp
      qed (use moves(4) xy in \<open>auto simp: occupied_def\<close>)
    qed
    moreover have "gapless n0 t'" unfolding moves(1)
      by (rule gapless_same [OF gap]) (auto simp: set_row_def update_where_def intro!: arg_cong [of _ _ mset] numbers_of_same)
    moreover have "distinct (map bv_id (t_bills t'))" using d moves(1) by (simp add: map_key_set_row)
    moreover have "\<forall>w \<in> set (t_bills t'). bv_status w = OPEN \<longrightarrow> bv_billNumber w = None"
      unfolding moves(1) using un by (auto elim!: set_row_memberE)
    ultimately show ?thesis by (simp add: till_ok_def)
  next
    case (removes P)
    have "one_per_table t'" using one unfolding removes(1) one_per_table_def by simp
    moreover have "gapless n0 t'" unfolding removes(1) using removes(2) un
      by (intro gapless_same [OF gap]) (simp add: numbers_of_filter)
    moreover have "distinct (map bv_id (t_bills t'))" using d removes(1) by (simp add: distinct_map_filter)
    ultimately show ?thesis using un removes(1) by (simp add: till_ok_def)
  qed
qed

lemma till_steps_ok: "till_step\<^sup>*\<^sup>* t t' \<Longrightarrow> till_ok n0 t \<Longrightarrow> till_ok n0 t'"
  by (induction rule: rtranclp_induct) (auto intro: till_step_ok)

section \<open>Abstraction\<close>

definition view :: "order_row \<Rightarrow> bill_view" where
  "view r = \<lparr> bv_id = o_id r, bv_tenantId = o_tenantId r, bv_outletId = o_outletId r, bv_tableId = o_tableId r,
     bv_status = o_status r, bv_billNumber = o_billNumber r \<rparr>"

definition till_of :: "db \<Rightarrow> till" where
  "till_of d = \<lparr> t_bills = map view (orders d), t_next = map (\<lambda>u. (ou_id u, ou_nextBillNumber u)) (outlets d) \<rparr>"

text \<open>The order ids are drawn from the source: the ones still to come are unused.\<close>

definition orders_drawn :: "(nat \<Rightarrow> id) \<Rightarrow> db \<Rightarrow> bool" where
  "orders_drawn src d \<longleftrightarrow> o_id ` set (orders d) \<subseteq> src ` {..<seq d}"

definition shop_ok :: "(nat \<Rightarrow> id) \<Rightarrow> (id \<Rightarrow> int) \<Rightarrow> db \<Rightarrow> bool" where
  "shop_ok src n0 d \<longleftrightarrow> inj src \<and> orders_drawn src d \<and> till_ok n0 (till_of d)"

definition refines :: "(nat \<Rightarrow> id) \<Rightarrow> db \<Rightarrow> db \<Rightarrow> bool" where
  "refines src d d' \<longleftrightarrow> till_step\<^sup>*\<^sup>* (till_of d) (till_of d') \<and> orders_drawn src d'"

lemma view_simps [simp]:
  "bv_id (view r) = o_id r" "bv_tenantId (view r) = o_tenantId r" "bv_outletId (view r) = o_outletId r"
  "bv_tableId (view r) = o_tableId r" "bv_status (view r) = o_status r" "bv_billNumber (view r) = o_billNumber r"
  by (simp_all add: view_def)

lemma shop_ok_refines: "shop_ok src n0 d \<Longrightarrow> refines src d d' \<Longrightarrow> shop_ok src n0 d'"
  by (auto simp: shop_ok_def refines_def intro: till_steps_ok)

lemma refines_trans: "refines src a b \<Longrightarrow> refines src b c \<Longrightarrow> refines src a c"
  by (auto simp: refines_def)

lemma shop_ok_distinct: "shop_ok src n0 d \<Longrightarrow> distinct (map o_id (orders d))"
  by (simp add: shop_ok_def till_ok_def till_of_def comp_def)

lemma shop_ok_fresh: "shop_ok src n0 d \<Longrightarrow> src (seq d) \<notin> o_id ` set (orders d)"
  by (auto simp: shop_ok_def orders_drawn_def dest!: inj_onD subsetD)

lemma orders_drawn_mono:
  "orders_drawn src d \<Longrightarrow> o_id ` set (orders d') \<subseteq> o_id ` set (orders d) \<Longrightarrow> seq d \<le> seq d' \<Longrightarrow> orders_drawn src d'"
  unfolding orders_drawn_def by (meson image_mono lessThan_subset_iff subset_trans)

lemma refines_same:
  "shop_ok src n0 d \<Longrightarrow> till_of d' = till_of d \<Longrightarrow> o_id ` set (orders d') = o_id ` set (orders d) \<Longrightarrow> seq d \<le> seq d' \<Longrightarrow> refines src d d'"
  using orders_drawn_mono [of src d d'] by (simp add: refines_def shop_ok_def)

lemma refines_one:
  "shop_ok src n0 d \<Longrightarrow> till_step (till_of d) (till_of d') \<Longrightarrow> o_id ` set (orders d') \<subseteq> o_id ` set (orders d) \<Longrightarrow> seq d \<le> seq d' \<Longrightarrow> refines src d d'"
  using orders_drawn_mono [of src d d'] by (auto simp: refines_def shop_ok_def)

text \<open>What leaves the bills alone.\<close>

definition same_till :: "db \<Rightarrow> db \<Rightarrow> bool" where
  "same_till d d' \<longleftrightarrow> map view (orders d') = map view (orders d)
     \<and> map (\<lambda>u. (ou_id u, ou_nextBillNumber u)) (outlets d') = map (\<lambda>u. (ou_id u, ou_nextBillNumber u)) (outlets d) \<and> seq d \<le> seq d'"

lemma same_till_refl [simp]: "same_till d d"
  by (simp add: same_till_def)

lemma same_till_trans: "same_till a b \<Longrightarrow> same_till b c \<Longrightarrow> same_till a c"
  by (auto simp: same_till_def)

lemma same_till_of: "same_till d d' \<Longrightarrow> till_of d' = till_of d"
  by (simp add: same_till_def till_of_def)

lemma same_till_ids: "same_till d d' \<Longrightarrow> o_id ` set (orders d') = o_id ` set (orders d)"
proof -
  assume "same_till d d'"
  then have "map bv_id (map view (orders d')) = map bv_id (map view (orders d))" by (simp only: same_till_def)
  then have "map o_id (orders d') = map o_id (orders d)" by (simp add: comp_def)
  then show ?thesis by (metis list.set_map)
qed

lemma refines_same_till: "shop_ok src n0 d \<Longrightarrow> same_till d d' \<Longrightarrow> refines src d d'"
  by (rule refines_same) (auto simp: same_till_of same_till_ids same_till_def)

lemma same_till_core: "same_core d d' \<Longrightarrow> same_till d d'"
  by (simp add: same_core_def same_till_def)

lemma same_till_audit [simp]: "same_till d (audit t u a en i d)" "same_till d (op_audit user a i d)"
  by (simp_all add: op_audit_def same_till_core)

lemma map_view_set_row: "(\<And>r. view (f r) = view r) \<Longrightarrow> map view (set_row o_id i f os) = map view os"
  by (simp add: set_row_def map_update_where)

lemma same_till_recompute: "recomputeTotals i x pl d = Inr (row, d') \<Longrightarrow> same_till d d'"
  by (elim recomputeTotals_Inr) (simp add: same_till_def map_view_set_row view_def)

lemma same_till_recomputed: "recomputeTotals i x pl d = Inr p \<Longrightarrow> same_till d (snd p)"
  by (cases p) (simp add: same_till_recompute)

lemma same_till_punch:
  assumes "punchItems e actor i u inputs cs opts d = Inr (x, d')" shows "same_till d d'"
proof -
  have "map (\<lambda>u. (ou_id u, ou_nextBillNumber u)) (set_row ou_id u (\<lambda>u. u\<lparr>ou_nextKotNumber := ou_nextKotNumber u + 1\<rparr>) us)
      = map (\<lambda>u. (ou_id u, ou_nextBillNumber u)) us" for us
    by (simp add: set_row_def map_update_where)
  then show ?thesis using punch_core [OF assms] by (simp add: same_till_def)
qed

lemma same_till_punched:
  assumes "punchItems e actor i u inputs cs opts d = Inr (x, d1)" and "recomputeTotals i y pl d1 = Inr (row, d2)"
  shows "same_till d d2"
  using same_till_trans [OF same_till_punch [OF assms(1)] same_till_recompute [OF assms(2)]] .

text \<open>Opening a bill.\<close>

lemma occupied_iff: "occupied (till_of d) t u (Some tb) \<longleftrightarrow> open_on_table t u tb d \<noteq> None"
  by (auto simp: occupied_def till_of_def open_on_table_def find_None_iff_ball)

lemma refines_create_order:
  assumes ok: "shop_ok src n0 d" and e: "e_cuid e = src" and run: "create_order e mk d = Inr (i, d')"
    and mk: "\<And>i. o_id (mk i) = i" "\<And>i. o_status (mk i) = OPEN" "\<And>i. o_billNumber (mk i) = None"
    and free: "\<And>i tb. o_tableId (mk i) = Some tb \<Longrightarrow> open_on_table (o_tenantId (mk i)) (o_outletId (mk i)) tb d = None"
  shows "refines src d d'" "i = src (seq d)" "seq d' = seq d + 1"
proof -
  note c = create_order_Inr [OF run]
  show i: "i = src (seq d)" "seq d' = seq d + 1" using c e by simp_all
  have fr: "i \<notin> o_id ` set (orders d)" using shop_ok_fresh [OF ok] i by simp
  have "till_of d' = (till_of d)\<lparr>t_bills := t_bills (till_of d) @ [view (mk i)]\<rparr>" using c(2) by (simp add: till_of_def)
  moreover have "till_step (till_of d) ((till_of d)\<lparr>t_bills := t_bills (till_of d) @ [view (mk i)]\<rparr>)"
  proof (rule till_step.opens)
    show "bv_id (view (mk i)) \<notin> bv_id ` set (t_bills (till_of d))" using fr mk by (auto simp: till_of_def)
    show "\<not> occupied (till_of d) (bv_tenantId (view (mk i))) (bv_outletId (view (mk i))) (bv_tableId (view (mk i)))"
      using free [of i] by (cases "o_tableId (mk i)") (auto simp: occupied_iff, auto simp: occupied_def)
  qed (simp_all add: mk)
  moreover have "orders_drawn src d'" using ok c(2) i mk by (auto simp: shop_ok_def orders_drawn_def dest!: subsetD)
  ultimately show "refines src d d'" by (simp add: refines_def)
qed

section \<open>Every operation refines the machine\<close>

lemma refines_then_same: "shop_ok src n0 d \<Longrightarrow> refines src d d1 \<Longrightarrow> same_till d1 d2 \<Longrightarrow> refines src d d2"
  using refines_trans refines_same_till shop_ok_refines by blast

lemma blank_order_simps [simp]:
  "o_id (blank_order i t u ty) = i" "o_status (blank_order i t u ty) = OPEN" "o_billNumber (blank_order i t u ty) = None"
  "o_tenantId (blank_order i t u ty) = t" "o_outletId (blank_order i t u ty) = u" "o_tableId (blank_order i t u ty) = None"
  by (simp_all add: blank_order_def)

lemma create_refines:
  assumes ok: "shop_ok src n0 d" and e: "e_cuid e = src" and run: "create e user input d = Inr (i, d')"
  shows "refines src d d'"
proof -
  let ?mk = "\<lambda>i. (blank_order i (u_tenantId user) (no_outletId input) (no_orderType input))
     \<lparr> o_tableId := (if no_orderType input = DINE_IN then no_tableId input else None),
       o_customerName := no_customerName input, o_customerPhone := no_customerPhone input, o_createdById := Some (u_id user) \<rparr>"
  from run obtain cd pd rd where
    1: "no_orderType input = DINE_IN \<Longrightarrow> claim_table (u_tenantId user) (no_outletId input) (no_tableId input) d = Inr ()"
    and 2: "create_order e ?mk d = Inr cd"
    and 3: "punchItems e (user_actor user) (fst cd) (no_outletId input) (no_items input) (no_combos input) (pos_options (no_orderType input)) (snd cd) = Inr pd"
    and 4: "recomputeTotals (fst cd) None False (snd pd) = Inr rd"
    and 5: "d' = audit (u_tenantId user) (Some (u_id user)) ''ORDER_CREATED'' ''order'' (fst cd) (snd rd)"
    unfolding create_def guard_simps case_prod_beta sum.inject prod.inject
    by (elim exE conjE) (rule that, simp, assumption+, erule sym)
  have "refines src d (snd cd)"
    using 2 1 by (intro refines_create_order(1) [OF ok e, of ?mk "fst cd"]) (auto simp: claim_table_def guard_simps split: if_splits)
  moreover have "same_till (snd cd) (snd rd)" using same_till_punched [of e _ "fst cd"] 3 4 by (metis prod.collapse)
  then have "same_till (snd cd) d'" using 5 same_till_trans same_till_audit(1) by blast
  ultimately show ?thesis by (rule refines_then_same [OF ok])
qed

lemma addItems_refines:
  assumes ok: "shop_ok src n0 d" and run: "addItems e user i inputs cs d = Inr d'"
  shows "refines src d d'"
proof -
  from run obtain order :: order_row and pd rd where "punchItems e (user_actor user) (o_id order) (o_outletId order) inputs cs (pos_options (o_orderType order)) d = Inr pd"
    and "recomputeTotals (o_id order) None False (snd pd) = Inr rd" and "d' = snd rd"
    unfolding addItems_def guard_simps case_prod_beta sum.inject
    by (elim exE conjE) (rule that, assumption+, erule sym)
  then have "same_till d d'" using same_till_punched [of e "user_actor user" "o_id order"] by (metis prod.collapse)
  then show ?thesis by (rule refines_same_till [OF ok])
qed

text \<open>Closing the open orders of a set of ids.\<close>

lemma map_id_view: "map bv_id (map view os) = map o_id os"
  by simp

lemma refines_close_view:
  assumes ok: "shop_ok src n0 d" and os: "\<And>r. r \<in> set (orders d) \<Longrightarrow> o_id r \<in> S \<Longrightarrow> o_status r = OPEN"
    and s: "s \<in> {CANCELLED, SPLIT, MERGED}"
    and v: "map view (orders d') = update_where (\<lambda>v. bv_id v \<in> S) (\<lambda>v. v\<lparr>bv_status := s\<rparr>) (map view (orders d))"
    and d': "outlets d' = outlets d" "seq d \<le> seq d'"
  shows "refines src d d'"
proof (rule refines_one [OF ok])
  have "till_of d' = (till_of d)\<lparr>t_bills := update_where (\<lambda>v. bv_id v \<in> S) (\<lambda>v. v\<lparr>bv_status := s\<rparr>) (t_bills (till_of d))\<rparr>"
    by (simp add: till_of_def d' v)
  moreover have "\<forall>v \<in> set (t_bills (till_of d)). bv_id v \<in> S \<longrightarrow> bv_status v = OPEN" using os by (auto simp: till_of_def)
  ultimately show "till_step (till_of d) (till_of d')" using till_step.closes [OF _ s] by simp
  have "map bv_id (map view (orders d')) = map bv_id (map view (orders d))" unfolding v by (rule map_update_where) simp
  then have "map o_id (orders d') = map o_id (orders d)" unfolding map_id_view .
  then show "o_id ` set (orders d') \<subseteq> o_id ` set (orders d)" by (metis list.set_map order_refl)
  show "seq d \<le> seq d'" by (rule d')
qed

lemma refines_close:
  assumes "shop_ok src n0 d" and "\<And>r. r \<in> set (orders d) \<Longrightarrow> o_id r \<in> S \<Longrightarrow> o_status r = OPEN"
    and f: "\<And>r. view (f r) = (view r)\<lparr>bv_status := s\<rparr>" and "s \<in> {CANCELLED, SPLIT, MERGED}"
    and d': "orders d' = update_where (\<lambda>r. o_id r \<in> S) f (orders d)" "outlets d' = outlets d" "seq d \<le> seq d'"
  shows "refines src d d'"
  by (rule refines_close_view [OF assms(1,2,4) _ d'(2,3)]) (auto simp: d'(1) update_where_def f)

lemma set_row_as_where: "set_row key i f = update_where (\<lambda>r. key r \<in> {i}) f"
  by (simp add: set_row_def)

lemma row_of_id: "shop_ok src n0 d \<Longrightarrow> r \<in> set (orders d) \<Longrightarrow> s \<in> set (orders d) \<Longrightarrow> o_id r = o_id s \<Longrightarrow> r = s"
  by (metis shop_ok_distinct ord.row_by_member option.inject)

lemma cancel_refines:
  assumes ok: "shop_ok src n0 d" and run: "cancel user i d = Inr d'" shows "refines src d d'"
proof -
  let ?f = "\<lambda>r. r\<lparr>o_status := CANCELLED, o_version := o_version r + 1\<rparr>"
  from run obtain r where l: "lockOpenOrder user i d = Inr r"
    and d': "d' = audit (u_tenantId user) (Some (u_id user)) ''ORDER_CANCELLED'' ''order'' (o_id r) (orders_update (set_row o_id (o_id r) ?f) d)"
    unfolding cancel_def guard_simps sum.inject by (elim exE conjE) (rule that, assumption, erule sym)
  note r = lockOpenOrder_Inr [OF l]
  have "refines src d (orders_update (set_row o_id (o_id r) ?f) d)"
    by (rule refines_close [OF ok, of "{o_id r}" ?f CANCELLED]) (use r row_of_id [OF ok] in \<open>auto simp: view_def set_row_as_where\<close>)
  then show ?thesis unfolding d' by (rule refines_then_same [OF ok]) simp
qed

lemma advance_outlets:
  "map (\<lambda>u. (ou_id u, ou_nextBillNumber u)) (set_row ou_id k (\<lambda>u. u\<lparr>ou_nextBillNumber := ou_nextBillNumber u + 1\<rparr>) us)
     = advance k (map (\<lambda>u. (ou_id u, ou_nextBillNumber u)) us)"
  by (simp add: advance_def set_row_def update_where_def)

lemma next_of_outlet:
  "row_by ou_id k us = Some row \<Longrightarrow> map_of (map (\<lambda>u. (ou_id u, ou_nextBillNumber u)) us) k = Some (ou_nextBillNumber row)"
  by (induction us) (auto split: if_splits)

lemma closeSplit_refines:
  assumes ok: "shop_ok src n0 d" and run: "closeSplitParentIfDone user p d = Inr d'" shows "refines src d d'"
  using closeSplit_Inr [OF run]
proof (elim disjE exE conjE)
  assume "same_core d d'"
  then show ?thesis using refines_same_till [OF ok] same_till_core by blast
next
  fix r assume r: "List.find (\<lambda>r. o_id r = p \<and> o_tenantId r = u_tenantId user) (orders d) = Some r" "o_status r = OPEN"
    and c: "same_core (orders_update (set_row o_id p split_closed) d) d'"
  have "o_status x = OPEN" if "x \<in> set (orders d)" "o_id x \<in> {p}" for x
    using row_of_id [OF ok that(1), of r] find_SomeD [OF r(1)] r(2) that(2) by simp
  then have "refines src d (orders_update (set_row o_id p split_closed) d)"
    by (rule refines_close [OF ok, where S = "{p}" and f = split_closed and s = SPLIT])
      (simp_all add: view_def split_closed_def set_row_as_where)
  then show ?thesis by (rule refines_then_same [OF ok _ same_till_core [OF c]])
qed

lemma settle_refines:
  assumes ok: "shop_ok src n0 d" and run: "settle e user i input d = Inr d'" shows "refines src d d'"
proof -
  from run obtain order outletRow and ds :: discounts and totals sc cid old d8 where
    s: "lockOpenOrder user i d = Inr order" "row_by ou_id (o_outletId order) (outlets d) = Some outletRow"
    and o8: "orders d8 = set_row o_id i (mark_settled (bill_number (ou_nextBillNumber outletRow)) cid (settle_name input order)
       (settle_phone input order) (map_option cp_code (ds_coupon ds)) \<circ> write_totals totals sc) (orders d)"
    and u8: "outlets d8 = set_row ou_id (o_outletId order) (\<lambda>u. u\<lparr>ou_nextBillNumber := ou_nextBillNumber u + 1\<rparr>) (outlets d)"
    and q8: "seq d \<le> seq d8"
    and close: "if truthy (o_parentOrderId order) then closeSplitParentIfDone user (the (o_parentOrderId order)) d8 = Inr d' else d' = d8"
    by (elim settle_effect) (rule that, assumption+)
  note r = lockOpenOrder_Inr [OF s(1)]
  let ?m = "\<lambda>w. w\<lparr>bv_status := SETTLED, bv_billNumber := Some (bill_number (ou_nextBillNumber outletRow))\<rparr>"
  have v: "map view (set_row o_id i (mark_settled b cid n p k \<circ> write_totals totals sc) os)
      = set_row bv_id i (\<lambda>w. w\<lparr>bv_status := SETTLED, bv_billNumber := Some b\<rparr>) (map view os)" for b n p k os
    by (simp add: set_row_def update_where_def view_def)
  have "till_of d8 = \<lparr>t_bills = set_row bv_id (bv_id (view order)) ?m (t_bills (till_of d)),
      t_next = advance (bv_outletId (view order)) (t_next (till_of d))\<rparr>"
    using r by (simp add: till_of_def o8 u8 v advance_outlets)
  moreover have "till_step (till_of d) \<lparr>t_bills = set_row bv_id (bv_id (view order)) ?m (t_bills (till_of d)),
      t_next = advance (bv_outletId (view order)) (t_next (till_of d))\<rparr>"
    by (rule till_step.settles) (use r next_of_outlet [OF s(2)] in \<open>simp_all add: till_of_def\<close>)
  ultimately have "refines src d d8" using q8 by (intro refines_one [OF ok]) (simp_all add: o8 image_key_set_row)
  then show ?thesis
    using close closeSplit_refines [OF shop_ok_refines [OF ok]] refines_trans by (metis (full_types))
qed

lemma aggregator_refines:
  assumes ok: "shop_ok src n0 d" and e: "e_cuid e = src" and run: "ingestAggregatorOrderTx e t u inputs nm ph ch d = Inr (reply, d')"
  shows "refines src d d'"
proof -
  let ?mk = "\<lambda>i. (blank_order i t u DELIVERY)\<lparr> o_customerName := nm, o_customerPhone := ph \<rparr>"
  from run obtain cd pd rd where
    2: "create_order e ?mk d = Inr cd"
    and 3: "punchItems e \<lparr> ac_tenantId = t, ac_id = None \<rparr> (fst cd) u inputs [] \<lparr> po_source = SourceAGGREGATOR ch, po_offline = False, po_at = None \<rparr> (snd cd) = Inr pd"
    and 4: "recomputeTotals (fst cd) None False (snd pd) = Inr rd" and 5: "d' = snd rd"
    unfolding ingestAggregatorOrderTx_def guard_simps case_prod_beta sum.inject prod.inject
    by (elim exE conjE) (rule that, assumption+, erule sym)
  have "refines src d (snd cd)" using 2 by (intro refines_create_order(1) [OF ok e, of ?mk "fst cd"]) auto
  moreover have "same_till (snd cd) d'" using same_till_punched [of e _ "fst cd"] 3 4 5 by (metis prod.collapse)
  ultimately show ?thesis by (rule refines_then_same [OF ok])
qed

lemma scan_refines:
  assumes ok: "shop_ok src n0 d" and e: "e_cuid e = src" and run: "ingestScanOrder e t u dineIn tb inputs cs nm ph d = Inr (reply, d')"
  shows "refines src d d'"
proof -
  let ?mk = "\<lambda>i. (blank_order i t u (if dineIn then DINE_IN else TAKEAWAY))
      \<lparr> o_tableId := (if dineIn then tb else None), o_customerName := nm, o_customerPhone := ph \<rparr>"
  let ?run = "if dineIn then open_on_table t u (the tb) d else None"
  from run obtain od pd rd where
    1: "(case ?run of Some order \<Rightarrow> ebind (require (\<not> nonzero (o_splitCount order))
                 (BadRequest [Txt ''This table's bill is being split; ask staff to finish billing first''])) (\<lambda>_. Inr (o_id order, d))
           | None \<Rightarrow> create_order e ?mk d) = Inr od"
    and 3: "punchItems e \<lparr> ac_tenantId = t, ac_id = None \<rparr> (fst od) u inputs cs \<lparr> po_source = SourceSCAN dineIn, po_offline = False, po_at = None \<rparr> (snd od) = Inr pd"
    and 4: "recomputeTotals (fst od) None False (snd pd) = Inr rd" and 5: "d' = snd rd"
    unfolding ingestScanOrder_def Let_def guard_simps case_prod_beta sum.inject prod.inject
    by (elim exE conjE) (rule that, assumption+, erule sym)
  have "refines src d (snd od)"
  proof (cases ?run)
    case None
    then have "create_order e ?mk d = Inr (fst od, snd od)" using 1 by simp
    then show ?thesis using None by (intro refines_create_order(1) [OF ok e, of ?mk "fst od"]) (auto split: if_splits)
  next
    case (Some r)
    then have "snd od = d" using 1 by (auto simp: guard_simps)
    then show ?thesis using refines_same_till [OF ok same_till_refl] by simp
  qed
  moreover have "same_till (snd od) d'" using same_till_punched [of e _ "fst od"] 3 4 5 by (metis prod.collapse)
  ultimately show ?thesis by (rule refines_then_same [OF ok])
qed

text \<open>Offline orders: open or cancelled ones open a bill, settled ones arrive with the next number.\<close>

lemma kot_outlets:
  "map (\<lambda>u. (ou_id u, ou_nextBillNumber u)) (set_row ou_id k (\<lambda>u. u\<lparr>ou_nextKotNumber := ou_nextKotNumber u + 1\<rparr>) us)
     = map (\<lambda>u. (ou_id u, ou_nextBillNumber u)) us"
  by (simp add: set_row_def map_update_where)

lemma view_write_totals [simp]: "view (write_totals t sc r) = view r"
  by (simp add: view_def)

lemma sync_insert_refines:
  assumes ok: "shop_ok src n0 d" and e: "e_cuid e = src" and st: "so_status order \<in> {OPEN, SETTLED, CANCELLED}"
    and run: "sync_insert e t u dev order d = Inr (i, d')"
    and free: "so_status order = OPEN \<Longrightarrow> so_orderType order = DINE_IN \<Longrightarrow> open_on_table t u (the (so_tableId order)) d = None"
  shows "refines src d d'"
proof -
  from run obtain b totals sc d1 where b: "sync_bill u order d = Inr (b, d1)" and i': "i = e_cuid e (seq d)" and q: "seq d < seq d'"
    and os: "orders d' = set_row o_id i (write_totals totals sc) (orders d @ [sync_order_row t u dev order b i])"
    and us: "outlets d' = set_row ou_id u (\<lambda>u. u\<lparr>ou_nextKotNumber := ou_nextKotNumber u + 1\<rparr>) (outlets d1)"
    by (elim sync_insert_effect) (rule that, assumption+)
  have i: "i = src (seq d)" using i' e by simp
  let ?v = "view (sync_order_row t u dev order b i)"
  have fr: "i \<notin> o_id ` set (orders d)" using shop_ok_fresh [OF ok] i by simp
  have tl: "till_of d' = \<lparr>t_bills = t_bills (till_of d) @ [?v], t_next = map (\<lambda>u. (ou_id u, ou_nextBillNumber u)) (outlets d1)\<rparr>"
    using fr by (simp add: till_of_def os us kot_outlets set_row_fresh)
  have "till_step (till_of d) (till_of d')"
  proof (cases "so_status order = SETTLED")
    case True
    then obtain row where row: "row_by ou_id u (outlets d) = Some row" "b = Some (bill_number (ou_nextBillNumber row))"
      "outlets d1 = set_row ou_id u (\<lambda>u. u\<lparr>ou_nextBillNumber := ou_nextBillNumber u + 1\<rparr>) (outlets d)"
      using b by (auto simp: sync_bill_def guard_simps dest!: draw_Inr)
    have "till_step (till_of d) \<lparr>t_bills = t_bills (till_of d) @ [?v], t_next = advance (bv_outletId ?v) (t_next (till_of d))\<rparr>"
      by (rule till_step.arrives [where n = "ou_nextBillNumber row"])
        (use fr True row next_of_outlet [OF row(1)] in \<open>auto simp: till_of_def\<close>)
    then show ?thesis unfolding tl by (simp add: row(3) advance_outlets) (simp add: till_of_def)
  next
    case False
    then have b': "b = None" "d1 = d" using b by (auto simp: sync_bill_def)
    have tb: "o_tableId (sync_order_row t u dev order b i) = (if so_orderType order = DINE_IN then so_tableId order else None)"
      by (simp add: sync_order_row_def)
    have "till_step (till_of d) ((till_of d)\<lparr>t_bills := t_bills (till_of d) @ [?v]\<rparr>)"
    proof (rule till_step.opens)
      show "bv_id ?v \<notin> bv_id ` set (t_bills (till_of d))" using fr by (auto simp: till_of_def)
      show "bv_status ?v \<in> {OPEN, CANCELLED}" using st False by auto
      show "\<not> occupied (till_of d) (bv_tenantId ?v) (bv_outletId ?v) (bv_tableId ?v)" if "bv_status ?v = OPEN"
      proof (cases "o_tableId (sync_order_row t u dev order b i)")
        case None
        then show ?thesis by (simp add: occupied_def)
      next
        case (Some x)
        then have "so_orderType order = DINE_IN" "so_tableId order = Some x" using tb by (simp_all split: if_splits)
        then show ?thesis using free that Some by (simp add: occupied_iff)
      qed
    qed (simp add: b')
    then show ?thesis unfolding tl by (simp add: b'(2)) (simp add: till_of_def)
  qed
  moreover have "orders_drawn src d'"
  proof -
    have "orders_drawn src d" using ok by (simp add: shop_ok_def)
    then show ?thesis using q i fr by (force simp: orders_drawn_def os set_row_fresh)
  qed
  ultimately show ?thesis by (auto simp: refines_def)
qed

lemma sync_refines:
  assumes ok: "shop_ok src n0 d" and e: "e_cuid e = src" and st: "so_status order \<in> {OPEN, SETTLED, CANCELLED}"
    and run: "applySyncedOrder e t u dev order d = Inr (reply, d')"
  shows "refines src d d'"
proof (cases "sync_tx e t u dev order d")
  case (Inl err)
  then have "d' = d" using run by (cases err) (auto simp: applySyncedOrder_def split: option.splits)
  then show ?thesis using refines_same_till [OF ok same_till_refl] by simp
next
  case (Inr x)
  obtain i dup d1 where x: "x = (i, dup, d1)" by (cases x)
  have d1: "d' = d1" using run Inr x by (auto simp: applySyncedOrder_def guard_simps)
  have tx: "sync_tx e t u dev order d = Inr (i, dup, d')" using Inr x d1 by simp
  show ?thesis
  proof (cases dup)
    case True
    then have "d' = d" using sync_tx_cases(2) [OF tx] by simp
    then show ?thesis using refines_same_till [OF ok same_till_refl] by simp
  next
    case False
    then have "sync_insert e t u dev order d = Inr (i, d')" using sync_tx_cases(2) [OF tx] by simp
    moreover have "open_on_table t u (the (so_tableId order)) d = None" if "so_status order = OPEN" "so_orderType order = DINE_IN"
      using tx that False by (auto simp: sync_tx_def Let_def guard_simps split: option.splits)
    ultimately show ?thesis by (rule sync_insert_refines [OF ok e st])
  qed
qed

text \<open>Bills that change hands.\<close>

lemma serviceCharge_refines:
  assumes ok: "shop_ok src n0 d" and run: "setServiceCharge user i waive reason d = Inr d'" shows "refines src d d'"
proof -
  from run obtain order :: order_row and rd where
    r: "recomputeTotals (o_id order) None False (orders_update (set_row o_id (o_id order) (\<lambda>r. r\<lparr>o_serviceChargeWaived := waive,
       o_serviceChargeWaivedReason := (if waive then reason else None)\<rparr>)) d) = Inr rd"
    and d': "d' = audit (u_tenantId user) (Some (u_id user))
       (if waive then ''SERVICE_CHARGE_REMOVED'' else ''SERVICE_CHARGE_RESTORED'') ''order'' (o_id order) (snd rd)"
    unfolding setServiceCharge_def Let_def guard_simps case_prod_beta sum.inject by (elim exE conjE) (rule that, assumption+, erule sym)
  have "same_till d (orders_update (set_row o_id (o_id order) (\<lambda>r. r\<lparr>o_serviceChargeWaived := waive,
       o_serviceChargeWaivedReason := (if waive then reason else None)\<rparr>)) d)"
    by (simp add: same_till_def map_view_set_row view_def)
  moreover have "same_till (orders_update (set_row o_id (o_id order) (\<lambda>r. r\<lparr>o_serviceChargeWaived := waive,
       o_serviceChargeWaivedReason := (if waive then reason else None)\<rparr>)) d) (snd rd)"
    by (rule same_till_recomputed [OF r])
  ultimately have "same_till d d'" unfolding d' using same_till_trans same_till_audit(1) by blast
  then show ?thesis by (rule refines_same_till [OF ok])
qed

lemma view_moveAll:
  "map view (orders (moveAll ids target d)) = update_where (\<lambda>v. bv_id v \<in> set ids) (\<lambda>v. v\<lparr>bv_status := MERGED\<rparr>) (map view (orders d))"
  "outlets (moveAll ids target d) = outlets d" "seq (moveAll ids target d) = seq d"
proof -
  have k: "map view (update_where (\<lambda>r. o_id r \<in> set ids) (mark_merged i) os)
      = update_where (\<lambda>v. bv_id v \<in> set ids) (\<lambda>v. v\<lparr>bv_status := MERGED\<rparr>) (map view os)" for i os
    by (auto simp: update_where_def mark_merged_def view_def)
  have c: "map view (set_row o_id i (\<lambda>r. r\<lparr>o_customerName := x, o_customerPhone := y\<rparr>) os) = map view os" for i x y os
    by (simp add: map_view_set_row view_def)
  show "map view (orders (moveAll ids target d)) = update_where (\<lambda>v. bv_id v \<in> set ids) (\<lambda>v. v\<lparr>bv_status := MERGED\<rparr>) (map view (orders d))"
    by (auto simp: moveAll_def Let_def k c split: option.split)
  show "outlets (moveAll ids target d) = outlets d" "seq (moveAll ids target d) = seq d"
    by (auto simp: moveAll_def Let_def split: option.split)
qed

lemma tenant_order_Some: "tenant_order user i d = Some r \<Longrightarrow> r \<in> set (orders d) \<and> o_id r = i \<and> o_tenantId r = u_tenantId user"
  unfolding tenant_order_def by (drule find_SomeD) simp

lemma lockOrders_Inr:
  "lockOrders user ids d = Inr f \<Longrightarrow> i \<in> set ids \<Longrightarrow> f i \<in> set (orders d) \<and> o_id (f i) = i \<and> o_tenantId (f i) = u_tenantId user"
proof -
  assume "lockOrders user ids d = Inr f" and i: "i \<in> set ids"
  then have "f = (\<lambda>i. the (tenant_order user i d))" and "\<exists>r. tenant_order user i d = Some r" by (auto simp: lockOrders_def guard_simps)
  then show ?thesis using tenant_order_Some by force
qed

lemma assertMergeable_Inr: "assertMergeable r l = Inr x \<Longrightarrow> o_status r = OPEN"
  by (simp add: assertMergeable_def guard_simps)

lemma refines_moveAll:
  assumes ok: "shop_ok src n0 d" and l: "\<And>i. i \<in> set ids \<Longrightarrow> \<exists>r \<in> set (orders d). o_id r = i \<and> o_status r = OPEN"
    and run: "recomputeTotals i x pl (moveAll ids target d) = Inr (row, d1)" and same: "same_till d1 d'"
  shows "refines src d d'"
proof -
  have "o_status r = OPEN" if "r \<in> set (orders d)" "o_id r \<in> set ids" for r
    using l [OF that(2)] row_of_id [OF ok that(1)] by metis
  then have "refines src d (moveAll ids target d)"
    by (rule refines_close_view [OF ok _ _ view_moveAll(1)]) (simp_all add: view_moveAll)
  then show ?thesis
    using refines_then_same [OF ok] same_till_trans [OF same_till_recompute [OF run] same] by blast
qed

lemma same_till_audits: "same_till d (foldl (\<lambda>x i. op_audit user a i x) d is)"
  by (induction "is" arbitrary: d) (auto intro: same_till_trans [OF same_till_audit(2)])

lemma merge_refines:
  assumes ok: "shop_ok src n0 d" and run: "merge user target sources d = Inr d'" shows "refines src d d'"
proof -
  let ?ids = "js_set sources"
  from run obtain locked us ou rd where l: "lockOrders user (target # ?ids) d = Inr locked"
    and m: "emap (\<lambda>i. ebind (require (o_outletId (locked i) = ou) (BadRequest [Txt ''Orders belong to different outlets'']))
                            (\<lambda>_. assertMergeable (locked i) ''Source order'')) ?ids = Inr us"
    and r: "recomputeTotals (o_id (locked target)) None False (moveAll ?ids (locked target) d) = Inr rd"
    and d': "d' = foldl (\<lambda>x i. op_audit user ''ORDER_MERGED_INTO'' i x) (op_audit user ''ORDER_MERGED'' (o_id (locked target)) (snd rd)) ?ids"
    unfolding merge_def Let_def guard_simps case_prod_beta sum.inject
    by (elim exE conjE) (rule that, assumption+, erule sym)
  have "\<exists>r \<in> set (orders d). o_id r = i \<and> o_status r = OPEN" if "i \<in> set ?ids" for i
    using lockOrders_Inr [OF l, of i] emap_Inr_member [OF m that] that
    by (auto simp: guard_simps dest!: assertMergeable_Inr)
  moreover have "recomputeTotals (o_id (locked target)) None False (moveAll ?ids (locked target) d) = Inr (fst rd, snd rd)" using r by simp
  moreover have "same_till (snd rd) d'"
    unfolding d' by (rule same_till_trans [OF same_till_audit(2) same_till_audits])
  ultimately show ?thesis by (rule refines_moveAll [OF ok])
qed

text \<open>Moving lines touches no order; a new target bill is opened on the free table.\<close>

lemma same_till_create_line [simp]: "same_till d (create_line e f d)"
  by (simp add: create_line_def fresh_def Let_def same_till_def)

lemma same_till_foldl: "(\<And>x y. same_till y (f y x)) \<Longrightarrow> same_till d (foldl f d xs)"
  by (induction xs arbitrary: d) (auto intro: same_till_trans)

lemma same_till_moveLine [simp]: "same_till d (moveLine e line q t d)"
proof -
  have "same_till d (orderItems_update f d)" for f by (simp add: same_till_def)
  moreover have "same_till d (create_line e g (orderItems_update f d))" for f g
    by (rule same_till_trans [OF \<open>same_till d (orderItems_update f d)\<close> same_till_create_line])
  ultimately show ?thesis by (simp add: moveLine_def Let_def)
qed

lemma same_till_move_lines: "same_till d (move_lines e ls ms t d)"
  unfolding move_lines_def Let_def by (rule same_till_foldl) simp

lemma same_till_follow: "same_till d (follow_kots ks a b d)"
  unfolding follow_kots_def by (rule same_till_foldl) (simp add: same_till_def)

lemma transfer_lines_refines:
  assumes ok: "shop_ok src n0 d" and e: "e_cuid e = src"
    and run: "transfer_lines e user source target tb ls ms d = Inr (a, b, d')"
    and free: "target = None \<Longrightarrow> open_on_table (u_tenantId user) (o_outletId source) tb d = None"
  shows "refines src d d'"
proof -
  let ?mk = "\<lambda>i. (blank_order i (u_tenantId user) (o_outletId source) DINE_IN)\<lparr> o_tableId := Some tb, o_createdById := Some (u_id user) \<rparr>"
  from run obtain td r1 r2 where
    1: "(case target of Some t \<Rightarrow> Inr (o_id t, d) | None \<Rightarrow> create_order e ?mk d) = Inr td"
    and 2: "recomputeTotals (o_id source) None False (follow_kots (touched_kots ls ms) (o_id source) (fst td) (move_lines e ls ms (fst td) (snd td))) = Inr r1"
    and 3: "recomputeTotals (fst td) None False (snd r1) = Inr r2"
    and 4: "d' = op_audit user ''ORDER_ITEMS_TRANSFERRED'' (o_id source) (snd r2)"
    unfolding transfer_lines_def Let_def guard_simps case_prod_beta sum.inject prod.inject
    by (elim exE conjE) (rule that, assumption+, erule sym)
  have "refines src d (snd td)"
  proof (cases target)
    case None
    then have "create_order e ?mk d = Inr (fst td, snd td)" using 1 by simp
    then show ?thesis using free [OF None] by (intro refines_create_order(1) [OF ok e, of ?mk "fst td"]) simp_all
  next
    case (Some t)
    then show ?thesis using 1 refines_same_till [OF ok same_till_refl] by auto
  qed
  moreover have "same_till (snd td) (snd r1)"
    by (rule same_till_trans [OF same_till_trans [OF same_till_move_lines same_till_follow] same_till_recomputed [OF 2]])
  moreover have "same_till (snd r1) (snd r2)" by (rule same_till_recomputed [OF 3])
  then have "same_till (snd r1) d'" unfolding 4 by (rule same_till_trans) simp
  ultimately show ?thesis using refines_then_same [OF ok] same_till_trans by blast
qed

text \<open>Moving a whole bill to a free table.\<close>

lemma refines_move_table:
  assumes ok: "shop_ok src n0 d" and r: "r \<in> set (orders d)" "o_status r = OPEN" "o_tenantId r = t"
    and free: "open_on_table t (o_outletId r) tb d = None"
  shows "refines src d (orders_update (set_row o_id (o_id r) (\<lambda>r. r\<lparr>o_tableId := Some tb, o_orderType := ty, o_version := o_version r + 1\<rparr>)) d)"
    (is "refines src d ?d'")
proof (rule refines_one [OF ok])
  have v: "map view (set_row o_id i (\<lambda>r. r\<lparr>o_tableId := Some tb, o_orderType := ty, o_version := o_version r + 1\<rparr>) os)
      = set_row bv_id i (\<lambda>w. w\<lparr>bv_tableId := Some tb\<rparr>) (map view os)" for i os
    by (simp add: set_row_def update_where_def view_def)
  have "till_of ?d' = (till_of d)\<lparr>t_bills := set_row bv_id (bv_id (view r)) (\<lambda>w. w\<lparr>bv_tableId := Some tb\<rparr>) (t_bills (till_of d))\<rparr>"
    by (simp add: till_of_def v)
  moreover have "till_step (till_of d) ((till_of d)\<lparr>t_bills := set_row bv_id (bv_id (view r)) (\<lambda>w. w\<lparr>bv_tableId := Some tb\<rparr>) (t_bills (till_of d))\<rparr>)"
    by (rule till_step.moves) (use r free in \<open>simp_all add: occupied_iff, simp_all add: till_of_def\<close>)
  ultimately show "till_step (till_of d) (till_of ?d')" by simp
qed (simp_all add: image_key_set_row)

lemma transfer_refines:
  assumes ok: "shop_ok src n0 d" and e: "e_cuid e = src" and run: "transfer e user i tb req d = Inr (a, b, d')"
  shows "refines src d d'"
proof -
  from run obtain locked x y target moves and targetTable :: table_row and ev :: bool where
    l: "lockOrders user [i] d = Inr locked" and m: "assertMergeable (locked i) ''Order'' = Inr x"
    and t: "(case open_on_table (u_tenantId user) (o_outletId (locked i)) tb d of
                  None \<Rightarrow> Inr None
                | Some existing \<Rightarrow> ebind (lockOrders user [o_id existing] d) (\<lambda>l2.
                    ebind (assertMergeable (l2 (o_id existing)) (dt_name targetTable @ ''s bill'')) (\<lambda>_. Inr (Some (l2 (o_id existing)))))) = Inr target"
    and f: "(if ev then (case target of
                     Some t \<Rightarrow> ebind (recomputeTotals (o_id t) None False (moveAll [o_id (locked i)] t d)) (\<lambda>p.
                       Inr (None, o_id t, op_audit user ''ORDER_MERGED_INTO'' (o_id (locked i)) (op_audit user ''ORDER_MERGED'' (o_id t) (snd p))))
                   | None \<Rightarrow> ebind (recomputeTotals (o_id (locked i)) None False
                               (orders_update (set_row o_id (o_id (locked i)) (\<lambda>r. r\<lparr>o_tableId := Some tb, o_orderType := DINE_IN,
                                  o_version := o_version r + 1\<rparr>)) d)) (\<lambda>p.
                       Inr (None, o_id (locked i), op_audit user ''ORDER_TABLE_TRANSFERRED'' (o_id (locked i)) (snd p))))
                 else transfer_lines e user (locked i) target tb (filter (\<lambda>l. oi_orderId l = o_id (locked i)) (orderItems d)) (the moves) d) = Inr (a, b, d')"
    unfolding transfer_def Let_def guard_simps case_prod_beta sum.inject
    by (elim exE conjE) (rule that, assumption+)
  note src = lockOrders_Inr [OF l, of i, simplified] and op = assertMergeable_Inr [OF m]
  have free: "open_on_table (u_tenantId user) (o_outletId (locked i)) tb d = None" if "target = None"
    using t that by (auto simp: guard_simps split: option.splits)
  show ?thesis
  proof (cases ev)
    case False
    then have "transfer_lines e user (locked i) target tb (filter (\<lambda>l. oi_orderId l = o_id (locked i)) (orderItems d)) (the moves) d = Inr (a, b, d')"
      using f by simp
    then show ?thesis using free by (rule transfer_lines_refines [OF ok e])
  next
    case True
    show ?thesis
    proof (cases target)
      case None
      then obtain p where p: "recomputeTotals (o_id (locked i)) None False (orders_update (set_row o_id (o_id (locked i))
          (\<lambda>r. r\<lparr>o_tableId := Some tb, o_orderType := DINE_IN, o_version := o_version r + 1\<rparr>)) d) = Inr p"
        and d': "d' = op_audit user ''ORDER_TABLE_TRANSFERRED'' (o_id (locked i)) (snd p)"
        using f True by (auto simp: guard_simps)
      have "refines src d (orders_update (set_row o_id (o_id (locked i))
          (\<lambda>r. r\<lparr>o_tableId := Some tb, o_orderType := DINE_IN, o_version := o_version r + 1\<rparr>)) d)"
        by (rule refines_move_table [OF ok _ op _ free [OF None]]) (use src in simp_all)
      then show ?thesis
      proof (rule refines_then_same [OF ok])
        have "same_till (orders_update (set_row o_id (o_id (locked i))
          (\<lambda>r. r\<lparr>o_tableId := Some tb, o_orderType := DINE_IN, o_version := o_version r + 1\<rparr>)) d) (snd p)"
          by (rule same_till_recomputed [OF p])
        then show "same_till (orders_update (set_row o_id (o_id (locked i))
          (\<lambda>r. r\<lparr>o_tableId := Some tb, o_orderType := DINE_IN, o_version := o_version r + 1\<rparr>)) d) d'"
          unfolding d' by (rule same_till_trans) simp
      qed
    next
      case (Some t)
      then obtain p where p: "recomputeTotals (o_id t) None False (moveAll [o_id (locked i)] t d) = Inr p"
        and d': "d' = op_audit user ''ORDER_MERGED_INTO'' (o_id (locked i)) (op_audit user ''ORDER_MERGED'' (o_id t) (snd p))"
        using f True by (auto simp: guard_simps)
      show ?thesis
      proof (rule refines_moveAll [OF ok])
        show "recomputeTotals (o_id t) None False (moveAll [o_id (locked i)] t d) = Inr (fst p, snd p)" using p by simp
        show "\<exists>r \<in> set (orders d). o_id r = j \<and> o_status r = OPEN" if "j \<in> set [o_id (locked i)]" for j
          using that src op by auto
        show "same_till (snd p) d'" unfolding d' by (rule same_till_trans [OF same_till_audit(2) same_till_audit(2)])
      qed
    qed
  qed
qed

text \<open>Checks are opened without a table; undoing the split removes them while they are open.\<close>

lemma same_till_create_rows: "same_till d (create_rows e i rows d)"
  unfolding create_rows_def by (rule same_till_foldl) simp

lemma create_check_refines:
  assumes ok: "shop_ok src n0 d" and e: "e_cuid e = src" and run: "create_check e user parent entry d = Inr d'"
  shows "refines src d d'"
proof -
  obtain c rows disc where entry: "entry = (c, rows, disc)" by (cases entry)
  let ?mk = "\<lambda>i. (blank_order i (u_tenantId user) (o_outletId parent) (o_orderType parent))
             \<lparr> o_customerName := o_customerName parent, o_customerPhone := o_customerPhone parent, o_createdById := Some (u_id user),
               o_parentOrderId := Some (o_id parent), o_splitIndex := Some (int c + 1),
               o_allocatedDiscount := numeric_col 2 (fromPaise (of_int disc)),
               o_serviceChargeWaived := o_serviceChargeWaived parent,
               o_serviceChargeWaivedReason := o_serviceChargeWaivedReason parent \<rparr>"
  from run obtain cd rd where 1: "create_order e ?mk d = Inr cd"
    and 2: "recomputeTotals (fst cd) None False (create_rows e (fst cd) rows (snd cd)) = Inr rd" and 3: "d' = snd rd"
    unfolding create_check_def entry guard_simps case_prod_beta sum.inject fst_conv snd_conv
    by (elim exE conjE) (rule that, assumption+, erule sym)
  have "refines src d (snd cd)" using 1 by (intro refines_create_order(1) [OF ok e, of ?mk "fst cd"]) simp_all
  moreover have "same_till (snd cd) d'" unfolding 3
    by (rule same_till_trans [OF same_till_create_rows same_till_recomputed [OF 2]])
  ultimately show ?thesis by (rule refines_then_same [OF ok])
qed

lemma split_refines:
  assumes ok: "shop_ok src n0 d" and e: "e_cuid e = src" and run: "split e user i input d = Inr d'" shows "refines src d d'"
proof -
  from run obtain parent :: order_row and es n d1 where
    1: "efold (create_check e user parent) es d = Inr d1"
    and 2: "d' = op_audit user ''ORDER_SPLIT'' (o_id parent)
              (orders_update (set_row o_id (o_id parent) (\<lambda>r. r\<lparr>o_splitCount := n, o_version := o_version r + 1\<rparr>)) d1)"
    unfolding split_def Let_def guard_simps case_prod_beta sum.inject
    by (elim exE conjE) (rule that, assumption+, erule sym)
  have "refines src d d1 \<and> shop_ok src n0 d1"
  proof (rule efold_invariant [OF 1, of "\<lambda>x. refines src d x \<and> shop_ok src n0 x"])
    show "refines src d d \<and> shop_ok src n0 d" using ok refines_same_till [OF ok same_till_refl] by simp
    show "refines src d y \<and> shop_ok src n0 y" if "refines src d x \<and> shop_ok src n0 x" and "create_check e user parent en x = Inr y" for en x y
    proof -
      have "refines src x y" using create_check_refines [OF _ e that(2)] that(1) by blast
      then show ?thesis using that(1) refines_trans shop_ok_refines by blast
    qed
  qed
  moreover have "same_till d1 d'" unfolding 2
    by (rule same_till_trans [OF _ same_till_audit(2)]) (simp add: same_till_def map_view_set_row view_def)
  ultimately show ?thesis using refines_then_same [OF ok] by blast
qed

lemma unsplit_refines:
  assumes ok: "shop_ok src n0 d" and run: "unsplit user i d = Inr d'" shows "refines src d d'"
proof -
  let ?kids = "\<lambda>parent. filter (\<lambda>r. o_tenantId r = u_tenantId user \<and> o_parentOrderId r = Some (o_id parent)) (orders d)"
  from run obtain parent :: order_row and f g h rd where
    op: "\<forall>c \<in> set (?kids parent). o_status c = OPEN"
    and 1: "recomputeTotals (o_id parent) None False (orders_update (set_row o_id (o_id parent) h)
        (orders_update (filter (\<lambda>r. \<not> (o_id r \<in> set (map o_id (?kids parent)) \<and> o_tenantId r = u_tenantId user)))
          (parkedCarts_update g (orderItems_update f d)))) = Inr rd"
    and h: "h = (\<lambda>r. r\<lparr>o_splitCount := None, o_version := o_version r + 1\<rparr>)"
    and d': "d' = op_audit user ''ORDER_UNSPLIT'' (o_id parent) (snd rd)"
    unfolding unsplit_def Let_def guard_simps case_prod_beta sum.inject
    by (elim exE conjE) (rule that, assumption, assumption, rule refl, erule sym)
  let ?P = "\<lambda>v. \<not> (bv_id v \<in> set (map o_id (?kids parent)) \<and> bv_tenantId v = u_tenantId user)"
  let ?d1 = "orders_update (filter (\<lambda>r. \<not> (o_id r \<in> set (map o_id (?kids parent)) \<and> o_tenantId r = u_tenantId user)))
          (parkedCarts_update g (orderItems_update f d))"
  have "till_step (till_of d) ((till_of d)\<lparr>t_bills := filter ?P (t_bills (till_of d))\<rparr>)"
  proof (rule till_step.removes, intro ballI impI)
    fix v assume "v \<in> set (t_bills (till_of d))" and v: "\<not> ?P v"
    then obtain r where r: "r \<in> set (orders d)" "v = view r" by (auto simp: till_of_def)
    then obtain c where c: "c \<in> set (?kids parent)" "o_id c = o_id r" using v by auto
    then have "c = r" using row_of_id [OF ok] r by simp
    then show "bv_status v = OPEN" using op c r by auto
  qed
  moreover have "filter ?P (map view os) = map view (filter (\<lambda>r. \<not> (o_id r \<in> set (map o_id (?kids parent)) \<and> o_tenantId r = u_tenantId user)) os)" for os
    by (simp add: filter_map comp_def)
  then have "till_of ?d1 = (till_of d)\<lparr>t_bills := filter ?P (t_bills (till_of d))\<rparr>" by (simp add: till_of_def)
  ultimately have "till_step (till_of d) (till_of ?d1)" by simp
  then have "refines src d ?d1" by (rule refines_one [OF ok]) auto
  moreover have "same_till ?d1 (orders_update (set_row o_id (o_id parent) h) ?d1)" unfolding h
    by (simp add: same_till_def map_view_set_row view_def)
  moreover have "same_till (orders_update (set_row o_id (o_id parent) h) ?d1) (snd rd)"
    by (rule same_till_recomputed [OF 1])
  ultimately have "refines src d (snd rd)" using refines_then_same [OF ok] same_till_trans by blast
  then show ?thesis unfolding d' by (rule refines_then_same [OF ok _ same_till_audit(2)])
qed

section \<open>Every run of the services\<close>

text \<open>
  A step is one successful request of the order services, by any caller, with any clock; row ids come from one source.
  The last rule stands for the requests of other components, which leave the bills and the counters alone.
\<close>

inductive shop_step :: "(nat \<Rightarrow> id) \<Rightarrow> db \<Rightarrow> db \<Rightarrow> bool" for src where
  created: "e_cuid e = src \<Longrightarrow> create e user input d = Inr (i, d') \<Longrightarrow> shop_step src d d'"
| added: "addItems e user i inputs cs d = Inr d' \<Longrightarrow> shop_step src d d'"
| cancelled: "cancel user i d = Inr d' \<Longrightarrow> shop_step src d d'"
| settled: "settle e user i sinput d = Inr d' \<Longrightarrow> shop_step src d d'"
| delivered: "e_cuid e = src \<Longrightarrow> ingestAggregatorOrderTx e t u inputs nm ph ch d = Inr (reply, d') \<Longrightarrow> shop_step src d d'"
| scanned: "e_cuid e = src \<Longrightarrow> ingestScanOrder e t u dineIn tb inputs cs nm ph d = Inr (reply, d') \<Longrightarrow> shop_step src d d'"
| synced: "e_cuid e = src \<Longrightarrow> so_status order \<in> {OPEN, SETTLED, CANCELLED} \<Longrightarrow> applySyncedOrder e t u dev order d = Inr (sreply, d') \<Longrightarrow>
    shop_step src d d'"
| charged: "setServiceCharge user i waive reason d = Inr d' \<Longrightarrow> shop_step src d d'"
| merged: "merge user i ids d = Inr d' \<Longrightarrow> shop_step src d d'"
| transferred: "e_cuid e = src \<Longrightarrow> transfer e user i toTable req d = Inr (a, b, d') \<Longrightarrow> shop_step src d d'"
| divided: "e_cuid e = src \<Longrightarrow> split e user i pieces d = Inr d' \<Longrightarrow> shop_step src d d'"
| undivided: "unsplit user i d = Inr d' \<Longrightarrow> shop_step src d d'"
| elsewhere: "same_till d d' \<Longrightarrow> shop_step src d d'"

lemma shop_step_refines: "shop_step src d d' \<Longrightarrow> shop_ok src n0 d \<Longrightarrow> refines src d d'"
proof (induction rule: shop_step.cases)
  case created then show ?case by (auto intro: create_refines)
next
  case added then show ?case by (auto intro: addItems_refines)
next
  case cancelled then show ?case by (auto intro: cancel_refines)
next
  case settled then show ?case by (auto intro: settle_refines)
next
  case delivered then show ?case by (auto intro: aggregator_refines)
next
  case scanned then show ?case by (auto intro: scan_refines)
next
  case synced then show ?case by (auto intro!: sync_refines simp del: insert_iff)
next
  case charged then show ?case by (auto intro: serviceCharge_refines)
next
  case merged then show ?case by (auto intro: merge_refines)
next
  case transferred then show ?case by (auto intro: transfer_refines)
next
  case divided then show ?case by (auto intro: split_refines)
next
  case undivided then show ?case by (auto intro: unsplit_refines)
next
  case elsewhere then show ?case by (auto intro: refines_same_till)
qed

text \<open>A new shop: no orders yet; the counters start where the outlets were configured.\<close>

definition first_number :: "db \<Rightarrow> id \<Rightarrow> int" where
  "first_number d u = or_else (map_option ou_nextBillNumber (row_by ou_id u (outlets d))) 0"

lemma map_of_outlets: "map_of (map (\<lambda>u. (ou_id u, ou_nextBillNumber u)) us) k = map_option ou_nextBillNumber (row_by ou_id k us)"
  by (induction us) auto

lemma shop_ok_start: "inj src \<Longrightarrow> orders d = [] \<Longrightarrow> shop_ok src (first_number d) d"
  by (auto simp: shop_ok_def orders_drawn_def till_ok_def till_of_def one_per_table_def gapless_def first_number_def map_of_outlets)

lemma shop_runs:
  assumes "(shop_step src)\<^sup>*\<^sup>* d d'" and "shop_ok src n0 d" shows "refines src d d' \<and> shop_ok src n0 d'"
  using assms
proof (induction rule: rtranclp_induct)
  case base
  then show ?case using refines_same_till same_till_refl by blast
next
  case (step x y)
  then show ?case using shop_step_refines shop_ok_refines refines_trans by blast
qed

text \<open>C6. The order services implement the bill machine: whatever sequence of requests a new shop serves, the bills and
  counters of the database go through steps of the machine.\<close>

theorem services_refine_till:
  assumes "inj src" and "orders d0 = []" and "(shop_step src)\<^sup>*\<^sup>* d0 d"
  shows "till_step\<^sup>*\<^sup>* (till_of d0) (till_of d)"
  using shop_runs [OF assms(3) shop_ok_start [OF assms(1,2)]] by (simp add: refines_def)

text \<open>C7. A table never has two open bills: in every reachable state, two open orders on the same table of an outlet are
  the same order.\<close>

theorem one_open_order_per_table:
  assumes "inj src" and "orders d0 = []" and "(shop_step src)\<^sup>*\<^sup>* d0 d"
    and "r \<in> set (orders d)" and "s \<in> set (orders d)" and "o_status r = OPEN" and "o_status s = OPEN"
    and "o_tableId r = Some tb" and "o_tableId s = Some tb" and "o_tenantId s = o_tenantId r" and "o_outletId s = o_outletId r"
  shows "s = r"
proof -
  have ok: "shop_ok src (first_number d0) d" using shop_runs [OF assms(3) shop_ok_start [OF assms(1,2)]] by simp
  then have "one_per_table (till_of d)" by (simp add: shop_ok_def till_ok_def)
  then have "bv_id (view s) = bv_id (view r)"
    by (rule one_per_tableD) (use assms in \<open>simp_all add: till_of_def\<close>)
  then show ?thesis using row_of_id [OF ok assms(5,4)] by simp
qed

lemma numbers_of_view:
  "numbers_of u (map view os) = concat (map (\<lambda>r. if o_outletId r = u then (case o_billNumber r of Some b \<Rightarrow> [b] | None \<Rightarrow> []) else []) os)"
  by (induction os) (auto split: option.split)


section \<open>Concrete runs\<close>

definition kitchen2 :: db where
  "kitchen2 = kitchen0\<lparr> diningTables := [\<lparr> dt_id = ''a'', dt_tenantId = ''t'', dt_outletId = ''k'', dt_areaId = ''hall'', dt_name = ''T1'', dt_seats = 4, dt_publicToken = None \<rparr>] \<rparr>"

definition sync_table :: synced_order where
  "sync_table = sync0\<lparr> so_orderType := DINE_IN, so_tableId := Some ''a'' \<rparr>"

definition sync_paid :: synced_order where
  "sync_paid = sync0\<lparr> so_status := SETTLED, so_payments := [\<lparr> pay_mode = CASH, pay_amount = 315, pay_giftCardCode = None \<rparr>] \<rparr>"

lemmas sync_run = applySyncedOrder_def sync_tx_def sync_insert_def sync_bill_def sync0_def Let_def create_order_def fresh_def
  punchItems_def open_kot_def kitchen0_def outlet0_def line0_def db0_def env0_def resolveChannelPrices_def ranked_channels_def
  punch_line_def find_item_def dish0_def check_window_def isAvailableNow_def isWithinWindow_def parseHHMM_def unit_price_def
  pick_addons_def create_line_def new_line_def consume_def item_recipe_def js_map_add_def lineTotalPaise_def deplete_def
  material0_def set_row_def numeric_col_exact stock_movement_def recomputeTotals_def sync_order_row_def blank_order_def billFor_def
  write_totals_def audit_def kitchen2_def lockTable_def synced_row_def open_on_table_def draw_bill_number_def record_payments_def paid_paise_def

lemma sync_table_run:
  "\<exists>reply d r. applySyncedOrder env0 ''t'' ''k'' ''v'' sync_table kitchen2 = Inr (reply, d) \<and> orders d = [r] \<and> o_status r = OPEN
     \<and> o_tableId r = Some ''a'' \<and> o_tenantId r = ''t'' \<and> o_outletId r = ''k''"
  by (simp add: sync_table_def sync_run)

lemma sync_paid_run:
  "\<exists>reply d. applySyncedOrder env0 ''t'' ''k'' ''v'' sync_paid kitchen2 = Inr (reply, d)
     \<and> row_by ou_id ''k'' (outlets d) = Some (outlet0\<lparr>ou_nextBillNumber := 8, ou_nextKotNumber := 4\<rparr>)"
proof -
  have l: "computeBill [\<lparr> ml_lineTotalPaise = 30000, ml_taxRatePercent = 5 \<rparr>] \<lparr> bo_discountRupees = 0, bo_serviceCharge = None, bo_roundOff = False \<rparr>
    = \<lparr> ot_subtotal = 300, ot_discountAmount = 0, ot_taxAmount = 15, ot_total = 315, bt_serviceChargeAmount = 0, bt_roundOff = 0, bt_totalBeforeRoundOff = 315 \<rparr>"
    using js_round_of_int [of 1500] by (simp add: computeBill_def Let_def subtotal_paise_def raw_tax_paise_def)
  show ?thesis by (simp add: sync_paid_def sync_run order_lines_def l)
qed

lemma inj_env0: "inj (e_cuid env0)"
  using inj_unary by (simp add: env0_def)

lemma sync_step:
  assumes "applySyncedOrder env0 t u dev order d0 = Inr (reply, d)" and "so_status order \<in> {OPEN, SETTLED, CANCELLED}"
  shows "(shop_step (e_cuid env0))\<^sup>*\<^sup>* d0 d"
  using shop_step.synced [OF refl assms(2,1)] by blast

theorem services_refine_till_witness:
  "\<exists>reply d. applySyncedOrder env0 ''t'' ''k'' ''v'' sync_table kitchen2 = Inr (reply, d) \<and> till_step\<^sup>*\<^sup>* (till_of kitchen2) (till_of d)"
proof -
  obtain reply d where r: "applySyncedOrder env0 ''t'' ''k'' ''v'' sync_table kitchen2 = Inr (reply, d)" using sync_table_run by blast
  have "(shop_step (e_cuid env0))\<^sup>*\<^sup>* kitchen2 d" by (rule sync_step [OF r]) (simp add: sync_table_def sync0_def)
  moreover have "orders kitchen2 = []" by (simp add: kitchen2_def kitchen0_def db0_def)
  ultimately show ?thesis using services_refine_till [OF inj_env0] r by blast
qed

theorem one_open_order_per_table_witness:
  "\<exists>d r. (shop_step (e_cuid env0))\<^sup>*\<^sup>* kitchen2 d \<and> r \<in> set (orders d) \<and> o_status r = OPEN \<and> o_tableId r = Some ''a''
    \<and> (\<forall>s \<in> set (orders d). o_status s = OPEN \<and> o_tableId s = Some ''a'' \<and> o_tenantId s = ''t'' \<and> o_outletId s = ''k'' \<longrightarrow> s = r)"
proof -
  obtain reply d r where run: "applySyncedOrder env0 ''t'' ''k'' ''v'' sync_table kitchen2 = Inr (reply, d)"
    and r: "orders d = [r]" "o_status r = OPEN" "o_tableId r = Some ''a''" "o_tenantId r = ''t''" "o_outletId r = ''k''"
    using sync_table_run by blast
  have s: "(shop_step (e_cuid env0))\<^sup>*\<^sup>* kitchen2 d" by (rule sync_step [OF run]) (simp add: sync_table_def sync0_def)
  have o: "orders kitchen2 = []" by (simp add: kitchen2_def kitchen0_def db0_def)
  have "r \<in> set (orders d)" using r by simp
  moreover have "x = r" if "x \<in> set (orders d)" "o_status x = OPEN" "o_tableId x = Some ''a''" "o_tenantId x = ''t''" "o_outletId x = ''k''" for x
    by (rule one_open_order_per_table [OF inj_env0 o s \<open>r \<in> set (orders d)\<close> that(1) r(2) that(2) r(3) that(3)]) (simp_all add: that r)
  ultimately show ?thesis using s r by blast
qed


end
