(* ===== verification/Order_Laws.thy ===== *)
theory Order_Laws
  imports Till
begin

text \<open>
  What the operations on running bills keep: splitting a bill divides its paise and its discount exactly, undoing a
  split restores the lines and the bill, and merging and moving lines lose neither money nor quantities.
\<close>

section \<open>Checks\<close>

text \<open>A line whose total is its unit price times its quantity, as punching writes it.\<close>

definition priced :: "order_item_row \<Rightarrow> bool" where
  "priced l \<longleftrightarrow> toPaise (oi_lineTotal l) = lineTotalPaise (oi_unitPrice l) (oi_quantity l)"

lemma toPaise_col [simp]: "toPaise (numeric_col 2 (of_int n / 100)) = n"
  by (simp add: numeric_col_exact)

lemma copyLine_simps [simp]:
  "oi_lineTotal (copyLine l i q t) = numeric_col 2 t" "oi_quantity (copyLine l i q t) = q" "oi_orderId (copyLine l i q t) = i"
  "oi_unitPrice (copyLine l i q t) = oi_unitPrice l" "oi_itemId (copyLine l i q t) = oi_itemId l"
  by (simp_all add: copyLine_def)

lemma sum_upt: "(\<Sum>i\<leftarrow>[0..<n]. f i) = (\<Sum>i<n. f i :: 'a :: comm_monoid_add)"
  by (induction n) (simp_all add: add.commute)

lemma sum_over_nth: "(\<Sum>x\<leftarrow>xs. f x) = (\<Sum>i<length xs. f (xs ! i) :: 'a :: comm_monoid_add)"
  by (metis (no_types, lifting) map_nth map_map sum_upt comp_def map_eq_conv)

lemma check_subtotal_simps [simp]:
  "check_subtotal [] = 0" "check_subtotal (l # ls) = toPaise (oi_lineTotal l) + check_subtotal ls"
  "check_subtotal (ks @ ls) = check_subtotal ks + check_subtotal ls"
  by (simp_all add: check_subtotal_def)

lemma check_subtotal_cong: "map oi_lineTotal ls = map oi_lineTotal ks \<Longrightarrow> check_subtotal ls = check_subtotal ks"
  unfolding check_subtotal_def by (metis (mono_tags, lifting) map_map comp_apply map_eq_conv)

lemma equal_checks_conserve:
  assumes "0 < parts" shows "(\<Sum>c\<leftarrow>equal_checks lines parts. check_subtotal c) = check_subtotal lines"
proof -
  let ?ps = "map (\<lambda>l. toPaise (oi_lineTotal l)) lines"
  let ?s = "splitLinesEqually ?ps parts"
  have col: "(\<Sum>c < parts. ?s ! c ! l) = ?ps ! l" if "l < length lines" for l
    using splitLinesEqually_spec [OF assms, of ?ps] that by simp
  have "(\<Sum>c\<leftarrow>equal_checks lines parts. check_subtotal c) = (\<Sum>c\<leftarrow>[0..<parts]. \<Sum>i\<leftarrow>[0..<length lines]. ?s ! c ! i)"
    by (simp add: equal_checks_def Let_def check_subtotal_def comp_def)
  also have "\<dots> = (\<Sum>i<length lines. \<Sum>c<parts. ?s ! c ! i)" unfolding sum_upt by (rule sum.swap)
  also have "\<dots> = (\<Sum>i<length lines. ?ps ! i)" using col by (intro sum.cong) simp_all
  also have "\<dots> = check_subtotal lines" by (simp add: check_subtotal_def sum_over_nth)
  finally show ?thesis .
qed

lemma item_check_subtotal:
  "check_subtotal (item_check lines m) = (\<Sum>l\<leftarrow>lines. toPaise (oi_unitPrice l) * or_else (map_of m (oi_id l)) 0)"
proof (induction lines)
  case Nil
  then show ?case by (simp add: item_check_def)
next
  case (Cons l lines)
  then show ?case by (cases "map_of m (oi_id l)") (auto simp: item_check_def Let_def lineTotalPaise_def simp del: of_int_mult)
qed

lemma item_checks_conserve:
  assumes "emap (check_assigned moves) lines = Inr us" and "\<forall>l \<in> set lines. priced l"
  shows "(\<Sum>c\<leftarrow>map (item_check lines) moves. check_subtotal c) = check_subtotal lines"
proof -
  have "(\<Sum>c\<leftarrow>map (item_check lines) moves. check_subtotal c)
      = (\<Sum>l\<leftarrow>lines. toPaise (oi_unitPrice l) * assigned_qty moves (oi_id l))"
  proof (induction moves)
    case Nil
    then show ?case by (simp add: assigned_qty_def)
  next
    case (Cons m moves)
    then show ?case by (simp add: item_check_subtotal assigned_qty_def distrib_left sum_list_map_add)
  qed
  also have "\<dots> = check_subtotal lines"
    unfolding check_subtotal_def using emap_Inr_member [OF assms(1)] assms(2)
    by (intro arg_cong [of _ _ sum_list] map_cong refl)
      (fastforce simp: check_assigned_def Let_def guard_simps priced_def lineTotalPaise_def)
  finally show ?thesis .
qed

definition split_request_ok :: "split_input \<Rightarrow> order_item_row list \<Rightarrow> bool" where
  "split_request_ok input lines \<longleftrightarrow> 0 \<le> split_discount input \<and>
     (case input of SplitEqual parts _ \<Rightarrow> 0 < parts | SplitItems _ _ \<Rightarrow> \<forall>l \<in> set lines. priced l)"

lemma make_checks_conserve:
  assumes "make_checks lines input = Inr checks" and "split_request_ok input lines"
  shows "(\<Sum>c\<leftarrow>checks. check_subtotal c) = check_subtotal lines"
proof (cases input)
  case (SplitEqual parts x)
  then show ?thesis using assms by (auto simp: make_checks_def split_request_ok_def equal_checks_conserve)
next
  case (SplitItems cs x)
  then obtain moves us where "emap (check_assigned moves) lines = Inr us" "checks = map (item_check lines) moves" "\<forall>l \<in> set lines. priced l"
    using assms by (auto simp: make_checks_def split_request_ok_def guard_simps)
  then show ?thesis using item_checks_conserve by blast
qed

lemma split_discounts_sum:
  assumes "0 \<le> x"
  shows "sum_list (split_discounts x checks) = min (toPaise x) (\<Sum>c\<leftarrow>checks. check_subtotal c)
    \<and> length (split_discounts x checks) = length checks"
proof (cases "checks = []")
  case True
  then show ?thesis using toPaise_nonneg [OF assms] by (simp add: split_discounts_def allocatePaise_def)
next
  case False
  then show ?thesis
    using allocatePaise_spec [of "map of_int (map check_subtotal checks)"] by (simp add: split_discounts_def Let_def)
qed

section \<open>Splitting\<close>

lemma create_line_eq: "create_line e mk d = d\<lparr>seq := seq d + 1, orderItems := orderItems d @ [mk (e_cuid e (seq d))]\<rparr>"
  by (cases d) (simp add: create_line_def fresh_def)

lemma create_rows_effect:
  "\<exists>n ls. create_rows e i rows d = d\<lparr>seq := n, orderItems := orderItems d @ ls\<rparr> \<and> map oi_lineTotal ls = map oi_lineTotal rows
     \<and> (\<forall>l \<in> set ls. oi_orderId l = i)"
proof (induction rows arbitrary: d)
  case Nil
  show ?case by (intro exI [of _ "seq d"] exI [of _ "[]"]) (simp add: create_rows_def)
next
  case (Cons r rows)
  let ?l = "r\<lparr>oi_id := e_cuid e (seq d), oi_orderId := i\<rparr>"
  let ?d = "d\<lparr>seq := seq d + 1, orderItems := orderItems d @ [?l]\<rparr>"
  have "create_rows e i (r # rows) d = create_rows e i rows ?d" by (simp add: create_rows_def create_line_eq)
  moreover from Cons [of ?d] obtain n ls where "create_rows e i rows ?d = ?d\<lparr>seq := n, orderItems := orderItems ?d @ ls\<rparr>"
    "map oi_lineTotal ls = map oi_lineTotal rows" "\<forall>l \<in> set ls. oi_orderId l = i" by blast
  ultimately show ?case by (intro exI [of _ n] exI [of _ "?l # ls"]) simp
qed

lemma create_check_effect:
  assumes ok: "shop_ok src n0 d" and e: "e_cuid e = src" and run: "create_check e user parent (c, rows, disc) d = Inr d'"
  shows "\<exists>k ls. orders d' = orders d @ [k] \<and> orderItems d' = orderItems d @ ls \<and> parkedCarts d' = parkedCarts d
    \<and> o_id k \<notin> o_id ` set (orders d) \<and> o_id k = src (seq d) \<and> o_tenantId k = u_tenantId user \<and> o_outletId k = o_outletId parent
    \<and> o_parentOrderId k = Some (o_id parent) \<and> o_splitIndex k = Some (int c + 1)
    \<and> o_allocatedDiscount k = numeric_col 2 (of_int disc / 100) \<and> o_status k = OPEN
    \<and> map oi_lineTotal ls = map oi_lineTotal rows \<and> (\<forall>l \<in> set ls. oi_orderId l = o_id k)"
proof -
  let ?mk = "\<lambda>i. (blank_order i (u_tenantId user) (o_outletId parent) (o_orderType parent))
             \<lparr> o_customerName := o_customerName parent, o_customerPhone := o_customerPhone parent, o_createdById := Some (u_id user),
               o_parentOrderId := Some (o_id parent), o_splitIndex := Some (int c + 1),
               o_allocatedDiscount := numeric_col 2 (fromPaise (of_int disc)),
               o_serviceChargeWaived := o_serviceChargeWaived parent,
               o_serviceChargeWaivedReason := o_serviceChargeWaivedReason parent \<rparr>"
  from run obtain cd rd where 1: "create_order e ?mk d = Inr cd"
    and 2: "recomputeTotals (fst cd) None False (create_rows e (fst cd) rows (snd cd)) = Inr rd" and 3: "d' = snd rd"
    unfolding create_check_def guard_simps case_prod_beta sum.inject fst_conv snd_conv
    by (elim exE conjE) (rule that, assumption+, erule sym)
  define i where "i = src (seq d)"
  have fr: "i \<notin> o_id ` set (orders d)" using shop_ok_fresh [OF ok] i_def by simp
  have "create_order e ?mk d = Inr (fst cd, snd cd)" using 1 by simp
  note c = create_order_Inr [OF this, unfolded e, folded i_def]
  obtain n ls where r: "create_rows e i rows (snd cd) = (snd cd)\<lparr>seq := n, orderItems := orderItems (snd cd) @ ls\<rparr>"
    "map oi_lineTotal ls = map oi_lineTotal rows" "\<forall>l \<in> set ls. oi_orderId l = i"
    using create_rows_effect by blast
  obtain totals sc where t: "d' = orders_update (set_row o_id i (write_totals totals sc)) (create_rows e i rows (snd cd))"
    using 2 3 c(1) by (cases rd) (auto elim!: recomputeTotals_Inr)
  have "orders d' = orders d @ [write_totals totals sc (?mk i)]"
    unfolding t r(1) using fr by (simp add: c set_row_fresh)
  moreover have "orderItems d' = orderItems d @ ls" "parkedCarts d' = parkedCarts d" unfolding t r(1) by (simp_all add: c(2))
  moreover have "o_splitIndex (write_totals totals sc x) = o_splitIndex x" for x by (simp add: write_totals_def)
  ultimately show ?thesis using fr r i_def by (intro exI [of _ "write_totals totals sc (?mk i)"] exI [of _ ls]) simp
qed

text \<open>The loop over the checks.\<close>

lemma create_checks_effect:
  assumes "shop_ok src n0 d" and e: "e_cuid e = src" and "efold (create_check e user parent) entries d = Inr d'"
  shows "\<exists>ks ls. orders d' = orders d @ ks \<and> orderItems d' = orderItems d @ ls \<and> parkedCarts d' = parkedCarts d
    \<and> distinct (map o_id ks) \<and> o_id ` set ks \<inter> o_id ` set (orders d) = {} \<and> oi_orderId ` set ls \<subseteq> o_id ` set ks
    \<and> (\<forall>k \<in> set ks. o_tenantId k = u_tenantId user \<and> o_outletId k = o_outletId parent \<and> o_parentOrderId k = Some (o_id parent) \<and> o_status k = OPEN)
    \<and> map o_splitIndex ks = map (\<lambda>(c, _, _). Some (int c + 1)) entries
    \<and> map o_allocatedDiscount ks = map (\<lambda>(_, _, disc). numeric_col 2 (of_int disc / 100)) entries
    \<and> map oi_lineTotal ls = concat (map (\<lambda>(_, rows, _). map oi_lineTotal rows) entries)"
  using assms(1,3)
proof (induction entries arbitrary: d)
  case Nil
  then show ?case by auto
next
  case (Cons en entries)
  obtain c rows disc where en: "en = (c, rows, disc)" by (cases en)
  from Cons.prems(2) obtain d1 where 1: "create_check e user parent (c, rows, disc) d = Inr d1"
    and 2: "efold (create_check e user parent) entries d1 = Inr d'" by (auto simp: en guard_simps)
  have ok1: "shop_ok src n0 d1" using shop_ok_refines [OF Cons.prems(1) create_check_refines [OF Cons.prems(1) e 1]] .
  from create_check_effect [OF Cons.prems(1) e 1] obtain k ls where
    k: "orders d1 = orders d @ [k]" "orderItems d1 = orderItems d @ ls" "parkedCarts d1 = parkedCarts d" "o_id k \<notin> o_id ` set (orders d)"
      "o_tenantId k = u_tenantId user" "o_outletId k = o_outletId parent" "o_parentOrderId k = Some (o_id parent)"
      "o_splitIndex k = Some (int c + 1)" "o_allocatedDiscount k = numeric_col 2 (of_int disc / 100)" "o_status k = OPEN"
      "map oi_lineTotal ls = map oi_lineTotal rows" "\<forall>l \<in> set ls. oi_orderId l = o_id k" by blast
  from Cons.IH [OF ok1 2] obtain ks ms where
    r: "orders d' = orders d1 @ ks" "orderItems d' = orderItems d1 @ ms" "parkedCarts d' = parkedCarts d1"
      "distinct (map o_id ks)" "o_id ` set ks \<inter> o_id ` set (orders d1) = {}" "oi_orderId ` set ms \<subseteq> o_id ` set ks"
      "\<forall>k \<in> set ks. o_tenantId k = u_tenantId user \<and> o_outletId k = o_outletId parent \<and> o_parentOrderId k = Some (o_id parent) \<and> o_status k = OPEN"
      "map o_splitIndex ks = map (\<lambda>(c, _, _). Some (int c + 1)) entries"
      "map o_allocatedDiscount ks = map (\<lambda>(_, _, disc). numeric_col 2 (of_int disc / 100)) entries"
      "map oi_lineTotal ms = concat (map (\<lambda>(_, rows, _). map oi_lineTotal rows) entries)" by blast
  show ?case
    by (intro exI [of _ "k # ks"] exI [of _ "ls @ ms"] conjI) (use k r in \<open>auto simp: en\<close>)
qed

lemma split_stages:
  assumes "split e user i input d = Inr d'"
  obtains parent lines checks d1 where "lockOpenOrder user i d = Inr parent" and "\<not> nonzero (o_splitCount parent)"
    and "lines = sort_key oi_id (filter (\<lambda>l. oi_orderId l = o_id parent) (orderItems d))"
    and "make_checks lines input = Inr checks"
    and "efold (create_check e user parent) (zip [0..<length checks] (zip checks (split_discounts (split_discount input) checks))) d = Inr d1"
    and "d' = op_audit user ''ORDER_SPLIT'' (o_id parent)
      (orders_update (set_row o_id (o_id parent) (\<lambda>r. r\<lparr>o_splitCount := Some (int (length checks)), o_version := o_version r + 1\<rparr>)) d1)"
  using assms unfolding split_def Let_def guard_simps sum.inject
  by (elim exE conjE) (rule that, assumption+, rule refl, assumption+, erule sym)

lemma check_subtotal_mset: "mset ks = mset ls \<Longrightarrow> check_subtotal ks = check_subtotal ls"
  unfolding check_subtotal_def by (metis mset_map sum_mset_sum_list)

lemma check_subtotal_concat: "check_subtotal (concat lss) = (\<Sum>ls\<leftarrow>lss. check_subtotal ls)"
  by (induction lss) simp_all

lemma split_effect:
  assumes ok: "shop_ok src n0 d" and e: "e_cuid e = src" and run: "split e user i input d = Inr d'"
  obtains parent checks ks ls where "lockOpenOrder user i d = Inr parent" and "\<not> nonzero (o_splitCount parent)"
    and "make_checks (sort_key oi_id (filter (\<lambda>l. oi_orderId l = i) (orderItems d))) input = Inr checks"
    and "orders d' = set_row o_id i (\<lambda>r. r\<lparr>o_splitCount := Some (int (length ks)), o_version := o_version r + 1\<rparr>) (orders d) @ ks"
    and "orderItems d' = orderItems d @ ls" and "parkedCarts d' = parkedCarts d" and "o_id ` set ks \<inter> o_id ` set (orders d) = {}"
    and "oi_orderId ` set ls \<subseteq> o_id ` set ks"
    and "\<forall>k \<in> set ks. o_tenantId k = u_tenantId user \<and> o_outletId k = o_outletId parent \<and> o_parentOrderId k = Some i \<and> o_status k = OPEN"
    and "map o_splitIndex ks = map (\<lambda>(c, _, _). Some (int c + 1)) (zip [0..<length checks] (zip checks (split_discounts (split_discount input) checks)))"
    and "map o_allocatedDiscount ks = map (\<lambda>(_, _, disc). numeric_col 2 (of_int disc / 100))
           (zip [0..<length checks] (zip checks (split_discounts (split_discount input) checks)))"
    and "map oi_lineTotal ls = concat (map (\<lambda>(_, rows, _). map oi_lineTotal rows)
           (zip [0..<length checks] (zip checks (split_discounts (split_discount input) checks))))"
    and "length (split_discounts (split_discount input) checks) = length checks"
proof -
  from run obtain parent :: order_row and lines checks d1 where l: "lockOpenOrder user i d = Inr parent" "\<not> nonzero (o_splitCount parent)"
    and lines: "lines = sort_key oi_id (filter (\<lambda>l. oi_orderId l = o_id parent) (orderItems d))"
    and mk: "make_checks lines input = Inr checks"
    and loop: "efold (create_check e user parent) (zip [0..<length checks] (zip checks (split_discounts (split_discount input) checks))) d = Inr d1"
    and d': "d' = op_audit user ''ORDER_SPLIT'' (o_id parent)
      (orders_update (set_row o_id (o_id parent) (\<lambda>r. r\<lparr>o_splitCount := Some (int (length checks)), o_version := o_version r + 1\<rparr>)) d1)"
    by (elim split_stages) (rule that, assumption+)
  have p: "o_id parent = i" "parent \<in> set (orders d)" using lockOpenOrder_Inr [OF l(1)] by simp_all
  have n: "length (split_discounts (split_discount input) checks) = length checks"
    by (cases "checks = []") (simp_all add: split_discounts_def Let_def allocatePaise_spec, simp add: allocatePaise_def)
  let ?es = "zip [0..<length checks] (zip checks (split_discounts (split_discount input) checks))"
  from create_checks_effect [OF ok e loop] obtain ks ls where
    k: "orders d1 = orders d @ ks" "orderItems d1 = orderItems d @ ls" "parkedCarts d1 = parkedCarts d" "o_id ` set ks \<inter> o_id ` set (orders d) = {}"
      "oi_orderId ` set ls \<subseteq> o_id ` set ks"
      "\<forall>k \<in> set ks. o_tenantId k = u_tenantId user \<and> o_outletId k = o_outletId parent \<and> o_parentOrderId k = Some (o_id parent) \<and> o_status k = OPEN"
      "map o_splitIndex ks = map (\<lambda>(c, _, _). Some (int c + 1)) ?es"
      "map o_allocatedDiscount ks = map (\<lambda>(_, _, disc). numeric_col 2 (of_int disc / 100)) ?es"
      "map oi_lineTotal ls = concat (map (\<lambda>(_, rows, _). map oi_lineTotal rows) ?es)" by blast
  have m: "length ks = length checks" using arg_cong [OF k(7), of length] n by simp
  have "update_where (\<lambda>r. o_id r = i) f ks = ks" for f
    unfolding update_where_def using k(4) p by (intro map_idI) auto
  then have os: "orders d' = set_row o_id i (\<lambda>r. r\<lparr>o_splitCount := Some (int (length ks)), o_version := o_version r + 1\<rparr>) (orders d) @ ks"
    by (simp add: d' op_audit_def audit_def p k(1) m set_row_def)
  show ?thesis
    by (rule that [OF l mk [unfolded lines p] os _ _ k(4,5) _ k(7-9) n]) (use k(2,3,6) p in \<open>auto simp: d' op_audit_def audit_def\<close>)
qed


section \<open>Undoing a split\<close>

text \<open>Lines and parked carts point at existing orders.\<close>

definition refs_ok :: "db \<Rightarrow> bool" where
  "refs_ok d \<longleftrightarrow> oi_orderId ` set (orderItems d) \<subseteq> o_id ` set (orders d)
     \<and> (\<forall>p \<in> set (parkedCarts d). \<forall>i. pk_orderId p = Some i \<longrightarrow> i \<in> o_id ` set (orders d))"

lemma recompute_total: "row_by o_id i (orders d) = Some r \<Longrightarrow> \<exists>p. recomputeTotals i x pl d = Inr p"
  by (simp add: recomputeTotals_def billFor_def Let_def case_prod_beta)

lemma find_own_row:
  assumes "distinct (map o_id os)" and "r \<in> set os" and "o_tenantId r = t"
  shows "List.find (\<lambda>s. o_id s = o_id r \<and> o_tenantId s = t) os = Some r"
  using assms by (induction os) (auto simp: image_iff)

lemma filter_none: "(\<And>x. x \<in> set xs \<Longrightarrow> \<not> P x) \<Longrightarrow> filter P xs = []"
  by (simp add: filter_empty_conv)

lemma unsplit_kids:
  assumes ok: "shop_ok src n0 d" and os: "orders d = base @ ks" and parent: "parent \<in> set base" "o_id parent = i"
    and p: "o_tenantId parent = u_tenantId user" "o_outletId parent \<in> set (u_outletIds user)" "o_status parent = OPEN"
      "o_splitCount parent = Some n" "n \<noteq> 0"
    and none: "\<And>r. r \<in> set base \<Longrightarrow> o_parentOrderId r \<noteq> Some i"
    and ks: "\<forall>k \<in> set ks. o_tenantId k = u_tenantId user \<and> o_outletId k = o_outletId parent \<and> o_parentOrderId k = Some i \<and> o_status k = OPEN"
  shows "\<exists>d'. unsplit user i d = Inr d'
    \<and> orderItems d' = filter (\<lambda>l. oi_orderId l \<notin> o_id ` set ks) (orderItems d)
    \<and> parkedCarts d' = filter (\<lambda>p. pk_orderId p \<notin> Some ` o_id ` set ks) (parkedCarts d)
    \<and> (\<exists>t sc. orders d' = set_row o_id i (write_totals t sc \<circ> (\<lambda>r. r\<lparr>o_splitCount := None, o_version := o_version r + 1\<rparr>)) base)"
proof -
  have dist: "distinct (map o_id (orders d))" by (rule shop_ok_distinct [OF ok])
  have par: "parent \<in> set (orders d)" using os parent by simp
  have kids: "filter (\<lambda>r. o_tenantId r = u_tenantId user \<and> o_parentOrderId r = Some i) (orders d) = ks"
    unfolding os filter_append using ks none by (simp add: filter_none)
  have row: "row_by o_id i (orders d) = Some parent" using ord.row_by_member [OF dist par] parent by simp
  have find: "List.find (\<lambda>s. o_id s = o_id r \<and> o_tenantId s = u_tenantId user) (orders d) = Some r" if "r = parent \<or> r \<in> set ks" for r
    by (rule find_own_row [OF dist]) (use that par p ks os in auto)
  have lock: "lockOpenOrder user i d = Inr parent" using find [of parent] p parent by (simp add: lockOpenOrder_def assertOutlet_def)
  have lk: "lockOrders user (map o_id ks) d = Inr (\<lambda>i. the (tenant_order user i d))"
    using find ks p by (auto simp: lockOrders_def tenant_order_def)
  have req: "requireOrder user i d = Inr parent" using row p by (simp add: requireOrder_def assertOutlet_def)
  let ?d4 = "orders_update (set_row o_id i (\<lambda>r. r\<lparr>o_splitCount := None, o_version := o_version r + 1\<rparr>))
     (orders_update (filter (\<lambda>r. \<not> (o_id r \<in> set (map o_id ks) \<and> o_tenantId r = u_tenantId user)))
       (parkedCarts_update (filter (\<lambda>p. pk_orderId p \<notin> Some ` set (map o_id ks))) (orderItems_update (filter (\<lambda>l. oi_orderId l \<notin> set (map o_id ks))) d)))"
  have base: "filter (\<lambda>r. \<not> (o_id r \<in> set (map o_id ks) \<and> o_tenantId r = u_tenantId user)) (orders d) = base"
    unfolding os filter_append using dist os ks by (auto simp: filter_id_conv filter_empty_conv)
  have i4: "i \<in> o_id ` set (orders ?d4)" using parent base by (auto simp: image_key_set_row)
  then obtain r4 where "row_by o_id i (orders ?d4) = Some r4" using row_by_None [of o_id i "orders ?d4"] by fastforce
  then obtain x where x: "recomputeTotals i None False ?d4 = Inr x" using recompute_total by blast
  then obtain row t sc where t: "snd x = orders_update (set_row o_id i (write_totals t sc)) ?d4" by (cases x) (auto elim!: recomputeTotals_Inr)
  have "unsplit user i d = Inr (op_audit user ''ORDER_UNSPLIT'' i (snd x))"
    unfolding unsplit_def req ebind_simps parent Let_def kids lk lock using p ks x by (simp add: nonzero_def case_prod_beta)
  moreover have "orders (op_audit user ''ORDER_UNSPLIT'' i (snd x))
      = set_row o_id i (write_totals t sc \<circ> (\<lambda>r. r\<lparr>o_splitCount := None, o_version := o_version r + 1\<rparr>)) base"
    unfolding t op_audit_def audit_def using base by (simp add: set_row_set_row)
  moreover have "orderItems (op_audit user ''ORDER_UNSPLIT'' i (snd x)) = filter (\<lambda>l. oi_orderId l \<notin> o_id ` set ks) (orderItems d)"
    "parkedCarts (op_audit user ''ORDER_UNSPLIT'' i (snd x)) = filter (\<lambda>p. pk_orderId p \<notin> Some ` o_id ` set ks) (parkedCarts d)"
    by (simp_all add: op_audit_def audit_def t)
  ultimately show ?thesis by blast
qed


section \<open>Merging\<close>

lemma billFor_subtotal:
  assumes "billFor i x pl d = Inr (totals, sc)"
  shows "ot_subtotal totals = of_int (check_subtotal (filter (\<lambda>l. oi_orderId l = i) (orderItems d))) / 100"
proof -
  have "subtotal_paise (order_lines i d) = check_subtotal (filter (\<lambda>l. oi_orderId l = i) (orderItems d))"
    by (simp add: subtotal_paise_def order_lines_def check_subtotal_def comp_def)
  moreover obtain opts where "totals = computeBill (order_lines i d) opts" using assms by (auto simp: billFor_def Let_def guard_simps)
  ultimately show ?thesis by (simp add: computeBill_def Let_def)
qed

lemma recompute_subtotal:
  assumes "recomputeTotals i x pl d = Inr (row, d')"
  shows "toPaise (o_subtotal row) = check_subtotal (filter (\<lambda>l. oi_orderId l = i) (orderItems d))" "orderItems d' = orderItems d"
    "\<exists>old. row_by o_id i (orders d) = Some old \<and> row_by o_id i (orders d') = Some row \<and> o_status row = o_status old"
    "j \<noteq> i \<Longrightarrow> row_by o_id j (orders d') = row_by o_id j (orders d)"
proof -
  from assms obtain old totals sc where r: "row_by o_id i (orders d) = Some old" "billFor i (or_else x (o_allocatedDiscount old)) pl d = Inr (totals, sc)"
    "row = write_totals totals sc old" "d' = orders_update (set_row o_id i (write_totals totals sc)) d"
    by (elim recomputeTotals_Inr) (rule that, assumption+)
  show "toPaise (o_subtotal row) = check_subtotal (filter (\<lambda>l. oi_orderId l = i) (orderItems d))"
    by (simp add: r(3) write_totals_def billFor_subtotal [OF r(2)])
  show "orderItems d' = orderItems d" by (simp add: r(4))
  show "\<exists>old. row_by o_id i (orders d) = Some old \<and> row_by o_id i (orders d') = Some row \<and> o_status row = o_status old"
    using ord.lookup_set_row [of "write_totals totals sc" i i d] r by simp
  show "row_by o_id j (orders d') = row_by o_id j (orders d)" if "j \<noteq> i"
    using ord.lookup_set_row [of "write_totals totals sc" j i d] r that by simp
qed

lemma row_by_update_where:
  "(\<And>r. key (f r) = key r) \<Longrightarrow> row_by key i (update_where (\<lambda>r. key r \<in> S) f rs) = map_option (if i \<in> S then f else (\<lambda>r. r)) (row_by key i rs)"
  by (induction rs) auto

lemma moveAll_rows:
  "orderItems (moveAll ids t d) = update_where (\<lambda>l. oi_orderId l \<in> set ids) (\<lambda>l. l\<lparr>oi_orderId := o_id t\<rparr>) (orderItems d)"
  "i \<in> set ids \<Longrightarrow> \<exists>g. (\<forall>r. o_status (g r) = o_status r) \<and> row_by o_id i (orders (moveAll ids t d)) = map_option (mark_merged (o_id t) \<circ> g) (row_by o_id i (orders d))"
  "i \<notin> set ids \<Longrightarrow> \<exists>g. (\<forall>r. o_status (g r) = o_status r) \<and> row_by o_id i (orders (moveAll ids t d)) = map_option g (row_by o_id i (orders d))"
proof -
  show "orderItems (moveAll ids t d) = update_where (\<lambda>l. oi_orderId l \<in> set ids) (\<lambda>l. l\<lparr>oi_orderId := o_id t\<rparr>) (orderItems d)"
    by (auto simp: moveAll_def Let_def split: option.split)
  obtain h where h: "\<forall>r. o_status (h r) = o_status r" "\<forall>r. o_id (h r) = o_id r"
    and os: "orders (moveAll ids t d) = update_where (\<lambda>r. o_id r \<in> set ids) (mark_merged (o_id t)) (set_row o_id (o_id t) h (orders d))"
  proof (cases "\<exists>c :: order_row. orders (moveAll ids t d) = update_where (\<lambda>r. o_id r \<in> set ids) (mark_merged (o_id t)) (set_row o_id (o_id t)
      (\<lambda>r. r\<lparr>o_customerName := coalesce (o_customerName t) (o_customerName c), o_customerPhone := coalesce (o_customerPhone t) (o_customerPhone c)\<rparr>) (orders d))")
    case True
    then obtain c :: order_row where "orders (moveAll ids t d) = update_where (\<lambda>r. o_id r \<in> set ids) (mark_merged (o_id t)) (set_row o_id (o_id t)
      (\<lambda>r. r\<lparr>o_customerName := coalesce (o_customerName t) (o_customerName c), o_customerPhone := coalesce (o_customerPhone t) (o_customerPhone c)\<rparr>) (orders d))" ..
    then show ?thesis by (rule that [rotated 2]) simp_all
  next
    case False
    then have "orders (moveAll ids t d) = update_where (\<lambda>r. o_id r \<in> set ids) (mark_merged (o_id t)) (orders d)"
      by (auto simp: moveAll_def Let_def split: option.splits if_splits)
    moreover have "set_row o_id (o_id t) (\<lambda>r. r) (orders d) = orders d" by (simp add: set_row_def update_where_def)
    ultimately show ?thesis using that [of "\<lambda>r. r"] by simp
  qed
  have l: "row_by o_id i (set_row o_id (o_id t) h (orders d)) = map_option (if i = o_id t then h else (\<lambda>r. r)) (row_by o_id i (orders d))" for i
    using ord.lookup_set_row [of h i "o_id t" d] h by (simp add: option.map_ident)
  have m: "o_id (mark_merged x r) = o_id r" for x r by (simp add: mark_merged_def)
  show "i \<in> set ids \<Longrightarrow> \<exists>g. (\<forall>r. o_status (g r) = o_status r) \<and> row_by o_id i (orders (moveAll ids t d)) = map_option (mark_merged (o_id t) \<circ> g) (row_by o_id i (orders d))"
    using h by (intro exI [of _ "if i = o_id t then h else (\<lambda>r. r)"]) (simp add: os row_by_update_where m l option.map_comp)
  show "i \<notin> set ids \<Longrightarrow> \<exists>g. (\<forall>r. o_status (g r) = o_status r) \<and> row_by o_id i (orders (moveAll ids t d)) = map_option g (row_by o_id i (orders d))"
    using h by (intro exI [of _ "if i = o_id t then h else (\<lambda>r. r)"]) (simp add: os row_by_update_where m l option.map_ident)
qed

lemma subtotal_redirected:
  "t \<notin> S \<Longrightarrow> check_subtotal (filter (\<lambda>l. oi_orderId l = t) (update_where (\<lambda>l. oi_orderId l \<in> S) (\<lambda>l. l\<lparr>oi_orderId := t\<rparr>) ls))
     = check_subtotal (filter (\<lambda>l. oi_orderId l \<in> insert t S) ls)"
  by (induction ls) auto

lemma audits_rows [simp]:
  "orders (foldl (\<lambda>x i. op_audit user a i x) d js) = orders d" "orderItems (foldl (\<lambda>x i. op_audit user a i x) d js) = orderItems d"
  "orders (op_audit user a j d) = orders d" "orderItems (op_audit user a j d) = orderItems d"
  by (induction js arbitrary: d) (simp_all add: op_audit_def audit_def)


section \<open>Moving lines\<close>

text \<open>Line ids are drawn from the source, like order ids.\<close>

definition lines_drawn :: "(nat \<Rightarrow> id) \<Rightarrow> db \<Rightarrow> bool" where
  "lines_drawn src d \<longleftrightarrow> inj src \<and> distinct (map oi_id (orderItems d)) \<and> oi_id ` set (orderItems d) \<subseteq> src ` {..<seq d}"

text \<open>What is left of a line when part of it moves, and the part.\<close>

definition rest_line :: "order_item_row \<Rightarrow> int \<Rightarrow> order_item_row \<Rightarrow> order_item_row" where
  "rest_line line q l = l\<lparr>oi_quantity := oi_quantity line - q,
     oi_lineTotal := numeric_col 2 (fromPaise (of_int (lineTotalPaise (oi_unitPrice line) (oi_quantity line - q))))\<rparr>"

definition moved_line :: "order_item_row \<Rightarrow> id \<Rightarrow> int \<Rightarrow> id \<Rightarrow> order_item_row" where
  "moved_line line t q i = (copyLine line t q (fromPaise (of_int (lineTotalPaise (oi_unitPrice line) q))))\<lparr>oi_id := i\<rparr>"

lemma moveLine_eq:
  assumes "lines_drawn src d" and "e_cuid e = src" and "row_by oi_id (oi_id line) (orderItems d) = Some line"
  shows "moveLine e line q t d = (if q = oi_quantity line
      then orderItems_update (set_row oi_id (oi_id line) (\<lambda>l. l\<lparr>oi_orderId := t\<rparr>)) d
      else d\<lparr>seq := seq d + 1, orderItems := set_row oi_id (oi_id line) (rest_line line q) (orderItems d) @ [moved_line line t q (src (seq d))]\<rparr>)"
proof -
  have "rest_line line q = (\<lambda>l. l\<lparr>oi_quantity := oi_quantity line - q,
     oi_lineTotal := numeric_col 2 (fromPaise (of_int (lineTotalPaise (oi_unitPrice line) (oi_quantity line - q))))\<rparr>)"
    by (rule ext) (simp add: rest_line_def)
  then show ?thesis using assms(2) by (simp add: moveLine_def Let_def create_line_eq moved_line_def)
qed

text \<open>A measure of lines that a move leaves alone: it ignores the bill of a line and adds up over its parts.\<close>

definition conserved :: "(order_item_row \<Rightarrow> int) \<Rightarrow> order_item_row list \<Rightarrow> bool" where
  "conserved g lines \<longleftrightarrow> (\<forall>l t. g (l\<lparr>oi_orderId := t\<rparr>) = g l)
     \<and> (\<forall>l \<in> set lines. \<forall>q t i. g (rest_line l q l) + g (moved_line l t q i) = g l)"

lemma conserved_paise: "\<forall>l \<in> set lines. priced l \<Longrightarrow> conserved (\<lambda>l. toPaise (oi_lineTotal l)) lines"
  by (simp add: conserved_def rest_line_def moved_line_def priced_def del: of_int_diff of_int_mult)
    (simp add: lineTotalPaise_def algebra_simps)

lemma conserved_quantity: "conserved (\<lambda>l. if oi_itemId l = x then oi_quantity l else 0) lines"
  by (simp add: conserved_def rest_line_def moved_line_def)

lemma drawn_fresh_line: "lines_drawn src d \<Longrightarrow> src (seq d) \<notin> oi_id ` set (orderItems d)"
  by (auto simp: lines_drawn_def dest!: inj_onD subsetD)

lemma moveLine_step:
  assumes dr: "lines_drawn src d" and e: "e_cuid e = src" and row: "row_by oi_id (oi_id line) (orderItems d) = Some line"
    and g: "conserved g lines" "line \<in> set lines"
  shows "lines_drawn src (moveLine e line q t d)"
    and "(\<Sum>l\<leftarrow>orderItems (moveLine e line q t d). g l) = (\<Sum>l\<leftarrow>orderItems d. g l)"
    and "oi_orderId line \<in> S \<Longrightarrow> t \<in> S \<Longrightarrow> filter (\<lambda>l. oi_orderId l \<notin> S) (orderItems (moveLine e line q t d)) = filter (\<lambda>l. oi_orderId l \<notin> S) (orderItems d)"
    and "i \<noteq> oi_id line \<Longrightarrow> row_by oi_id i (orderItems d) = Some r \<Longrightarrow> row_by oi_id i (orderItems (moveLine e line q t d)) = Some r"
proof -
  note m = moveLine_eq [OF dr e row, of q t] and fr = drawn_fresh_line [OF dr]
  have dist: "distinct (map oi_id (orderItems d))" using dr by (simp add: lines_drawn_def)
  have idr: "oi_id (rest_line line q l) = oi_id l" for l by (simp add: rest_line_def)
  have idm: "oi_id (moved_line line t q x) = x" "oi_orderId (moved_line line t q x) = t" for x by (simp_all add: moved_line_def)
  have only: "l = line" if "l \<in> set (orderItems d)" "oi_id l = oi_id line" for l
    using row_by_distinct [OF dist that(1)] row unfolding that(2) by simp
  show "lines_drawn src (moveLine e line q t d)"
  proof (cases "q = oi_quantity line")
    case True
    then have "moveLine e line q t d = orderItems_update (set_row oi_id (oi_id line) (\<lambda>l. l\<lparr>oi_orderId := t\<rparr>)) d" using m by simp
    then show ?thesis using dr by (simp add: lines_drawn_def map_key_set_row image_key_set_row)
  next
    case False
    let ?ls = "set_row oi_id (oi_id line) (rest_line line q) (orderItems d)"
    have k: "map oi_id ?ls = map oi_id (orderItems d)" "oi_id ` set ?ls = oi_id ` set (orderItems d)"
      using map_key_set_row [of oi_id "rest_line line q", OF idr] image_key_set_row [of oi_id "rest_line line q", OF idr] by blast+
    have it: "orderItems (moveLine e line q t d) = ?ls @ [moved_line line t q (src (seq d))]" "seq (moveLine e line q t d) = seq d + 1"
      using False by (simp_all add: m)
    have "oi_id ` set (orderItems d) \<subseteq> src ` {..<seq d + 1}" using dr by (auto simp: lines_drawn_def dest!: subsetD)
    then show ?thesis using dr fr unfolding lines_drawn_def it
      by (simp only: map_append k set_append image_Un distinct_append) (simp add: idm)
  qed
  show "(\<Sum>l\<leftarrow>orderItems (moveLine e line q t d). g l) = (\<Sum>l\<leftarrow>orderItems d. g l)"
  proof -
    have w: "(\<Sum>l\<leftarrow>set_row oi_id (oi_id line) f (orderItems d). g l) = (\<Sum>l\<leftarrow>orderItems d. g l) - g line + g (f line)" for f
      by (rule sum_list_set_row [OF dist row])
    have "g (line\<lparr>oi_orderId := t\<rparr>) = g line" "g (rest_line line q line) + g (moved_line line t q (src (seq d))) = g line"
      using g by (simp_all add: conserved_def)
    then show ?thesis by (simp add: m w)
  qed
  have flt: "filter (\<lambda>l. oi_orderId l \<notin> S) (set_row oi_id (oi_id line) f (orderItems d)) = filter (\<lambda>l. oi_orderId l \<notin> S) (orderItems d)"
    if "oi_orderId line \<in> S" "oi_orderId (f line) \<in> S" for f
  proof -
    have "filter (\<lambda>l. oi_orderId l \<notin> S) (set_row oi_id (oi_id line) f ls) = filter (\<lambda>l. oi_orderId l \<notin> S) ls"
      if "set ls \<subseteq> set (orderItems d)" for ls
      using that only \<open>oi_orderId line \<in> S\<close> \<open>oi_orderId (f line) \<in> S\<close> by (induction ls) (auto simp: set_row_def)
    then show ?thesis by simp
  qed
  show "filter (\<lambda>l. oi_orderId l \<notin> S) (orderItems (moveLine e line q t d)) = filter (\<lambda>l. oi_orderId l \<notin> S) (orderItems d)"
    if "oi_orderId line \<in> S" "t \<in> S"
    using that by (simp add: m flt idm rest_line_def)
  have other: "row_by oi_id i (set_row oi_id (oi_id line) f ls) = row_by oi_id i ls" if "i \<noteq> oi_id line" "\<And>l. oi_id (f l) = oi_id l" for f ls
    using that by (induction ls) (auto simp: set_row_def)
  show "row_by oi_id i (orderItems (moveLine e line q t d)) = Some r" if "i \<noteq> oi_id line" "row_by oi_id i (orderItems d) = Some r"
    using that by (simp add: m row_by_append other idr)
qed

lemma move_lines_conserve:
  assumes "lines_drawn src d" and "e_cuid e = src" and "\<forall>l \<in> set ls. row_by oi_id (oi_id l) (orderItems d) = Some l"
    and "distinct (map oi_id ls)" and "conserved g lines" and "set ls \<subseteq> set lines" and "\<forall>l \<in> set ls. oi_orderId l \<in> S" and "t \<in> S"
  shows "(\<Sum>l\<leftarrow>orderItems (move_lines e ls ms t d). g l) = (\<Sum>l\<leftarrow>orderItems d. g l)
    \<and> filter (\<lambda>l. oi_orderId l \<notin> S) (orderItems (move_lines e ls ms t d)) = filter (\<lambda>l. oi_orderId l \<notin> S) (orderItems d)"
  using assms
proof (induction ls arbitrary: d)
  case Nil
  then show ?case by (simp add: move_lines_def)
next
  case (Cons l ls)
  let ?q = "or_else (map_of ms (oi_id l)) 0"
  let ?d = "if ?q = 0 then d else moveLine e l ?q t d"
  have row: "row_by oi_id (oi_id l) (orderItems d) = Some l" and mem: "l \<in> set lines" "oi_orderId l \<in> S" using Cons.prems by simp_all
  note st = moveLine_step [OF Cons.prems(1,2) row Cons.prems(5) mem(1), where q = ?q and t = t]
  have "move_lines e (l # ls) ms t d = move_lines e ls ms t ?d" by (simp add: move_lines_def Let_def)
  moreover have "lines_drawn src ?d" using st(1) Cons.prems(1) by simp
  moreover have "\<forall>k \<in> set ls. row_by oi_id (oi_id k) (orderItems ?d) = Some k"
  proof
    fix k assume k: "k \<in> set ls"
    then have "oi_id k \<in> oi_id ` set ls" by (rule imageI)
    then have "oi_id k \<noteq> oi_id l" using Cons.prems(4) by auto
    moreover have "row_by oi_id (oi_id k) (orderItems d) = Some k" using Cons.prems(3) k by simp
    ultimately show "row_by oi_id (oi_id k) (orderItems ?d) = Some k" using st(4) by simp
  qed
  ultimately show ?case
    using Cons.IH [of ?d] Cons.prems(2,4-8) st(2) st(3) [OF mem(2) Cons.prems(8)] by simp
qed

lemma follow_items [simp]: "orderItems (follow_kots ks a b d) = orderItems d"
proof -
  have "orderItems (foldl (\<lambda>x k. if P x k then x else kots_update (f k) x) d ks) = orderItems d" for P f
    by (induction ks arbitrary: d) simp_all
  then show ?thesis by (simp add: follow_kots_def)
qed

lemma transfer_lines_conserve:
  assumes dr: "lines_drawn src d" and e: "e_cuid e = src" and g: "conserved g (filter (\<lambda>l. oi_orderId l = o_id source) (orderItems d))"
    and run: "transfer_lines e user source target tb (filter (\<lambda>l. oi_orderId l = o_id source) (orderItems d)) ms d = Inr (a, b, d')"
  shows "(\<Sum>l\<leftarrow>orderItems d'. g l) = (\<Sum>l\<leftarrow>orderItems d. g l)
    \<and> filter (\<lambda>l. oi_orderId l \<notin> {o_id source, b}) (orderItems d') = filter (\<lambda>l. oi_orderId l \<notin> {o_id source, b}) (orderItems d)"
proof -
  let ?ls = "filter (\<lambda>l. oi_orderId l = o_id source) (orderItems d)"
  let ?mk = "\<lambda>i. (blank_order i (u_tenantId user) (o_outletId source) DINE_IN)\<lparr> o_tableId := Some tb, o_createdById := Some (u_id user) \<rparr>"
  from run obtain td r1 r2 where
    1: "(case target of Some t \<Rightarrow> Inr (o_id t, d) | None \<Rightarrow> create_order e ?mk d) = Inr td"
    and 2: "recomputeTotals (o_id source) None False (follow_kots (touched_kots ?ls ms) (o_id source) (fst td) (move_lines e ?ls ms (fst td) (snd td))) = Inr r1"
    and 3: "recomputeTotals (fst td) None False (snd r1) = Inr r2"
    and 4: "fst td = b" "d' = op_audit user ''ORDER_ITEMS_TRANSFERRED'' (o_id source) (snd r2)"
    unfolding transfer_lines_def Let_def guard_simps case_prod_beta sum.inject prod.inject
    by (elim exE conjE) (rule that, assumption+, erule sym)
  have i: "orderItems d' = orderItems (move_lines e ?ls ms b (snd td))"
    using recompute_subtotal(2) [of "o_id source" None False _ "fst r1" "snd r1"] recompute_subtotal(2) [of "fst td" None False _ "fst r2" "snd r2"] 2 3 4
    by simp
  have td: "orderItems (snd td) = orderItems d" "seq d \<le> seq (snd td)"
    using 1 create_order_Inr(2) [of e ?mk d "fst td" "snd td"] by (auto split: option.splits)
  have "lines_drawn src (snd td)" using dr td by (auto simp: lines_drawn_def dest!: subsetD)
  moreover have "distinct (map oi_id (orderItems d))" using dr by (simp add: lines_drawn_def)
  then have "\<forall>l \<in> set ?ls. row_by oi_id (oi_id l) (orderItems (snd td)) = Some l" "distinct (map oi_id ?ls)"
    by (simp_all add: td row_by_distinct distinct_map_filter)
  ultimately show ?thesis
    using move_lines_conserve [OF _ e, of "snd td" ?ls g ?ls "{o_id source, b}" b ms] g i td by simp
qed

lemma redirect_conserves:
  assumes "\<And>l t. g (l\<lparr>oi_orderId := t\<rparr>) = (g l :: int)"
  shows "(\<Sum>l\<leftarrow>update_where (\<lambda>l. oi_orderId l \<in> S) (\<lambda>l. l\<lparr>oi_orderId := t\<rparr>) ls. g l) = (\<Sum>l\<leftarrow>ls. g l)"
  using assms by (induction ls) auto

lemma redirect_elsewhere:
  "filter (\<lambda>l. oi_orderId l \<notin> {i, t}) (update_where (\<lambda>l. oi_orderId l \<in> {i}) (\<lambda>l. l\<lparr>oi_orderId := t\<rparr>) ls) = filter (\<lambda>l. oi_orderId l \<notin> {i, t}) ls"
  by (induction ls) auto

lemma transfer_conserve:
  assumes dr: "lines_drawn src d" and e: "e_cuid e = src" and g: "conserved g (filter (\<lambda>l. oi_orderId l = i) (orderItems d))"
    and run: "transfer e user i tb req d = Inr (a, b, d')"
  shows "(\<Sum>l\<leftarrow>orderItems d'. g l) = (\<Sum>l\<leftarrow>orderItems d. g l)
    \<and> filter (\<lambda>l. oi_orderId l \<notin> {i, b}) (orderItems d') = filter (\<lambda>l. oi_orderId l \<notin> {i, b}) (orderItems d)"
proof -
  from run obtain locked target moves and ev :: bool where
    l: "lockOrders user [i] d = Inr locked"
    and f: "(if ev then (case target of
                     Some t \<Rightarrow> ebind (recomputeTotals (o_id t) None False (moveAll [o_id (locked i)] t d)) (\<lambda>p.
                       Inr (None, o_id t, op_audit user ''ORDER_MERGED_INTO'' (o_id (locked i)) (op_audit user ''ORDER_MERGED'' (o_id t) (snd p))))
                   | None \<Rightarrow> ebind (recomputeTotals (o_id (locked i)) None False
                               (orders_update (set_row o_id (o_id (locked i)) (\<lambda>r. r\<lparr>o_tableId := Some tb, o_orderType := DINE_IN,
                                  o_version := o_version r + 1\<rparr>)) d)) (\<lambda>p.
                       Inr (None, o_id (locked i), op_audit user ''ORDER_TABLE_TRANSFERRED'' (o_id (locked i)) (snd p))))
                 else transfer_lines e user (locked i) target tb (filter (\<lambda>l. oi_orderId l = o_id (locked i)) (orderItems d)) (the moves) d) = Inr (a, b, d')"
    unfolding transfer_def Let_def guard_simps case_prod_beta sum.inject
    by (elim exE conjE) (rule that, assumption+)
  have s: "o_id (locked i) = i" using lockOrders_Inr [OF l, of i] by simp
  show ?thesis
  proof (cases ev)
    case False
    then show ?thesis using transfer_lines_conserve [OF dr e, of g "locked i" user target tb "the moves" a b d'] g f by (simp add: s)
  next
    case True
    show ?thesis
    proof (cases target)
      case None
      then have "orderItems d' = orderItems d"
        using f True by (auto simp: guard_simps dest!: recompute_subtotal(2))
      then show ?thesis by simp
    next
      case (Some t)
      then have "b = o_id t" "orderItems d' = update_where (\<lambda>l. oi_orderId l \<in> {i}) (\<lambda>l. l\<lparr>oi_orderId := o_id t\<rparr>) (orderItems d)"
        using f True by (auto simp: guard_simps s moveAll_rows dest!: recompute_subtotal(2))
      moreover have "\<And>l t. g (l\<lparr>oi_orderId := t\<rparr>) = g l" using g by (simp add: conserved_def)
      ultimately show ?thesis using redirect_conserves [of g "{i}" "o_id t" "orderItems d"] redirect_elsewhere [of i "o_id t" "orderItems d"] by simp
    qed
  qed
qed


section \<open>Concrete bills\<close>

definition floor0 :: db where
  "floor0 = db0\<lparr> seq := 9, outlets := [outlet0],
     diningTables := [\<lparr> dt_id = ''a'', dt_tenantId = ''t'', dt_outletId = ''k'', dt_areaId = ''hall'', dt_name = ''T1'', dt_seats = 4, dt_publicToken = None \<rparr>,
       \<lparr> dt_id = ''b'', dt_tenantId = ''t'', dt_outletId = ''k'', dt_areaId = ''hall'', dt_name = ''T2'', dt_seats = 4, dt_publicToken = None \<rparr>],
     orders := [(blank_order ''x'' ''t'' ''k'' DINE_IN)\<lparr> o_tableId := Some ''a'' \<rparr>, blank_order ''xx'' ''t'' ''k'' TAKEAWAY],
     orderItems := [new_line ''xxx'' ''x'' ''i'' ''Dal'' 3 100 300 5, new_line ''xxxx'' ''xx'' ''i'' ''Dal'' 1 100 100 5] \<rparr>"

definition succeeds :: "'a result \<Rightarrow> bool" where
  "succeeds m = (case m of Inl _ \<Rightarrow> False | Inr _ \<Rightarrow> True)"

lemma succeedsD: "succeeds m \<Longrightarrow> \<exists>x. m = Inr x"
  by (cases m) (simp_all add: succeeds_def)

lemmas floor_run = floor0_def db0_def outlet0_def user0_def env0_def blank_order_def new_line_def succeeds_def requireOrder_def
  assertOutlet_def lockTables_def lockTable_def lockOrders_def tenant_order_def lockOpenOrder_def assertMergeable_def assertNotSplit_def
  nonzero_def js_set_def open_on_table_def Let_def case_prod_beta

lemma create_order_total:
  assumes "o_deviceId (mk (e_cuid e (seq d))) = None" shows "\<exists>i d1. create_order e mk d = Inr (i, d1)"
proof -
  have "\<not> (\<exists>r \<in> set (orders d). o_deviceId r \<noteq> None \<and> o_clientId r \<noteq> None
      \<and> o_deviceId r = o_deviceId (mk (e_cuid e (seq d))) \<and> o_clientId r = o_clientId (mk (e_cuid e (seq d))))"
    using assms by auto
  then show ?thesis by (simp only: create_order_def fresh_def prod.case require_def if_True not_False_eq_True ebind_simps) blast
qed

lemma create_check_total: "\<exists>d'. create_check e user parent en d = Inr d'"
proof -
  obtain c rows disc where en: "en = (c, rows, disc)" by (cases en)
  let ?mk = "\<lambda>i. (blank_order i (u_tenantId user) (o_outletId parent) (o_orderType parent))
             \<lparr> o_customerName := o_customerName parent, o_customerPhone := o_customerPhone parent, o_createdById := Some (u_id user),
               o_parentOrderId := Some (o_id parent), o_splitIndex := Some (int c + 1),
               o_allocatedDiscount := numeric_col 2 (fromPaise (of_int disc)),
               o_serviceChargeWaived := o_serviceChargeWaived parent,
               o_serviceChargeWaivedReason := o_serviceChargeWaivedReason parent \<rparr>"
  obtain i d1 where c: "create_order e ?mk d = Inr (i, d1)" using create_order_total [of ?mk e d] by (auto simp: blank_order_def)
  have "orders (create_rows e i rows d1) = orders d @ [?mk i]"
    using create_order_Inr(2) [OF c] create_rows_effect [of e i rows d1] by auto
  then have "i \<in> o_id ` set (orders (create_rows e i rows d1))" by simp
  then obtain r where "row_by o_id i (orders (create_rows e i rows d1)) = Some r"
    using row_by_None [of o_id i "orders (create_rows e i rows d1)"] by fastforce
  then obtain p where "recomputeTotals i None False (create_rows e i rows d1) = Inr p" using recompute_total by blast
  then show ?thesis using c by (simp add: create_check_def en case_prod_beta)
qed

lemma efold_total: "(\<And>x s. \<exists>t. f x s = Inr t) \<Longrightarrow> \<exists>t. efold f xs s = Inr t"
  by (induction xs arbitrary: s) (auto simp: guard_simps, metis)

lemma split_floor0: "succeeds (split env0 user0 ''x'' (SplitEqual 2 (Some 10)) floor0)"
proof -
  obtain d1 where "efold (create_check env0 user0 ((blank_order ''x'' ''t'' ''k'' DINE_IN)\<lparr> o_tableId := Some ''a'' \<rparr>))
      (zip [0..<length (equal_checks [new_line ''xxx'' ''x'' ''i'' ''Dal'' 3 100 300 5] 2)]
        (zip (equal_checks [new_line ''xxx'' ''x'' ''i'' ''Dal'' 3 100 300 5] 2)
          (split_discounts 10 (equal_checks [new_line ''xxx'' ''x'' ''i'' ''Dal'' 3 100 300 5] 2)))) floor0 = Inr d1"
    using efold_total [of "create_check env0 user0 ((blank_order ''x'' ''t'' ''k'' DINE_IN)\<lparr> o_tableId := Some ''a'' \<rparr>)"] create_check_total by blast
  moreover have "lockOpenOrder user0 ''x'' floor0 = Inr ((blank_order ''x'' ''t'' ''k'' DINE_IN)\<lparr> o_tableId := Some ''a'' \<rparr>)"
    by (simp add: floor_run)
  moreover have "sort_key oi_id (filter (\<lambda>l. oi_orderId l = ''x'') (orderItems floor0)) = [new_line ''xxx'' ''x'' ''i'' ''Dal'' 3 100 300 5]"
    by (simp add: floor0_def new_line_def)
  moreover have "\<exists>l. l \<in> set (orderItems floor0) \<and> oi_orderId l = ''x'' \<and> \<not> oi_isComboComponent l"
    by (intro exI [of _ "new_line ''xxx'' ''x'' ''i'' ''Dal'' 3 100 300 5"]) (simp add: floor0_def new_line_def)
  ultimately show ?thesis
    by (simp add: split_def make_checks_def split_discount_def blank_order_def nonzero_def succeeds_def Let_def)
qed

lemma merge_floor0: "succeeds (merge user0 ''xx'' [''x''] floor0)"
  by (simp add: merge_def floor_run recomputeTotals_def billFor_def moveAll_def)

lemma recompute_ids: "i \<in> o_id ` set (orders d) \<Longrightarrow> \<exists>p. recomputeTotals i x pl d = Inr p \<and> o_id ` set (orders (snd p)) = o_id ` set (orders d)"
proof -
  assume i: "i \<in> o_id ` set (orders d)"
  then obtain r where "row_by o_id i (orders d) = Some r" using row_by_None [of o_id i "orders d"] by fastforce
  then obtain p where p: "recomputeTotals i x pl d = Inr p" using recompute_total by blast
  then show ?thesis using same_till_ids [OF same_till_recomputed [OF p]] by blast
qed

lemma transfer_lines_total:
  assumes "o_id source \<in> o_id ` set (orders d)"
  shows "\<exists>x. transfer_lines e user source None tb ls ms d = Inr x"
proof -
  let ?mk = "\<lambda>i. (blank_order i (u_tenantId user) (o_outletId source) DINE_IN)\<lparr> o_tableId := Some tb, o_createdById := Some (u_id user) \<rparr>"
  obtain i d1 where c: "create_order e ?mk d = Inr (i, d1)" using create_order_total [of ?mk e d] by (auto simp: blank_order_def)
  let ?d2 = "follow_kots (touched_kots ls ms) (o_id source) i (move_lines e ls ms i d1)"
  have "o_id ` set (orders ?d2) = o_id ` set (orders d1)"
    by (rule same_till_ids [OF same_till_trans [OF same_till_move_lines same_till_follow]])
  then have ids: "o_id ` set (orders ?d2) = insert i (o_id ` set (orders d))" using create_order_Inr(2) [OF c] by simp
  have "o_id source \<in> o_id ` set (orders ?d2)" unfolding ids using assms by (rule insertI2)
  from recompute_ids [OF this, of None False] obtain p where
    p: "recomputeTotals (o_id source) None False ?d2 = Inr p" "o_id ` set (orders (snd p)) = o_id ` set (orders ?d2)" by (elim exE conjE)
  have "i \<in> o_id ` set (orders (snd p))" unfolding p(2) ids by (rule insertI1)
  from recompute_ids [OF this, of None False] obtain q where "recomputeTotals i None False (snd p) = Inr q" by (elim exE conjE)
  then show ?thesis using c p(1) by (simp add: transfer_lines_def Let_def case_prod_beta)
qed

lemma transfer_floor0: "succeeds (transfer env0 user0 ''x'' ''b'' (Some [(''xxx'', 2)]) floor0)"
proof -
  let ?r = "(blank_order ''x'' ''t'' ''k'' DINE_IN)\<lparr> o_tableId := Some ''a'' \<rparr>"
  let ?ls = "[new_line ''xxx'' ''x'' ''i'' ''Dal'' 3 100 300 5]"
  have "requireOrder user0 ''x'' floor0 = Inr ?r" "lockTables user0 ''k'' [Some ''a'', Some ''b''] floor0 = Inr ()"
    "lockOrders user0 [''x''] floor0 = Inr (\<lambda>i. the (tenant_order user0 i floor0))" "tenant_order user0 ''x'' floor0 = Some ?r"
    "assertMergeable ?r ''Order'' = Inr ()" "open_on_table ''t'' ''k'' ''b'' floor0 = None"
    "\<exists>t. List.find (\<lambda>t. dt_id t = ''b'' \<and> dt_tenantId t = ''t'') (diningTables floor0) = Some t"
    by (simp_all add: floor_run)
  moreover have "filter (\<lambda>l. oi_orderId l = ''x'') (orderItems floor0) = ?ls" "resolveMoves ?ls [(''xxx'', 2)] = Inr [(''xxx'', 2)]"
    by (simp_all add: floor0_def new_line_def resolveMoves_def resolve_move_def)
  moreover obtain x where "transfer_lines env0 user0 ?r None ''b'' ?ls [(''xxx'', 2)] floor0 = Inr x"
    using transfer_lines_total [of ?r floor0 env0 user0 "''b''" ?ls "[(''xxx'', 2)]"] by (auto simp: floor0_def blank_order_def)
  moreover have "oi_quantity (new_line ''xxx'' ''x'' ''i'' ''Dal'' 3 100 300 5) = 3" "oi_id (new_line ''xxx'' ''x'' ''i'' ''Dal'' 3 100 300 5) = ''xxx''"
    "u_tenantId user0 = ''t''" by (simp_all add: new_line_def user0_def)
  ultimately show ?thesis by (auto simp: transfer_def succeeds_def Let_def)
qed

lemma floor0_ok: "shop_ok (e_cuid env0) (\<lambda>_. 7) floor0"
proof -
  have "(e_cuid env0) ` {..<9} = {[], ''x'', ''xx'', ''xxx'', ''xxxx'', ''xxxxx'', ''xxxxxx'', ''xxxxxxx'', ''xxxxxxxx''}"
    by (auto simp: env0_def lessThan_nat_numeral lessThan_Suc eval_nat_numeral)
  then show ?thesis using inj_env0
    by (auto simp: shop_ok_def orders_drawn_def till_ok_def till_of_def one_per_table_def gapless_def floor0_def db0_def blank_order_def
        view_def outlet0_def split: if_splits)
qed

lemma floor0_lines: "lines_drawn (e_cuid env0) floor0"
proof -
  have "''xxx'' = e_cuid env0 3" "''xxxx'' = e_cuid env0 4" by (simp_all add: env0_def eval_nat_numeral)
  then have "''xxx'' \<in> e_cuid env0 ` {..<9}" "''xxxx'' \<in> e_cuid env0 ` {..<9}" by (metis image_eqI lessThan_iff numeral_less_iff semiring_norm)+
  then show ?thesis using inj_env0 by (simp add: lines_drawn_def floor0_def db0_def new_line_def)
qed





end
