(* ===== verification/Cash.thy ===== *)
theory Cash
  imports Gift_Cards
begin

text \<open>
  The cash drawer and refunds (\<open>apps/api/src/payments/cash.service.ts\<close>), with the expense a drawer pay-out books
  (\<open>recordDrawerExpenseTx\<close> of \<open>finance.service.ts\<close>). The payment gateway is a remote service behind an interface:
  whether it is live and what it answers to a refund are arguments, and no answer stands for an exception.
\<close>

definition round2 :: "num \<Rightarrow> num" where
  "round2 n = of_int (js_round (n * 100)) / 100"

section \<open>The drawer\<close>

definition open_drawer_of :: "id \<Rightarrow> db \<Rightarrow> cash_session_row option" where
  "open_drawer_of outletId d = List.find (\<lambda>s. cs_outletId s = outletId \<and> cs_status s = DrawerOpen) (cashSessions d)"

text \<open>\<open>openDrawer\<close> reads and then writes, in two statements without a transaction around them.\<close>

definition open_drawer_check :: "auth_user \<Rightarrow> id \<Rightarrow> db \<Rightarrow> unit result" where
  "open_drawer_check user outletId d =
    ebind (assertOutlet user outletId) (\<lambda>_.
      require (open_drawer_of outletId d = None) (BadRequest [Txt ''A cash drawer is already open for this outlet'']))"

definition open_drawer_write :: "env \<Rightarrow> auth_user \<Rightarrow> id \<Rightarrow> num \<Rightarrow> db \<Rightarrow> id \<times> db" where
  "open_drawer_write e user outletId openingFloat d = (case fresh e d of (i, d1) \<Rightarrow>
    (i, cashSessions_update (\<lambda>ss. ss @ [\<lparr> cs_id = i, cs_tenantId = u_tenantId user, cs_outletId = outletId, cs_openedById = Some (u_id user),
          cs_openingFloat = numeric_col 2 openingFloat, cs_openedAt = e_now e, cs_closedAt = None, cs_countedCash = None,
          cs_status = DrawerOpen \<rparr>]) d1))"

definition openDrawer :: "env \<Rightarrow> auth_user \<Rightarrow> id \<Rightarrow> num \<Rightarrow> db \<Rightarrow> (id \<times> db) result" where
  "openDrawer e user outletId openingFloat d =
    ebind (open_drawer_check user outletId d) (\<lambda>_. Inr (open_drawer_write e user outletId openingFloat d))"

text \<open>The totals of a session, by one pass over its movements.\<close>

record drawer_sums =
  du_cashSales :: num
  du_payIns :: num
  du_payOuts :: num
  du_expenses :: num
  du_refunds :: num

fun add_movement :: "drawer_sums \<Rightarrow> cash_movement_row \<Rightarrow> drawer_sums" where
  "add_movement a m = (case cm_type m of
     SALE \<Rightarrow> a\<lparr>du_cashSales := du_cashSales a + cm_amount m\<rparr>
   | PAY_IN \<Rightarrow> a\<lparr>du_payIns := du_payIns a + cm_amount m\<rparr>
   | PAY_OUT \<Rightarrow> a\<lparr>du_payOuts := du_payOuts a + - cm_amount m\<rparr>
   | EXPENSE \<Rightarrow> a\<lparr>du_expenses := du_expenses a + - cm_amount m\<rparr>
   | REFUND \<Rightarrow> a\<lparr>du_refunds := du_refunds a + - cm_amount m\<rparr>)"

record session_dto =
  sd_id :: id
  sd_status :: drawer_status
  sd_openingFloat :: num
  sd_openedAt :: int
  sd_closedAt :: "int option"
  sd_countedCash :: "num option"
  sd_cashSales :: num
  sd_payIns :: num
  sd_payOuts :: num
  sd_expenses :: num
  sd_refunds :: num
  sd_expectedCash :: num
  sd_variance :: "num option"

definition expected_cash :: "cash_session_row \<Rightarrow> drawer_sums \<Rightarrow> num" where
  "expected_cash s a = cs_openingFloat s + du_cashSales a + du_payIns a - du_payOuts a - du_expenses a - du_refunds a"

definition movements_of :: "id \<Rightarrow> db \<Rightarrow> cash_movement_row list" where
  "movements_of sessionId d = filter (\<lambda>m. cm_sessionId m = sessionId) (cashMovements d)"

definition toSessionDto :: "cash_session_row \<Rightarrow> cash_movement_row list \<Rightarrow> session_dto" where
  "toSessionDto s movements =
    (let a = foldl add_movement \<lparr> du_cashSales = 0, du_payIns = 0, du_payOuts = 0, du_expenses = 0, du_refunds = 0 \<rparr> movements;
         expected = expected_cash s a
     in \<lparr> sd_id = cs_id s, sd_status = cs_status s, sd_openingFloat = round2 (cs_openingFloat s), sd_openedAt = cs_openedAt s,
          sd_closedAt = cs_closedAt s, sd_countedCash = map_option round2 (cs_countedCash s), sd_cashSales = round2 (du_cashSales a),
          sd_payIns = round2 (du_payIns a), sd_payOuts = round2 (du_payOuts a), sd_expenses = round2 (du_expenses a),
          sd_refunds = round2 (du_refunds a), sd_expectedCash = round2 expected,
          sd_variance = map_option (\<lambda>c. round2 (c - expected)) (cs_countedCash s) \<rparr>)"

record session_report =
  srp_session :: session_dto
  srp_movements :: "cash_movement_row list"
  srp_expensesByCategory :: "(string \<times> num) list"

definition expenses_by_category :: "cash_movement_row list \<Rightarrow> (string \<times> num) list" where
  "expenses_by_category movements =
     sort_key (\<lambda>p. - snd p) (map (\<lambda>(c, a). (c, round2 a))
       (foldl (\<lambda>m x. if cm_type x = EXPENSE then js_map_add (or_else (cm_category x) ''General'') \<bar>cm_amount x\<bar> m else m) [] movements))"

definition report :: "auth_user \<Rightarrow> id \<Rightarrow> id \<Rightarrow> db \<Rightarrow> session_report result" where
  "report user outletId sessionId d =
    ebind (assertOutlet user outletId) (\<lambda>_.
    ebind (some_or (List.find (\<lambda>s. cs_id s = sessionId \<and> cs_outletId s = outletId \<and> cs_tenantId s = u_tenantId user) (cashSessions d))
             (NotFound [Txt ''Session not found''])) (\<lambda>session.
      let movements = sort_key (\<lambda>m. - cm_createdAt m) (movements_of (cs_id session) d)
      in Inr \<lparr> srp_session = toSessionDto session movements, srp_movements = movements,
               srp_expensesByCategory = expenses_by_category movements \<rparr>))"

definition closeDrawer :: "env \<Rightarrow> auth_user \<Rightarrow> id \<Rightarrow> num \<Rightarrow> db \<Rightarrow> (session_report \<times> db) result" where
  "closeDrawer e user outletId countedCash d =
    ebind (assertOutlet user outletId) (\<lambda>_.
    ebind (some_or (open_drawer_of outletId d) (BadRequest [Txt ''No open drawer to close''])) (\<lambda>session.
      let d1 = cashSessions_update (set_row cs_id (cs_id session) (\<lambda>s. s\<lparr>cs_status := DrawerClosed, cs_closedAt := Some (e_now e),
                 cs_countedCash := Some (numeric_col 2 countedCash)\<rparr>)) d
      in ebind (report user outletId (cs_id session) d1) (\<lambda>r. Inr (r, d1))))"

definition current :: "auth_user \<Rightarrow> id \<Rightarrow> db \<Rightarrow> session_dto option result" where
  "current user outletId d =
    ebind (assertOutlet user outletId) (\<lambda>_.
      Inr (map_option (\<lambda>s. toSessionDto s (movements_of (cs_id s) d)) (open_drawer_of outletId d)))"

definition recentSessions :: "auth_user \<Rightarrow> id \<Rightarrow> db \<Rightarrow> session_dto list result" where
  "recentSessions user outletId d =
    ebind (assertOutlet user outletId) (\<lambda>_.
      Inr (map (\<lambda>s. toSessionDto s (movements_of (cs_id s) d))
        (take 15 (sort_key (\<lambda>s. - cs_openedAt s)
          (filter (\<lambda>s. cs_tenantId s = u_tenantId user \<and> cs_outletId s = outletId) (cashSessions d))))))"

section \<open>Movements and the expense book\<close>

definition category_by_name :: "id \<Rightarrow> string \<Rightarrow> db \<Rightarrow> expense_category_row option" where
  "category_by_name tenantId name d = List.find (\<lambda>c. ec_tenantId c = tenantId \<and> ec_name c = name) (expenseCategories d)"

definition upsert_category :: "env \<Rightarrow> id \<Rightarrow> string \<Rightarrow> db \<Rightarrow> id \<times> db" where
  "upsert_category e tenantId name d = (case category_by_name tenantId name d of
     Some c \<Rightarrow> (ec_id c, d)
   | None \<Rightarrow> (case fresh e d of (i, d1) \<Rightarrow>
       (i, expenseCategories_update (\<lambda>cs. cs @ [\<lparr> ec_id = i, ec_tenantId = tenantId, ec_name = name \<rparr>]) d1)))"

definition recordDrawerExpenseTx :: "env \<Rightarrow> id \<Rightarrow> id \<Rightarrow> id option \<Rightarrow> id \<Rightarrow> string \<Rightarrow> num \<Rightarrow> string option \<Rightarrow> db \<Rightarrow> db" where
  "recordDrawerExpenseTx e tenantId outletId userId cashMovementId category amount note d =
    (let name = (if trim category \<noteq> [] then trim category else ''General'');
         (categoryId, d1) = upsert_category e tenantId name d;
         (i, d2) = fresh e d1
     in expenses_update (\<lambda>es. es @ [\<lparr> ex_id = i, ex_tenantId = tenantId, ex_outletId = outletId, ex_categoryId = categoryId,
          ex_date = istDateOf (e_now e), ex_taxableAmount = numeric_col 2 amount, ex_cgst = 0, ex_sgst = 0, ex_igst = 0,
          ex_total = numeric_col 2 amount, ex_itcEligible = False, ex_paidFrom = ''CASH_DRAWER'', ex_note = note,
          ex_cashMovementId = Some cashMovementId, ex_createdById = userId, ex_voidedAt = None \<rparr>]) d2)"

record movement_input =
  mi_type :: movement_type
  mi_amount :: num
  mi_category :: "string option"
  mi_note :: "string option"

definition signed_amount :: "movement_input \<Rightarrow> num" where
  "signed_amount input = (if mi_type input = PAY_IN then mi_amount input else - mi_amount input)"

definition addMovement :: "env \<Rightarrow> auth_user \<Rightarrow> id \<Rightarrow> movement_input \<Rightarrow> db \<Rightarrow> db result" where
  "addMovement e user outletId input d =
    ebind (assertOutlet user outletId) (\<lambda>_.
    ebind (some_or (open_drawer_of outletId d) (BadRequest [Txt ''Open a cash drawer before recording cash movements''])) (\<lambda>session.
      let (mid, d1) = fresh e d;
          d2 = cashMovements_update (\<lambda>ms. ms @ [\<lparr> cm_id = mid, cm_sessionId = cs_id session, cm_type = mi_type input,
                 cm_amount = numeric_col 2 (signed_amount input),
                 cm_category = (if mi_type input = EXPENSE then Some (or_else (mi_category input) ''General'') else None),
                 cm_note = mi_note input, cm_orderId = None, cm_createdAt = e_now e \<rparr>]) d1
      in Inr (if mi_type input = EXPENSE
              then recordDrawerExpenseTx e (u_tenantId user) outletId (Some (u_id user)) mid (or_else (mi_category input) ''General'')
                     (mi_amount input) (mi_note input) d2
              else d2)))"

section \<open>The drawer adds up\<close>

definition movement_sum :: "cash_movement_row list \<Rightarrow> num" where
  "movement_sum ms = (\<Sum>m\<leftarrow>ms. cm_amount m)"

lemma movement_sum_simps [simp]:
  "movement_sum [] = 0" "movement_sum (m # ms) = cm_amount m + movement_sum ms" "movement_sum (ms @ ns) = movement_sum ms + movement_sum ns"
  by (simp_all add: movement_sum_def)

lemma expected_cash_step: "expected_cash s (add_movement a m) = expected_cash s a + cm_amount m"
  by (cases "cm_type m") (simp_all add: expected_cash_def)

lemma expected_cash_fold: "expected_cash s (foldl add_movement a ms) = expected_cash s a + movement_sum ms"
  by (induction ms arbitrary: a) (simp_all add: expected_cash_step del: add_movement.simps)

lemma toSessionDto_expected:
  "sd_expectedCash (toSessionDto s ms) = round2 (cs_openingFloat s + movement_sum ms)"
  "sd_variance (toSessionDto s ms) = map_option (\<lambda>c. round2 (c - (cs_openingFloat s + movement_sum ms))) (cs_countedCash s)"
  by (simp_all add: toSessionDto_def Let_def expected_cash_fold) (simp_all add: expected_cash_def)

lemma movement_sum_sort: "movement_sum (sort_key f ms) = movement_sum ms"
proof -
  have "mset (sort_key f ms) = mset ms" by simp
  then show ?thesis unfolding movement_sum_def by (metis mset_map sum_mset_sum_list)
qed

lemma open_drawer_of_Some: "open_drawer_of u d = Some s \<Longrightarrow> s \<in> set (cashSessions d) \<and> cs_outletId s = u \<and> cs_status s = DrawerOpen"
  unfolding open_drawer_of_def by (drule find_SomeD) simp

text \<open>The drawer adds up: closing a drawer reports as expected cash the opening float plus every signed movement of the
  session, whatever the kinds of the movements, as variance the counted cash less that, and leaves the drawer closed.\<close>

theorem closeDrawer_adds_up:
  assumes run: "closeDrawer e user u counted d = Inr (rep, d')" and dist: "distinct (map cs_id (cashSessions d))"
  shows "\<exists>s. open_drawer_of u d = Some s
    \<and> sd_expectedCash (srp_session rep) = round2 (cs_openingFloat s + movement_sum (movements_of (cs_id s) d))
    \<and> sd_variance (srp_session rep) = Some (round2 (numeric_col 2 counted - (cs_openingFloat s + movement_sum (movements_of (cs_id s) d))))
    \<and> map_option cs_status (row_by cs_id (cs_id s) (cashSessions d')) = Some DrawerClosed"
proof -
  let ?f = "\<lambda>s. s\<lparr>cs_status := DrawerClosed, cs_closedAt := Some (e_now e), cs_countedCash := Some (numeric_col 2 counted)\<rparr>"
  from run obtain s where s: "open_drawer_of u d = Some s" and d': "d' = cashSessions_update (set_row cs_id (cs_id s) ?f) d"
    and r: "report user u (cs_id s) d' = Inr rep"
    unfolding closeDrawer_def Let_def guard_simps by auto
  have mem: "s \<in> set (cashSessions d)" using open_drawer_of_Some [OF s] by simp
  have row: "row_by cs_id (cs_id s) (cashSessions d) = Some s" by (rule row_by_distinct [OF dist mem])
  have row': "row_by cs_id (cs_id s) (cashSessions d') = Some (?f s)"
    unfolding d' using find_update_where_same [of "\<lambda>x. cs_id x = cs_id s" ?f "cashSessions d"] row by (simp add: row_by_def set_row_def)
  from r obtain x where x: "List.find (\<lambda>x. cs_id x = cs_id s \<and> cs_outletId x = u \<and> cs_tenantId x = u_tenantId user) (cashSessions d') = Some x"
    and rep: "rep = \<lparr> srp_session = toSessionDto x (sort_key (\<lambda>m. - cm_createdAt m) (movements_of (cs_id x) d')),
       srp_movements = sort_key (\<lambda>m. - cm_createdAt m) (movements_of (cs_id x) d'),
       srp_expensesByCategory = expenses_by_category (sort_key (\<lambda>m. - cm_createdAt m) (movements_of (cs_id x) d')) \<rparr>"
    unfolding report_def Let_def guard_simps by auto
  have "distinct (map cs_id (cashSessions d'))" using dist by (simp add: d' map_key_set_row)
  then have "x = ?f s" using row' row_by_distinct [of cs_id "cashSessions d'" x] find_SomeD [OF x] by simp
  moreover have "movements_of (cs_id s) d' = movements_of (cs_id s) d" by (simp add: d' movements_of_def)
  ultimately show ?thesis using s row' by (simp add: rep toSessionDto_expected movement_sum_sort)
qed

text \<open>A cash movement moves the drawer by exactly its signed amount, on the open session of the outlet, and an expense
  paid from the drawer is booked once in the expense book, for the same amount and linked to the movement.\<close>

theorem addMovement_exact:
  assumes run: "addMovement e user u input d = Inr d'" and "paise_exact (mi_amount input)"
  shows "\<exists>s m. open_drawer_of u d = Some s \<and> movements_of (cs_id s) d' = movements_of (cs_id s) d @ [m]
    \<and> movement_sum (movements_of (cs_id s) d') = movement_sum (movements_of (cs_id s) d) + signed_amount input
    \<and> (\<forall>i. i \<noteq> cs_id s \<longrightarrow> movements_of i d' = movements_of i d)
    \<and> (if mi_type input = EXPENSE
       then \<exists>x. expenses d' = expenses d @ [x] \<and> ex_total x = mi_amount input \<and> ex_cashMovementId x = Some (cm_id m) \<and> ex_outletId x = u
       else expenses d' = expenses d)"
proof -
  obtain s where s: "open_drawer_of u d = Some s" using run by (auto simp: addMovement_def guard_simps)
  let ?m = "\<lparr> cm_id = e_cuid e (seq d), cm_sessionId = cs_id s, cm_type = mi_type input, cm_amount = numeric_col 2 (signed_amount input),
      cm_category = (if mi_type input = EXPENSE then Some (or_else (mi_category input) ''General'') else None),
      cm_note = mi_note input, cm_orderId = None, cm_createdAt = e_now e \<rparr>"
  let ?d2 = "cashMovements_update (\<lambda>ms. ms @ [?m]) (d\<lparr>seq := seq d + 1\<rparr>)"
  have d': "d' = (if mi_type input = EXPENSE
      then recordDrawerExpenseTx e (u_tenantId user) u (Some (u_id user)) (e_cuid e (seq d)) (or_else (mi_category input) ''General'')
             (mi_amount input) (mi_note input) ?d2 else ?d2)"
    using run s by (cases "mi_type input = EXPENSE") (auto simp: addMovement_def guard_simps fresh_def Let_def)
  have up: "cashMovements (snd (upsert_category e t n x)) = cashMovements x" "expenses (snd (upsert_category e t n x)) = expenses x" for t n x
    by (auto simp: upsert_category_def fresh_def split: option.split)
  have rx: "cashMovements (recordDrawerExpenseTx e t u w m c a n x) = cashMovements x"
    "\<exists>y. expenses (recordDrawerExpenseTx e t u w m c a n x) = expenses x @ [y] \<and> ex_total y = numeric_col 2 a \<and> ex_cashMovementId y = Some m \<and> ex_outletId y = u"
    for t w m c a n x
    by (auto simp: recordDrawerExpenseTx_def Let_def fresh_def case_prod_beta up)
  have cm: "cashMovements d' = cashMovements d @ [?m]" by (simp add: d' rx)
  have amt: "numeric_col 2 (signed_amount input) = signed_amount input" "numeric_col 2 (mi_amount input) = mi_amount input"
    using assms(2) by (auto simp: signed_amount_def intro!: numeric_col_exact decimals_minus)
  have own: "movements_of (cs_id s) d' = movements_of (cs_id s) d @ [?m]" and oth: "\<And>i. i \<noteq> cs_id s \<Longrightarrow> movements_of i d' = movements_of i d"
    by (simp_all add: movements_of_def cm)
  have ex: "if mi_type input = EXPENSE
       then \<exists>x. expenses d' = expenses d @ [x] \<and> ex_total x = mi_amount input \<and> ex_cashMovementId x = Some (cm_id ?m) \<and> ex_outletId x = u
       else expenses d' = expenses d"
    using rx(2) [of "u_tenantId user" "Some (u_id user)" "e_cuid e (seq d)" "or_else (mi_category input) ''General''" "mi_amount input" "mi_note input" ?d2]
    by (cases "mi_type input = EXPENSE") (simp_all add: d' amt)
  show ?thesis using s own oth ex by (intro exI [of _ s] exI [of _ ?m]) (simp add: amt)
qed

section \<open>One open drawer\<close>

definition open_drawers :: "id \<Rightarrow> db \<Rightarrow> cash_session_row list" where
  "open_drawers u d = filter (\<lambda>s. cs_outletId s = u \<and> cs_status s = DrawerOpen) (cashSessions d)"

lemma open_drawer_of_None: "open_drawer_of u d = None \<longleftrightarrow> open_drawers u d = []"
  by (auto simp: open_drawer_of_def open_drawers_def find_None_iff_ball filter_empty_conv)

lemma open_drawers_write:
  "open_drawers v (snd (open_drawer_write e user u x d)) = open_drawers v d @
     (if v = u then [\<lparr> cs_id = e_cuid e (seq d), cs_tenantId = u_tenantId user, cs_outletId = u, cs_openedById = Some (u_id user),
          cs_openingFloat = numeric_col 2 x, cs_openedAt = e_now e, cs_closedAt = None, cs_countedCash = None, cs_status = DrawerOpen \<rparr>] else [])"
  by (simp add: open_drawer_write_def fresh_def open_drawers_def)

lemma open_drawers_close:
  assumes "closeDrawer e user u c d = Inr (rep, d')" shows "length (open_drawers v d') \<le> length (open_drawers v d)"
proof -
  from assms obtain i a b where d': "d' = cashSessions_update (set_row cs_id i (\<lambda>s. s\<lparr>cs_status := DrawerClosed, cs_closedAt := a, cs_countedCash := b\<rparr>)) d"
    unfolding closeDrawer_def guard_simps Let_def sum.inject prod.inject by (elim exE conjE) (rule that, erule sym)
  have "length (filter (\<lambda>s. cs_outletId s = v \<and> cs_status s = DrawerOpen)
      (set_row cs_id i (\<lambda>s. s\<lparr>cs_status := DrawerClosed, cs_closedAt := a, cs_countedCash := b\<rparr>) ss))
    \<le> length (filter (\<lambda>s. cs_outletId s = v \<and> cs_status s = DrawerOpen) ss)" for ss
    by (induction ss) (auto simp: set_row_def)
  then show ?thesis by (simp add: d' open_drawers_def)
qed

text \<open>Requests served one after the other: opening, closing, and anything that leaves the sessions alone.\<close>

inductive drawer_step :: "db \<Rightarrow> db \<Rightarrow> bool" where
  opened: "openDrawer e user u x d = Inr (i, d') \<Longrightarrow> drawer_step d d'"
| closed: "closeDrawer e user u c d = Inr (rep, d') \<Longrightarrow> drawer_step d d'"
| moved: "addMovement e user u input d = Inr d' \<Longrightarrow> drawer_step d d'"
| elsewhere: "cashSessions d' = cashSessions d \<Longrightarrow> drawer_step d d'"

lemma addMovement_sessions: "addMovement e user u input d = Inr d' \<Longrightarrow> cashSessions d' = cashSessions d"
proof -
  have "cashSessions (snd (upsert_category e t n x)) = cashSessions x" for t n x
    by (auto simp: upsert_category_def fresh_def split: option.split)
  then show "addMovement e user u input d = Inr d' \<Longrightarrow> cashSessions d' = cashSessions d"
    by (auto simp: addMovement_def recordDrawerExpenseTx_def guard_simps Let_def fresh_def case_prod_beta)
qed

lemma drawer_step_open: "drawer_step d d' \<Longrightarrow> length (open_drawers v d) \<le> 1 \<Longrightarrow> length (open_drawers v d') \<le> 1"
proof (induction rule: drawer_step.cases)
  case (opened e user u x d i d')
  then have "open_drawer_of u d = None" "d' = snd (open_drawer_write e user u x d)"
    by (auto simp: openDrawer_def open_drawer_check_def guard_simps)
  then show ?case using opened by (simp add: open_drawers_write open_drawer_of_None)
next
  case (closed e user u c d rep d')
  then show ?case using open_drawers_close [of e user u c d rep d' v] by simp
next
  case (moved e user u input d d')
  then show ?case using addMovement_sessions [of e user u input d d'] by (simp add: open_drawers_def)
next
  case (elsewhere d' d)
  then show ?case by (simp add: open_drawers_def)
qed

text \<open>Served one after the other, drawer requests never leave an outlet with two open drawers.\<close>

theorem one_open_drawer:
  assumes "drawer_step\<^sup>*\<^sup>* d0 d" and "cashSessions d0 = []"
  shows "length (open_drawers u d) \<le> 1"
  using assms
proof (induction rule: rtranclp_induct)
  case base
  then show ?case by (simp add: open_drawers_def)
next
  case (step d d')
  then show ?case using drawer_step_open [of d d' u] by simp
qed

text \<open>Interleaved, they can: the check and the insert of \<open>openDrawer\<close> are separate statements, so two requests whose checks
  both run before either insert leave the outlet with two open drawers.\<close>

theorem open_drawer_race:
  assumes "open_drawer_check user u d = Inr ()" and "open_drawer_check user' u d = Inr ()"
    and "d1 = snd (open_drawer_write e user u x d)" and "d2 = snd (open_drawer_write e user' u y d1)"
  shows "length (open_drawers u d2) = 2"
  using assms by (simp add: open_drawer_check_def guard_simps open_drawer_of_None open_drawers_write)

section \<open>A concrete drawer\<close>

definition cashier0 :: auth_user where
  "cashier0 = \<lparr> u_id = ''u'', u_tenantId = ''t'', u_outletIds = [''k''], u_permissions = [''*''] \<rparr>"

definition drawer0 :: db where
  "drawer0 = snd (open_drawer_write env0 cashier0 ''k'' 500 db0)"

definition payout0 :: movement_input where
  "payout0 = \<lparr> mi_type = EXPENSE, mi_amount = 120, mi_category = None, mi_note = None \<rparr>"

lemmas drawer_run = drawer0_def open_drawer_write_def fresh_def cashier0_def db0_def env0_def assertOutlet_def open_drawer_of_def Let_def

theorem closeDrawer_adds_up_witness:
  "\<exists>rep d'. closeDrawer env0 cashier0 ''k'' 480 drawer0 = Inr (rep, d') \<and> sd_expectedCash (srp_session rep) = 500
    \<and> sd_variance (srp_session rep) = Some (-20)"
proof -
  obtain rep d' where r: "closeDrawer env0 cashier0 ''k'' 480 drawer0 = Inr (rep, d')"
    by (simp add: closeDrawer_def report_def drawer_run set_row_def)
  have "distinct (map cs_id (cashSessions drawer0))" by (simp add: drawer_run)
  from closeDrawer_adds_up [OF r this] obtain s where s: "open_drawer_of ''k'' drawer0 = Some s"
    "sd_expectedCash (srp_session rep) = round2 (cs_openingFloat s + movement_sum (movements_of (cs_id s) drawer0))"
    "sd_variance (srp_session rep) = Some (round2 (numeric_col 2 480 - (cs_openingFloat s + movement_sum (movements_of (cs_id s) drawer0))))"
    by blast
  have "cs_openingFloat s = 500" "movements_of (cs_id s) drawer0 = []"
    using s(1) by (auto simp: drawer_run movements_of_def numeric_col_exact)
  then show ?thesis using s r js_round_of_int [of 50000] js_round_of_int [of "-2000"] by (auto simp: round2_def numeric_col_exact)
qed

theorem addMovement_exact_witness:
  "\<exists>d' s. addMovement env0 cashier0 ''k'' payout0 drawer0 = Inr d' \<and> open_drawer_of ''k'' drawer0 = Some s
    \<and> movement_sum (movements_of (cs_id s) d') = -120"
proof -
  obtain d' where r: "addMovement env0 cashier0 ''k'' payout0 drawer0 = Inr d'"
    by (simp add: addMovement_def drawer_run)
  have "paise_exact (mi_amount payout0)" by (simp add: payout0_def)
  from addMovement_exact [OF r this] r show ?thesis by (auto simp: drawer_run movements_of_def payout0_def signed_amount_def)
qed

theorem one_open_drawer_witness: "drawer_step\<^sup>*\<^sup>* db0 drawer0 \<and> length (open_drawers ''k'' drawer0) \<le> 1"
proof -
  have "openDrawer env0 cashier0 ''k'' 500 db0 = Inr (fst (open_drawer_write env0 cashier0 ''k'' 500 db0), drawer0)"
    by (simp add: openDrawer_def open_drawer_check_def drawer_run)
  then have "drawer_step\<^sup>*\<^sup>* db0 drawer0" by (blast intro: drawer_step.opened)
  moreover have "cashSessions db0 = []" by (simp add: db0_def)
  ultimately show ?thesis using one_open_drawer by blast
qed

theorem open_drawer_race_witness:
  "length (open_drawers ''k'' (snd (open_drawer_write env0 cashier0 ''k'' 700 drawer0))) = 2"
  by (rule open_drawer_race [OF _ _ drawer0_def refl])
    (simp_all add: open_drawer_check_def assertOutlet_def cashier0_def open_drawer_of_def db0_def)

end
