(* ===== verification/Refunds.thy ===== *)
theory Refunds
  imports Cash Orders
begin

text \<open>
  Refunds of settled orders (\<open>refund\<close> of \<open>apps/api/src/payments/cash.service.ts\<close>): the reservation inside one
  transaction, and the call of the payment gateway after it.
\<close>

section \<open>The operation\<close>

record refund_input =
  ri_amount :: num
  ri_mode :: payment_mode
  ri_reason :: "string option"
  ri_requestKey :: "string option"

text \<open>The gateway: whether it is live, and its answer to a refund request; \<open>None\<close> is an exception.\<close>

record gateway_reply =
  gr_ref :: string
  gr_status :: string

record gateway =
  gw_live :: bool
  gw_refund :: "num \<Rightarrow> string \<Rightarrow> string option \<Rightarrow> id \<Rightarrow> string option \<Rightarrow> gateway_reply option"

definition refundStatusOf :: "string \<Rightarrow> refund_status" where
  "refundStatusOf s = (if s = ''processed'' then RefundProcessed else if s = ''failed'' then RefundFailed else RefundPending)"

definition whole_paise :: "num \<Rightarrow> bool" where
  "whole_paise x \<longleftrightarrow> \<not> (x \<le> 0 \<or> \<bar>x * 100 - of_int (js_round (x * 100))\<bar> > 1 / 10000000)"

definition refund_by_key :: "id \<Rightarrow> id \<Rightarrow> id \<Rightarrow> string \<Rightarrow> db \<Rightarrow> refund_row option" where
  "refund_by_key tenantId outletId orderId key d =
     List.find (\<lambda>r. rf_tenantId r = tenantId \<and> rf_outletId r = outletId \<and> rf_orderId r = orderId \<and> rf_requestKey r = Some key) (refunds d)"

text \<open>What is already refunded or reserved: everything but verified failures.\<close>

definition reserved_of :: "id \<Rightarrow> id \<Rightarrow> id \<Rightarrow> db \<Rightarrow> num" where
  "reserved_of tenantId outletId orderId d =
     (\<Sum>r\<leftarrow>filter (\<lambda>r. rf_tenantId r = tenantId \<and> rf_outletId r = outletId \<and> rf_orderId r = orderId \<and> rf_status r \<noteq> RefundFailed) (refunds d). rf_amount r)"

definition paid_of :: "id \<Rightarrow> db \<Rightarrow> num" where
  "paid_of orderId d = (\<Sum>p\<leftarrow>filter (\<lambda>p. p_orderId p = orderId) (payments d). p_amount p)"

definition refund_limit :: "order_row \<Rightarrow> db \<Rightarrow> int" where
  "refund_limit order d = min (toPaise (o_total order)) (toPaise (paid_of (o_id order) d))"

definition used_of :: "id \<Rightarrow> db \<Rightarrow> num" where
  "used_of gatewayPaymentId d =
     (\<Sum>r\<leftarrow>filter (\<lambda>r. rf_gatewayPaymentId r = Some gatewayPaymentId \<and> rf_status r \<noteq> RefundFailed) (refunds d). rf_amount r)"

text \<open>\<open>orderBy: { paidAt: "asc" }\<close> puts nulls last.\<close>

definition captured :: "id \<Rightarrow> id \<Rightarrow> id \<Rightarrow> db \<Rightarrow> gateway_payment_row list" where
  "captured tenantId outletId orderId d =
     sort_key (\<lambda>g. case gp_paidAt g of Some t \<Rightarrow> (0 :: int, t) | None \<Rightarrow> (1, 0))
       (filter (\<lambda>g. gp_tenantId g = tenantId \<and> gp_outletId g = outletId \<and> gp_orderId g = orderId \<and> gp_status g = GwPaid \<and> gp_paymentId g \<noteq> None)
         (gatewayPayments d))"

definition refund_source :: "id \<Rightarrow> id \<Rightarrow> id \<Rightarrow> refund_input \<Rightarrow> db \<Rightarrow> id option" where
  "refund_source tenantId outletId orderId input d =
    (if ri_mode input \<noteq> CASH \<and> ri_mode input \<noteq> GIFT_CARD
     then map_option gp_id (List.find (\<lambda>g. toPaise (gp_amount g) - toPaise (used_of (gp_id g) d) \<ge> toPaise (ri_amount input))
            (captured tenantId outletId orderId d))
     else None)"

definition initial_status :: "gateway \<Rightarrow> refund_input \<Rightarrow> id option \<Rightarrow> refund_status" where
  "initial_status gw input source = (if ri_mode input = CASH \<or> ri_mode input = GIFT_CARD then RefundProcessed
     else if gw_live gw \<and> source = None then RefundManual else RefundPending)"

text \<open>\<open>refund.create\<close>: the request key is unique within an order.\<close>

definition create_refund :: "refund_row \<Rightarrow> db \<Rightarrow> db result" where
  "create_refund r d =
    ebind (require (case rf_requestKey r of None \<Rightarrow> True | Some k \<Rightarrow> refund_by_key (rf_tenantId r) (rf_outletId r) (rf_orderId r) k d = None) UniqueViolation)
      (\<lambda>_. Inr (refunds_update (\<lambda>rs. rs @ [r]) d))"

text \<open>Store credit for a gift-card refund, its code recorded on the refund; a cash refund leaves the open drawer.\<close>

definition refund_money :: "env \<Rightarrow> nat list \<Rightarrow> auth_user \<Rightarrow> id \<Rightarrow> order_row \<Rightarrow> refund_input \<Rightarrow> refund_row \<Rightarrow> db \<Rightarrow> (refund_row \<times> db) result" where
  "refund_money e draws user outletId order input r d =
    ebind (if ri_mode input = GIFT_CARD
           then ebind (issueStoreCreditTx e draws (u_tenantId user) outletId (ri_amount input) (Some (o_id order)) (Some (u_id user))
                        (Some (or_else (ri_reason input) (''Refund for '' @ or_else (o_billNumber order) (o_id order))))
                        (o_customerPhone order) (o_customerName order) d) (\<lambda>(code, d1).
                  Inr (r\<lparr>rf_gatewayRef := Some code\<rparr>, refunds_update (set_row rf_id (rf_id r) (\<lambda>x. x\<lparr>rf_gatewayRef := Some code\<rparr>)) d1))
           else Inr (r, d)) (\<lambda>(r1, d1).
      Inr (r1, if ri_mode input = CASH
               then drawer_movement e (u_tenantId user) outletId REFUND (- ri_amount input) None (Some (or_else (ri_reason input) ''Refund''))
                      (Some (o_id order)) d1
               else d1))"

text \<open>The transaction: the refund, whether it is new, and the reference of the order.\<close>

definition reserve_refund ::
  "env \<Rightarrow> nat list \<Rightarrow> gateway \<Rightarrow> auth_user \<Rightarrow> id \<Rightarrow> order_row \<Rightarrow> refund_input \<Rightarrow> db \<Rightarrow> (refund_row \<times> bool \<times> string \<times> db) result" where
  "reserve_refund e draws gw user outletId order input d =
    ebind (require (\<not> toPaise (reserved_of (u_tenantId user) outletId (o_id order) d) + toPaise (ri_amount input) > refund_limit order d)
             (BadRequest [Txt ''Refund exceeds the remaining refundable balance''])) (\<lambda>_.
      let source = refund_source (u_tenantId user) outletId (o_id order) input d;
          (i, d1) = fresh e d;
          r = \<lparr> rf_id = i, rf_tenantId = u_tenantId user, rf_outletId = outletId, rf_orderId = o_id order, rf_amount = numeric_col 2 (ri_amount input),
                rf_mode = ri_mode input, rf_reason = ri_reason input, rf_gatewayRef = None, rf_status = initial_status gw input source,
                rf_requestKey = ri_requestKey input, rf_gatewayPaymentId = source \<rparr>
      in ebind (create_refund r d1) (\<lambda>d2.
         ebind (refund_money e draws user outletId order input r d2) (\<lambda>(r1, d3).
           Inr (r1, True, or_else (o_billNumber order) (o_id order),
                audit (u_tenantId user) (Some (u_id user)) ''REFUND_RESERVED'' ''refund'' i d3))))"

definition refund_tx ::
  "env \<Rightarrow> nat list \<Rightarrow> gateway \<Rightarrow> auth_user \<Rightarrow> id \<Rightarrow> id \<Rightarrow> refund_input \<Rightarrow> db \<Rightarrow> (refund_row \<times> bool \<times> string \<times> db) result" where
  "refund_tx e draws gw user outletId orderId input d =
    ebind (some_or (List.find (\<lambda>r. o_id r = orderId \<and> o_tenantId r = u_tenantId user \<and> o_outletId r = outletId) (orders d))
             (NotFound [Txt ''Order not found''])) (\<lambda>order.
    ebind (require (o_status order = SETTLED) (BadRequest [Txt ''Only settled orders can be refunded''])) (\<lambda>_.
      case (if truthy (ri_requestKey input) then refund_by_key (u_tenantId user) outletId orderId (the (ri_requestKey input)) d else None) of
        Some existing \<Rightarrow>
          ebind (require (\<not> (toPaise (rf_amount existing) \<noteq> toPaise (ri_amount input) \<or> rf_mode existing \<noteq> ri_mode input \<or> rf_reason existing \<noteq> ri_reason input))
                   (BadRequest [Txt ''Refund request key was already used for different details''])) (\<lambda>_.
            Inr (existing, False, or_else (o_billNumber order) (o_id order), d))
      | None \<Rightarrow> reserve_refund e draws gw user outletId order input d))"

text \<open>After the transaction: a new pending refund is sent to the gateway; an exception leaves it reserved as unknown.\<close>

definition send_refund :: "gateway \<Rightarrow> refund_input \<Rightarrow> string \<Rightarrow> refund_row \<Rightarrow> db \<Rightarrow> refund_row \<times> db" where
  "send_refund gw input orderRef r d =
    (let paymentId = (case rf_gatewayPaymentId r of
           Some g \<Rightarrow> (if g \<noteq> [] then (case row_by gp_id g (gatewayPayments d) of Some p \<Rightarrow> gp_paymentId p | None \<Rightarrow> None) else None)
         | None \<Rightarrow> None);
         f = (case gw_refund gw (ri_amount input) orderRef (ri_reason input) (rf_id r) paymentId of
                Some res \<Rightarrow> (\<lambda>x. x\<lparr>rf_gatewayRef := Some (gr_ref res), rf_status := refundStatusOf (gr_status res)\<rparr>)
              | None \<Rightarrow> (\<lambda>x. x\<lparr>rf_status := RefundUnknown\<rparr>))
     in (f r, refunds_update (set_row rf_id (rf_id r) f) d))"

record refund_reply =
  rp_id :: id
  rp_gatewayRef :: "string option"
  rp_status :: refund_status

definition refund :: "env \<Rightarrow> nat list \<Rightarrow> gateway \<Rightarrow> auth_user \<Rightarrow> id \<Rightarrow> id \<Rightarrow> refund_input \<Rightarrow> db \<Rightarrow> (refund_reply \<times> db) result" where
  "refund e draws gw user outletId orderId input d =
    ebind (assertOutlet user outletId) (\<lambda>_.
    ebind (require (whole_paise (ri_amount input)) (BadRequest [Txt ''Refund amount must be positive whole paise''])) (\<lambda>_.
    ebind (refund_tx e draws gw user outletId orderId input d) (\<lambda>(r, isNew, orderRef, d1).
      let (r2, d2) = (if isNew \<and> rf_status r = RefundPending then send_refund gw input orderRef r d1 else (r, d1))
      in Inr (\<lparr> rp_id = rf_id r2, rp_gatewayRef = rf_gatewayRef r2, rp_status = rf_status r2 \<rparr>, d2))))"

section \<open>What a refund writes\<close>

lemma toPaise_numeric: "0 \<le> x \<Longrightarrow> toPaise (numeric_col 2 x) = toPaise x"
proof -
  assume "0 \<le> x"
  then have "round_away (x * 10 ^ 2) = toPaise x" by (simp add: round_away_def toPaise_def js_round_def)
  then show ?thesis by (simp add: numeric_col_def)
qed

lemma toPaise_add: "paise_exact a \<Longrightarrow> toPaise (a + b) = toPaise a + toPaise b"
proof -
  assume "paise_exact a"
  then have "a * 100 = of_int (toPaise a)" by (simp add: paise_exact_toPaise)
  then show ?thesis unfolding toPaise_def distrib_right by (metis add.commute js_round_add_of_int js_round_of_int)
qed

definition counts :: "id \<Rightarrow> id \<Rightarrow> id \<Rightarrow> refund_row \<Rightarrow> bool" where
  "counts t u i r \<longleftrightarrow> rf_tenantId r = t \<and> rf_outletId r = u \<and> rf_orderId r = i \<and> rf_status r \<noteq> RefundFailed"

lemma reserved_of_counts: "reserved_of t u i d = (\<Sum>r\<leftarrow>filter (counts t u i) (refunds d). rf_amount r)"
  by (simp add: reserved_of_def counts_def [abs_def])

text \<open>Refund rows are drawn from the id source, and their amounts are whole paise and not negative.\<close>

definition refunds_ok :: "(nat \<Rightarrow> id) \<Rightarrow> db \<Rightarrow> bool" where
  "refunds_ok src d \<longleftrightarrow> inj src \<and> distinct (map rf_id (refunds d)) \<and> rf_id ` set (refunds d) \<subseteq> src ` {..<seq d}
     \<and> (\<forall>r \<in> set (refunds d). paise_exact (rf_amount r) \<and> 0 \<le> rf_amount r)"

lemma refunds_ok_fresh: "refunds_ok src d \<Longrightarrow> src (seq d) \<notin> rf_id ` set (refunds d)"
  by (auto simp: refunds_ok_def dest!: inj_onD subsetD)

lemma credit_frame:
  assumes "issueStoreCreditTx e draws t u a oid uid n ph nm d = Inr (code, d')"
  shows "refunds d' = refunds d" "orders d' = orders d" "payments d' = payments d" "seq d \<le> seq d'"
  using assms by (auto simp: issueStoreCreditTx_def fresh_def Let_def create_card_def guard_simps)

lemma drawer_refund_frame [simp]:
  "refunds (drawer_movement e t u ty a c n oid d) = refunds d" "orders (drawer_movement e t u ty a c n oid d) = orders d"
  "payments (drawer_movement e t u ty a c n oid d) = payments d"
  by (auto simp: drawer_movement_def fresh_def split: option.split)

lemma audit_refund_frame [simp]:
  "refunds (audit t u a en i d) = refunds d" "orders (audit t u a en i d) = orders d" "payments (audit t u a en i d) = payments d"
  by (simp_all add: audit_def)

lemma refund_money_effect:
  assumes run: "refund_money e draws user u order input r d = Inr (r1, d1)" and last: "refunds d = rs @ [r]" "rf_id r \<notin> rf_id ` set rs"
  shows "refunds d1 = rs @ [r1] \<and> orders d1 = orders d \<and> payments d1 = payments d \<and> seq d \<le> seq d1
    \<and> (\<exists>ref. r1 = r\<lparr>rf_gatewayRef := ref\<rparr>)"
proof (cases "ri_mode input = GIFT_CARD")
  case True
  from run obtain code d2 where c: "issueStoreCreditTx e draws (u_tenantId user) u (ri_amount input) (Some (o_id order)) (Some (u_id user))
        (Some (or_else (ri_reason input) (''Refund for '' @ or_else (o_billNumber order) (o_id order))))
        (o_customerPhone order) (o_customerName order) d = Inr (code, d2)"
    and r1: "r1 = r\<lparr>rf_gatewayRef := Some code\<rparr>" "d1 = refunds_update (set_row rf_id (rf_id r) (\<lambda>x. x\<lparr>rf_gatewayRef := Some code\<rparr>)) d2"
    using True by (auto simp: refund_money_def guard_simps)
  have "refunds d1 = rs @ [r1]"
    using credit_frame(1) [OF c] last by (simp add: r1 set_row_append set_row_absent) (simp add: set_row_def)
  then show ?thesis using credit_frame [OF c] r1 by auto
next
  case False
  then have r1: "r1 = r" using run by (auto simp: refund_money_def)
  then have "\<exists>ref. r1 = r\<lparr>rf_gatewayRef := ref\<rparr>" by (intro exI [of _ "rf_gatewayRef r"]) simp
  then show ?thesis using run last False r1 by (auto simp: refund_money_def)
qed

lemma reserve_refund_effect:
  assumes run: "reserve_refund e draws gw user u order input d = Inr (r, new, oref, d1)" and ok: "refunds_ok src d" and e: "e_cuid e = src"
  shows "refunds d1 = refunds d @ [r] \<and> orders d1 = orders d \<and> payments d1 = payments d \<and> seq d < seq d1 \<and> new
    \<and> rf_id r = src (seq d) \<and> rf_tenantId r = u_tenantId user \<and> rf_outletId r = u \<and> rf_orderId r = o_id order
    \<and> rf_amount r = numeric_col 2 (ri_amount input) \<and> rf_mode r = ri_mode input \<and> rf_reason r = ri_reason input
    \<and> rf_requestKey r = ri_requestKey input \<and> rf_status r \<noteq> RefundFailed
    \<and> toPaise (reserved_of (u_tenantId user) u (o_id order) d) + toPaise (ri_amount input) \<le> refund_limit order d"
proof -
  let ?r = "\<lparr> rf_id = src (seq d), rf_tenantId = u_tenantId user, rf_outletId = u, rf_orderId = o_id order, rf_amount = numeric_col 2 (ri_amount input),
      rf_mode = ri_mode input, rf_reason = ri_reason input, rf_gatewayRef = None,
      rf_status = initial_status gw input (refund_source (u_tenantId user) u (o_id order) input d),
      rf_requestKey = ri_requestKey input, rf_gatewayPaymentId = refund_source (u_tenantId user) u (o_id order) input d \<rparr>"
  from run obtain d2 d3 where lim: "toPaise (reserved_of (u_tenantId user) u (o_id order) d) + toPaise (ri_amount input) \<le> refund_limit order d"
    and c: "create_refund ?r (d\<lparr>seq := seq d + 1\<rparr>) = Inr d2" and m: "refund_money e draws user u order input ?r d2 = Inr (r, d3)"
    and d1: "d1 = audit (u_tenantId user) (Some (u_id user)) ''REFUND_RESERVED'' ''refund'' (src (seq d)) d3" "new"
    unfolding reserve_refund_def fresh_def Let_def e prod.case guard_simps by (auto simp: case_prod_beta not_less)
  have d2: "d2 = refunds_update (\<lambda>rs. rs @ [?r]) (d\<lparr>seq := seq d + 1\<rparr>)" using c by (auto simp: create_refund_def guard_simps)
  have "refunds d3 = refunds d @ [r] \<and> orders d3 = orders d2 \<and> payments d3 = payments d2 \<and> seq d2 \<le> seq d3 \<and> (\<exists>ref. r = ?r\<lparr>rf_gatewayRef := ref\<rparr>)"
    by (rule refund_money_effect [OF m]) (use refunds_ok_fresh [OF ok] in \<open>simp_all add: d2\<close>)
  moreover have "initial_status gw input x \<noteq> RefundFailed" for x by (simp add: initial_status_def)
  ultimately show ?thesis using lim d1 by (auto simp: d2)
qed

text \<open>Sending a new refund to the gateway changes its status and reference only.\<close>

lemma send_refund_effect:
  assumes "send_refund gw input oref r d = (r2, d2)" and "refunds d = rs @ [r]" and "rf_id r \<notin> rf_id ` set rs"
  shows "refunds d2 = rs @ [r2] \<and> orders d2 = orders d \<and> payments d2 = payments d \<and> seq d2 = seq d
    \<and> (\<exists>ref st. r2 = r\<lparr>rf_gatewayRef := ref, rf_status := st\<rparr>)"
proof -
  have f: "set_row rf_id (rf_id r) f (rs @ [r]) = rs @ [f r]" for f
    using assms(3) by (simp add: set_row_append set_row_absent) (simp add: set_row_def)
  have "\<exists>ref st. r\<lparr>rf_status := RefundUnknown\<rparr> = r\<lparr>rf_gatewayRef := ref, rf_status := st\<rparr>"
    by (intro exI [of _ "rf_gatewayRef r"] exI [of _ RefundUnknown]) simp
  then show ?thesis using assms(1,2) unfolding send_refund_def Let_def by (auto simp: f split: option.splits)
qed

section \<open>Refunds stay within what was paid\<close>

lemma refund_effect:
  assumes run: "refund e draws gw user u i input d = Inr (reply, d')" and ok: "refunds_ok src d" and e: "e_cuid e = src"
  obtains (again) order r where "order \<in> set (orders d)" "o_id order = i" "o_status order = SETTLED" "d' = d" "r \<in> set (refunds d)"
      "truthy (ri_requestKey input)" "refund_by_key (u_tenantId user) u i (the (ri_requestKey input)) d = Some r"
      "reply = \<lparr> rp_id = rf_id r, rp_gatewayRef = rf_gatewayRef r, rp_status = rf_status r \<rparr>"
    | (new) order r where "order \<in> set (orders d)" "o_id order = i" "o_tenantId order = u_tenantId user" "o_outletId order = u" "o_status order = SETTLED"
      "0 < ri_amount input" "orders d' = orders d" "payments d' = payments d" "seq d < seq d'"
      "refunds d' = refunds d @ [r]" "rf_id r = src (seq d)" "rf_tenantId r = u_tenantId user" "rf_outletId r = u" "rf_orderId r = i"
      "rf_amount r = numeric_col 2 (ri_amount input)" "rf_mode r = ri_mode input" "rf_reason r = ri_reason input" "rf_requestKey r = ri_requestKey input"
      "toPaise (reserved_of (u_tenantId user) u i d) + toPaise (ri_amount input) \<le> refund_limit order d"
      "truthy (ri_requestKey input) \<Longrightarrow> refund_by_key (u_tenantId user) u i (the (ri_requestKey input)) d = None"
      "List.find (\<lambda>r. o_id r = i \<and> o_tenantId r = u_tenantId user \<and> o_outletId r = u) (orders d) = Some order" "u \<in> set (u_outletIds user)"
      "whole_paise (ri_amount input)"
      "reply = \<lparr> rp_id = rf_id r, rp_gatewayRef = rf_gatewayRef r, rp_status = rf_status r \<rparr>"
proof -
  from run obtain r new oref d1 r2 where pos: "0 < ri_amount input" "u \<in> set (u_outletIds user)" "whole_paise (ri_amount input)"
    and tx: "refund_tx e draws gw user u i input d = Inr (r, new, oref, d1)"
    and snd: "(if new \<and> rf_status r = RefundPending then send_refund gw input oref r d1 else (r, d1)) = (r2, d')"
    and reply: "reply = \<lparr> rp_id = rf_id r2, rp_gatewayRef = rf_gatewayRef r2, rp_status = rf_status r2 \<rparr>"
    unfolding refund_def guard_simps by (auto simp: case_prod_beta whole_paise_def Let_def prod_eq_iff)
  from tx obtain order where o: "List.find (\<lambda>r. o_id r = i \<and> o_tenantId r = u_tenantId user \<and> o_outletId r = u) (orders d) = Some order"
    and st: "o_status order = SETTLED"
    and br: "(case (if truthy (ri_requestKey input) then refund_by_key (u_tenantId user) u i (the (ri_requestKey input)) d else None) of
        Some existing \<Rightarrow>
          ebind (require (\<not> (toPaise (rf_amount existing) \<noteq> toPaise (ri_amount input) \<or> rf_mode existing \<noteq> ri_mode input \<or> rf_reason existing \<noteq> ri_reason input))
                   (BadRequest [Txt ''Refund request key was already used for different details''])) (\<lambda>_.
            Inr (existing, False, or_else (o_billNumber order) (o_id order), d))
      | None \<Rightarrow> reserve_refund e draws gw user u order input d) = Inr (r, new, oref, d1)"
    unfolding refund_tx_def guard_simps by blast
  note od = find_SomeD [OF o]
  show thesis
  proof (cases "if truthy (ri_requestKey input) then refund_by_key (u_tenantId user) u i (the (ri_requestKey input)) d else None")
    case (Some x)
    then have k: "truthy (ri_requestKey input)" "refund_by_key (u_tenantId user) u i (the (ri_requestKey input)) d = Some x" by (auto split: if_splits)
    have b: "r = x" "\<not> new" "d1 = d" using br Some by (auto simp: guard_simps)
    then have "r2 = x" "d' = d" using snd by auto
    moreover have "x \<in> set (refunds d)" using k(2) unfolding refund_by_key_def by (drule_tac find_SomeD) simp
    ultimately show thesis using again [of order x] od st k reply by simp
  next
    case None
    then have rs: "reserve_refund e draws gw user u order input d = Inr (r, new, oref, d1)" using br by simp
    note f = reserve_refund_effect [OF rs ok e]
    have fr: "rf_id r \<notin> rf_id ` set (refunds d)" using f refunds_ok_fresh [OF ok] by simp
    have r2: "refunds d' = refunds d @ [r2] \<and> orders d' = orders d \<and> payments d' = payments d \<and> seq d < seq d' \<and> (\<exists>ref st. r2 = r\<lparr>rf_gatewayRef := ref, rf_status := st\<rparr>)"
    proof (cases "new \<and> rf_status r = RefundPending")
      case True
      then show ?thesis using send_refund_effect [of gw input oref r d1 r2 d'] snd f fr by auto
    next
      case False
      then have "r2 = r" "d' = d1" using snd by auto
      moreover have "\<exists>ref st. r = r\<lparr>rf_gatewayRef := ref, rf_status := st\<rparr>" by (intro exI [of _ "rf_gatewayRef r"] exI [of _ "rf_status r"]) simp
      ultimately show ?thesis using f by auto
    qed
    show thesis
      by (rule new [of order r2]) (use o od st pos f r2 None reply in auto)
  qed
qed

definition refunds_within :: "db \<Rightarrow> bool" where
  "refunds_within d \<longleftrightarrow> (\<forall>order \<in> set (orders d). o_status order = SETTLED \<longrightarrow>
     toPaise (reserved_of (o_tenantId order) (o_outletId order) (o_id order) d) \<le> refund_limit order d)"

lemma reserved_append:
  "refunds d' = refunds d @ [r] \<Longrightarrow> reserved_of t u i d' = reserved_of t u i d + (if counts t u i r then rf_amount r else 0)"
  by (simp add: reserved_of_counts)

lemma reserved_exact: "refunds_ok src d \<Longrightarrow> paise_exact (reserved_of t u i d)"
proof -
  assume "refunds_ok src d"
  then have "\<forall>r \<in> set (refunds d). paise_exact (rf_amount r)" by (simp add: refunds_ok_def)
  then have "paise_exact (\<Sum>r\<leftarrow>filter (counts t u i) rs. rf_amount r)" if "set rs \<subseteq> set (refunds d)" for rs
    using that by (induction rs) (auto intro: decimals_add)
  then show ?thesis by (simp add: reserved_of_counts)
qed

text \<open>C12. Refunds never exceed what was paid: if for every settled order the refunds that are processed, pending or of
  unknown outcome stay within the smaller of the bill and its payments, they still do after any refund request, whatever the
  payment gateway answers; the request changes neither orders nor payments.\<close>

theorem refund_within_paid:
  assumes run: "refund e draws gw user u i input d = Inr (reply, d')" and ok: "refunds_ok src d" and e: "e_cuid e = src"
    and w: "refunds_within d" and dist: "distinct (map o_id (orders d))"
  shows "refunds_within d' \<and> refunds_ok src d' \<and> orders d' = orders d \<and> payments d' = payments d"
  using run ok e
proof (cases rule: refund_effect)
  case (again order r)
  then show ?thesis using w ok by simp
next
  case (new order r)
  have amt: "toPaise (rf_amount r) = toPaise (ri_amount input)" "paise_exact (rf_amount r)" "0 \<le> rf_amount r"
    using new by (simp_all add: toPaise_numeric numeric_col_nonneg)
  have "toPaise (reserved_of (o_tenantId x) (o_outletId x) (o_id x) d') \<le> refund_limit x d'" if "x \<in> set (orders d)" "o_status x = SETTLED" for x
  proof (cases "o_id x = i")
    case True
    then have x: "x = order" using row_by_distinct [OF dist that(1)] row_by_distinct [OF dist new(1)] new by simp
    have "toPaise (reserved_of (u_tenantId user) u i d') \<le> toPaise (reserved_of (u_tenantId user) u i d) + toPaise (rf_amount r)"
      using toPaise_add [OF reserved_exact [OF ok]] reserved_append [OF new(10)] toPaise_nonneg [OF amt(3)] by simp
    then show ?thesis using new amt x by (simp add: refund_limit_def paid_of_def)
  next
    case False
    then have "\<not> counts (o_tenantId x) (o_outletId x) (o_id x) r" using new by (simp add: counts_def)
    then show ?thesis using w that new reserved_append [OF new(10)] by (simp add: refunds_within_def refund_limit_def paid_of_def)
  qed
  moreover have "refunds_ok src d'"
    using ok new amt refunds_ok_fresh [OF ok] by (auto simp: refunds_ok_def dest!: subsetD)
  ultimately show ?thesis using new by (simp add: refunds_within_def)
qed

text \<open>C28. Retrying a refund with its request key is safe: after a request that succeeded, the same request again, at any later
  time and with any gateway, answers with the same refund and changes nothing, so the gateway is not called again.\<close>

theorem refund_retry:
  assumes run: "refund e draws gw user u i input d = Inr (reply, d')" and ok: "refunds_ok src d" and e: "e_cuid e = src"
    and key: "truthy (ri_requestKey input)"
  shows "refund e' draws' gw' user u i input d' = Inr (reply, d')"
  using run ok e
proof (cases rule: refund_effect)
  case (again order r)
  have "refund e draws gw user u i input d = Inr (reply, d)" using run again by simp
  then show ?thesis using again key unfolding refund_def refund_tx_def guard_simps
    by (auto simp: case_prod_beta guard_simps)
next
  case (new order r)
  have "List.find (\<lambda>x. rf_tenantId x = u_tenantId user \<and> rf_outletId x = u \<and> rf_orderId x = i \<and> rf_requestKey x = Some (the (ri_requestKey input))) (refunds d) = None"
    using new(20) [OF key] by (simp add: refund_by_key_def)
  moreover have k: "ri_requestKey input = Some (the (ri_requestKey input))" using key by (cases "ri_requestKey input") auto
  ultimately have "refund_by_key (u_tenantId user) u i (the (ri_requestKey input)) d' = Some r"
    using new by (simp add: refund_by_key_def find_append_None)
  moreover have "toPaise (rf_amount r) = toPaise (ri_amount input)" using new by (simp add: toPaise_numeric)
  ultimately have "refund_tx e' draws' gw' user u i input d' = Inr (r, False, or_else (o_billNumber order) (o_id order), d')"
    using new key by (simp add: refund_tx_def)
  then show ?thesis using new by (simp add: refund_def assertOutlet_def)
qed

section \<open>A concrete refund\<close>

definition refund_order0 :: order_row where
  "refund_order0 = (blank_order ''r'' ''t'' ''k'' TAKEAWAY)\<lparr> o_status := SETTLED, o_total := 315, o_billNumber := Some ''B-7'' \<rparr>"

definition sold0 :: db where
  "sold0 = db0\<lparr> orders := [refund_order0], payments := [\<lparr> p_orderId = ''r'', p_mode = CASH, p_amount = 315 \<rparr>] \<rparr>"

definition refund0 :: refund_input where
  "refund0 = \<lparr> ri_amount = 50, ri_mode = CASH, ri_reason = None, ri_requestKey = Some ''k1'' \<rparr>"

definition gateway0 :: gateway where
  "gateway0 = \<lparr> gw_live = False, gw_refund = (\<lambda>_ _ _ _ _. None) \<rparr>"

lemma refund_sold0: "\<exists>reply d'. refund env0 [] gateway0 user0 ''k'' ''r'' refund0 sold0 = Inr (reply, d')"
proof -
  have "whole_paise 50" using js_round_of_int [of 5000] by (simp add: whole_paise_def)
  moreover have "refund_limit refund_order0 sold0 = 31500" "reserved_of ''t'' ''k'' ''r'' sold0 = 0"
    by (simp_all add: refund_limit_def refund_order0_def paid_of_def sold0_def blank_order_def reserved_of_def db0_def)
  moreover have "List.find (\<lambda>r. o_id r = ''r'' \<and> o_tenantId r = ''t'' \<and> o_outletId r = ''k'') (orders sold0) = Some refund_order0"
    "o_status refund_order0 = SETTLED" "o_id refund_order0 = ''r''" "refunds sold0 = []"
    by (simp_all add: sold0_def refund_order0_def blank_order_def db0_def)
  ultimately show ?thesis
    by (simp add: refund_def refund_tx_def reserve_refund_def create_refund_def refund_money_def refund0_def user0_def assertOutlet_def
        refund_by_key_def fresh_def initial_status_def Let_def refund_source_def)
qed

lemma sold0_ok: "refunds_ok (e_cuid env0) sold0" "refunds_within sold0" "distinct (map o_id (orders sold0))"
  using inj_unary [of "CHR ''x''"]
  by (simp_all add: refunds_ok_def refunds_within_def sold0_def db0_def env0_def refund_limit_def paid_of_def reserved_of_def refund_order0_def blank_order_def)

theorem refund_within_paid_witness:
  "\<exists>reply d'. refund env0 [] gateway0 user0 ''k'' ''r'' refund0 sold0 = Inr (reply, d') \<and> refunds_within d'"
proof -
  obtain reply d' where r: "refund env0 [] gateway0 user0 ''k'' ''r'' refund0 sold0 = Inr (reply, d')" using refund_sold0 by blast
  from refund_within_paid [OF r sold0_ok(1) refl sold0_ok(2,3)] r show ?thesis by blast
qed

theorem refund_retry_witness:
  "\<exists>reply d'. refund env0 [] gateway0 user0 ''k'' ''r'' refund0 sold0 = Inr (reply, d')
    \<and> refund env0 [] gateway0 user0 ''k'' ''r'' refund0 d' = Inr (reply, d')"
proof -
  obtain reply d' where r: "refund env0 [] gateway0 user0 ''k'' ''r'' refund0 sold0 = Inr (reply, d')" using refund_sold0 by blast
  have "truthy (ri_requestKey refund0)" by (simp add: refund0_def)
  from refund_retry [OF r sold0_ok(1) refl this] r show ?thesis by blast
qed

end
