(* ===== verification/Inventory.thy ===== *)
theory Inventory
  imports Punch
begin

text \<open>
  The stock service (\<open>apps/api/src/inventory/inventory.service.ts\<close>): raw materials and vendors, receipts with their
  weighted-average cost, wastage, recipes, prep recipes and batch production, and the costing and consumption
  reports. Every change of a balance writes an entry of the stock ledger; the last sections show that the ledger
  explains every balance, what a receipt does to the cost, what a batch consumes, and which interleaving loses a
  receipt.
\<close>

section \<open>Inputs and replies\<close>

record create_material_input =
  mi_name :: string
  mi_unit :: material_unit
  mi_stockQty :: "num option"
  mi_reorderLevel :: "num option"
  mi_costPerUnit :: "num option"

record update_material_input =
  mu_name :: "string option"
  mu_unit :: "material_unit option"
  mu_reorderLevel :: "num option"

text \<open>\<open>ReceiveStockInput\<close> with the reference a goods-receipt note adds.\<close>

record receipt_input =
  re_quantity :: num
  re_unitCost :: num
  re_vendorId :: "id option"
  re_refType :: "string option"
  re_refId :: "id option"
  re_reason :: "string option"

record wastage_input =
  wa_quantity :: num
  wa_reason :: "string option"

record vendor_input =
  vi_name :: string
  vi_phone :: "string option"

record receipt_reply =
  rr_id :: id
  rr_stockQty :: num
  rr_costPerUnit :: num

record batch_reply =
  ba_id :: id
  ba_stockQty :: num
  ba_costPerUnit :: num
  ba_batchCost :: num

record material_dto =
  md_id :: id
  md_name :: string
  md_unit :: material_unit
  md_stockQty :: num
  md_reorderLevel :: num
  md_costPerUnit :: num
  md_lowStock :: bool
  md_isSemiFinished :: bool

record ingredient_dto =
  id_materialId :: id
  id_materialName :: string
  id_unit :: material_unit
  id_quantity :: num
  id_costPerUnit :: num
  id_lineCost :: num
  id_stockQty :: num

record item_recipe_dto =
  ir_itemId :: id
  ir_itemName :: string
  ir_price :: num
  ir_ingredients :: "ingredient_dto list"
  ir_foodCost :: num
  ir_marginPct :: "num option"

record prep_recipe_dto =
  pd_materialId :: id
  pd_materialName :: string
  pd_unit :: material_unit
  pd_stockQty :: num
  pd_isSemiFinished :: bool
  pd_ingredients :: "ingredient_dto list"
  pd_unitCost :: num

record consumption_row =
  cr_rawMaterialId :: id
  cr_name :: string
  cr_unit :: material_unit
  cr_consumedQty :: num
  cr_consumedCost :: num

section \<open>Text\<close>

fun unit_name :: "material_unit \<Rightarrow> string" where
  "unit_name UnitKG = ''KG''"
| "unit_name UnitG = ''G''"
| "unit_name UnitL = ''L''"
| "unit_name UnitML = ''ML''"
| "unit_name UnitPCS = ''PCS''"

text \<open>\<open>String(n)\<close> of a decimal number, up to twenty decimals and without exponents.\<close>

fun decimal_digits :: "nat \<Rightarrow> rat \<Rightarrow> string" where
  "decimal_digits 0 x = []"
| "decimal_digits (Suc k) x = (if x = 0 then [] else char_of (nat \<lfloor>10 * x\<rfloor> + 48) # decimal_digits k (10 * x - of_int \<lfloor>10 * x\<rfloor>))"

definition num_string :: "num \<Rightarrow> string" where
  "num_string x = (if x < 0 then ''-'' else []) @ nat_digits (nat \<lfloor>\<bar>x\<bar>\<rfloor>) @
     (let f = \<bar>x\<bar> - of_int \<lfloor>\<bar>x\<bar>\<rfloor> in if f = 0 then [] else CHR ''.'' # decimal_digits 20 f)"

section \<open>Materials\<close>

definition find_material :: "auth_user \<Rightarrow> id \<Rightarrow> id \<Rightarrow> db \<Rightarrow> raw_material_row result" where
  "find_material user outletId materialId d =
    some_or (List.find (\<lambda>m. rm_id m = materialId \<and> rm_outletId m = outletId \<and> rm_tenantId m = u_tenantId user \<and> rm_deletedAt m = None)
              (rawMaterials d)) (NotFound [Txt ''Material not found''])"

definition requireMaterial :: "auth_user \<Rightarrow> id \<Rightarrow> id \<Rightarrow> db \<Rightarrow> raw_material_row result" where
  "requireMaterial user outletId materialId d =
    ebind (find_material user outletId materialId d) (\<lambda>material.
    ebind (assertOutlet user outletId) (\<lambda>_. Inr material))"

definition lockMaterial :: "auth_user \<Rightarrow> id \<Rightarrow> id \<Rightarrow> db \<Rightarrow> raw_material_row result" where
  "lockMaterial user outletId materialId d = find_material user outletId materialId d"

definition toMaterialDto :: "raw_material_row \<Rightarrow> material_dto" where
  "toMaterialDto m = \<lparr> md_id = rm_id m, md_name = rm_name m, md_unit = rm_unit m, md_stockQty = rm_stockQty m,
     md_reorderLevel = rm_reorderLevel m, md_costPerUnit = rm_costPerUnit m, md_lowStock = (rm_stockQty m \<le> rm_reorderLevel m),
     md_isSemiFinished = rm_isSemiFinished m \<rparr>"

definition listMaterials :: "auth_user \<Rightarrow> id \<Rightarrow> db \<Rightarrow> material_dto list result" where
  "listMaterials user outletId d =
    ebind (assertOutlet user outletId) (\<lambda>_.
      Inr (map toMaterialDto (sort_key rm_name
        (filter (\<lambda>m. rm_tenantId m = u_tenantId user \<and> rm_outletId m = outletId \<and> rm_deletedAt m = None) (rawMaterials d)))))"

definition post_movement :: "stock_movement_row \<Rightarrow> db \<Rightarrow> db" where
  "post_movement m = stockMovements_update (\<lambda>ms. ms @ [m])"

definition createMaterial :: "env \<Rightarrow> auth_user \<Rightarrow> id \<Rightarrow> create_material_input \<Rightarrow> db \<Rightarrow> (id \<times> db) result" where
  "createMaterial e user outletId input d =
    ebind (assertOutlet user outletId) (\<lambda>_.
      case fresh e d of (i, d1) \<Rightarrow>
      let d2 = rawMaterials_update (\<lambda>ms. ms @ [\<lparr> rm_id = i, rm_tenantId = u_tenantId user, rm_outletId = outletId,
                 rm_name = mi_name input, rm_unit = mi_unit input, rm_stockQty = numeric_col 3 (or_else (mi_stockQty input) 0),
                 rm_reorderLevel = numeric_col 3 (or_else (mi_reorderLevel input) 0),
                 rm_costPerUnit = numeric_col 4 (or_else (mi_costPerUnit input) 0), rm_isSemiFinished = False, rm_deletedAt = None \<rparr>]) d1
      in Inr (i, if or_else (mi_stockQty input) 0 > 0
                 then post_movement (stock_movement e (u_tenantId user) outletId i ADJUSTMENT (or_else (mi_stockQty input) 0)
                        (Some (or_else (mi_costPerUnit input) 0)) (Some ''Opening balance'') None None None (Some (u_id user))) d2
                 else d2))"

definition updateMaterial :: "auth_user \<Rightarrow> id \<Rightarrow> id \<Rightarrow> update_material_input \<Rightarrow> db \<Rightarrow> (id \<times> db) result" where
  "updateMaterial user outletId materialId input d =
    ebind (requireMaterial user outletId materialId d) (\<lambda>_.
      Inr (materialId, rawMaterials_update (set_row rm_id materialId (\<lambda>m. m\<lparr> rm_name := or_else (mu_name input) (rm_name m),
             rm_unit := or_else (mu_unit input) (rm_unit m),
             rm_reorderLevel := or_else (map_option (numeric_col 3) (mu_reorderLevel input)) (rm_reorderLevel m) \<rparr>)) d))"

definition deleteMaterial :: "env \<Rightarrow> auth_user \<Rightarrow> id \<Rightarrow> id \<Rightarrow> db \<Rightarrow> (id \<times> db) result" where
  "deleteMaterial e user outletId materialId d =
    ebind (requireMaterial user outletId materialId d) (\<lambda>_.
      let usedBy = length (filter (\<lambda>r. ri_rawMaterialId r = materialId) (recipes d))
      in ebind (require (usedBy = 0)
           (BadRequest [Txt ''Material is used in '', Num (of_nat usedBy), Txt '' recipe(s); remove it there first''])) (\<lambda>_.
         Inr (materialId, rawMaterials_update (set_row rm_id materialId (\<lambda>m. m\<lparr>rm_deletedAt := Some (e_now e)\<rparr>)) d)))"

section \<open>Receipts and wastage\<close>

text \<open>The weighted average of the stock's value and the value received.\<close>

definition blend :: "num \<Rightarrow> num \<Rightarrow> num \<Rightarrow> num \<Rightarrow> num \<Rightarrow> num" where
  "blend oldQty oldCost quantity value otherwise =
    (let newQty = oldQty + quantity in if newQty > 0 then (oldQty * oldCost + value) / newQty else otherwise)"

definition round4 :: "num \<Rightarrow> num" where
  "round4 n = of_int (js_round (n * 10000)) / 10000"

definition set_stock :: "id \<Rightarrow> num \<Rightarrow> num \<Rightarrow> db \<Rightarrow> db" where
  "set_stock materialId qty cost = rawMaterials_update
     (set_row rm_id materialId (\<lambda>m. m\<lparr>rm_stockQty := numeric_col 3 qty, rm_costPerUnit := numeric_col 4 cost\<rparr>))"

definition take_stock :: "id \<Rightarrow> num \<Rightarrow> db \<Rightarrow> db" where
  "take_stock materialId qty = rawMaterials_update
     (set_row rm_id materialId (\<lambda>m. m\<lparr>rm_stockQty := numeric_col 3 (rm_stockQty m - qty)\<rparr>))"

definition applyReceiptTx :: "env \<Rightarrow> auth_user \<Rightarrow> id \<Rightarrow> id \<Rightarrow> receipt_input \<Rightarrow> db \<Rightarrow> (receipt_reply \<times> db) result" where
  "applyReceiptTx e user outletId materialId input d =
    ebind (lockMaterial user outletId materialId d) (\<lambda>material.
      let oldQty = rm_stockQty material;
          oldCost = rm_costPerUnit material;
          newQty = oldQty + re_quantity input;
          blendedCost = blend oldQty oldCost (re_quantity input) (re_quantity input * re_unitCost input) (re_unitCost input)
      in Inr (\<lparr> rr_id = materialId, rr_stockQty = newQty, rr_costPerUnit = round4 blendedCost \<rparr>,
              post_movement (stock_movement e (u_tenantId user) outletId materialId RECEIPT (re_quantity input)
                  (Some (re_unitCost input)) (re_reason input) (re_vendorId input) (re_refType input) (re_refId input) (Some (u_id user)))
                (set_stock materialId newQty blendedCost d)))"

definition vendor_ok :: "auth_user \<Rightarrow> id \<Rightarrow> id option \<Rightarrow> db \<Rightarrow> bool" where
  "vendor_ok user outletId vendorId d \<longleftrightarrow>
    \<not> truthy vendorId \<or> List.find (\<lambda>v. Some (ve_id v) = vendorId \<and> ve_tenantId v = u_tenantId user \<and> ve_outletId v = outletId
        \<and> ve_deletedAt v = None) (vendors d) \<noteq> None"

definition receiveStock :: "env \<Rightarrow> auth_user \<Rightarrow> id \<Rightarrow> id \<Rightarrow> receipt_input \<Rightarrow> db \<Rightarrow> (receipt_reply \<times> db) result" where
  "receiveStock e user outletId materialId input d =
    ebind (assertOutlet user outletId) (\<lambda>_.
    ebind (require (vendor_ok user outletId (re_vendorId input) d) (BadRequest [Txt ''Vendor not found in this outlet''])) (\<lambda>_.
      applyReceiptTx e user outletId materialId input d))"

definition recordWastage :: "env \<Rightarrow> auth_user \<Rightarrow> id \<Rightarrow> id \<Rightarrow> wastage_input \<Rightarrow> db \<Rightarrow> ((id \<times> num) \<times> db) result" where
  "recordWastage e user outletId materialId input d =
    ebind (assertOutlet user outletId) (\<lambda>_.
    ebind (lockMaterial user outletId materialId d) (\<lambda>material.
      Inr ((materialId, rm_stockQty material - wa_quantity input),
           post_movement (stock_movement e (u_tenantId user) outletId materialId WASTAGE (- wa_quantity input)
               (Some (rm_costPerUnit material)) (wa_reason input) None None None (Some (u_id user)))
             (take_stock materialId (wa_quantity input) d))))"

section \<open>Vendors\<close>

definition listVendors :: "auth_user \<Rightarrow> id \<Rightarrow> db \<Rightarrow> (id \<times> string \<times> string option) list result" where
  "listVendors user outletId d =
    ebind (assertOutlet user outletId) (\<lambda>_.
      Inr (map (\<lambda>v. (ve_id v, ve_name v, ve_phone v)) (sort_key ve_name
        (filter (\<lambda>v. ve_tenantId v = u_tenantId user \<and> ve_outletId v = outletId \<and> ve_deletedAt v = None) (vendors d)))))"

definition createVendor :: "env \<Rightarrow> auth_user \<Rightarrow> id \<Rightarrow> vendor_input \<Rightarrow> db \<Rightarrow> (id \<times> db) result" where
  "createVendor e user outletId input d =
    ebind (assertOutlet user outletId) (\<lambda>_.
      case fresh e d of (i, d1) \<Rightarrow>
      Inr (i, vendors_update (\<lambda>vs. vs @ [\<lparr> ve_id = i, ve_tenantId = u_tenantId user, ve_outletId = outletId,
                 ve_name = vi_name input, ve_phone = vi_phone input, ve_deletedAt = None, ve_email = None,
                 ve_gstin = None, ve_address = None, ve_paymentTermsDays = None \<rparr>]) d1))"

definition deleteVendor :: "env \<Rightarrow> auth_user \<Rightarrow> id \<Rightarrow> id \<Rightarrow> db \<Rightarrow> (id \<times> db) result" where
  "deleteVendor e user outletId vendorId d =
    ebind (some_or (List.find (\<lambda>v. ve_id v = vendorId \<and> ve_outletId v = outletId \<and> ve_tenantId v = u_tenantId user
              \<and> ve_deletedAt v = None) (vendors d)) (NotFound [Txt ''Vendor not found''])) (\<lambda>_.
      Inr (vendorId, vendors_update (set_row ve_id vendorId (\<lambda>v. v\<lparr>ve_deletedAt := Some (e_now e)\<rparr>)) d))"

section \<open>Recipes\<close>

definition round_cents :: "num \<Rightarrow> num" where
  "round_cents n = of_int (js_round (n * 100)) / 100"

definition ingredient_line :: "num \<Rightarrow> raw_material_row \<Rightarrow> ingredient_dto" where
  "ingredient_line quantity m = \<lparr> id_materialId = rm_id m, id_materialName = rm_name m, id_unit = rm_unit m, id_quantity = quantity,
     id_costPerUnit = rm_costPerUnit m, id_lineCost = round_cents (quantity * rm_costPerUnit m), id_stockQty = rm_stockQty m \<rparr>"

definition material_row :: "id \<Rightarrow> db \<Rightarrow> raw_material_row result" where
  "material_row i d = some_or (row_by rm_id i (rawMaterials d)) RowMissing"

definition margin_pct :: "num \<Rightarrow> num \<Rightarrow> num option" where
  "margin_pct price foodCost = (if price > 0 then Some (of_int (js_round ((price - foodCost) / price * 1000)) / 10) else None)"

definition getRecipe :: "auth_user \<Rightarrow> id \<Rightarrow> id \<Rightarrow> db \<Rightarrow> item_recipe_dto result" where
  "getRecipe user outletId itemId d =
    ebind (assertOutlet user outletId) (\<lambda>_.
    ebind (some_or (find_item (u_tenantId user) outletId itemId d) (NotFound [Txt ''Item not found''])) (\<lambda>item.
    ebind (emap (\<lambda>r. ebind (material_row (ri_rawMaterialId r) d) (\<lambda>m. Inr (ingredient_line (ri_quantity r) m)))
             (item_recipe itemId d)) (\<lambda>ingredients.
      let foodCost = round_cents (\<Sum>i\<leftarrow>ingredients. id_lineCost i)
      in Inr \<lparr> ir_itemId = it_id item, ir_itemName = it_name item, ir_price = it_price item, ir_ingredients = ingredients,
               ir_foodCost = foodCost, ir_marginPct = margin_pct (it_price item) foodCost \<rparr>)))"

text \<open>How many of the listed materials exist in the outlet.\<close>

definition count_materials :: "id list \<Rightarrow> id \<Rightarrow> db \<Rightarrow> nat" where
  "count_materials ids outletId d =
     length (filter (\<lambda>m. rm_id m \<in> set ids \<and> rm_outletId m = outletId \<and> rm_deletedAt m = None) (rawMaterials d))"

text \<open>The rows of \<open>createMany\<close> are unique by item and material, so a repeated ingredient violates the constraint.\<close>

definition setRecipe :: "auth_user \<Rightarrow> id \<Rightarrow> id \<Rightarrow> (id \<times> num) list \<Rightarrow> db \<Rightarrow> (id \<times> db) result" where
  "setRecipe user outletId itemId ingredients d =
    ebind (assertOutlet user outletId) (\<lambda>_.
    ebind (some_or (find_item (u_tenantId user) outletId itemId d) (NotFound [Txt ''Item not found''])) (\<lambda>_.
      let ids = map fst ingredients
      in ebind (require (ids = [] \<or> count_materials ids outletId d = length (js_set ids))
                  (BadRequest [Txt ''Unknown raw material in recipe''])) (\<lambda>_.
         ebind (require (distinct ids) UniqueViolation) (\<lambda>_.
           Inr (itemId, recipes_update (\<lambda>rs. filter (\<lambda>r. ri_itemId r \<noteq> itemId) rs @
                  map (\<lambda>(m, q). \<lparr> ri_itemId = itemId, ri_rawMaterialId = m, ri_quantity = numeric_col 3 q \<rparr>) ingredients) d)))))"

section \<open>Prep recipes and production\<close>

definition prep_recipe :: "id \<Rightarrow> db \<Rightarrow> prep_row list" where
  "prep_recipe materialId d = filter (\<lambda>r. pi_outputMaterialId r = materialId) (prepRecipes d)"

text \<open>A material with the lines of its prep recipe and the input material of each.\<close>

definition requireMaterialWithPrep ::
  "auth_user \<Rightarrow> id \<Rightarrow> id \<Rightarrow> db \<Rightarrow> (raw_material_row \<times> (raw_material_row \<times> num) list) result" where
  "requireMaterialWithPrep user outletId materialId d =
    ebind (find_material user outletId materialId d) (\<lambda>material.
    ebind (emap (\<lambda>r. ebind (material_row (pi_inputMaterialId r) d) (\<lambda>m. Inr (m, pi_quantity r))) (prep_recipe materialId d)) (\<lambda>lines.
    ebind (assertOutlet user outletId) (\<lambda>_. Inr (material, lines))))"

definition getPrepRecipe :: "auth_user \<Rightarrow> id \<Rightarrow> id \<Rightarrow> db \<Rightarrow> prep_recipe_dto result" where
  "getPrepRecipe user outletId materialId d =
    ebind (requireMaterialWithPrep user outletId materialId d) (\<lambda>(material, lines).
      let ingredients = map (\<lambda>(m, q). ingredient_line q m) lines
      in Inr \<lparr> pd_materialId = rm_id material, pd_materialName = rm_name material, pd_unit = rm_unit material,
               pd_stockQty = rm_stockQty material, pd_isSemiFinished = rm_isSemiFinished material, pd_ingredients = ingredients,
               pd_unitCost = round_cents (\<Sum>i\<leftarrow>ingredients. id_lineCost i) \<rparr>)"

definition setPrepRecipe :: "auth_user \<Rightarrow> id \<Rightarrow> id \<Rightarrow> (id \<times> num) list \<Rightarrow> db \<Rightarrow> ((id \<times> bool) \<times> db) result" where
  "setPrepRecipe user outletId materialId ingredients d =
    ebind (requireMaterial user outletId materialId d) (\<lambda>_.
      let ids = map fst ingredients
      in ebind (require (materialId \<notin> set ids) (BadRequest [Txt ''A material can't be its own ingredient''])) (\<lambda>_.
         ebind (require (distinct ids) (BadRequest [Txt ''Duplicate ingredient''])) (\<lambda>_.
         ebind (require (ids = [] \<or> count_materials ids outletId d = length ids)
                  (BadRequest [Txt ''Unknown input material in prep recipe''])) (\<lambda>_.
           Inr ((materialId, ingredients \<noteq> []),
             rawMaterials_update (set_row rm_id materialId (\<lambda>m. m\<lparr>rm_isSemiFinished := ingredients \<noteq> []\<rparr>))
             (prepRecipes_update (\<lambda>rs. filter (\<lambda>r. pi_outputMaterialId r \<noteq> materialId) rs @
                map (\<lambda>(m, q). \<lparr> pi_outputMaterialId = materialId, pi_inputMaterialId = m, pi_quantity = numeric_col 4 q \<rparr>) ingredients) d))))))"

text \<open>What \<open>produceBatch\<close> computes from what it reads before its transaction.\<close>

record batch_plan =
  bp_material :: raw_material_row
  bp_needs :: "(raw_material_row \<times> num) list"
  bp_batchCost :: num
  bp_newQty :: num
  bp_blendedCost :: num

definition enough :: "raw_material_row \<times> num \<Rightarrow> unit result" where
  "enough = (\<lambda>(m, need). require (\<not> rm_stockQty m < need)
     (BadRequest [Txt (''Not enough '' @ rm_name m @ '': need ''), Num need, Txt ('' '' @ unit_name (rm_unit m) @ '', have ''),
        Num (rm_stockQty m)]))"

definition plan_batch :: "auth_user \<Rightarrow> id \<Rightarrow> id \<Rightarrow> num \<Rightarrow> db \<Rightarrow> batch_plan result" where
  "plan_batch user outletId materialId quantity d =
    ebind (requireMaterialWithPrep user outletId materialId d) (\<lambda>(material, lines).
    ebind (require (rm_isSemiFinished material \<and> lines \<noteq> []) (BadRequest [Txt ''This material has no prep recipe''])) (\<lambda>_.
      let needs = map (\<lambda>(m, q). (m, q * quantity)) lines
      in ebind (emap enough needs) (\<lambda>_.
         let batchCost = (\<Sum>(m, need)\<leftarrow>needs. need * rm_costPerUnit m)
         in Inr \<lparr> bp_material = material, bp_needs = needs, bp_batchCost = batchCost, bp_newQty = rm_stockQty material + quantity,
                  bp_blendedCost = blend (rm_stockQty material) (rm_costPerUnit material) quantity batchCost (rm_costPerUnit material) \<rparr>)))"

definition consume_input :: "env \<Rightarrow> auth_user \<Rightarrow> id \<Rightarrow> id \<Rightarrow> raw_material_row \<times> num \<Rightarrow> db \<Rightarrow> db result" where
  "consume_input e user outletId materialId = (\<lambda>(m, need) d.
    ebind (material_row (rm_id m) d) (\<lambda>_.
      Inr (post_movement (stock_movement e (u_tenantId user) outletId (rm_id m) PRODUCTION_OUT (- need) (Some (rm_costPerUnit m))
               None None (Some ''production'') (Some materialId) (Some (u_id user)))
             (take_stock (rm_id m) need d))))"

definition write_batch :: "env \<Rightarrow> auth_user \<Rightarrow> id \<Rightarrow> id \<Rightarrow> num \<Rightarrow> batch_plan \<Rightarrow> db \<Rightarrow> db result" where
  "write_batch e user outletId materialId quantity plan d =
    ebind (efold (consume_input e user outletId materialId) (bp_needs plan) d) (\<lambda>d1.
    ebind (material_row materialId d1) (\<lambda>_.
      Inr (post_movement (stock_movement e (u_tenantId user) outletId materialId PRODUCTION_IN quantity
               (Some (bp_batchCost plan / quantity))
               (Some (''Produced '' @ num_string quantity @ '' '' @ unit_name (rm_unit (bp_material plan)))) None None None (Some (u_id user)))
             (set_stock materialId (bp_newQty plan) (bp_blendedCost plan) d1))))"

definition produceBatch :: "env \<Rightarrow> auth_user \<Rightarrow> id \<Rightarrow> id \<Rightarrow> num \<Rightarrow> db \<Rightarrow> (batch_reply \<times> db) result" where
  "produceBatch e user outletId materialId quantity d =
    ebind (plan_batch user outletId materialId quantity d) (\<lambda>plan.
    ebind (write_batch e user outletId materialId quantity plan d) (\<lambda>d1.
      Inr (\<lparr> ba_id = materialId, ba_stockQty = bp_newQty plan, ba_costPerUnit = round4 (bp_blendedCost plan),
             ba_batchCost = round_cents (bp_batchCost plan) \<rparr>, d1)))"

section \<open>Reports\<close>

definition blank_consumption :: "raw_material_row \<Rightarrow> consumption_row" where
  "blank_consumption m = \<lparr> cr_rawMaterialId = rm_id m, cr_name = rm_name m, cr_unit = rm_unit m, cr_consumedQty = 0, cr_consumedCost = 0 \<rparr>"

definition add_consumption ::
  "db \<Rightarrow> stock_movement_row \<Rightarrow> (id \<times> consumption_row) list \<Rightarrow> (id \<times> consumption_row) list result" where
  "add_consumption d m agg =
    ebind (material_row (sm_rawMaterialId m) d) (\<lambda>material.
      let row = or_else (map_of agg (sm_rawMaterialId m)) (blank_consumption material);
          qty = \<bar>sm_quantity m\<bar>
      in Inr (js_map_set (sm_rawMaterialId m)
           (row\<lparr> cr_consumedQty := cr_consumedQty row + qty,
                 cr_consumedCost := cr_consumedCost row + qty * or_else (sm_unitCost m) (rm_costPerUnit material) \<rparr>) agg))"

definition consumption :: "env \<Rightarrow> auth_user \<Rightarrow> id \<Rightarrow> int \<Rightarrow> db \<Rightarrow> consumption_row list result" where
  "consumption e user outletId days d =
    ebind (assertOutlet user outletId) (\<lambda>_.
      let since = e_now e - days * 24 * 60 * 60 * 1000;
          movements = filter (\<lambda>m. sm_tenantId m = u_tenantId user \<and> sm_outletId m = outletId \<and> sm_type m = CONSUMPTION
                        \<and> since \<le> sm_createdAt m) (stockMovements d)
      in ebind (efold (add_consumption d) movements []) (\<lambda>agg.
         Inr (sort_key (\<lambda>r. - cr_consumedCost r)
           (map (\<lambda>(_, r). r\<lparr> cr_consumedQty := of_int (js_round (cr_consumedQty r * 1000)) / 1000,
                             cr_consumedCost := round_cents (cr_consumedCost r) \<rparr>) agg))))"


section \<open>The ledger explains the stock\<close>

lemma stock_okD:
  assumes "stock_ok d"
  shows "distinct (map rm_id (rawMaterials d))" and "\<And>m. m \<in> set (rawMaterials d) \<Longrightarrow> decimals 3 (rm_stockQty m)"
    and "ledger_balanced rm_id rm_stockQty sm_rawMaterialId sm_quantity (rawMaterials d) (stockMovements d)"
  using assms by (auto simp: stock_ok_def stock_columns_def ledger_balanced_def)

lemma find_material_row:
  assumes "find_material user outletId i d = Inr r" and "stock_ok d"
  shows "row_by rm_id i (rawMaterials d) = Some r" and "decimals 3 (rm_stockQty r)"
proof -
  from assms(1) have r: "r \<in> set (rawMaterials d)" "rm_id r = i"
    unfolding find_material_def guard_simps by (auto dest: find_SomeD)
  show "row_by rm_id i (rawMaterials d) = Some r"
    using row_by_distinct [OF stock_okD(1) [OF assms(2)] r(1)] r(2) by simp
  show "decimals 3 (rm_stockQty r)" using stock_okD(2) [OF assms(2) r(1)] .
qed

text \<open>Posting a movement against a material that moves by its quantity keeps the books.\<close>

lemma stock_ok_post:
  assumes ok: "stock_ok d" and r: "row_by rm_id i (rawMaterials d) = Some r"
    and f: "\<And>s. rm_id (f s) = rm_id s" "\<And>s. decimals 3 (rm_stockQty (f s))" "rm_stockQty (f r) = rm_stockQty r + sm_quantity m"
    and m: "sm_rawMaterialId m = i"
  shows "stock_ok (post_movement m (rawMaterials_update (set_row rm_id i f) d))"
proof -
  have "stock.balanced (stockMovements_update (\<lambda>ms. ms @ [m]) (rawMaterials_update (set_row rm_id i f) d))"
    using stock_okD(3) [OF ok] r f m by (intro stock.balanced_post)
  moreover have "decimals 3 (rm_stockQty s)" if "s \<in> set (set_row rm_id i f (rawMaterials d))" for s
    using that by (cases rule: set_row_memberE) (simp_all add: f stock_okD(2) [OF ok])
  ultimately show ?thesis using ok by (simp add: stock_ok_def stock_columns_def post_movement_def)
qed

lemma stock_ok_touch:
  assumes "stock_ok d" and f: "\<And>s. rm_id (f s) = rm_id s" "\<And>s. rm_stockQty (f s) = rm_stockQty s"
  shows "stock_ok (rawMaterials_update (set_row rm_id i f) d)"
proof -
  have "stock.balanced (rawMaterials_update (set_row rm_id i f) d)"
    using stock_okD(3) [OF assms(1)] f by (rule stock.balanced_touch)
  moreover have "decimals 3 (rm_stockQty s)" if "s \<in> set (set_row rm_id i f (rawMaterials d))" for s
    using that by (cases rule: set_row_memberE) (simp_all add: f stock_okD(2) [OF assms(1)])
  ultimately show ?thesis using assms(1) by (simp add: stock_ok_def stock_columns_def)
qed

lemma stock_ok_cong:
  assumes "rawMaterials d' = rawMaterials d" "stockMovements d' = stockMovements d" "recipes d' = recipes d"
  shows "stock_ok d' \<longleftrightarrow> stock_ok d"
  using assms by (simp add: stock_ok_def stock_columns_def)

lemma stock_movement_simps [simp]:
  "sm_rawMaterialId (stock_movement e t u i ty q c rs v rt ri cb) = i"
  "sm_quantity (stock_movement e t u i ty q c rs v rt ri cb) = numeric_col 3 q"
  "sm_type (stock_movement e t u i ty q c rs v rt ri cb) = ty"
  "sm_unitCost (stock_movement e t u i ty q c rs v rt ri cb) = map_option (numeric_col 4) c"
  by (simp_all add: stock_movement_def)

lemma set_stock_ok:
  assumes "stock_ok d" and "row_by rm_id i (rawMaterials d) = Some r" and "decimals 3 (rm_stockQty r)" and "decimals 3 q"
    and "sm_rawMaterialId m = i" and "sm_quantity m = numeric_col 3 q" and "n = rm_stockQty r + q"
  shows "stock_ok (post_movement m (set_stock i n cost d))"
  unfolding set_stock_def using assms by (intro stock_ok_post) (simp_all add: numeric_col_exact decimals_add)

lemma take_stock_ok:
  assumes "stock_ok d" and "row_by rm_id i (rawMaterials d) = Some r" and "decimals 3 q"
    and "sm_rawMaterialId m = i" and "sm_quantity m = numeric_col 3 (- q)"
  shows "stock_ok (post_movement m (take_stock i q d))"
proof -
  have "decimals 3 (rm_stockQty r)" using stock_okD(2) [OF assms(1)] row_by_Some [OF assms(2)] by blast
  then have "numeric_col 3 (rm_stockQty r - q) = rm_stockQty r - q" "numeric_col 3 (- q) = - q"
    using assms(3) by (auto intro: numeric_col_exact decimals_diff decimals_minus)
  then show ?thesis unfolding take_stock_def using assms by (intro stock_ok_post) simp_all
qed


text \<open>The columns of the prep recipes: no material is its own ingredient or listed twice.\<close>

definition prep_ok :: "db \<Rightarrow> bool" where
  "prep_ok d \<longleftrightarrow> (\<forall>r \<in> set (prepRecipes d). pi_inputMaterialId r \<noteq> pi_outputMaterialId r)
     \<and> distinct (map (\<lambda>r. (pi_outputMaterialId r, pi_inputMaterialId r)) (prepRecipes d))"

lemma createMaterial_ok:
  assumes "createMaterial e user outletId input d = Inr (i, d')" and ok: "stock_ok d"
    and new: "e_cuid e (seq d) \<notin> rm_id ` set (rawMaterials d)" and "0 \<le> or_else (mi_stockQty input) 0"
  shows "stock_ok d'"
proof -
  let ?q = "or_else (mi_stockQty input) 0"
  from assms(1) obtain r :: raw_material_row and m where r: "rm_id r = e_cuid e (seq d)" "rm_stockQty r = numeric_col 3 ?q"
    and m: "sm_rawMaterialId m = e_cuid e (seq d)" "sm_quantity m = numeric_col 3 ?q"
    and d': "d' = (if ?q > 0 then post_movement m (rawMaterials_update (\<lambda>rs. rs @ [r]) (d\<lparr>seq := seq d + 1\<rparr>))
                   else rawMaterials_update (\<lambda>rs. rs @ [r]) (d\<lparr>seq := seq d + 1\<rparr>))"
    unfolding createMaterial_def guard_simps Let_def fresh_def prod.case sum.inject prod.inject
    by (elim exE conjE) (rule that [rotated 4], erule sym, simp_all)
  have b: "stock.balanced (d\<lparr>seq := seq d + 1\<rparr>)" using ok by (simp add: stock_ok_def)
  have n: "rm_id r \<notin> rm_id ` set (rawMaterials (d\<lparr>seq := seq d + 1\<rparr>))" using new r by simp
  have "stock.balanced d'"
  proof (cases "?q > 0")
    case True
    then show ?thesis using stock.balanced_open [OF b n, of m] m r by (simp add: d' post_movement_def)
  next
    case False
    then have "rm_stockQty r = 0" using assms(4) r by (simp add: numeric_col_exact)
    then show ?thesis using stock.balanced_open_empty [OF b n] False by (simp add: d')
  qed
  moreover have "stock_columns d'" using ok r by (auto simp: d' stock_ok_def stock_columns_def post_movement_def)
  ultimately show ?thesis by (simp add: stock_ok_def)
qed

lemma receipt_effect:
  assumes "applyReceiptTx e user outletId i input d = Inr (reply, d')" and ok: "stock_ok d" and q: "decimals 3 (re_quantity input)"
  obtains r where "row_by rm_id i (rawMaterials d) = Some r" and "decimals 3 (rm_stockQty r)" and "stock_ok d'"
    and "row_by rm_id i (rawMaterials d') = Some (r\<lparr>rm_stockQty := rm_stockQty r + re_quantity input,
        rm_costPerUnit := numeric_col 4 (blend (rm_stockQty r) (rm_costPerUnit r) (re_quantity input)
          (re_quantity input * re_unitCost input) (re_unitCost input))\<rparr>)"
    and "recipes d' = recipes d" "prepRecipes d' = prepRecipes d" "seq d' = seq d"
    and "rm_id ` set (rawMaterials d') = rm_id ` set (rawMaterials d)"
proof -
  from assms(1) obtain r m where r: "find_material user outletId i d = Inr r"
    and m: "sm_rawMaterialId m = i" "sm_quantity m = numeric_col 3 (re_quantity input)"
    and d': "d' = post_movement m (set_stock i (rm_stockQty r + re_quantity input)
        (blend (rm_stockQty r) (rm_costPerUnit r) (re_quantity input) (re_quantity input * re_unitCost input) (re_unitCost input)) d)"
    unfolding applyReceiptTx_def lockMaterial_def guard_simps Let_def sum.inject prod.inject
    by (elim exE conjE) (rule that [rotated 3], erule sym, simp_all)
  note row = find_material_row [OF r ok]
  have "row_by rm_id i (rawMaterials d') = map_option (\<lambda>m. m\<lparr>rm_stockQty := numeric_col 3 (rm_stockQty r + re_quantity input),
      rm_costPerUnit := numeric_col 4 (blend (rm_stockQty r) (rm_costPerUnit r) (re_quantity input)
          (re_quantity input * re_unitCost input) (re_unitCost input))\<rparr>) (row_by rm_id i (rawMaterials d))"
    using stock.lookup_set_row [of _ i i d] by (simp add: d' post_movement_def set_stock_def)
  then show ?thesis
    using that [OF row] set_stock_ok [OF ok row q m] row q
    by (simp add: d' post_movement_def set_stock_def image_key_set_row numeric_col_exact decimals_add)
qed

lemma receive_receipt: "receiveStock e user outletId i input d = Inr x \<Longrightarrow> applyReceiptTx e user outletId i input d = Inr x"
  unfolding receiveStock_def guard_simps by blast

lemma wastage_ok:
  assumes "recordWastage e user outletId i input d = Inr (reply, d')" and ok: "stock_ok d" and q: "decimals 3 (wa_quantity input)"
  shows "stock_ok d' \<and> prepRecipes d' = prepRecipes d \<and> seq d' = seq d \<and> rm_id ` set (rawMaterials d') = rm_id ` set (rawMaterials d)"
proof -
  from assms(1) obtain r m where r: "find_material user outletId i d = Inr r"
    and m: "sm_rawMaterialId m = i" "sm_quantity m = numeric_col 3 (- wa_quantity input)"
    and d': "d' = post_movement m (take_stock i (wa_quantity input) d)"
    unfolding recordWastage_def lockMaterial_def guard_simps sum.inject prod.inject
    by (elim exE conjE) (rule that [rotated 3], erule sym, simp_all)
  show ?thesis using take_stock_ok [OF ok find_material_row(1) [OF r ok] q m]
    by (simp add: d' post_movement_def take_stock_def image_key_set_row)
qed


section \<open>Production\<close>

text \<open>What a batch of one unit needs of an input.\<close>

definition prep_need :: "db \<Rightarrow> id \<Rightarrow> id \<Rightarrow> num" where
  "prep_need d output i = (\<Sum>r\<leftarrow>filter (\<lambda>r. pi_inputMaterialId r = i) (prep_recipe output d). pi_quantity r)"

definition batch_need :: "(raw_material_row \<times> num) list \<Rightarrow> id \<Rightarrow> num" where
  "batch_need needs i = (\<Sum>(m, q)\<leftarrow>filter (\<lambda>(m, q). rm_id m = i) needs. q)"

lemma batch_need_simps [simp]:
  "batch_need [] i = 0" "batch_need ((m, q) # ns) i = (if rm_id m = i then q else 0) + batch_need ns i"
  by (simp_all add: batch_need_def)

lemma consume_input_effect:
  assumes "consume_input e user outletId out (m, q) d = Inr d'" and ok: "stock_ok d" and q: "decimals 3 q"
  shows "stock_ok d'" and "prepRecipes d' = prepRecipes d" and "seq d' = seq d"
    and "rm_id ` set (rawMaterials d') = rm_id ` set (rawMaterials d)"
    and "row_by rm_id i (rawMaterials d')
       = map_option (\<lambda>s. s\<lparr>rm_stockQty := rm_stockQty s - (if rm_id m = i then q else 0)\<rparr>) (row_by rm_id i (rawMaterials d))"
proof -
  from assms(1) obtain r x where r: "row_by rm_id (rm_id m) (rawMaterials d) = Some r"
    and x: "sm_rawMaterialId x = rm_id m" "sm_quantity x = numeric_col 3 (- q)"
    and d': "d' = post_movement x (take_stock (rm_id m) q d)"
    unfolding consume_input_def material_row_def prod.case guard_simps sum.inject
    by (elim exE conjE) (rule that [rotated 3], erule sym, simp_all)
  show "stock_ok d'" unfolding d' by (rule take_stock_ok [OF ok r q x])
  show "prepRecipes d' = prepRecipes d" "seq d' = seq d" "rm_id ` set (rawMaterials d') = rm_id ` set (rawMaterials d)"
    by (simp_all add: d' post_movement_def take_stock_def image_key_set_row)
  have "numeric_col 3 (rm_stockQty r - q) = rm_stockQty r - q"
    using stock_okD(2) [OF ok] row_by_Some [OF r] q by (auto intro: numeric_col_exact decimals_diff)
  then show "row_by rm_id i (rawMaterials d')
       = map_option (\<lambda>s. s\<lparr>rm_stockQty := rm_stockQty s - (if rm_id m = i then q else 0)\<rparr>) (row_by rm_id i (rawMaterials d))"
    using stock.lookup_set_row [of "\<lambda>s. s\<lparr>rm_stockQty := numeric_col 3 (rm_stockQty s - q)\<rparr>" i "rm_id m" d] r
    by (cases "rm_id m = i") (auto simp: d' post_movement_def take_stock_def option.map_ident cong: map_option_cong)
qed

lemma consume_inputs_effect:
  assumes "efold (consume_input e user outletId out) needs d = Inr d'" and "stock_ok d" and "\<And>m q. (m, q) \<in> set needs \<Longrightarrow> decimals 3 q"
  shows "stock_ok d' \<and> prepRecipes d' = prepRecipes d \<and> seq d' = seq d
    \<and> rm_id ` set (rawMaterials d') = rm_id ` set (rawMaterials d)
    \<and> (\<forall>i. row_by rm_id i (rawMaterials d')
         = map_option (\<lambda>s. s\<lparr>rm_stockQty := rm_stockQty s - batch_need needs i\<rparr>) (row_by rm_id i (rawMaterials d)))"
  using assms
proof (induction needs arbitrary: d)
  case Nil
  then show ?case by (auto simp: option.map_ident cong: map_option_cong)
next
  case (Cons p needs)
  obtain m q where p: "p = (m, q)" by (cases p)
  from Cons.prems(1) obtain d1 where 1: "consume_input e user outletId out (m, q) d = Inr d1"
    and 2: "efold (consume_input e user outletId out) needs d1 = Inr d'" by (auto simp: guard_simps p)
  have q: "decimals 3 q" using Cons.prems(3) [of m q] by (simp add: p)
  note s1 = consume_input_effect [OF 1 Cons.prems(2) q]
  have "stock_ok d' \<and> prepRecipes d' = prepRecipes d1 \<and> seq d' = seq d1
    \<and> rm_id ` set (rawMaterials d') = rm_id ` set (rawMaterials d1)
    \<and> (\<forall>i. row_by rm_id i (rawMaterials d')
         = map_option (\<lambda>s. s\<lparr>rm_stockQty := rm_stockQty s - batch_need needs i\<rparr>) (row_by rm_id i (rawMaterials d1)))"
    using Cons.IH [OF 2 s1(1)] Cons.prems(3) by force
  then show ?case using s1(2-) by (simp add: p option.map_comp comp_def diff_diff_eq add.commute)
qed

text \<open>The lines a batch reads are those of the recipe, each with its input's row.\<close>

lemma plan_batch_effect:
  assumes "plan_batch user outletId out quantity d = Inr plan" and ok: "stock_ok d"
  obtains r where "row_by rm_id out (rawMaterials d) = Some r" and "decimals 3 (rm_stockQty r)"
    and "bp_newQty plan = rm_stockQty r + quantity"
    and "\<And>i. batch_need (bp_needs plan) i = prep_need d out i * quantity"
    and "\<And>m q. (m, q) \<in> set (bp_needs plan) \<Longrightarrow> row_by rm_id (rm_id m) (rawMaterials d) = Some m \<and> q \<le> rm_stockQty m
          \<and> (\<exists>x \<in> set (prep_recipe out d). pi_inputMaterialId x = rm_id m \<and> q = pi_quantity x * quantity)"
    and "map (\<lambda>(m, q). (rm_id m, q)) (bp_needs plan) = map (\<lambda>x. (pi_inputMaterialId x, pi_quantity x * quantity)) (prep_recipe out d)"
proof -
  let ?look = "\<lambda>r. ebind (material_row (pi_inputMaterialId r) d) (\<lambda>m. Inr (m, pi_quantity r))"
  from assms(1) obtain x us where x: "requireMaterialWithPrep user outletId out d = Inr x"
    and enough: "emap enough (map (\<lambda>p. (fst p, snd p * quantity)) (snd x)) = Inr us"
    and plan': "bp_needs plan = map (\<lambda>p. (fst p, snd p * quantity)) (snd x)" "bp_newQty plan = rm_stockQty (fst x) + quantity"
    unfolding plan_batch_def guard_simps Let_def case_prod_beta sum.inject
    by (elim exE conjE) (rule that, assumption, assumption, hypsubst, simp, hypsubst, simp)
  from x obtain r lines where r: "find_material user outletId out d = Inr r"
    and lines: "emap ?look (prep_recipe out d) = Inr lines" and xe: "x = (r, lines)"
    unfolding requireMaterialWithPrep_def guard_simps sum.inject by (elim exE conjE) (rule that, assumption+, erule sym)
  note plan = plan' [unfolded xe fst_conv snd_conv] and enough = enough [unfolded xe snd_conv]
  have row: "row_by rm_id (pi_inputMaterialId x) (rawMaterials d) = Some (fst y) \<and> snd y = pi_quantity x" if "?look x = Inr y" for x y
    using that by (auto simp: material_row_def guard_simps)
  have ids: "map (\<lambda>(m, q). (rm_id m, q)) (bp_needs plan) = map (\<lambda>x. (pi_inputMaterialId x, pi_quantity x * quantity)) (prep_recipe out d)"
    unfolding plan map_map by (rule emap_Inr_map [OF lines]) (use row row_by_Some in \<open>fastforce simp: case_prod_beta\<close>)
  have "batch_need (bp_needs plan) i = (\<Sum>p\<leftarrow>filter (\<lambda>p. fst p = i) (map (\<lambda>(m, q). (rm_id m, q)) (bp_needs plan)). snd p)" for i
    by (simp add: batch_need_def filter_map comp_def case_prod_beta')
  then have need: "batch_need (bp_needs plan) i = prep_need d out i * quantity" for i
    unfolding ids prep_need_def by (simp add: filter_map comp_def sum_list_mult_const [symmetric])
  have member: "row_by rm_id (rm_id m) (rawMaterials d) = Some m \<and> q \<le> rm_stockQty m
          \<and> (\<exists>x \<in> set (prep_recipe out d). pi_inputMaterialId x = rm_id m \<and> q = pi_quantity x * quantity)"
    if "(m, q) \<in> set (bp_needs plan)" for m q
  proof -
    from that obtain y where y: "y \<in> set lines" "m = fst y" "q = snd y * quantity" by (auto simp: plan)
    then obtain x where x: "x \<in> set (prep_recipe out d)" "?look x = Inr y" using emap_Inr_preimage [OF lines] by blast
    have "enough (m, q) = Inr ()" using emap_Inr_member [OF enough, of "(m, q)"] that by (simp add: plan)
    then have "q \<le> rm_stockQty m" by (auto simp: enough_def guard_simps)
    then show ?thesis using row [OF x(2)] x(1) y row_by_Some [of rm_id _ "rawMaterials d" m] by (metis (no_types, lifting))
  qed
  show ?thesis by (rule that [OF find_material_row [OF r ok] plan(2) need member ids])
qed


lemma batch_need_member:
  assumes "distinct (map (\<lambda>(m, q). rm_id m) needs)" and "(m, q) \<in> set needs"
  shows "batch_need needs (rm_id m) = q"
proof -
  have none: "batch_need ns i = 0" if "i \<notin> (\<lambda>(m, q). rm_id m) ` set ns" for ns i
    using that by (induction ns) auto
  show ?thesis using assms
  proof (induction needs)
    case (Cons p needs)
    then show ?case using none [of "rm_id m" needs] by (cases p) (force simp: image_iff)
  qed simp
qed

lemma prep_need_self: "prep_ok d \<Longrightarrow> prep_need d out out = 0"
proof -
  assume "prep_ok d"
  then have "filter (\<lambda>r. pi_inputMaterialId r = out) (prep_recipe out d) = []"
    by (auto simp: filter_empty_conv prep_recipe_def prep_ok_def)
  then show ?thesis by (simp add: prep_need_def)
qed

lemma produceBatch_effect:
  assumes run: "produceBatch e user outletId out quantity d = Inr (reply, d')" and ok: "stock_ok d" "prep_ok d"
    and dec: "decimals 3 quantity" "\<And>x. x \<in> set (prep_recipe out d) \<Longrightarrow> decimals 3 (pi_quantity x * quantity)"
  shows "stock_ok d'" and "prepRecipes d' = prepRecipes d" and "seq d' = seq d"
    and "rm_id ` set (rawMaterials d') = rm_id ` set (rawMaterials d)"
    and "map_option rm_stockQty (row_by rm_id i (rawMaterials d'))
      = map_option (\<lambda>m. rm_stockQty m + (if i = out then quantity else - (prep_need d out i * quantity))) (row_by rm_id i (rawMaterials d))"
    and "\<exists>plan. plan_batch user outletId out quantity d = Inr plan"
proof -
  from run obtain plan where plan: "plan_batch user outletId out quantity d = Inr plan"
    and w: "write_batch e user outletId out quantity plan d = Inr d'"
    unfolding produceBatch_def guard_simps sum.inject prod.inject by blast
  then show "\<exists>plan. plan_batch user outletId out quantity d = Inr plan" by blast
  obtain r where r: "row_by rm_id out (rawMaterials d) = Some r" "decimals 3 (rm_stockQty r)"
    and n: "bp_newQty plan = rm_stockQty r + quantity" and need: "\<And>i. batch_need (bp_needs plan) i = prep_need d out i * quantity"
    and mem: "\<And>m q. (m, q) \<in> set (bp_needs plan) \<Longrightarrow> row_by rm_id (rm_id m) (rawMaterials d) = Some m \<and> q \<le> rm_stockQty m
          \<and> (\<exists>x \<in> set (prep_recipe out d). pi_inputMaterialId x = rm_id m \<and> q = pi_quantity x * quantity)"
    and ids: "map (\<lambda>(m, q). (rm_id m, q)) (bp_needs plan) = map (\<lambda>x. (pi_inputMaterialId x, pi_quantity x * quantity)) (prep_recipe out d)"
    by (rule plan_batch_effect [OF plan ok(1)]) (rule that, assumption, assumption, assumption, blast, blast, assumption)
  from w obtain d1 m where l: "efold (consume_input e user outletId out) (bp_needs plan) d = Inr d1"
    and m: "sm_rawMaterialId m = out" "sm_quantity m = numeric_col 3 quantity"
    and d': "d' = post_movement m (set_stock out (bp_newQty plan) (bp_blendedCost plan) d1)"
    unfolding write_batch_def guard_simps sum.inject by (elim exE conjE) (rule that [rotated 3], erule sym, simp_all)
  have "decimals 3 q" if "(m, q) \<in> set (bp_needs plan)" for m q using mem [OF that] dec(2) by blast
  note s1 = consume_inputs_effect [OF l ok(1) this]
  have r1: "row_by rm_id out (rawMaterials d1) = Some r" using s1 r need prep_need_self [OF ok(2)] by simp
  show "stock_ok d'" unfolding d' using s1 by (intro set_stock_ok [OF _ r1 r(2) dec(1) m]) (simp_all add: n)
  show "prepRecipes d' = prepRecipes d" "seq d' = seq d" "rm_id ` set (rawMaterials d') = rm_id ` set (rawMaterials d)"
    using s1 by (simp_all add: d' post_movement_def set_stock_def image_key_set_row)
  show "map_option rm_stockQty (row_by rm_id i (rawMaterials d'))
      = map_option (\<lambda>m. rm_stockQty m + (if i = out then quantity else - (prep_need d out i * quantity))) (row_by rm_id i (rawMaterials d))"
    using stock.lookup_set_row [of _ i out d1] r r1 s1 dec(1) need
    by (cases "i = out") (simp_all add: d' n post_movement_def set_stock_def option.map_comp comp_def numeric_col_exact decimals_add)
qed

section \<open>The invariant of the stock tables\<close>

definition stock_inv :: "(nat \<Rightarrow> id) \<Rightarrow> db \<Rightarrow> bool" where
  "stock_inv src d \<longleftrightarrow> stock_ok d \<and> prep_ok d \<and> rm_id ` set (rawMaterials d) \<subseteq> src ` {..<seq d}"

lemma stock_inv_fresh: "inj src \<Longrightarrow> stock_inv src d \<Longrightarrow> src (seq d) \<notin> rm_id ` set (rawMaterials d)"
  by (auto simp: stock_inv_def dest!: inj_onD subsetD)

lemma stock_inv_keep:
  assumes "stock_inv src d" and "stock_ok d'" and "prepRecipes d' = prepRecipes d" and "seq d \<le> seq d'"
    and "rm_id ` set (rawMaterials d') = rm_id ` set (rawMaterials d)"
  shows "stock_inv src d'"
  using assms unfolding stock_inv_def prep_ok_def by (auto dest!: subsetD)

lemma createMaterial_inv:
  assumes run: "createMaterial e user outletId input d = Inr (i, d')" and inv: "stock_inv (e_cuid e) d" and src: "inj (e_cuid e)"
    and "0 \<le> or_else (mi_stockQty input) 0"
  shows "stock_inv (e_cuid e) d'"
proof -
  have "stock_ok d'" using createMaterial_ok [OF run] stock_inv_fresh [OF src inv] inv assms(4) by (simp add: stock_inv_def)
  moreover from run obtain r :: raw_material_row where "rm_id r = e_cuid e (seq d)"
    "rawMaterials d' = rawMaterials d @ [r]" "seq d' = seq d + 1" "prepRecipes d' = prepRecipes d"
    unfolding createMaterial_def guard_simps Let_def fresh_def prod.case sum.inject prod.inject
    by (elim exE conjE) (rule that, auto simp: post_movement_def)
  ultimately show ?thesis using inv by (auto simp: stock_inv_def prep_ok_def dest!: subsetD)
qed

lemma updateMaterial_inv:
  assumes "updateMaterial user outletId i input d = Inr (j, d')" and "stock_inv src d" shows "stock_inv src d'"
proof -
  from assms(1) obtain f where f: "\<And>s. rm_id (f s) = rm_id s" "\<And>s. rm_stockQty (f s) = rm_stockQty s"
    and d': "d' = rawMaterials_update (set_row rm_id i f) d"
    unfolding updateMaterial_def guard_simps sum.inject prod.inject by (elim exE conjE) (rule that [rotated 2], erule sym, simp_all)
  show ?thesis using assms(2) stock_ok_touch [OF _ f]
    by (intro stock_inv_keep [OF assms(2)]) (simp_all add: d' stock_inv_def image_key_set_row f)
qed

lemma deleteMaterial_inv:
  assumes "deleteMaterial e user outletId i d = Inr (j, d')" and "stock_inv src d" shows "stock_inv src d'"
proof -
  let ?f = "\<lambda>m. m\<lparr>rm_deletedAt := Some (e_now e)\<rparr>"
  from assms(1) have d': "d' = rawMaterials_update (set_row rm_id i ?f) d"
    unfolding deleteMaterial_def guard_simps Let_def sum.inject prod.inject by blast
  show ?thesis using assms(2) stock_ok_touch [of d ?f i]
    by (intro stock_inv_keep [OF assms(2)]) (simp_all add: d' stock_inv_def image_key_set_row)
qed

lemma receipt_inv:
  assumes "applyReceiptTx e user outletId i input d = Inr (reply, d')" and "stock_inv src d" and "decimals 3 (re_quantity input)"
  shows "stock_inv src d'"
proof -
  have "stock_ok d" using assms(2) by (simp add: stock_inv_def)
  from receipt_effect [OF assms(1) this assms(3)] show ?thesis using stock_inv_keep [OF assms(2)] by (metis order_refl)
qed

lemma wastage_inv:
  assumes "recordWastage e user outletId i input d = Inr (reply, d')" and "stock_inv src d" and "decimals 3 (wa_quantity input)"
  shows "stock_inv src d'"
  using stock_inv_keep [OF assms(2)] wastage_ok [OF assms(1) _ assms(3)] assms(2) by (simp add: stock_inv_def)

lemma setRecipe_inv:
  assumes "setRecipe user outletId itemId ings d = Inr (j, d')" and "stock_inv src d" shows "stock_inv src d'"
proof -
  from assms(1) have d': "d' = recipes_update (\<lambda>rs. filter (\<lambda>r. ri_itemId r \<noteq> itemId) rs @
      map (\<lambda>(m, q). \<lparr> ri_itemId = itemId, ri_rawMaterialId = m, ri_quantity = numeric_col 3 q \<rparr>) ings) d"
    unfolding setRecipe_def guard_simps Let_def sum.inject prod.inject by blast
  show ?thesis using assms(2)
    by (intro stock_inv_keep [OF assms(2)]) (auto simp: d' stock_inv_def stock_ok_def stock_columns_def)
qed

lemma setPrepRecipe_inv:
  assumes "setPrepRecipe user outletId i ings d = Inr (j, d')" and inv: "stock_inv src d" shows "stock_inv src d'"
proof -
  let ?f = "\<lambda>m. m\<lparr>rm_isSemiFinished := ings \<noteq> []\<rparr>"
  let ?new = "map (\<lambda>(m, q). \<lparr> pi_outputMaterialId = i, pi_inputMaterialId = m, pi_quantity = numeric_col 4 q \<rparr>) ings"
  from assms(1) have ids: "i \<notin> fst ` set ings" "distinct (map fst ings)"
    and d': "d' = rawMaterials_update (set_row rm_id i ?f) (prepRecipes_update (\<lambda>rs. filter (\<lambda>r. pi_outputMaterialId r \<noteq> i) rs @ ?new) d)"
    unfolding setPrepRecipe_def guard_simps Let_def sum.inject prod.inject by auto
  have "stock_ok (prepRecipes_update (\<lambda>rs. filter (\<lambda>r. pi_outputMaterialId r \<noteq> i) rs @ ?new) d)"
    using inv by (simp add: stock_inv_def stock_ok_def stock_columns_def)
  then have "stock_ok d'" unfolding d' by (rule stock_ok_touch) simp_all
  moreover have "prep_ok d'"
    using inv ids by (auto simp: d' stock_inv_def prep_ok_def distinct_map comp_def case_prod_beta' inj_on_def image_iff)
  ultimately show ?thesis using inv by (simp add: stock_inv_def d' image_key_set_row)
qed

lemma produceBatch_inv:
  assumes "produceBatch e user outletId out quantity d = Inr (reply, d')" and "stock_inv src d"
    and "decimals 3 quantity" "\<And>x. x \<in> set (prep_recipe out d) \<Longrightarrow> decimals 3 (pi_quantity x * quantity)"
  shows "stock_inv src d'"
  using stock_inv_keep [OF assms(2)] produceBatch_effect(1-4) [OF assms(1) _ _ assms(3,4)] assms(2) by (simp add: stock_inv_def)


section \<open>Receipts, batches and a race\<close>

lemma blend_between:
  assumes "0 \<le> a" and "0 < q" shows "min x y \<le> blend a x q (q * y) z" "blend a x q (q * y) z \<le> max x y"
proof -
  have n: "0 < a + q" using assms by simp
  have "a * min x y + q * min x y \<le> a * x + q * y" "a * x + q * y \<le> a * max x y + q * max x y"
    using assms by (intro add_mono mult_left_mono; simp)+
  then show "min x y \<le> blend a x q (q * y) z" "blend a x q (q * y) z \<le> max x y"
    using n by (simp_all add: blend_def Let_def field_simps)
qed

text \<open>A receipt into stock that is not negative adds exactly the received quantity, sets a cost between the old cost and the
  price paid, and keeps the value of the stock: the new quantity at the new cost is worth the old stock plus the goods
  received, up to the rounding of the cost column.\<close>

theorem receipt_cost:
  assumes "receiveStock e user outletId i input d = Inr (reply, d')" and "stock_ok d" and "decimals 3 (re_quantity input)"
    and "row_by rm_id i (rawMaterials d) = Some r" and "0 \<le> rm_stockQty r" and "0 < re_quantity input"
  shows "\<exists>r'. row_by rm_id i (rawMaterials d') = Some r' \<and> rm_stockQty r' = rm_stockQty r + re_quantity input
    \<and> numeric_col 4 (min (rm_costPerUnit r) (re_unitCost input)) \<le> rm_costPerUnit r'
    \<and> rm_costPerUnit r' \<le> numeric_col 4 (max (rm_costPerUnit r) (re_unitCost input))
    \<and> \<bar>rm_stockQty r' * rm_costPerUnit r' - (rm_stockQty r * rm_costPerUnit r + re_quantity input * re_unitCost input)\<bar> \<le> rm_stockQty r' / 20000"
proof -
  define c where "c = blend (rm_stockQty r) (rm_costPerUnit r) (re_quantity input) (re_quantity input * re_unitCost input) (re_unitCost input)"
  obtain r0 where "row_by rm_id i (rawMaterials d) = Some r0" and row: "row_by rm_id i (rawMaterials d') = Some (r0\<lparr>rm_stockQty := rm_stockQty r0 + re_quantity input,
        rm_costPerUnit := numeric_col 4 (blend (rm_stockQty r0) (rm_costPerUnit r0) (re_quantity input)
          (re_quantity input * re_unitCost input) (re_unitCost input))\<rparr>)"
    by (rule receipt_effect [OF receive_receipt [OF assms(1)] assms(2,3)])
  then have "r0 = r" using assms(4) by simp
  note row = row [unfolded this c_def [symmetric]]
  let ?n = "rm_stockQty r + re_quantity input"
  have n: "0 < ?n" using assms(5,6) by simp
  have "?n * c = rm_stockQty r * rm_costPerUnit r + re_quantity input * re_unitCost input"
    using n by (simp add: c_def blend_def Let_def)
  then have "\<bar>?n * numeric_col 4 c - (rm_stockQty r * rm_costPerUnit r + re_quantity input * re_unitCost input)\<bar> = ?n * \<bar>numeric_col 4 c - c\<bar>"
    using n abs_mult [of ?n "numeric_col 4 c - c"] by (simp add: right_diff_distrib)
  also have "\<dots> \<le> ?n * (1 / (2 * 10 ^ 4))" using n numeric_col_error [of 4 c] by (intro mult_left_mono) simp_all
  finally show ?thesis using row blend_between [OF assms(5,6)]
    by (auto simp: c_def intro!: numeric_col_mono)
qed



section \<open>Concrete runs\<close>

definition storekeeper0 :: auth_user where
  "storekeeper0 = \<lparr> u_id = ''u'', u_tenantId = ''t'', u_outletIds = [''k''], u_permissions = [''*''] \<rparr>"

definition receipt0 :: receipt_input where
  "receipt0 = \<lparr> re_quantity = 10, re_unitCost = 10, re_vendorId = None, re_refType = None, re_refId = None, re_reason = None \<rparr>"

text \<open>Dough made of half its weight of flour.\<close>

definition dough0 :: raw_material_row where
  "dough0 = material0\<lparr> rm_id := ''p'', rm_name := ''Dough'', rm_stockQty := 5, rm_isSemiFinished := True \<rparr>"

definition bakery0 :: db where
  "bakery0 = db0\<lparr> rawMaterials := [material0, dough0],
     prepRecipes := [\<lparr> pi_outputMaterialId = ''p'', pi_inputMaterialId = ''m'', pi_quantity = 1/2 \<rparr>],
     stockMovements := [stock_movement env0 ''t'' ''k'' ''m'' RECEIPT 10 None None None None None None,
       stock_movement env0 ''t'' ''k'' ''p'' PRODUCTION_IN 5 None None None None None None] \<rparr>"

text \<open>A material sold below zero: nine units short, valued at a hundred each.\<close>

definition oversold0 :: db where
  "oversold0 = db0\<lparr> rawMaterials := [material0\<lparr>rm_stockQty := - 9, rm_costPerUnit := 100\<rparr>],
     stockMovements := [stock_movement env0 ''t'' ''k'' ''m'' CONSUMPTION (- 9) None None None None None None] \<rparr>"

lemma bakery0_ok: "stock_ok bakery0" "prep_ok bakery0"
  by (simp_all add: stock_ok_def bakery0_def stock_columns_def ledger_balanced_def material0_def dough0_def
      numeric_col_exact entry_sum_def prep_ok_def db0_def)

lemma oversold0_ok: "stock_ok oversold0"
  by (simp add: stock_ok_def oversold0_def stock_columns_def ledger_balanced_def material0_def numeric_col_exact entry_sum_def db0_def)


lemmas inventory_defs = requireMaterialWithPrep_def find_material_def material_row_def prep_recipe_def lockMaterial_def
  plan_batch_def write_batch_def consume_input_def enough_def applyReceiptTx_def receiveStock_def vendor_ok_def post_movement_def
  set_stock_def take_stock_def assertOutlet_def storekeeper0_def receipt0_def bakery0_def dough0_def material0_def Let_def
  set_row_def numeric_col_exact blend_def

lemma receive_bakery0:
  "\<exists>reply d'. receiveStock env0 storekeeper0 ''k'' ''m'' receipt0 bakery0 = Inr (reply, d')"
  by (simp add: inventory_defs)

theorem receipt_cost_witness:
  "\<exists>reply d' r'. receiveStock env0 storekeeper0 ''k'' ''m'' receipt0 bakery0 = Inr (reply, d')
    \<and> row_by rm_id ''m'' (rawMaterials d') = Some r' \<and> rm_stockQty r' = 20
    \<and> numeric_col 4 10 \<le> rm_costPerUnit r' \<and> rm_costPerUnit r' \<le> numeric_col 4 90"
proof -
  obtain reply d' where run: "receiveStock env0 storekeeper0 ''k'' ''m'' receipt0 bakery0 = Inr (reply, d')" using receive_bakery0 by blast
  have "row_by rm_id ''m'' (rawMaterials bakery0) = Some material0" by (simp add: bakery0_def material0_def)
  from receipt_cost [OF run bakery0_ok(1) _ this] run show ?thesis by (auto simp: receipt0_def material0_def)
qed

lemma produce_bakery0: "\<exists>reply d'. produceBatch env0 storekeeper0 ''k'' ''p'' 2 bakery0 = Inr (reply, d')"
  by (simp add: produceBatch_def inventory_defs)


text \<open>The weighted average goes wrong on a material that was sold below zero: nine units short at a cost of 100, a receipt
  of ten at 10 leaves one unit at a cost of minus 800.\<close>

theorem receipt_oversold_cost:
  "stock_ok oversold0 \<and> (\<exists>reply d'. receiveStock env0 storekeeper0 ''k'' ''m'' receipt0 oversold0 = Inr (reply, d')
     \<and> rr_costPerUnit reply = - 800 \<and> map_option rm_costPerUnit (row_by rm_id ''m'' (rawMaterials d')) = Some (- 800))"
  using oversold0_ok js_round_of_int [of "- 8000000"] by (simp add: oversold0_def inventory_defs round4_def)

text \<open>\<open>produceBatch\<close> writes the output's stock as an absolute value it computed from a read before its transaction: a receipt
  of the same material in between is overwritten, and the ledger no longer explains the balance.\<close>

theorem produceBatch_lost_receipt:
  "stock_ok bakery0 \<and> (\<exists>plan reply d1 d2. plan_batch storekeeper0 ''k'' ''p'' 2 bakery0 = Inr plan
     \<and> receiveStock env0 storekeeper0 ''k'' ''p'' receipt0 bakery0 = Inr (reply, d1)
     \<and> write_batch env0 storekeeper0 ''k'' ''p'' 2 plan d1 = Inr d2
     \<and> map_option rm_stockQty (row_by rm_id ''p'' (rawMaterials d2)) = Some 7
     \<and> entry_sum sm_rawMaterialId sm_quantity ''p'' (stockMovements d2) = 17 \<and> \<not> stock_ok d2)"
  using bakery0_ok(1)
  by (simp add: inventory_defs entry_sum_def stock_ok_def ledger_balanced_def)

end
