(* ===== verification/Stocktake.thy ===== *)
theory Stocktake
  imports Inventory
begin

text \<open>
  The stocktake service (\<open>apps/api/src/procurement/stocktake.service.ts\<close>) with the document numbers of
  \<open>procurement.common.ts\<close>: a count freezes the expected quantities, entries record what was counted, and posting
  applies the difference to the stock as it is then. The last section shows what the service promises: sales made
  while the count is open are preserved, and a count posts once.
\<close>

section \<open>Rounding and document numbers\<close>

definition round3 :: "num \<Rightarrow> num" where
  "round3 n = of_int (js_round (n * 1000)) / 1000"

definition pad5 :: "string \<Rightarrow> string" where
  "pad5 s = replicate (5 - length s) CHR ''0'' @ s"

definition nextDocNumber :: "string \<Rightarrow> nat \<Rightarrow> string" where
  "nextDocNumber kind n = kind @ ''-'' @ pad5 (nat_digits (n + 1))"

section \<open>Counts\<close>

record count_input =
  ct_scope :: count_scope
  ct_category :: "string option"
  ct_note :: "string option"

text \<open>An entry of the count sheet; \<open>ce_note = None\<close> leaves the note as it is.\<close>

record count_entry =
  ce_lineId :: id
  ce_countedQty :: "num option"
  ce_note :: "string option option"

record post_reply =
  pr_id :: id
  pr_adjusted :: int
  pr_varianceValue :: num

definition count_open :: "count_status \<Rightarrow> bool" where
  "count_open s \<longleftrightarrow> s = CountCounting \<or> s = CountSubmitted"

fun count_status_name :: "count_status \<Rightarrow> string" where
  "count_status_name CountCounting = ''counting''"
| "count_status_name CountSubmitted = ''submitted''"
| "count_status_name CountPosted = ''posted''"
| "count_status_name CountCancelled = ''cancelled''"

definition lockCount :: "auth_user \<Rightarrow> id \<Rightarrow> id \<Rightarrow> db \<Rightarrow> stock_count_row result" where
  "lockCount user outletId countId d =
    some_or (List.find (\<lambda>c. sc_id c = countId \<and> sc_tenantId c = u_tenantId user \<and> sc_outletId c = outletId) (stockCounts d))
      (NotFound [Txt ''Stock count not found''])"

definition count_error :: "stock_count_row \<Rightarrow> api_error" where
  "count_error c = BadRequest [Txt (''Count is '' @ count_status_name (sc_status c))]"

definition count_category :: "count_input \<Rightarrow> string option" where
  "count_category input = (if ct_scope input = ScopeCategory then map_option trim (ct_category input) else None)"

definition count_clash :: "auth_user \<Rightarrow> id \<Rightarrow> string option \<Rightarrow> db \<Rightarrow> stock_count_row option" where
  "count_clash user outletId category d =
    List.find (\<lambda>c. sc_tenantId c = u_tenantId user \<and> sc_outletId c = outletId \<and> count_open (sc_status c)
       \<and> (truthy category \<longrightarrow> sc_scope c = ScopeFull \<or> sc_category c = category)) (stockCounts d)"

definition count_materials_in :: "auth_user \<Rightarrow> id \<Rightarrow> string option \<Rightarrow> db \<Rightarrow> raw_material_row list" where
  "count_materials_in user outletId category d =
    sort_key rm_name (filter (\<lambda>m. rm_tenantId m = u_tenantId user \<and> rm_outletId m = outletId \<and> rm_deletedAt m = None
       \<and> (truthy category \<longrightarrow> (\<exists>p \<in> set (materialPlannings d). pl_rawMaterialId p = rm_id m \<and> pl_category p = category))) (rawMaterials d))"

definition freeze_line :: "env \<Rightarrow> id \<Rightarrow> db \<Rightarrow> raw_material_row \<Rightarrow> db" where
  "freeze_line e countId d m = (case fresh e d of (i, d1) \<Rightarrow>
     stockCountLines_update (\<lambda>ls. ls @ [\<lparr> cl_id = i, cl_stockCountId = countId, cl_rawMaterialId = rm_id m, cl_materialName = rm_name m,
       cl_unit = rm_unit m, cl_expectedQty = rm_stockQty m, cl_unitCost = rm_costPerUnit m, cl_countedQty = None, cl_countedAt = None,
       cl_countedById = None, cl_note = None, cl_varianceQty = None, cl_varianceValue = None \<rparr>]) d1)"

definition startCount :: "env \<Rightarrow> auth_user \<Rightarrow> id \<Rightarrow> count_input \<Rightarrow> db \<Rightarrow> ((id \<times> string) \<times> db) result" where
  "startCount e user outletId input d =
    ebind (assertOutlet user outletId) (\<lambda>_.
      let category = count_category input
      in ebind (require (\<not> (ct_scope input = ScopeCategory \<and> \<not> truthy category)) (BadRequest [Txt ''Pick a category to count''])) (\<lambda>_.
         let countNumber = nextDocNumber ''SC'' (length (filter (\<lambda>c. sc_outletId c = outletId) (stockCounts d)))
         in ebind (case count_clash user outletId category d of
                     Some c \<Rightarrow> Inl (BadRequest [Txt (sc_countNumber c @ '' is still open for an overlapping scope'')])
                   | None \<Rightarrow> Inr ()) (\<lambda>_.
            let materials = count_materials_in user outletId category d
            in ebind (require (materials \<noteq> []) (BadRequest [Txt ''No materials in this scope''])) (\<lambda>_.
               case fresh e d of (i, d1) \<Rightarrow>
               Inr ((i, countNumber), foldl (freeze_line e i) (stockCounts_update (\<lambda>cs. cs @ [\<lparr> sc_id = i, sc_tenantId = u_tenantId user,
                 sc_outletId = outletId, sc_countNumber = countNumber, sc_scope = ct_scope input, sc_category = category,
                 sc_status = CountCounting, sc_note = ct_note input, sc_startedAt = e_now e, sc_startedById = Some (u_id user),
                 sc_submittedAt = None, sc_postedAt = None, sc_postedById = None, sc_cancelledAt = None, sc_varianceValue = 0 \<rparr>]) d1)
                 materials)))))"

definition count_lines :: "id \<Rightarrow> db \<Rightarrow> stock_count_line_row list" where
  "count_lines countId d = filter (\<lambda>l. cl_stockCountId l = countId) (stockCountLines d)"

definition enter_line :: "env \<Rightarrow> auth_user \<Rightarrow> stock_count_line_row list \<Rightarrow> count_entry \<Rightarrow> db \<Rightarrow> db result" where
  "enter_line e user lines entry d =
    ebind (some_or (row_by cl_id (ce_lineId entry) lines) (BadRequest [Txt ''Line does not belong to this count''])) (\<lambda>line.
      let variance = map_option (\<lambda>q. round3 (q - cl_expectedQty line)) (ce_countedQty entry)
      in Inr (stockCountLines_update (set_row cl_id (cl_id line) (\<lambda>l. l\<lparr>
           cl_countedQty := map_option (numeric_col 3) (ce_countedQty entry),
           cl_countedAt := map_option (\<lambda>_. e_now e) (ce_countedQty entry),
           cl_countedById := map_option (\<lambda>_. u_id user) (ce_countedQty entry),
           cl_note := or_else (ce_note entry) (cl_note l),
           cl_varianceQty := map_option (numeric_col 3) variance,
           cl_varianceValue := map_option (\<lambda>v. numeric_col 2 (round_cents (v * cl_unitCost line))) variance \<rparr>)) d))"

definition enterCounts :: "env \<Rightarrow> auth_user \<Rightarrow> id \<Rightarrow> id \<Rightarrow> count_entry list \<Rightarrow> db \<Rightarrow> (id \<times> db) result" where
  "enterCounts e user outletId countId entries d =
    ebind (assertOutlet user outletId) (\<lambda>_.
    ebind (lockCount user outletId countId d) (\<lambda>c.
    ebind (require (count_open (sc_status c)) (count_error c)) (\<lambda>_.
    ebind (efold (enter_line e user (count_lines countId d)) entries d) (\<lambda>d1. Inr (countId, d1)))))"

definition set_count :: "id \<Rightarrow> (stock_count_row \<Rightarrow> stock_count_row) \<Rightarrow> db \<Rightarrow> db" where
  "set_count countId f = stockCounts_update (set_row sc_id countId f)"

definition submitCount :: "env \<Rightarrow> auth_user \<Rightarrow> id \<Rightarrow> id \<Rightarrow> db \<Rightarrow> (id \<times> db) result" where
  "submitCount e user outletId countId d =
    ebind (assertOutlet user outletId) (\<lambda>_.
    ebind (lockCount user outletId countId d) (\<lambda>c.
    ebind (require (sc_status c = CountCounting) (count_error c)) (\<lambda>_.
    ebind (require (filter (\<lambda>l. cl_countedQty l \<noteq> None) (count_lines countId d) \<noteq> [])
             (BadRequest [Txt ''Count at least one material before submitting''])) (\<lambda>_.
      Inr (countId, set_count countId (\<lambda>c. c\<lparr>sc_status := CountSubmitted, sc_submittedAt := Some (e_now e)\<rparr>) d)))))"

definition cancelCount :: "env \<Rightarrow> auth_user \<Rightarrow> id \<Rightarrow> id \<Rightarrow> db \<Rightarrow> (id \<times> db) result" where
  "cancelCount e user outletId countId d =
    ebind (assertOutlet user outletId) (\<lambda>_.
    ebind (lockCount user outletId countId d) (\<lambda>c.
    ebind (require (count_open (sc_status c)) (count_error c)) (\<lambda>_.
      Inr (countId, set_count countId (\<lambda>c. c\<lparr>sc_status := CountCancelled, sc_cancelledAt := Some (e_now e)\<rparr>) d))))"

section \<open>Posting\<close>

definition write_variance :: "id \<Rightarrow> num \<Rightarrow> num \<Rightarrow> db \<Rightarrow> db" where
  "write_variance lineId qty value = stockCountLines_update
     (set_row cl_id lineId (\<lambda>l. l\<lparr>cl_varianceQty := Some (numeric_col 3 qty), cl_varianceValue := Some (numeric_col 2 value)\<rparr>))"

definition add_stock :: "id \<Rightarrow> num \<Rightarrow> db \<Rightarrow> db" where
  "add_stock materialId qty = rawMaterials_update
     (set_row rm_id materialId (\<lambda>m. m\<lparr>rm_stockQty := numeric_col 3 (rm_stockQty m + qty)\<rparr>))"

definition adjust_reason :: "stock_count_row \<Rightarrow> stock_count_line_row \<Rightarrow> string" where
  "adjust_reason c l = ''Stocktake '' @ sc_countNumber c @ (if truthy (cl_note l) then '': '' @ the (cl_note l) else [])"

text \<open>One line of the loop, over the database, the total variance value and the number of adjustments.\<close>

definition post_line ::
  "env \<Rightarrow> auth_user \<Rightarrow> id \<Rightarrow> stock_count_row \<Rightarrow> db \<times> num \<times> int \<Rightarrow> stock_count_line_row \<Rightarrow> db \<times> num \<times> int" where
  "post_line e user outletId c = (\<lambda>(d, totalValue, adjusted) l.
    let variance = round3 (or_else (cl_countedQty l) 0 - cl_expectedQty l)
    in if variance = 0 then (write_variance (cl_id l) 0 0 d, totalValue, adjusted)
       else (case List.find (\<lambda>m. rm_id m = cl_rawMaterialId l \<and> rm_tenantId m = u_tenantId user \<and> rm_outletId m = outletId) (rawMaterials d) of
               None \<Rightarrow> (d, totalValue, adjusted)
             | Some m \<Rightarrow>
                 let cost = rm_costPerUnit m;
                     value = round_cents (variance * cost)
                 in (write_variance (cl_id l) variance value
                       (post_movement (stock_movement e (u_tenantId user) outletId (cl_rawMaterialId l) ADJUSTMENT variance (Some cost)
                            (Some (adjust_reason c l)) None (Some ''stocktake'') (Some (sc_id c)) (Some (u_id user)))
                         (add_stock (cl_rawMaterialId l) variance d)),
                     totalValue + value, adjusted + 1)))"

definition counted_lines :: "id \<Rightarrow> db \<Rightarrow> stock_count_line_row list" where
  "counted_lines countId d = sort_key cl_rawMaterialId (filter (\<lambda>l. cl_countedQty l \<noteq> None) (count_lines countId d))"

definition postCount :: "env \<Rightarrow> auth_user \<Rightarrow> id \<Rightarrow> id \<Rightarrow> db \<Rightarrow> (post_reply \<times> db) result" where
  "postCount e user outletId countId d =
    ebind (assertOutlet user outletId) (\<lambda>_.
    ebind (lockCount user outletId countId d) (\<lambda>c.
    ebind (require (count_open (sc_status c)) (count_error c)) (\<lambda>_.
      let lines = counted_lines countId d
      in ebind (require (lines \<noteq> []) (BadRequest [Txt ''Nothing has been counted''])) (\<lambda>_.
         case foldl (post_line e user outletId c) (d, 0, 0) lines of (d1, totalValue, adjusted) \<Rightarrow>
         Inr (\<lparr> pr_id = countId, pr_adjusted = adjusted, pr_varianceValue = round_cents totalValue \<rparr>,
           audit (u_tenantId user) (Some (u_id user)) ''STOCKTAKE_POSTED'' ''StockCount'' countId
             (set_count countId (\<lambda>c. c\<lparr>sc_status := CountPosted, sc_postedAt := Some (e_now e), sc_postedById := Some (u_id user),
                sc_varianceValue := numeric_col 2 (round_cents totalValue)\<rparr>) d1))))))"


section \<open>Sales during a count are preserved\<close>

definition line_delta :: "stock_count_line_row \<Rightarrow> num" where
  "line_delta l = or_else (cl_countedQty l) 0 - cl_expectedQty l"

definition at_outlet :: "auth_user \<Rightarrow> id \<Rightarrow> raw_material_row \<Rightarrow> bool" where
  "at_outlet user outletId m \<longleftrightarrow> rm_tenantId m = u_tenantId user \<and> rm_outletId m = outletId"

text \<open>The columns of the count lines, and one line per count and material.\<close>

definition count_line_ok :: "stock_count_line_row \<Rightarrow> bool" where
  "count_line_ok l \<longleftrightarrow> decimals 3 (cl_expectedQty l) \<and> pred_option (decimals 3) (cl_countedQty l)"

definition counts_ok :: "db \<Rightarrow> bool" where
  "counts_ok d \<longleftrightarrow> (\<forall>l \<in> set (stockCountLines d). count_line_ok l)
     \<and> distinct (map (\<lambda>l. (cl_stockCountId l, cl_rawMaterialId l)) (stockCountLines d))"

lemma round3_exact: "decimals 3 x \<Longrightarrow> round3 x = x"
  by (elim decimalsE) (simp add: round3_def)

lemma line_delta_decimals: "count_line_ok l \<Longrightarrow> decimals 3 (line_delta l)"
  by (cases "cl_countedQty l") (auto simp: count_line_ok_def line_delta_def intro!: decimals_diff decimals_minus)

lemma find_here:
  assumes "distinct (map rm_id ms)"
  shows "List.find (\<lambda>m. rm_id m = i \<and> rm_tenantId m = u_tenantId user \<and> rm_outletId m = outletId) ms
    = (case row_by rm_id i ms of Some m \<Rightarrow> if at_outlet user outletId m then Some m else None | None \<Rightarrow> None)"
  using assms
proof (induction ms)
  case (Cons m ms)
  have "row_by rm_id i ms = None" if "rm_id m = i" using Cons.prems that by (simp add: row_by_None)
  then show ?case using Cons by (auto simp: at_outlet_def)
qed simp

lemma add_stock_ok:
  assumes "stock_ok d" and "row_by rm_id i (rawMaterials d) = Some r" and "decimals 3 q"
    and "sm_rawMaterialId m = i" and "sm_quantity m = numeric_col 3 q"
  shows "stock_ok (post_movement m (add_stock i q d))"
proof -
  have "decimals 3 (rm_stockQty r)" using stock_okD(2) [OF assms(1)] row_by_Some [OF assms(2)] by blast
  then have "numeric_col 3 (rm_stockQty r + q) = rm_stockQty r + q" "numeric_col 3 q = q"
    using assms(3) by (auto intro: numeric_col_exact decimals_add)
  then show ?thesis unfolding add_stock_def using assms by (intro stock_ok_post) simp_all
qed

lemma post_line_effect:
  assumes "post_line e user outletId c (d, t, n) l = (d', t', n')" and ok: "stock_ok d" and l: "count_line_ok l"
  shows "stock_ok d'" and "prepRecipes d' = prepRecipes d" and "seq d' = seq d" and "stockCounts d' = stockCounts d"
    and "rm_id ` set (rawMaterials d') = rm_id ` set (rawMaterials d)"
    and "row_by rm_id i (rawMaterials d') = map_option (\<lambda>m. m\<lparr>rm_stockQty := rm_stockQty m
           + (if cl_rawMaterialId l = i \<and> at_outlet user outletId m then line_delta l else 0)\<rparr>) (row_by rm_id i (rawMaterials d))"
proof -
  let ?q = "line_delta l" and ?k = "cl_rawMaterialId l"
  have q: "decimals 3 ?q" "round3 (or_else (cl_countedQty l) 0 - cl_expectedQty l) = ?q"
    using line_delta_decimals [OF l] by (simp_all add: round3_exact flip: line_delta_def)
  note f = find_here [OF stock_okD(1) [OF ok], of ?k user outletId]
  have "stock_ok d' \<and> prepRecipes d' = prepRecipes d \<and> seq d' = seq d \<and> stockCounts d' = stockCounts d
    \<and> rm_id ` set (rawMaterials d') = rm_id ` set (rawMaterials d)
    \<and> row_by rm_id i (rawMaterials d') = map_option (\<lambda>m. m\<lparr>rm_stockQty := rm_stockQty m
           + (if ?k = i \<and> at_outlet user outletId m then ?q else 0)\<rparr>) (row_by rm_id i (rawMaterials d))"
  proof (cases "?q = 0 \<or> (\<nexists>r. row_by rm_id ?k (rawMaterials d) = Some r \<and> at_outlet user outletId r)")
    case True
    then have "rawMaterials d' = rawMaterials d \<and> stockMovements d' = stockMovements d \<and> recipes d' = recipes d \<and> seq d' = seq d
      \<and> prepRecipes d' = prepRecipes d \<and> stockCounts d' = stockCounts d"
      using assms(1) f q by (auto simp: post_line_def Let_def write_variance_def split: if_splits option.splits)
    moreover have "map_option (\<lambda>m. m\<lparr>rm_stockQty := rm_stockQty m + (if ?k = i \<and> at_outlet user outletId m then ?q else 0)\<rparr>)
        (row_by rm_id i (rawMaterials d)) = row_by rm_id i (rawMaterials d)"
      using True by (cases "row_by rm_id i (rawMaterials d)") auto
    ultimately show ?thesis using ok stock_ok_cong [of d' d] by simp
  next
    case False
    then obtain r where r: "row_by rm_id ?k (rawMaterials d) = Some r" "at_outlet user outletId r" and nz: "?q \<noteq> 0" by blast
    define x where "x = stock_movement e (u_tenantId user) outletId ?k ADJUSTMENT ?q (Some (rm_costPerUnit r))
      (Some (adjust_reason c l)) None (Some ''stocktake'') (Some (sc_id c)) (Some (u_id user))"
    have x: "sm_rawMaterialId x = ?k" "sm_quantity x = numeric_col 3 ?q" by (simp_all add: x_def)
    have d': "d' = write_variance (cl_id l) ?q (round_cents (?q * rm_costPerUnit r)) (post_movement x (add_stock ?k ?q d))"
      using assms(1) f q r nz by (auto simp: post_line_def Let_def x_def)
    have "stock_ok d'" unfolding d' using add_stock_ok [OF ok r(1) q(1) x]
      by (subst stock_ok_cong [of _ "post_movement x (add_stock ?k ?q d)"]) (simp_all add: write_variance_def)
    moreover have "numeric_col 3 (rm_stockQty r + ?q) = rm_stockQty r + ?q"
      using stock_okD(2) [OF ok] row_by_Some [OF r(1)] q(1) by (auto intro: numeric_col_exact decimals_add)
    then have "row_by rm_id i (rawMaterials d') = map_option (\<lambda>m. m\<lparr>rm_stockQty := rm_stockQty m
           + (if ?k = i \<and> at_outlet user outletId m then ?q else 0)\<rparr>) (row_by rm_id i (rawMaterials d))"
      using stock.lookup_set_row [of "\<lambda>s. s\<lparr>rm_stockQty := numeric_col 3 (rm_stockQty s + ?q)\<rparr>" i ?k d] r
      by (cases "?k = i") (auto simp: d' write_variance_def post_movement_def add_stock_def option.map_ident cong: map_option_cong)
    ultimately show ?thesis
      by (simp add: d' write_variance_def post_movement_def add_stock_def image_key_set_row)
  qed
  then show "stock_ok d'" "prepRecipes d' = prepRecipes d" "seq d' = seq d" "stockCounts d' = stockCounts d"
    "rm_id ` set (rawMaterials d') = rm_id ` set (rawMaterials d)"
    "row_by rm_id i (rawMaterials d') = map_option (\<lambda>m. m\<lparr>rm_stockQty := rm_stockQty m
           + (if ?k = i \<and> at_outlet user outletId m then ?q else 0)\<rparr>) (row_by rm_id i (rawMaterials d))" by blast+
qed


lemma post_lines_effect:
  assumes "foldl (post_line e user outletId c) (d, t, n) ls = (d', t', n')" and "stock_ok d" and "\<And>l. l \<in> set ls \<Longrightarrow> count_line_ok l"
  shows "stock_ok d' \<and> prepRecipes d' = prepRecipes d \<and> seq d' = seq d \<and> stockCounts d' = stockCounts d
    \<and> rm_id ` set (rawMaterials d') = rm_id ` set (rawMaterials d)
    \<and> (\<forall>i. row_by rm_id i (rawMaterials d') = map_option (\<lambda>m. m\<lparr>rm_stockQty := rm_stockQty m
           + (if at_outlet user outletId m then \<Sum>l\<leftarrow>filter (\<lambda>l. cl_rawMaterialId l = i) ls. line_delta l else 0)\<rparr>)
         (row_by rm_id i (rawMaterials d)))"
  using assms
proof (induction ls arbitrary: d t n)
  case Nil
  have "map_option (\<lambda>m. m\<lparr>rm_stockQty := rm_stockQty m
      + (if at_outlet user outletId m then \<Sum>l\<leftarrow>filter (\<lambda>l. cl_rawMaterialId l = i) []. line_delta l else 0)\<rparr>) x = x" for x i
    by (cases x) simp_all
  then show ?case using Nil by (simp only: foldl_Nil prod.inject) simp
next
  case (Cons l ls)
  obtain d1 t1 n1 where 1: "post_line e user outletId c (d, t, n) l = (d1, t1, n1)" by (metis prod_cases3)
  then have 2: "foldl (post_line e user outletId c) (d1, t1, n1) ls = (d', t', n')" using Cons.prems(1) by simp
  have l: "count_line_ok l" using Cons.prems(3) by simp
  note s1 = post_line_effect [OF 1 Cons.prems(2) l]
  have "stock_ok d' \<and> prepRecipes d' = prepRecipes d1 \<and> seq d' = seq d1 \<and> stockCounts d' = stockCounts d1
    \<and> rm_id ` set (rawMaterials d') = rm_id ` set (rawMaterials d1)
    \<and> (\<forall>i. row_by rm_id i (rawMaterials d') = map_option (\<lambda>m. m\<lparr>rm_stockQty := rm_stockQty m
           + (if at_outlet user outletId m then \<Sum>l\<leftarrow>filter (\<lambda>l. cl_rawMaterialId l = i) ls. line_delta l else 0)\<rparr>)
         (row_by rm_id i (rawMaterials d1)))"
    using Cons.IH [OF 2 s1(1)] Cons.prems(3) by simp
  then show ?case using s1(2-5) unfolding s1(6)
    by (auto simp: option.map_comp comp_def at_outlet_def intro!: map_option_cong)
qed

lemma sum_one_line:
  assumes "distinct (map f ls)" and "l \<in> set ls" shows "(\<Sum>x\<leftarrow>filter (\<lambda>x. f x = f l) ls. g x) = (g l :: num)"
  using assms
proof (induction ls)
  case (Cons x ls)
  have "filter (\<lambda>y. f y = f x) ls = []" if "f x \<notin> f ` set ls" using that by (auto simp: filter_empty_conv image_iff)
  then show ?case using Cons by (auto simp: image_iff)
qed simp

lemma counted_lines_mem: "l \<in> set (counted_lines countId d) \<longleftrightarrow> l \<in> set (stockCountLines d) \<and> cl_stockCountId l = countId \<and> cl_countedQty l \<noteq> None"
  by (auto simp: counted_lines_def count_lines_def)

lemma distinct_counted_lines:
  assumes "counts_ok d" shows "distinct (map cl_rawMaterialId (counted_lines countId d))"
proof -
  let ?ls = "filter (\<lambda>l. cl_countedQty l \<noteq> None) (count_lines countId d)"
  have "distinct ?ls" "inj_on cl_rawMaterialId (set ?ls)"
    using assms by (auto simp: counts_ok_def count_lines_def distinct_map inj_on_def)
  then show ?thesis unfolding counted_lines_def distinct_map by simp
qed

text \<open>The stages of a successful posting.\<close>

lemma postCount_stages:
  assumes "postCount e user outletId countId d = Inr (reply, d')"
  obtains c d1 t n where "foldl (post_line e user outletId c) (d, 0, 0) (counted_lines countId d) = (d1, t, n)"
    and "d' = audit (u_tenantId user) (Some (u_id user)) ''STOCKTAKE_POSTED'' ''StockCount'' countId
             (set_count countId (\<lambda>c. c\<lparr>sc_status := CountPosted, sc_postedAt := Some (e_now e), sc_postedById := Some (u_id user),
                sc_varianceValue := numeric_col 2 (round_cents t)\<rparr>) d1)"
proof -
  from assms obtain c :: stock_count_row and x where x: "foldl (post_line e user outletId c) (d, 0, 0) (counted_lines countId d) = x"
    and "d' = audit (u_tenantId user) (Some (u_id user)) ''STOCKTAKE_POSTED'' ''StockCount'' countId
             (set_count countId (\<lambda>c. c\<lparr>sc_status := CountPosted, sc_postedAt := Some (e_now e), sc_postedById := Some (u_id user),
                sc_varianceValue := numeric_col 2 (round_cents (fst (snd x)))\<rparr>) (fst x))"
    unfolding postCount_def guard_simps Let_def case_prod_beta sum.inject prod.inject
    by (elim exE conjE) (rule that, rule refl, erule sym)
  then show ?thesis using that by (cases x) auto
qed

lemma postCount_effect:
  assumes run: "postCount e user outletId countId d = Inr (reply, d')" and ok: "stock_ok d" "counts_ok d"
  shows "stock_ok d'" "prepRecipes d' = prepRecipes d" "seq d' = seq d" "rm_id ` set (rawMaterials d') = rm_id ` set (rawMaterials d)"
    and "row_by rm_id i (rawMaterials d') = map_option (\<lambda>m. m\<lparr>rm_stockQty := rm_stockQty m
       + (if at_outlet user outletId m then \<Sum>l\<leftarrow>filter (\<lambda>l. cl_rawMaterialId l = i) (counted_lines countId d). line_delta l else 0)\<rparr>)
         (row_by rm_id i (rawMaterials d))"
    and "\<And>c. c \<in> set (stockCounts d') \<Longrightarrow> sc_id c = countId \<Longrightarrow> sc_status c = CountPosted"
proof -
  obtain c d1 t n where loop: "foldl (post_line e user outletId c) (d, 0, 0) (counted_lines countId d) = (d1, t, n)"
    and d': "d' = audit (u_tenantId user) (Some (u_id user)) ''STOCKTAKE_POSTED'' ''StockCount'' countId
             (set_count countId (\<lambda>c. c\<lparr>sc_status := CountPosted, sc_postedAt := Some (e_now e), sc_postedById := Some (u_id user),
                sc_varianceValue := numeric_col 2 (round_cents t)\<rparr>) d1)" by (rule postCount_stages [OF run])
  have "count_line_ok l" if "l \<in> set (counted_lines countId d)" for l
    using that ok(2) by (simp add: counted_lines_mem counts_ok_def)
  note s = post_lines_effect [OF loop ok(1) this]
  show "stock_ok d'" using s stock_ok_cong [of d' d1] by (simp add: d' audit_def set_count_def)
  show "prepRecipes d' = prepRecipes d" "seq d' = seq d" "rm_id ` set (rawMaterials d') = rm_id ` set (rawMaterials d)"
    using s by (simp_all add: d' audit_def set_count_def)
  show "row_by rm_id i (rawMaterials d') = map_option (\<lambda>m. m\<lparr>rm_stockQty := rm_stockQty m
       + (if at_outlet user outletId m then \<Sum>l\<leftarrow>filter (\<lambda>l. cl_rawMaterialId l = i) (counted_lines countId d). line_delta l else 0)\<rparr>)
         (row_by rm_id i (rawMaterials d))" using s by (simp add: d' audit_def set_count_def)
  show "sc_status c = CountPosted" if "c \<in> set (stockCounts d')" "sc_id c = countId" for c
  proof -
    have "c \<in> set (set_row sc_id countId (\<lambda>c. c\<lparr>sc_status := CountPosted, sc_postedAt := Some (e_now e), sc_postedById := Some (u_id user),
                sc_varianceValue := numeric_col 2 (round_cents t)\<rparr>) (stockCounts d1))"
      using that(1) by (simp add: d' audit_def set_count_def)
    then show ?thesis using that(2) by (cases rule: set_row_memberE) simp_all
  qed
qed


lemma posted_final:
  assumes "\<And>c. c \<in> set (stockCounts d) \<Longrightarrow> sc_id c = countId \<Longrightarrow> sc_status c = CountPosted"
  shows "\<exists>err. postCount e user outletId countId d = Inl err"
proof (cases "postCount e user outletId countId d")
  case (Inr x)
  then obtain c where "lockCount user outletId countId d = Inr c" "count_open (sc_status c)"
    unfolding postCount_def guard_simps by blast
  then show ?thesis using assms [of c] by (auto simp: lockCount_def guard_simps count_open_def dest!: find_SomeD)
qed simp

text \<open>C30. Posting a count applies the variance against the frozen expectation to the stock as it is at that moment: every counted
  material ends at the counted quantity plus whatever moved since the freeze, uncounted materials are left alone, the
  ledger still explains every balance, and the count cannot be posted again.\<close>

theorem stocktake_preserves_sales:
  assumes run: "postCount e user outletId countId d = Inr (reply, d')" and ok: "stock_ok d" "counts_ok d"
  shows "(\<forall>l \<in> set (count_lines countId d). \<forall>c m. cl_countedQty l = Some c
      \<and> row_by rm_id (cl_rawMaterialId l) (rawMaterials d) = Some m \<and> at_outlet user outletId m \<longrightarrow>
      (\<exists>m'. row_by rm_id (cl_rawMaterialId l) (rawMaterials d') = Some m' \<and> rm_stockQty m' = c + (rm_stockQty m - cl_expectedQty l)))
    \<and> (\<forall>i. (\<forall>l \<in> set (count_lines countId d). cl_rawMaterialId l = i \<longrightarrow> cl_countedQty l = None) \<longrightarrow>
         row_by rm_id i (rawMaterials d') = row_by rm_id i (rawMaterials d))
    \<and> stock_ok d' \<and> (\<forall>e' user' outletId'. \<exists>err. postCount e' user' outletId' countId d' = Inl err)"
proof (intro conjI ballI allI impI)
  note eff = postCount_effect [OF run ok]
  show "stock_ok d'" by (rule eff(1))
  show "\<exists>err. postCount e' user' outletId' countId d' = Inl err" for e' user' outletId' using eff(6) by (rule posted_final)
  fix l c m assume l: "l \<in> set (count_lines countId d)"
    and h: "cl_countedQty l = Some c \<and> row_by rm_id (cl_rawMaterialId l) (rawMaterials d) = Some m \<and> at_outlet user outletId m"
  have "l \<in> set (counted_lines countId d)" using l h by (simp add: counted_lines_mem count_lines_def)
  note one = sum_one_line [OF distinct_counted_lines [OF ok(2)] this, of line_delta]
  show "\<exists>m'. row_by rm_id (cl_rawMaterialId l) (rawMaterials d') = Some m' \<and> rm_stockQty m' = c + (rm_stockQty m - cl_expectedQty l)"
    unfolding eff(5) using h one by (simp add: line_delta_def [of l])
next
  note eff = postCount_effect [OF run ok]
  fix i assume "\<forall>l \<in> set (count_lines countId d). cl_rawMaterialId l = i \<longrightarrow> cl_countedQty l = None"
  then have none: "filter (\<lambda>l. cl_rawMaterialId l = i) (counted_lines countId d) = []"
    by (auto simp: filter_empty_conv counted_lines_mem count_lines_def)
  show "row_by rm_id i (rawMaterials d') = row_by rm_id i (rawMaterials d)"
    unfolding eff(5) none by (cases "row_by rm_id i (rawMaterials d)") simp_all
qed

section \<open>The invariant of the counts\<close>

definition count_inv :: "(nat \<Rightarrow> id) \<Rightarrow> db \<Rightarrow> bool" where
  "count_inv src d \<longleftrightarrow> counts_ok d \<and> cl_stockCountId ` set (stockCountLines d) \<subseteq> src ` {..<seq d}"

lemma count_inv_keep:
  "count_inv src d \<Longrightarrow> stockCountLines d' = stockCountLines d \<Longrightarrow> seq d \<le> seq d' \<Longrightarrow> count_inv src d'"
  by (auto simp: count_inv_def counts_ok_def dest!: subsetD)

text \<open>A change of a line that keeps its identity and its columns.\<close>

lemma counts_ok_set_row:
  assumes "count_inv src d" and f: "\<And>l. cl_stockCountId (f l) = cl_stockCountId l" "\<And>l. cl_rawMaterialId (f l) = cl_rawMaterialId l"
    "\<And>l. count_line_ok l \<Longrightarrow> count_line_ok (f l)"
  shows "count_inv src (stockCountLines_update (set_row cl_id i f) d)"
proof -
  have "map (\<lambda>l. (cl_stockCountId l, cl_rawMaterialId l)) (set_row cl_id i f ls) = map (\<lambda>l. (cl_stockCountId l, cl_rawMaterialId l)) ls" for ls
    unfolding set_row_def by (rule map_update_where) (simp add: f)
  then show ?thesis using assms(1) f
    by (force simp: count_inv_def counts_ok_def set_row_def set_update_where)
qed

lemma freeze_effect:
  "\<exists>ls n. foldl (freeze_line e c) d ms = d\<lparr>seq := n, stockCountLines := stockCountLines d @ ls\<rparr> \<and> seq d \<le> n
     \<and> map (\<lambda>l. (cl_stockCountId l, cl_rawMaterialId l)) ls = map (\<lambda>m. (c, rm_id m)) ms
     \<and> ((\<forall>m \<in> set ms. decimals 3 (rm_stockQty m)) \<longrightarrow> (\<forall>l \<in> set ls. count_line_ok l))"
proof (induction ms arbitrary: d)
  case Nil
  show ?case by (rule exI [of _ "[]"], rule exI [of _ "seq d"]) simp
next
  case (Cons m ms)
  obtain l where l: "freeze_line e c d m = d\<lparr>seq := seq d + 1, stockCountLines := stockCountLines d @ [l]\<rparr>"
    "cl_stockCountId l = c" "cl_rawMaterialId l = rm_id m" "cl_expectedQty l = rm_stockQty m" "cl_countedQty l = None"
    by (rule that [of "hd (drop (length (stockCountLines d)) (stockCountLines (freeze_line e c d m)))"]) (simp_all add: freeze_line_def fresh_def)
  obtain ls n where "foldl (freeze_line e c) (freeze_line e c d m) ms = (freeze_line e c d m)\<lparr>seq := n, stockCountLines := stockCountLines (freeze_line e c d m) @ ls\<rparr>"
    "seq (freeze_line e c d m) \<le> n" "map (\<lambda>l. (cl_stockCountId l, cl_rawMaterialId l)) ls = map (\<lambda>m. (c, rm_id m)) ms"
    "(\<forall>m \<in> set ms. decimals 3 (rm_stockQty m)) \<longrightarrow> (\<forall>l \<in> set ls. count_line_ok l)"
    using Cons.IH by blast
  then show ?case using l by (intro exI [of _ "l # ls"] exI [of _ n]) (simp add: count_line_ok_def)
qed

lemma startCount_inv:
  assumes run: "startCount e user outletId input d = Inr (x, d')" and inv: "stock_inv (e_cuid e) d" "count_inv (e_cuid e) d" and src: "inj (e_cuid e)"
  shows "stock_inv (e_cuid e) d' \<and> count_inv (e_cuid e) d'"
proof -
  let ?i = "e_cuid e (seq d)" and ?ms = "count_materials_in user outletId (count_category input) d"
  from run obtain f where d': "d' = foldl (freeze_line e ?i) (stockCounts_update f (d\<lparr>seq := seq d + 1\<rparr>)) ?ms"
    unfolding startCount_def guard_simps Let_def fresh_def prod.case sum.inject prod.inject by blast
  obtain ls n where e: "d' = (stockCounts_update f (d\<lparr>seq := seq d + 1\<rparr>))\<lparr>seq := n, stockCountLines := stockCountLines d @ ls\<rparr>" "seq d + 1 \<le> n"
    "map (\<lambda>l. (cl_stockCountId l, cl_rawMaterialId l)) ls = map (\<lambda>m. (?i, rm_id m)) ?ms"
    "(\<forall>m \<in> set ?ms. decimals 3 (rm_stockQty m)) \<longrightarrow> (\<forall>l \<in> set ls. count_line_ok l)"
    using freeze_effect [of e ?i "stockCounts_update f (d\<lparr>seq := seq d + 1\<rparr>)" ?ms] d' by auto
  have ok: "stock_ok d" using inv by (simp add: stock_inv_def)
  have ms: "set ?ms \<subseteq> set (rawMaterials d)" "distinct (map rm_id ?ms)"
    using stock_okD(1) [OF ok] by (auto simp: count_materials_in_def distinct_map inj_on_def)
  have ids: "cl_stockCountId l = ?i" if "l \<in> set ls" for l
  proof -
    have "(cl_stockCountId l, cl_rawMaterialId l) \<in> set (map (\<lambda>m. (?i, rm_id m)) ?ms)" unfolding e(3) [symmetric] using that by auto
    then show ?thesis by auto
  qed
  have new: "?i \<notin> cl_stockCountId ` set (stockCountLines d)" using inv src by (auto simp: count_inv_def dest!: inj_onD subsetD)
  have "distinct (map (\<lambda>l. (cl_stockCountId l, cl_rawMaterialId l)) ls)" unfolding e(3) using ms(2) by (simp add: distinct_map inj_on_def)
  moreover have "\<forall>l \<in> set ls. count_line_ok l" using e(4) ms(1) stock_okD(2) [OF ok] by blast
  ultimately have "counts_ok d'" using inv new ids by (auto simp: e(1) count_inv_def counts_ok_def image_iff)
  moreover have "cl_stockCountId ` set (stockCountLines d') \<subseteq> e_cuid e ` {..<seq d'}"
    using inv ids e(2) by (auto simp: e(1) count_inv_def dest!: subsetD)
  moreover have "stock_inv (e_cuid e) d'"
    using stock_ok_cong [of d' d] ok e(2) by (intro stock_inv_keep [OF inv(1)]) (simp_all add: e(1))
  ultimately show ?thesis by (simp add: count_inv_def)
qed


lemma enterCounts_inv:
  assumes run: "enterCounts e user outletId countId entries d = Inr (x, d')" and inv: "stock_inv src d" "count_inv src d"
  shows "stock_inv src d' \<and> count_inv src d'"
proof -
  from run have loop: "efold (enter_line e user (count_lines countId d)) entries d = Inr d'"
    unfolding enterCounts_def guard_simps sum.inject prod.inject by blast
  show ?thesis
  proof (rule efold_invariant [OF loop])
    show "stock_inv src d \<and> count_inv src d" using inv by simp
    fix x s t assume s: "stock_inv src s \<and> count_inv src s" and "enter_line e user (count_lines countId d) x s = Inr t"
    then obtain i f where t: "t = stockCountLines_update (set_row cl_id i f) s"
      and f: "\<And>l. cl_stockCountId (f l) = cl_stockCountId l" "\<And>l. cl_rawMaterialId (f l) = cl_rawMaterialId l"
        "\<And>l. cl_expectedQty (f l) = cl_expectedQty l" "\<And>l. cl_countedQty (f l) = map_option (numeric_col 3) (ce_countedQty x)"
      unfolding enter_line_def guard_simps Let_def sum.inject by (elim exE conjE) (rule that, erule sym, simp_all)
    have "pred_option (decimals 3) (map_option (numeric_col 3) q)" for q by (cases q) simp_all
    then have "count_line_ok (f l)" if "count_line_ok l" for l using that unfolding count_line_ok_def f by blast
    then have "count_inv src t" unfolding t using s f(1,2) by (intro counts_ok_set_row) blast+
    moreover have "stock_ok t \<longleftrightarrow> stock_ok s" by (rule stock_ok_cong) (simp_all add: t)
    then have "stock_ok t" using s by (simp add: stock_inv_def)
    then have "stock_inv src t" using stock_inv_keep [of src s t] s by (simp add: t)
    ultimately show "stock_inv src t \<and> count_inv src t" by simp
  qed
qed

lemma set_count_inv: "stock_inv src d \<Longrightarrow> count_inv src d \<Longrightarrow> stock_inv src (set_count i f d) \<and> count_inv src (set_count i f d)"
  by (auto simp: set_count_def stock_inv_def count_inv_def counts_ok_def prep_ok_def stock_ok_def stock_columns_def)

lemma submitCount_inv:
  assumes "submitCount e user outletId countId d = Inr (x, d')" and "stock_inv src d" "count_inv src d"
  shows "stock_inv src d' \<and> count_inv src d'"
proof -
  from assms(1) obtain f where "d' = set_count countId f d"
    unfolding submitCount_def guard_simps sum.inject prod.inject by blast
  then show ?thesis using set_count_inv assms(2,3) by simp
qed

lemma cancelCount_inv:
  assumes "cancelCount e user outletId countId d = Inr (x, d')" and "stock_inv src d" "count_inv src d"
  shows "stock_inv src d' \<and> count_inv src d'"
proof -
  from assms(1) obtain f where "d' = set_count countId f d"
    unfolding cancelCount_def guard_simps sum.inject prod.inject by blast
  then show ?thesis using set_count_inv assms(2,3) by simp
qed

lemma write_variance_inv: "count_inv src d \<Longrightarrow> count_inv src (write_variance i q v d)"
  unfolding write_variance_def by (rule counts_ok_set_row) (simp_all add: count_line_ok_def)

lemma post_line_count_inv: "count_inv src d \<Longrightarrow> count_inv src (fst (post_line e user outletId c (d, t, n) l))"
  by (auto simp: post_line_def Let_def split: option.split intro!: write_variance_inv elim!: count_inv_keep
      simp: post_movement_def add_stock_def)

lemma postCount_inv:
  assumes run: "postCount e user outletId countId d = Inr (reply, d')" and inv: "stock_inv src d" "count_inv src d"
  shows "stock_inv src d' \<and> count_inv src d'"
proof -
  have ok: "stock_ok d" "counts_ok d" using inv by (simp_all add: stock_inv_def count_inv_def)
  obtain c d1 t n f where loop: "foldl (post_line e user outletId c) (d, 0, 0) (counted_lines countId d) = (d1, t, n)"
    and d': "d' = audit (u_tenantId user) (Some (u_id user)) ''STOCKTAKE_POSTED'' ''StockCount'' countId (set_count countId f d1)"
    by (rule postCount_stages [OF run])
  have "count_inv src (fst (foldl (post_line e user outletId c) s ls))" if "count_inv src (fst s)" for s ls
    using that
  proof (induction ls arbitrary: s)
    case (Cons l ls)
    obtain d t n where s: "s = (d, t, n)" by (metis prod_cases3)
    show ?case using Cons.IH [OF post_line_count_inv [of src d e user outletId c t n l]] Cons.prems by (simp add: s)
  qed simp
  from this [of "(d, 0, 0)" "counted_lines countId d"] have "count_inv src d1" using inv loop by simp
  moreover have "seq d1 = seq d'" "stockCountLines d1 = stockCountLines d'" by (simp_all add: d' audit_def set_count_def)
  ultimately have "count_inv src d'" by (simp add: count_inv_def counts_ok_def)
  moreover have "stock_inv src d'" using postCount_effect(1-4) [OF run ok] by (intro stock_inv_keep [OF inv(1)]) simp_all
  ultimately show ?thesis by simp
qed

section \<open>A concrete count\<close>

text \<open>Ten kilograms were expected at the freeze, eight were counted, and six have been sold since.\<close>

definition count0 :: stock_count_row where
  "count0 = \<lparr> sc_id = ''c'', sc_tenantId = ''t'', sc_outletId = ''k'', sc_countNumber = ''SC-00001'', sc_scope = ScopeFull,
     sc_category = None, sc_status = CountCounting, sc_note = None, sc_startedAt = 0, sc_startedById = None, sc_submittedAt = None,
     sc_postedAt = None, sc_postedById = None, sc_cancelledAt = None, sc_varianceValue = 0 \<rparr>"

definition count_line0 :: stock_count_line_row where
  "count_line0 = \<lparr> cl_id = ''l'', cl_stockCountId = ''c'', cl_rawMaterialId = ''m'', cl_materialName = ''Lentils'', cl_unit = UnitKG,
     cl_expectedQty = 10, cl_unitCost = 90, cl_countedQty = Some 8, cl_countedAt = None, cl_countedById = None, cl_note = None,
     cl_varianceQty = None, cl_varianceValue = None \<rparr>"

definition counting0 :: db where
  "counting0 = kitchen1\<lparr> stockCounts := [count0], stockCountLines := [count_line0] \<rparr>"

lemma counting0_ok: "stock_ok counting0" "counts_ok counting0"
proof -
  have "stock_ok kitchen1" using punch_stock_ok [OF punch_kitchen0 kitchen0_ok] by blast
  then show "stock_ok counting0" using stock_ok_cong [of counting0 kitchen1] by (simp add: counting0_def)
  show "counts_ok counting0" by (simp add: counts_ok_def counting0_def count_line_ok_def count_line0_def)
qed

lemma post_counting0: "\<exists>reply d'. postCount env0 storekeeper0 ''k'' ''c'' counting0 = Inr (reply, d')"
proof -
  have "sort_key cl_rawMaterialId [count_line0] = [count_line0]" by simp
  then show ?thesis
    by (simp add: postCount_def lockCount_def count_open_def Let_def counting0_def count0_def counted_lines_def count_lines_def
        count_line0_def case_prod_beta assertOutlet_def storekeeper0_def)
qed

theorem stocktake_preserves_sales_witness:
  "\<exists>reply d'. postCount env0 storekeeper0 ''k'' ''c'' counting0 = Inr (reply, d')
    \<and> map_option rm_stockQty (row_by rm_id ''m'' (rawMaterials counting0)) = Some 4
    \<and> map_option rm_stockQty (row_by rm_id ''m'' (rawMaterials d')) = Some 2"
proof -
  obtain reply d' where run: "postCount env0 storekeeper0 ''k'' ''c'' counting0 = Inr (reply, d')" using post_counting0 by blast
  have "count_line0 \<in> set (count_lines ''c'' counting0)" by (simp add: count_lines_def counting0_def count_line0_def)
  moreover have "row_by rm_id ''m'' (rawMaterials counting0) = Some (material0\<lparr>rm_stockQty := 4\<rparr>)"
    by (simp add: counting0_def kitchen1_def material0_def)
  moreover have "at_outlet storekeeper0 ''k'' (material0\<lparr>rm_stockQty := 4\<rparr>)" by (simp add: at_outlet_def material0_def storekeeper0_def)
  ultimately show ?thesis using stocktake_preserves_sales [OF run counting0_ok] run by (force simp: count_line0_def)
qed

end
