(* ===== verification/Central_Kitchen.thy ===== *)
theory Central_Kitchen
  imports Stocktake
begin

text \<open>
  The central kitchen (\<open>apps/api/src/central-kitchen/central-kitchen.service.ts\<close>): an outlet indents materials from the
  central kitchen, which dispatches them from its stock; the outlet receives them into its own. The digest that numbers
  an e-way bill is an argument. The last sections show that goods are conserved on the way and that two dispatches of
  one indent can both go through.
\<close>

section \<open>Indents\<close>

record indent_request =
  iq_toOutletId :: id
  iq_note :: "string option"
  iq_items :: "(id \<times> num) list"

definition indent_item :: "env \<Rightarrow> id \<Rightarrow> id \<times> num \<Rightarrow> indent_item_row list \<times> db \<Rightarrow> (indent_item_row list \<times> db) result" where
  "indent_item e centralId = (\<lambda>(materialId, qty) (rows, d).
    ebind (some_or (List.find (\<lambda>m. rm_id m = materialId \<and> rm_outletId m = centralId \<and> rm_deletedAt m = None) (rawMaterials d))
             (BadRequest [Txt ''Unknown central-kitchen material''])) (\<lambda>m.
      case fresh e d of (i, d1) \<Rightarrow>
      Inr (rows @ [\<lparr> ndi_id = i, ndi_rawMaterialId = rm_id m, ndi_materialName = rm_name m, ndi_unit = rm_unit m,
             ndi_requestedQty = numeric_col 3 qty, ndi_dispatchedQty = 0, ndi_unitCost = rm_costPerUnit m \<rparr>], d1)))"

definition createIndent :: "env \<Rightarrow> auth_user \<Rightarrow> id \<Rightarrow> indent_request \<Rightarrow> db \<Rightarrow> (id \<times> db) result" where
  "createIndent e user fromOutletId input d =
    ebind (assertOutlet user fromOutletId) (\<lambda>_.
    ebind (some_or (List.find (\<lambda>u. ou_id u = iq_toOutletId input \<and> ou_tenantId u = u_tenantId user \<and> ou_isCentralKitchen u) (outlets d))
             (BadRequest [Txt ''Target is not a central kitchen''])) (\<lambda>central.
    ebind (require (iq_toOutletId input \<noteq> fromOutletId) (BadRequest [Txt ''Cannot indent from itself''])) (\<lambda>_.
    ebind (efold (indent_item e (ou_id central)) (iq_items input) ([], d)) (\<lambda>(rows, d1).
      case fresh e d1 of (i, d2) \<Rightarrow>
      Inr (i, indents_update (\<lambda>xs. xs @ [\<lparr> in_id = i, in_tenantId = u_tenantId user, in_fromOutletId = fromOutletId,
             in_toOutletId = iq_toOutletId input, in_status = IndentDraft, in_note = iq_note input, in_createdAt = e_now e,
             in_dispatchedAt = None, in_receivedAt = None, in_items = rows \<rparr>]) d2)))))"

definition requireIndent :: "auth_user \<Rightarrow> id \<Rightarrow> db \<Rightarrow> indent_row result" where
  "requireIndent user indentId d =
    some_or (List.find (\<lambda>x. in_id x = indentId \<and> in_tenantId x = u_tenantId user) (indents d)) (NotFound [Txt ''Indent not found''])"

definition set_indent :: "id \<Rightarrow> (indent_row \<Rightarrow> indent_row) \<Rightarrow> db \<Rightarrow> db" where
  "set_indent indentId f = indents_update (set_row in_id indentId f)"

section \<open>Dispatch\<close>

text \<open>The indent is read and its status checked before the transaction that writes.\<close>

definition dispatch_check :: "auth_user \<Rightarrow> id \<Rightarrow> db \<Rightarrow> indent_row result" where
  "dispatch_check user indentId d =
    ebind (requireIndent user indentId d) (\<lambda>indent.
    ebind (require (in_status indent = IndentDraft) (BadRequest [Txt ''Indent is not open for dispatch''])) (\<lambda>_.
    ebind (assertOutlet user (in_toOutletId indent)) (\<lambda>_. Inr indent)))"

definition dispatch_item :: "env \<Rightarrow> auth_user \<Rightarrow> indent_row \<Rightarrow> indent_item_row \<Rightarrow> db \<Rightarrow> db result" where
  "dispatch_item e user indent item d =
    ebind (material_row (ndi_rawMaterialId item) d) (\<lambda>_.
      Inr (set_indent (in_id indent) (\<lambda>x. x\<lparr>in_items := set_row ndi_id (ndi_id item) (\<lambda>y. y\<lparr>ndi_dispatchedQty := ndi_requestedQty item\<rparr>) (in_items x)\<rparr>)
        (post_movement (stock_movement e (u_tenantId user) (in_toOutletId indent) (ndi_rawMaterialId item) TRANSFER_OUT
            (- ndi_requestedQty item) (Some (ndi_unitCost item)) (Some (''Indent dispatch -> '' @ in_fromOutletId indent)) None
            (Some ''indent'') (Some (in_id indent)) (Some (u_id user)))
          (take_stock (ndi_rawMaterialId item) (ndi_requestedQty item) d))))"

definition dispatch_write :: "env \<Rightarrow> auth_user \<Rightarrow> indent_row \<Rightarrow> db \<Rightarrow> db result" where
  "dispatch_write e user indent d =
    ebind (efold (dispatch_item e user indent) (in_items indent) d) (\<lambda>d1.
      Inr (set_indent (in_id indent) (\<lambda>x. x\<lparr>in_status := IndentDispatched, in_dispatchedAt := Some (e_now e)\<rparr>) d1))"

definition dispatch :: "env \<Rightarrow> auth_user \<Rightarrow> id \<Rightarrow> db \<Rightarrow> (id \<times> db) result" where
  "dispatch e user indentId d =
    ebind (dispatch_check user indentId d) (\<lambda>indent.
    ebind (dispatch_write e user indent d) (\<lambda>d1. Inr (in_id indent, d1)))"

section \<open>Receipt\<close>

text \<open>Materials are matched by name at the receiving outlet and created when missing.\<close>

definition satellite_material :: "env \<Rightarrow> auth_user \<Rightarrow> indent_row \<Rightarrow> indent_item_row \<Rightarrow> db \<Rightarrow> id \<times> db" where
  "satellite_material e user indent item d =
    (case List.find (\<lambda>m. rm_outletId m = in_fromOutletId indent \<and> rm_name m = ndi_materialName item \<and> rm_deletedAt m = None) (rawMaterials d) of
       Some m \<Rightarrow> (rm_id m, d)
     | None \<Rightarrow> (case fresh e d of (i, d1) \<Rightarrow>
         (i, rawMaterials_update (\<lambda>ms. ms @ [\<lparr> rm_id = i, rm_tenantId = u_tenantId user, rm_outletId = in_fromOutletId indent,
               rm_name = ndi_materialName item, rm_unit = ndi_unit item, rm_stockQty = 0, rm_reorderLevel = 0,
               rm_costPerUnit = ndi_unitCost item, rm_isSemiFinished = False, rm_deletedAt = None \<rparr>]) d1)))"

definition receive_item :: "env \<Rightarrow> auth_user \<Rightarrow> indent_row \<Rightarrow> db \<Rightarrow> indent_item_row \<Rightarrow> db" where
  "receive_item e user indent d item = (case satellite_material e user indent item d of (i, d1) \<Rightarrow>
     post_movement (stock_movement e (u_tenantId user) (in_fromOutletId indent) i TRANSFER_IN (ndi_dispatchedQty item)
         (Some (ndi_unitCost item)) (Some (''Indent receipt <- '' @ in_toOutletId indent)) None (Some ''indent'') (Some (in_id indent))
         (Some (u_id user)))
       (add_stock i (ndi_dispatchedQty item) d1))"

definition receiveIndent :: "env \<Rightarrow> auth_user \<Rightarrow> id \<Rightarrow> db \<Rightarrow> (id \<times> db) result" where
  "receiveIndent e user indentId d =
    ebind (requireIndent user indentId d) (\<lambda>indent.
    ebind (require (in_status indent = IndentDispatched) (BadRequest [Txt ''Indent has not been dispatched''])) (\<lambda>_.
    ebind (assertOutlet user (in_fromOutletId indent)) (\<lambda>_.
      Inr (in_id indent, set_indent (in_id indent) (\<lambda>x. x\<lparr>in_status := IndentReceived, in_receivedAt := Some (e_now e)\<rparr>)
             (foldl (receive_item e user indent) d (in_items indent))))))"

section \<open>E-way bills\<close>

definition generateEwayBill :: "env \<Rightarrow> (id \<Rightarrow> nat) \<Rightarrow> auth_user \<Rightarrow> id \<Rightarrow> int option \<Rightarrow> db \<Rightarrow> (eway_bill_row \<times> db) result" where
  "generateEwayBill e digest user indentId distanceKm d =
    ebind (requireIndent user indentId d) (\<lambda>indent.
    ebind (require (in_status indent = IndentDispatched \<or> in_status indent = IndentReceived)
             (BadRequest [Txt ''Dispatch the indent before generating an e-way bill''])) (\<lambda>_.
    ebind (require (row_by ew_indentId indentId (ewayBills d) = None)
             (BadRequest [Txt ''An e-way bill already exists for this indent''])) (\<lambda>_.
    ebind (some_or (row_by ou_id (in_toOutletId indent) (outlets d)) RowMissing) (\<lambda>from.
    ebind (some_or (row_by ou_id (in_fromOutletId indent) (outlets d)) RowMissing) (\<lambda>to.
      case fresh e d of (i, d1) \<Rightarrow>
      let value = round_cents (\<Sum>it\<leftarrow>in_items indent. ndi_dispatchedQty it * ndi_unitCost it);
          dist = or_else distanceKm 12;
          validDays = max 1 \<lceil>(of_int dist :: rat) / 200\<rceil>;
          ewb = \<lparr> ew_id = i, ew_tenantId = u_tenantId user, ew_indentId = indentId,
            ew_ewbNo = nat_digits (100000000000 + digest indentId mod 900000000000), ew_value = numeric_col 2 value,
            ew_fromGstin = ou_gstin from, ew_toGstin = ou_gstin to, ew_distanceKm = dist,
            ew_validUntil = e_now e + validDays * 86400000 \<rparr>
      in Inr (ewb, ewayBills_update (\<lambda>xs. xs @ [ewb]) d1))))))"


section \<open>Goods are conserved on the way\<close>

definition total_stock :: "db \<Rightarrow> num" where
  "total_stock d = (\<Sum>m\<leftarrow>rawMaterials d. rm_stockQty m)"

definition transit_of :: "indent_row \<Rightarrow> num" where
  "transit_of x = (if in_status x = IndentDispatched then \<Sum>y\<leftarrow>in_items x. ndi_dispatchedQty y else 0)"

definition in_transit :: "db \<Rightarrow> num" where
  "in_transit d = (\<Sum>x\<leftarrow>indents d. transit_of x)"

definition indent_items_ok :: "indent_item_row list \<Rightarrow> bool" where
  "indent_items_ok ys \<longleftrightarrow> distinct (map ndi_id ys) \<and> (\<forall>y \<in> set ys. decimals 3 (ndi_requestedQty y) \<and> decimals 3 (ndi_dispatchedQty y))"

definition indents_ok :: "db \<Rightarrow> bool" where
  "indents_ok d \<longleftrightarrow> distinct (map in_id (indents d)) \<and> (\<forall>x \<in> set (indents d). indent_items_ok (in_items x))"

text \<open>What a step leaves alone besides the indents.\<close>

definition same_stock_frame :: "db \<Rightarrow> db \<Rightarrow> bool" where
  "same_stock_frame d d' \<longleftrightarrow> prepRecipes d' = prepRecipes d \<and> stockCountLines d' = stockCountLines d \<and> seq d \<le> seq d'"

lemma same_stock_frame_refl [simp]: "same_stock_frame d d"
  by (simp add: same_stock_frame_def)

lemma same_stock_frame_trans: "same_stock_frame d d1 \<Longrightarrow> same_stock_frame d1 d2 \<Longrightarrow> same_stock_frame d d2"
  by (simp add: same_stock_frame_def)

lemma total_stock_row:
  assumes "stock_ok d" and "row_by rm_id i (rawMaterials d) = Some r" and "rm_stockQty (f r) = rm_stockQty r + q"
  shows "(\<Sum>m\<leftarrow>set_row rm_id i f (rawMaterials d). rm_stockQty m) = total_stock d + q"
  using sum_list_set_row [OF stock_okD(1) [OF assms(1)] assms(2), of rm_stockQty f] assms(3) by (simp add: total_stock_def)

lemma stock_col_add:
  assumes "stock_ok d" and "row_by rm_id i (rawMaterials d) = Some r" and "decimals 3 q"
  shows "numeric_col 3 (rm_stockQty r + q) = rm_stockQty r + q" "numeric_col 3 (rm_stockQty r - q) = rm_stockQty r - q"
  using stock_okD(2) [OF assms(1)] row_by_Some [OF assms(2)] assms(3) by (auto intro: numeric_col_exact decimals_add decimals_diff)

lemma dispatch_item_effect:
  assumes "dispatch_item e user indent item d = Inr d'" and ok: "stock_ok d" and q: "decimals 3 (ndi_requestedQty item)"
  shows "stock_ok d' \<and> total_stock d' = total_stock d - ndi_requestedQty item \<and> same_stock_frame d d' \<and> seq d' = seq d
    \<and> rm_id ` set (rawMaterials d') = rm_id ` set (rawMaterials d)
    \<and> indents d' = set_row in_id (in_id indent)
        (\<lambda>x. x\<lparr>in_items := set_row ndi_id (ndi_id item) (\<lambda>y. y\<lparr>ndi_dispatchedQty := ndi_requestedQty item\<rparr>) (in_items x)\<rparr>) (indents d)"
proof -
  from assms(1) obtain r m where r: "row_by rm_id (ndi_rawMaterialId item) (rawMaterials d) = Some r"
    and m: "sm_rawMaterialId m = ndi_rawMaterialId item" "sm_quantity m = numeric_col 3 (- ndi_requestedQty item)"
    and d': "d' = set_indent (in_id indent) (\<lambda>x. x\<lparr>in_items := set_row ndi_id (ndi_id item) (\<lambda>y. y\<lparr>ndi_dispatchedQty := ndi_requestedQty item\<rparr>) (in_items x)\<rparr>)
      (post_movement m (take_stock (ndi_rawMaterialId item) (ndi_requestedQty item) d))"
    unfolding dispatch_item_def material_row_def guard_simps sum.inject by (elim exE conjE) (rule that [rotated 3], erule sym, simp_all)
  have "stock_ok d' \<longleftrightarrow> stock_ok (post_movement m (take_stock (ndi_rawMaterialId item) (ndi_requestedQty item) d))"
    by (rule stock_ok_cong) (simp_all add: d' set_indent_def)
  then show ?thesis using take_stock_ok [OF ok r q m] total_stock_row [OF ok r, of _ "- ndi_requestedQty item"] stock_col_add [OF ok r q]
    by (simp add: d' set_indent_def post_movement_def take_stock_def same_stock_frame_def image_key_set_row total_stock_def)
qed

definition mark_items :: "indent_item_row list \<Rightarrow> indent_item_row list \<Rightarrow> indent_item_row list" where
  "mark_items zs ys = foldl (\<lambda>ys z. set_row ndi_id (ndi_id z) (\<lambda>y. y\<lparr>ndi_dispatchedQty := ndi_requestedQty z\<rparr>) ys) ys zs"

lemma dispatch_loop_effect:
  assumes "efold (dispatch_item e user indent) zs d = Inr d'" and "stock_ok d" and "\<forall>z \<in> set zs. decimals 3 (ndi_requestedQty z)"
  shows "stock_ok d' \<and> total_stock d' = total_stock d - (\<Sum>z\<leftarrow>zs. ndi_requestedQty z) \<and> same_stock_frame d d' \<and> seq d' = seq d
    \<and> rm_id ` set (rawMaterials d') = rm_id ` set (rawMaterials d)
    \<and> indents d' = set_row in_id (in_id indent) (\<lambda>x. x\<lparr>in_items := mark_items zs (in_items x)\<rparr>) (indents d)"
  using assms
proof (induction zs arbitrary: d)
  case Nil
  have "set_row in_id i (\<lambda>x. x\<lparr>in_items := in_items x\<rparr>) xs = xs" for i and xs :: "indent_row list"
    unfolding set_row_def update_where_def by (intro map_idI) simp
  then show ?case using Nil by (simp add: mark_items_def)
next
  case (Cons z zs)
  from Cons.prems(1) obtain d1 where 1: "dispatch_item e user indent z d = Inr d1" and 2: "efold (dispatch_item e user indent) zs d1 = Inr d'"
    by (auto simp: guard_simps)
  have z: "decimals 3 (ndi_requestedQty z)" "\<forall>z \<in> set zs. decimals 3 (ndi_requestedQty z)" using Cons.prems(3) by simp_all
  note s1 = dispatch_item_effect [OF 1 Cons.prems(2) z(1)]
  note s2 = Cons.IH [OF 2 _ z(2)]
  have "set_row in_id i (\<lambda>x. x\<lparr>in_items := mark_items zs (in_items x)\<rparr>) (set_row in_id i
      (\<lambda>x. x\<lparr>in_items := set_row ndi_id (ndi_id z) (\<lambda>y. y\<lparr>ndi_dispatchedQty := ndi_requestedQty z\<rparr>) (in_items x)\<rparr>) xs)
    = set_row in_id i (\<lambda>x. x\<lparr>in_items := mark_items (z # zs) (in_items x)\<rparr>) xs" for i and xs :: "indent_row list"
    by (auto simp: set_row_def update_where_def mark_items_def)
  then show ?case using s1 s2 same_stock_frame_trans [of d d1 d'] by simp
qed

lemma mark_items_all:
  assumes "distinct (map ndi_id ys)"
  shows "mark_items ys ys = map (\<lambda>y. y\<lparr>ndi_dispatchedQty := ndi_requestedQty y\<rparr>) ys"
proof -
  let ?g = "\<lambda>A y. if ndi_id y \<in> A then y\<lparr>ndi_dispatchedQty := ndi_requestedQty y\<rparr> else y"
  have same: "y = z" if "y \<in> set ys" "z \<in> set ys" "ndi_id y = ndi_id z" for y z
    using assms that by (auto simp: distinct_map dest: inj_onD)
  have "mark_items zs (map (?g A) ys) = map (?g (A \<union> ndi_id ` set zs)) ys" if "set zs \<subseteq> set ys" for zs A
    using that
  proof (induction zs arbitrary: A)
    case (Cons z zs)
    have "set_row ndi_id (ndi_id z) (\<lambda>y. y\<lparr>ndi_dispatchedQty := ndi_requestedQty z\<rparr>) (map (?g A) ys) = map (?g (insert (ndi_id z) A)) ys"
      using same [of _ z] Cons.prems by (auto simp: set_row_def update_where_def)
    then show ?case using Cons.IH [of "insert (ndi_id z) A"] Cons.prems by (simp add: mark_items_def)
  qed (simp add: mark_items_def)
  from this [of ys "{}"] show ?thesis by (simp cong: map_cong)
qed

lemma dispatch_effect:
  assumes run: "dispatch e user indentId d = Inr (i, d')" and ok: "stock_ok d" "indents_ok d"
  shows "stock_ok d'" "indents_ok d'" "same_stock_frame d d'" "rm_id ` set (rawMaterials d') = rm_id ` set (rawMaterials d)"
    "total_stock d' + in_transit d' = total_stock d + in_transit d"
proof -
  from run obtain x d1 where c: "dispatch_check user indentId d = Inr x" and loop: "efold (dispatch_item e user x) (in_items x) d = Inr d1"
    and d': "d' = set_indent (in_id x) (\<lambda>x. x\<lparr>in_status := IndentDispatched, in_dispatchedAt := Some (e_now e)\<rparr>) d1"
    unfolding dispatch_def dispatch_write_def guard_simps sum.inject prod.inject by blast
  from c have x: "x \<in> set (indents d)" "in_status x = IndentDraft"
    unfolding dispatch_check_def requireIndent_def guard_simps by (auto dest: find_SomeD)
  have items: "indent_items_ok (in_items x)" using ok(2) x by (simp add: indents_ok_def)
  then have "\<forall>z \<in> set (in_items x). decimals 3 (ndi_requestedQty z)" by (simp add: indent_items_ok_def)
  note s = dispatch_loop_effect [OF loop ok(1) this]
  let ?f = "\<lambda>y. y\<lparr>in_items := mark_items (in_items x) (in_items y), in_status := IndentDispatched, in_dispatchedAt := Some (e_now e)\<rparr>"
  have ind: "indents d' = set_row in_id (in_id x) ?f (indents d)"
    using s by (auto simp: d' set_indent_def set_row_def update_where_def)
  have dist: "distinct (map in_id (indents d))" using ok(2) by (simp add: indents_ok_def)
  note row = row_by_distinct [OF dist x(1)]
  have m: "mark_items (in_items x) (in_items x) = map (\<lambda>y. y\<lparr>ndi_dispatchedQty := ndi_requestedQty y\<rparr>) (in_items x)"
    using items by (intro mark_items_all) (simp add: indent_items_ok_def)
  have "in_transit d' = in_transit d - transit_of x + transit_of (?f x)"
    unfolding in_transit_def ind by (rule sum_list_set_row [OF dist row])
  then have "in_transit d' = in_transit d + (\<Sum>z\<leftarrow>in_items x. ndi_requestedQty z)" using x(2) by (simp add: transit_of_def m comp_def)
  then show "total_stock d' + in_transit d' = total_stock d + in_transit d" using s by (simp add: d' set_indent_def total_stock_def)
  have "stock_ok d' \<longleftrightarrow> stock_ok d1" by (rule stock_ok_cong) (simp_all add: d' set_indent_def)
  then show "stock_ok d'" "same_stock_frame d d'" "rm_id ` set (rawMaterials d') = rm_id ` set (rawMaterials d)"
    using s by (simp_all add: d' set_indent_def same_stock_frame_def)
  have only: "y = x" if "y \<in> set (indents d)" "in_id y = in_id x" for y
    using that x(1) dist by (auto simp: distinct_map dest: inj_onD)
  have "indent_items_ok (in_items y)" if "y \<in> set (indents d')" for y
    using that unfolding ind
  proof (cases rule: set_row_memberE)
    case (1 r)
    then show ?thesis using only [of r] items m by (simp add: indent_items_ok_def comp_def)
  next
    case 2
    then show ?thesis using ok(2) by (simp add: indents_ok_def)
  qed
  then show "indents_ok d'" using dist map_key_set_row [of in_id ?f "in_id x" "indents d"] by (simp add: indents_ok_def ind)
qed


lemma satellite_effect:
  assumes run: "satellite_material e user indent item d = (i, d1)" and inv: "stock_inv (e_cuid e) d" and src: "inj (e_cuid e)"
  obtains r where "row_by rm_id i (rawMaterials d1) = Some r" and "stock_inv (e_cuid e) d1" and "total_stock d1 = total_stock d"
    and "same_stock_frame d d1" and "indents d1 = indents d"
proof (cases "List.find (\<lambda>m. rm_outletId m = in_fromOutletId indent \<and> rm_name m = ndi_materialName item \<and> rm_deletedAt m = None) (rawMaterials d)")
  case (Some r)
  then have "i = rm_id r" "d1 = d" using run by (simp_all add: satellite_material_def)
  moreover have "row_by rm_id (rm_id r) (rawMaterials d) = Some r"
    using row_by_distinct [of rm_id "rawMaterials d" r] Some inv by (auto simp: stock_inv_def dest!: stock_okD(1) find_SomeD)
  ultimately show ?thesis using that inv by simp
next
  case None
  obtain r :: raw_material_row where r: "i = e_cuid e (seq d)" "d1 = rawMaterials_update (\<lambda>ms. ms @ [r]) (d\<lparr>seq := seq d + 1\<rparr>)"
    "rm_id r = i" "rm_stockQty r = 0"
    using run unfolding satellite_material_def None option.case fresh_def prod.case prod.inject
    by (elim conjE) (rule that, erule sym, erule sym, simp_all)
  have new: "i \<notin> rm_id ` set (rawMaterials d)" using stock_inv_fresh [OF src inv] r by simp
  have b: "stock.balanced (d\<lparr>seq := seq d + 1\<rparr>)" using inv by (simp add: stock_inv_def stock_ok_def)
  have "stock.balanced d1" using stock.balanced_open_empty [OF b, of r] new r by simp
  then have "stock_inv (e_cuid e) d1" using inv r
    by (auto simp: stock_inv_def stock_ok_def stock_columns_def prep_ok_def dest!: subsetD)
  moreover have "row_by rm_id i (rawMaterials d1) = Some r" using new [folded row_by_None] r by (simp add: row_by_append)
  ultimately show ?thesis using that r by (simp add: total_stock_def same_stock_frame_def)
qed

lemma receive_item_effect:
  assumes inv: "stock_inv (e_cuid e) d" and src: "inj (e_cuid e)" and q: "decimals 3 (ndi_dispatchedQty item)"
  shows "stock_inv (e_cuid e) (receive_item e user indent d item)
    \<and> total_stock (receive_item e user indent d item) = total_stock d + ndi_dispatchedQty item
    \<and> same_stock_frame d (receive_item e user indent d item) \<and> indents (receive_item e user indent d item) = indents d"
proof -
  obtain i d1 where m: "satellite_material e user indent item d = (i, d1)" by (cases "satellite_material e user indent item d")
  obtain r where r: "row_by rm_id i (rawMaterials d1) = Some r" and 1: "stock_inv (e_cuid e) d1" "total_stock d1 = total_stock d"
    "same_stock_frame d d1" "indents d1 = indents d" by (rule satellite_effect [OF m inv src])
  have ok: "stock_ok d1" using 1 by (simp add: stock_inv_def)
  define x where "x = stock_movement e (u_tenantId user) (in_fromOutletId indent) i TRANSFER_IN (ndi_dispatchedQty item)
         (Some (ndi_unitCost item)) (Some (''Indent receipt <- '' @ in_toOutletId indent)) None (Some ''indent'') (Some (in_id indent))
         (Some (u_id user))"
  have e: "receive_item e user indent d item = post_movement x (add_stock i (ndi_dispatchedQty item) d1)"
    by (simp add: receive_item_def m x_def)
  have "stock_ok (receive_item e user indent d item)" unfolding e by (rule add_stock_ok [OF ok r q]) (simp_all add: x_def)
  then have "stock_inv (e_cuid e) (receive_item e user indent d item)"
    using stock_inv_keep [OF 1(1)] by (simp add: e post_movement_def add_stock_def image_key_set_row)
  then show ?thesis using 1 total_stock_row [OF ok r, of _ "ndi_dispatchedQty item"] stock_col_add [OF ok r q]
    by (simp add: e post_movement_def add_stock_def same_stock_frame_def total_stock_def)
qed

lemma receive_loop_effect:
  assumes "stock_inv (e_cuid e) d" and "inj (e_cuid e)" and "\<forall>y \<in> set ys. decimals 3 (ndi_dispatchedQty y)"
  shows "stock_inv (e_cuid e) (foldl (receive_item e user indent) d ys)
    \<and> total_stock (foldl (receive_item e user indent) d ys) = total_stock d + (\<Sum>y\<leftarrow>ys. ndi_dispatchedQty y)
    \<and> same_stock_frame d (foldl (receive_item e user indent) d ys) \<and> indents (foldl (receive_item e user indent) d ys) = indents d"
  using assms
proof (induction ys arbitrary: d)
  case (Cons y ys)
  have "decimals 3 (ndi_dispatchedQty y)" "\<forall>y \<in> set ys. decimals 3 (ndi_dispatchedQty y)" using Cons.prems(3) by simp_all
  with receive_item_effect [OF Cons.prems(1,2), of y user indent] Cons.IH [of "receive_item e user indent d y"] Cons.prems(2)
  show ?case using same_stock_frame_trans [of d "receive_item e user indent d y"] by (simp add: add.assoc)
qed simp

lemma receiveIndent_effect:
  assumes run: "receiveIndent e user indentId d = Inr (i, d')" and inv: "stock_inv (e_cuid e) d" "indents_ok d" and src: "inj (e_cuid e)"
  shows "stock_inv (e_cuid e) d'" "indents_ok d'" "same_stock_frame d d'" "total_stock d' + in_transit d' = total_stock d + in_transit d"
proof -
  let ?f = "\<lambda>x. x\<lparr>in_status := IndentReceived, in_receivedAt := Some (e_now e)\<rparr>"
  from run obtain x where c: "requireIndent user indentId d = Inr x" "in_status x = IndentDispatched"
    and d': "d' = set_indent (in_id x) ?f (foldl (receive_item e user x) d (in_items x))"
    unfolding receiveIndent_def guard_simps sum.inject prod.inject by blast
  from c have x: "x \<in> set (indents d)" unfolding requireIndent_def guard_simps by (auto dest: find_SomeD)
  have dist: "distinct (map in_id (indents d))" using inv by (simp add: indents_ok_def)
  have "\<forall>y \<in> set (in_items x). decimals 3 (ndi_dispatchedQty y)" using inv x by (auto simp: indents_ok_def indent_items_ok_def)
  note s = receive_loop_effect [OF inv(1) src this, of user x]
  have ind: "indents d' = set_row in_id (in_id x) ?f (indents d)" using s by (simp add: d' set_indent_def)
  have "in_transit d' = in_transit d - transit_of x + transit_of (?f x)"
    unfolding in_transit_def ind by (rule sum_list_set_row [OF dist row_by_distinct [OF dist x]])
  then show "total_stock d' + in_transit d' = total_stock d + in_transit d"
    using s c(2) by (simp add: d' set_indent_def total_stock_def transit_of_def)
  show "stock_inv (e_cuid e) d'" using s
    by (simp add: d' set_indent_def stock_inv_def prep_ok_def stock_ok_def stock_columns_def)
  show "same_stock_frame d d'" using s by (simp add: d' set_indent_def same_stock_frame_def)
  have "indent_items_ok (in_items y)" if "y \<in> set (indents d')" for y
    using that unfolding ind by (cases rule: set_row_memberE) (use inv in \<open>auto simp: indents_ok_def\<close>)
  then show "indents_ok d'" using dist map_key_set_row [of in_id ?f "in_id x" "indents d"] by (simp add: indents_ok_def ind)
qed


section \<open>The invariant of the indents\<close>

definition indent_inv :: "(nat \<Rightarrow> id) \<Rightarrow> db \<Rightarrow> bool" where
  "indent_inv src d \<longleftrightarrow> indents_ok d \<and> in_id ` set (indents d) \<subseteq> src ` {..<seq d}"

lemma indent_inv_keep:
  "indent_inv src d \<Longrightarrow> indents d' = indents d \<Longrightarrow> seq d \<le> seq d' \<Longrightarrow> indent_inv src d'"
  by (auto simp: indent_inv_def indents_ok_def dest!: subsetD)

lemma indent_items_effect:
  assumes "efold (indent_item e c) reqs (rows, d) = Inr (rows', d')" and "inj (e_cuid e)" and "indent_items_ok rows"
    and "ndi_id ` set rows \<subseteq> e_cuid e ` {..<seq d}"
  shows "indent_items_ok rows' \<and> (\<exists>n. seq d \<le> n \<and> d' = d\<lparr>seq := n\<rparr>)"
proof -
  have "indent_items_ok (fst s) \<and> ndi_id ` set (fst s) \<subseteq> e_cuid e ` {..<seq (snd s)} \<and> (\<exists>n. seq d \<le> n \<and> snd s = d\<lparr>seq := n\<rparr>)"
    if "efold (indent_item e c) reqs (rows, d) = Inr s" for s
    using that
  proof (rule efold_invariant)
    show "indent_items_ok (fst (rows, d)) \<and> ndi_id ` set (fst (rows, d)) \<subseteq> e_cuid e ` {..<seq (snd (rows, d))}
      \<and> (\<exists>n. seq d \<le> n \<and> snd (rows, d) = d\<lparr>seq := n\<rparr>)" using assms(3,4) by (auto intro!: exI [of _ "seq d"])
    fix x s t assume s: "indent_items_ok (fst s) \<and> ndi_id ` set (fst s) \<subseteq> e_cuid e ` {..<seq (snd s)} \<and> (\<exists>n. seq d \<le> n \<and> snd s = d\<lparr>seq := n\<rparr>)"
      and "indent_item e c x s = Inr t"
    then obtain y :: indent_item_row where y: "t = (fst s @ [y], (snd s)\<lparr>seq := seq (snd s) + 1\<rparr>)" "ndi_id y = e_cuid e (seq (snd s))"
      "decimals 3 (ndi_requestedQty y)" "ndi_dispatchedQty y = 0"
      unfolding indent_item_def case_prod_beta guard_simps fresh_def prod.case fst_conv snd_conv sum.inject
      by (elim exE conjE) (rule that, erule sym, simp_all)
    have "ndi_id y \<notin> ndi_id ` set (fst s)" using s y(2) assms(2) by (auto dest!: inj_onD subsetD)
    then have "indent_items_ok (fst t)" using s y by (auto simp: indent_items_ok_def)
    moreover have "ndi_id ` set (fst t) \<subseteq> e_cuid e ` {..<seq (snd t)}"
      using s y by (simp add: lessThan_Suc) (metis subset_insertI2)
    moreover obtain n where "seq d \<le> n" "snd s = d\<lparr>seq := n\<rparr>" using s by blast
    then have "\<exists>n. seq d \<le> n \<and> snd t = d\<lparr>seq := n\<rparr>" using y by (intro exI [of _ "n + 1"]) simp
    ultimately show "indent_items_ok (fst t) \<and> ndi_id ` set (fst t) \<subseteq> e_cuid e ` {..<seq (snd t)} \<and> (\<exists>n. seq d \<le> n \<and> snd t = d\<lparr>seq := n\<rparr>)"
      by blast
  qed
  from this [OF assms(1)] show ?thesis by simp
qed

lemma createIndent_inv:
  assumes run: "createIndent e user outletId input d = Inr (i, d')" and inv: "indent_inv (e_cuid e) d" and src: "inj (e_cuid e)"
  shows "indent_inv (e_cuid e) d' \<and> (\<exists>n xs. seq d \<le> n \<and> d' = d\<lparr>seq := n, indents := xs\<rparr>)"
proof -
  from run obtain c p and x :: indent_row where p: "efold (indent_item e c) (iq_items input) ([], d) = Inr p"
    and d'p: "d' = indents_update (\<lambda>xs. xs @ [x]) ((snd p)\<lparr>seq := seq (snd p) + 1\<rparr>)"
    and xp: "in_id x = e_cuid e (seq (snd p))" "in_items x = fst p"
    unfolding createIndent_def guard_simps case_prod_beta fresh_def fst_conv snd_conv sum.inject prod.inject
    by (elim exE conjE) (rule that, assumption, erule sym, simp_all)
  obtain rows d1 where "p = (rows, d1)" by (cases p)
  note l = p [unfolded this] and d' = d'p [unfolded this snd_conv] and x = xp [unfolded this fst_conv snd_conv]
  obtain n where n: "indent_items_ok rows" "seq d \<le> n" "d1 = d\<lparr>seq := n\<rparr>"
    using indent_items_effect [OF l src] by (auto simp: indent_items_ok_def)
  have "in_id x \<notin> in_id ` set (indents d)" using inv src n x(1) by (auto simp: indent_inv_def dest!: inj_onD subsetD)
  then have "indent_inv (e_cuid e) d'" using inv n x by (auto simp: indent_inv_def indents_ok_def d' dest!: subsetD)
  then show ?thesis using n by (auto simp: d' intro!: exI [of _ "n + 1"] exI [of _ "indents d @ [x]"])
qed


section \<open>A dispatch, and two at once\<close>

definition indent0 :: indent_row where
  "indent0 = \<lparr> in_id = ''n'', in_tenantId = ''t'', in_fromOutletId = ''s'', in_toOutletId = ''k'', in_status = IndentDraft,
     in_note = None, in_createdAt = 0, in_dispatchedAt = None, in_receivedAt = None,
     in_items = [\<lparr> ndi_id = ''y'', ndi_rawMaterialId = [], ndi_materialName = ''Lentils'', ndi_unit = UnitKG, ndi_requestedQty = 4,
       ndi_dispatchedQty = 0, ndi_unitCost = 90 \<rparr>] \<rparr>"

definition depot0 :: db where
  "depot0 = db0\<lparr> seq := 1, rawMaterials := [material0\<lparr>rm_id := []\<rparr>], indents := [indent0],
     stockMovements := [stock_movement env0 ''t'' ''k'' [] RECEIPT 10 None None None None None None] \<rparr>"

lemma inj_ids0: "inj (e_cuid env0)"
  by (simp add: env0_def inj_unary)

lemma depot0_ok: "stock_inv (e_cuid env0) depot0" "indents_ok depot0"
  by (simp_all add: stock_inv_def stock_ok_def depot0_def stock_columns_def ledger_balanced_def material0_def numeric_col_exact
      entry_sum_def prep_ok_def db0_def env0_def indents_ok_def indent_items_ok_def indent0_def)

lemma dispatch_depot0: "\<exists>d'. dispatch env0 storekeeper0 ''n'' depot0 = Inr (''n'', d')"
  by (simp add: dispatch_def dispatch_check_def requireIndent_def dispatch_write_def dispatch_item_def inventory_defs depot0_def
      indent0_def)


text \<open>\<open>dispatch\<close> checks the status before its transaction: two calls that both read the draft indent both take its goods
  from the stock, four units leave the central kitchen unaccounted for, and only one lot arrives.\<close>

theorem dispatch_twice:
  "\<exists>x d1 d2. dispatch_check storekeeper0 ''n'' depot0 = Inr x \<and> dispatch_write env0 storekeeper0 x depot0 = Inr d1
     \<and> dispatch_write env0 storekeeper0 x d1 = Inr d2
     \<and> total_stock depot0 + in_transit depot0 = 10 \<and> total_stock d2 + in_transit d2 = 6"
  by (simp add: dispatch_check_def requireIndent_def dispatch_write_def dispatch_item_def set_indent_def total_stock_def
      in_transit_def transit_of_def inventory_defs depot0_def indent0_def)

end
