(* ===== verification/Purchasing.thy ===== *)
theory Purchasing
  imports Stocktake
begin

text \<open>
  Purchase orders: the unit table, the order state machine and the line arithmetic of \<open>packages/shared/src/procurement.ts\<close>,
  and the service \<open>apps/api/src/procurement/purchase-orders.service.ts\<close> that creates, edits and moves orders and receives
  goods against them into the stock through the receipt of the inventory service.
\<close>

section \<open>Units\<close>

definition unitFactor :: "material_unit \<Rightarrow> material_unit \<Rightarrow> num option" where
  "unitFactor from to = (if from = to then Some 1 else (case (from, to) of
     (UnitKG, UnitG) \<Rightarrow> Some 1000 | (UnitG, UnitKG) \<Rightarrow> Some (1/1000)
   | (UnitL, UnitML) \<Rightarrow> Some 1000 | (UnitML, UnitL) \<Rightarrow> Some (1/1000) | _ \<Rightarrow> None))"

definition purchaseUnitsFor :: "material_unit \<Rightarrow> material_unit list" where
  "purchaseUnitsFor unit = filter (\<lambda>u. unitFactor u unit \<noteq> None) [UnitKG, UnitG, UnitL, UnitML, UnitPCS]"

section \<open>The state machine\<close>

datatype po_action = Approve | Send | Cancel | Close

fun PO_TRANSITIONS :: "po_action \<Rightarrow> po_status list \<times> po_status" where
  "PO_TRANSITIONS Approve = ([PoDraft], PoApproved)"
| "PO_TRANSITIONS Send = ([PoApproved], PoSent)"
| "PO_TRANSITIONS Cancel = ([PoDraft, PoApproved, PoSent], PoCancelled)"
| "PO_TRANSITIONS Close = ([PoPartiallyReceived, PoReceived], PoClosed)"

definition nextPoStatus :: "po_status \<Rightarrow> po_action \<Rightarrow> po_status option" where
  "nextPoStatus status action = (case PO_TRANSITIONS action of (from, to) \<Rightarrow> if status \<in> set from then Some to else None)"

definition poActionsFor :: "po_status \<Rightarrow> po_action list" where
  "poActionsFor status = filter (\<lambda>a. nextPoStatus status a \<noteq> None) [Approve, Send, Cancel, Close]"

definition canReceivePo :: "po_status \<Rightarrow> bool" where
  "canReceivePo status \<longleftrightarrow> status = PoApproved \<or> status = PoSent \<or> status = PoPartiallyReceived"

definition canEditPo :: "po_status \<Rightarrow> bool" where
  "canEditPo status \<longleftrightarrow> status = PoDraft"

text \<open>A line as its ordered and received quantity.\<close>

definition statusAfterReceipt :: "(num \<times> num) list \<Rightarrow> po_status" where
  "statusAfterReceipt lines =
    (if \<forall>(ordered, received) \<in> set lines. received + 1 / 10 ^ 9 \<ge> ordered then PoReceived else PoPartiallyReceived)"

definition maxReceivable :: "num \<Rightarrow> num \<Rightarrow> num \<Rightarrow> num" where
  "maxReceivable orderedQty receivedQty tolerancePct = max 0 (round3 (orderedQty * (1 + tolerancePct / 100) - receivedQty))"

definition lineAmountsPaise :: "num \<Rightarrow> num \<Rightarrow> num \<Rightarrow> int \<times> int" where
  "lineAmountsPaise qty rate taxRatePct =
    (let basePaise = js_round (qty * rate * 100) in (basePaise, js_round (of_int basePaise * taxRatePct / 100)))"

record price_variance =
  pv_perUnit :: num
  pv_amount :: num
  pv_pct :: "num option"

definition priceVariance :: "num \<Rightarrow> num \<Rightarrow> num \<Rightarrow> price_variance" where
  "priceVariance poRate actualRate qty =
    (let perUnit = actualRate - poRate
     in \<lparr> pv_perUnit = round4 perUnit, pv_amount = of_int (js_round (perUnit * qty * 100)) / 100,
          pv_pct = (if poRate > 0 then Some (of_int (js_round (perUnit / poRate * 1000)) / 10) else None) \<rparr>)"

section \<open>Settings and vendors\<close>

record procurement_settings =
  ps_overReceiptPct :: num
  ps_priceVarianceAlertPct :: num
  ps_coverDays :: int
  ps_leadDays :: int
  ps_lookbackDays :: int

definition settings_row_of :: "auth_user \<Rightarrow> id \<Rightarrow> db \<Rightarrow> procurement_settings_row option" where
  "settings_row_of user outletId d =
    List.find (\<lambda>s. pse_tenantId s = u_tenantId user \<and> pse_outletId s = outletId) (procurementSettings d)"

definition getSettings :: "auth_user \<Rightarrow> id \<Rightarrow> db \<Rightarrow> procurement_settings result" where
  "getSettings user outletId d =
    ebind (assertOutlet user outletId) (\<lambda>_.
      let s = settings_row_of user outletId d
      in Inr \<lparr> ps_overReceiptPct = or_else (map_option pse_overReceiptPct s) 0,
               ps_priceVarianceAlertPct = or_else (map_option pse_priceVarianceAlertPct s) 5,
               ps_coverDays = or_else (map_option pse_coverDays s) 3, ps_leadDays = or_else (map_option pse_leadDays s) 1,
               ps_lookbackDays = or_else (map_option pse_lookbackDays s) 28 \<rparr>)"

definition settings_row :: "auth_user \<Rightarrow> id \<Rightarrow> procurement_settings \<Rightarrow> procurement_settings_row" where
  "settings_row user outletId s = \<lparr> pse_tenantId = u_tenantId user, pse_outletId = outletId,
     pse_overReceiptPct = numeric_col 2 (ps_overReceiptPct s), pse_priceVarianceAlertPct = numeric_col 2 (ps_priceVarianceAlertPct s),
     pse_coverDays = ps_coverDays s, pse_leadDays = ps_leadDays s, pse_lookbackDays = ps_lookbackDays s \<rparr>"

text \<open>The outlet of a settings row is unique, whatever its tenant.\<close>

definition saveSettings :: "auth_user \<Rightarrow> id \<Rightarrow> procurement_settings \<Rightarrow> db \<Rightarrow> (procurement_settings \<times> db) result" where
  "saveSettings user outletId input d =
    ebind (assertOutlet user outletId) (\<lambda>_.
    ebind (case settings_row_of user outletId d of
             Some old \<Rightarrow> Inr (procurementSettings_update (set_row pse_outletId outletId (\<lambda>_. settings_row user outletId input)) d)
           | None \<Rightarrow> ebind (require (row_by pse_outletId outletId (procurementSettings d) = None) UniqueViolation) (\<lambda>_.
                 Inr (procurementSettings_update (\<lambda>ss. ss @ [settings_row user outletId input]) d))) (\<lambda>d1.
    ebind (getSettings user outletId d1) (\<lambda>s. Inr (s, d1))))"

record vendor_profile =
  vp_name :: string
  vp_phone :: "string option"
  vp_email :: "string option"
  vp_gstin :: "string option"
  vp_address :: "string option"
  vp_paymentTermsDays :: "int option"

definition vendorData :: "vendor_profile \<Rightarrow> vendor_row \<Rightarrow> vendor_row" where
  "vendorData input v = v\<lparr> ve_name := vp_name input, ve_phone := vp_phone input, ve_email := vp_email input,
     ve_gstin := (if truthy (vp_gstin input) then map_option (map upper) (vp_gstin input) else None), ve_address := vp_address input,
     ve_paymentTermsDays := vp_paymentTermsDays input \<rparr>"

definition createVendorProfile :: "env \<Rightarrow> auth_user \<Rightarrow> id \<Rightarrow> vendor_profile \<Rightarrow> db \<Rightarrow> (id \<times> db) result" where
  "createVendorProfile e user outletId input d =
    ebind (assertOutlet user outletId) (\<lambda>_.
      case fresh e d of (i, d1) \<Rightarrow>
      Inr (i, vendors_update (\<lambda>vs. vs @ [vendorData input \<lparr> ve_id = i, ve_tenantId = u_tenantId user, ve_outletId = outletId,
           ve_name = [], ve_phone = None, ve_deletedAt = None, ve_email = None, ve_gstin = None, ve_address = None,
           ve_paymentTermsDays = None \<rparr>]) d1))"

definition requireVendor :: "auth_user \<Rightarrow> id \<Rightarrow> id \<Rightarrow> db \<Rightarrow> vendor_row result" where
  "requireVendor user outletId vendorId d =
    ebind (assertOutlet user outletId) (\<lambda>_.
      some_or (List.find (\<lambda>v. ve_id v = vendorId \<and> ve_tenantId v = u_tenantId user \<and> ve_outletId v = outletId \<and> ve_deletedAt v = None) (vendors d))
        (BadRequest [Txt ''Vendor not found in this outlet'']))"

definition updateVendor :: "auth_user \<Rightarrow> id \<Rightarrow> id \<Rightarrow> vendor_profile \<Rightarrow> db \<Rightarrow> (id \<times> db) result" where
  "updateVendor user outletId vendorId input d =
    ebind (requireVendor user outletId vendorId d) (\<lambda>_.
      Inr (vendorId, vendors_update (set_row ve_id vendorId (vendorData input)) d))"


section \<open>Orders\<close>

record po_line_input =
  pli_rawMaterialId :: id
  pli_quantity :: num
  pli_unit :: "material_unit option"
  pli_rate :: num
  pli_taxRate :: "num option"

record po_input =
  pin_vendorId :: id
  pin_expectedDate :: "date option"
  pin_note :: "string option"
  pin_lines :: "po_line_input list"

text \<open>Fields a partial update may leave out; a nullable field may also be set to null.\<close>

record po_update =
  pup_vendorId :: "id option"
  pup_expectedDate :: "date option option"
  pup_note :: "string option option"
  pup_lines :: "po_line_input list option"

record resolved_line =
  rl_rawMaterialId :: id
  rl_materialName :: string
  rl_unit :: material_unit
  rl_unitFactor :: num
  rl_orderedQty :: num
  rl_rate :: num
  rl_taxRate :: num
  rl_sortOrder :: int

fun po_status_name :: "po_status \<Rightarrow> string" where
  "po_status_name PoDraft = ''DRAFT''"
| "po_status_name PoApproved = ''APPROVED''"
| "po_status_name PoSent = ''SENT''"
| "po_status_name PoPartiallyReceived = ''PARTIALLY_RECEIVED''"
| "po_status_name PoReceived = ''RECEIVED''"
| "po_status_name PoClosed = ''CLOSED''"
| "po_status_name PoCancelled = ''CANCELLED''"

text \<open>\<open>status.toLowerCase().replace("_", " ")\<close>.\<close>

definition po_status_text :: "po_status \<Rightarrow> string" where
  "po_status_text s = map (\<lambda>c. if c = CHR ''_'' then CHR '' '' else lower c) (po_status_name s)"

fun po_action_name :: "po_action \<Rightarrow> string" where
  "po_action_name Approve = ''approve''"
| "po_action_name Send = ''send''"
| "po_action_name Cancel = ''cancel''"
| "po_action_name Close = ''close''"

definition resolve_line :: "auth_user \<Rightarrow> id \<Rightarrow> db \<Rightarrow> nat \<times> po_line_input \<Rightarrow> resolved_line result" where
  "resolve_line user outletId d = (\<lambda>(i, l).
    ebind (some_or (List.find (\<lambda>m. rm_id m = pli_rawMaterialId l \<and> rm_tenantId m = u_tenantId user \<and> rm_outletId m = outletId
              \<and> rm_deletedAt m = None) (rawMaterials d)) (BadRequest [Txt ''Unknown material on PO line''])) (\<lambda>m.
      let unit = or_else (pli_unit l) (rm_unit m)
      in ebind (some_or (unitFactor unit (rm_unit m))
           (BadRequest [Txt (rm_name m @ '' is stocked in '' @ unit_name (rm_unit m) @ ''; it can't be bought in '' @ unit_name unit)])) (\<lambda>factor.
         Inr \<lparr> rl_rawMaterialId = rm_id m, rl_materialName = rm_name m, rl_unit = unit, rl_unitFactor = factor,
               rl_orderedQty = pli_quantity l, rl_rate = pli_rate l, rl_taxRate = or_else (pli_taxRate l) 0, rl_sortOrder = int i \<rparr>)))"

definition resolveLines :: "auth_user \<Rightarrow> id \<Rightarrow> po_line_input list \<Rightarrow> db \<Rightarrow> resolved_line list result" where
  "resolveLines user outletId input d = emap (resolve_line user outletId d) (enumerate 0 input)"

text \<open>Base and tax of the lines, in paise.\<close>

definition totals :: "resolved_line list \<Rightarrow> int \<times> int" where
  "totals ls = foldl (\<lambda>(base, tax) l. case lineAmountsPaise (rl_orderedQty l) (rl_rate l) (rl_taxRate l) of
      (b, t) \<Rightarrow> (base + b, tax + t)) (0, 0) ls"

definition add_po_line :: "env \<Rightarrow> id \<Rightarrow> db \<Rightarrow> resolved_line \<Rightarrow> db" where
  "add_po_line e poId d l = (case fresh e d of (i, d1) \<Rightarrow>
     poLines_update (\<lambda>ls. ls @ [\<lparr> pol_id = i, pol_purchaseOrderId = poId, pol_rawMaterialId = rl_rawMaterialId l,
       pol_materialName = rl_materialName l, pol_unit = rl_unit l, pol_unitFactor = numeric_col 6 (rl_unitFactor l),
       pol_orderedQty = numeric_col 3 (rl_orderedQty l), pol_receivedQty = 0, pol_rate = numeric_col 4 (rl_rate l),
       pol_taxRate = numeric_col 2 (rl_taxRate l), pol_sortOrder = rl_sortOrder l \<rparr>]) d1)"

definition set_totals :: "int \<times> int \<Rightarrow> purchase_order_row \<Rightarrow> purchase_order_row" where
  "set_totals t p = p\<lparr> po_subtotal := numeric_col 2 (of_int (fst t) / 100), po_taxAmount := numeric_col 2 (of_int (snd t) / 100),
     po_total := numeric_col 2 (of_int (fst t + snd t) / 100) \<rparr>"

definition createPo :: "env \<Rightarrow> auth_user \<Rightarrow> id \<Rightarrow> po_input \<Rightarrow> db \<Rightarrow> ((id \<times> string) \<times> db) result" where
  "createPo e user outletId input d =
    ebind (assertOutlet user outletId) (\<lambda>_.
    ebind (requireVendor user outletId (pin_vendorId input) d) (\<lambda>_.
    ebind (resolveLines user outletId (pin_lines input) d) (\<lambda>lines.
      case fresh e d of (i, d1) \<Rightarrow>
      let poNumber = nextDocNumber ''PO'' (length (filter (\<lambda>p. po_outletId p = outletId) (purchaseOrders d)));
          row = set_totals (totals lines) \<lparr> po_id = i, po_tenantId = u_tenantId user, po_outletId = outletId, po_vendorId = pin_vendorId input,
            po_poNumber = poNumber, po_status = PoDraft, po_expectedDate = map_option (e_localMidnight e) (pin_expectedDate input),
            po_note = pin_note input, po_subtotal = 0, po_taxAmount = 0, po_total = 0, po_createdById = Some (u_id user),
            po_approvedById = None, po_approvedAt = None, po_sentAt = None, po_closedAt = None, po_cancelledAt = None,
            po_cancelReason = None, po_createdAt = e_now e \<rparr>
      in ebind (require (\<not> (\<exists>p \<in> set (purchaseOrders d). po_outletId p = outletId \<and> po_poNumber p = poNumber)) UniqueViolation) (\<lambda>_.
         Inr ((i, poNumber), foldl (add_po_line e i) (purchaseOrders_update (\<lambda>ps. ps @ [row]) d1) lines)))))"

definition lockPo :: "auth_user \<Rightarrow> id \<Rightarrow> id \<Rightarrow> db \<Rightarrow> purchase_order_row result" where
  "lockPo user outletId poId d =
    some_or (List.find (\<lambda>p. po_id p = poId \<and> po_tenantId p = u_tenantId user \<and> po_outletId p = outletId) (purchaseOrders d))
      (NotFound [Txt ''Purchase order not found''])"

definition set_po :: "id \<Rightarrow> (purchase_order_row \<Rightarrow> purchase_order_row) \<Rightarrow> db \<Rightarrow> db" where
  "set_po poId f = purchaseOrders_update (set_row po_id poId f)"

definition replace_lines :: "env \<Rightarrow> id \<Rightarrow> resolved_line list option \<Rightarrow> db \<Rightarrow> db" where
  "replace_lines e poId lines d = (case lines of None \<Rightarrow> d
     | Some ls \<Rightarrow> foldl (add_po_line e poId) (poLines_update (filter (\<lambda>l. pol_purchaseOrderId l \<noteq> poId)) d) ls)"

definition updatePo :: "env \<Rightarrow> auth_user \<Rightarrow> id \<Rightarrow> id \<Rightarrow> po_update \<Rightarrow> db \<Rightarrow> (id \<times> db) result" where
  "updatePo e user outletId poId input d =
    ebind (assertOutlet user outletId) (\<lambda>_.
    ebind (if truthy (pup_vendorId input) then ebind (requireVendor user outletId (the (pup_vendorId input)) d) (\<lambda>_. Inr ()) else Inr ()) (\<lambda>_.
    ebind (case pup_lines input of None \<Rightarrow> Inr None | Some ls \<Rightarrow> ebind (resolveLines user outletId ls d) (\<lambda>r. Inr (Some r))) (\<lambda>lines.
    ebind (lockPo user outletId poId d) (\<lambda>po.
    ebind (require (canEditPo (po_status po)) (BadRequest [Txt (''A '' @ po_status_name (po_status po) @ '' PO can't be edited'')])) (\<lambda>_.
      Inr (poId, set_po poId (\<lambda>p. (case lines of None \<Rightarrow> id | Some ls \<Rightarrow> set_totals (totals ls))
        (p\<lparr> po_vendorId := or_else (pup_vendorId input) (po_vendorId p),
            po_expectedDate := (case pup_expectedDate input of None \<Rightarrow> po_expectedDate p | Some x \<Rightarrow> map_option (e_localMidnight e) x),
            po_note := or_else (pup_note input) (po_note p) \<rparr>)) (replace_lines e poId lines d)))))))"

definition can :: "auth_user \<Rightarrow> string \<Rightarrow> bool" where
  "can user perm \<longleftrightarrow> ''*'' \<in> set (u_permissions user) \<or> perm \<in> set (u_permissions user)"

definition stamp_action :: "env \<Rightarrow> auth_user \<Rightarrow> po_action \<Rightarrow> string option \<Rightarrow> purchase_order_row \<Rightarrow> purchase_order_row" where
  "stamp_action e user action reason p = (case action of
     Approve \<Rightarrow> p\<lparr>po_approvedById := Some (u_id user), po_approvedAt := Some (e_now e)\<rparr>
   | Send \<Rightarrow> p\<lparr>po_sentAt := Some (e_now e)\<rparr>
   | Close \<Rightarrow> p\<lparr>po_closedAt := Some (e_now e)\<rparr>
   | Cancel \<Rightarrow> p\<lparr>po_cancelledAt := Some (e_now e), po_cancelReason := reason\<rparr>)"

definition act :: "env \<Rightarrow> auth_user \<Rightarrow> id \<Rightarrow> id \<Rightarrow> po_action \<Rightarrow> string option \<Rightarrow> db \<Rightarrow> ((id \<times> po_status) \<times> db) result" where
  "act e user outletId poId action reason d =
    ebind (assertOutlet user outletId) (\<lambda>_.
    ebind (require (action = Approve \<longrightarrow> can user ''purchase.approve'')
             (Forbidden [Txt ''Approving purchase orders needs the purchase.approve permission''])) (\<lambda>_.
    ebind (lockPo user outletId poId d) (\<lambda>po.
    ebind (some_or (nextPoStatus (po_status po) action)
             (BadRequest [Txt (''Can't '' @ po_action_name action @ '' a PO that is '' @ po_status_text (po_status po))])) (\<lambda>to.
      Inr ((poId, to), audit (u_tenantId user) (Some (u_id user)) (''PO_'' @ map upper (po_action_name action)) ''PurchaseOrder'' poId
             (set_po poId (\<lambda>p. stamp_action e user action reason (p\<lparr>po_status := to\<rparr>)) d))))))"


section \<open>Goods receipts\<close>

record grn_line_input =
  gli_poLineId :: id
  gli_quantity :: num
  gli_rate :: "num option"

record grn_input =
  gi_invoiceNo :: "string option"
  gi_note :: "string option"
  gi_lines :: "grn_line_input list"
  gi_createBill :: bool
  gi_billDueDate :: "date option"

record grn_reply =
  gy_id :: id
  gy_grnNumber :: string
  gy_status :: po_status
  gy_total :: num
  gy_varianceAmount :: num
  gy_billId :: "id option"

text \<open>A checked receipt line: the order line, the quantity and the rate.\<close>

type_synonym receipt_line = "po_line_row \<times> num \<times> num"

definition trimmed :: "string option \<Rightarrow> string option" where
  "trimmed s = (let t = map_option trim s in if truthy t then t else None)"

definition over_receipt :: "po_line_row \<Rightarrow> num \<Rightarrow> num \<Rightarrow> api_error" where
  "over_receipt line mx pct = BadRequest ([Txt (''Over-receipt on '' @ pol_materialName line @ '': at most ''), Num mx,
     Txt ('' '' @ unit_name (pol_unit line) @ '' can still be received'')] @
     (if pct \<noteq> 0 then [Txt '' ('', Num pct, Txt ''% tolerance)''] else []))"

definition check_receipt :: "num \<Rightarrow> po_line_row list \<Rightarrow> grn_line_input \<Rightarrow> id list \<times> receipt_line list \<Rightarrow> (id list \<times> receipt_line list) result" where
  "check_receipt pct lines l = (\<lambda>(seen, receipts).
    ebind (some_or (row_by pol_id (gli_poLineId l) lines) (BadRequest [Txt ''Receipt line does not belong to this PO''])) (\<lambda>line.
    ebind (require (gli_poLineId l \<notin> set seen) (BadRequest [Txt ''Duplicate receipt line''])) (\<lambda>_.
      let mx = maxReceivable (pol_orderedQty line) (pol_receivedQty line) pct
      in ebind (require (\<not> gli_quantity l > mx + 1 / 10 ^ 9) (over_receipt line mx pct)) (\<lambda>_.
         Inr (seen @ [gli_poLineId l], receipts @ [(line, gli_quantity l, or_else (gli_rate l) (pol_rate line))])))))"

record grn_sums =
  gs_db :: db
  gs_base :: int
  gs_tax :: int
  gs_variance :: num

definition receive_line :: "env \<Rightarrow> auth_user \<Rightarrow> id \<Rightarrow> id \<Rightarrow> string \<Rightarrow> purchase_order_row \<Rightarrow> receipt_line \<Rightarrow> grn_sums \<Rightarrow> grn_sums result" where
  "receive_line e user outletId grnId grnNumber po = (\<lambda>(line, quantity, rate) s.
    let factor = (if pol_unitFactor line = 0 then 1 else pol_unitFactor line);
        (base, tax) = lineAmountsPaise quantity rate (pol_taxRate line);
        pv = priceVariance (pol_rate line) rate quantity;
        stockQty = round3 (quantity * factor);
        unitCost = round4 (rate / factor)
    in ebind (applyReceiptTx e user outletId (pol_rawMaterialId line)
          \<lparr> re_quantity = stockQty, re_unitCost = unitCost, re_vendorId = Some (po_vendorId po), re_refType = Some ''grn'',
            re_refId = Some grnId, re_reason = Some (grnNumber @ '' against '' @ po_poNumber po) \<rparr> (gs_db s)) (\<lambda>(_, d1).
       Inr \<lparr> gs_db = poLines_update (set_row pol_id (pol_id line) (\<lambda>l. l\<lparr>pol_receivedQty := numeric_col 3 (pol_receivedQty l + quantity)\<rparr>))
               (grnLines_update (\<lambda>gs. gs @ [\<lparr> gl_goodsReceiptId = grnId, gl_purchaseOrderLineId = pol_id line, gl_rawMaterialId = pol_rawMaterialId line,
                  gl_quantity = numeric_col 3 quantity, gl_rate = numeric_col 4 rate, gl_poRate = pol_rate line, gl_taxRate = pol_taxRate line,
                  gl_stockQty = numeric_col 3 stockQty, gl_unitCost = numeric_col 4 unitCost, gl_lineTotal = numeric_col 2 (of_int (base + tax) / 100),
                  gl_priceVariance = numeric_col 2 (pv_amount pv) \<rparr>]) d1),
             gs_base = gs_base s + base, gs_tax = gs_tax s + tax, gs_variance = gs_variance s + pv_amount pv \<rparr>))"

definition received_of :: "receipt_line list \<Rightarrow> po_line_row \<Rightarrow> num" where
  "received_of receipts l = (case List.find (\<lambda>(line, _). pol_id line = pol_id l) receipts of None \<Rightarrow> 0 | Some (_, q, _) \<Rightarrow> q)"

definition book_bill :: "env \<Rightarrow> auth_user \<Rightarrow> id \<Rightarrow> grn_input \<Rightarrow> purchase_order_row \<Rightarrow> id \<Rightarrow> num \<Rightarrow> db \<Rightarrow> (id option \<times> db) result" where
  "book_bill e user outletId input po grnId amount d =
    (if \<not> gi_createBill input then Inr (None, d)
     else ebind (some_or (row_by ve_id (po_vendorId po) (vendors d)) RowMissing) (\<lambda>vendor.
       let due = (case gi_billDueDate input of Some x \<Rightarrow> Some (e_localMidnight e x)
                  | None \<Rightarrow> map_option (\<lambda>n. e_now e + n * 86400000) (ve_paymentTermsDays vendor));
           billNumber = trim (or_else (gi_invoiceNo input) [])
       in ebind (require (\<not> (\<exists>b \<in> set (supplierBills d). sb_vendorId b = po_vendorId po \<and> sb_billNumber b = billNumber))
            (BadRequest [Txt (''Bill '' @ or_else (gi_invoiceNo input) [] @ '' is already booked for this vendor'')])) (\<lambda>_.
          case fresh e d of (i, d1) \<Rightarrow>
          Inr (Some i, supplierBills_update (\<lambda>bs. bs @ [\<lparr> sb_id = i, sb_tenantId = u_tenantId user, sb_outletId = outletId,
            sb_vendorId = po_vendorId po, sb_billNumber = billNumber, sb_billDate = e_now e, sb_dueDate = due, sb_amount = numeric_col 2 amount,
            sb_paidAmount = 0, sb_status = BillOpen, sb_purchaseOrderId = Some (po_id po), sb_goodsReceiptId = Some grnId, sb_note = None,
            sb_createdById = Some (u_id user) \<rparr>]) d1))))"

definition create_grn :: "env \<Rightarrow> auth_user \<Rightarrow> id \<Rightarrow> grn_input \<Rightarrow> purchase_order_row \<Rightarrow> db \<Rightarrow> (id \<times> string) \<times> db" where
  "create_grn e user outletId input po d = (case fresh e d of (i, d1) \<Rightarrow>
     let grnNumber = nextDocNumber ''GRN'' (length (filter (\<lambda>g. gr_outletId g = outletId) (goodsReceipts d)))
     in ((i, grnNumber), goodsReceipts_update (\<lambda>gs. gs @ [\<lparr> gr_id = i, gr_tenantId = u_tenantId user, gr_outletId = outletId,
          gr_purchaseOrderId = po_id po, gr_vendorId = po_vendorId po, gr_grnNumber = grnNumber, gr_invoiceNo = trimmed (gi_invoiceNo input),
          gr_note = gi_note input, gr_subtotal = 0, gr_taxAmount = 0, gr_total = 0, gr_varianceAmount = 0,
          gr_createdById = Some (u_id user) \<rparr>]) d1))"

definition finish_grn :: "id \<Rightarrow> grn_sums \<Rightarrow> db \<Rightarrow> db" where
  "finish_grn grnId s = goodsReceipts_update (set_row gr_id grnId (\<lambda>g. g\<lparr> gr_subtotal := numeric_col 2 (of_int (gs_base s) / 100),
     gr_taxAmount := numeric_col 2 (of_int (gs_tax s) / 100), gr_total := numeric_col 2 (of_int (gs_base s + gs_tax s) / 100),
     gr_varianceAmount := numeric_col 2 (round_cents (gs_variance s)) \<rparr>))"

definition receiveGoods :: "env \<Rightarrow> auth_user \<Rightarrow> id \<Rightarrow> id \<Rightarrow> grn_input \<Rightarrow> db \<Rightarrow> (grn_reply \<times> db) result" where
  "receiveGoods e user outletId poId input d =
    ebind (assertOutlet user outletId) (\<lambda>_.
    ebind (require (\<not> (gi_createBill input \<and> \<not> truthy (map_option trim (gi_invoiceNo input))))
             (BadRequest [Txt ''Enter the vendor invoice number to book a bill''])) (\<lambda>_.
    ebind (getSettings user outletId d) (\<lambda>settings.
    ebind (lockPo user outletId poId d) (\<lambda>po.
    ebind (require (canReceivePo (po_status po)) (BadRequest [Txt (''Can't receive against a '' @ po_status_text (po_status po) @ '' PO'')])) (\<lambda>_.
      let lines = filter (\<lambda>l. pol_purchaseOrderId l = poId) (poLines d)
      in ebind (efold (check_receipt (ps_overReceiptPct settings) lines) (filter (\<lambda>l. gli_quantity l > 0) (gi_lines input)) ([], [])) (\<lambda>(_, receipts).
         ebind (require (receipts \<noteq> []) (BadRequest [Txt ''Enter a received quantity on at least one line''])) (\<lambda>_.
           let ((grnId, grnNumber), d1) = create_grn e user outletId input po d
           in ebind (efold (receive_line e user outletId grnId grnNumber po) (sort_key (\<lambda>(line, _). pol_rawMaterialId line) receipts)
                       \<lparr> gs_db = d1, gs_base = 0, gs_tax = 0, gs_variance = 0 \<rparr>) (\<lambda>s.
              let status = statusAfterReceipt (map (\<lambda>l. (pol_orderedQty l, pol_receivedQty l + received_of receipts l)) lines);
                  amount = of_int (gs_base s + gs_tax s) / 100;
                  d2 = finish_grn grnId s (set_po poId (\<lambda>p. p\<lparr>po_status := status\<rparr>) (gs_db s))
              in ebind (book_bill e user outletId input po grnId amount d2) (\<lambda>(billId, d3).
                 Inr (\<lparr> gy_id = grnId, gy_grnNumber = grnNumber, gy_status = status, gy_total = amount,
                        gy_varianceAmount = round_cents (gs_variance s), gy_billId = billId \<rparr>, d3))))))))))"


section \<open>What the operations leave alone\<close>

lemma applyReceipt_frame:
  assumes "applyReceiptTx e user outletId i input d = Inr (reply, d')"
  obtains rs ms where "d' = d\<lparr>rawMaterials := rs, stockMovements := ms\<rparr>"
proof -
  from assms obtain m f where "d' = post_movement m (rawMaterials_update f d)"
    unfolding applyReceiptTx_def set_stock_def guard_simps Let_def sum.inject prod.inject by blast
  then have "d' = d\<lparr>rawMaterials := f (rawMaterials d), stockMovements := stockMovements d @ [m]\<rparr>" by (simp add: post_movement_def)
  then show ?thesis by (rule that)
qed

lemma decimals_round3 [simp]: "decimals 3 (round3 x)"
  using decimals_of_int_div [of 3] by (simp add: round3_def)

lemma receive_line_effect:
  assumes "receive_line e user outletId grnId grnNumber po (line, q, r) s = Inr s'"
  obtains input d1 reply where "applyReceiptTx e user outletId (pol_rawMaterialId line) input (gs_db s) = Inr (reply, d1)"
    and "decimals 3 (re_quantity input)"
    and "\<exists>gs. gs_db s' = (grnLines_update gs d1)\<lparr>poLines := set_row pol_id (pol_id line)
           (\<lambda>l. l\<lparr>pol_receivedQty := numeric_col 3 (pol_receivedQty l + q)\<rparr>) (poLines d1)\<rparr>"
proof -
  from assms obtain input x gs where x: "applyReceiptTx e user outletId (pol_rawMaterialId line) input (gs_db s) = Inr x"
    and q: "decimals 3 (re_quantity input)"
    and s': "gs_db s' = poLines_update (set_row pol_id (pol_id line) (\<lambda>l. l\<lparr>pol_receivedQty := numeric_col 3 (pol_receivedQty l + q)\<rparr>))
       (grnLines_update gs (snd x))"
    unfolding receive_line_def prod.case Let_def case_prod_beta fst_conv snd_conv guard_simps sum.inject
    by (elim exE conjE) (rule that, assumption, simp, hypsubst, simp)
  show ?thesis by (rule that [OF _ q, of "fst x" "snd x"]) (use x s' in \<open>auto intro!: exI [of _ gs]\<close>)
qed

text \<open>The columns of the order lines: unique ids, quantities of three decimals.\<close>

definition po_lines_ok :: "db \<Rightarrow> bool" where
  "po_lines_ok d \<longleftrightarrow> distinct (map pol_id (poLines d))
     \<and> (\<forall>l \<in> set (poLines d). decimals 3 (pol_orderedQty l) \<and> decimals 3 (pol_receivedQty l))"

definition add_received :: "receipt_line list \<Rightarrow> po_line_row list \<Rightarrow> po_line_row list" where
  "add_received rs ls = foldl (\<lambda>ls (line, q, r). set_row pol_id (pol_id line)
     (\<lambda>l. l\<lparr>pol_receivedQty := numeric_col 3 (pol_receivedQty l + q)\<rparr>) ls) ls rs"

lemma add_received_simps [simp]:
  "add_received [] ls = ls"
  "add_received ((line, q, r) # rs) ls = add_received rs (set_row pol_id (pol_id line)
     (\<lambda>l. l\<lparr>pol_receivedQty := numeric_col 3 (pol_receivedQty l + q)\<rparr>) ls)"
  by (simp_all add: add_received_def)

lemma row_by_set_row:
  "(\<And>r. key (f r) = key r) \<Longrightarrow> row_by key i (set_row key j f rs) = (if i = j then map_option f (row_by key i rs) else row_by key i rs)"
  by (auto simp: row_by_def set_row_def find_update_where_same intro!: find_update_where_other)

lemma row_by_add_received:
  assumes "distinct (map (\<lambda>(line, q, r). pol_id line) rs)"
  shows "row_by pol_id i (add_received rs ls) = (case List.find (\<lambda>(line, _). pol_id line = i) rs of
     None \<Rightarrow> row_by pol_id i ls
   | Some (line, q, r) \<Rightarrow> map_option (\<lambda>l. l\<lparr>pol_receivedQty := numeric_col 3 (pol_receivedQty l + q)\<rparr>) (row_by pol_id i ls))"
  using assms
proof (induction rs arbitrary: ls)
  case (Cons x rs)
  obtain line q r where x: "x = (line, q, r)" by (cases x)
  have "List.find (\<lambda>(line, _). pol_id line = i) rs = None" if "pol_id line = i"
    using Cons.prems that by (auto simp: x find_None_iff_ball image_iff case_prod_beta)
  then show ?case using Cons by (auto simp: x row_by_set_row split: option.split)
qed simp

text \<open>What the stock and order proofs need to know of a step: the tables it leaves alone.\<close>

definition stock_side :: "db \<Rightarrow> db \<Rightarrow> bool" where
  "stock_side d d' \<longleftrightarrow> prepRecipes d' = prepRecipes d \<and> stockCountLines d' = stockCountLines d \<and> indents d' = indents d \<and> seq d \<le> seq d'
     \<and> (\<forall>src. stock_inv src d \<longrightarrow> stock_inv src d')"

lemma stock_side_refl [simp]: "stock_side d d"
  by (simp add: stock_side_def)

lemma stock_side_trans: "stock_side d d1 \<Longrightarrow> stock_side d1 d2 \<Longrightarrow> stock_side d d2"
  by (simp add: stock_side_def)

lemma stock_sideI:
  assumes "rawMaterials d' = rawMaterials d" "stockMovements d' = stockMovements d" "recipes d' = recipes d" "prepRecipes d' = prepRecipes d"
    "stockCountLines d' = stockCountLines d" "indents d' = indents d" "seq d \<le> seq d'"
  shows "stock_side d d'"
  using assms stock_inv_keep [of _ d d'] stock_ok_cong [of d' d] by (auto simp: stock_side_def stock_inv_def)

lemma receive_line_side:
  assumes run: "receive_line e user outletId grnId grnNumber po (line, q, r) s = Inr s'"
  shows "stock_side (gs_db s) (gs_db s') \<and> purchaseOrders (gs_db s') = purchaseOrders (gs_db s) \<and> seq (gs_db s') = seq (gs_db s)
    \<and> poLines (gs_db s') = set_row pol_id (pol_id line) (\<lambda>l. l\<lparr>pol_receivedQty := numeric_col 3 (pol_receivedQty l + q)\<rparr>) (poLines (gs_db s))"
proof -
  obtain input d1 reply where a: "applyReceiptTx e user outletId (pol_rawMaterialId line) input (gs_db s) = Inr (reply, d1)"
    and q: "decimals 3 (re_quantity input)"
    and "\<exists>gs. gs_db s' = (grnLines_update gs d1)\<lparr>poLines := set_row pol_id (pol_id line)
           (\<lambda>l. l\<lparr>pol_receivedQty := numeric_col 3 (pol_receivedQty l + q)\<rparr>) (poLines d1)\<rparr>"
    by (rule receive_line_effect [OF run])
  then obtain gs where s': "gs_db s' = (grnLines_update gs d1)\<lparr>poLines := set_row pol_id (pol_id line)
           (\<lambda>l. l\<lparr>pol_receivedQty := numeric_col 3 (pol_receivedQty l + q)\<rparr>) (poLines d1)\<rparr>" by blast
  obtain rs ms where d1: "d1 = (gs_db s)\<lparr>rawMaterials := rs, stockMovements := ms\<rparr>" by (rule applyReceipt_frame [OF a])
  have "stock_side (gs_db s) d1" using receipt_inv [OF a _ q] by (simp add: stock_side_def d1)
  moreover have "stock_side d1 (gs_db s')" by (rule stock_sideI) (simp_all add: s')
  ultimately have "stock_side (gs_db s) (gs_db s')" by (rule stock_side_trans)
  then show ?thesis by (simp add: s' d1)
qed

lemma receive_loop:
  assumes "efold (receive_line e user outletId grnId grnNumber po) rs s = Inr s'"
  shows "stock_side (gs_db s) (gs_db s') \<and> purchaseOrders (gs_db s') = purchaseOrders (gs_db s) \<and> seq (gs_db s') = seq (gs_db s)
    \<and> poLines (gs_db s') = add_received rs (poLines (gs_db s))"
  using assms
proof (induction rs arbitrary: s)
  case (Cons x rs)
  obtain line q r where x: "x = (line, q, r)" by (cases x)
  from Cons.prems obtain s1 where 1: "receive_line e user outletId grnId grnNumber po (line, q, r) s = Inr s1"
    and 2: "efold (receive_line e user outletId grnId grnNumber po) rs s1 = Inr s'" by (auto simp: guard_simps x)
  show ?case using receive_line_side [OF 1] Cons.IH [OF 2] stock_side_trans [of "gs_db s" "gs_db s1"] by (simp add: x)
qed simp

text \<open>The checked lines: order lines of this order, each once, within what may still be received.\<close>

lemma check_receipts:
  assumes "efold (check_receipt pct lines) ls (seen, rs) = Inr (seen', rs')"
    and "map (\<lambda>(line, q, r). pol_id line) rs = seen" "distinct seen"
    and "\<forall>(line, q, r) \<in> set rs. line \<in> set lines \<and> q \<le> maxReceivable (pol_orderedQty line) (pol_receivedQty line) pct + 1 / 10 ^ 9 \<and> 0 < q"
    and "\<forall>l \<in> set ls. 0 < gli_quantity l"
  shows "map (\<lambda>(line, q, r). pol_id line) rs' = seen' \<and> distinct seen'
    \<and> (\<forall>(line, q, r) \<in> set rs'. line \<in> set lines \<and> q \<le> maxReceivable (pol_orderedQty line) (pol_receivedQty line) pct + 1 / 10 ^ 9 \<and> 0 < q)"
  using assms
proof (induction ls arbitrary: seen rs)
  case (Cons l ls)
  from Cons.prems(1) obtain line where line: "row_by pol_id (gli_poLineId l) lines = Some line" "gli_poLineId l \<notin> set seen"
      "gli_quantity l \<le> maxReceivable (pol_orderedQty line) (pol_receivedQty line) pct + 1 / 10 ^ 9"
    and rest: "efold (check_receipt pct lines) ls (seen @ [gli_poLineId l], rs @ [(line, gli_quantity l, or_else (gli_rate l) (pol_rate line))]) = Inr (seen', rs')"
    by (auto simp: guard_simps check_receipt_def [of pct lines l] Let_def)
  show ?case by (rule Cons.IH [OF rest]) (use Cons.prems line row_by_Some [OF line(1)] in auto)
qed simp


lemma foldl_add_po_line: "\<exists>n ls'. foldl (add_po_line e i) d ls = d\<lparr>seq := n, poLines := ls'\<rparr> \<and> seq d \<le> n"
proof (induction ls arbitrary: d)
  case Nil
  show ?case by (intro exI [of _ "seq d"] exI [of _ "poLines d"]) simp
next
  case (Cons l ls)
  obtain x where l: "add_po_line e i d l = d\<lparr>seq := seq d + 1, poLines := x\<rparr>"
    by (rule that [of "poLines (add_po_line e i d l)"]) (simp add: add_po_line_def fresh_def)
  obtain n ls' where "foldl (add_po_line e i) (add_po_line e i d l) ls = (add_po_line e i d l)\<lparr>seq := n, poLines := ls'\<rparr>"
    "seq (add_po_line e i d l) \<le> n" using Cons.IH by blast
  then show ?case using l by (intro exI [of _ n] exI [of _ ls']) simp
qed

lemma createPo_effect:
  assumes "createPo e user outletId input d = Inr (x, d')"
  obtains row n ls where "d' = d\<lparr>seq := n, purchaseOrders := purchaseOrders d @ [row], poLines := ls\<rparr>" and "seq d < n"
    and "po_id row = e_cuid e (seq d)" and "po_status row = PoDraft"
proof -
  from assms obtain row lines where d': "d' = foldl (add_po_line e (e_cuid e (seq d))) (purchaseOrders_update (\<lambda>ps. ps @ [row]) (d\<lparr>seq := seq d + 1\<rparr>)) lines"
    and row: "po_id row = e_cuid e (seq d)" "po_status row = PoDraft"
    unfolding createPo_def guard_simps Let_def fresh_def prod.case sum.inject prod.inject
    by (elim exE conjE) (rule that, erule sym, simp_all add: set_totals_def)
  obtain n ls where "d' = (purchaseOrders_update (\<lambda>ps. ps @ [row]) (d\<lparr>seq := seq d + 1\<rparr>))\<lparr>seq := n, poLines := ls\<rparr>" "seq d + 1 \<le> n"
    using foldl_add_po_line [of e "e_cuid e (seq d)" "purchaseOrders_update (\<lambda>ps. ps @ [row]) (d\<lparr>seq := seq d + 1\<rparr>)" lines] d' by auto
  then show ?thesis using row by (intro that [where row = row and n = n and ls = ls]) simp_all
qed

lemma updatePo_effect:
  assumes "updatePo e user outletId i input d = Inr (x, d')"
  obtains f n ls where "d' = d\<lparr>seq := n, purchaseOrders := set_row po_id i f (purchaseOrders d), poLines := ls\<rparr>" and "seq d \<le> n"
    and "\<And>p. po_id (f p) = po_id p" and "\<And>p. po_status (f p) = po_status p"
proof -
  from assms obtain f lines where d': "d' = set_po i f (replace_lines e i lines d)"
    and f: "\<And>p. po_id (f p) = po_id p" "\<And>p. po_status (f p) = po_status p"
    unfolding updatePo_def guard_simps sum.inject prod.inject
    by (elim exE conjE) (rule that, erule sym, simp_all add: set_totals_def split: option.split)
  have "\<exists>n ls. replace_lines e i lines d = d\<lparr>seq := n, poLines := ls\<rparr> \<and> seq d \<le> n"
  proof (cases lines)
    case None
    then show ?thesis by (intro exI [of _ "seq d"] exI [of _ "poLines d"]) (simp add: replace_lines_def)
  next
    case (Some ls)
    obtain n ks where "foldl (add_po_line e i) (poLines_update (filter (\<lambda>l. pol_purchaseOrderId l \<noteq> i)) d) ls
      = (poLines_update (filter (\<lambda>l. pol_purchaseOrderId l \<noteq> i)) d)\<lparr>seq := n, poLines := ks\<rparr>" "seq d \<le> n"
      using foldl_add_po_line [of e i "poLines_update (filter (\<lambda>l. pol_purchaseOrderId l \<noteq> i)) d" ls] by auto
    then show ?thesis by (intro exI [of _ n] exI [of _ ks]) (simp add: replace_lines_def Some)
  qed
  then obtain n ls where "replace_lines e i lines d = d\<lparr>seq := n, poLines := ls\<rparr>" "seq d \<le> n" by blast
  then show ?thesis using f by (intro that [where f = f and n = n and ls = ls]) (simp_all add: d' set_po_def)
qed


lemma act_effect:
  assumes "act e user outletId i action reason d = Inr (x, d')"
  obtains po to f where "lockPo user outletId i d = Inr po" and "nextPoStatus (po_status po) action = Some to"
    and "purchaseOrders d' = set_row po_id i f (purchaseOrders d)" and "\<And>p. po_id (f p) = po_id p" and "\<And>p. po_status (f p) = to"
    and "stock_side d d'" and "poLines d' = poLines d" and "seq d' = seq d"
proof -
  from assms obtain po to where po: "lockPo user outletId i d = Inr po" "nextPoStatus (po_status po) action = Some to"
    and d': "d' = audit (u_tenantId user) (Some (u_id user)) (''PO_'' @ map upper (po_action_name action)) ''PurchaseOrder'' i
       (set_po i (\<lambda>p. stamp_action e user action reason (p\<lparr>po_status := to\<rparr>)) d)"
    unfolding act_def guard_simps sum.inject prod.inject by blast
  have "stock_side d d'" by (rule stock_sideI) (simp_all add: d' audit_def set_po_def)
  then show ?thesis
    by (intro that [OF po, of "\<lambda>p. stamp_action e user action reason (p\<lparr>po_status := to\<rparr>)"])
      (simp_all add: d' audit_def set_po_def stamp_action_def split: po_action.split)
qed

lemma book_bill_frame:
  assumes "book_bill e user outletId input po grnId amount d = Inr (b, d')"
  obtains n bs where "d' = d\<lparr>seq := n, supplierBills := bs\<rparr>" and "seq d \<le> n"
proof (cases "gi_createBill input")
  case True
  from assms obtain f where "d' = supplierBills_update f (d\<lparr>seq := seq d + 1\<rparr>)"
    unfolding book_bill_def if_P [OF True] if_not_P guard_simps Let_def fresh_def prod.case sum.inject prod.inject
    using True by (auto simp: guard_simps)
  then show ?thesis by (intro that [where n = "seq d + 1" and bs = "f (supplierBills d)"]) simp_all
next
  case False
  then have "d' = d" using assms by (simp add: book_bill_def)
  then show ?thesis by (intro that [where n = "seq d" and bs = "supplierBills d"]) simp_all
qed

lemma receiveGoods_stages:
  assumes "receiveGoods e user outletId poId input d = Inr (reply, d')"
  obtains settings po seen receipts grnId grnNumber s0 s where "getSettings user outletId d = Inr settings"
    and "lockPo user outletId poId d = Inr po" and "canReceivePo (po_status po)"
    and "efold (check_receipt (ps_overReceiptPct settings) (filter (\<lambda>l. pol_purchaseOrderId l = poId) (poLines d)))
           (filter (\<lambda>l. gli_quantity l > 0) (gi_lines input)) ([], []) = Inr (seen, receipts)"
    and "efold (receive_line e user outletId grnId grnNumber po) (sort_key (\<lambda>p. pol_rawMaterialId (fst p)) receipts) s0 = Inr s"
    and "stock_side d (gs_db s0)" "purchaseOrders (gs_db s0) = purchaseOrders d" "poLines (gs_db s0) = poLines d"
    and "stock_side (gs_db s) d'" "poLines d' = poLines (gs_db s)"
      "purchaseOrders d' = set_row po_id poId (\<lambda>p. p\<lparr>po_status := gy_status reply\<rparr>) (purchaseOrders (gs_db s))"
    and "gy_status reply = statusAfterReceipt (map (\<lambda>l. (pol_orderedQty l, pol_receivedQty l + received_of receipts l))
           (filter (\<lambda>l. pol_purchaseOrderId l = poId) (poLines d)))"
proof -
  let ?lines = "filter (\<lambda>l. pol_purchaseOrderId l = poId) (poLines d)"
  from assms obtain settings po c s b where 1: "getSettings user outletId d = Inr settings"
      "lockPo user outletId poId d = Inr po" "canReceivePo (po_status po)"
    and c: "efold (check_receipt (ps_overReceiptPct settings) ?lines) (filter (\<lambda>l. gli_quantity l > 0) (gi_lines input)) ([], []) = Inr c"
    and l: "efold (receive_line e user outletId (fst (fst (create_grn e user outletId input po d))) (snd (fst (create_grn e user outletId input po d))) po)
        (sort_key (\<lambda>p. pol_rawMaterialId (fst p)) (snd c))
        \<lparr> gs_db = snd (create_grn e user outletId input po d), gs_base = 0, gs_tax = 0, gs_variance = 0 \<rparr> = Inr s"
    and b: "book_bill e user outletId input po (fst (fst (create_grn e user outletId input po d))) (of_int (gs_base s + gs_tax s) / 100)
        (finish_grn (fst (fst (create_grn e user outletId input po d))) s (set_po poId (\<lambda>p. p\<lparr>po_status :=
           statusAfterReceipt (map (\<lambda>l. (pol_orderedQty l, pol_receivedQty l + received_of (snd c) l)) ?lines)\<rparr>) (gs_db s))) = Inr b"
    and r: "d' = snd b" "gy_status reply = statusAfterReceipt (map (\<lambda>l. (pol_orderedQty l, pol_receivedQty l + received_of (snd c) l)) ?lines)"
    unfolding receiveGoods_def guard_simps Let_def case_prod_beta sum.inject prod.inject
    by (elim exE conjE) (rule that, assumption+, erule sym, hypsubst, simp)
  obtain seen receipts where c': "c = (seen, receipts)" by (cases c)
  obtain n bs where d': "d' = (finish_grn (fst (fst (create_grn e user outletId input po d))) s (set_po poId (\<lambda>p. p\<lparr>po_status := gy_status reply\<rparr>) (gs_db s)))
      \<lparr>seq := n, supplierBills := bs\<rparr>" "seq (gs_db s) \<le> n"
    using b r by (cases b) (auto elim!: book_bill_frame simp: finish_grn_def set_po_def)
  have "stock_side d (snd (create_grn e user outletId input po d))"
    by (rule stock_sideI) (simp_all add: create_grn_def fresh_def Let_def)
  moreover have "stock_side (gs_db s) d'" using d'(2) by (intro stock_sideI) (simp_all add: d'(1) finish_grn_def set_po_def)
  ultimately show ?thesis using 1 c l r(2) d' unfolding c' snd_conv
    by (intro that [OF _ _ _ _ l [unfolded c' snd_conv]]) (simp_all add: finish_grn_def set_po_def create_grn_def fresh_def Let_def)
qed


section \<open>Orders follow the state machine\<close>

definition po_move :: "po_status \<Rightarrow> po_status \<Rightarrow> bool" where
  "po_move s t \<longleftrightarrow> (\<exists>a. nextPoStatus s a = Some t) \<or> (canReceivePo s \<and> t \<in> {PoReceived, PoPartiallyReceived})"

definition goods_arrived :: "po_status \<Rightarrow> bool" where
  "goods_arrived s \<longleftrightarrow> s \<in> {PoPartiallyReceived, PoReceived, PoClosed}"

inductive po_step :: "(nat \<Rightarrow> id) \<Rightarrow> db \<Rightarrow> db \<Rightarrow> bool" for src where
  create: "e_cuid e = src \<Longrightarrow> createPo e user outletId input d = Inr (x, d') \<Longrightarrow> po_step src d d'"
| update: "updatePo e user outletId i upd d = Inr (y, d') \<Longrightarrow> po_step src d d'"
| act: "act e user outletId i action reason d = Inr (z, d') \<Longrightarrow> po_step src d d'"
| receive: "receiveGoods e user outletId i grn d = Inr (reply, d') \<Longrightarrow> po_step src d d'"
| other: "purchaseOrders d' = purchaseOrders d \<Longrightarrow> seq d \<le> seq d' \<Longrightarrow> po_step src d d'"

definition po_inv :: "(nat \<Rightarrow> id) \<Rightarrow> db \<Rightarrow> bool" where
  "po_inv src d \<longleftrightarrow> distinct (map po_id (purchaseOrders d)) \<and> po_id ` set (purchaseOrders d) \<subseteq> src ` {..<seq d}"

lemma arrived_move: "po_move s t \<Longrightarrow> goods_arrived s \<Longrightarrow> goods_arrived t"
proof -
  have "goods_arrived t" if "nextPoStatus s a = Some t" "goods_arrived s" for a
    using that by (cases a) (auto simp: nextPoStatus_def goods_arrived_def split: if_splits)
  then show "po_move s t \<Longrightarrow> goods_arrived s \<Longrightarrow> goods_arrived t" by (auto simp: po_move_def goods_arrived_def)
qed

text \<open>A step rewrites the rows of one order, whose status moves along the machine.\<close>

lemma po_moved:
  assumes inv: "po_inv src d" and lock: "lockPo user outletId i d = Inr po"
    and d': "purchaseOrders d' = set_row po_id i f (purchaseOrders d)" "seq d \<le> seq d'"
    and f: "\<And>p. po_id (f p) = po_id p" "po_move\<^sup>*\<^sup>* (po_status po) (po_status (f po))"
  shows "po_inv src d' \<and> (\<forall>j p. row_by po_id j (purchaseOrders d) = Some p \<longrightarrow>
    (\<exists>p'. row_by po_id j (purchaseOrders d') = Some p' \<and> po_move\<^sup>*\<^sup>* (po_status p) (po_status p')))"
proof -
  from lock have po: "po \<in> set (purchaseOrders d)" "po_id po = i" by (auto simp: lockPo_def guard_simps dest: find_SomeD)
  then have row: "row_by po_id i (purchaseOrders d) = Some po" using row_by_distinct [of po_id "purchaseOrders d" po] inv by (simp add: po_inv_def)
  have "po_inv src d'" using inv d'(2) f(1) by (auto simp: po_inv_def d'(1) map_key_set_row image_key_set_row dest!: subsetD)
  moreover have "\<exists>p'. row_by po_id j (purchaseOrders d') = Some p' \<and> po_move\<^sup>*\<^sup>* (po_status p) (po_status p')"
    if "row_by po_id j (purchaseOrders d) = Some p" for j p
    using that row f by (auto simp: d'(1) row_by_set_row)
  ultimately show ?thesis by blast
qed

lemma lockPo_exists: "updatePo e user outletId i upd d = Inr x \<Longrightarrow> \<exists>po. lockPo user outletId i d = Inr po"
  unfolding updatePo_def guard_simps by blast

lemma po_step_moves:
  assumes "po_step src d d'" and inv: "po_inv src d" and src: "inj src"
  shows "po_inv src d' \<and> (\<forall>j p. row_by po_id j (purchaseOrders d) = Some p \<longrightarrow>
    (\<exists>p'. row_by po_id j (purchaseOrders d') = Some p' \<and> po_move\<^sup>*\<^sup>* (po_status p) (po_status p')))"
  using assms(1)
proof cases
  case (create e user outletId input x)
  obtain row n ls where e: "d' = d\<lparr>seq := n, purchaseOrders := purchaseOrders d @ [row], poLines := ls\<rparr>" "seq d < n" "po_id row = src (seq d)"
    using create by (elim createPo_effect) auto
  have "src (seq d) \<notin> po_id ` set (purchaseOrders d)" using inv src by (auto simp: po_inv_def dest!: inj_onD subsetD)
  then show ?thesis using inv e by (auto simp: po_inv_def row_by_append dest!: subsetD)
next
  case (update e user outletId i upd y)
  obtain po where po: "lockPo user outletId i d = Inr po" using lockPo_exists [OF update] by blast
  obtain f n ls where e: "d' = d\<lparr>seq := n, purchaseOrders := set_row po_id i f (purchaseOrders d), poLines := ls\<rparr>" "seq d \<le> n"
    and f: "\<And>p. po_id (f p) = po_id p" "\<And>p. po_status (f p) = po_status p" by (rule updatePo_effect [OF update]) (rule that, assumption, assumption, blast, blast)
  show ?thesis by (rule po_moved [OF inv po, of _ f]) (simp_all add: e f)
next
  case (act e user outletId i action reason z)
  obtain po to f where po: "lockPo user outletId i d = Inr po" "nextPoStatus (po_status po) action = Some to"
    and e: "purchaseOrders d' = set_row po_id i f (purchaseOrders d)" and f: "\<And>p. po_id (f p) = po_id p" "\<And>p. po_status (f p) = to"
    and "stock_side d d'" "poLines d' = poLines d" and s: "seq d' = seq d" by (rule act_effect [OF act]) (rule that, assumption, assumption, assumption, blast, blast, assumption+)
  have "po_move (po_status po) to" using po(2) by (auto simp: po_move_def)
  then show ?thesis by (intro po_moved [OF inv po(1) e _ f(1)]) (simp_all add: s f)
next
  case (receive e user outletId i grn reply)
  show ?thesis
  proof (rule receiveGoods_stages [OF receive])
    fix settings po seen receipts grnId grnNumber s0 s
    assume po: "lockPo user outletId i d = Inr po" "canReceivePo (po_status po)"
      and loop: "efold (receive_line e user outletId grnId grnNumber po) (sort_key (\<lambda>p. pol_rawMaterialId (fst p)) receipts) s0 = Inr s"
      and d0: "stock_side d (gs_db s0)" "purchaseOrders (gs_db s0) = purchaseOrders d"
      and d': "stock_side (gs_db s) d'" "purchaseOrders d' = set_row po_id i (\<lambda>p. p\<lparr>po_status := gy_status reply\<rparr>) (purchaseOrders (gs_db s))"
      and st: "gy_status reply = statusAfterReceipt (map (\<lambda>l. (pol_orderedQty l, pol_receivedQty l + received_of receipts l))
           (filter (\<lambda>l. pol_purchaseOrderId l = i) (poLines d)))"
    note l = receive_loop [OF loop]
    have "po_move (po_status po) (gy_status reply)" using po(2) by (simp add: po_move_def st statusAfterReceipt_def)
    moreover have "seq d \<le> seq d'" using d0(1) d'(1) l by (simp add: stock_side_def)
    ultimately show ?thesis using d0(2) d'(2) l
      by (intro po_moved [OF inv po(1), of _ "\<lambda>p. p\<lparr>po_status := gy_status reply\<rparr>"]) simp_all
  qed
next
  case other
  then show ?thesis using inv by (auto simp: po_inv_def dest!: subsetD)
qed



section \<open>Receipts stay within tolerance\<close>

lemma numeric_col_slack: "decimals 3 x \<Longrightarrow> numeric_col 3 (x + 1 / 10 ^ 9) = x"
proof (elim decimalsE)
  fix n :: int assume x: "x = of_int n / 10 ^ 3"
  have "(x + 1 / 10 ^ 9) * 10 ^ 3 = of_int n + 1 / 10 ^ 6" by (simp add: x field_simps)
  moreover have "\<lfloor>of_int n + 1 / 10 ^ 6 + 1 / 2 :: rat\<rfloor> = n" "\<lfloor>- (of_int n + 1 / 10 ^ 6) + 1 / 2 :: rat\<rfloor> = - n"
    by (simp_all add: floor_eq_iff)
  ultimately have "round_away ((x + 1 / 10 ^ 9) * 10 ^ 3) = n" unfolding round_away_def by simp
  then show ?thesis by (simp add: numeric_col_def x)
qed

lemma maxReceivable_decimals: "decimals 3 (maxReceivable a b t)"
  by (simp add: maxReceivable_def max_def)

lemma received_bound:
  assumes "decimals 3 r" and "0 < q" and "q \<le> maxReceivable a r t + 1 / 10 ^ 9"
  shows "r \<le> numeric_col 3 (r + q) \<and> numeric_col 3 (r + q) \<le> r + maxReceivable a r t"
proof -
  have "numeric_col 3 r \<le> numeric_col 3 (r + q)" using assms(2) by (intro numeric_col_mono) simp
  moreover have "numeric_col 3 (r + q) \<le> numeric_col 3 ((r + maxReceivable a r t) + 1 / 10 ^ 9)"
    using assms(3) by (intro numeric_col_mono) simp
  ultimately show ?thesis
    using assms(1) numeric_col_slack [OF decimals_add [OF assms(1) maxReceivable_decimals [of a r t]]] by (simp add: numeric_col_exact)
qed

lemma maxReceivable_nonneg: "0 \<le> maxReceivable a b t"
  by (simp add: maxReceivable_def)

text \<open>C33. Receiving goods against an order never takes a line beyond what the outlet's over-receipt tolerance leaves open, touches
  no line of another order, and keeps the stock explained by its ledger.\<close>

theorem receive_within_tolerance:
  assumes run: "receiveGoods e user outletId poId input d = Inr (reply, d')" and settings: "getSettings user outletId d = Inr settings"
    and lines: "po_lines_ok d" and inv: "stock_inv src d"
  shows "stock_ok d' \<and> (\<forall>l \<in> set (poLines d). \<exists>l'. row_by pol_id (pol_id l) (poLines d') = Some l' \<and> pol_receivedQty l \<le> pol_receivedQty l'
    \<and> pol_receivedQty l' \<le> pol_receivedQty l + (if pol_purchaseOrderId l = poId
         then maxReceivable (pol_orderedQty l) (pol_receivedQty l) (ps_overReceiptPct settings) else 0))"
proof (rule receiveGoods_stages [OF run])
  fix settings' po seen grnId grnNumber s0 s and receipts :: "receipt_line list"
  let ?lines = "filter (\<lambda>l. pol_purchaseOrderId l = poId) (poLines d)" and ?pct = "ps_overReceiptPct settings"
  let ?rs = "sort_key (\<lambda>p. pol_rawMaterialId (fst p)) receipts"
  assume "getSettings user outletId d = Inr settings'"
    and check: "efold (check_receipt (ps_overReceiptPct settings') ?lines) (filter (\<lambda>l. gli_quantity l > 0) (gi_lines input)) ([], []) = Inr (seen, receipts)"
    and loop: "efold (receive_line e user outletId grnId grnNumber po) ?rs s0 = Inr s"
    and d0: "stock_side d (gs_db s0)" "poLines (gs_db s0) = poLines d" and d': "stock_side (gs_db s) d'" "poLines d' = poLines (gs_db s)"
  then have "settings' = settings" using settings by simp
  note check = check_receipts [OF check [unfolded this]]
  have ids: "map (\<lambda>(line, q, r). pol_id line) receipts = seen" "distinct seen"
    and each: "\<forall>(line, q, r) \<in> set receipts. line \<in> set ?lines \<and> q \<le> maxReceivable (pol_orderedQty line) (pol_receivedQty line) ?pct + 1 / 10 ^ 9 \<and> 0 < q"
    using check by auto
  note l = receive_loop [OF loop]
  have "stock_inv src d'" using inv d0(1) d'(1) l by (simp add: stock_side_def)
  have "distinct (map (\<lambda>(line, q, r). pol_id line) ?rs)" using ids(2) unfolding ids(1) [symmetric] distinct_map by simp
  note rows = row_by_add_received [OF this]
  have "\<exists>l'. row_by pol_id (pol_id l) (poLines d') = Some l' \<and> pol_receivedQty l \<le> pol_receivedQty l'
    \<and> pol_receivedQty l' \<le> pol_receivedQty l + (if pol_purchaseOrderId l = poId then maxReceivable (pol_orderedQty l) (pol_receivedQty l) ?pct else 0)"
    if m: "l \<in> set (poLines d)" for l
  proof -
    have row: "row_by pol_id (pol_id l) (poLines d) = Some l" using row_by_distinct [OF _ m] lines by (simp add: po_lines_ok_def)
    have dec: "decimals 3 (pol_receivedQty l)" using lines m by (simp add: po_lines_ok_def)
    show ?thesis
    proof (cases "List.find (\<lambda>(line, _). pol_id line = pol_id l) ?rs")
      case None
      then show ?thesis using row rows [of "pol_id l" "poLines d"] d'(2) l d0(2) maxReceivable_nonneg by auto
    next
      case (Some x)
      obtain line q r where x: "x = (line, q, r)" by (cases x)
      have "(line, q, r) \<in> set receipts" "pol_id line = pol_id l" using find_SomeD [OF Some] by (simp_all add: x)
      then have line: "line \<in> set ?lines" "q \<le> maxReceivable (pol_orderedQty line) (pol_receivedQty line) ?pct + 1 / 10 ^ 9" "0 < q"
        using each by auto
      have "line = l" using line(1) m \<open>pol_id line = pol_id l\<close> lines by (auto simp: po_lines_ok_def distinct_map dest: inj_onD)
      then show ?thesis using row rows [of "pol_id l" "poLines d"] d'(2) l d0(2) line received_bound [OF dec line(3)] by (auto simp: Some x)
    qed
  qed
  then show ?thesis using \<open>stock_inv src d'\<close> by (simp add: stock_inv_def)
qed


section \<open>A concrete order\<close>

definition po0 :: purchase_order_row where
  "po0 = \<lparr> po_id = [], po_tenantId = ''t'', po_outletId = ''k'', po_vendorId = ''v'', po_poNumber = ''PO-00001'', po_status = PoSent,
     po_expectedDate = None, po_note = None, po_subtotal = 450, po_taxAmount = 0, po_total = 450, po_createdById = None,
     po_approvedById = None, po_approvedAt = None, po_sentAt = None, po_closedAt = None, po_cancelledAt = None,
     po_cancelReason = None, po_createdAt = 0 \<rparr>"

definition po_line0 :: po_line_row where
  "po_line0 = \<lparr> pol_id = ''l'', pol_purchaseOrderId = [], pol_rawMaterialId = [], pol_materialName = ''Lentils'', pol_unit = UnitKG,
     pol_unitFactor = 1, pol_orderedQty = 5, pol_receivedQty = 0, pol_rate = 90, pol_taxRate = 0, pol_sortOrder = 0 \<rparr>"

definition ordered0 :: db where
  "ordered0 = db0\<lparr> seq := 1, rawMaterials := [material0\<lparr>rm_id := []\<rparr>], purchaseOrders := [po0], poLines := [po_line0],
     stockMovements := [stock_movement env0 ''t'' ''k'' [] RECEIPT 10 None None None None None None] \<rparr>"

definition grn0 :: grn_input where
  "grn0 = \<lparr> gi_invoiceNo = None, gi_note = None, gi_lines = [\<lparr> gli_poLineId = ''l'', gli_quantity = 3, gli_rate = None \<rparr>],
     gi_createBill = False, gi_billDueDate = None \<rparr>"

lemma ordered0_ok: "stock_inv (e_cuid env0) ordered0" "po_lines_ok ordered0" "po_inv (e_cuid env0) ordered0"
  by (simp_all add: stock_inv_def stock_ok_def ordered0_def stock_columns_def ledger_balanced_def material0_def numeric_col_exact
      entry_sum_def prep_ok_def db0_def env0_def po_lines_ok_def po_line0_def po_inv_def po0_def)

lemma receive_ordered0: "\<exists>reply d'. receiveGoods env0 storekeeper0 ''k'' [] grn0 ordered0 = Inr (reply, d')"
  by (simp add: receiveGoods_def getSettings_def settings_row_of_def lockPo_def canReceivePo_def check_receipt_def maxReceivable_def
      create_grn_def fresh_def receive_line_def lineAmountsPaise_def book_bill_def case_prod_beta round3_exact
      inventory_defs ordered0_def po0_def po_line0_def grn0_def db0_def)

theorem receive_within_tolerance_witness:
  "\<exists>reply d' l'. receiveGoods env0 storekeeper0 ''k'' [] grn0 ordered0 = Inr (reply, d')
    \<and> row_by pol_id ''l'' (poLines d') = Some l' \<and> pol_receivedQty l' \<le> maxReceivable 5 0 0"
proof -
  obtain reply d' where run: "receiveGoods env0 storekeeper0 ''k'' [] grn0 ordered0 = Inr (reply, d')" using receive_ordered0 by blast
  obtain st where st: "getSettings storekeeper0 ''k'' ordered0 = Inr st" "ps_overReceiptPct st = 0"
    by (simp add: getSettings_def settings_row_of_def assertOutlet_def storekeeper0_def ordered0_def db0_def Let_def)
  have "po_line0 \<in> set (poLines ordered0)" by (simp add: ordered0_def)
  then show ?thesis using receive_within_tolerance [OF run st(1) ordered0_ok(2,1)] run st(2) by (fastforce simp: po_line0_def)
qed


end
