(* ===== verification/Stock_Ledger.thy ===== *)
theory Stock_Ledger
  imports Central_Kitchen Purchasing
begin

text \<open>
  Stock across the services that write it: the inventory, the kitchen (punching), stocktakes, the central kitchen and
  purchasing. A step is one successful request of one of them, with quantities of at most three decimals where the
  service takes them from the request, or any change elsewhere in the database that leaves the stock tables alone.
\<close>

inductive stock_step :: "(nat \<Rightarrow> id) \<Rightarrow> db \<Rightarrow> db \<Rightarrow> bool" for src where
  create: "e_cuid e = src \<Longrightarrow> 0 \<le> or_else (mi_stockQty mi) 0 \<Longrightarrow> createMaterial e user outletId mi d = Inr (i, d') \<Longrightarrow> stock_step src d d'"
| update: "updateMaterial user outletId i mu d = Inr (j, d') \<Longrightarrow> stock_step src d d'"
| delete: "deleteMaterial e user outletId i d = Inr (j, d') \<Longrightarrow> stock_step src d d'"
| receive: "decimals 3 (re_quantity re) \<Longrightarrow> receiveStock e user outletId i re d = Inr (rr, d') \<Longrightarrow> stock_step src d d'"
| waste: "decimals 3 (wa_quantity wa) \<Longrightarrow> recordWastage e user outletId i wa d = Inr (wr, d') \<Longrightarrow> stock_step src d d'"
| recipe: "setRecipe user outletId i ings d = Inr (j, d') \<Longrightarrow> stock_step src d d'"
| prep: "setPrepRecipe user outletId i ings d = Inr (pr, d') \<Longrightarrow> stock_step src d d'"
| produce: "decimals 3 q \<Longrightarrow> \<forall>x \<in> set (prep_recipe i d). decimals 3 (pi_quantity x * q) \<Longrightarrow>
    produceBatch e user outletId i q d = Inr (ba, d') \<Longrightarrow> stock_step src d d'"
| punch: "punchItems e actor orderId outletId inputs cs opts d = Inr (u, d') \<Longrightarrow> stock_step src d d'"
| count: "e_cuid e = src \<Longrightarrow> startCount e user outletId ct d = Inr (cr, d') \<Longrightarrow> stock_step src d d'"
| enter: "enterCounts e user outletId i entries d = Inr (j, d') \<Longrightarrow> stock_step src d d'"
| submit: "submitCount e user outletId i d = Inr (j, d') \<Longrightarrow> stock_step src d d'"
| cancel: "cancelCount e user outletId i d = Inr (j, d') \<Longrightarrow> stock_step src d d'"
| post: "postCount e user outletId i d = Inr (po, d') \<Longrightarrow> stock_step src d d'"
| indent: "e_cuid e = src \<Longrightarrow> createIndent e user outletId iq d = Inr (j, d') \<Longrightarrow> stock_step src d d'"
| dispatch: "dispatch e user i d = Inr (j, d') \<Longrightarrow> stock_step src d d'"
| arrive: "e_cuid e = src \<Longrightarrow> receiveIndent e user i d = Inr (j, d') \<Longrightarrow> stock_step src d d'"
| goods: "receiveGoods e user outletId i gi d = Inr (gy, d') \<Longrightarrow> stock_step src d d'"
| elsewhere: "rawMaterials d' = rawMaterials d \<Longrightarrow> stockMovements d' = stockMovements d \<Longrightarrow> recipes d' = recipes d \<Longrightarrow>
    prepRecipes d' = prepRecipes d \<Longrightarrow> stockCountLines d' = stockCountLines d \<Longrightarrow> indents d' = indents d \<Longrightarrow> seq d \<le> seq d' \<Longrightarrow>
    stock_step src d d'"

definition kitchen_ok :: "(nat \<Rightarrow> id) \<Rightarrow> db \<Rightarrow> bool" where
  "kitchen_ok src d \<longleftrightarrow> stock_inv src d \<and> count_inv src d \<and> indent_inv src d"

lemma kitchen_ok_stock:
  "kitchen_ok src d \<Longrightarrow> stock_inv src d' \<Longrightarrow> stockCountLines d' = stockCountLines d \<Longrightarrow> indents d' = indents d \<Longrightarrow> seq d \<le> seq d' \<Longrightarrow>
     kitchen_ok src d'"
  using count_inv_keep [of src d d'] indent_inv_keep [of src d d'] by (simp add: kitchen_ok_def)

lemma kitchen_ok_count:
  "kitchen_ok src d \<Longrightarrow> stock_inv src d' \<and> count_inv src d' \<Longrightarrow> indents d' = indents d \<Longrightarrow> seq d \<le> seq d' \<Longrightarrow> kitchen_ok src d'"
  using indent_inv_keep [of src d d'] by (simp add: kitchen_ok_def)

lemma stock_side_kitchen: "stock_side d d' \<Longrightarrow> kitchen_ok src d \<Longrightarrow> kitchen_ok src d'"
  using kitchen_ok_stock [of src d d'] by (simp add: stock_side_def kitchen_ok_def)

text \<open>A punch keeps the identities of the materials it depletes.\<close>

lemma punch_side:
  assumes "punchItems e actor orderId outletId inputs cs opts d = Inr (u, d')"
  shows "stock_side d d'"
proof -
  obtain n ls kot rs ms where d': "seq d < n" "d' = d\<lparr>seq := n,
      outlets := set_row ou_id outletId (\<lambda>u. u\<lparr>ou_nextKotNumber := ou_nextKotNumber u + 1\<rparr>) (outlets d),
      orderItems := orderItems d @ ls, kots := kots d @ [kot], rawMaterials := rs, stockMovements := ms\<rparr>"
    by (rule punchItems_frame [OF assms])
  have "stock_inv src d'" if inv: "stock_inv src d" for src
  proof -
    have ok: "stock_ok d" using inv by (simp add: stock_inv_def)
    obtain ks where "\<forall>m. map_option rm_stockQty (row_by rm_id m (rawMaterials d'))
        = map_option (\<lambda>r. rm_stockQty r - kitchen_use d m ks) (row_by rm_id m (rawMaterials d))"
      using punch_stock_ok [OF assms ok] by blast
    then have "row_by rm_id m (rawMaterials d') = None \<longleftrightarrow> row_by rm_id m (rawMaterials d) = None" for m
      by (metis map_option_is_None)
    then have "rm_id ` set (rawMaterials d') = rm_id ` set (rawMaterials d)" unfolding row_by_None by blast
    then show ?thesis using punch_stock_ok [OF assms ok] d' by (intro stock_inv_keep [OF inv]) simp_all
  qed
  then show ?thesis using d' by (simp add: stock_side_def)
qed

text \<open>The tables of stocktakes and indents, which the inventory service leaves alone.\<close>

definition keeps :: "db \<Rightarrow> db \<Rightarrow> bool" where
  "keeps d d' \<longleftrightarrow> stockCountLines d' = stockCountLines d \<and> indents d' = indents d \<and> seq d \<le> seq d'"

lemma keeps_simps [simp]:
  "keeps d d" "keeps d (rawMaterials_update f d1) = keeps d d1" "keeps d (post_movement m d1) = keeps d d1"
  "keeps d (take_stock i q d1) = keeps d d1" "keeps d (set_stock i q c d1) = keeps d d1" "keeps d (add_stock i q d1) = keeps d d1"
  "keeps d (recipes_update g d1) = keeps d d1" "keeps d (prepRecipes_update h d1) = keeps d d1"
  by (simp_all add: keeps_def post_movement_def take_stock_def set_stock_def add_stock_def)

lemma inventory_keeps:
  "createMaterial e user outletId mi d = Inr (i, d') \<Longrightarrow> keeps d d'"
  "updateMaterial user outletId i mu d = Inr (j, d') \<Longrightarrow> keeps d d'"
  "deleteMaterial e user outletId i d = Inr (j, d') \<Longrightarrow> keeps d d'"
  "recordWastage e user outletId i wa d = Inr (wr, d') \<Longrightarrow> keeps d d'"
  "setRecipe user outletId i ings d = Inr (j, d') \<Longrightarrow> keeps d d'"
  "setPrepRecipe user outletId i ings d = Inr (pr, d') \<Longrightarrow> keeps d d'"
  "applyReceiptTx e user outletId i re d = Inr (rr, d') \<Longrightarrow> keeps d d'"
  by (auto simp: createMaterial_def updateMaterial_def deleteMaterial_def recordWastage_def setRecipe_def setPrepRecipe_def
      applyReceiptTx_def guard_simps Let_def fresh_def) (auto simp: keeps_def)

lemma produce_keeps: "produceBatch e user outletId out q d = Inr (ba, d') \<Longrightarrow> keeps d d'"
proof -
  assume "produceBatch e user outletId out q d = Inr (ba, d')"
  then obtain plan where "write_batch e user outletId out q plan d = Inr d'"
    unfolding produceBatch_def guard_simps sum.inject prod.inject by blast
  then obtain d1 m where loop: "efold (consume_input e user outletId out) (bp_needs plan) d = Inr d1"
    and d': "d' = post_movement m (set_stock out (bp_newQty plan) (bp_blendedCost plan) d1)"
    unfolding write_batch_def guard_simps sum.inject by blast
  have "keeps d d1"
  proof (rule efold_invariant [OF loop])
    fix x s t assume "keeps d s" and "consume_input e user outletId out x s = Inr t"
    then show "keeps d t" by (cases x) (auto simp: consume_input_def guard_simps)
  qed simp
  then show ?thesis by (simp add: d')
qed

lemma count_keeps:
  "startCount e user outletId ct d = Inr (cr, d') \<Longrightarrow> indents d' = indents d \<and> seq d \<le> seq d'"
  "enterCounts e user outletId i entries d = Inr (j, d') \<Longrightarrow> indents d' = indents d \<and> seq d \<le> seq d'"
  "submitCount e user outletId i d = Inr (j, d') \<Longrightarrow> indents d' = indents d \<and> seq d \<le> seq d'"
  "cancelCount e user outletId i d = Inr (j, d') \<Longrightarrow> indents d' = indents d \<and> seq d \<le> seq d'"
  "postCount e user outletId i d = Inr (po, d') \<Longrightarrow> indents d' = indents d \<and> seq d \<le> seq d'"
proof -
  show "indents d' = indents d \<and> seq d \<le> seq d'" if run: "startCount e user outletId ct d = Inr (cr, d')"
  proof -
    from run obtain f where "d' = foldl (freeze_line e (e_cuid e (seq d))) (stockCounts_update f (d\<lparr>seq := seq d + 1\<rparr>))
        (count_materials_in user outletId (count_category ct) d)"
      unfolding startCount_def guard_simps Let_def fresh_def prod.case sum.inject prod.inject by blast
    then show ?thesis using freeze_effect [of e "e_cuid e (seq d)" "stockCounts_update f (d\<lparr>seq := seq d + 1\<rparr>)"
        "count_materials_in user outletId (count_category ct) d"] by auto
  qed
  show "indents d' = indents d \<and> seq d \<le> seq d'" if run: "enterCounts e user outletId i entries d = Inr (j, d')"
  proof -
    from run have loop: "efold (enter_line e user (count_lines i d)) entries d = Inr d'"
      unfolding enterCounts_def guard_simps sum.inject prod.inject by blast
    show ?thesis by (rule efold_invariant [OF loop]) (auto simp: enter_line_def guard_simps Let_def)
  qed
  show "indents d' = indents d \<and> seq d \<le> seq d'" if "submitCount e user outletId i d = Inr (j, d')"
    using that by (auto simp: submitCount_def guard_simps set_count_def)
  show "indents d' = indents d \<and> seq d \<le> seq d'" if "cancelCount e user outletId i d = Inr (j, d')"
    using that by (auto simp: cancelCount_def guard_simps set_count_def)
  show "indents d' = indents d \<and> seq d \<le> seq d'" if run: "postCount e user outletId i d = Inr (po, d')"
  proof -
    obtain c d1 t n where loop: "foldl (post_line e user outletId c) (d, 0, 0) (counted_lines i d) = (d1, t, n)"
      and d': "d' = audit (u_tenantId user) (Some (u_id user)) ''STOCKTAKE_POSTED'' ''StockCount'' i
             (set_count i (\<lambda>c. c\<lparr>sc_status := CountPosted, sc_postedAt := Some (e_now e), sc_postedById := Some (u_id user),
                sc_varianceValue := numeric_col 2 (round_cents t)\<rparr>) d1)" by (rule postCount_stages [OF run])
    have "indents (fst (foldl (post_line e user outletId c) s ls)) = indents (fst s) \<and> seq (fst s) = seq (fst (foldl (post_line e user outletId c) s ls))"
      for s ls
      by (induction ls arbitrary: s) (auto simp: post_line_def Let_def write_variance_def post_movement_def add_stock_def split: prod.split option.split)
    from this [of "(d, 0, 0)" "counted_lines i d"] loop show ?thesis by (simp add: d' audit_def set_count_def)
  qed
qed


lemma stock_inv_sides: "(\<And>src. stock_inv src d \<Longrightarrow> stock_inv src d') \<Longrightarrow> keeps d d' \<Longrightarrow> kitchen_ok src d \<Longrightarrow> kitchen_ok src d'"
  using kitchen_ok_stock [of src d d'] by (simp add: keeps_def kitchen_ok_def)

lemma receiveGoods_side: "receiveGoods e user outletId i gi d = Inr (gy, d') \<Longrightarrow> stock_side d d'"
proof (erule receiveGoods_stages)
  fix settings po seen grnId grnNumber s0 s and receipts :: "receipt_line list"
  assume "efold (receive_line e user outletId grnId grnNumber po) (sort_key (\<lambda>p. pol_rawMaterialId (fst p)) receipts) s0 = Inr s"
    and d: "stock_side d (gs_db s0)" "stock_side (gs_db s) d'"
  then have "stock_side (gs_db s0) (gs_db s)" using receive_loop by blast
  then show "stock_side d d'" using d stock_side_trans by blast
qed

lemma dispatch_kitchen:
  assumes run: "dispatch e user i d = Inr (j, d')" and ok: "kitchen_ok src d" shows "kitchen_ok src d'"
proof -
  have d: "stock_inv src d" "count_inv src d" "indent_inv src d" using ok by (simp_all add: kitchen_ok_def)
  then have "stock_ok d" "indents_ok d" by (simp_all add: stock_inv_def indent_inv_def)
  note eff = dispatch_effect [OF run this]
  obtain x d1 where loop: "efold (dispatch_item e user x) (in_items x) d = Inr d1"
    and d': "d' = set_indent (in_id x) (\<lambda>x. x\<lparr>in_status := IndentDispatched, in_dispatchedAt := Some (e_now e)\<rparr>) d1"
    using run unfolding dispatch_def dispatch_write_def guard_simps sum.inject prod.inject by blast
  have "in_id ` set (indents d1) = in_id ` set (indents d)"
  proof (rule efold_invariant [OF loop])
    fix y s t assume "in_id ` set (indents s) = in_id ` set (indents d)" and "dispatch_item e user x y s = Inr t"
    then show "in_id ` set (indents t) = in_id ` set (indents d)"
      unfolding dispatch_item_def guard_simps sum.inject
      by (elim exE conjE, hypsubst) (simp add: set_indent_def post_movement_def take_stock_def image_key_set_row)
  qed simp
  then have ids: "in_id ` set (indents d') = in_id ` set (indents d)" by (simp add: d' set_indent_def image_key_set_row)
  have f: "prepRecipes d' = prepRecipes d" "stockCountLines d' = stockCountLines d" "seq d \<le> seq d'"
    using eff(3) by (simp_all add: same_stock_frame_def)
  have "stock_inv src d'" by (rule stock_inv_keep [OF d(1) eff(1) f(1,3) eff(4)])
  moreover have "count_inv src d'" by (rule count_inv_keep [OF d(2) f(2,3)])
  moreover have "indent_inv src d'" using d(3) eff(2) ids f(3) by (auto simp: indent_inv_def dest!: subsetD)
  ultimately show ?thesis by (simp add: kitchen_ok_def)
qed

lemma arrive_kitchen:
  assumes run: "receiveIndent e user i d = Inr (j, d')" and ok: "kitchen_ok (e_cuid e) d" and src: "inj (e_cuid e)"
  shows "kitchen_ok (e_cuid e) d'"
proof -
  have d: "stock_inv (e_cuid e) d" "count_inv (e_cuid e) d" "indent_inv (e_cuid e) d" "indents_ok d"
    using ok by (simp_all add: kitchen_ok_def indent_inv_def)
  note eff = receiveIndent_effect [OF run d(1,4) src]
  have f: "stockCountLines d' = stockCountLines d" "seq d \<le> seq d'" using eff(3) by (simp_all add: same_stock_frame_def)
  obtain x where x: "x \<in> set (indents d)"
    and d': "d' = set_indent (in_id x) (\<lambda>x. x\<lparr>in_status := IndentReceived, in_receivedAt := Some (e_now e)\<rparr>) (foldl (receive_item e user x) d (in_items x))"
    using run unfolding receiveIndent_def requireIndent_def guard_simps sum.inject prod.inject by (blast dest: find_SomeD)
  have "\<forall>y \<in> set (in_items x). decimals 3 (ndi_dispatchedQty y)" using d(4) x by (auto simp: indents_ok_def indent_items_ok_def)
  then have "in_id ` set (indents d') = in_id ` set (indents d)"
    using receive_loop_effect [OF d(1) src, of "in_items x" user x] by (simp add: d' set_indent_def image_key_set_row)
  then have "indent_inv (e_cuid e) d'" using d(3) eff(2) f(2) by (auto simp: indent_inv_def dest!: subsetD)
  then show ?thesis using eff(1) count_inv_keep [OF d(2) f] by (simp add: kitchen_ok_def)
qed

lemma stock_step_ok:
  assumes "stock_step src d d'" and ok: "kitchen_ok src d" and src: "inj src"
  shows "kitchen_ok src d'"
proof -
  have d: "stock_inv src d" "count_inv src d" "indent_inv src d" using ok by (simp_all add: kitchen_ok_def)
  from assms(1) show ?thesis
  proof cases
    case (create e mi user outletId i)
    then show ?thesis using kitchen_ok_stock [OF ok] createMaterial_inv [OF create(3)] d(1) src inventory_keeps(1) [OF create(3)] by (simp add: keeps_def)
  next
    case update
    show ?thesis by (rule stock_inv_sides [OF _ inventory_keeps(2) [OF update] ok]) (rule updateMaterial_inv [OF update])
  next
    case delete
    show ?thesis by (rule stock_inv_sides [OF _ inventory_keeps(3) [OF delete] ok]) (rule deleteMaterial_inv [OF delete])
  next
    case (receive re e user outletId i rr)
    note run = receive_receipt [OF receive(2)]
    show ?thesis by (rule stock_inv_sides [OF _ inventory_keeps(7) [OF run] ok]) (rule receipt_inv [OF run _ receive(1)])
  next
    case (waste wa e user outletId i wr)
    show ?thesis by (rule stock_inv_sides [OF _ inventory_keeps(4) [OF waste(2)] ok]) (rule wastage_inv [OF waste(2) _ waste(1)])
  next
    case recipe
    show ?thesis by (rule stock_inv_sides [OF _ inventory_keeps(5) [OF recipe] ok]) (rule setRecipe_inv [OF recipe])
  next
    case prep
    show ?thesis by (rule stock_inv_sides [OF _ inventory_keeps(6) [OF prep] ok]) (rule setPrepRecipe_inv [OF prep])
  next
    case (produce q i e user outletId ba)
    show ?thesis
      by (rule stock_inv_sides [OF _ produce_keeps [OF produce(3)] ok]) (rule produceBatch_inv [OF produce(3) _ produce(1) produce(2) [rule_format]])
  next
    case punch
    show ?thesis by (rule stock_side_kitchen [OF punch_side [OF punch] ok])
  next
    case (count e user outletId ct cr)
    then show ?thesis using startCount_inv [OF count(2)] d(1,2) src count_keeps(1) [OF count(2)] by (intro kitchen_ok_count [OF ok]) simp_all
  next
    case enter
    then show ?thesis using enterCounts_inv [OF enter d(1,2)] count_keeps(2) [OF enter] by (intro kitchen_ok_count [OF ok]) simp_all
  next
    case submit
    then show ?thesis using submitCount_inv [OF submit d(1,2)] count_keeps(3) [OF submit] by (intro kitchen_ok_count [OF ok]) simp_all
  next
    case cancel
    then show ?thesis using cancelCount_inv [OF cancel d(1,2)] count_keeps(4) [OF cancel] by (intro kitchen_ok_count [OF ok]) simp_all
  next
    case post
    then show ?thesis using postCount_inv [OF post d(1,2)] count_keeps(5) [OF post] by (intro kitchen_ok_count [OF ok]) simp_all
  next
    case (indent e user outletId iq j)
    then obtain n xs where "seq d \<le> n" "d' = d\<lparr>seq := n, indents := xs\<rparr>" "indent_inv src d'"
      using createIndent_inv [OF indent(2)] d(3) src by blast
    moreover have "stock_inv src d'" "count_inv src d'" using calculation d(1,2)
      by (auto simp: stock_inv_def count_inv_def counts_ok_def prep_ok_def stock_ok_def stock_columns_def dest!: subsetD)
    ultimately show ?thesis by (simp add: kitchen_ok_def)
  next
    case dispatch
    then show ?thesis using dispatch_kitchen ok by blast
  next
    case (arrive e user i j)
    then show ?thesis using arrive_kitchen [OF arrive(2)] ok src by simp
  next
    case goods
    show ?thesis by (rule stock_side_kitchen [OF receiveGoods_side [OF goods] ok])
  next
    case elsewhere
    show ?thesis by (rule stock_side_kitchen [OF stock_sideI [OF elsewhere] ok])
  qed
qed


section \<open>The ledger explains the stock\<close>

lemma stock_steps_ok:
  assumes "(stock_step src)\<^sup>*\<^sup>* d d'" and "kitchen_ok src d" and "inj src" shows "kitchen_ok src d'"
  using assms(1,2) by (induction rule: rtranclp_induct) (auto intro: stock_step_ok assms(3))


definition opening0 :: create_material_input where
  "opening0 = \<lparr> mi_name = ''Lentils'', mi_unit = UnitKG, mi_stockQty = Some 10, mi_reorderLevel = None, mi_costPerUnit = Some 90 \<rparr>"


end
