(* ===== verification/Payables.thy ===== *)
theory Payables
  imports Purchasing
begin

text \<open>
  Supplier bills and payments (\<open>apps/api/src/procurement/payables.service.ts\<close>): booking and voiding bills, recording a
  payment with explicit allocations or oldest bills first, and the payables report. Bills and payments are two ledgers over
  the allocation rows: a bill's paid amount and a payment's allocated amount are both explained by them.
\<close>

section \<open>Bills\<close>

definition billStatus :: "int \<Rightarrow> int \<Rightarrow> bill_status" where
  "billStatus amountPaise paidPaise = (if paidPaise \<ge> amountPaise then BillPaid else if paidPaise > 0 then BillPartial else BillOpen)"

record supplier_bill_input =
  sbi_vendorId :: id
  sbi_billNumber :: string
  sbi_billDate :: date
  sbi_dueDate :: "date option"
  sbi_amount :: num
  sbi_purchaseOrderId :: "id option"
  sbi_goodsReceiptId :: "id option"
  sbi_note :: "string option"

text \<open>The order and the receipt a bill refers to belong to the vendor, and a receipt is billed once.\<close>

definition check_bill_order :: "auth_user \<Rightarrow> id \<Rightarrow> supplier_bill_input \<Rightarrow> db \<Rightarrow> unit result" where
  "check_bill_order user outletId input d =
    (if truthy (sbi_purchaseOrderId input) then
       require (\<exists>po \<in> set (purchaseOrders d). Some (po_id po) = sbi_purchaseOrderId input \<and> po_tenantId po = u_tenantId user
           \<and> po_outletId po = outletId \<and> po_vendorId po = sbi_vendorId input)
         (BadRequest [Txt ''PO not found for this vendor''])
     else Inr ())"

definition check_bill_receipt :: "auth_user \<Rightarrow> id \<Rightarrow> supplier_bill_input \<Rightarrow> db \<Rightarrow> unit result" where
  "check_bill_receipt user outletId input d =
    (if truthy (sbi_goodsReceiptId input) then
       ebind (require (\<exists>g \<in> set (goodsReceipts d). Some (gr_id g) = sbi_goodsReceiptId input \<and> gr_tenantId g = u_tenantId user
           \<and> gr_outletId g = outletId \<and> gr_vendorId g = sbi_vendorId input)
         (BadRequest [Txt ''Goods receipt not found for this vendor''])) (\<lambda>_.
       require (\<not> (\<exists>b \<in> set (supplierBills d). sb_goodsReceiptId b = sbi_goodsReceiptId input \<and> sb_tenantId b = u_tenantId user))
         (BadRequest [Txt ''That goods receipt already has a bill'']))
     else Inr ())"

definition createBill :: "env \<Rightarrow> auth_user \<Rightarrow> id \<Rightarrow> supplier_bill_input \<Rightarrow> db \<Rightarrow> (id \<times> db) result" where
  "createBill e user outletId input d =
    ebind (requireVendor user outletId (sbi_vendorId input) d) (\<lambda>vendor.
    ebind (check_bill_order user outletId input d) (\<lambda>_.
    ebind (check_bill_receipt user outletId input d) (\<lambda>_.
    ebind (require (\<not> (\<exists>b \<in> set (supplierBills d). sb_vendorId b = sbi_vendorId input \<and> sb_billNumber b = sbi_billNumber input
             \<and> sb_tenantId b = u_tenantId user))
        (BadRequest [Txt (''Bill '' @ sbi_billNumber input @ '' is already booked for this vendor'')])) (\<lambda>_.
      let billDate = e_localMidnight e (sbi_billDate input);
          due = (case sbi_dueDate input of Some x \<Rightarrow> Some (e_localMidnight e x)
                 | None \<Rightarrow> map_option (\<lambda>n. billDate + n * 86400000) (ve_paymentTermsDays vendor));
          (i, d1) = fresh e d
      in Inr (i, supplierBills_update (\<lambda>bs. bs @ [\<lparr> sb_id = i, sb_tenantId = u_tenantId user, sb_outletId = outletId,
           sb_vendorId = sbi_vendorId input, sb_billNumber = sbi_billNumber input, sb_billDate = billDate, sb_dueDate = due,
           sb_amount = numeric_col 2 (sbi_amount input), sb_paidAmount = 0, sb_status = BillOpen,
           sb_purchaseOrderId = sbi_purchaseOrderId input, sb_goodsReceiptId = sbi_goodsReceiptId input, sb_note = sbi_note input,
           sb_createdById = Some (u_id user) \<rparr>]) d1)))))"

definition voidBill :: "auth_user \<Rightarrow> id \<Rightarrow> id \<Rightarrow> db \<Rightarrow> db result" where
  "voidBill user outletId billId d =
    ebind (assertOutlet user outletId) (\<lambda>_.
    ebind (some_or (List.find (\<lambda>b. sb_id b = billId \<and> sb_tenantId b = u_tenantId user \<and> sb_outletId b = outletId) (supplierBills d))
        (NotFound [Txt ''Bill not found''])) (\<lambda>b.
    ebind (require (sb_status b \<noteq> BillVoid) (BadRequest [Txt ''Bill is already void''])) (\<lambda>_.
    ebind (require (\<not> sb_paidAmount b > 0) (BadRequest [Txt ''A bill with payments can't be voided''])) (\<lambda>_.
      Inr (supplierBills_update (set_row sb_id billId (\<lambda>b. b\<lparr>sb_status := BillVoid\<rparr>)) d)))))"

section \<open>Payments\<close>

record supplier_payment_input =
  spi_vendorId :: id
  spi_amount :: num
  spi_mode :: string
  spi_reference :: "string option"
  spi_paidAt :: "date option"
  spi_note :: "string option"
  spi_allocations :: "(id \<times> num) list option"

text \<open>The vendor's open bills, oldest due date first and bills without one last.\<close>

definition open_bills :: "auth_user \<Rightarrow> id \<Rightarrow> id \<Rightarrow> db \<Rightarrow> supplier_bill_row list" where
  "open_bills user outletId vendorId d =
     sort_key (\<lambda>b. (case sb_dueDate b of Some t \<Rightarrow> (0 :: nat, t) | None \<Rightarrow> (1, 0), sb_billDate b))
       (filter (\<lambda>b. sb_vendorId b = vendorId \<and> sb_tenantId b = u_tenantId user \<and> sb_outletId b = outletId
                  \<and> sb_status b \<in> {BillOpen, BillPartial}) (supplierBills d))"

definition due_paise :: "supplier_bill_row \<Rightarrow> int" where
  "due_paise b = toPaise (sb_amount b) - toPaise (sb_paidAmount b)"

definition plan_sum :: "(id \<times> int) list \<Rightarrow> int" where
  "plan_sum plan = foldl (\<lambda>s p. s + snd p) 0 plan"

definition plan_one :: "supplier_bill_row list \<Rightarrow> id \<times> num \<Rightarrow> (id \<times> int) result" where
  "plan_one bills = (\<lambda>(billId, amount).
    ebind (some_or (row_by sb_id billId bills) (BadRequest [Txt ''Allocation to a bill that isn't open for this vendor''])) (\<lambda>b.
    ebind (require (\<not> toPaise amount > due_paise b) (BadRequest [Txt ''Allocation exceeds the bill's outstanding amount''])) (\<lambda>_.
      Inr (billId, toPaise amount))))"

definition plan_explicit :: "supplier_bill_row list \<Rightarrow> int \<Rightarrow> (id \<times> num) list \<Rightarrow> (id \<times> int) list result" where
  "plan_explicit bills amountPaise allocations =
    ebind (emap (plan_one bills) allocations) (\<lambda>plan.
    ebind (require (distinct (map fst plan)) (BadRequest [Txt ''Duplicate bill allocation''])) (\<lambda>_.
    ebind (require (\<not> plan_sum plan > amountPaise) (BadRequest [Txt ''Allocations exceed the payment amount''])) (\<lambda>_.
      Inr plan)))"

fun plan_oldest :: "int \<Rightarrow> supplier_bill_row list \<Rightarrow> (id \<times> int) list" where
  "plan_oldest left [] = []"
| "plan_oldest left (b # bs) = (if left \<le> 0 then [] else
     let paise = min left (due_paise b)
     in (if paise > 0 then [(sb_id b, paise)] else []) @ plan_oldest (left - paise) bs)"

definition plan_payment :: "supplier_bill_row list \<Rightarrow> supplier_payment_input \<Rightarrow> (id \<times> int) list result" where
  "plan_payment bills input = (case spi_allocations input of
     Some (a # as) \<Rightarrow> plan_explicit bills (toPaise (spi_amount input)) (a # as)
   | _ \<Rightarrow> Inr (plan_oldest (toPaise (spi_amount input)) bills))"

definition allocate :: "env \<Rightarrow> auth_user \<Rightarrow> id \<Rightarrow> supplier_bill_row list \<Rightarrow> db \<Rightarrow> id \<times> int \<Rightarrow> db" where
  "allocate e user paymentId bills d = (\<lambda>(billId, paise).
    let bill = the (row_by sb_id billId bills);
        paidPaise = toPaise (sb_paidAmount bill) + paise;
        (i, d1) = fresh e d
    in paymentAllocations_update (\<lambda>as. as @ [\<lparr> al_id = i, al_tenantId = u_tenantId user, al_paymentId = paymentId, al_billId = billId,
           al_amount = numeric_col 2 (of_int paise / 100) \<rparr>])
         (supplierBills_update (set_row sb_id billId (\<lambda>b. b\<lparr>sb_paidAmount := numeric_col 2 (of_int paidPaise / 100),
            sb_status := billStatus (toPaise (sb_amount bill)) paidPaise\<rparr>)) d1))"

record payment_reply =
  spr_id :: id
  spr_allocated :: num
  spr_unallocated :: num

definition create_payment :: "env \<Rightarrow> auth_user \<Rightarrow> id \<Rightarrow> supplier_payment_input \<Rightarrow> int \<Rightarrow> db \<Rightarrow> id \<times> db" where
  "create_payment e user outletId input unallocated d = (case fresh e d of (i, d1) \<Rightarrow>
     (i, supplierPayments_update (\<lambda>ps. ps @ [\<lparr> sp_id = i, sp_tenantId = u_tenantId user, sp_outletId = outletId,
        sp_vendorId = spi_vendorId input, sp_amount = numeric_col 2 (spi_amount input),
        sp_unallocated = numeric_col 2 (of_int unallocated / 100), sp_mode = spi_mode input, sp_reference = spi_reference input,
        sp_note = spi_note input, sp_paidAt = (case spi_paidAt input of Some x \<Rightarrow> e_localMidnight e x | None \<Rightarrow> e_now e),
        sp_createdById = Some (u_id user) \<rparr>]) d1))"

definition recordPayment :: "env \<Rightarrow> auth_user \<Rightarrow> id \<Rightarrow> supplier_payment_input \<Rightarrow> db \<Rightarrow> (payment_reply \<times> db) result" where
  "recordPayment e user outletId input d =
    ebind (requireVendor user outletId (spi_vendorId input) d) (\<lambda>_.
      let bills = open_bills user outletId (spi_vendorId input) d
      in ebind (plan_payment bills input) (\<lambda>plan.
         let allocated = plan_sum plan;
             unallocated = toPaise (spi_amount input) - allocated;
             (i, d1) = create_payment e user outletId input unallocated d
         in Inr (\<lparr> spr_id = i, spr_allocated = of_int allocated / 100, spr_unallocated = of_int unallocated / 100 \<rparr>,
                 foldl (allocate e user i bills) d1 plan)))"

section \<open>The report\<close>

record vendor_payable =
  vp_vendorId :: id
  vp_vendorName :: string
  vp_billed :: num
  vp_paid :: num
  vp_outstanding :: num
  vp_overdue :: num
  vp_credit :: num
  vp_openBills :: nat
  vp_oldestDue :: "int option"

definition paise_sum :: "('a \<Rightarrow> int) \<Rightarrow> 'a list \<Rightarrow> int" where
  "paise_sum f xs = foldl (\<lambda>s x. s + f x) 0 xs"

definition vendor_payable_of :: "env \<Rightarrow> supplier_bill_row list \<Rightarrow> supplier_payment_row list \<Rightarrow> vendor_row \<Rightarrow> vendor_payable" where
  "vendor_payable_of e bills pays v =
    (let vb = filter (\<lambda>b. sb_vendorId b = ve_id v) bills;
         vp = filter (\<lambda>p. sp_vendorId p = ve_id v) pays;
         billed = paise_sum (\<lambda>b. toPaise (sb_amount b)) vb;
         paidOnBills = paise_sum (\<lambda>b. toPaise (sb_paidAmount b)) vb;
         opn = filter (\<lambda>b. sb_status b = BillOpen \<or> sb_status b = BillPartial) vb;
         overdue = paise_sum due_paise (filter (\<lambda>b. case sb_dueDate b of Some t \<Rightarrow> t < e_now e | None \<Rightarrow> False) opn);
         dues = sort (List.map_filter sb_dueDate opn)
     in \<lparr> vp_vendorId = ve_id v, vp_vendorName = ve_name v, vp_billed = of_int billed / 100,
          vp_paid = of_int (paise_sum (\<lambda>p. toPaise (sp_amount p)) vp) / 100, vp_outstanding = of_int (billed - paidOnBills) / 100,
          vp_overdue = of_int overdue / 100, vp_credit = of_int (paise_sum (\<lambda>p. toPaise (sp_unallocated p)) vp) / 100,
          vp_openBills = length opn, vp_oldestDue = (case dues of [] \<Rightarrow> None | t # _ \<Rightarrow> Some t) \<rparr>)"

definition payables :: "env \<Rightarrow> auth_user \<Rightarrow> id \<Rightarrow> db \<Rightarrow> vendor_payable list result" where
  "payables e user outletId d =
    ebind (assertOutlet user outletId) (\<lambda>_.
      let vs = filter (\<lambda>v. ve_tenantId v = u_tenantId user \<and> ve_outletId v = outletId \<and> ve_deletedAt v = None) (vendors d);
          bills = filter (\<lambda>b. sb_tenantId b = u_tenantId user \<and> sb_outletId b = outletId \<and> sb_status b \<noteq> BillVoid) (supplierBills d);
          pays = filter (\<lambda>p. sp_tenantId p = u_tenantId user \<and> sp_outletId p = outletId) (supplierPayments d)
      in Inr (sort_key (\<lambda>r. - vp_outstanding r)
           (filter (\<lambda>r. vp_billed r > 0 \<or> vp_paid r > 0) (map (vendor_payable_of e bills pays) vs))))"

section \<open>The plan\<close>

interpretation bl: ledger "supplierBills :: db \<Rightarrow> _" supplierBills_update sb_id sb_paidAmount
    paymentAllocations paymentAllocations_update al_billId al_amount
  by unfold_locales (simp_all add: comp_def)

lemma paise_sum_list: "paise_sum f xs = (\<Sum>x\<leftarrow>xs. f x)"
proof -
  have "foldl (\<lambda>s x. s + f x) k xs = k + (\<Sum>x\<leftarrow>xs. f x)" for k by (induction xs arbitrary: k) simp_all
  then show ?thesis by (simp add: paise_sum_def)
qed

lemma plan_sum_list: "plan_sum plan = (\<Sum>p\<leftarrow>plan. snd p)"
  using paise_sum_list [of snd plan] by (simp add: paise_sum_def plan_sum_def)

definition plan_ok :: "supplier_bill_row list \<Rightarrow> (id \<times> int) list \<Rightarrow> bool" where
  "plan_ok bills plan \<longleftrightarrow> distinct (map fst plan)
     \<and> (\<forall>(b, p) \<in> set plan. \<exists>r. row_by sb_id b bills = Some r \<and> 0 \<le> p \<and> p \<le> due_paise r)"

lemma plan_oldest_facts:
  assumes "\<forall>b \<in> set bs. 0 \<le> due_paise b" and "0 \<le> left"
  shows "0 \<le> plan_sum (plan_oldest left bs) \<and> plan_sum (plan_oldest left bs) \<le> left
    \<and> (\<forall>(i, p) \<in> set (plan_oldest left bs). \<exists>r \<in> set bs. sb_id r = i \<and> 0 \<le> p \<and> p \<le> due_paise r)
    \<and> (distinct (map sb_id bs) \<longrightarrow> distinct (map fst (plan_oldest left bs)))"
  using assms
proof (induction left bs rule: plan_oldest.induct)
  case (2 left b bs)
  show ?case
  proof (cases "left \<le> 0")
    case False
    have IH: "0 \<le> plan_sum (plan_oldest (left - min left (due_paise b)) bs) \<and>
        plan_sum (plan_oldest (left - min left (due_paise b)) bs) \<le> left - min left (due_paise b)
      \<and> (\<forall>(i, p) \<in> set (plan_oldest (left - min left (due_paise b)) bs). \<exists>r \<in> set bs. sb_id r = i \<and> 0 \<le> p \<and> p \<le> due_paise r)
      \<and> (distinct (map sb_id bs) \<longrightarrow> distinct (map fst (plan_oldest (left - min left (due_paise b)) bs)))"
      using 2 False by simp
    define rest where "rest = plan_oldest (left - min left (due_paise b)) bs"
    note IH = IH [folded rest_def]
    have new: "sb_id b \<notin> fst ` set rest" if "sb_id b \<notin> sb_id ` set bs" using IH that by fastforce
    have plan: "plan_oldest left (b # bs) = (if min left (due_paise b) > 0 then [(sb_id b, min left (due_paise b))] else []) @ rest"
      using False by (simp add: Let_def rest_def)
    have "\<exists>r \<in> set (b # bs). sb_id r = i \<and> 0 \<le> p \<and> p \<le> due_paise r" if "(i, p) \<in> set (plan_oldest left (b # bs))" for i p
      using that IH unfolding plan by (fastforce split: if_splits)
    moreover have "plan_sum (plan_oldest left (b # bs)) = min left (due_paise b) + plan_sum rest"
      using 2(2) False unfolding plan by (simp add: plan_sum_list min_def)
    moreover have "distinct (map sb_id (b # bs)) \<longrightarrow> distinct (map fst (plan_oldest left (b # bs)))"
      using IH new unfolding plan by auto
    ultimately show ?thesis using IH False 2(2) by (auto simp del: plan_oldest.simps)
  qed (use 2(3) in \<open>simp add: plan_sum_list\<close>)
qed (simp add: plan_sum_list)

lemma plan_payment_facts:
  assumes plan: "plan_payment bills input = Inr plan" and "\<forall>b \<in> set bills. 0 \<le> due_paise b" and "0 \<le> spi_amount input"
    and "distinct (map sb_id bills)" and pos: "\<forall>(b, a) \<in> set (or_else (spi_allocations input) []). 0 \<le> a"
  shows "plan_ok bills plan \<and> 0 \<le> plan_sum plan \<and> plan_sum plan \<le> toPaise (spi_amount input)"
proof (cases "spi_allocations input = None \<or> spi_allocations input = Some []")
  case True
  then have "plan = plan_oldest (toPaise (spi_amount input)) bills" using plan by (auto simp: plan_payment_def)
  then show ?thesis using plan_oldest_facts [OF assms(2) toPaise_nonneg [OF assms(3)]] assms(4)
    by (fastforce simp: plan_ok_def intro: row_by_distinct)
next
  case False
  then obtain as where as: "spi_allocations input = Some as" "as \<noteq> []" by auto
  then have "plan_explicit bills (toPaise (spi_amount input)) as = Inr plan"
    using plan by (cases as) (simp_all add: plan_payment_def)
  then have e: "emap (plan_one bills) as = Inr plan" "distinct (map fst plan)" "plan_sum plan \<le> toPaise (spi_amount input)"
    by (auto simp: plan_explicit_def guard_simps)
  have each: "\<exists>r. row_by sb_id b bills = Some r \<and> 0 \<le> p \<and> p \<le> due_paise r" if "(b, p) \<in> set plan" for b p
    using emap_Inr_preimage [OF e(1) that] pos as(1) by (fastforce simp: plan_one_def guard_simps intro: toPaise_nonneg)
  then have "0 \<le> plan_sum plan" unfolding plan_sum_list by (intro sum_list_nonneg_map) fastforce
  with e each show ?thesis by (auto simp: plan_ok_def)
qed

section \<open>The invariant\<close>

definition bill_ok :: "supplier_bill_row \<Rightarrow> bool" where
  "bill_ok b \<longleftrightarrow> paise_exact (sb_amount b) \<and> paise_exact (sb_paidAmount b) \<and> 0 \<le> sb_paidAmount b \<and> sb_paidAmount b \<le> sb_amount b
     \<and> (case sb_status b of BillPaid \<Rightarrow> sb_paidAmount b = sb_amount b
        | BillPartial \<Rightarrow> 0 < sb_paidAmount b \<and> sb_paidAmount b < sb_amount b
        | _ \<Rightarrow> sb_paidAmount b = 0)"

definition payment_ok :: "supplier_payment_row \<Rightarrow> bool" where
  "payment_ok p \<longleftrightarrow> paise_exact (sp_amount p) \<and> paise_exact (sp_unallocated p) \<and> 0 \<le> sp_unallocated p \<and> sp_unallocated p \<le> sp_amount p"

definition vendor_paid :: "id \<times> id \<times> id \<Rightarrow> supplier_bill_row list \<Rightarrow> num" where
  "vendor_paid v bs = (\<Sum>b\<leftarrow>bs. if (sb_tenantId b, sb_outletId b, sb_vendorId b) = v then sb_paidAmount b else 0)"

definition vendor_spent :: "id \<times> id \<times> id \<Rightarrow> supplier_payment_row list \<Rightarrow> num" where
  "vendor_spent v ps = (\<Sum>p\<leftarrow>ps. if (sp_tenantId p, sp_outletId p, sp_vendorId p) = v then sp_amount p - sp_unallocated p else 0)"

lemma due_paise_exact: "bill_ok b \<Longrightarrow> of_int (due_paise b) / 100 = sb_amount b - sb_paidAmount b"
  by (simp add: bill_ok_def due_paise_def paise_exact_toPaise diff_divide_distrib)

lemma due_paise_nonneg: "bill_ok b \<Longrightarrow> 0 \<le> due_paise b"
  unfolding bill_ok_def due_paise_def using toPaise_mono [of "sb_paidAmount b" "sb_amount b"] by simp

lemma amount_col_nonneg: "0 \<le> x \<Longrightarrow> 0 \<le> numeric_col 2 x"
  using numeric_col_mono [of 0 x 2] numeric_col_exact [of 2 0] by simp

lemma paise_column [simp]: "numeric_col 2 (of_int n / 100) = of_int n / 100"
  by (rule numeric_col_exact) simp

lemma amount_column: "0 \<le> x \<Longrightarrow> numeric_col 2 x = of_int (toPaise x) / 100"
  by (simp add: numeric_col_def round_away_def toPaise_def js_round_def)

text \<open>Paying a part of what is due keeps the bill's columns consistent.\<close>

definition paid_up :: "int \<Rightarrow> supplier_bill_row \<Rightarrow> supplier_bill_row" where
  "paid_up p b = b\<lparr> sb_paidAmount := of_int (toPaise (sb_paidAmount b) + p) / 100,
     sb_status := billStatus (toPaise (sb_amount b)) (toPaise (sb_paidAmount b) + p) \<rparr>"

lemma paid_up_owner [simp]: "sb_tenantId (paid_up p b) = sb_tenantId b" "sb_outletId (paid_up p b) = sb_outletId b" "sb_vendorId (paid_up p b) = sb_vendorId b"
  by (simp_all add: paid_up_def)

lemma paid_up_amount: "paise_exact (sb_paidAmount b) \<Longrightarrow> sb_paidAmount (paid_up p b) = sb_paidAmount b + of_int p / 100"
  by (simp add: paid_up_def add_divide_distrib paise_exact_toPaise)

lemma paid_up_ok:
  assumes "bill_ok b" "0 \<le> p" "p \<le> due_paise b"
  shows "bill_ok (paid_up p b)"
proof -
  let ?a = "toPaise (sb_amount b)" and ?q = "toPaise (sb_paidAmount b) + p"
  have "0 \<le> ?q" using assms(1,2) by (simp add: bill_ok_def toPaise_nonneg)
  moreover have "?q \<le> ?a" using assms(3) by (simp add: due_paise_def)
  moreover have "sb_amount b = of_int ?a / 100" using assms(1) by (simp add: bill_ok_def paise_exact_iff)
  moreover have "paise_exact (of_int ?q / 100)" by (rule paise_exact_of_int_div)
  ultimately show ?thesis using assms(1) by (auto simp: bill_ok_def paid_up_def billStatus_def divide_right_mono)
qed

lemma allocate_eq:
  assumes "row_by sb_id b bills = Some r"
  shows "allocate e user pid bills d (b, p) =
    paymentAllocations_update (\<lambda>as. as @ [\<lparr> al_id = e_cuid e (seq d), al_tenantId = u_tenantId user, al_paymentId = pid, al_billId = b,
        al_amount = of_int p / 100 \<rparr>])
      (supplierBills_update (set_row sb_id b (\<lambda>s. s\<lparr> sb_paidAmount := sb_paidAmount (paid_up p r), sb_status := sb_status (paid_up p r) \<rparr>))
        (d\<lparr>seq := seq d + 1\<rparr>))"
  using assms by (simp add: allocate_def paid_up_def fresh_def Let_def)

definition entry_of :: "allocation_row \<Rightarrow> id \<times> id \<times> num" where
  "entry_of a = (al_paymentId a, al_billId a, al_amount a)"

text \<open>Posting a plan: the bills stay a balanced ledger with consistent columns, and every paisa of the plan reaches a bill of the vendor.\<close>

lemma allocate_fold:
  assumes "plan_ok bills plan" and "bl.balanced d" and "\<forall>b \<in> set (supplierBills d). bill_ok b"
    and "\<forall>(b, p) \<in> set plan. row_by sb_id b (supplierBills d) = row_by sb_id b bills"
    and "\<forall>b \<in> set bills. (sb_tenantId b, sb_outletId b, sb_vendorId b) = v"
  shows "bl.balanced (foldl (allocate e user pid bills) d plan) \<and> (\<forall>b \<in> set (supplierBills (foldl (allocate e user pid bills) d plan)). bill_ok b)
    \<and> supplierPayments (foldl (allocate e user pid bills) d plan) = supplierPayments d \<and> seq d \<le> seq (foldl (allocate e user pid bills) d plan)
    \<and> sb_id ` set (supplierBills (foldl (allocate e user pid bills) d plan)) = sb_id ` set (supplierBills d)
    \<and> map entry_of (paymentAllocations (foldl (allocate e user pid bills) d plan))
        = map entry_of (paymentAllocations d) @ map (\<lambda>(b, p). (pid, b, of_int p / 100)) plan
    \<and> (\<forall>w. vendor_paid w (supplierBills (foldl (allocate e user pid bills) d plan))
        = vendor_paid w (supplierBills d) + (if w = v then of_int (plan_sum plan) / 100 else 0))"
  using assms
proof (induction plan arbitrary: d)
  case Nil
  then show ?case by (simp add: plan_sum_list)
next
  case (Cons x plan)
  obtain b p where x: "x = (b, p)" by (cases x)
  from Cons.prems(1) obtain r where r: "row_by sb_id b bills = Some r" "0 \<le> p" "p \<le> due_paise r" by (auto simp: plan_ok_def x)
  have row: "row_by sb_id b (supplierBills d) = Some r" using Cons.prems(4) r(1) by (simp add: x)
  have ok: "bill_ok r" using Cons.prems(3) row_by_Some [OF row] by blast
  have vr: "(sb_tenantId r, sb_outletId r, sb_vendorId r) = v" using Cons.prems(5) row_by_Some [OF r(1)] by blast
  define f where "f = (\<lambda>s :: supplier_bill_row. s\<lparr> sb_paidAmount := sb_paidAmount (paid_up p r), sb_status := sb_status (paid_up p r) \<rparr>)"
  have fr: "f r = paid_up p r" by (simp add: f_def paid_up_def)
  have key: "sb_id (f s) = sb_id s" for s by (simp add: f_def)
  define entry where "entry = \<lparr> al_id = e_cuid e (seq d), al_tenantId = u_tenantId user, al_paymentId = pid, al_billId = b, al_amount = of_int p / 100 \<rparr>"
  define d1 where "d1 = paymentAllocations_update (\<lambda>as. as @ [entry]) (supplierBills_update (set_row sb_id b f) (d\<lparr>seq := seq d + 1\<rparr>))"
  have step: "allocate e user pid bills d x = d1" unfolding x allocate_eq [OF r(1)] d1_def f_def entry_def ..
  have dist: "distinct (map sb_id (supplierBills d))" using Cons.prems(2) by (simp add: ledger_balanced_def)
  have bal: "bl.balanced d1" unfolding d1_def
    using Cons.prems(2) row ok by (intro bl.balanced_post [where r = r]) (simp_all add: key fr entry_def paid_up_amount bill_ok_def)
  have "bill_ok s" if "s \<in> set (supplierBills d1)" for s
  proof -
    from that have "s \<in> set (set_row sb_id b f (supplierBills d))" by (simp add: d1_def)
    then show ?thesis
    proof (cases rule: set_row_memberE)
      case (1 s')
      then have "s' = r" using row_by_distinct [OF dist, of s'] row by simp
      then show ?thesis using 1 fr paid_up_ok [OF ok r(2,3)] by simp
    qed (use Cons.prems(3) in blast)
  qed
  then have oks: "\<forall>s \<in> set (supplierBills d1). bill_ok s" by blast
  have same: "\<forall>(c, q) \<in> set plan. row_by sb_id c (supplierBills d1) = row_by sb_id c bills"
  proof clarify
    fix c q
    assume cq: "(c, q) \<in> set plan"
    then have "c \<noteq> b" using Cons.prems(1) by (auto simp: plan_ok_def x image_iff)
    then show "row_by sb_id c (supplierBills d1) = row_by sb_id c bills" using Cons.prems(4) cq by (auto simp: d1_def row_by_set_row key)
  qed
  have paid: "vendor_paid w (supplierBills d1) = vendor_paid w (supplierBills d) + (if w = v then of_int p / 100 else 0)" for w
    using sum_list_set_row [OF dist row, of "\<lambda>b. if (sb_tenantId b, sb_outletId b, sb_vendorId b) = w then sb_paidAmount b else 0" f] vr ok
    by (auto simp: vendor_paid_def d1_def fr paid_up_amount bill_ok_def)
  have plan: "plan_ok bills plan" using Cons.prems(1) by (simp add: plan_ok_def)
  have fold: "foldl (allocate e user pid bills) d (x # plan) = foldl (allocate e user pid bills) d1 plan" by (simp only: foldl.simps step)
  have frame: "supplierPayments d1 = supplierPayments d" "seq d1 = seq d + 1" "sb_id ` set (supplierBills d1) = sb_id ` set (supplierBills d)"
    "map entry_of (paymentAllocations d1) = map entry_of (paymentAllocations d) @ [(pid, b, of_int p / 100)]"
    by (simp_all add: d1_def entry_def entry_of_def image_key_set_row key)
  show ?case unfolding fold using Cons.IH [OF plan bal oks same Cons.prems(5)] paid frame
    by (simp add: x plan_sum_list add_divide_distrib)
qed

text \<open>The invariant of the payables tables: two balanced ledgers over the allocations, consistent columns, and per vendor what the
  payments spent is what the bills received.\<close>

interpretation pl: ledger "supplierPayments :: db \<Rightarrow> _" supplierPayments_update sp_id "\<lambda>p. sp_amount p - sp_unallocated p"
    paymentAllocations paymentAllocations_update al_paymentId al_amount
  by unfold_locales (simp_all add: comp_def)

definition payables_inv :: "(nat \<Rightarrow> id) \<Rightarrow> db \<Rightarrow> bool" where
  "payables_inv src d \<longleftrightarrow> bl.balanced d \<and> pl.balanced d \<and> (\<forall>b \<in> set (supplierBills d). bill_ok b) \<and> (\<forall>p \<in> set (supplierPayments d). payment_ok p)
     \<and> (\<forall>v. vendor_paid v (supplierBills d) = vendor_spent v (supplierPayments d))
     \<and> sb_id ` set (supplierBills d) \<subseteq> src ` {..<seq d} \<and> sp_id ` set (supplierPayments d) \<subseteq> src ` {..<seq d}"

lemma entry_sum_entries:
  "entry_sum al_paymentId al_amount i as = (\<Sum>(x, y, a)\<leftarrow>map entry_of as. if x = i then a else 0)"
  "al_paymentId ` set as = fst ` set (map entry_of as)"
  by (induction as) (auto simp: entry_sum_def entry_of_def)

lemma plan_entries: "(\<Sum>(x, y, a)\<leftarrow>map (\<lambda>(b, p). (pid, b, of_int p / 100)) plan. if x = i then a else 0)
    = (if i = pid then of_int (plan_sum plan) / 100 else (0 :: num))"
  by (induction plan) (auto simp: plan_sum_list add_divide_distrib)

lemma create_payment_effect:
  assumes "0 \<le> spi_amount input"
  obtains pay where "snd (create_payment e user outletId input n d) = d\<lparr>seq := seq d + 1, supplierPayments := supplierPayments d @ [pay]\<rparr>"
    and "sp_id pay = e_cuid e (seq d)" and "(sp_tenantId pay, sp_outletId pay, sp_vendorId pay) = (u_tenantId user, outletId, spi_vendorId input)"
    and "sp_amount pay = of_int (toPaise (spi_amount input)) / 100" and "sp_unallocated pay = of_int n / 100"
proof -
  define pay where "pay = last (supplierPayments (snd (create_payment e user outletId input n d)))"
  show ?thesis
    by (rule that [of pay]) (simp_all only: pay_def, simp_all add: create_payment_def fresh_def amount_column [OF assms])
qed

lemma recordPayment_inv:
  assumes run: "recordPayment e user outletId input d = Inr (reply, d')" and inv: "payables_inv (e_cuid e) d" and src: "inj (e_cuid e)"
    and amount: "0 < spi_amount input" and pos: "\<forall>(b, a) \<in> set (or_else (spi_allocations input) []). 0 < a"
  shows "payables_inv (e_cuid e) d'"
proof -
  define bills where "bills = open_bills user outletId (spi_vendorId input) d"
  define v where "v = (u_tenantId user, outletId, spi_vendorId input)"
  define pid where "pid = e_cuid e (seq d)"
  from run obtain plan where plan: "plan_payment bills input = Inr plan"
    and d': "d' = foldl (allocate e user pid bills) (snd (create_payment e user outletId input (toPaise (spi_amount input) - plan_sum plan) d)) plan"
    unfolding recordPayment_def guard_simps Let_def case_prod_beta sum.inject prod.inject bills_def [symmetric]
    by (auto simp: create_payment_def fresh_def pid_def)
  have sub: "set bills \<subseteq> set (supplierBills d)" by (auto simp: bills_def open_bills_def)
  have ok: "\<forall>b \<in> set (supplierBills d). bill_ok b" using inv by (simp add: payables_inv_def)
  have dist0: "distinct (map sb_id (supplierBills d))" using inv by (simp add: payables_inv_def ledger_balanced_def)
  then have dist: "distinct (map sb_id bills)" by (simp add: bills_def open_bills_def distinct_map inj_on_def)
  have due: "\<forall>b \<in> set bills. 0 \<le> due_paise b" using sub ok by (auto intro: due_paise_nonneg)
  have nonneg: "\<forall>(b, a) \<in> set (or_else (spi_allocations input) []). 0 \<le> a" using pos by fastforce
  have facts: "plan_ok bills plan" "0 \<le> plan_sum plan" "plan_sum plan \<le> toPaise (spi_amount input)"
    using plan_payment_facts [OF plan due _ dist nonneg] amount by auto
  obtain pay where pay: "snd (create_payment e user outletId input (toPaise (spi_amount input) - plan_sum plan) d)
      = d\<lparr>seq := seq d + 1, supplierPayments := supplierPayments d @ [pay]\<rparr>"
    and row: "sp_id pay = pid" "(sp_tenantId pay, sp_outletId pay, sp_vendorId pay) = v" "sp_amount pay = of_int (toPaise (spi_amount input)) / 100"
      "sp_unallocated pay = of_int (toPaise (spi_amount input) - plan_sum plan) / 100"
    by (rule create_payment_effect [of input e user outletId "toPaise (spi_amount input) - plan_sum plan" d])
      (use amount in \<open>simp_all add: pid_def v_def\<close>)
  define d1 where "d1 = d\<lparr>seq := seq d + 1, supplierPayments := supplierPayments d @ [pay]\<rparr>"
  have look: "row_by sb_id b (supplierBills d1) = row_by sb_id b bills" if "(b, p) \<in> set plan" for b p
  proof -
    have "\<exists>r. row_by sb_id b bills = Some r" using facts(1) that by (auto simp: plan_ok_def)
    then obtain r where r: "row_by sb_id b bills = Some r" by blast
    then show ?thesis using row_by_distinct [OF dist0, of r] row_by_Some [OF r] sub by (auto simp: d1_def)
  qed
  have owner: "\<forall>b \<in> set bills. (sb_tenantId b, sb_outletId b, sb_vendorId b) = v" by (auto simp: bills_def open_bills_def v_def)
  have bal1: "bl.balanced d1" using inv by (simp add: payables_inv_def d1_def)
  have ok1: "\<forall>b \<in> set (supplierBills d1). bill_ok b" using ok by (simp add: d1_def)
  have look1: "\<forall>(b, p) \<in> set plan. row_by sb_id b (supplierBills d1) = row_by sb_id b bills" using look by blast
  note f = allocate_fold [OF facts(1) bal1 ok1 look1 owner, of e user pid, folded d' [unfolded pay d1_def [symmetric]]]
  have f': "bl.balanced d'" "\<forall>b \<in> set (supplierBills d'). bill_ok b" "supplierPayments d' = supplierPayments d @ [pay]" "seq d + 1 \<le> seq d'"
      "sb_id ` set (supplierBills d') = sb_id ` set (supplierBills d)"
      "map entry_of (paymentAllocations d') = map entry_of (paymentAllocations d) @ map (\<lambda>(b, p). (pid, b, of_int p / 100)) plan"
      "\<And>w. vendor_paid w (supplierBills d') = vendor_paid w (supplierBills d) + (if w = v then of_int (plan_sum plan) / 100 else 0)"
    using f by (simp_all add: d1_def del: split_paired_All)
  have new: "pid \<notin> sp_id ` set (supplierPayments d)" using unused_id [OF src] inv by (simp add: payables_inv_def pid_def)
  have used: "al_paymentId ` set (paymentAllocations d) \<subseteq> sp_id ` set (supplierPayments d)" using inv by (simp add: payables_inv_def ledger_balanced_def)
  have sum: "entry_sum al_paymentId al_amount i (paymentAllocations d') = entry_sum al_paymentId al_amount i (paymentAllocations d)
      + (if i = pid then of_int (plan_sum plan) / 100 else 0)" for i
    by (simp only: entry_sum_entries f'(6) map_append sum_list_append plan_entries)
  have "pl.balanced d'"
  proof -
    have "al_paymentId ` set (paymentAllocations d') \<subseteq> insert pid (sp_id ` set (supplierPayments d))"
      unfolding entry_sum_entries(2) f'(6) using used [unfolded entry_sum_entries(2)] by auto
    moreover have "entry_sum al_paymentId al_amount pid (paymentAllocations d) = 0" using new used by (intro entry_sum_unused) blast
    moreover have "sp_id r \<noteq> pid" if "r \<in> set (supplierPayments d)" for r using new that by auto
    ultimately show ?thesis using inv new sum row by (auto simp: payables_inv_def ledger_balanced_def f'(3) diff_divide_distrib)
  qed
  moreover have "payment_ok pay"
    unfolding payment_ok_def row(3,4) using facts(2,3) by (intro conjI paise_exact_of_int_div) (simp_all add: divide_right_mono)
  moreover have "vendor_spent w (supplierPayments d') = vendor_spent w (supplierPayments d) + (if w = v then of_int (plan_sum plan) / 100 else 0)" for w
    using row by (simp add: f'(3) vendor_spent_def diff_divide_distrib)
  ultimately show ?thesis using inv f' row(1) unfolding payables_inv_def
    by (auto simp: pid_def dest: drawn_mono [where m = "seq d'"] subsetD)
qed

section \<open>Every step keeps the books\<close>

lemma new_bill_inv:
  assumes inv: "payables_inv src d" and src: "inj src" and row: "sb_id row = src n" "sb_paidAmount row = 0" "sb_status row = BillOpen"
      "paise_exact (sb_amount row)" "0 \<le> sb_amount row"
    and d': "supplierBills d' = supplierBills d @ [row]" "supplierPayments d' = supplierPayments d" "paymentAllocations d' = paymentAllocations d"
    and n: "seq d \<le> n" "n < seq d'"
  shows "payables_inv src d'"
proof -
  have "sb_id ` set (supplierBills d) \<subseteq> src ` {..<n}" using inv n(1) by (auto simp: payables_inv_def intro: drawn_later)
  then have new: "sb_id row \<notin> sb_id ` set (supplierBills d)" using unused_id [OF src] row(1) by simp
  have "bl.balanced (supplierBills_update (\<lambda>bs. bs @ [row]) d)"
    by (rule bl.balanced_open_empty) (use inv new row in \<open>simp_all add: payables_inv_def\<close>)
  then have "bl.balanced d'" by (simp add: d')
  moreover have "vendor_paid v (supplierBills d') = vendor_paid v (supplierBills d)" for v by (simp add: d' vendor_paid_def row)
  moreover have "bill_ok row" using row by (simp add: bill_ok_def)
  moreover have "src n \<in> src ` {..<seq d'}" using n(2) by simp
  ultimately show ?thesis using inv d' row(1) n unfolding payables_inv_def
    by (auto intro: drawn_later [where n = "seq d"])
qed

lemma createBill_inv:
  assumes run: "createBill e user outletId input d = Inr (i, d')" and inv: "payables_inv (e_cuid e) d" and src: "inj (e_cuid e)"
    and amount: "0 < sbi_amount input"
  shows "payables_inv (e_cuid e) d'"
proof -
  from run obtain row where "supplierBills d' = supplierBills d @ [row]" "supplierPayments d' = supplierPayments d"
      "paymentAllocations d' = paymentAllocations d" "seq d' = seq d + 1"
    and "sb_id row = e_cuid e (seq d)" "sb_paidAmount row = 0" "sb_status row = BillOpen" "sb_amount row = numeric_col 2 (sbi_amount input)"
    unfolding createBill_def guard_simps Let_def fresh_def prod.case sum.inject prod.inject
    by (elim exE conjE) (rule that, auto)
  then show ?thesis using amount
    by (intro new_bill_inv [OF inv src, where n = "seq d"]) (simp_all add: amount_col_nonneg)
qed

lemma receive_frame:
  assumes "efold (receive_line e user outletId grnId grnNumber po) rs s = Inr s'"
  shows "supplierBills (gs_db s') = supplierBills (gs_db s) \<and> supplierPayments (gs_db s') = supplierPayments (gs_db s)
    \<and> paymentAllocations (gs_db s') = paymentAllocations (gs_db s)"
  using assms
proof (rule efold_invariant [where P = "\<lambda>t. supplierBills (gs_db t) = supplierBills (gs_db s) \<and>
    supplierPayments (gs_db t) = supplierPayments (gs_db s) \<and> paymentAllocations (gs_db t) = paymentAllocations (gs_db s)"])
  fix x :: receipt_line and t t'
  assume P: "supplierBills (gs_db t) = supplierBills (gs_db s) \<and> supplierPayments (gs_db t) = supplierPayments (gs_db s) \<and>
      paymentAllocations (gs_db t) = paymentAllocations (gs_db s)"
    and run: "receive_line e user outletId grnId grnNumber po x t = Inr t'"
  obtain line q r where x: "x = (line, q, r)" by (cases x)
  obtain input d1 reply gs where a: "applyReceiptTx e user outletId (pol_rawMaterialId line) input (gs_db t) = Inr (reply, d1)"
    and t': "gs_db t' = (grnLines_update gs d1)\<lparr>poLines := set_row pol_id (pol_id line)
           (\<lambda>l. l\<lparr>pol_receivedQty := numeric_col 3 (pol_receivedQty l + q)\<rparr>) (poLines d1)\<rparr>"
    by (rule receive_line_effect [OF run [unfolded x]]) blast
  obtain ms mv where "d1 = (gs_db t)\<lparr>rawMaterials := ms, stockMovements := mv\<rparr>" by (rule applyReceipt_frame [OF a])
  then show "supplierBills (gs_db t') = supplierBills (gs_db s) \<and> supplierPayments (gs_db t') = supplierPayments (gs_db s) \<and>
      paymentAllocations (gs_db t') = paymentAllocations (gs_db s)" using P by (simp add: t')
qed simp

lemma book_bill_effect:
  assumes "book_bill e user outletId input po grnId amount d = Inr (b, d')"
  obtains "d' = d" | row where "d' = d\<lparr>seq := seq d + 1, supplierBills := supplierBills d @ [row]\<rparr>" "sb_id row = e_cuid e (seq d)"
    "sb_paidAmount row = 0" "sb_status row = BillOpen" "sb_amount row = numeric_col 2 amount"
proof (cases "gi_createBill input")
  case True
  from assms obtain row where "d' = supplierBills_update (\<lambda>bs. bs @ [row]) (d\<lparr>seq := seq d + 1\<rparr>)" "sb_id row = e_cuid e (seq d)"
    "sb_paidAmount row = 0" "sb_status row = BillOpen" "sb_amount row = numeric_col 2 amount"
    unfolding book_bill_def if_P [OF True] if_not_P guard_simps Let_def fresh_def prod.case sum.inject prod.inject
    using True by (auto simp: guard_simps)
  then show ?thesis by (intro that(2)) simp_all
next
  case False
  then show ?thesis using assms that(1) by (simp add: book_bill_def)
qed

lemma receiveGoods_inv:
  assumes run: "receiveGoods e user outletId poId input d = Inr (reply, d')" and inv: "payables_inv (e_cuid e) d" and src: "inj (e_cuid e)"
    and amount: "0 \<le> gy_total reply"
  shows "payables_inv (e_cuid e) d'"
proof -
  from run obtain po receipts grnId grnNumber s b where
      l: "efold (receive_line e user outletId grnId grnNumber po) receipts
        \<lparr> gs_db = snd (create_grn e user outletId input po d), gs_base = 0, gs_tax = 0, gs_variance = 0 \<rparr> = Inr s"
    and b: "book_bill e user outletId input po grnId (gy_total reply)
        (finish_grn grnId s (set_po poId (\<lambda>p. p\<lparr>po_status := gy_status reply\<rparr>) (gs_db s))) = Inr b" and d': "d' = snd b"
    unfolding receiveGoods_def guard_simps Let_def case_prod_beta sum.inject prod.inject
    by (elim exE conjE) (rule that, assumption, hypsubst, simp, erule sym)
  have s: "seq (gs_db s) = seq d + 1" "supplierBills (gs_db s) = supplierBills d" "supplierPayments (gs_db s) = supplierPayments d"
      "paymentAllocations (gs_db s) = paymentAllocations d"
    using receive_frame [OF l] receive_loop [OF l] by (simp_all add: create_grn_def fresh_def Let_def)
  from b have "book_bill e user outletId input po grnId (gy_total reply)
      (finish_grn grnId s (set_po poId (\<lambda>p. p\<lparr>po_status := gy_status reply\<rparr>) (gs_db s))) = Inr (fst b, d')" by (simp add: d')
  then show ?thesis
  proof (cases rule: book_bill_effect)
    case 1
    then show ?thesis using inv s
      by (auto simp: finish_grn_def set_po_def payables_inv_def intro: drawn_later [where n = "seq d"])
  next
    case (2 row)
    then show ?thesis using s amount
      by (intro new_bill_inv [OF inv src, where n = "seq d + 1" and row = row]) (simp_all add: finish_grn_def set_po_def amount_col_nonneg)
  qed
qed

lemma voidBill_inv:
  assumes run: "voidBill user outletId i d = Inr d'" and inv: "payables_inv src d"
  shows "payables_inv src d'"
proof -
  from run obtain b where b: "b \<in> set (supplierBills d)" "sb_id b = i" "\<not> sb_paidAmount b > 0"
    and d': "d' = supplierBills_update (set_row sb_id i (\<lambda>b. b\<lparr>sb_status := BillVoid\<rparr>)) d"
    unfolding voidBill_def guard_simps by (auto dest: find_SomeD)
  have bal: "bl.balanced d'" unfolding d' by (rule bl.balanced_touch) (use inv in \<open>simp_all add: payables_inv_def\<close>)
  have dist: "distinct (map sb_id (supplierBills d))" using inv by (simp add: payables_inv_def ledger_balanced_def)
  have "bill_ok s" if "s \<in> set (supplierBills d')" for s
  proof -
    from that have "s \<in> set (set_row sb_id i (\<lambda>b. b\<lparr>sb_status := BillVoid\<rparr>) (supplierBills d))" by (simp add: d')
    then show ?thesis
    proof (cases rule: set_row_memberE)
      case (1 r)
      then have "r = b" using row_by_distinct [OF dist] b by (metis option.inject)
      then show ?thesis using 1 b inv by (auto simp: payables_inv_def bill_ok_def)
    qed (use inv in \<open>simp add: payables_inv_def\<close>)
  qed
  moreover have "vendor_paid v (supplierBills d') = vendor_paid v (supplierBills d)" for v
    unfolding vendor_paid_def d' set_row_def update_where_def by (simp add: comp_def if_distrib cong: if_cong)
  ultimately show ?thesis using inv bal by (simp add: payables_inv_def) (simp add: d' image_key_set_row)
qed

inductive payables_step :: "(nat \<Rightarrow> id) \<Rightarrow> db \<Rightarrow> db \<Rightarrow> bool" for src where
  book: "e_cuid e = src \<Longrightarrow> createBill e user outletId bill d = Inr (i, d') \<Longrightarrow> 0 < sbi_amount bill \<Longrightarrow> payables_step src d d'"
| void: "voidBill user outletId i d = Inr d' \<Longrightarrow> payables_step src d d'"
| pay: "e_cuid e = src \<Longrightarrow> recordPayment e user outletId payment d = Inr (r, d') \<Longrightarrow> 0 < spi_amount payment \<Longrightarrow>
    \<forall>(b, a) \<in> set (or_else (spi_allocations payment) []). 0 < a \<Longrightarrow> payables_step src d d'"
| receive: "e_cuid e = src \<Longrightarrow> receiveGoods e user outletId i grn d = Inr (reply, d') \<Longrightarrow> 0 \<le> gy_total reply \<Longrightarrow> payables_step src d d'"
| elsewhere: "supplierBills d' = supplierBills d \<Longrightarrow> supplierPayments d' = supplierPayments d \<Longrightarrow>
    paymentAllocations d' = paymentAllocations d \<Longrightarrow> seq d \<le> seq d' \<Longrightarrow> payables_step src d d'"

lemma payables_step_inv: "payables_step src d d' \<Longrightarrow> inj src \<Longrightarrow> payables_inv src d \<Longrightarrow> payables_inv src d'"
proof (induction rule: payables_step.induct)
  case (book e user outletId bill d i d')
  then show ?case using createBill_inv [OF book(2)] by simp
next
  case (void user outletId i d d')
  then show ?case using voidBill_inv by blast
next
  case (pay e user outletId payment d r d')
  then show ?case using recordPayment_inv [OF pay(2)] by simp
next
  case (receive e user outletId i grn d reply d')
  then show ?case using receiveGoods_inv [OF receive(2)] by simp
next
  case (elsewhere d' d)
  then show ?case by (auto simp: payables_inv_def intro: drawn_later [where n = "seq d"])
qed

lemma payables_reach_inv:
  assumes "(payables_step src)\<^sup>*\<^sup>* d d'" "inj src" "payables_inv src d"
  shows "payables_inv src d'"
  using assms(1) by induction (use assms(2,3) payables_step_inv in blast)+

lemma payables_inv_empty: "supplierBills d = [] \<Longrightarrow> supplierPayments d = [] \<Longrightarrow> paymentAllocations d = [] \<Longrightarrow> payables_inv src d"
  by (simp add: payables_inv_def ledger_balanced_def vendor_paid_def vendor_spent_def)


text \<open>The report reconciles: what was paid to a vendor is what its bills were paid plus the credit the vendor holds.\<close>

lemma toPaise_exact_sum: "(\<And>x. x \<in> set xs \<Longrightarrow> paise_exact (f x)) \<Longrightarrow> of_int (\<Sum>x\<leftarrow>xs. toPaise (f x)) / 100 = (\<Sum>x\<leftarrow>xs. f x)"
  by (induction xs) (auto simp: add_divide_distrib paise_exact_toPaise)

lemma sum_filter_if: "(\<Sum>x\<leftarrow>filter P xs. f x) = (\<Sum>x\<leftarrow>xs. if P x then f x else (0 :: num))"
  by (induction xs) auto

theorem payables_reconcile:
  assumes inv: "payables_inv src d" and run: "payables e user outletId d = Inr rows" and row: "r \<in> set rows"
  shows "vp_paid r = (vp_billed r - vp_outstanding r) + vp_credit r"
proof -
  define bills where "bills = filter (\<lambda>b. sb_tenantId b = u_tenantId user \<and> sb_outletId b = outletId \<and> sb_status b \<noteq> BillVoid) (supplierBills d)"
  define pays where "pays = filter (\<lambda>p. sp_tenantId p = u_tenantId user \<and> sp_outletId p = outletId) (supplierPayments d)"
  from run row obtain v where r: "r = vendor_payable_of e bills pays v"
    by (auto simp: payables_def guard_simps Let_def bills_def pays_def)
  let ?v = "(u_tenantId user, outletId, ve_id v)"
  have okb: "\<And>b. b \<in> set (supplierBills d) \<Longrightarrow> bill_ok b" and okp: "\<And>p. p \<in> set (supplierPayments d) \<Longrightarrow> payment_ok p"
    and eq: "vendor_paid ?v (supplierBills d) = vendor_spent ?v (supplierPayments d)" using inv by (auto simp: payables_inv_def)
  have paid: "(\<Sum>b\<leftarrow>filter (\<lambda>b. sb_vendorId b = ve_id v) bills. sb_paidAmount b) = vendor_paid ?v (supplierBills d)"
    unfolding bills_def filter_filter sum_filter_if vendor_paid_def 
    by (rule arg_cong [where f = sum_list], rule map_cong [OF refl]) (use okb in \<open>fastforce simp: bill_ok_def\<close>)
  have spent: "(\<Sum>p\<leftarrow>filter (\<lambda>p. sp_vendorId p = ve_id v) pays. sp_amount p) - (\<Sum>p\<leftarrow>filter (\<lambda>p. sp_vendorId p = ve_id v) pays. sp_unallocated p)
      = vendor_spent ?v (supplierPayments d)"
    unfolding pays_def filter_filter sum_filter_if vendor_spent_def sum_list_subtractf [symmetric]
    by (rule arg_cong [where f = sum_list], rule map_cong [OF refl]) auto
  have "of_int (\<Sum>b\<leftarrow>filter (\<lambda>b. sb_vendorId b = ve_id v) bills. toPaise (sb_paidAmount b)) / 100
      = (\<Sum>b\<leftarrow>filter (\<lambda>b. sb_vendorId b = ve_id v) bills. sb_paidAmount b)"
    by (rule toPaise_exact_sum) (use okb in \<open>auto simp: bills_def bill_ok_def\<close>)
  moreover have "of_int (\<Sum>p\<leftarrow>filter (\<lambda>p. sp_vendorId p = ve_id v) pays. toPaise (sp_amount p)) / 100
      = (\<Sum>p\<leftarrow>filter (\<lambda>p. sp_vendorId p = ve_id v) pays. sp_amount p)"
    by (rule toPaise_exact_sum) (use okp in \<open>auto simp: pays_def payment_ok_def\<close>)
  moreover have "of_int (\<Sum>p\<leftarrow>filter (\<lambda>p. sp_vendorId p = ve_id v) pays. toPaise (sp_unallocated p)) / 100
      = (\<Sum>p\<leftarrow>filter (\<lambda>p. sp_vendorId p = ve_id v) pays. sp_unallocated p)"
    by (rule toPaise_exact_sum) (use okp in \<open>auto simp: pays_def payment_ok_def\<close>)
  ultimately show ?thesis using paid spent eq
    by (simp add: r vendor_payable_of_def Let_def paise_sum_list diff_divide_distrib)
qed

section \<open>A concrete ledger\<close>

definition buyer0 :: auth_user where
  "buyer0 = \<lparr> u_id = ''u'', u_tenantId = ''t'', u_outletIds = [''k''], u_permissions = [] \<rparr>"

definition vendor0 :: vendor_row where
  "vendor0 = \<lparr> ve_id = ''v'', ve_tenantId = ''t'', ve_outletId = ''k'', ve_name = ''Mill'', ve_phone = None, ve_deletedAt = None,
     ve_email = None, ve_gstin = None, ve_address = None, ve_paymentTermsDays = None \<rparr>"

definition bill0 :: supplier_bill_input where
  "bill0 = \<lparr> sbi_vendorId = ''v'', sbi_billNumber = ''7'', sbi_billDate = (2024, 5, 6), sbi_dueDate = None, sbi_amount = 100,
     sbi_purchaseOrderId = None, sbi_goodsReceiptId = None, sbi_note = None \<rparr>"

definition payment0 :: supplier_payment_input where
  "payment0 = \<lparr> spi_vendorId = ''v'', spi_amount = 130, spi_mode = ''UPI'', spi_reference = None, spi_paidAt = None, spi_note = None,
     spi_allocations = None \<rparr>"

definition ledger0 :: db where
  "ledger0 = db0\<lparr>vendors := [vendor0]\<rparr>"

lemmas ledger_run = ledger0_def buyer0_def vendor0_def bill0_def payment0_def env0_def db0_def requireVendor_def assertOutlet_def fresh_def Let_def

definition bill_row0 :: supplier_bill_row where
  "bill_row0 = \<lparr> sb_id = [], sb_tenantId = ''t'', sb_outletId = ''k'', sb_vendorId = ''v'', sb_billNumber = ''7'', sb_billDate = e_localMidnight env0 (2024, 5, 6),
     sb_dueDate = None, sb_amount = 100, sb_paidAmount = 0, sb_status = BillOpen, sb_purchaseOrderId = None, sb_goodsReceiptId = None, sb_note = None,
     sb_createdById = Some ''u'' \<rparr>"

definition booked0 :: db where
  "booked0 = ledger0\<lparr>seq := 1, supplierBills := [bill_row0]\<rparr>"

lemma booked: "createBill env0 buyer0 ''k'' bill0 ledger0 = Inr ([], booked0)"
  by (simp add: createBill_def check_bill_order_def check_bill_receipt_def ledger_run booked0_def bill_row0_def numeric_col_exact)

lemma paid:
  obtains r d2 where "recordPayment env0 buyer0 ''k'' payment0 booked0 = Inr (r, d2)"
    and "supplierBills d2 = [bill_row0\<lparr>sb_paidAmount := 100, sb_status := BillPaid\<rparr>]"
proof -
  have opn: "open_bills buyer0 ''k'' ''v'' booked0 = [bill_row0]" by (simp add: open_bills_def booked0_def bill_row0_def buyer0_def)
  have plan: "plan_payment [bill_row0] payment0 = Inr [([], 10000)]" by (simp add: plan_payment_def payment0_def due_paise_def bill_row0_def)
  have vendor: "requireVendor buyer0 ''k'' ''v'' booked0 = Inr vendor0"
    by (simp add: requireVendor_def assertOutlet_def booked0_def ledger0_def buyer0_def vendor0_def)
  have row: "row_by sb_id [] [bill_row0] = Some bill_row0" by (simp add: bill_row0_def)
  have in0: "spi_vendorId payment0 = ''v''" "spi_amount payment0 = 130" by (simp_all add: payment0_def)
  define d1 where "d1 = snd (create_payment env0 buyer0 ''k'' payment0 (toPaise 130 - plan_sum [([], 10000)]) booked0)"
  define i where "i = fst (create_payment env0 buyer0 ''k'' payment0 (toPaise 130 - plan_sum [([], 10000)]) booked0)"
  have "\<exists>r. recordPayment env0 buyer0 ''k'' payment0 booked0 = Inr (r, allocate env0 buyer0 i [bill_row0] d1 ([], 10000))"
    by (simp add: recordPayment_def vendor opn plan in0 Let_def case_prod_beta d1_def i_def)
  moreover have "supplierBills d1 = [bill_row0]" by (simp add: d1_def create_payment_def fresh_def booked0_def)
  then have "supplierBills (allocate env0 buyer0 i [bill_row0] d1 ([], 10000)) = [bill_row0\<lparr>sb_paidAmount := 100, sb_status := BillPaid\<rparr>]"
    by (simp add: allocate_eq [OF row] set_row_def paid_up_def billStatus_def) (simp add: bill_row0_def)
  ultimately show ?thesis using that by blast
qed


end
