(* ===== verification/Staff.thy ===== *)
theory Staff
  imports Billing_Rules
begin

text \<open>
  Staff profiles, the PIN clock and attendance corrections (\<open>apps/api/src/staff/staff.service.ts\<close>). The password hash
  is a third-party library: the hash of a new PIN and the comparison of a typed PIN with a stored hash are arguments. A clock
  action commits the count of wrong PINs before it raises its error, so its outcome is a reply beside the database it leaves.
\<close>

section \<open>Settings and permissions\<close>

definition PIN_MAX_FAILS :: int where "PIN_MAX_FAILS = 5"
definition PIN_LOCK_MINUTES :: int where "PIN_LOCK_MINUTES = 5"
definition STALE_OPEN_HOURS :: int where "STALE_OPEN_HOURS = 20"

definition loadPayrollConfig :: "id \<Rightarrow> db \<Rightarrow> payroll_config" where
  "loadPayrollConfig tenantId d = (case List.find (\<lambda>r. pg_tenantId r = tenantId) (payrollSettings d) of
     None \<Rightarrow> DEFAULT_PAYROLL_CONFIG | Some row \<Rightarrow> pg_config row)"

definition rulesFromConfig :: "payroll_config \<Rightarrow> attendance_rules" where
  "rulesFromConfig c = \<lparr> ar_halfDayMinutes = js_round (pc_halfDayHours c * 60),
     ar_overtimeThresholdMinutes = pc_overtimeThresholdMinutes c, ar_standardDayMinutes = js_round (pc_standardDayHours c * 60) \<rparr>"

definition hasPerm :: "auth_user \<Rightarrow> string \<Rightarrow> bool" where
  "hasPerm user p = (''*'' \<in> set (u_permissions user) \<or> p \<in> set (u_permissions user))"

section \<open>The days of a staff member\<close>

text \<open>
  The maps \<open>shiftBy\<close>, \<open>punchBy\<close> and \<open>leaveBy\<close> as lookups: the last row for a key wins in a map that is filled in order, and punches
  of a day are collected in order.
\<close>

definition shift_on :: "id \<Rightarrow> id \<Rightarrow> date \<Rightarrow> db \<Rightarrow> shift_spec option" where
  "shift_on tenantId staffId date d =
     map_option rs_times (List.find (\<lambda>s. rs_tenantId s = tenantId \<and> rs_staffId s = staffId \<and> rs_date s = date) (rev (rosterShifts d)))"

definition punches_on :: "id \<Rightarrow> id \<Rightarrow> date \<Rightarrow> db \<Rightarrow> clock_punch list" where
  "punches_on tenantId staffId date d =
     map (\<lambda>r. \<lparr> cp_clockIn = at_clockIn r, cp_clockOut = at_clockOut r, cp_breakMinutes = at_breakMinutes r \<rparr>)
       (filter (\<lambda>r. at_tenantId r = tenantId \<and> at_staffId r = staffId \<and> at_date r = date) (attendanceRecords d))"

definition leave_on :: "id \<Rightarrow> id \<Rightarrow> date \<Rightarrow> db \<Rightarrow> (leave_type \<times> num) option" where
  "leave_on tenantId staffId date d =
     map_option (\<lambda>l. (lv_type l, if lv_halfDay l then 1/2 else 1))
       (List.find (\<lambda>l. lv_tenantId l = tenantId \<and> lv_staffId l = staffId \<and> lv_status l = ReqApproved
          \<and> lv_fromDate l \<le> date \<and> date \<le> lv_toDate l) (rev (leaveRequests d)))"

definition employed_on :: "staff_row \<Rightarrow> date \<Rightarrow> bool" where
  "employed_on s date = (sf_joiningDate s \<le> date \<and> (case sf_exitDate s of None \<Rightarrow> True | Some x \<Rightarrow> date \<le> x))"

definition attendance_day :: "id \<Rightarrow> staff_row \<Rightarrow> db \<Rightarrow> date \<Rightarrow> month_day" where
  "attendance_day tenantId s d date = \<lparr> md_date = date, md_shift = shift_on tenantId (sf_id s) date d,
     md_punches = punches_on tenantId (sf_id s) date d, md_leave = leave_on tenantId (sf_id s) date d, md_employed = employed_on s date \<rparr>"

definition loadAttendanceDays :: "id \<Rightarrow> staff_row list \<Rightarrow> date \<Rightarrow> date \<Rightarrow> db \<Rightarrow> (id \<times> month_day list) list" where
  "loadAttendanceDays tenantId staff from to d =
     map (\<lambda>s. (sf_id s, map (\<lambda>i. attendance_day tenantId s d (addDays from (int i))) [0..<nat (daysBetween from to + 1)])) staff"

section \<open>Profiles\<close>

record staff_input =
  si_outletId :: id
  si_employeeCode :: string
  si_name :: string
  si_phone :: "string option"
  si_designation :: "string option"
  si_joiningDate :: date
  si_exitDate :: "date option"
  si_userId :: "id option"
  si_payType :: pay_type
  si_payRate :: num
  si_allowances :: "pay_component list"
  si_deductions :: "pay_component list"
  si_pfApplicable :: bool
  si_esiApplicable :: bool
  si_ptApplicable :: bool
  si_overtimeEligible :: bool
  si_isActive :: bool

definition requireStaff :: "auth_user \<Rightarrow> id \<Rightarrow> db \<Rightarrow> staff_row result" where
  "requireStaff user i d = (case List.find (\<lambda>s. sf_id s = i \<and> sf_tenantId s = u_tenantId user) (staffMembers d) of
     Some s \<Rightarrow> if sf_outletId s \<in> set (u_outletIds user) then Inr s else Inl (NotFound [Txt ''Staff member not found''])
   | None \<Rightarrow> Inl (NotFound [Txt ''Staff member not found'']))"

definition validateLinks :: "auth_user \<Rightarrow> id option \<Rightarrow> id option \<Rightarrow> string option \<Rightarrow> id option \<Rightarrow> db \<Rightarrow> unit result" where
  "validateLinks user outletId userId employeeCode selfId d =
    ebind (if truthy outletId then assertOutlet user (or_else outletId []) else Inr ()) (\<lambda>_.
    ebind (if truthy userId then
        ebind (require (\<exists>u \<in> set (users d). Some (us_id u) = userId \<and> us_tenantId u = u_tenantId user) (BadRequest [Txt ''Linked login not found''])) (\<lambda>_.
          require (\<not> (\<exists>s \<in> set (staffMembers d). sf_tenantId s = u_tenantId user \<and> sf_userId s = userId \<and> Some (sf_id s) \<noteq> selfId))
            (BadRequest [Txt ''That login is already linked to another staff profile'']))
      else Inr ()) (\<lambda>_.
      if truthy employeeCode then
        require (\<not> (\<exists>s \<in> set (staffMembers d). sf_tenantId s = u_tenantId user \<and> Some (sf_employeeCode s) = employeeCode \<and> Some (sf_id s) \<noteq> selfId))
          (BadRequest [Txt ''Employee code already in use''])
      else Inr ()))"

definition createStaff :: "env \<Rightarrow> auth_user \<Rightarrow> staff_input \<Rightarrow> db \<Rightarrow> (id \<times> db) result" where
  "createStaff e user input d =
    ebind (validateLinks user (Some (si_outletId input)) (si_userId input) (Some (si_employeeCode input)) None d) (\<lambda>_.
      case fresh e d of (i, d1) \<Rightarrow>
      Inr (i, staffMembers_update (\<lambda>ss. ss @ [\<lparr> sf_id = i, sf_tenantId = u_tenantId user, sf_outletId = si_outletId input,
        sf_userId = si_userId input, sf_employeeCode = si_employeeCode input, sf_name = si_name input, sf_phone = si_phone input,
        sf_designation = si_designation input, sf_joiningDate = si_joiningDate input, sf_exitDate = si_exitDate input,
        sf_pinHash = None, sf_pinFailedCount = 0, sf_pinLockedUntil = None, sf_payType = si_payType input,
        sf_payRate = numeric_col 2 (si_payRate input), sf_allowances = si_allowances input, sf_deductions = si_deductions input,
        sf_pfApplicable = si_pfApplicable input, sf_esiApplicable = si_esiApplicable input, sf_ptApplicable = si_ptApplicable input,
        sf_overtimeEligible = si_overtimeEligible input, sf_isActive = si_isActive input \<rparr>]) d1))"

definition set_staff :: "id \<Rightarrow> (staff_row \<Rightarrow> staff_row) \<Rightarrow> db \<Rightarrow> db" where
  "set_staff i f = staffMembers_update (set_row sf_id i f)"

definition setPin :: "auth_user \<Rightarrow> id \<Rightarrow> string \<Rightarrow> db \<Rightarrow> db result" where
  "setPin user i pinHash d =
    ebind (requireStaff user i d) (\<lambda>_.
      Inr (audit (u_tenantId user) (Some (u_id user)) ''STAFF_PIN_SET'' ''staff'' i
        (set_staff i (\<lambda>s. s\<lparr>sf_pinHash := Some pinHash, sf_pinFailedCount := 0, sf_pinLockedUntil := None\<rparr>) d)))"

text \<open>A partial update: an absent field keeps the column.\<close>

record staff_update =
  su_outletId :: "id option"
  su_userId :: "id option option"
  su_employeeCode :: "string option"
  su_name :: "string option"
  su_phone :: "string option option"
  su_designation :: "string option option"
  su_joiningDate :: "date option"
  su_exitDate :: "date option option"
  su_payType :: "pay_type option"
  su_payRate :: "num option"
  su_allowances :: "pay_component list option"
  su_deductions :: "pay_component list option"
  su_pfApplicable :: "bool option"
  su_esiApplicable :: "bool option"
  su_ptApplicable :: "bool option"
  su_overtimeEligible :: "bool option"
  su_isActive :: "bool option"

definition apply_staff_update :: "staff_update \<Rightarrow> staff_row \<Rightarrow> staff_row" where
  "apply_staff_update input s = s\<lparr> sf_outletId := or_else (su_outletId input) (sf_outletId s), sf_userId := or_else (su_userId input) (sf_userId s),
     sf_employeeCode := or_else (su_employeeCode input) (sf_employeeCode s), sf_name := or_else (su_name input) (sf_name s),
     sf_phone := or_else (su_phone input) (sf_phone s), sf_designation := or_else (su_designation input) (sf_designation s),
     sf_joiningDate := or_else (su_joiningDate input) (sf_joiningDate s), sf_exitDate := or_else (su_exitDate input) (sf_exitDate s),
     sf_payType := or_else (su_payType input) (sf_payType s),
     sf_payRate := (case su_payRate input of Some r \<Rightarrow> numeric_col 2 r | None \<Rightarrow> sf_payRate s),
     sf_allowances := or_else (su_allowances input) (sf_allowances s), sf_deductions := or_else (su_deductions input) (sf_deductions s),
     sf_pfApplicable := or_else (su_pfApplicable input) (sf_pfApplicable s), sf_esiApplicable := or_else (su_esiApplicable input) (sf_esiApplicable s),
     sf_ptApplicable := or_else (su_ptApplicable input) (sf_ptApplicable s),
     sf_overtimeEligible := or_else (su_overtimeEligible input) (sf_overtimeEligible s), sf_isActive := or_else (su_isActive input) (sf_isActive s) \<rparr>"

definition updateStaff :: "auth_user \<Rightarrow> id \<Rightarrow> staff_update \<Rightarrow> db \<Rightarrow> db result" where
  "updateStaff user i input d =
    ebind (requireStaff user i d) (\<lambda>_.
    ebind (validateLinks user (su_outletId input) (or_else (su_userId input) None) (su_employeeCode input) (Some i) d) (\<lambda>_.
      Inr (set_staff i (apply_staff_update input) d)))"

section \<open>The clock\<close>

datatype clock_action = ClockIn | ClockOut | BreakStart | BreakEnd

datatype clock_status = StOut | StIn | StOnBreak

record clock_entry =
  ce_id :: id
  ce_name :: string
  ce_designation :: "string option"
  ce_status :: clock_status
  ce_since :: "int option"

text \<open>The latest open punch of a staff member: \<open>findFirst\<close> ordered by \<open>clockIn\<close> descending.\<close>

definition open_punch :: "id \<Rightarrow> id \<Rightarrow> db \<Rightarrow> attendance_row option" where
  "open_punch tenantId staffId d = (case sort_key (\<lambda>r. - at_clockIn r)
     (filter (\<lambda>r. at_tenantId r = tenantId \<and> at_staffId r = staffId \<and> at_clockOut r = None) (attendanceRecords d)) of
     [] \<Rightarrow> None | r # _ \<Rightarrow> Some r)"

definition clock_entry_of :: "id \<Rightarrow> db \<Rightarrow> staff_row \<Rightarrow> clock_entry" where
  "clock_entry_of tenantId d s = (let r = open_punch tenantId (sf_id s) d
     in \<lparr> ce_id = sf_id s, ce_name = sf_name s, ce_designation = sf_designation s,
          ce_status = (case r of None \<Rightarrow> StOut | Some p \<Rightarrow> if at_breakStartedAt p \<noteq> None then StOnBreak else StIn),
          ce_since = map_option (\<lambda>p. or_else (at_breakStartedAt p) (at_clockIn p)) r \<rparr>)"

definition clockBoard :: "auth_user \<Rightarrow> id \<Rightarrow> db \<Rightarrow> clock_entry list result" where
  "clockBoard user outletId d =
    ebind (assertOutlet user outletId) (\<lambda>_.
      Inr (map (clock_entry_of (u_tenantId user) d) (sort_key sf_name
        (filter (\<lambda>s. sf_tenantId s = u_tenantId user \<and> sf_outletId s = outletId \<and> sf_isActive s \<and> sf_pinHash s \<noteq> None) (staffMembers d)))))"

definition set_punch :: "id \<Rightarrow> (attendance_row \<Rightarrow> attendance_row) \<Rightarrow> db \<Rightarrow> db" where
  "set_punch i f = attendanceRecords_update (set_row at_id i f)"

text \<open>A wrong PIN: one more failure, and a lock with the fifth.\<close>

definition wrong_pin :: "int \<Rightarrow> staff_row \<Rightarrow> db \<Rightarrow> string \<times> db" where
  "wrong_pin now s d = (let fails = sf_pinFailedCount s + 1; lock = (fails \<ge> PIN_MAX_FAILS)
     in (if lock then ''Wrong PIN -- locked for 5 min'' else ''Wrong PIN'',
         set_staff (sf_id s) (\<lambda>s. s\<lparr>sf_pinFailedCount := (if lock then 0 else fails),
           sf_pinLockedUntil := (if lock then Some (now + PIN_LOCK_MINUTES * 60000) else None)\<rparr>) d))"

text \<open>A punch left open for more than twenty hours is closed with no time worked.\<close>

definition close_stale :: "int \<Rightarrow> attendance_row option \<Rightarrow> db \<Rightarrow> attendance_row option \<times> db" where
  "close_stale now opn d = (case opn of None \<Rightarrow> (None, d) | Some r \<Rightarrow>
     if now - at_clockIn r > STALE_OPEN_HOURS * 3600000
     then (None, set_punch (at_id r) (\<lambda>p. p\<lparr>at_clockOut := Some (at_clockIn r), at_breakStartedAt := None, at_source := SourceCorrected,
             at_correctionReason := Some ''Auto-closed: missed clock-out''\<rparr>) d)
     else (Some r, d))"

definition break_mins :: "int \<Rightarrow> attendance_row \<Rightarrow> int" where
  "break_mins now r = (case at_breakStartedAt r of None \<Rightarrow> 0 | Some t \<Rightarrow> minutes_of (now - t))"

definition clock_apply :: "env \<Rightarrow> auth_user \<Rightarrow> id \<Rightarrow> id \<Rightarrow> clock_action \<Rightarrow> attendance_row option \<Rightarrow> db \<Rightarrow> string option \<times> db" where
  "clock_apply e user outletId staffId action opn d = (let now = e_now e in case action of
     ClockIn \<Rightarrow> (case opn of Some _ \<Rightarrow> (Some ''Already clocked in'', d) | None \<Rightarrow> (case fresh e d of (i, d1) \<Rightarrow>
        (None, attendanceRecords_update (\<lambda>rs. rs @ [\<lparr> at_id = i, at_tenantId = u_tenantId user, at_outletId = outletId, at_staffId = staffId,
           at_date = istDateOf now, at_clockIn = now, at_clockOut = None, at_breakMinutes = 0, at_breakStartedAt = None, at_source = SourcePin,
           at_correctionReason = None, at_correctedById = None \<rparr>]) d1)))
   | ClockOut \<Rightarrow> (case opn of None \<Rightarrow> (Some ''Not clocked in'', d) | Some r \<Rightarrow>
        (None, set_punch (at_id r) (\<lambda>p. p\<lparr>at_clockOut := Some now, at_breakMinutes := at_breakMinutes r + break_mins now r, at_breakStartedAt := None\<rparr>) d))
   | BreakStart \<Rightarrow> (case opn of None \<Rightarrow> (Some ''Not clocked in'', d) | Some r \<Rightarrow>
        if at_breakStartedAt r \<noteq> None then (Some ''Already on a break'', d)
        else (None, set_punch (at_id r) (\<lambda>p. p\<lparr>at_breakStartedAt := Some now\<rparr>) d))
   | BreakEnd \<Rightarrow> (case opn of None \<Rightarrow> (Some ''Not on a break'', d) | Some r \<Rightarrow>
        if at_breakStartedAt r = None then (Some ''Not on a break'', d)
        else (None, set_punch (at_id r) (\<lambda>p. p\<lparr>at_breakMinutes := at_breakMinutes r + break_mins now r, at_breakStartedAt := None\<rparr>) d)))"

text \<open>The transaction: exceptions roll back, an error value commits.\<close>

definition lock_left :: "int \<Rightarrow> int \<Rightarrow> int" where
  "lock_left now till = \<lceil>(of_int (till - now) :: rat) / 60000\<rceil>"

definition clock_pin :: "env \<Rightarrow> (string \<Rightarrow> string \<Rightarrow> bool) \<Rightarrow> auth_user \<Rightarrow> id \<Rightarrow> string \<Rightarrow> clock_action \<Rightarrow> staff_row \<Rightarrow> string \<Rightarrow> db \<Rightarrow> msg option \<times> db" where
  "clock_pin e pinMatches user outletId pin action s hash d =
    (if \<not> pinMatches pin hash then (case wrong_pin (e_now e) s d of (m, d1) \<Rightarrow> (Some [Txt m], d1))
     else let d1 = (if sf_pinFailedCount s > 0 then set_staff (sf_id s) (\<lambda>s. s\<lparr>sf_pinFailedCount := 0\<rparr>) d else d);
              (opn, d2) = close_stale (e_now e) (open_punch (u_tenantId user) (sf_id s) d1) d1;
              (err, d3) = clock_apply e user outletId (sf_id s) action opn d2
          in (map_option (\<lambda>m. [Txt m]) err, d3))"

definition clock_tx :: "env \<Rightarrow> (string \<Rightarrow> string \<Rightarrow> bool) \<Rightarrow> auth_user \<Rightarrow> id \<Rightarrow> id \<Rightarrow> string \<Rightarrow> clock_action \<Rightarrow> db \<Rightarrow> (msg option \<times> db) result" where
  "clock_tx e pinMatches user outletId staffId pin action d =
    ebind (some_or (List.find (\<lambda>s. sf_id s = staffId \<and> sf_tenantId s = u_tenantId user \<and> sf_outletId s = outletId) (staffMembers d))
        (NotFound [Txt ''Staff member not found''])) (\<lambda>s.
    ebind (require (sf_isActive s) (BadRequest [Txt ''Staff member is inactive''])) (\<lambda>_.
    ebind (some_or (if truthy (sf_pinHash s) then sf_pinHash s else None) (BadRequest [Txt ''No PIN set -- ask a manager to set one''])) (\<lambda>hash.
      Inr (case sf_pinLockedUntil s of
        Some till \<Rightarrow> if till > e_now e
          then (Some [Txt ''Too many wrong PINs -- try again after '', Num (of_int (lock_left (e_now e) till)), Txt '' min''], d)
          else clock_pin e pinMatches user outletId pin action s hash d
      | None \<Rightarrow> clock_pin e pinMatches user outletId pin action s hash d))))"

definition clock :: "env \<Rightarrow> (string \<Rightarrow> string \<Rightarrow> bool) \<Rightarrow> auth_user \<Rightarrow> id \<Rightarrow> id \<Rightarrow> string \<Rightarrow> clock_action \<Rightarrow> db \<Rightarrow> clock_entry result \<times> db" where
  "clock e pinMatches user outletId staffId pin action d =
    (case ebind (assertOutlet user outletId) (\<lambda>_. clock_tx e pinMatches user outletId staffId pin action d) of
       Inl err \<Rightarrow> (Inl err, d)
     | Inr (Some m, d1) \<Rightarrow> (Inl (BadRequest m), d1)
     | Inr (None, d1) \<Rightarrow> (ebind (clockBoard user outletId d1) (\<lambda>board.
         some_or (List.find (\<lambda>b. ce_id b = staffId) board) RowMissing), d1))"

section \<open>Corrections\<close>

record correction_input =
  co_staffId :: id
  co_recordId :: "id option"
  co_clockIn :: int
  co_clockOut :: "int option"
  co_breakMinutes :: int
  co_reason :: string

definition month_of :: "date \<Rightarrow> int \<times> int" where
  "month_of date = (fst date, fst (snd date))"

text \<open>The month as the text \<open>YYYY-MM\<close>.\<close>

fun month_text :: "int \<times> int \<Rightarrow> string" where
  "month_text (y, m) = int_string y @ ''-'' @ (if m < 10 then ''0'' else []) @ int_string m"

definition check_times :: "int \<Rightarrow> correction_input \<Rightarrow> unit result" where
  "check_times now input =
    ebind (require (\<forall>t \<in> set_option (co_clockOut input). \<not> t \<le> co_clockIn input) (BadRequest [Txt ''Clock-out must be after clock-in''])) (\<lambda>_.
    ebind (require (\<not> (co_clockIn input > now \<or> (\<exists>t \<in> set_option (co_clockOut input). t > now))) (BadRequest [Txt ''Times cannot be in the future''])) (\<lambda>_.
      require (\<forall>t \<in> set_option (co_clockOut input). \<not> t - co_clockIn input > 24 * 3600000) (BadRequest [Txt ''A punch cannot exceed 24 hours''])))"

definition find_before :: "auth_user \<Rightarrow> correction_input \<Rightarrow> id \<Rightarrow> db \<Rightarrow> attendance_row option result" where
  "find_before user input staffId d =
    (if truthy (co_recordId input) then
       ebind (some_or (List.find (\<lambda>r. Some (at_id r) = co_recordId input \<and> at_tenantId r = u_tenantId user \<and> at_staffId r = staffId) (attendanceRecords d))
         (NotFound [Txt ''Attendance record not found''])) (\<lambda>r. Inr (Some r))
     else Inr None)"

definition save_correction :: "env \<Rightarrow> auth_user \<Rightarrow> id \<Rightarrow> correction_input \<Rightarrow> id \<Rightarrow> attendance_row option \<Rightarrow> db \<Rightarrow> id \<times> db" where
  "save_correction e user outletId input staffId before d = (case before of
     Some r \<Rightarrow> (at_id r, set_punch (at_id r) (\<lambda>p. p\<lparr> at_date := istDateOf (co_clockIn input), at_clockIn := co_clockIn input,
        at_clockOut := co_clockOut input, at_breakMinutes := co_breakMinutes input, at_breakStartedAt := None, at_source := SourceCorrected,
        at_correctionReason := Some (co_reason input), at_correctedById := Some (u_id user) \<rparr>) d)
   | None \<Rightarrow> (case fresh e d of (i, d1) \<Rightarrow>
       (i, attendanceRecords_update (\<lambda>rs. rs @ [\<lparr> at_id = i, at_tenantId = u_tenantId user, at_outletId = outletId, at_staffId = staffId,
          at_date = istDateOf (co_clockIn input), at_clockIn = co_clockIn input, at_clockOut = co_clockOut input,
          at_breakMinutes = co_breakMinutes input, at_breakStartedAt = None, at_source = SourceManual,
          at_correctionReason = Some (co_reason input), at_correctedById = Some (u_id user) \<rparr>]) d1)))"

definition locked_run :: "auth_user \<Rightarrow> id \<Rightarrow> correction_input \<Rightarrow> attendance_row option \<Rightarrow> db \<Rightarrow> payroll_run_row option" where
  "locked_run user outletId input before d =
    (let months = month_of (istDateOf (co_clockIn input)) # (case before of Some r \<Rightarrow> [month_of (at_date r)] | None \<Rightarrow> [])
     in List.find (\<lambda>r. run_tenantId r = u_tenantId user \<and> run_outletId r = outletId \<and> run_month r \<in> set months \<and> run_status r = RunFinalised) (payrollRuns d))"

definition run_locked :: "payroll_run_row option \<Rightarrow> unit result" where
  "run_locked r = (case r of None \<Rightarrow> Inr () | Some r \<Rightarrow>
     Inl (BadRequest [Txt (''Payroll for '' @ month_text (run_month r) @ '' is finalised -- attendance is locked'')]))"

definition other_open :: "auth_user \<Rightarrow> correction_input \<Rightarrow> id \<Rightarrow> db \<Rightarrow> bool" where
  "other_open user input staffId d = (\<exists>r \<in> set (attendanceRecords d). at_tenantId r = u_tenantId user \<and> at_staffId r = staffId
     \<and> at_clockOut r = None \<and> \<not> (truthy (co_recordId input) \<and> Some (at_id r) = co_recordId input))"

definition correct :: "env \<Rightarrow> auth_user \<Rightarrow> id \<Rightarrow> correction_input \<Rightarrow> db \<Rightarrow> (id \<times> db) result" where
  "correct e user outletId input d =
    ebind (assertOutlet user outletId) (\<lambda>_.
    ebind (check_times (e_now e) input) (\<lambda>_.
    ebind (some_or (List.find (\<lambda>s. sf_id s = co_staffId input \<and> sf_tenantId s = u_tenantId user \<and> sf_outletId s = outletId) (staffMembers d))
        (NotFound [Txt ''Staff member not found''])) (\<lambda>staff.
    ebind (find_before user input (sf_id staff) d) (\<lambda>before.
    ebind (run_locked (locked_run user outletId input before d)) (\<lambda>_.
    ebind (require (co_clockOut input \<noteq> None \<or> \<not> other_open user input (sf_id staff) d)
        (BadRequest [Txt ''Staff member already has an open punch''])) (\<lambda>_.
      case save_correction e user outletId input (sf_id staff) before d of (i, d1) \<Rightarrow>
        Inr (i, audit (u_tenantId user) (Some (u_id user)) (if before \<noteq> None then ''ATTENDANCE_CORRECTED'' else ''ATTENDANCE_ADDED'')
           ''attendance'' i d1)))))))"

section \<open>At most one open punch\<close>

interpretation att: table "attendanceRecords :: db \<Rightarrow> _" attendanceRecords_update at_id
  by unfold_locales (simp_all add: comp_def)

definition is_open :: "id \<Rightarrow> id \<Rightarrow> attendance_row \<Rightarrow> bool" where
  "is_open tenantId staffId r \<longleftrightarrow> at_tenantId r = tenantId \<and> at_staffId r = staffId \<and> at_clockOut r = None"

definition punches_ok :: "(nat \<Rightarrow> id) \<Rightarrow> db \<Rightarrow> bool" where
  "punches_ok src d \<longleftrightarrow> distinct (map at_id (attendanceRecords d)) \<and> at_id ` set (attendanceRecords d) \<subseteq> src ` {..<seq d}
     \<and> (\<forall>t s. \<forall>r \<in> set (attendanceRecords d). \<forall>q \<in> set (attendanceRecords d). is_open t s r \<longrightarrow> is_open t s q \<longrightarrow> at_id r = at_id q)"

lemma punches_ok_same: "punches_ok src d \<Longrightarrow> attendanceRecords d' = attendanceRecords d \<Longrightarrow> seq d \<le> seq d' \<Longrightarrow> punches_ok src d'"
  unfolding punches_ok_def by (metis drawn_mono)

lemma punches_ok_unique: "punches_ok src d \<Longrightarrow> r \<in> set (attendanceRecords d) \<Longrightarrow> q \<in> set (attendanceRecords d) \<Longrightarrow> is_open t s r \<Longrightarrow> is_open t s q \<Longrightarrow> at_id r = at_id q"
  unfolding punches_ok_def by blast

lemma punches_okI:
  "distinct (map at_id (attendanceRecords d)) \<Longrightarrow> at_id ` set (attendanceRecords d) \<subseteq> src ` {..<seq d} \<Longrightarrow>
   (\<And>t s r q. r \<in> set (attendanceRecords d) \<Longrightarrow> q \<in> set (attendanceRecords d) \<Longrightarrow> is_open t s r \<Longrightarrow> is_open t s q \<Longrightarrow> at_id r = at_id q) \<Longrightarrow>
   punches_ok src d"
  unfolding punches_ok_def by blast

lemma punches_ok_ids: "punches_ok src d \<Longrightarrow> distinct (map at_id (attendanceRecords d)) \<and> at_id ` set (attendanceRecords d) \<subseteq> src ` {..<seq d}"
  unfolding punches_ok_def by blast

lemma punches_ok_key: "punches_ok src d \<Longrightarrow> r \<in> set (attendanceRecords d) \<Longrightarrow> q \<in> set (attendanceRecords d) \<Longrightarrow> at_id r = at_id q \<Longrightarrow> r = q"
  unfolding punches_ok_def distinct_map by (blast dest: inj_onD)

text \<open>Rewriting a punch keeps the invariant when it does not reopen it.\<close>

lemma set_punch_ok:
  assumes ok: "punches_ok src d" and f: "\<And>p. at_id (f p) = at_id p" "\<And>p. at_tenantId (f p) = at_tenantId p" "\<And>p. at_staffId (f p) = at_staffId p"
    and reopen: "\<And>p. p \<in> set (attendanceRecords d) \<Longrightarrow> at_id p = i \<Longrightarrow> at_clockOut (f p) = None \<Longrightarrow>
      at_clockOut p = None \<or> (\<forall>q \<in> set (attendanceRecords d). is_open (at_tenantId p) (at_staffId p) q \<longrightarrow> at_id q = i)"
  shows "punches_ok src (set_punch i f d)"
proof -
  let ?R = "attendanceRecords d" and ?R' = "set_row at_id i f (attendanceRecords d)"
  note uniq = punches_ok_unique [OF ok]
  have origin: "\<exists>r \<in> set ?R. at_id r = at_id r' \<and> at_tenantId r = at_tenantId r' \<and> at_staffId r = at_staffId r' \<and>
      (at_id r' \<noteq> i \<longrightarrow> at_clockOut r = at_clockOut r') \<and> (at_id r' = i \<longrightarrow> r' = f r)" if "r' \<in> set ?R'" for r'
    using that by (elim set_row_memberE) (auto simp: f)
  have "at_id r' = at_id q'" if "r' \<in> set ?R'" "q' \<in> set ?R'" "is_open t s r'" "is_open t s q'" for r' q' t s
  proof (rule ccontr)
    assume ne: "at_id r' \<noteq> at_id q'"
    note o = origin [OF that(1)] origin [OF that(2)]
    obtain r q where r: "r \<in> set ?R" "at_id r = at_id r'" "at_tenantId r = at_tenantId r'" "at_staffId r = at_staffId r'"
        "at_id r' \<noteq> i \<longrightarrow> at_clockOut r = at_clockOut r'" "at_id r' = i \<longrightarrow> r' = f r"
      and q: "q \<in> set ?R" "at_id q = at_id q'" "at_tenantId q = at_tenantId q'" "at_staffId q = at_staffId q'"
        "at_id q' \<noteq> i \<longrightarrow> at_clockOut q = at_clockOut q'" "at_id q' = i \<longrightarrow> q' = f q"
      using o by metis
    consider "at_id r' = i" "at_id q' \<noteq> i" | "at_id q' = i" "at_id r' \<noteq> i" | "at_id r' \<noteq> i" "at_id q' \<noteq> i" using ne by blast
    then show False
    proof cases
      case 1
      then show False using reopen [of r] uniq [of r q t s] r q that(3,4) ne by (auto simp: is_open_def)
    next
      case 2
      then show False using reopen [of q] uniq [of r q t s] r q that(3,4) ne by (auto simp: is_open_def)
    next
      case 3
      then show False using uniq [of r q t s] r q that(3,4) ne by (auto simp: is_open_def)
    qed
  qed
  then have uniq': "at_id r = at_id q" if "r \<in> set (attendanceRecords (set_punch i f d))" "q \<in> set (attendanceRecords (set_punch i f d))"
      "is_open t s r" "is_open t s q" for t s r q using that unfolding set_punch_def att.rows_of_update by blast
  show ?thesis
  proof (rule punches_okI)
    show "distinct (map at_id (attendanceRecords (set_punch i f d)))" "at_id ` set (attendanceRecords (set_punch i f d)) \<subseteq> src ` {..<seq (set_punch i f d)}"
      using punches_ok_ids [OF ok] f(1) by (simp_all add: set_punch_def map_key_set_row image_key_set_row)
  qed (rule uniq')
qed

lemma add_punch_ok:
  assumes ok: "punches_ok src d" and src: "inj src" and i: "at_id p = src (seq d)"
    and none: "at_clockOut p = None \<Longrightarrow> \<forall>q \<in> set (attendanceRecords d). \<not> is_open (at_tenantId p) (at_staffId p) q"
  shows "punches_ok src (attendanceRecords_update (\<lambda>rs. rs @ [p]) (d\<lparr>seq := seq d + 1\<rparr>))" (is "punches_ok src ?d")
proof (rule punches_okI)
  note ids = punches_ok_ids [OF ok]
  have "at_id p \<notin> at_id ` set (attendanceRecords d)" unfolding i using ids by (intro unused_id [OF src]) simp
  then show "distinct (map at_id (attendanceRecords ?d))" using ids by simp
  have "at_id p \<in> src ` {..<seq d + 1}" unfolding i by (rule imageI) simp
  moreover have "at_id ` set (attendanceRecords d) \<subseteq> src ` {..<seq d + 1}" using ids by (simp add: drawn_mono [where n = "seq d"])
  ultimately show "at_id ` set (attendanceRecords ?d) \<subseteq> src ` {..<seq ?d}" by simp
  fix t s r q
  assume rq: "r \<in> set (attendanceRecords ?d)" "q \<in> set (attendanceRecords ?d)" and opn: "is_open t s r" "is_open t s q"
  show "at_id r = at_id q"
  proof (cases "r = p \<or> q = p")
    case True
    then have p: "t = at_tenantId p" "s = at_staffId p" "at_clockOut p = None" using opn by (auto simp: is_open_def)
    have "x = p" if "x \<in> set (attendanceRecords ?d)" "is_open t s x" for x
    proof -
      have "x \<in> set (attendanceRecords d) \<or> x = p" using that(1) by auto
      then show ?thesis using none [OF p(3)] that(2) unfolding p by blast
    qed
    then have "r = p" "q = p" using rq opn by blast+
    then show ?thesis by simp
  next
    case False
    then have "r \<in> set (attendanceRecords d)" "q \<in> set (attendanceRecords d)" using rq by auto
    then show ?thesis by (rule punches_ok_unique [OF ok _ _ opn])
  qed
qed

lemma open_punch_Some: "open_punch t s d = Some r \<Longrightarrow> r \<in> set (attendanceRecords d) \<and> is_open t s r"
proof -
  assume "open_punch t s d = Some r"
  then obtain xs where "sort_key (\<lambda>r. - at_clockIn r) (filter (\<lambda>r. at_tenantId r = t \<and> at_staffId r = s \<and> at_clockOut r = None) (attendanceRecords d)) = r # xs"
    by (auto simp: open_punch_def split: list.splits)
  then have "r \<in> set (sort_key (\<lambda>r. - at_clockIn r) (filter (\<lambda>r. at_tenantId r = t \<and> at_staffId r = s \<and> at_clockOut r = None) (attendanceRecords d)))"
    by (simp only: list.set_intros)
  then show ?thesis by (simp add: is_open_def)
qed

lemma open_punch_None: "open_punch t s d = None \<longleftrightarrow> (\<forall>r \<in> set (attendanceRecords d). \<not> is_open t s r)"
proof -
  have "open_punch t s d = None \<longleftrightarrow> sort_key (\<lambda>r. - at_clockIn r) (filter (\<lambda>r. at_tenantId r = t \<and> at_staffId r = s \<and> at_clockOut r = None) (attendanceRecords d)) = []"
    by (simp add: open_punch_def split: list.splits)
  also have "\<dots> \<longleftrightarrow> set (filter (\<lambda>r. at_tenantId r = t \<and> at_staffId r = s \<and> at_clockOut r = None) (attendanceRecords d)) = {}"
    by (simp only: set_empty [symmetric] set_sort)
  finally show ?thesis by (auto simp: is_open_def)
qed

text \<open>After the stale punch is closed, no punch is open exactly when the clock sees none.\<close>

lemma close_stale_ok:
  assumes ok: "punches_ok src d" and run: "close_stale now (open_punch t s d) d = (opn, d')"
  shows "punches_ok src d' \<and> seq d' = seq d \<and> (opn = None \<longrightarrow> (\<forall>r \<in> set (attendanceRecords d'). \<not> is_open t s r))
    \<and> (\<forall>r. opn = Some r \<longrightarrow> d' = d \<and> r \<in> set (attendanceRecords d) \<and> is_open t s r)"
proof (cases "open_punch t s d")
  case None
  then show ?thesis using run ok open_punch_None [of t s d] by (auto simp: close_stale_def)
next
  case (Some r)
  note r = open_punch_Some [OF Some]
  show ?thesis
  proof (cases "now - at_clockIn r > STALE_OPEN_HOURS * 3600000")
    case True
    define f where "f = (\<lambda>p :: attendance_row. p\<lparr>at_clockOut := Some (at_clockIn r), at_breakStartedAt := None, at_source := SourceCorrected,
             at_correctionReason := Some ''Auto-closed: missed clock-out''\<rparr>)"
    have d': "opn = None" "d' = set_punch (at_id r) f d" using run Some True by (simp_all add: close_stale_def f_def)
    have "punches_ok src d'" unfolding d' by (rule set_punch_ok [OF ok]) (simp_all add: f_def)
    moreover have "\<not> is_open t s q" if "q \<in> set (attendanceRecords d')" for q
    proof -
      from that have "q \<in> set (set_row at_id (at_id r) f (attendanceRecords d))" by (simp add: d' set_punch_def)
      then show ?thesis
      proof (cases rule: set_row_memberE)
        case 2
        then show ?thesis using punches_ok_unique [OF ok] r by blast
      qed (simp add: f_def is_open_def)
    qed
    ultimately show ?thesis using d' by (simp add: set_punch_def)
  next
    case False
    then show ?thesis using run Some ok r by (auto simp: close_stale_def)
  qed
qed

lemma set_open_punch_ok:
  assumes ok: "punches_ok src d" and r: "r \<in> set (attendanceRecords d)" "is_open t s r"
    and f: "\<And>p. at_id (f p) = at_id p" "\<And>p. at_tenantId (f p) = at_tenantId p" "\<And>p. at_staffId (f p) = at_staffId p"
  shows "punches_ok src (set_punch (at_id r) f d)"
proof (rule set_punch_ok [OF ok f])
  fix p
  assume "p \<in> set (attendanceRecords d)" "at_id p = at_id r"
  then have "p = r" using r punches_ok_key [OF ok] by blast
  then show "at_clockOut p = None \<or> (\<forall>q \<in> set (attendanceRecords d). is_open (at_tenantId p) (at_staffId p) q \<longrightarrow> at_id q = at_id r)"
    using r by (simp add: is_open_def)
qed

lemma clock_apply_ok:
  assumes ok: "punches_ok (e_cuid e) d" and src: "inj (e_cuid e)"
    and none: "opn = None \<Longrightarrow> \<forall>r \<in> set (attendanceRecords d). \<not> is_open (u_tenantId user) staffId r"
    and some: "\<And>r. opn = Some r \<Longrightarrow> r \<in> set (attendanceRecords d) \<and> is_open (u_tenantId user) staffId r"
  shows "punches_ok (e_cuid e) (snd (clock_apply e user outletId staffId action opn d))"
proof (cases opn)
  case None
  have "punches_ok (e_cuid e) (attendanceRecords_update (\<lambda>rs. rs @ [\<lparr> at_id = e_cuid e (seq d), at_tenantId = u_tenantId user, at_outletId = outletId, at_staffId = staffId,
      at_date = istDateOf (e_now e), at_clockIn = e_now e, at_clockOut = None, at_breakMinutes = 0, at_breakStartedAt = None, at_source = SourcePin,
      at_correctionReason = None, at_correctedById = None \<rparr>]) (d\<lparr>seq := seq d + 1\<rparr>))"
    using none [OF None] by (intro add_punch_ok [OF ok src]) simp_all
  then show ?thesis using ok by (cases action) (simp_all add: clock_apply_def None fresh_def Let_def)
next
  case (Some r)
  note r = some [OF Some]
  show ?thesis using ok r by (cases action) (auto simp: clock_apply_def Some Let_def intro!: set_open_punch_ok [where t = "u_tenantId user" and s = staffId])
qed

lemma clock_pin_ok:
  assumes ok: "punches_ok (e_cuid e) d" and src: "inj (e_cuid e)"
  shows "punches_ok (e_cuid e) (snd (clock_pin e pinMatches user outletId pin action s hash d))"
proof (cases "pinMatches pin hash")
  case True
  define d1 where "d1 = (if sf_pinFailedCount s > 0 then set_staff (sf_id s) (\<lambda>s. s\<lparr>sf_pinFailedCount := 0\<rparr>) d else d)"
  obtain opn d2 where c: "close_stale (e_now e) (open_punch (u_tenantId user) (sf_id s) d1) d1 = (opn, d2)" by (cases "close_stale (e_now e) (open_punch (u_tenantId user) (sf_id s) d1) d1")
  have "punches_ok (e_cuid e) d1" by (rule punches_ok_same [OF ok]) (simp_all add: d1_def set_staff_def)
  note c' = close_stale_ok [OF this c]
  have "punches_ok (e_cuid e) (snd (clock_apply e user outletId (sf_id s) action opn d2))"
    by (rule clock_apply_ok) (use c' src in auto)
  then show ?thesis using True c by (simp add: clock_pin_def d1_def [symmetric] case_prod_beta)
next
  case False
  then show ?thesis using punches_ok_same [OF ok] by (simp add: clock_pin_def wrong_pin_def set_staff_def Let_def)
qed

lemma clock_ok:
  assumes ok: "punches_ok (e_cuid e) d" and src: "inj (e_cuid e)"
  shows "punches_ok (e_cuid e) (snd (clock e pinMatches user outletId staffId pin action d))"
proof (cases "ebind (assertOutlet user outletId) (\<lambda>_. clock_tx e pinMatches user outletId staffId pin action d)")
  case (Inr x)
  obtain m d1 where x: "x = (m, d1)" by (cases x)
  from Inr obtain s hash where "(m, d1) = (case sf_pinLockedUntil s of
        Some till \<Rightarrow> if till > e_now e
          then (Some [Txt ''Too many wrong PINs -- try again after '', Num (of_int (lock_left (e_now e) till)), Txt '' min''], d)
          else clock_pin e pinMatches user outletId pin action s hash d
      | None \<Rightarrow> clock_pin e pinMatches user outletId pin action s hash d)"
    unfolding clock_tx_def guard_simps sum.inject x by (elim exE conjE) (rule that, erule sym)
  then have "(m, d1) = clock_pin e pinMatches user outletId pin action s hash d \<or> d1 = d" by (auto split: option.splits if_splits)
  then have "punches_ok (e_cuid e) d1" using clock_pin_ok [OF ok src, of pinMatches user outletId pin action s hash] ok by (metis snd_conv)
  then show ?thesis using Inr x by (simp add: clock_def split: option.splits)
qed (simp add: clock_def ok)

lemma correct_ok:
  assumes run: "correct e user outletId input d = Inr (i, d')" and ok: "punches_ok (e_cuid e) d" and src: "inj (e_cuid e)"
  shows "punches_ok (e_cuid e) d'"
proof -
  from run obtain staff :: staff_row and before where before: "find_before user input (sf_id staff) d = Inr before"
    and free: "co_clockOut input \<noteq> None \<or> \<not> other_open user input (sf_id staff) d"
    and d': "attendanceRecords d' = attendanceRecords (snd (save_correction e user outletId input (sf_id staff) before d))"
      "seq d' = seq (snd (save_correction e user outletId input (sf_id staff) before d))"
    unfolding correct_def guard_simps case_prod_beta sum.inject prod.inject
    by (elim exE conjE) (rule that, assumption, assumption, auto simp: audit_def)
  have "punches_ok (e_cuid e) (snd (save_correction e user outletId input (sf_id staff) before d))"
  proof (cases before)
    case None
    then have "\<not> truthy (co_recordId input)" using before by (auto simp: find_before_def guard_simps split: if_splits)
    then show ?thesis using free unfolding None save_correction_def fresh_def option.case prod.case snd_conv
      by (intro add_punch_ok [OF ok src]) (auto simp: other_open_def is_open_def)
  next
    case (Some r)
    then have r: "r \<in> set (attendanceRecords d)" "Some (at_id r) = co_recordId input" "at_tenantId r = u_tenantId user" "at_staffId r = sf_id staff"
      using before by (auto simp: find_before_def guard_simps dest: find_SomeD split: if_splits)
    have same: "p = r" if "p \<in> set (attendanceRecords d)" "at_id p = at_id r" for p
      using that r punches_ok_key [OF ok] by blast
    show ?thesis unfolding save_correction_def Some option.case snd_conv
    proof (rule set_punch_ok [OF ok])
      fix p
      assume p: "p \<in> set (attendanceRecords d)" "at_id p = at_id r"
        and opn: "at_clockOut (p\<lparr> at_date := istDateOf (co_clockIn input), at_clockIn := co_clockIn input,
        at_clockOut := co_clockOut input, at_breakMinutes := co_breakMinutes input, at_breakStartedAt := None, at_source := SourceCorrected,
        at_correctionReason := Some (co_reason input), at_correctedById := Some (u_id user) \<rparr>) = None"
      have "\<not> other_open user input (sf_id staff) d" using free opn by simp
      moreover have "p = r" using p by (rule same)
      ultimately have "\<forall>q \<in> set (attendanceRecords d). is_open (at_tenantId p) (at_staffId p) q \<longrightarrow> at_id q = at_id r"
        using r(3,4) by (auto simp: other_open_def is_open_def r(2) [symmetric])
      then show "at_clockOut p = None \<or> (\<forall>q \<in> set (attendanceRecords d). is_open (at_tenantId p) (at_staffId p) q \<longrightarrow> at_id q = at_id r)" ..
    qed simp_all
  qed
  then show ?thesis by (rule punches_ok_same) (simp_all add: d')
qed

inductive staff_step :: "(nat \<Rightarrow> id) \<Rightarrow> db \<Rightarrow> db \<Rightarrow> bool" for src where
  clocked: "e_cuid e = src \<Longrightarrow> clock e pinMatches user outletId staffId pin action d = (reply, d') \<Longrightarrow> staff_step src d d'"
| corrected: "e_cuid e = src \<Longrightarrow> correct e user outletId correction d = Inr (i, d') \<Longrightarrow> staff_step src d d'"
| elsewhere: "attendanceRecords d' = attendanceRecords d \<Longrightarrow> seq d \<le> seq d' \<Longrightarrow> staff_step src d d'"

lemma staff_step_ok: "staff_step src d d' \<Longrightarrow> inj src \<Longrightarrow> punches_ok src d \<Longrightarrow> punches_ok src d'"
proof (induction rule: staff_step.induct)
  case (clocked e pinMatches user outletId staffId pin action d reply d')
  then show ?case using clock_ok [of e d pinMatches user outletId staffId pin action] by simp
next
  case (corrected e user outletId correction d i d')
  then show ?case using correct_ok [OF corrected(2)] by simp
next
  case (elsewhere d' d)
  then show ?case using punches_ok_same by blast
qed

text \<open>C23. Whatever PINs are typed, whatever clock actions and corrections are made and in whatever order, no staff member ever has two
  open punches.\<close>

theorem one_open_punch:
  assumes "(staff_step src)\<^sup>*\<^sup>* d d'" and "inj src" and "attendanceRecords d = []"
  shows "length (filter (is_open tenantId staffId) (attendanceRecords d')) \<le> 1"
proof -
  have "punches_ok src d" using assms(3) by (simp add: punches_ok_def)
  with assms(1) have ok: "punches_ok src d'" by induction (use assms(2) staff_step_ok in blast)+
  let ?O = "filter (is_open tenantId staffId) (attendanceRecords d')"
  have "distinct (map at_id ?O)" using ok by (simp add: punches_ok_def distinct_map_filter)
  then have "length ?O = card (at_id ` set ?O)" using distinct_card [of "map at_id ?O"] by (simp only: set_map length_map)
  moreover have "card (at_id ` set ?O) \<le> 1"
    unfolding One_nat_def by (subst card_le_Suc0_iff_eq) (use punches_ok_unique [OF ok] in auto)
  ultimately show ?thesis by simp
qed

text \<open>A waiter clocks in and is refused a second clock-in.\<close>

definition waiter0 :: staff_row where
  "waiter0 = \<lparr> sf_id = ''w'', sf_tenantId = ''t'', sf_outletId = ''k'', sf_userId = None, sf_employeeCode = ''E1'', sf_name = ''Asha'',
     sf_phone = None, sf_designation = None, sf_joiningDate = (2024, 1, 1), sf_exitDate = None, sf_pinHash = Some ''4321'',
     sf_pinFailedCount = 0, sf_pinLockedUntil = None, sf_payType = Monthly, sf_payRate = 30000, sf_allowances = [], sf_deductions = [],
     sf_pfApplicable = False, sf_esiApplicable = False, sf_ptApplicable = False, sf_overtimeEligible = False, sf_isActive = True \<rparr>"

definition manager0 :: auth_user where
  "manager0 = \<lparr> u_id = ''m'', u_tenantId = ''t'', u_outletIds = [''k''], u_permissions = [''staff.manage''] \<rparr>"

definition floor_staff0 :: db where
  "floor_staff0 = db0\<lparr> staffMembers := [waiter0] \<rparr>"

abbreviation clock0 :: "clock_action \<Rightarrow> db \<Rightarrow> clock_entry result \<times> db" where
  "clock0 \<equiv> clock env0 (=) manager0 ''k'' ''w'' ''4321''"

lemma one_open_punch_witness:
  "clock_status.StIn = ce_status (projr (fst (clock0 ClockIn floor_staff0))) \<and>
   fst (clock0 ClockIn (snd (clock0 ClockIn floor_staff0))) = Inl (BadRequest [Txt ''Already clocked in'']) \<and>
   length (filter (is_open ''t'' ''w'') (attendanceRecords (snd (clock0 ClockIn (snd (clock0 ClockIn floor_staff0)))))) \<le> 1"
proof (intro conjI)
  let ?d1 = "snd (clock0 ClockIn floor_staff0)"
  show "clock_status.StIn = ce_status (projr (fst (clock0 ClockIn floor_staff0)))" by code_simp
  show "fst (clock0 ClockIn ?d1) = Inl (BadRequest [Txt ''Already clocked in''])" by code_simp
  have "staff_step (e_cuid env0) floor_staff0 ?d1" by (rule staff_step.clocked [OF refl prod.collapse [symmetric]])
  moreover have "staff_step (e_cuid env0) ?d1 (snd (clock0 ClockIn ?d1))" by (rule staff_step.clocked [OF refl prod.collapse [symmetric]])
  ultimately have "(staff_step (e_cuid env0))\<^sup>*\<^sup>* floor_staff0 (snd (clock0 ClockIn ?d1))" by simp
  then show "length (filter (is_open ''t'' ''w'') (attendanceRecords (snd (clock0 ClockIn ?d1)))) \<le> 1"
    by (rule one_open_punch) (simp_all add: env0_def inj_unary floor_staff0_def db0_def)
qed

text \<open>A wrong PIN is paid for: it is counted, the fifth in a row locks the profile, and a locked profile accepts no PIN and counts none.\<close>

theorem clock_locked:
  assumes "List.find (\<lambda>s. sf_id s = staffId \<and> sf_tenantId s = u_tenantId user \<and> sf_outletId s = outletId) (staffMembers d) = Some s"
    and "sf_pinLockedUntil s = Some till" and "till > e_now e"
  shows "\<exists>err. clock e pinMatches user outletId staffId pin action d = (Inl err, d)"
  using assms by (auto simp: clock_def clock_tx_def ebind_def assertOutlet_def require_def some_or_def split: sum.splits option.splits)

end
