(* ===== verification/Payroll.thy ===== *)
theory Payroll
  imports Staff Gift_Cards
begin

text \<open>
  The payroll service (\<open>apps/api/src/staff/payroll.service.ts\<close>): salary advances, payroll runs and their payslips. A run is
  drafted from attendance, leave, roster and pay profiles, may be edited and recomputed as a draft, and is locked by
  \<open>finalise\<close>, which recovers the advances the payslips deduct. The CSV and the sales report are not modelled.
\<close>

section \<open>Settings\<close>

definition getConfig :: "auth_user \<Rightarrow> db \<Rightarrow> payroll_config" where
  "getConfig user d = loadPayrollConfig (u_tenantId user) d"

definition setConfig :: "auth_user \<Rightarrow> payroll_config \<Rightarrow> db \<Rightarrow> db" where
  "setConfig user config d =
    (let d1 = payrollSettings_update (\<lambda>rs. if \<exists>r \<in> set rs. pg_tenantId r = u_tenantId user
               then update_where (\<lambda>r. pg_tenantId r = u_tenantId user) (\<lambda>r. r\<lparr>pg_config := config\<rparr>) rs
               else rs @ [\<lparr> pg_tenantId = u_tenantId user, pg_config = config \<rparr>]) d
     in auditLogs_update (\<lambda>as. as @ [\<lparr> au_tenantId = u_tenantId user, au_userId = Some (u_id user), au_action = ''PAYROLL_SETTINGS_UPDATED'',
          au_entity = ''payroll_settings'', au_entityId = None \<rparr>]) d1)"

section \<open>Advances\<close>

record advance_dto =
  ad_id :: id
  ad_staffId :: id
  ad_staffName :: string
  ad_amount :: num
  ad_monthlyRecovery :: num
  ad_recovered :: num
  ad_outstanding :: num
  ad_givenOn :: date
  ad_paidFrom :: advance_source
  ad_status :: advance_status
  ad_note :: "string option"

definition staff_name :: "id \<Rightarrow> id \<Rightarrow> db \<Rightarrow> string" where
  "staff_name tenantId staffId d =
     (case List.find (\<lambda>s. sf_tenantId s = tenantId \<and> sf_id s = staffId) (staffMembers d) of Some s \<Rightarrow> sf_name s | None \<Rightarrow> [])"

text \<open>Open advances first, then the latest given.\<close>

definition advances :: "auth_user \<Rightarrow> id \<Rightarrow> db \<Rightarrow> advance_dto list result" where
  "advances user outletId d =
    ebind (assertOutlet user outletId) (\<lambda>_.
      let rows = filter (\<lambda>a. sa_tenantId a = u_tenantId user \<and> sa_outletId a = outletId) (salaryAdvances d)
      in Inr (map (\<lambda>a. \<lparr> ad_id = sa_id a, ad_staffId = sa_staffId a, ad_staffName = staff_name (u_tenantId user) (sa_staffId a) d,
           ad_amount = sa_amount a, ad_monthlyRecovery = sa_monthlyRecovery a, ad_recovered = sa_recovered a,
           ad_outstanding = fromPaise (of_int (toPaise (sa_amount a) - toPaise (sa_recovered a))), ad_givenOn = sa_givenOn a,
           ad_paidFrom = sa_paidFrom a, ad_status = sa_status a, ad_note = sa_note a \<rparr>)
         (take 200 (sort_key (\<lambda>a. sa_status a = AdvanceClosed) (rev (sort_key sa_givenOn rows))))))"

record advance_input =
  adi_staffId :: id
  adi_amount :: num
  adi_monthlyRecovery :: num
  adi_givenOn :: date
  adi_paidFrom :: advance_source
  adi_note :: "string option"

definition pay_from_drawer :: "env \<Rightarrow> auth_user \<Rightarrow> id \<Rightarrow> num \<Rightarrow> string \<Rightarrow> db \<Rightarrow> db result" where
  "pay_from_drawer e user outletId amount name d =
    ebind (some_or (open_session (u_tenantId user) outletId d) (BadRequest [Txt ''Open the cash drawer to pay an advance from it''])) (\<lambda>s.
      case fresh e d of (i, d1) \<Rightarrow>
      Inr (cashMovements_update (\<lambda>ms. ms @ [\<lparr> cm_id = i, cm_sessionId = cs_id s, cm_type = PAY_OUT, cm_amount = numeric_col 2 (- amount),
        cm_category = Some ''SALARY_ADVANCE'', cm_note = Some (''Advance: '' @ name), cm_orderId = None, cm_createdAt = e_now e \<rparr>]) d1))"

definition giveAdvance :: "env \<Rightarrow> auth_user \<Rightarrow> id \<Rightarrow> advance_input \<Rightarrow> db \<Rightarrow> (id \<times> db) result" where
  "giveAdvance e user outletId input d =
    ebind (assertOutlet user outletId) (\<lambda>_.
    ebind (some_or (List.find (\<lambda>s. sf_id s = adi_staffId input \<and> sf_tenantId s = u_tenantId user \<and> sf_outletId s = outletId) (staffMembers d))
        (NotFound [Txt ''Staff member not found''])) (\<lambda>staff.
    ebind (require (\<not> adi_monthlyRecovery input > adi_amount input) (BadRequest [Txt ''Monthly recovery cannot exceed the advance''])) (\<lambda>_.
    ebind (if adi_paidFrom input = FromDrawer then pay_from_drawer e user outletId (adi_amount input) (sf_name staff) d else Inr d) (\<lambda>d1.
      case fresh e d1 of (i, d2) \<Rightarrow>
      Inr (i, audit (u_tenantId user) (Some (u_id user)) ''SALARY_ADVANCE'' ''salary_advance'' i
        (salaryAdvances_update (\<lambda>as. as @ [\<lparr> sa_id = i, sa_tenantId = u_tenantId user, sa_outletId = outletId, sa_staffId = sf_id staff,
          sa_amount = numeric_col 2 (adi_amount input), sa_monthlyRecovery = numeric_col 2 (adi_monthlyRecovery input), sa_recovered = 0,
          sa_givenOn = adi_givenOn input, sa_paidFrom = adi_paidFrom input, sa_status = AdvanceOpen, sa_note = adi_note input,
          sa_createdById = Some (u_id user) \<rparr>]) d2))))))"

section \<open>The run as it is shown\<close>

record run_row_dto =
  rr_id :: id
  rr_month :: "int \<times> int"
  rr_status :: run_status
  rr_staffCount :: int
  rr_net :: num
  rr_employerCost :: num

definition column_sum :: "('a \<Rightarrow> num) \<Rightarrow> 'a list \<Rightarrow> num" where
  "column_sum f ps = fromPaise (of_int (\<Sum>p\<leftarrow>ps. toPaise (f p)))"

definition runs :: "auth_user \<Rightarrow> id \<Rightarrow> db \<Rightarrow> run_row_dto list result" where
  "runs user outletId d =
    ebind (assertOutlet user outletId) (\<lambda>_.
      Inr (map (\<lambda>r. let ps = filter (\<lambda>p. py_runId p = run_id r) (payslips d)
           in \<lparr> rr_id = run_id r, rr_month = run_month r, rr_status = run_status r, rr_staffCount = int (length ps),
                rr_net = column_sum py_net ps, rr_employerCost = column_sum py_employerCost ps \<rparr>)
         (rev (sort_key run_month (filter (\<lambda>r. run_tenantId r = u_tenantId user \<and> run_outletId r = outletId) (payrollRuns d))))))"

record payslip_dto =
  pd_id :: id
  pd_staffId :: id
  pd_staffName :: string
  pd_employeeCode :: string
  pd_designation :: "string option"
  pd_payType :: pay_type
  pd_payRate :: num
  pd_daysInMonth :: int
  pd_attendance :: month_summary
  pd_lopDays :: num
  pd_overtimeMinutes :: int
  pd_adjustments :: "pay_adjustment list"
  pd_calc :: payslip_calc
  pd_note :: "string option"

definition toPayslipDto :: "payslip_row \<Rightarrow> payslip_dto" where
  "toPayslipDto p = \<lparr> pd_id = py_id p, pd_staffId = py_staffId p, pd_staffName = py_staffName p, pd_employeeCode = py_employeeCode p,
     pd_designation = py_designation p, pd_payType = py_payType p, pd_payRate = py_payRate p, pd_daysInMonth = pin_daysInMonth (py_pay p),
     pd_attendance = py_attendance p, pd_lopDays = py_lopDays p, pd_overtimeMinutes = py_overtimeMinutes p,
     pd_adjustments = py_adjustments p, pd_calc = py_calc p, pd_note = py_note p \<rparr>"

record run_totals =
  rt_gross :: num
  rt_deductions :: num
  rt_net :: num
  rt_employerCost :: num

record run_dto =
  rd_id :: id
  rd_outletId :: id
  rd_outletName :: string
  rd_month :: "int \<times> int"
  rd_status :: run_status
  rd_config :: payroll_config
  rd_totals :: run_totals
  rd_finalisedAt :: "int option"
  rd_payslips :: "payslip_dto list"

definition show_run :: "auth_user \<Rightarrow> id \<Rightarrow> id \<Rightarrow> db \<Rightarrow> run_dto result" where
  "show_run user outletId i d =
    ebind (assertOutlet user outletId) (\<lambda>_.
    ebind (some_or (List.find (\<lambda>r. run_id r = i \<and> run_tenantId r = u_tenantId user \<and> run_outletId r = outletId) (payrollRuns d))
        (NotFound [Txt ''Payroll run not found''])) (\<lambda>run.
      let ps = map toPayslipDto (sort_key py_staffName (filter (\<lambda>p. py_runId p = run_id run) (payslips d)))
      in Inr \<lparr> rd_id = run_id run, rd_outletId = outletId,
           rd_outletName = (case List.find (\<lambda>u. ou_id u = outletId \<and> ou_tenantId u = u_tenantId user) (outlets d) of Some u \<Rightarrow> ou_name u | None \<Rightarrow> []),
           rd_month = run_month run, rd_status = run_status run, rd_config = run_config run,
           rd_totals = \<lparr> rt_gross = column_sum (\<lambda>p. pk_gross (pd_calc p)) ps, rt_deductions = column_sum (\<lambda>p. pk_totalDeductions (pd_calc p)) ps,
             rt_net = column_sum (\<lambda>p. pk_net (pd_calc p)) ps,
             rt_employerCost = column_sum (\<lambda>p. pk_gross (pd_calc p) + pk_pfEmployer (pd_calc p) + pk_esiEmployer (pd_calc p)) ps \<rparr>,
           rd_finalisedAt = run_finalisedAt run, rd_payslips = ps \<rparr>))"

section \<open>Drafts\<close>

definition calcColumns :: "payslip_calc \<Rightarrow> payslip_row \<Rightarrow> payslip_row" where
  "calcColumns calc p = p\<lparr> py_calc := calc, py_gross := numeric_col 2 (pk_gross calc), py_totalDeductions := numeric_col 2 (pk_totalDeductions calc),
     py_net := numeric_col 2 (pk_net calc),
     py_employerCost := numeric_col 2 (fromPaise (of_int (toPaise (pk_gross calc) + toPaise (pk_pfEmployer calc) + toPaise (pk_esiEmployer calc)))),
     py_advanceRecovery := numeric_col 2 (pk_advanceRecovery calc) \<rparr>"

text \<open>The run of a month: the unique row of the outlet and the month, whoever created it.\<close>

definition ensure_run :: "env \<Rightarrow> auth_user \<Rightarrow> id \<Rightarrow> int \<times> int \<Rightarrow> payroll_config \<Rightarrow> db \<Rightarrow> db" where
  "ensure_run e user outletId month config d =
    (if \<exists>r \<in> set (payrollRuns d). run_outletId r = outletId \<and> run_month r = month then d
     else case fresh e d of (i, d1) \<Rightarrow>
       payrollRuns_update (\<lambda>rs. rs @ [\<lparr> run_id = i, run_tenantId = u_tenantId user, run_outletId = outletId, run_month = month,
         run_status = RunDraft, run_config = config, run_createdById = Some (u_id user), run_finalisedById = None, run_finalisedAt = None \<rparr>]) d1)"

definition set_run :: "id \<Rightarrow> (payroll_run_row \<Rightarrow> payroll_run_row) \<Rightarrow> db \<Rightarrow> db" where
  "set_run i f = payrollRuns_update (set_row run_id i f)"

definition eligible :: "id \<Rightarrow> id \<Rightarrow> date \<Rightarrow> date \<Rightarrow> db \<Rightarrow> staff_row list" where
  "eligible tenantId outletId from to d = filter (\<lambda>s. sf_isActive s \<or> sf_exitDate s \<noteq> None)
     (filter (\<lambda>s. sf_tenantId s = tenantId \<and> sf_outletId s = outletId \<and> sf_joiningDate s \<le> to
        \<and> (case sf_exitDate s of None \<Rightarrow> True | Some x \<Rightarrow> from \<le> x)) (staffMembers d))"

text \<open>Days still ahead are assumed worked: their shift is dropped, so they are no loss of pay.\<close>

definition assume_worked :: "date \<Rightarrow> month_day list \<Rightarrow> month_day list" where
  "assume_worked today = map (\<lambda>m. if md_date m > today \<and> md_employed m then m\<lparr>md_shift := None\<rparr> else m)"

definition advance_due :: "id \<Rightarrow> id \<Rightarrow> date \<Rightarrow> db \<Rightarrow> int" where
  "advance_due tenantId staffId to d = foldl (\<lambda>sum a. sum + min (toPaise (sa_monthlyRecovery a)) (toPaise (sa_amount a) - toPaise (sa_recovered a))) 0
     (filter (\<lambda>a. sa_tenantId a = tenantId \<and> sa_staffId a = staffId \<and> sa_status a = AdvanceOpen \<and> sa_givenOn a \<le> to) (salaryAdvances d))"

text \<open>The snapshot leaves the three inputs out that a draft may override; they are set when it is computed.\<close>

definition pay_snapshot :: "staff_row \<Rightarrow> int \<Rightarrow> month_summary \<Rightarrow> int \<Rightarrow> pay_inputs" where
  "pay_snapshot s days attendance advanceDue = \<lparr> pin_payType = sf_payType s, pin_payRate = sf_payRate s, pin_allowances = sf_allowances s,
     pin_deductions = sf_deductions s, pin_pfApplicable = sf_pfApplicable s, pin_esiApplicable = sf_esiApplicable s,
     pin_ptApplicable = sf_ptApplicable s, pin_overtimeEligible = sf_overtimeEligible s, pin_daysInMonth = days,
     pin_presentDays = ms_presentDays attendance, pin_paidLeaveDays = ms_paidLeaveDays attendance, pin_lopDays = 0,
     pin_workedMinutes = ms_workedMinutes attendance, pin_overtimeMinutes = 0, pin_advanceDue = fromPaise (of_int advanceDue), pin_adjustments = [] \<rparr>"

definition recompute :: "pay_inputs \<Rightarrow> num \<Rightarrow> int \<Rightarrow> pay_adjustment list \<Rightarrow> payroll_config \<Rightarrow> payslip_calc" where
  "recompute pay lopDays overtimeMinutes adjustments config =
     computePayslip (pay\<lparr>pin_lopDays := lopDays, pin_overtimeMinutes := overtimeMinutes, pin_adjustments := adjustments\<rparr>) config"

definition draft_columns :: "staff_row \<Rightarrow> pay_inputs \<Rightarrow> month_summary \<Rightarrow> pay_adjustment list \<Rightarrow> payroll_config \<Rightarrow> payslip_row \<Rightarrow> payslip_row" where
  "draft_columns s pay attendance adjustments config p =
     calcColumns (recompute pay (ms_lopDays attendance) (ms_overtimeMinutes attendance) adjustments config)
       (p\<lparr> py_staffName := sf_name s, py_employeeCode := sf_employeeCode s, py_designation := sf_designation s, py_payType := sf_payType s,
           py_payRate := sf_payRate s, py_pay := pay, py_attendance := attendance, py_lopDays := numeric_col 1 (ms_lopDays attendance),
           py_overtimeMinutes := ms_overtimeMinutes attendance, py_adjustments := adjustments \<rparr>)"

definition new_payslip :: "id \<Rightarrow> id \<Rightarrow> id \<Rightarrow> staff_row \<Rightarrow> pay_inputs \<Rightarrow> month_summary \<Rightarrow> payslip_calc \<Rightarrow> payslip_row" where
  "new_payslip i tenantId runId s pay attendance calc = \<lparr> py_id = i, py_tenantId = tenantId, py_runId = runId, py_staffId = sf_id s,
     py_staffName = sf_name s, py_employeeCode = sf_employeeCode s, py_designation = sf_designation s, py_payType = sf_payType s,
     py_payRate = sf_payRate s, py_pay = pay, py_attendance = attendance, py_lopDays = 0, py_overtimeMinutes = 0, py_adjustments = [],
     py_calc = calc, py_gross = 0, py_totalDeductions = 0, py_net = 0, py_employerCost = 0, py_advanceRecovery = 0, py_note = None \<rparr>"

text \<open>One member of staff: \<open>before\<close> is the database the loop was entered with, where the previous draft is read.\<close>

definition draft_one :: "env \<Rightarrow> auth_user \<Rightarrow> id \<Rightarrow> payroll_config \<Rightarrow> date \<Rightarrow> date \<Rightarrow> db \<Rightarrow> db \<Rightarrow> staff_row \<times> month_day list \<Rightarrow> db" where
  "draft_one e user runId config from to before d = (\<lambda>(s, days).
    let attendance = summariseMonth (assume_worked (istDateOf (e_now e)) days) (rulesFromConfig config);
        pay = pay_snapshot s (daysInMonth (month_of from)) attendance (advance_due (u_tenantId user) (sf_id s) to before);
        prev = List.find (\<lambda>p. py_tenantId p = u_tenantId user \<and> py_runId p = runId \<and> py_staffId p = sf_id s) (payslips before);
        adjustments = (case prev of Some p \<Rightarrow> py_adjustments p | None \<Rightarrow> []);
        f = draft_columns s pay attendance adjustments config
    in if \<exists>p \<in> set (payslips d). py_runId p = runId \<and> py_staffId p = sf_id s
       then payslips_update (update_where (\<lambda>p. py_runId p = runId \<and> py_staffId p = sf_id s) f) d
       else (case fresh e d of (i, d1) \<Rightarrow> payslips_update (\<lambda>ps. ps @ [f (new_payslip i (u_tenantId user) runId s pay attendance
              (recompute pay 0 0 [] config))]) d1))"

definition draft_tx :: "env \<Rightarrow> auth_user \<Rightarrow> id \<Rightarrow> int \<times> int \<Rightarrow> db \<Rightarrow> (id \<times> db) result" where
  "draft_tx e user outletId month d =
    (let config = loadPayrollConfig (u_tenantId user) d;
         from = (fst month, snd month, 1); to = (fst month, snd month, daysInMonth month);
         d1 = ensure_run e user outletId month config d
     in ebind (some_or (List.find (\<lambda>r. run_outletId r = outletId \<and> run_month r = month \<and> run_tenantId r = u_tenantId user) (payrollRuns d1))
          (NotFound [Txt ''Payroll run not found''])) (\<lambda>run.
        ebind (require (run_status run = RunDraft) (BadRequest [Txt (''Payroll for '' @ month_text month @ '' is finalised'')])) (\<lambda>_.
          let d2 = set_run (run_id run) (\<lambda>r. r\<lparr>run_config := config\<rparr>) d1;
              active = eligible (u_tenantId user) outletId from to d2;
              days = map snd (loadAttendanceDays (u_tenantId user) active from to d2);
              d3 = foldl (draft_one e user (run_id run) config from to d2) d2 (zip active days)
          in Inr (run_id run, payslips_update (filter (\<lambda>p. \<not> (py_tenantId p = u_tenantId user \<and> py_runId p = run_id run
               \<and> py_staffId p \<notin> sf_id ` set active))) d3))))"

definition computeDraft :: "env \<Rightarrow> auth_user \<Rightarrow> id \<Rightarrow> int \<times> int \<Rightarrow> db \<Rightarrow> (run_dto \<times> db) result" where
  "computeDraft e user outletId month d =
    ebind (assertOutlet user outletId) (\<lambda>_.
    ebind (draft_tx e user outletId month d) (\<lambda>(i, d1).
    ebind (show_run user outletId i d1) (\<lambda>dto. Inr (dto, d1))))"

section \<open>Editing, finalising, deleting\<close>

record payslip_edit =
  pe_lopDays :: "num option"
  pe_overtimeMinutes :: "int option"
  pe_adjustments :: "pay_adjustment list option"
  pe_note :: "string option option"

definition lock_run :: "auth_user \<Rightarrow> id \<Rightarrow> id \<Rightarrow> string \<Rightarrow> db \<Rightarrow> payroll_run_row result" where
  "lock_run user outletId runId message d =
    ebind (some_or (List.find (\<lambda>r. run_id r = runId \<and> run_tenantId r = u_tenantId user \<and> run_outletId r = outletId) (payrollRuns d))
        (NotFound [Txt ''Payroll run not found''])) (\<lambda>run.
    ebind (require (run_status run = RunDraft) (BadRequest [Txt message])) (\<lambda>_. Inr run))"

definition updatePayslip :: "auth_user \<Rightarrow> id \<Rightarrow> id \<Rightarrow> id \<Rightarrow> payslip_edit \<Rightarrow> db \<Rightarrow> (payslip_dto \<times> db) result" where
  "updatePayslip user outletId runId payslipId input d =
    ebind (assertOutlet user outletId) (\<lambda>_.
    ebind (lock_run user outletId runId ''Payroll is finalised and locked'' d) (\<lambda>run.
    ebind (some_or (List.find (\<lambda>p. py_id p = payslipId \<and> py_runId p = runId \<and> py_tenantId p = u_tenantId user) (payslips d))
        (NotFound [Txt ''Payslip not found''])) (\<lambda>p.
      let lopDays = or_else (pe_lopDays input) (py_lopDays p)
      in ebind (require (\<not> lopDays > of_int (pin_daysInMonth (py_pay p))) (BadRequest [Txt ''LOP days exceed the month''])) (\<lambda>_.
         let overtimeMinutes = or_else (pe_overtimeMinutes input) (py_overtimeMinutes p);
             adjustments = or_else (pe_adjustments input) (py_adjustments p);
             calc = recompute (py_pay p) lopDays overtimeMinutes adjustments (run_config run);
             f = (\<lambda>q. calcColumns calc (q\<lparr>py_lopDays := numeric_col 1 lopDays, py_overtimeMinutes := overtimeMinutes,
                    py_adjustments := adjustments, py_note := or_else (pe_note input) (py_note q)\<rparr>))
         in Inr (toPayslipDto (f p), payslips_update (set_row py_id (py_id p) f) d)))))"

definition set_advance :: "id \<Rightarrow> (salary_advance_row \<Rightarrow> salary_advance_row) \<Rightarrow> db \<Rightarrow> db" where
  "set_advance i f = salaryAdvances_update (set_row sa_id i f)"

definition open_advances :: "id \<Rightarrow> id \<Rightarrow> db \<Rightarrow> salary_advance_row list" where
  "open_advances tenantId staffId d = sort_key (\<lambda>a. (sa_givenOn a, sa_id a))
     (filter (\<lambda>a. sa_staffId a = staffId \<and> sa_tenantId a = tenantId \<and> sa_status a = AdvanceOpen) (salaryAdvances d))"

definition book_recovery :: "salary_advance_row \<Rightarrow> int \<Rightarrow> salary_advance_row \<Rightarrow> salary_advance_row" where
  "book_recovery a recovered b = b\<lparr>sa_recovered := numeric_col 2 (fromPaise (of_int recovered)),
     sa_status := (if recovered \<ge> toPaise (sa_amount a) then AdvanceClosed else AdvanceOpen)\<rparr>"

text \<open>Recovering an amount in paise from the open advances, oldest first; what could not be recovered is returned.\<close>

fun recover :: "int \<Rightarrow> salary_advance_row list \<Rightarrow> db \<Rightarrow> int \<times> db" where
  "recover remaining [] d = (remaining, d)"
| "recover remaining (a # as) d = (if remaining \<le> 0 then (remaining, d) else
     let outstanding = toPaise (sa_amount a) - toPaise (sa_recovered a);
         took = min outstanding remaining;
         recovered = toPaise (sa_recovered a) + took
     in recover (remaining - took) as (set_advance (sa_id a) (book_recovery a recovered) d))"

definition recover_payslip :: "id \<Rightarrow> payslip_row \<Rightarrow> db \<Rightarrow> db result" where
  "recover_payslip tenantId p d = (let remaining = toPaise (py_advanceRecovery p)
     in if remaining \<le> 0 then Inr d else
        (case recover remaining (open_advances tenantId (py_staffId p) d) d of (left, d1) \<Rightarrow>
           ebind (require (\<not> left > 0) (BadRequest [Txt (''Advances for '' @ py_staffName p @ '' changed -- recompute the draft'')])) (\<lambda>_. Inr d1)))"

definition finalise_tx :: "env \<Rightarrow> auth_user \<Rightarrow> id \<Rightarrow> id \<Rightarrow> db \<Rightarrow> db result" where
  "finalise_tx e user outletId runId d =
    ebind (lock_run user outletId runId ''Payroll is already finalised'' d) (\<lambda>run.
      let ps = filter (\<lambda>p. py_runId p = runId \<and> py_tenantId p = u_tenantId user) (payslips d)
      in ebind (require (ps \<noteq> []) (BadRequest [Txt ''No payslips to finalise''])) (\<lambda>_.
         ebind (efold (recover_payslip (u_tenantId user)) ps d) (\<lambda>d1.
           Inr (audit (u_tenantId user) (Some (u_id user)) ''PAYROLL_FINALISED'' ''payroll_run'' runId
             (set_run runId (\<lambda>r. r\<lparr>run_status := RunFinalised, run_finalisedAt := Some (e_now e), run_finalisedById := Some (u_id user)\<rparr>) d1)))))"

definition finalise :: "env \<Rightarrow> auth_user \<Rightarrow> id \<Rightarrow> id \<Rightarrow> db \<Rightarrow> (run_dto \<times> db) result" where
  "finalise e user outletId runId d =
    ebind (assertOutlet user outletId) (\<lambda>_.
    ebind (finalise_tx e user outletId runId d) (\<lambda>d1.
    ebind (show_run user outletId runId d1) (\<lambda>dto. Inr (dto, d1))))"

definition deleteDraft :: "auth_user \<Rightarrow> id \<Rightarrow> id \<Rightarrow> db \<Rightarrow> (id \<times> db) result" where
  "deleteDraft user outletId runId d =
    ebind (assertOutlet user outletId) (\<lambda>_.
    ebind (lock_run user outletId runId ''A finalised payroll cannot be deleted'' d) (\<lambda>_.
      Inr (runId, payslips_update (filter (\<lambda>p. py_runId p \<noteq> runId))
        (payrollRuns_update (filter (\<lambda>r. run_id r \<noteq> runId)) d))))"

end
