(* ===== verification/Payroll_Laws.thy ===== *)
theory Payroll_Laws
  imports Payroll
begin

text \<open>
  What the payroll service keeps: the advances recovered of a member of staff are what his finalised payslips deduct, after every
  history of advances, drafts, edits, deletions and finalisations; and a fresh draft can always be finalised.
\<close>

section \<open>Recovering an advance\<close>

definition recovered_of :: "id \<Rightarrow> id \<Rightarrow> db \<Rightarrow> num" where
  "recovered_of tenantId staffId d =
     (\<Sum>a\<leftarrow>salaryAdvances d. if sa_tenantId a = tenantId \<and> sa_staffId a = staffId then sa_recovered a else 0)"

definition advance_ok :: "salary_advance_row \<Rightarrow> bool" where
  "advance_ok a \<longleftrightarrow> paise_exact (sa_amount a) \<and> paise_exact (sa_recovered a) \<and> 0 \<le> sa_recovered a \<and> sa_recovered a \<le> sa_amount a
     \<and> (sa_status a = AdvanceClosed \<longrightarrow> sa_recovered a = sa_amount a)"

definition advances_ok :: "(nat \<Rightarrow> id) \<Rightarrow> db \<Rightarrow> bool" where
  "advances_ok src d \<longleftrightarrow> distinct (map sa_id (salaryAdvances d)) \<and> sa_id ` set (salaryAdvances d) \<subseteq> src ` {..<seq d}
     \<and> (\<forall>a \<in> set (salaryAdvances d). advance_ok a)"

interpretation adv: table "salaryAdvances :: db \<Rightarrow> _" salaryAdvances_update sa_id
  by unfold_locales simp_all

lemma advances_ok_same: "advances_ok src d \<Longrightarrow> salaryAdvances d' = salaryAdvances d \<Longrightarrow> seq d \<le> seq d' \<Longrightarrow> advances_ok src d'"
  unfolding advances_ok_def by (elim conjE, intro conjI) (simp_all, erule (1) drawn_mono)

lemma take_ok:
  assumes a: "advance_ok a" and r: "0 < remaining"
  defines "took \<equiv> min (toPaise (sa_amount a) - toPaise (sa_recovered a)) remaining"
  defines "b \<equiv> book_recovery a (toPaise (sa_recovered a) + took) a"
  shows "advance_ok b" and "sa_recovered b = sa_recovered a + of_int took / 100" and "0 \<le> took" and "took \<le> remaining"
proof -
  have ex: "of_int (toPaise (sa_amount a)) = sa_amount a * 100" "of_int (toPaise (sa_recovered a)) = sa_recovered a * 100"
    using a by (simp_all add: advance_ok_def paise_exact_toPaise)
  then have le: "toPaise (sa_recovered a) \<le> toPaise (sa_amount a)"
    using a by (simp add: advance_ok_def flip: of_int_le_iff [where 'a = rat])
  show t: "0 \<le> took" "took \<le> remaining" using le r by (simp_all add: took_def)
  have new: "sa_recovered b = of_int (toPaise (sa_recovered a) + took) / 100"
    unfolding b_def book_recovery_def by (simp add: numeric_col_exact fromPaise_def del: of_int_add)
  then show "sa_recovered b = sa_recovered a + of_int took / 100" using ex by (simp add: add_divide_distrib)
  have top: "toPaise (sa_recovered a) + took \<le> toPaise (sa_amount a)" by (simp add: took_def)
  have "sa_recovered b \<le> sa_amount b"
    using top ex(1) unfolding new unfolding b_def book_recovery_def by (simp add: field_simps flip: of_int_le_iff [where 'a = rat])
  moreover have "sa_recovered b = sa_amount b" if "sa_status b = AdvanceClosed"
  proof -
    from that top have "toPaise (sa_recovered a) + took = toPaise (sa_amount a)" by (simp add: b_def book_recovery_def split: if_splits)
    then show ?thesis unfolding new using ex(1) by (simp add: b_def book_recovery_def)
  qed
  moreover have "0 \<le> sa_recovered b" using a t ex unfolding new by (simp add: advance_ok_def)
  moreover have "paise_exact (sa_recovered b)" unfolding new by (rule paise_exact_of_int_div)
  ultimately show "advance_ok b" using a by (auto simp: advance_ok_def b_def book_recovery_def)
qed

lemma set_advance_ok:
  assumes ok: "advances_ok src d" and a: "a \<in> set (salaryAdvances d)" and f: "\<And>b. sa_id (f b) = sa_id b" and fa: "advance_ok (f a)"
  shows "advances_ok src (set_advance (sa_id a) f d)"
proof -
  have "advance_ok x" if "x \<in> set (set_row sa_id (sa_id a) f (salaryAdvances d))" for x
    using that
  proof (cases rule: set_row_memberE)
    case (1 r)
    have "row_by sa_id (sa_id x) (salaryAdvances d) = Some x" if "x \<in> set (salaryAdvances d)" for x
      using ok that by (intro row_by_distinct) (simp_all add: advances_ok_def)
    then have "r = a" using 1 a by (metis option.inject)
    then show ?thesis using 1 fa by simp
  qed (use ok in \<open>simp add: advances_ok_def\<close>)
  then show ?thesis using ok by (simp add: advances_ok_def set_advance_def map_key_set_row image_key_set_row f)
qed

lemma set_advance_sum:
  assumes ok: "advances_ok src d" and a: "a \<in> set (salaryAdvances d)"
    and f: "\<And>b. sa_tenantId (f b) = sa_tenantId b" "\<And>b. sa_staffId (f b) = sa_staffId b"
  shows "recovered_of t s (set_advance (sa_id a) f d) =
    recovered_of t s d + (if sa_tenantId a = t \<and> sa_staffId a = s then sa_recovered (f a) - sa_recovered a else 0)"
proof -
  have "row_by sa_id (sa_id a) (salaryAdvances d) = Some a" using ok a by (intro row_by_distinct) (simp_all add: advances_ok_def)
  then show ?thesis using ok sum_list_set_row [of sa_id "salaryAdvances d" "sa_id a" a "\<lambda>a. if sa_tenantId a = t \<and> sa_staffId a = s then sa_recovered a else 0" f]
    by (simp add: recovered_of_def set_advance_def advances_ok_def f)
qed

lemma recover_ok:
  assumes "recover remaining as d = (left, d')" and "advances_ok src d" and "set as \<subseteq> set (salaryAdvances d)" and "distinct (map sa_id as)"
    and "\<And>a. a \<in> set as \<Longrightarrow> sa_tenantId a = t \<and> sa_staffId a = s" and "0 \<le> remaining"
  shows "advances_ok src d' \<and> 0 \<le> left \<and>
    (\<forall>t' s'. recovered_of t' s' d' = recovered_of t' s' d + (if t = t' \<and> s = s' then of_int (remaining - left) / 100 else 0)) \<and>
    d\<lparr>salaryAdvances := salaryAdvances d'\<rparr> = d'"
  using assms
proof (induction remaining as d rule: recover.induct)
  case (1 remaining d)
  then have "left = remaining" "d' = d" by simp_all
  then show ?case using 1 by simp
next
  case (2 remaining a as d)
  show ?case
  proof (cases "remaining \<le> 0")
    case True
    then have "left = remaining" "d' = d" using 2 by simp_all
    then show ?thesis using 2 by simp
  next
    case False
    define took where "took = min (toPaise (sa_amount a) - toPaise (sa_recovered a)) remaining"
    define f where "f = book_recovery a (toPaise (sa_recovered a) + took)"
    have run: "recover (remaining - took) as (set_advance (sa_id a) f d) = (left, d')"
      using "2.prems"(1) False unfolding recover.simps Let_def took_def f_def by simp
    have a: "a \<in> set (salaryAdvances d)" "advance_ok a" "sa_tenantId a = t" "sa_staffId a = s"
      using "2.prems" by (auto simp: advances_ok_def)
    have f: "sa_id (f b) = sa_id b" "sa_tenantId (f b) = sa_tenantId b" "sa_staffId (f b) = sa_staffId b" for b by (simp_all add: f_def book_recovery_def)
    have fa: "advance_ok (f a)" "sa_recovered (f a) = sa_recovered a + of_int took / 100" "took \<le> remaining"
      using take_ok [OF a(2), of remaining] False by (simp_all add: took_def f_def)
    have ok1: "advances_ok src (set_advance (sa_id a) f d)" by (rule set_advance_ok [OF "2.prems"(2) a(1) f(1) fa(1)])
    have still: "set as \<subseteq> set (salaryAdvances (set_advance (sa_id a) f d))"
    proof
      fix b assume b: "b \<in> set as"
      have "sa_id a \<notin> sa_id ` set as" using "2.prems"(4) by simp
      with imageI [OF b, of sa_id] have "sa_id b \<noteq> sa_id a" by metis
      moreover have "b \<in> set (salaryAdvances d)" using b "2.prems"(3) by auto
      ultimately show "b \<in> set (salaryAdvances (set_advance (sa_id a) f d))"
        by (auto simp: set_advance_def set_row_def set_update_where image_iff intro!: bexI [of _ b])
    qed
    have ih: "advances_ok src d' \<and> 0 \<le> left \<and>
      (\<forall>t' s'. recovered_of t' s' d' = recovered_of t' s' (set_advance (sa_id a) f d) + (if t = t' \<and> s = s' then of_int (remaining - took - left) / 100 else 0)) \<and>
      (set_advance (sa_id a) f d)\<lparr>salaryAdvances := salaryAdvances d'\<rparr> = d'"
      by (rule "2.IH" [OF False refl refl refl, folded took_def, folded f_def]) (use run ok1 still "2.prems"(4,5) fa(3) in auto)
    have "recovered_of t' s' d' = recovered_of t' s' d + (if t = t' \<and> s = s' then of_int (remaining - left) / 100 else 0)" for t' s'
      using ih set_advance_sum [OF "2.prems"(2) a(1) f(2,3), of t' s'] a fa(2) by (simp add: field_simps)
    moreover have "d\<lparr>salaryAdvances := salaryAdvances d'\<rparr> = d'" using ih by (simp add: set_advance_def)
    ultimately show ?thesis using ih by blast
  qed
qed

section \<open>What the payslips deduct\<close>

definition locked_payslip :: "id \<Rightarrow> id \<Rightarrow> db \<Rightarrow> bool" where
  "locked_payslip tenantId runId d \<longleftrightarrow> (\<exists>r \<in> set (payrollRuns d). run_id r = runId \<and> run_tenantId r = tenantId \<and> run_status r = RunFinalised)"

definition deducted_of :: "id \<Rightarrow> id \<Rightarrow> db \<Rightarrow> num" where
  "deducted_of tenantId staffId d = (\<Sum>p\<leftarrow>payslips d.
     if py_tenantId p = tenantId \<and> py_staffId p = staffId \<and> locked_payslip tenantId (py_runId p) d then py_advanceRecovery p else 0)"

definition recovery_ok :: "payslip_row \<Rightarrow> bool" where
  "recovery_ok p \<longleftrightarrow> paise_exact (py_advanceRecovery p) \<and> 0 \<le> py_advanceRecovery p"

definition slips_ok :: "(nat \<Rightarrow> id) \<Rightarrow> db \<Rightarrow> bool" where
  "slips_ok src d \<longleftrightarrow> distinct (map py_id (payslips d)) \<and> py_id ` set (payslips d) \<subseteq> src ` {..<seq d} \<and> (\<forall>p \<in> set (payslips d). recovery_ok p)
     \<and> distinct (map (\<lambda>p. (py_runId p, py_staffId p)) (payslips d))"

definition runs_ok :: "(nat \<Rightarrow> id) \<Rightarrow> db \<Rightarrow> bool" where
  "runs_ok src d \<longleftrightarrow> distinct (map run_id (payrollRuns d)) \<and> run_id ` set (payrollRuns d) \<subseteq> src ` {..<seq d}"

definition payroll_ok :: "(nat \<Rightarrow> id) \<Rightarrow> db \<Rightarrow> bool" where
  "payroll_ok src d \<longleftrightarrow> advances_ok src d \<and> runs_ok src d \<and> slips_ok src d \<and> (\<forall>t s. recovered_of t s d = deducted_of t s d)"

lemma slips_ok_same: "slips_ok src d \<Longrightarrow> payslips d' = payslips d \<Longrightarrow> seq d \<le> seq d' \<Longrightarrow> slips_ok src d'"
  unfolding slips_ok_def by (elim conjE, intro conjI) (simp_all, erule (1) drawn_mono)

lemma runs_ok_same: "runs_ok src d \<Longrightarrow> map run_id (payrollRuns d') = map run_id (payrollRuns d) \<Longrightarrow> seq d \<le> seq d' \<Longrightarrow> runs_ok src d'"
  unfolding runs_ok_def list.set_map [symmetric] by (elim conjE, intro conjI) (simp_all del: set_map, erule (1) drawn_mono)

lemma payroll_ok_same:
  assumes "payroll_ok src d" and "salaryAdvances d' = salaryAdvances d" and "payslips d' = payslips d" and "payrollRuns d' = payrollRuns d"
    and "seq d \<le> seq d'"
  shows "payroll_ok src d'"
  using assms advances_ok_same [of src d d'] runs_ok_same [of src d d'] slips_ok_same [of src d d']
  by (simp add: payroll_ok_def recovered_of_def deducted_of_def locked_payslip_def)

text \<open>A draft changes nothing of what is locked: the payslips of other runs stay as they are.\<close>

definition other_payslips :: "id \<Rightarrow> db \<Rightarrow> payslip_row list" where
  "other_payslips runId d = filter (\<lambda>p. py_runId p \<noteq> runId) (payslips d)"

lemma deducted_others:
  assumes "\<not> locked_payslip t runId d"
  shows "deducted_of t s d = (\<Sum>p\<leftarrow>other_payslips runId d.
     if py_tenantId p = t \<and> py_staffId p = s \<and> locked_payslip t (py_runId p) d then py_advanceRecovery p else 0)"
  unfolding deducted_of_def other_payslips_def using assms
  by (auto simp: sum_list_map_filter' intro!: arg_cong [where f = sum_list] map_cong)

lemma deducted_same:
  assumes "other_payslips runId d' = other_payslips runId d" and "\<And>r. locked_payslip t r d' \<longleftrightarrow> locked_payslip t r d"
    and "\<not> locked_payslip t runId d"
  shows "deducted_of t s d' = deducted_of t s d"
  using assms by (simp add: deducted_others)

lemma recompute_recovery: "recovery_ok (calcColumns (recompute pay lop ot adjustments config) p)"
  using payslip_recovery_nonneg by (simp add: recovery_ok_def calcColumns_def recompute_def numeric_col_nonneg)

section \<open>Every operation keeps the books\<close>

lemma giveAdvance_ok:
  assumes run: "giveAdvance e user outletId input d = Inr (i, d')" and ok: "payroll_ok (e_cuid e) d" and src: "inj (e_cuid e)"
    and amount: "0 < adi_amount input" "paise_exact (adi_amount input)"
  shows "payroll_ok (e_cuid e) d'"
proof -
  from run obtain staff :: staff_row and d1
    where pay: "(if adi_paidFrom input = FromDrawer then pay_from_drawer e user outletId (adi_amount input) (sf_name staff) d else Inr d) = Inr d1"
      and d': "d' = audit (u_tenantId user) (Some (u_id user)) ''SALARY_ADVANCE'' ''salary_advance'' (e_cuid e (seq d1))
        (salaryAdvances_update (\<lambda>as. as @ [\<lparr> sa_id = e_cuid e (seq d1), sa_tenantId = u_tenantId user, sa_outletId = outletId, sa_staffId = sf_id staff,
          sa_amount = numeric_col 2 (adi_amount input), sa_monthlyRecovery = numeric_col 2 (adi_monthlyRecovery input), sa_recovered = 0,
          sa_givenOn = adi_givenOn input, sa_paidFrom = adi_paidFrom input, sa_status = AdvanceOpen, sa_note = adi_note input,
          sa_createdById = Some (u_id user) \<rparr>]) (d1\<lparr>seq := seq d1 + 1\<rparr>))"
    unfolding giveAdvance_def guard_simps fresh_def prod.case sum.inject prod.inject
    by (elim exE conjE) (rule that, assumption, simp)
  have "payroll_ok (e_cuid e) d1"
    by (rule payroll_ok_same [OF ok]) (use pay in \<open>auto simp: pay_from_drawer_def guard_simps fresh_def split: if_splits\<close>)
  then have ok1: "advances_ok (e_cuid e) d1" "runs_ok (e_cuid e) d1" "slips_ok (e_cuid e) d1" "\<And>t s. recovered_of t s d1 = deducted_of t s d1"
    by (simp_all add: payroll_ok_def)
  have new: "e_cuid e (seq d1) \<notin> sa_id ` set (salaryAdvances d1)"
    using ok1(1) by (intro unused_id [OF src]) (simp add: advances_ok_def)
  have drawn: "sa_id ` set (salaryAdvances d1) \<subseteq> e_cuid e ` {..<seq d1 + 1}" "e_cuid e (seq d1) \<in> e_cuid e ` {..<seq d1 + 1}"
    using ok1(1) by (simp_all only: advances_ok_def drawn_next)
  have "advances_ok (e_cuid e) d'"
    using ok1(1) new drawn amount by (simp add: advances_ok_def d' audit_def advance_ok_def numeric_col_exact)
  moreover have "runs_ok (e_cuid e) d'" by (rule runs_ok_same [OF ok1(2)]) (simp_all add: d' audit_def)
  moreover have "slips_ok (e_cuid e) d'" by (rule slips_ok_same [OF ok1(3)]) (simp_all add: d' audit_def)
  moreover have "recovered_of t s d' = deducted_of t s d'" for t s
    using ok1(4) [of t s] by (simp add: d' audit_def recovered_of_def deducted_of_def locked_payslip_def)
  ultimately show ?thesis by (simp add: payroll_ok_def)
qed

text \<open>A draft of a run that is not locked.\<close>

definition drafted :: "(nat \<Rightarrow> id) \<Rightarrow> id \<Rightarrow> db \<Rightarrow> db \<Rightarrow> bool" where
  "drafted src runId d d' \<longleftrightarrow> slips_ok src d' \<and> other_payslips runId d' = other_payslips runId d \<and> salaryAdvances d' = salaryAdvances d \<and>
     payrollRuns d' = payrollRuns d \<and> seq d \<le> seq d'"

lemma drafted_keeps:
  assumes ok: "payroll_ok src d" and dr: "drafted src runId d d'" and unlocked: "\<And>t. \<not> locked_payslip t runId d"
  shows "payroll_ok src d'"
proof -
  have "deducted_of t s d' = deducted_of t s d" for t s by (rule deducted_same [where runId = runId]) (use dr unlocked in \<open>simp_all add: drafted_def locked_payslip_def\<close>)
  moreover have "recovered_of t s d' = recovered_of t s d" for t s using dr by (simp add: drafted_def recovered_of_def)
  moreover have "advances_ok src d'" by (rule advances_ok_same [of src d]) (use ok dr in \<open>simp_all add: payroll_ok_def drafted_def\<close>)
  moreover have "runs_ok src d'" by (rule runs_ok_same [of src d]) (use ok dr in \<open>simp_all add: payroll_ok_def drafted_def\<close>)
  ultimately show ?thesis using ok dr by (simp add: payroll_ok_def drafted_def)
qed

lemma others_update:
  assumes "\<And>p. py_runId (f p) = py_runId p" and "\<And>p. p \<in> set ps \<Longrightarrow> P p \<Longrightarrow> py_runId p = runId"
  shows "filter (\<lambda>p. py_runId p \<noteq> runId) (update_where P f ps) = filter (\<lambda>p. py_runId p \<noteq> runId) ps"
  using assms by (induction ps) auto

lemma update_slips_ok:
  assumes "slips_ok src d" and "\<And>p. py_id (f p) = py_id p" and "\<And>p. recovery_ok (f p)"
    and "\<And>p. py_runId (f p) = py_runId p" and "\<And>p. py_staffId (f p) = py_staffId p"
  shows "slips_ok src (payslips_update (update_where P f) d)"
proof -
  have keys: "map (\<lambda>p. (py_runId p, py_staffId p)) (update_where P f (payslips d)) = map (\<lambda>p. (py_runId p, py_staffId p)) (payslips d)"
    using assms(4,5) by (intro map_update_where) simp
  have ids: "map py_id (update_where P f (payslips d)) = map py_id (payslips d)" using assms(2) by (intro map_update_where) simp
  then have "py_id ` set (update_where P f (payslips d)) = py_id ` set (payslips d)" by (metis list.set_map)
  with ids keys assms(1,3) show ?thesis by (auto simp: slips_ok_def set_update_where)
qed

lemma update_drafted:
  assumes "slips_ok src d" and "\<And>p. py_id (f p) = py_id p" and "\<And>p. py_runId (f p) = py_runId p" and "\<And>p. recovery_ok (f p)"
    and "\<And>p. p \<in> set (payslips d) \<Longrightarrow> P p \<Longrightarrow> py_runId p = runId" and "\<And>p. py_staffId (f p) = py_staffId p"
  shows "drafted src runId d (payslips_update (update_where P f) d)"
  using assms(3,5) update_slips_ok [OF assms(1,2,4,3,6)] by (simp add: drafted_def other_payslips_def others_update)

lemma draft_columns_keys:
  "py_id (draft_columns s pay att adj config p) = py_id p" "py_runId (draft_columns s pay att adj config p) = py_runId p"
  "recovery_ok (draft_columns s pay att adj config p)" "py_staffId (draft_columns s pay att adj config p) = py_staffId p"
  by (simp_all add: draft_columns_def recompute_recovery) (simp_all add: calcColumns_def)

lemma draft_one_drafted:
  assumes ok: "slips_ok (e_cuid e) d" and src: "inj (e_cuid e)"
  shows "drafted (e_cuid e) runId d (draft_one e user runId config from to before d (s, days))"
proof -
  define att where "att = summariseMonth (assume_worked (istDateOf (e_now e)) days) (rulesFromConfig config)"
  define pay where "pay = pay_snapshot s (daysInMonth (month_of from)) att (advance_due (u_tenantId user) (sf_id s) to before)"
  define adj where "adj = (case List.find (\<lambda>p. py_tenantId p = u_tenantId user \<and> py_runId p = runId \<and> py_staffId p = sf_id s) (payslips before) of
      Some p \<Rightarrow> py_adjustments p | None \<Rightarrow> [])"
  define p0 where "p0 = new_payslip (e_cuid e (seq d)) (u_tenantId user) runId s pay att (recompute pay 0 0 [] config)"
  define p where "p = draft_columns s pay att adj config p0"
  have step: "draft_one e user runId config from to before d (s, days) =
      (if \<exists>p \<in> set (payslips d). py_runId p = runId \<and> py_staffId p = sf_id s
       then payslips_update (update_where (\<lambda>p. py_runId p = runId \<and> py_staffId p = sf_id s) (draft_columns s pay att adj config)) d
       else payslips_update (\<lambda>ps. ps @ [p]) (d\<lparr>seq := seq d + 1\<rparr>))"
    unfolding draft_one_def Let_def prod.case fresh_def att_def [symmetric] pay_def [symmetric] adj_def [symmetric] p_def p0_def by (rule refl)
  have p: "py_id p = e_cuid e (seq d)" "py_runId p = runId" "recovery_ok p" "py_staffId p = sf_id s"
    by (simp_all add: p_def draft_columns_keys p0_def new_payslip_def)
  have new: "e_cuid e (seq d) \<notin> py_id ` set (payslips d)" using ok by (intro unused_id [OF src]) (simp add: slips_ok_def)
  have drawn: "py_id ` set (payslips d) \<subseteq> e_cuid e ` {..<seq d + 1}" "e_cuid e (seq d) \<in> e_cuid e ` {..<seq d + 1}"
    using ok by (simp_all only: slips_ok_def drawn_next)
  have "drafted (e_cuid e) runId d (payslips_update (\<lambda>ps. ps @ [p]) (d\<lparr>seq := seq d + 1\<rparr>))"
    if "\<not> (\<exists>q \<in> set (payslips d). py_runId q = runId \<and> py_staffId q = sf_id s)"
    using ok p new drawn that by (auto simp: drafted_def slips_ok_def other_payslips_def simp del: lessThan_Suc)
  moreover have "drafted (e_cuid e) runId d
      (payslips_update (update_where (\<lambda>p. py_runId p = runId \<and> py_staffId p = sf_id s) (draft_columns s pay att adj config)) d)"
    by (rule update_drafted [OF ok]) (simp_all add: draft_columns_keys)
  ultimately show ?thesis unfolding step by simp
qed

lemma drafted_trans: "drafted src r d1 d2 \<Longrightarrow> drafted src r d2 d3 \<Longrightarrow> drafted src r d1 d3"
  by (simp add: drafted_def)

lemma draft_loop:
  assumes "slips_ok (e_cuid e) d" and src: "inj (e_cuid e)"
  shows "drafted (e_cuid e) runId d (foldl (draft_one e user runId config from to before) d xs)"
  using assms(1)
proof (induction xs arbitrary: d)
  case Nil
  then show ?case by (simp add: drafted_def)
next
  case (Cons x xs)
  let ?d = "draft_one e user runId config from to before d x"
  have 1: "drafted (e_cuid e) runId d ?d" using draft_one_drafted [OF Cons.prems src] by (cases x) simp
  then have "slips_ok (e_cuid e) ?d" by (simp add: drafted_def)
  from drafted_trans [OF 1 Cons.IH [OF this]] show ?case by simp
qed

lemma run_unique: "runs_ok src d \<Longrightarrow> r \<in> set (payrollRuns d) \<Longrightarrow> q \<in> set (payrollRuns d) \<Longrightarrow> run_id q = run_id r \<Longrightarrow> q = r"
  using row_by_distinct [of run_id "payrollRuns d" r] row_by_distinct [of run_id "payrollRuns d" q] by (simp add: runs_ok_def)

lemma draft_unlocked:
  assumes "runs_ok src d" and "r \<in> set (payrollRuns d)" and "run_status r = RunDraft"
  shows "\<not> locked_payslip t (run_id r) d"
proof
  assume "locked_payslip t (run_id r) d"
  then obtain q where "q \<in> set (payrollRuns d)" "run_id q = run_id r" "run_status q = RunFinalised" by (auto simp: locked_payslip_def)
  then show False using run_unique [OF assms(1,2), of q] assms(3) by simp
qed

lemma books_same:
  assumes ok: "payroll_ok src d" and same: "salaryAdvances d' = salaryAdvances d" "payslips d' = payslips d" "seq d \<le> seq d'"
    and runs: "runs_ok src d'" and locked: "\<And>t r. locked_payslip t r d' \<longleftrightarrow> locked_payslip t r d"
  shows "payroll_ok src d'"
proof -
  have "recovered_of t s d' = deducted_of t s d'" for t s
    using ok by (simp add: payroll_ok_def recovered_of_def deducted_of_def same locked)
  moreover have "advances_ok src d'" by (rule advances_ok_same [OF _ same(1,3)]) (use ok in \<open>simp add: payroll_ok_def\<close>)
  moreover have "slips_ok src d'" by (rule slips_ok_same [OF _ same(2,3)]) (use ok in \<open>simp add: payroll_ok_def\<close>)
  ultimately show ?thesis using runs by (simp add: payroll_ok_def)
qed

lemma ensure_run_ok:
  assumes ok: "payroll_ok (e_cuid e) d" and src: "inj (e_cuid e)"
  shows "payroll_ok (e_cuid e) (ensure_run e user outletId month config d)"
proof (cases "\<exists>r \<in> set (payrollRuns d). run_outletId r = outletId \<and> run_month r = month")
  case True
  then show ?thesis using ok by (simp add: ensure_run_def)
next
  case False
  let ?d = "ensure_run e user outletId month config d"
  have runs: "runs_ok (e_cuid e) d" using ok by (simp add: payroll_ok_def)
  then have new: "e_cuid e (seq d) \<notin> run_id ` set (payrollRuns d)" by (intro unused_id [OF src]) (simp add: runs_ok_def)
  have drawn: "run_id ` set (payrollRuns d) \<subseteq> e_cuid e ` {..<seq d + 1}" "e_cuid e (seq d) \<in> e_cuid e ` {..<seq d + 1}"
    using runs by (simp_all only: runs_ok_def drawn_next)
  show ?thesis
  proof (rule books_same [OF ok])
    show "runs_ok (e_cuid e) ?d" using False runs new drawn by (simp add: ensure_run_def fresh_def runs_ok_def)
  qed (use False in \<open>simp_all add: ensure_run_def fresh_def locked_payslip_def\<close>)
qed

lemma set_run_ok:
  assumes ok: "payroll_ok src d" and f: "\<And>r. run_id (f r) = run_id r" "\<And>r. run_tenantId (f r) = run_tenantId r" "\<And>r. run_status (f r) = run_status r"
  shows "payroll_ok src (set_run i f d)"
proof (rule books_same [OF ok])
  have ids: "map run_id (payrollRuns (set_run i f d)) = map run_id (payrollRuns d)" by (simp add: set_run_def map_key_set_row f(1))
  show "runs_ok src (set_run i f d)" by (rule runs_ok_same [OF _ ids]) (use ok in \<open>simp_all add: payroll_ok_def set_run_def\<close>)
  let ?k = "\<lambda>r. (run_id r, run_tenantId r, run_status r)"
  have key: "locked_payslip t r c \<longleftrightarrow> (r, t, RunFinalised) \<in> set (map ?k (payrollRuns c))" for t r c
    by (auto simp: locked_payslip_def image_iff)
  have "map ?k (payrollRuns (set_run i f d)) = map ?k (payrollRuns d)" by (simp add: set_run_def set_row_def map_update_where f)
  then show "locked_payslip t r (set_run i f d) = locked_payslip t r d" for t r unfolding key by (rule arg_cong)
qed (simp_all add: set_run_def)

lemma filter_drafted:
  assumes ok: "slips_ok src d" and keep: "\<And>p. py_runId p \<noteq> runId \<Longrightarrow> Q p"
  shows "drafted src runId d (payslips_update (filter Q) d)"
proof -
  have "filter (\<lambda>p. py_runId p \<noteq> runId) (filter Q ps) = filter (\<lambda>p. py_runId p \<noteq> runId) ps" for ps
    using keep by (induction ps) auto
  then show ?thesis using ok by (auto simp: drafted_def other_payslips_def slips_ok_def distinct_map_filter)
qed

text \<open>What a draft deducts is at most what was due when it was computed, and that was outstanding.\<close>

lemma draft_columns_due:
  "toPaise (py_advanceRecovery (draft_columns s (pay_snapshot s' n att due) att' adj config p)) \<le> max 0 due"
proof -
  let ?x = "pk_advanceRecovery (recompute (pay_snapshot s' n att due) (ms_lopDays att') (ms_overtimeMinutes att') adj config)"
  have "?x \<le> max 0 (of_int due / 100)"
    unfolding recompute_def payslip_advance by (rule max.mono [OF order_refl order_trans [OF min.cobounded1]]) (simp add: pay_snapshot_def pay_paise_def fromPaise_def)
  also have "\<dots> = of_int (max 0 due) / 100" by (simp add: max_def)
  finally have "numeric_col 2 ?x \<le> of_int (max 0 due) / 100" using numeric_col_mono [of ?x "of_int (max 0 due) / 100" 2] by (simp add: numeric_col_exact)
  then have "js_round (numeric_col 2 ?x * 100) \<le> js_round (of_int (max 0 due) / 100 * 100)" by (intro js_round_mono) simp
  then show ?thesis by (simp add: draft_columns_def calcColumns_def toPaise_def del: of_int_max)
qed

lemma draft_one_member:
  assumes "q \<in> set (payslips (draft_one e user runId config from to before d (s, days)))"
  shows "py_runId q = runId \<and> py_staffId q = sf_id s \<and> toPaise (py_advanceRecovery q) \<le> max 0 (advance_due (u_tenantId user) (sf_id s) to before)
    \<or> q \<in> set (payslips d) \<and> \<not> (py_runId q = runId \<and> py_staffId q = sf_id s)"
  using assms unfolding draft_one_def Let_def prod.case fresh_def
  by (auto simp: set_update_where draft_columns_keys draft_columns_due new_payslip_def split: if_splits)

lemma draft_loop_member:
  assumes "q \<in> set (payslips (foldl (draft_one e user runId config from to before) d xs))" and "py_runId q = runId"
    and "py_staffId q \<in> sf_id ` fst ` set xs"
  shows "toPaise (py_advanceRecovery q) \<le> max 0 (advance_due (u_tenantId user) (py_staffId q) to before)"
  using assms
proof (induction xs rule: rev_induct)
  case (snoc x xs)
  obtain s days where x: "x = (s, days)" by (cases x)
  let ?d = "foldl (draft_one e user runId config from to before) d xs"
  have "q \<in> set (payslips (draft_one e user runId config from to before ?d (s, days)))" using snoc.prems(1) by (simp add: x)
  from draft_one_member [OF this] show ?case using snoc x by auto
qed simp

lemma draft_txE:
  fixes e user outletId month d
  defines "config \<equiv> loadPayrollConfig (u_tenantId user) d"
  defines "d1 \<equiv> ensure_run e user outletId month config d"
  assumes run: "draft_tx e user outletId month d = Inr (i, d')"
  obtains r active days where "r \<in> set (payrollRuns d1)" "run_outletId r = outletId" "run_tenantId r = u_tenantId user" "run_status r = RunDraft" "run_id r = i"
    "fst ` set (zip active days) = set active"
    "d' = payslips_update (filter (\<lambda>p. \<not> (py_tenantId p = u_tenantId user \<and> py_runId p = i \<and> py_staffId p \<notin> sf_id ` set active)))
      (foldl (draft_one e user i config (fst month, snd month, 1) (fst month, snd month, daysInMonth month) (set_run i (\<lambda>r. r\<lparr>run_config := config\<rparr>) d1))
         (set_run i (\<lambda>r. r\<lparr>run_config := config\<rparr>) d1) (zip active days))"
proof -
  from run obtain r :: payroll_run_row where find: "List.find (\<lambda>r. run_outletId r = outletId \<and> run_month r = month \<and> run_tenantId r = u_tenantId user) (payrollRuns d1) = Some r"
    and rest: "run_status r = RunDraft" "run_id r = i"
    unfolding draft_tx_def Let_def config_def [symmetric] d1_def [symmetric] guard_simps sum.inject prod.inject
    by (elim exE conjE) (rule that, assumption, assumption, assumption)
  note r = find_SomeD [OF find]
  let ?d2 = "set_run i (\<lambda>r. r\<lparr>run_config := config\<rparr>) d1"
  let ?active = "eligible (u_tenantId user) outletId (fst month, snd month, 1) (fst month, snd month, daysInMonth month) ?d2"
  let ?days = "map snd (loadAttendanceDays (u_tenantId user) ?active (fst month, snd month, 1) (fst month, snd month, daysInMonth month) ?d2)"
  have "map fst (zip ?active ?days) = ?active" by (simp add: loadAttendanceDays_def)
  then have fst: "fst ` set (zip ?active ?days) = set ?active" by (metis list.set_map)
  show ?thesis
    by (rule that [of r ?active ?days])
      (use r rest fst run find in \<open>simp_all add: draft_tx_def Let_def d1_def [symmetric] config_def [symmetric]\<close>)
qed

lemma draft_tx_ok:
  assumes run: "draft_tx e user outletId month d = Inr (i, d')" and ok: "payroll_ok (e_cuid e) d" and src: "inj (e_cuid e)"
  shows "payroll_ok (e_cuid e) d' \<and> (\<exists>r \<in> set (payrollRuns d'). run_id r = i \<and> run_outletId r = outletId \<and> run_tenantId r = u_tenantId user \<and> run_status r = RunDraft) \<and>
    (\<forall>p \<in> set (payslips d'). py_runId p = i \<and> py_tenantId p = u_tenantId user \<longrightarrow>
      (\<exists>to. toPaise (py_advanceRecovery p) \<le> max 0 (advance_due (u_tenantId user) (py_staffId p) to d')))"
  using run
proof (cases rule: draft_txE)
  case (1 r active days)
  define config where "config = loadPayrollConfig (u_tenantId user) d"
  define d1 where "d1 = ensure_run e user outletId month config d"
  define d2 where "d2 = set_run i (\<lambda>r. r\<lparr>run_config := config\<rparr>) d1"
  define to where "to = (fst month, snd month, daysInMonth month)"
  define d3 where "d3 = foldl (draft_one e user i config (fst month, snd month, 1) to d2) d2 (zip active days)"
  note r = 1(1-5) [folded config_def, folded d1_def]
  have d': "d' = payslips_update (filter (\<lambda>p. \<not> (py_tenantId p = u_tenantId user \<and> py_runId p = i \<and> py_staffId p \<notin> sf_id ` set active))) d3"
    unfolding d3_def to_def d2_def d1_def config_def by (rule 1(7))
  have ok1: "payroll_ok (e_cuid e) d1" unfolding d1_def by (rule ensure_run_ok [OF ok src])
  have ok2: "payroll_ok (e_cuid e) d2" unfolding d2_def by (rule set_run_ok [OF ok1]) simp_all
  have runs2: "payrollRuns d2 = set_row run_id i (\<lambda>r. r\<lparr>run_config := config\<rparr>) (payrollRuns d1)" by (simp add: d2_def set_run_def)
  have r2: "r\<lparr>run_config := config\<rparr> \<in> set (payrollRuns d2)"
    unfolding runs2 set_row_def set_update_where by (rule image_eqI [OF _ r(1)]) (simp add: r)
  have unlocked: "\<not> locked_payslip t i d2" for t
    using draft_unlocked [where src = "e_cuid e", OF _ r2, of t] ok2 r by (simp add: payroll_ok_def)
  have "drafted (e_cuid e) i d2 d3" unfolding d3_def by (rule draft_loop [OF _ src]) (use ok2 in \<open>simp add: payroll_ok_def\<close>)
  moreover from this have "drafted (e_cuid e) i d3 d'" unfolding d' by (intro filter_drafted) (simp_all add: drafted_def)
  ultimately have dr: "drafted (e_cuid e) i d2 d'" by (rule drafted_trans)
  then have "payroll_ok (e_cuid e) d'" using unlocked by (rule drafted_keeps [OF ok2])
  moreover have "\<exists>r \<in> set (payrollRuns d'). run_id r = i \<and> run_outletId r = outletId \<and> run_tenantId r = u_tenantId user \<and> run_status r = RunDraft"
    by (rule bexI [of _ "r\<lparr>run_config := config\<rparr>"]) (use r r2 dr in \<open>simp_all add: drafted_def\<close>)
  moreover have "toPaise (py_advanceRecovery p) \<le> max 0 (advance_due (u_tenantId user) (py_staffId p) to d')"
    if p: "p \<in> set (payslips d')" "py_runId p = i" "py_tenantId p = u_tenantId user" for p
  proof -
    have "p \<in> set (payslips d3)" "py_staffId p \<in> sf_id ` fst ` set (zip active days)" using p 1(6) by (auto simp: d')
    then have "toPaise (py_advanceRecovery p) \<le> max 0 (advance_due (u_tenantId user) (py_staffId p) to d2)"
      unfolding d3_def by (intro draft_loop_member [OF _ p(2)])
    then show ?thesis using dr by (simp add: advance_due_def drafted_def)
  qed
  ultimately show ?thesis by blast
qed

lemma lock_runD: "lock_run user outletId runId m d = Inr r \<Longrightarrow>
    r \<in> set (payrollRuns d) \<and> run_id r = runId \<and> run_tenantId r = u_tenantId user \<and> run_status r = RunDraft"
  by (auto simp: lock_run_def guard_simps dest: find_SomeD)

lemma updatePayslip_ok:
  assumes run: "updatePayslip user outletId runId payslipId input d = Inr (dto, d')" and ok: "payroll_ok src d"
  shows "payroll_ok src d'"
proof -
  from run obtain r :: payroll_run_row and p :: payslip_row and lop ot adj
    where r: "lock_run user outletId runId ''Payroll is finalised and locked'' d = Inr r"
      and p: "List.find (\<lambda>p. py_id p = payslipId \<and> py_runId p = runId \<and> py_tenantId p = u_tenantId user) (payslips d) = Some p"
      and d': "d' = payslips_update (set_row py_id (py_id p) (\<lambda>q. calcColumns (recompute (py_pay p) lop ot adj (run_config r))
        (q\<lparr>py_lopDays := numeric_col 1 lop, py_overtimeMinutes := ot, py_adjustments := adj, py_note := or_else (pe_note input) (py_note q)\<rparr>))) d"
    unfolding updatePayslip_def Let_def guard_simps sum.inject prod.inject
    by (elim exE conjE) (rule that, assumption, assumption, erule sym)
  note p = find_SomeD [OF p]
  have slips: "slips_ok src d" "runs_ok src d" using ok by (simp_all add: payroll_ok_def)
  have "q = p" if "q \<in> set (payslips d)" "py_id q = py_id p" for q
    using slips(1) p that row_by_distinct [of py_id "payslips d"] by (metis option.inject slips_ok_def)
  then have "drafted src runId d d'"
    unfolding d' set_row_def using p by (intro update_drafted [OF slips(1)]) (auto simp: recompute_recovery, auto simp: calcColumns_def)
  moreover have "\<not> locked_payslip t runId d" for t using draft_unlocked [OF slips(2), of r t] lock_runD [OF r] by simp
  ultimately show ?thesis by (rule drafted_keeps [OF ok])
qed

lemma deleteDraft_ok:
  assumes run: "deleteDraft user outletId runId d = Inr (i, d')" and ok: "payroll_ok src d"
  shows "payroll_ok src d'"
proof -
  from run obtain r :: payroll_run_row where r: "lock_run user outletId runId ''A finalised payroll cannot be deleted'' d = Inr r"
    and d': "d' = payslips_update (filter (\<lambda>p. py_runId p \<noteq> runId)) (payrollRuns_update (filter (\<lambda>r. run_id r \<noteq> runId)) d)"
    unfolding deleteDraft_def guard_simps sum.inject prod.inject by (elim exE conjE) (rule that, assumption, erule sym)
  have slips: "slips_ok src d" "runs_ok src d" using ok by (simp_all add: payroll_ok_def)
  have unlocked: "\<not> locked_payslip t runId d" for t using draft_unlocked [OF slips(2), of r t] lock_runD [OF r] by simp
  let ?d = "payslips_update (filter (\<lambda>p. py_runId p \<noteq> runId)) d"
  have "drafted src runId d ?d" by (rule filter_drafted [OF slips(1)])
  then have ok1: "payroll_ok src ?d" using unlocked by (rule drafted_keeps [OF ok])
  show ?thesis
  proof (rule books_same [OF ok1])
    show "runs_ok src d'" using slips(2) by (auto simp: d' runs_ok_def distinct_map_filter)
    show "locked_payslip t q d' = locked_payslip t q ?d" for t q using unlocked [of t] by (auto simp: d' locked_payslip_def)
  qed (simp_all add: d')
qed

text \<open>Finalising books exactly what the payslips deduct.\<close>

lemma recover_payslip_ok:
  assumes run: "recover_payslip t p d = Inr d'" and ok: "advances_ok src d" and p: "recovery_ok p"
  shows "advances_ok src d' \<and>
    (\<forall>t' s. recovered_of t' s d' = recovered_of t' s d + (if t = t' \<and> py_staffId p = s then py_advanceRecovery p else 0)) \<and>
    d\<lparr>salaryAdvances := salaryAdvances d'\<rparr> = d'"
proof -
  have ex: "of_int (toPaise (py_advanceRecovery p)) = py_advanceRecovery p * 100" "0 \<le> py_advanceRecovery p"
    using p by (simp_all add: recovery_ok_def paise_exact_toPaise)
  show ?thesis
  proof (cases "toPaise (py_advanceRecovery p) \<le> 0")
    case True
    then have "(of_int (toPaise (py_advanceRecovery p)) :: num) \<le> 0" by simp
    then have "py_advanceRecovery p = 0" using ex by simp
    then show ?thesis using run ok True by (simp add: recover_payslip_def Let_def)
  next
    case False
    obtain left d1 where rec: "recover (toPaise (py_advanceRecovery p)) (open_advances t (py_staffId p) d) d = (left, d1)"
      by (cases "recover (toPaise (py_advanceRecovery p)) (open_advances t (py_staffId p) d) d")
    then have d': "d' = d1" "left \<le> 0" using run False by (simp_all add: recover_payslip_def Let_def guard_simps)
    let ?as = "open_advances t (py_staffId p) d"
    have as: "set ?as \<subseteq> set (salaryAdvances d)" "\<And>a. a \<in> set ?as \<Longrightarrow> sa_tenantId a = t \<and> sa_staffId a = py_staffId p"
      by (auto simp: open_advances_def)
    have "inj_on sa_id (set ?as)" using ok as(1) by (auto simp: advances_ok_def distinct_map intro: inj_on_subset)
    then have dist: "distinct (map sa_id ?as)" using ok by (simp add: distinct_map open_advances_def advances_ok_def)
    from recover_ok [OF rec ok as(1) dist as(2)] False have
      "advances_ok src d1" "0 \<le> left" "d\<lparr>salaryAdvances := salaryAdvances d1\<rparr> = d1"
      "\<And>t' s. recovered_of t' s d1 = recovered_of t' s d + (if t = t' \<and> py_staffId p = s then of_int (toPaise (py_advanceRecovery p) - left) / 100 else 0)"
      by auto
    then show ?thesis using d' ex by simp
  qed
qed

lemma recover_loop:
  assumes "efold (recover_payslip t) ps d = Inr d'" and "advances_ok src d" and "\<And>p. p \<in> set ps \<Longrightarrow> recovery_ok p"
  shows "advances_ok src d' \<and>
    (\<forall>t' s. recovered_of t' s d' = recovered_of t' s d + (\<Sum>p\<leftarrow>ps. if t = t' \<and> py_staffId p = s then py_advanceRecovery p else 0)) \<and>
    d\<lparr>salaryAdvances := salaryAdvances d'\<rparr> = d'"
  using assms
proof (induction ps arbitrary: d)
  case Nil
  then show ?case by simp
next
  case (Cons p ps)
  from Cons.prems(1) obtain d1 where p: "recover_payslip t p d = Inr d1" and ps: "efold (recover_payslip t) ps d1 = Inr d'"
    by (auto simp: guard_simps)
  note 1 = recover_payslip_ok [OF p Cons.prems(2) Cons.prems(3)]
  then have 2: "advances_ok src d' \<and>
    (\<forall>t' s. recovered_of t' s d' = recovered_of t' s d1 + (\<Sum>p\<leftarrow>ps. if t = t' \<and> py_staffId p = s then py_advanceRecovery p else 0)) \<and>
    d1\<lparr>salaryAdvances := salaryAdvances d'\<rparr> = d'"
    using Cons.IH [OF ps] Cons.prems(3) by simp
  have "d\<lparr>salaryAdvances := salaryAdvances d'\<rparr> = (d\<lparr>salaryAdvances := salaryAdvances d1\<rparr>)\<lparr>salaryAdvances := salaryAdvances d'\<rparr>" by simp
  then have "d\<lparr>salaryAdvances := salaryAdvances d'\<rparr> = d'" using 1 2 by simp
  then show ?case using 1 2 by simp
qed

lemma finalise_tx_ok:
  assumes run: "finalise_tx e user outletId runId d = Inr d'" and ok: "payroll_ok src d"
  shows "payroll_ok src d'"
proof -
  let ?ps = "filter (\<lambda>p. py_runId p = runId \<and> py_tenantId p = u_tenantId user) (payslips d)"
  let ?f = "\<lambda>r. r\<lparr>run_status := RunFinalised, run_finalisedAt := Some (e_now e), run_finalisedById := Some (u_id user)\<rparr>"
  from run obtain r :: payroll_run_row and d1 where r: "lock_run user outletId runId ''Payroll is already finalised'' d = Inr r"
    and loop: "efold (recover_payslip (u_tenantId user)) ?ps d = Inr d1"
    and d': "d' = audit (u_tenantId user) (Some (u_id user)) ''PAYROLL_FINALISED'' ''payroll_run'' runId (set_run runId ?f d1)"
    unfolding finalise_tx_def Let_def guard_simps sum.inject by (elim exE conjE) (rule that, assumption, assumption, erule sym)
  note r = lock_runD [OF r]
  have parts: "advances_ok src d" "runs_ok src d" "slips_ok src d" "\<And>t s. recovered_of t s d = deducted_of t s d"
    using ok by (simp_all add: payroll_ok_def)
  have ps: "recovery_ok p" if "p \<in> set ?ps" for p using that parts(3) by (simp add: slips_ok_def)
  note loop' = recover_loop [OF loop parts(1) ps]
  then have eq: "d\<lparr>salaryAdvances := salaryAdvances d1\<rparr> = d1" by simp
  have same: "payslips d1 = payslips d" "payrollRuns d1 = payrollRuns d" "seq d1 = seq d"
    using arg_cong [OF eq, of payslips] arg_cong [OF eq, of payrollRuns] arg_cong [OF eq, of seq] by simp_all
  have unlocked: "\<not> locked_payslip t runId d" for t using draft_unlocked [OF parts(2), of r t] r by simp
  have rows: "payrollRuns d' = set_row run_id runId ?f (payrollRuns d)" by (simp add: d' audit_def set_run_def same)
  have locked: "locked_payslip t q d' \<longleftrightarrow> locked_payslip t q d \<or> (t = u_tenantId user \<and> q = runId)" for t q
  proof
    assume "locked_payslip t q d'"
    then obtain y where y: "y \<in> set (set_row run_id runId ?f (payrollRuns d))" "run_id y = q" "run_tenantId y = t" "run_status y = RunFinalised"
      unfolding locked_payslip_def rows by blast
    from y(1) show "locked_payslip t q d \<or> (t = u_tenantId user \<and> q = runId)"
    proof (cases rule: set_row_memberE)
      case (1 x)
      then have "x = r" using run_unique [OF parts(2), of r x] r by simp
      then show ?thesis using 1 y r by simp
    qed (use y in \<open>auto simp: locked_payslip_def\<close>)
  next
    assume "locked_payslip t q d \<or> (t = u_tenantId user \<and> q = runId)"
    then obtain x where x: "x \<in> set (payrollRuns d)" "run_id x = q" "run_tenantId x = t" "run_status x = RunFinalised \<or> x = r"
      using r by (auto simp: locked_payslip_def)
    let ?y = "if run_id x = runId then ?f x else x"
    have "?y \<in> set (payrollRuns d')" using x(1) unfolding rows set_row_def set_update_where by (rule imageI)
    moreover have "run_id ?y = q" "run_tenantId ?y = t" "run_status ?y = RunFinalised" using x r by auto
    ultimately show "locked_payslip t q d'" unfolding locked_payslip_def by blast
  qed
  have "deducted_of t s d' = deducted_of t s d + (\<Sum>p\<leftarrow>?ps. if u_tenantId user = t \<and> py_staffId p = s then py_advanceRecovery p else 0)" for t s
  proof -
    have slip: "(if py_tenantId p = t \<and> py_staffId p = s \<and> locked_payslip t (py_runId p) d' then x else 0) =
        (if py_tenantId p = t \<and> py_staffId p = s \<and> locked_payslip t (py_runId p) d then x else 0) +
        (if py_runId p = runId \<and> py_tenantId p = u_tenantId user then if u_tenantId user = t \<and> py_staffId p = s then x else 0 else 0)" for p and x :: num
    proof (cases "py_runId p = runId")
      case True
      then have l: "locked_payslip t (py_runId p) d' = (u_tenantId user = t)" "locked_payslip t (py_runId p) d = False" using locked unlocked by auto
      show ?thesis unfolding l using True by (cases "u_tenantId user = t") (simp_all add: eq_commute [of t])
    next
      case False
      then show ?thesis using locked [of t "py_runId p"] by simp
    qed
    have "deducted_of t s d' = (\<Sum>p\<leftarrow>payslips d. if py_tenantId p = t \<and> py_staffId p = s \<and> locked_payslip t (py_runId p) d' then py_advanceRecovery p else 0)"
      by (simp add: deducted_of_def d' audit_def set_run_def same)
    also have "\<dots> = (\<Sum>p\<leftarrow>payslips d. (if py_tenantId p = t \<and> py_staffId p = s \<and> locked_payslip t (py_runId p) d then py_advanceRecovery p else 0)
        + (if py_runId p = runId \<and> py_tenantId p = u_tenantId user then if u_tenantId user = t \<and> py_staffId p = s then py_advanceRecovery p else 0 else 0))"
      by (intro arg_cong [where f = sum_list] map_cong refl slip)
    finally show ?thesis by (simp add: sum_list_map_add deducted_of_def sum_list_map_filter')
  qed
  moreover have "recovered_of t s d' = recovered_of t s d1" for t s by (simp add: recovered_of_def d' audit_def set_run_def)
  ultimately have "recovered_of t s d' = deducted_of t s d'" for t s using loop' parts(4) by simp
  moreover have "advances_ok src d'" by (rule advances_ok_same [of src d1]) (use loop' in \<open>simp_all add: d' audit_def set_run_def\<close>)
  moreover have "slips_ok src d'" by (rule slips_ok_same [OF parts(3)]) (simp_all add: d' audit_def set_run_def same)
  moreover have "runs_ok src d'"
    by (rule runs_ok_same [OF parts(2)]) (simp_all add: rows map_key_set_row, simp add: d' audit_def set_run_def same)
  ultimately show ?thesis by (simp add: payroll_ok_def)
qed

section \<open>Any history\<close>

inductive payroll_step :: "(nat \<Rightarrow> id) \<Rightarrow> db \<Rightarrow> db \<Rightarrow> bool" for src where
  given: "e_cuid e = src \<Longrightarrow> giveAdvance e user outletId input d = Inr (i, d') \<Longrightarrow> 0 < adi_amount input \<Longrightarrow> paise_exact (adi_amount input)
    \<Longrightarrow> payroll_step src d d'"
| drafted: "e_cuid e = src \<Longrightarrow> computeDraft e user outletId month d = Inr (dto, d') \<Longrightarrow> payroll_step src d d'"
| edited: "updatePayslip user outletId runId payslipId edit d = Inr (slip, d') \<Longrightarrow> payroll_step src d d'"
| finalised: "finalise e user outletId runId d = Inr (dto, d') \<Longrightarrow> payroll_step src d d'"
| deleted: "deleteDraft user outletId runId d = Inr (i, d') \<Longrightarrow> payroll_step src d d'"
| elsewhere: "salaryAdvances d' = salaryAdvances d \<Longrightarrow> payslips d' = payslips d \<Longrightarrow> payrollRuns d' = payrollRuns d \<Longrightarrow> seq d \<le> seq d'
    \<Longrightarrow> payroll_step src d d'"

lemma payroll_step_ok: "payroll_step src d d' \<Longrightarrow> inj src \<Longrightarrow> payroll_ok src d \<Longrightarrow> payroll_ok src d'"
proof (induction rule: payroll_step.induct)
  case (given e user outletId input d i d')
  then show ?case using giveAdvance_ok [OF given(2)] by simp
next
  case (drafted e user outletId month d dto d')
  from drafted(2) obtain i where "draft_tx e user outletId month d = Inr (i, d')"
    by (auto simp: computeDraft_def guard_simps)
  with draft_tx_ok drafted show ?case by blast
next
  case (edited user outletId runId payslipId edit d slip d')
  then show ?case using updatePayslip_ok by blast
next
  case (finalised e user outletId runId d dto d')
  from finalised(1) have "finalise_tx e user outletId runId d = Inr d'" by (auto simp: finalise_def guard_simps)
  then show ?case using finalise_tx_ok finalised by blast
next
  case (deleted user outletId runId d i d')
  then show ?case using deleteDraft_ok by blast
next
  case (elsewhere d' d)
  then show ?case using payroll_ok_same by blast
qed

lemma payroll_reachable:
  assumes "(payroll_step src)\<^sup>*\<^sup>* d d'" and "inj src" and "salaryAdvances d = []" and "payrollRuns d = []" and "payslips d = []"
  shows "payroll_ok src d'"
proof -
  have "payroll_ok src d" using assms(3-5)
    by (simp add: payroll_ok_def advances_ok_def runs_ok_def slips_ok_def recovered_of_def deducted_of_def)
  with assms(1) show ?thesis by induction (use assms(2) payroll_step_ok in blast)+
qed

text \<open>C15. From an empty payroll, whatever advances are given and whatever runs are drafted, edited, deleted and finalised: what has been
  recovered of a staff member's advances is exactly what his payslips of finalised runs deducted, and no advance is recovered beyond its
  amount or closed before it is recovered in full.\<close>

theorem advances_recovered:
  assumes "(payroll_step src)\<^sup>*\<^sup>* d d'" and "inj src" and "salaryAdvances d = []" and "payrollRuns d = []" and "payslips d = []"
  shows "recovered_of tenantId staffId d' = deducted_of tenantId staffId d' \<and>
    (\<forall>a \<in> set (salaryAdvances d'). 0 \<le> sa_recovered a \<and> sa_recovered a \<le> sa_amount a \<and> (sa_status a = AdvanceClosed \<longrightarrow> sa_recovered a = sa_amount a))"
  using payroll_reachable [OF assms] by (simp add: payroll_ok_def advances_ok_def advance_ok_def)

section \<open>A fresh draft can be finalised\<close>

definition outstanding :: "salary_advance_row \<Rightarrow> int" where
  "outstanding a = toPaise (sa_amount a) - toPaise (sa_recovered a)"

definition outstanding_of :: "id \<Rightarrow> id \<Rightarrow> db \<Rightarrow> int" where
  "outstanding_of tenantId staffId d = (\<Sum>a\<leftarrow>open_advances tenantId staffId d. outstanding a)"

lemma outstanding_nonneg: "advance_ok a \<Longrightarrow> 0 \<le> outstanding a"
  using js_round_mono [of "sa_recovered a * 100" "sa_amount a * 100"] by (simp add: outstanding_def advance_ok_def toPaise_def)

lemma recover_left:
  assumes "recover remaining as d = (left, d')" and "\<forall>a \<in> set as. 0 \<le> outstanding a" and "0 \<le> remaining"
  shows "left = max 0 (remaining - (\<Sum>a\<leftarrow>as. outstanding a))"
  using assms
proof (induction remaining as d rule: recover.induct)
  case (2 remaining a as d)
  have rest: "0 \<le> (\<Sum>a\<leftarrow>as. outstanding a)" using "2.prems"(2) by (intro sum_list_nonneg_map) simp
  show ?case
  proof (cases "remaining \<le> 0")
    case True
    then show ?thesis using "2.prems" rest by simp
  next
    case False
    have run: "recover (remaining - min (outstanding a) remaining) as
        (set_advance (sa_id a) (book_recovery a (toPaise (sa_recovered a) + min (outstanding a) remaining)) d) = (left, d')"
      using "2.prems"(1) False unfolding recover.simps Let_def outstanding_def by simp
    from "2.IH" [OF False refl refl refl, folded outstanding_def, OF run] "2.prems"(2)
    have "left = max 0 (remaining - min (outstanding a) remaining - (\<Sum>a\<leftarrow>as. outstanding a))" by simp
    then show ?thesis using rest by (auto simp: min_def max_def)
  qed
qed simp

text \<open>Recovering from one member of staff leaves the advances of the others alone.\<close>

lemma set_advance_other:
  assumes "\<And>b. sa_tenantId (f b) = sa_tenantId b" and "\<And>b. sa_staffId (f b) = sa_staffId b"
    and "\<And>x. x \<in> set (salaryAdvances d) \<Longrightarrow> sa_id x = i \<Longrightarrow> sa_staffId x \<noteq> s'"
  shows "open_advances t s' (set_advance i f d) = open_advances t s' d"
proof -
  have "filter (\<lambda>a. sa_staffId a = s' \<and> sa_tenantId a = t \<and> sa_status a = AdvanceOpen) (set_row sa_id i f as) =
      filter (\<lambda>a. sa_staffId a = s' \<and> sa_tenantId a = t \<and> sa_status a = AdvanceOpen) as"
    if "\<And>x. x \<in> set as \<Longrightarrow> sa_id x = i \<Longrightarrow> sa_staffId x \<noteq> s'" for as
    using that by (induction as) (auto simp: set_row_def assms(1,2))
  then show ?thesis using assms(3) by (simp add: open_advances_def set_advance_def)
qed

lemma recover_other:
  assumes "recover remaining as d = (left, d')" and "s \<noteq> s'"
    and "\<forall>x \<in> set (salaryAdvances d). sa_id x \<in> sa_id ` set as \<longrightarrow> sa_staffId x = s"
  shows "open_advances t s' d' = open_advances t s' d"
  using assms
proof (induction remaining as d rule: recover.induct)
  case (2 remaining a as d)
  show ?case
  proof (cases "remaining \<le> 0")
    case True
    then show ?thesis using "2.prems"(1) by simp
  next
    case False
    define f where "f = book_recovery a (toPaise (sa_recovered a) + min (toPaise (sa_amount a) - toPaise (sa_recovered a)) remaining)"
    have f: "sa_id (f b) = sa_id b" "sa_tenantId (f b) = sa_tenantId b" "sa_staffId (f b) = sa_staffId b" for b by (simp_all add: f_def book_recovery_def)
    have run: "recover (remaining - min (toPaise (sa_amount a) - toPaise (sa_recovered a)) remaining) as (set_advance (sa_id a) f d) = (left, d')"
      using "2.prems"(1) False unfolding recover.simps Let_def f_def by simp
    have rows: "sa_staffId x = s" if "x \<in> set (salaryAdvances (set_advance (sa_id a) f d))" "sa_id x \<in> sa_id ` set as" for x
    proof -
      from that(1) have "x \<in> set (set_row sa_id (sa_id a) f (salaryAdvances d))" by (simp add: set_advance_def)
      then show ?thesis by (cases rule: set_row_memberE) (use that(2) "2.prems"(3) f in auto)
    qed
    have "open_advances t s' d' = open_advances t s' (set_advance (sa_id a) f d)"
      by (rule "2.IH" [OF False refl refl refl, folded f_def, OF run "2.prems"(2)]) (use rows in blast)
    also have "\<dots> = open_advances t s' d" using "2.prems"(2,3) by (intro set_advance_other f) auto
    finally show ?thesis .
  qed
qed simp

lemma recover_payslip_succeeds:
  assumes p: "recovery_ok p" and ok: "advances_ok src d" and cover: "toPaise (py_advanceRecovery p) \<le> outstanding_of t (py_staffId p) d"
  shows "\<exists>d'. recover_payslip t p d = Inr d' \<and> (\<forall>s'. py_staffId p \<noteq> s' \<longrightarrow> open_advances t s' d' = open_advances t s' d)"
proof (cases "toPaise (py_advanceRecovery p) \<le> 0")
  case True
  then show ?thesis by (simp add: recover_payslip_def Let_def)
next
  case False
  let ?as = "open_advances t (py_staffId p) d"
  obtain left d1 where run: "recover (toPaise (py_advanceRecovery p)) ?as d = (left, d1)"
    by (cases "recover (toPaise (py_advanceRecovery p)) ?as d")
  have as: "a \<in> set (salaryAdvances d)" "sa_staffId a = py_staffId p" "0 \<le> outstanding a" if "a \<in> set ?as" for a
    using that ok outstanding_nonneg by (auto simp: open_advances_def advances_ok_def)
  have "left = 0" using recover_left [OF run] as(3) False cover by (simp add: outstanding_of_def)
  moreover have "open_advances t s' d1 = open_advances t s' d" if "py_staffId p \<noteq> s'" for s'
  proof (rule recover_other [OF run that], intro ballI impI)
    fix x assume x: "x \<in> set (salaryAdvances d)" "sa_id x \<in> sa_id ` set ?as"
    then obtain a where a: "a \<in> set ?as" "sa_id x = sa_id a" by auto
    have "distinct (map sa_id (salaryAdvances d))" using ok by (simp add: advances_ok_def)
    then have "row_by sa_id (sa_id x) (salaryAdvances d) = Some x" "row_by sa_id (sa_id a) (salaryAdvances d) = Some a"
      using x(1) as(1) [OF a(1)] by (simp_all only: row_by_distinct)
    then have "x = a" using a(2) by (metis option.inject)
    then show "sa_staffId x = py_staffId p" using as(2) [OF a(1)] by simp
  qed
  ultimately show ?thesis using run False by (simp add: recover_payslip_def Let_def)
qed

lemma recover_all_succeed:
  assumes "\<And>p. p \<in> set ps \<Longrightarrow> recovery_ok p \<and> toPaise (py_advanceRecovery p) \<le> outstanding_of t (py_staffId p) d"
    and "advances_ok src d" and "distinct (map py_staffId ps)"
  shows "\<exists>d'. efold (recover_payslip t) ps d = Inr d'"
  using assms
proof (induction ps arbitrary: d)
  case (Cons p ps)
  have p: "recovery_ok p" "toPaise (py_advanceRecovery p) \<le> outstanding_of t (py_staffId p) d" using Cons.prems(1) by simp_all
  from recover_payslip_succeeds [OF p(1) Cons.prems(2) p(2)] obtain d1 where run: "recover_payslip t p d = Inr d1"
    and other: "\<And>s'. py_staffId p \<noteq> s' \<Longrightarrow> open_advances t s' d1 = open_advances t s' d" by blast
  have "advances_ok src d1" using recover_payslip_ok [OF run Cons.prems(2) p(1)] by simp
  moreover have "recovery_ok q \<and> toPaise (py_advanceRecovery q) \<le> outstanding_of t (py_staffId q) d1" if "q \<in> set ps" for q
  proof -
    have "py_staffId p \<noteq> py_staffId q" using Cons.prems(3) that by (auto simp: image_iff)
    then show ?thesis using Cons.prems(1) [of q] that other by (simp add: outstanding_of_def)
  qed
  ultimately obtain d' where "efold (recover_payslip t) ps d1 = Inr d'" using Cons.IH [of d1] Cons.prems(3) by auto
  then show ?case using run by simp
qed simp

lemma due_outstanding:
  assumes "advances_ok src d"
  shows "max 0 (advance_due t s to d) \<le> outstanding_of t s d"
proof -
  let ?as = "filter (\<lambda>a. sa_staffId a = s \<and> sa_tenantId a = t \<and> sa_status a = AdvanceOpen) (salaryAdvances d)"
  have fold: "foldl (\<lambda>sum a. sum + g a) k as = k + (\<Sum>a\<leftarrow>as. g a)" for g :: "salary_advance_row \<Rightarrow> int" and k as
    by (induction as arbitrary: k) simp_all
  have nonneg: "0 \<le> outstanding a" if "a \<in> set (salaryAdvances d)" for a using that assms outstanding_nonneg by (simp add: advances_ok_def)
  have out: "outstanding_of t s d = (\<Sum>a\<leftarrow>?as. outstanding a)"
    unfolding outstanding_of_def open_advances_def sum_mset_sum_list [symmetric] mset_map mset_sort by (rule refl)
  have "advance_due t s to d = (\<Sum>a\<leftarrow>filter (\<lambda>a. sa_givenOn a \<le> to) ?as. min (toPaise (sa_monthlyRecovery a)) (outstanding a))"
    unfolding advance_due_def fold by (simp add: outstanding_def conj_commute conj_left_commute)
  also have "\<dots> \<le> (\<Sum>a\<leftarrow>filter (\<lambda>a. sa_givenOn a \<le> to) ?as. outstanding a)" by (rule sum_list_mono) simp
  also have "\<dots> \<le> (\<Sum>a\<leftarrow>?as. outstanding a)"
    unfolding sum_list_map_filter' [of outstanding "\<lambda>a. sa_givenOn a \<le> to"] by (rule sum_list_mono) (use nonneg in auto)
  finally have "advance_due t s to d \<le> outstanding_of t s d" unfolding out .
  moreover have "0 \<le> outstanding_of t s d" unfolding out by (rule sum_list_nonneg_map) (use nonneg in auto)
  ultimately show ?thesis by simp
qed

lemma finalise_succeeds:
  assumes ok: "payroll_ok src d" and r: "r \<in> set (payrollRuns d)" "run_id r = i" "run_outletId r = outletId" "run_tenantId r = u_tenantId user" "run_status r = RunDraft"
    and out: "outletId \<in> set (u_outletIds user)"
    and due: "\<forall>p \<in> set (payslips d). py_runId p = i \<and> py_tenantId p = u_tenantId user \<longrightarrow>
      (\<exists>to. toPaise (py_advanceRecovery p) \<le> max 0 (advance_due (u_tenantId user) (py_staffId p) to d))"
    and slip: "\<exists>p \<in> set (payslips d). py_runId p = i \<and> py_tenantId p = u_tenantId user"
  shows "\<exists>dto d'. finalise e user outletId i d = Inr (dto, d')"
proof -
  let ?ps = "filter (\<lambda>p. py_runId p = i \<and> py_tenantId p = u_tenantId user) (payslips d)"
  have parts: "advances_ok src d" "runs_ok src d" "slips_ok src d" using ok by (simp_all add: payroll_ok_def)
  have "distinct (map (\<lambda>p. (py_runId p, py_staffId p)) ?ps)" using parts(3) by (simp add: slips_ok_def distinct_map_filter)
  then have "distinct (map py_staffId ?ps)" by (auto simp: distinct_map inj_on_def)
  moreover have "recovery_ok p \<and> toPaise (py_advanceRecovery p) \<le> outstanding_of (u_tenantId user) (py_staffId p) d" if "p \<in> set ?ps" for p
  proof -
    from that due obtain to where "toPaise (py_advanceRecovery p) \<le> max 0 (advance_due (u_tenantId user) (py_staffId p) to d)" by auto
    also have "\<dots> \<le> outstanding_of (u_tenantId user) (py_staffId p) d" by (rule due_outstanding [OF parts(1)])
    finally show ?thesis using that parts(3) by (simp add: slips_ok_def)
  qed
  ultimately obtain d1 where loop: "efold (recover_payslip (u_tenantId user)) ?ps d = Inr d1" using recover_all_succeed [OF _ parts(1)] by blast
  have "recovery_ok p" if "p \<in> set ?ps" for p using that parts(3) by (simp add: slips_ok_def)
  from recover_loop [OF loop parts(1) this] have "d\<lparr>salaryAdvances := salaryAdvances d1\<rparr> = d1" by simp
  from arg_cong [OF this, of payrollRuns] have runs: "payrollRuns d1 = payrollRuns d" by simp
  have find: "List.find (\<lambda>r. run_id r = i \<and> run_tenantId r = u_tenantId user \<and> run_outletId r = outletId) (payrollRuns d) = Some r"
  proof (cases "List.find (\<lambda>r. run_id r = i \<and> run_tenantId r = u_tenantId user \<and> run_outletId r = outletId) (payrollRuns d)")
    case (Some q)
    then show ?thesis using find_SomeD [OF Some] run_unique [OF parts(2) r(1), of q] r(2) by simp
  qed (use r in \<open>auto simp: find_None_iff_ball\<close>)
  let ?f = "\<lambda>r. r\<lparr>run_status := RunFinalised, run_finalisedAt := Some (e_now e), run_finalisedById := Some (u_id user)\<rparr>"
  have tx: "finalise_tx e user outletId i d = Inr (audit (u_tenantId user) (Some (u_id user)) ''PAYROLL_FINALISED'' ''payroll_run'' i (set_run i ?f d1))"
    using slip by (simp add: finalise_tx_def lock_run_def find r(5) loop filter_empty_conv require_def Let_def)
  have "?f r \<in> set (payrollRuns (set_run i ?f d1))"
    unfolding set_run_def runs using r(1,2) by (auto simp: set_row_def set_update_where runs)
  moreover have "run_id (?f r) = i \<and> run_tenantId (?f r) = u_tenantId user \<and> run_outletId (?f r) = outletId" using r by simp
  ultimately have "List.find (\<lambda>r. run_id r = i \<and> run_tenantId r = u_tenantId user \<and> run_outletId r = outletId) (payrollRuns (set_run i ?f d1)) \<noteq> None"
    unfolding find_None_iff_ball by blast
  then show ?thesis using out by (auto simp: finalise_def tx show_run_def assertOutlet_def audit_def Let_def)
qed


section \<open>A concrete payday\<close>

text \<open>Employed and off on every day: nothing is present, absent or lost.\<close>

lemma idle_day:
  assumes "md_shift m = None" and "md_punches m = []" and "md_employed m"
  shows "add_day rules s m = s"
proof -
  have off: "da_status day = DayOff \<Longrightarrow> da_workedMinutes day = 0 \<Longrightarrow> da_overtimeMinutes day = 0 \<Longrightarrow> da_lateMinutes day = 0 \<Longrightarrow> add_presence day s = s"
    for day by (cases s) (simp add: add_presence_def attended_def)
  have "add_presence (computeDayAttendance (md_date m) None [] rules) s = s" by (rule off) (simp_all add: computeDayAttendance_def Let_def)
  then show ?thesis using assms by (simp add: add_day_def Let_def)
qed

lemma idle_days: "\<forall>m \<in> set ms. md_shift m = None \<and> md_punches m = [] \<and> md_employed m \<Longrightarrow> foldl (add_day rules) s ms = s"
  by (induction ms) (simp_all add: idle_day)

lemma idle_month:
  assumes "\<forall>m \<in> set days. md_shift m = None \<and> md_punches m = [] \<and> md_employed m"
  shows "summariseMonth (assume_worked today days) rules = blank_summary"
proof -
  have "\<forall>m \<in> set (assume_worked today days). md_shift m = None \<and> md_punches m = [] \<and> md_employed m"
    using assms by (auto simp: assume_worked_def)
  then show ?thesis unfolding summariseMonth_def by (rule idle_days)
qed

text \<open>An advance of 3000 to be recovered at 1000 a month, and the payroll of December 2024.\<close>

definition advance0 :: advance_input where
  "advance0 = \<lparr> adi_staffId = ''w'', adi_amount = 3000, adi_monthlyRecovery = 1000, adi_givenOn = (2024, 12, 1),
     adi_paidFrom = FromBank, adi_note = None \<rparr>"

definition given0 :: db where
  "given0 = snd (projr (giveAdvance env0 manager0 ''k'' advance0 floor_staff0))"

definition pay0 :: pay_inputs where
  "pay0 = pay_snapshot waiter0 31 blank_summary 100000"

definition payslip0 :: payslip_row where
  "payslip0 = draft_columns waiter0 pay0 blank_summary [] DEFAULT_PAYROLL_CONFIG
     (new_payslip ''xx'' ''t'' ''x'' waiter0 pay0 blank_summary (recompute pay0 0 0 [] DEFAULT_PAYROLL_CONFIG))"

lemma given: "giveAdvance env0 manager0 ''k'' advance0 floor_staff0 = Inr ([], given0)"
  "given0 = floor_staff0\<lparr>seq := 1, salaryAdvances := [\<lparr> sa_id = [], sa_tenantId = ''t'', sa_outletId = ''k'', sa_staffId = ''w'', sa_amount = 3000,
     sa_monthlyRecovery = 1000, sa_recovered = 0, sa_givenOn = (2024, 12, 1), sa_paidFrom = FromBank, sa_status = AdvanceOpen, sa_note = None,
     sa_createdById = Some ''m'' \<rparr>], auditLogs := [\<lparr> au_tenantId = ''t'', au_userId = Some ''m'', au_action = ''SALARY_ADVANCE'',
     au_entity = ''salary_advance'', au_entityId = Some [] \<rparr>]\<rparr>"
  by (simp_all add: given0_def giveAdvance_def advance0_def floor_staff0_def db0_def manager0_def waiter0_def assertOutlet_def fresh_def env0_def audit_def numeric_col_exact)

lemma december:
  assumes "rosterShifts d = []" and "attendanceRecords d = []"
  shows "summariseMonth (assume_worked today (map (\<lambda>i. attendance_day ''t'' waiter0 d (addDays (2024, 12, 1) (int i))) is)) rules = blank_summary"
proof (rule idle_month, rule ballI)
  fix m assume "m \<in> set (map (\<lambda>i. attendance_day ''t'' waiter0 d (addDays (2024, 12, 1) (int i))) is)"
  then obtain i where m: "m = attendance_day ''t'' waiter0 d (addDays (2024, 12, 1) (int i))" by auto
  have "day_of (2024, 1, 1) \<le> day_of (addDays (2024, 12, 1) (int i))"
    by (simp add: addDays_eq day_number_def Let_def month_starts_def leap_def)
  then have "(2024, 1, 1) \<le> addDays (2024, 12, 1) (int i)"
    by (subst day_of_le_iff [symmetric, OF _ valid_addDays]) (simp_all add: valid_civil_def month_length_def day_number_def Let_def month_starts_def leap_def)
  then show "md_shift m = None \<and> md_punches m = [] \<and> md_employed m"
    using assms by (simp add: m attendance_day_def shift_on_def punches_on_def employed_on_def waiter0_def)
qed

definition drafted0 :: db where
  "drafted0 = given0\<lparr>seq := 3, payrollRuns := [\<lparr> run_id = ''x'', run_tenantId = ''t'', run_outletId = ''k'', run_month = (2024, 12),
     run_status = RunDraft, run_config = DEFAULT_PAYROLL_CONFIG, run_createdById = Some ''m'', run_finalisedById = None, run_finalisedAt = None \<rparr>],
     payslips := [payslip0]\<rparr>"

lemma dec_days: "daysInMonth (2024, 12) = 31" "daysBetween (2024, 12, 1) (2024, 12, 31) = 30" by code_simp+

lemma drafted: "draft_tx env0 manager0 ''k'' (2024, 12) given0 = Inr (''x'', drafted0)"
proof -
  define d1 where "d1 = given0\<lparr>seq := 2, payrollRuns := [\<lparr> run_id = ''x'', run_tenantId = ''t'', run_outletId = ''k'', run_month = (2024, 12),
     run_status = RunDraft, run_config = DEFAULT_PAYROLL_CONFIG, run_createdById = Some ''m'', run_finalisedById = None, run_finalisedAt = None \<rparr>]\<rparr>"
  have who: "sf_id waiter0 = ''w''" "u_tenantId manager0 = ''t''" by (simp_all add: waiter0_def manager0_def)
  have new: "e_cuid env0 2 = ''xx''" by (simp add: env0_def numeral_2_eq_2)
  have dr: "drafted0 = d1\<lparr>seq := 3, payslips := [payslip0]\<rparr>" by (simp add: drafted0_def d1_def)
  have keep: "payslips_update (filter (\<lambda>p. py_runId p = ''x'' \<longrightarrow> py_tenantId p = ''t'' \<longrightarrow> py_staffId p = ''w'')) drafted0 = drafted0"
    by (simp add: drafted0_def payslip0_def draft_columns_def calcColumns_def new_payslip_def who)
  have runs: "List.find (\<lambda>r. run_outletId r = ''k'' \<and> run_month r = (2024, 12) \<and> run_tenantId r = ''t'') (payrollRuns d1) = Some (hd (payrollRuns d1))"
    "run_id (hd (payrollRuns d1)) = ''x''" "run_status (hd (payrollRuns d1)) = RunDraft" by (simp_all add: d1_def)
  have config: "loadPayrollConfig ''t'' given0 = DEFAULT_PAYROLL_CONFIG"
    by (simp add: loadPayrollConfig_def given(2) floor_staff0_def db0_def)
  have run: "ensure_run env0 manager0 ''k'' (2024, 12) DEFAULT_PAYROLL_CONFIG given0 = d1"
    by (simp add: ensure_run_def given(2) floor_staff0_def db0_def fresh_def env0_def d1_def manager0_def)
  have set: "set_run ''x'' (\<lambda>r. r\<lparr>run_config := DEFAULT_PAYROLL_CONFIG\<rparr>) d1 = d1"
    by (simp add: set_run_def set_row_def d1_def given(2))
  have staff: "eligible ''t'' ''k'' (2024, 12, 1) (2024, 12, 31) d1 = [waiter0]"
    by (simp add: eligible_def d1_def given(2) floor_staff0_def waiter0_def)
  have due: "advance_due ''t'' ''w'' (2024, 12, 31) d1 = 100000"
    by (simp add: advance_due_def d1_def given(2) toPaise_def)
  have none: "rosterShifts d1 = []" "attendanceRecords d1 = []" "payslips d1 = []" "seq d1 = 2"
    by (simp_all add: d1_def given(2) floor_staff0_def db0_def)
  have one: "draft_one env0 manager0 ''x'' DEFAULT_PAYROLL_CONFIG (2024, 12, 1) (2024, 12, 31) d1 d1
      (waiter0, map (\<lambda>i. attendance_day ''t'' waiter0 d1 (addDays (2024, 12, 1) (int i))) is) = drafted0" for "is"
    unfolding draft_one_def prod.case december [OF none(1,2)] Let_def
    by (simp del: daysInMonth.simps add: none dec_days due month_of_def who fresh_def new payslip0_def pay0_def dr)
  show ?thesis
    unfolding draft_tx_def Let_def who fst_conv snd_conv dec_days config run
    by (simp add: runs set staff loadAttendanceDays_def dec_days one who keep del: daysInMonth.simps upt_Suc addDays.simps daysBetween.simps)
qed

lemma recovery0: "py_advanceRecovery payslip0 = 1000"
proof -
  have "pk_advanceRecovery (recompute pay0 0 0 [] DEFAULT_PAYROLL_CONFIG) = 1000" by code_simp
  then show ?thesis by (simp add: payslip0_def draft_columns_def calcColumns_def blank_summary_def numeric_col_exact)
qed

lemma draft0_slip: "py_runId payslip0 = ''x''" "py_tenantId payslip0 = ''t''" "py_staffId payslip0 = ''w''"
  by (simp_all add: payslip0_def draft_columns_def calcColumns_def new_payslip_def waiter0_def)

lemma finalised: "\<exists>dto d. finalise env0 manager0 ''k'' ''x'' drafted0 = Inr (dto, d) \<and> recovered_of ''t'' ''w'' d = 1000"
  by (simp add: finalise_def assertOutlet_def show_run_def finalise_tx_def lock_run_def drafted0_def given(2) draft0_slip manager0_def recover_payslip_def
      recovery0 Let_def open_advances_def set_advance_def book_recovery_def toPaise_def fromPaise_def numeric_col_exact set_row_def recovered_of_def
      audit_def set_run_def)

lemma drafted_run: "\<exists>dto. computeDraft env0 manager0 ''k'' (2024, 12) given0 = Inr (dto, drafted0) \<and> rd_id dto = ''x''"
proof -
  have mgr: "''k'' \<in> set (u_outletIds manager0)" by (simp add: manager0_def)
  have "\<exists>dto. show_run manager0 ''k'' ''x'' drafted0 = Inr dto \<and> rd_id dto = ''x''"
    by (simp add: show_run_def assertOutlet_def drafted0_def manager0_def Let_def)
  then show ?thesis using mgr by (auto simp: computeDraft_def drafted assertOutlet_def)
qed

lemma given_step: "payroll_step (e_cuid env0) floor_staff0 given0"
  by (rule payroll_step.given [OF refl given(1)]) (simp_all add: advance0_def)

lemma payroll_empty: "inj (e_cuid env0)" "salaryAdvances floor_staff0 = []" "payrollRuns floor_staff0 = []" "payslips floor_staff0 = []"
  by (simp_all add: env0_def inj_unary floor_staff0_def db0_def)

theorem advances_recovered_witness:
  "\<exists>d. (payroll_step (e_cuid env0))\<^sup>*\<^sup>* floor_staff0 d \<and> recovered_of ''t'' ''w'' d = 1000 \<and> deducted_of ''t'' ''w'' d = 1000"
proof -
  obtain dto d where fin: "finalise env0 manager0 ''k'' ''x'' drafted0 = Inr (dto, d)" and rec: "recovered_of ''t'' ''w'' d = 1000"
    using finalised by blast
  have "payroll_step (e_cuid env0) given0 drafted0" using drafted_run payroll_step.drafted [OF refl] by blast
  then have reach: "(payroll_step (e_cuid env0))\<^sup>*\<^sup>* floor_staff0 d"
    using given_step payroll_step.finalised [OF fin] by (meson converse_rtranclp_into_rtranclp rtranclp.rtrancl_refl)
  from advances_recovered [OF this payroll_empty] have "recovered_of ''t'' ''w'' d = deducted_of ''t'' ''w'' d" by blast
  then show ?thesis using reach rec by auto
qed


end
