(* ===== verification/Roster.thy ===== *)
theory Roster
  imports Staff
begin

text \<open>
  The roster and leave service (\<open>apps/api/src/staff/roster.service.ts\<close>): shift templates, the weekly roster, shift swaps, and
  leave with its yearly balances. The roster table has the unique key (staff, date), which the database enforces: a row that
  would break it is refused. The weekly view and the lists of swaps and leaves are reads and are left out.
\<close>

section \<open>Shift templates\<close>

record template_input =
  ti_name :: string
  ti_times :: shift_spec

definition templates :: "auth_user \<Rightarrow> id \<Rightarrow> db \<Rightarrow> shift_template_row list result" where
  "templates user outletId d =
    ebind (assertOutlet user outletId) (\<lambda>_.
      Inr (sort_key (\<lambda>t. sh_startTime (tp_times t))
        (filter (\<lambda>t. tp_tenantId t = u_tenantId user \<and> tp_outletId t = outletId \<and> tp_isActive t) (shiftTemplates d))))"

definition createTemplate :: "env \<Rightarrow> auth_user \<Rightarrow> id \<Rightarrow> template_input \<Rightarrow> db \<Rightarrow> (id \<times> db) result" where
  "createTemplate e user outletId input d =
    ebind (assertOutlet user outletId) (\<lambda>_.
    ebind (require (sh_startTime (ti_times input) \<noteq> sh_endTime (ti_times input)) (BadRequest [Txt ''Shift start and end cannot be equal''])) (\<lambda>_.
      case fresh e d of (i, d1) \<Rightarrow>
      Inr (i, shiftTemplates_update (\<lambda>ts. ts @ [\<lparr> tp_id = i, tp_tenantId = u_tenantId user, tp_outletId = outletId, tp_name = ti_name input,
        tp_times = ti_times input, tp_isActive = True \<rparr>]) d1)))"

definition requireTemplate :: "auth_user \<Rightarrow> id \<Rightarrow> id \<Rightarrow> db \<Rightarrow> shift_template_row result" where
  "requireTemplate user outletId i d =
     some_or (List.find (\<lambda>t. tp_id t = i \<and> tp_tenantId t = u_tenantId user \<and> tp_outletId t = outletId) (shiftTemplates d))
       (NotFound [Txt ''Shift template not found''])"

record template_patch =
  tq_name :: "string option"
  tq_startTime :: "(int \<times> int) option"
  tq_endTime :: "(int \<times> int) option"
  tq_breakMinutes :: "int option"
  tq_graceMinutes :: "int option"

definition patch_template :: "template_patch \<Rightarrow> shift_template_row \<Rightarrow> shift_template_row" where
  "patch_template q t = t\<lparr>tp_name := or_else (tq_name q) (tp_name t),
     tp_times := (let s = tp_times t in s\<lparr>sh_startTime := or_else (tq_startTime q) (sh_startTime s), sh_endTime := or_else (tq_endTime q) (sh_endTime s),
       sh_breakMinutes := or_else (tq_breakMinutes q) (sh_breakMinutes s), sh_graceMinutes := or_else (tq_graceMinutes q) (sh_graceMinutes s)\<rparr>)\<rparr>"

definition updateTemplate :: "auth_user \<Rightarrow> id \<Rightarrow> id \<Rightarrow> template_patch \<Rightarrow> db \<Rightarrow> (id \<times> db) result" where
  "updateTemplate user outletId i input d =
    ebind (assertOutlet user outletId) (\<lambda>_.
    ebind (requireTemplate user outletId i d) (\<lambda>_.
      Inr (i, shiftTemplates_update (set_row tp_id i (patch_template input)) d)))"

definition deleteTemplate :: "auth_user \<Rightarrow> id \<Rightarrow> id \<Rightarrow> db \<Rightarrow> (id \<times> db) result" where
  "deleteTemplate user outletId i d =
    ebind (assertOutlet user outletId) (\<lambda>_.
    ebind (requireTemplate user outletId i d) (\<lambda>_.
      Inr (i, shiftTemplates_update (set_row tp_id i (\<lambda>t. t\<lparr>tp_isActive := False\<rparr>)) d)))"

section \<open>The weekly roster\<close>

record assign_entry =
  ae_staffId :: id
  ae_date :: date
  ae_templateId :: "id option"

definition shift_at :: "id \<Rightarrow> date \<Rightarrow> roster_shift_row \<Rightarrow> bool" where
  "shift_at staffId date s \<longleftrightarrow> rs_staffId s = staffId \<and> rs_date s = date"

text \<open>One cell: no template clears the day, a template creates the shift or replaces its times.\<close>

definition assign_one :: "env \<Rightarrow> auth_user \<Rightarrow> id \<Rightarrow> shift_template_row list \<Rightarrow> assign_entry \<Rightarrow> db \<Rightarrow> db result" where
  "assign_one e user outletId ts en d =
    (if \<not> truthy (ae_templateId en) then
       Inr (rosterShifts_update (filter (\<lambda>s. \<not> (rs_tenantId s = u_tenantId user \<and> shift_at (ae_staffId en) (ae_date en) s))) d)
     else ebind (some_or (List.find (\<lambda>t. Some (tp_id t) = ae_templateId en) ts) RowMissing) (\<lambda>t.
       if \<exists>s \<in> set (rosterShifts d). shift_at (ae_staffId en) (ae_date en) s then
         Inr (rosterShifts_update (update_where (shift_at (ae_staffId en) (ae_date en))
           (\<lambda>s. s\<lparr>rs_templateId := Some (tp_id t), rs_times := tp_times t\<rparr>)) d)
       else (case fresh e d of (i, d1) \<Rightarrow>
         Inr (rosterShifts_update (\<lambda>ss. ss @ [\<lparr> rs_id = i, rs_tenantId = u_tenantId user, rs_outletId = outletId, rs_staffId = ae_staffId en,
           rs_date = ae_date en, rs_templateId = Some (tp_id t), rs_times = tp_times t \<rparr>]) d1))))"

definition assign :: "env \<Rightarrow> auth_user \<Rightarrow> id \<Rightarrow> assign_entry list \<Rightarrow> db \<Rightarrow> (nat \<times> db) result" where
  "assign e user outletId entries d =
    ebind (assertOutlet user outletId) (\<lambda>_.
      let staffIds = js_set (map ae_staffId entries);
          templateIds = js_set (map (\<lambda>en. or_else (ae_templateId en) []) (filter (\<lambda>en. truthy (ae_templateId en)) entries));
          staff = filter (\<lambda>s. sf_tenantId s = u_tenantId user \<and> sf_outletId s = outletId \<and> sf_id s \<in> set staffIds) (staffMembers d);
          ts = filter (\<lambda>t. tp_tenantId t = u_tenantId user \<and> tp_outletId t = outletId \<and> tp_id t \<in> set templateIds) (shiftTemplates d)
      in ebind (require (length staff = length staffIds) (BadRequest [Txt ''Unknown staff member for this outlet''])) (\<lambda>_.
         ebind (require (length ts = length templateIds) (BadRequest [Txt ''Unknown shift template for this outlet''])) (\<lambda>_.
         ebind (efold (assign_one e user outletId ts) entries d) (\<lambda>d1. Inr (length entries, d1)))))"

text \<open>\<open>createMany\<close> that skips what would break the unique key.\<close>

definition copy_shift :: "env \<Rightarrow> auth_user \<Rightarrow> id \<Rightarrow> int \<Rightarrow> db \<Rightarrow> roster_shift_row \<Rightarrow> db" where
  "copy_shift e user outletId offset d s =
    (if \<exists>q \<in> set (rosterShifts d). shift_at (rs_staffId s) (addDays (rs_date s) offset) q then d
     else case fresh e d of (i, d1) \<Rightarrow>
       rosterShifts_update (\<lambda>ss. ss @ [\<lparr> rs_id = i, rs_tenantId = u_tenantId user, rs_outletId = outletId, rs_staffId = rs_staffId s,
         rs_date = addDays (rs_date s) offset, rs_templateId = rs_templateId s, rs_times = rs_times s \<rparr>]) d1)"

definition in_week :: "id \<Rightarrow> id \<Rightarrow> date \<Rightarrow> roster_shift_row \<Rightarrow> bool" where
  "in_week tenantId outletId week s \<longleftrightarrow> rs_tenantId s = tenantId \<and> rs_outletId s = outletId \<and> week \<le> rs_date s \<and> rs_date s \<le> addDays week 6"

definition copyWeek :: "env \<Rightarrow> auth_user \<Rightarrow> id \<Rightarrow> date \<Rightarrow> date \<Rightarrow> db \<Rightarrow> (nat \<times> db) result" where
  "copyWeek e user outletId fromWeek toWeek d =
    ebind (assertOutlet user outletId) (\<lambda>_.
      let src = filter (in_week (u_tenantId user) outletId fromWeek) (rosterShifts d);
          d1 = rosterShifts_update (filter (\<lambda>s. \<not> in_week (u_tenantId user) outletId toWeek s)) d
      in Inr (length src, foldl (copy_shift e user outletId (daysBetween fromWeek toWeek)) d1 src))"

section \<open>Swaps\<close>

definition assertSelfOrManager :: "auth_user \<Rightarrow> id \<Rightarrow> db \<Rightarrow> unit result" where
  "assertSelfOrManager user staffId d =
    (if hasPerm user ''staff.manage'' then Inr ()
     else require (\<exists>s \<in> set (staffMembers d). sf_id s = staffId \<and> sf_tenantId s = u_tenantId user \<and> sf_userId s = Some (u_id user))
       (Forbidden [Txt ''You can only raise requests for yourself'']))"

record swap_input =
  swi_fromShiftId :: id
  swi_toStaffId :: id
  swi_toShiftId :: "id option"
  swi_reason :: "string option"

definition requestSwap :: "env \<Rightarrow> auth_user \<Rightarrow> id \<Rightarrow> swap_input \<Rightarrow> db \<Rightarrow> (id \<times> db) result" where
  "requestSwap e user outletId input d =
    ebind (assertOutlet user outletId) (\<lambda>_.
    ebind (some_or (List.find (\<lambda>s. rs_id s = swi_fromShiftId input \<and> rs_tenantId s = u_tenantId user \<and> rs_outletId s = outletId) (rosterShifts d))
        (NotFound [Txt ''Shift not found''])) (\<lambda>from.
    ebind (assertSelfOrManager user (rs_staffId from) d) (\<lambda>_.
    ebind (some_or (List.find (\<lambda>s. sf_id s = swi_toStaffId input \<and> sf_tenantId s = u_tenantId user \<and> sf_outletId s = outletId \<and> sf_isActive s) (staffMembers d))
        (BadRequest [Txt ''Pick another active staff member of this outlet''])) (\<lambda>toStaff.
    ebind (require (sf_id toStaff \<noteq> rs_staffId from) (BadRequest [Txt ''Pick another active staff member of this outlet''])) (\<lambda>_.
    ebind (require (truthy (swi_toShiftId input) \<longrightarrow> (\<exists>s \<in> set (rosterShifts d). Some (rs_id s) = swi_toShiftId input \<and> rs_tenantId s = u_tenantId user
          \<and> rs_outletId s = outletId \<and> rs_staffId s = sf_id toStaff)) (BadRequest [Txt ''The other shift must belong to the chosen staff member''])) (\<lambda>_.
      case fresh e d of (i, d1) \<Rightarrow>
      Inr (i, swapRequests_update (\<lambda>rs. rs @ [\<lparr> sw_id = i, sw_tenantId = u_tenantId user, sw_outletId = outletId, sw_fromShiftId = rs_id from,
        sw_toStaffId = sf_id toStaff, sw_toShiftId = swi_toShiftId input, sw_reason = swi_reason input, sw_status = ReqPending,
        sw_requestedById = Some (u_id user), sw_decidedById = None, sw_decidedAt = None, sw_decisionNote = None \<rparr>]) d1)))))))"

record decision =
  dc_approve :: bool
  dc_note :: "string option"

definition close_swap :: "env \<Rightarrow> auth_user \<Rightarrow> id \<Rightarrow> request_status \<Rightarrow> string option \<Rightarrow> db \<Rightarrow> db" where
  "close_swap e user i status note = swapRequests_update (set_row sw_id i (\<lambda>r. r\<lparr>sw_status := status, sw_decidedById := Some (u_id user),
     sw_decidedAt := Some (e_now e), sw_decisionNote := note\<rparr>))"

definition tenant_shift :: "auth_user \<Rightarrow> id \<Rightarrow> db \<Rightarrow> roster_shift_row option" where
  "tenant_shift user i d = List.find (\<lambda>s. rs_id s = i \<and> rs_tenantId s = u_tenantId user) (rosterShifts d)"

definition clash :: "auth_user \<Rightarrow> id \<Rightarrow> date \<Rightarrow> id list \<Rightarrow> db \<Rightarrow> bool" where
  "clash user staffId date ignored d \<longleftrightarrow>
     (\<exists>s \<in> set (rosterShifts d). rs_tenantId s = u_tenantId user \<and> shift_at staffId date s \<and> rs_id s \<notin> set ignored)"

definition create_shift :: "roster_shift_row \<Rightarrow> db \<Rightarrow> db result" where
  "create_shift s d =
    ebind (require (\<not> (\<exists>q \<in> set (rosterShifts d). rs_id q = rs_id s \<or> shift_at (rs_staffId s) (rs_date s) q)) UniqueViolation) (\<lambda>_.
      Inr (rosterShifts_update (\<lambda>ss. ss @ [s]) d))"

definition swap_shifts :: "auth_user \<Rightarrow> swap_row \<Rightarrow> db \<Rightarrow> db result" where
  "swap_shifts user req d =
    (let ids = sw_fromShiftId req # (if truthy (sw_toShiftId req) then [the (sw_toShiftId req)] else [])
     in ebind (require (length (filter (\<lambda>s. rs_id s \<in> set ids \<and> rs_tenantId s = u_tenantId user) (rosterShifts d)) = length ids)
          (BadRequest [Txt ''A shift in this request no longer exists''])) (\<lambda>_.
        ebind (some_or (tenant_shift user (sw_fromShiftId req) d) RowMissing) (\<lambda>from.
        ebind (if truthy (sw_toShiftId req) then ebind (some_or (tenant_shift user (the (sw_toShiftId req)) d) RowMissing) (\<lambda>s. Inr (Some s)) else Inr None) (\<lambda>to.
        ebind (require (\<forall>s \<in> set_option to. rs_staffId s = sw_toStaffId req) (BadRequest [Txt ''The other shift has been reassigned''])) (\<lambda>_.
        ebind (require (\<not> clash user (sw_toStaffId req) (rs_date from) ids d) (BadRequest [Txt ''The covering staff member already has a shift that day''])) (\<lambda>_.
        ebind (require (\<forall>s \<in> set_option to. \<not> clash user (rs_staffId from) (rs_date s) ids d) (BadRequest [Txt ''The requester already has a shift on the other day''])) (\<lambda>_.
          let d1 = rosterShifts_update (filter (\<lambda>s. \<not> (rs_tenantId s = u_tenantId user \<and> rs_id s \<in> set ids))) d
          in ebind (create_shift (from\<lparr>rs_staffId := sw_toStaffId req\<rparr>) d1) (\<lambda>d2.
             case to of None \<Rightarrow> Inr d2 | Some s \<Rightarrow> create_shift (s\<lparr>rs_staffId := rs_staffId from\<rparr>) d2))))))))"

definition decideSwap :: "env \<Rightarrow> auth_user \<Rightarrow> id \<Rightarrow> id \<Rightarrow> decision \<Rightarrow> db \<Rightarrow> (request_status \<times> db) result" where
  "decideSwap e user outletId i input d =
    ebind (assertOutlet user outletId) (\<lambda>_.
    ebind (some_or (List.find (\<lambda>r. sw_id r = i \<and> sw_tenantId r = u_tenantId user \<and> sw_outletId r = outletId) (swapRequests d))
        (NotFound [Txt ''Swap request not found''])) (\<lambda>req.
    ebind (require (sw_status req = ReqPending) (BadRequest [Txt ''Request was already decided''])) (\<lambda>_.
      if \<not> dc_approve input then Inr (ReqRejected, close_swap e user i ReqRejected (dc_note input) d)
      else ebind (swap_shifts user req d) (\<lambda>d1. Inr (ReqApproved, close_swap e user i ReqApproved (dc_note input) d1)))))"

section \<open>Leave\<close>

record leave_input =
  li_staffId :: id
  li_type :: leave_type
  li_fromDate :: date
  li_toDate :: date
  li_halfDay :: bool
  li_reason :: "string option"

definition overlaps :: "leave_input \<Rightarrow> leave_row \<Rightarrow> bool" where
  "overlaps input l \<longleftrightarrow> lv_status l \<in> {ReqPending, ReqApproved} \<and> lv_fromDate l \<le> li_toDate input \<and> li_fromDate input \<le> lv_toDate l"

definition new_leave :: "auth_user \<Rightarrow> id \<Rightarrow> leave_input \<Rightarrow> id \<Rightarrow> id \<Rightarrow> leave_row" where
  "new_leave user outletId input i staffId = \<lparr> lv_id = i, lv_tenantId = u_tenantId user, lv_outletId = outletId, lv_staffId = staffId,
     lv_type = li_type input, lv_fromDate = li_fromDate input, lv_toDate = li_toDate input, lv_halfDay = li_halfDay input,
     lv_days = numeric_col 1 (leaveDays (li_fromDate input) (li_toDate input) (li_halfDay input)), lv_reason = li_reason input,
     lv_status = ReqPending, lv_requestedById = Some (u_id user), lv_decidedById = None, lv_decidedAt = None, lv_decisionNote = None \<rparr>"

definition requestLeave :: "env \<Rightarrow> auth_user \<Rightarrow> id \<Rightarrow> leave_input \<Rightarrow> db \<Rightarrow> (id \<times> db) result" where
  "requestLeave e user outletId input d =
    ebind (assertOutlet user outletId) (\<lambda>_.
    ebind (some_or (List.find (\<lambda>s. sf_id s = li_staffId input \<and> sf_tenantId s = u_tenantId user \<and> sf_outletId s = outletId) (staffMembers d))
        (NotFound [Txt ''Staff member not found''])) (\<lambda>staff.
    ebind (assertSelfOrManager user (sf_id staff) d) (\<lambda>_.
    ebind (require (fst (li_fromDate input) = fst (li_toDate input)) (BadRequest [Txt ''Split leave that crosses a year into two requests''])) (\<lambda>_.
    ebind (require (\<not> (\<exists>l \<in> set (leaveRequests d). lv_tenantId l = u_tenantId user \<and> lv_staffId l = sf_id staff \<and> overlaps input l))
        (BadRequest [Txt ''Overlaps an existing leave request''])) (\<lambda>_.
      case fresh e d of (i, d1) \<Rightarrow>
      Inr (i, leaveRequests_update (\<lambda>ls. ls @ [new_leave user outletId input i (sf_id staff)]) d1))))))"

datatype leave_decision = CancelLeave | DecideLeave decision

definition balance_at :: "id \<Rightarrow> int \<Rightarrow> leave_type \<Rightarrow> leave_balance_row \<Rightarrow> bool" where
  "balance_at staffId year type b \<longleftrightarrow> lb_staffId b = staffId \<and> lb_year b = year \<and> lb_type b = type"

text \<open>The balance row of a leave: created when it is missing, then locked.\<close>

definition lockBalance :: "env \<Rightarrow> auth_user \<Rightarrow> leave_row \<Rightarrow> db \<Rightarrow> (leave_balance_row \<times> db) result" where
  "lockBalance e user l d =
    (let here = balance_at (lv_staffId l) (fst (lv_fromDate l)) (lv_type l);
         d1 = (if \<exists>b \<in> set (leaveBalances d). here b then d else case fresh e d of (i, d0) \<Rightarrow>
           leaveBalances_update (\<lambda>bs. bs @ [\<lparr> lb_id = i, lb_tenantId = u_tenantId user, lb_staffId = lv_staffId l,
             lb_year = fst (lv_fromDate l), lb_type = lv_type l, lb_allotted = 0, lb_used = 0 \<rparr>]) d0)
     in ebind (some_or (List.find (\<lambda>b. here b \<and> lb_tenantId b = u_tenantId user) (leaveBalances d1)) RowMissing) (\<lambda>b. Inr (b, d1)))"

definition set_used :: "leave_balance_row \<Rightarrow> num \<Rightarrow> db \<Rightarrow> db" where
  "set_used b used = leaveBalances_update (set_row lb_id (lb_id b) (\<lambda>b. b\<lparr>lb_used := numeric_col 1 used\<rparr>))"

definition close_leave :: "env \<Rightarrow> auth_user \<Rightarrow> id \<Rightarrow> request_status \<Rightarrow> string option \<Rightarrow> db \<Rightarrow> db" where
  "close_leave e user i status note = leaveRequests_update (set_row lv_id i (\<lambda>l. l\<lparr>lv_status := status, lv_decidedById := Some (u_id user),
     lv_decidedAt := Some (e_now e), lv_decisionNote := note\<rparr>))"

fun leave_type_text :: "leave_type \<Rightarrow> string" where
  "leave_type_text Casual = ''casual''" | "leave_type_text Sick = ''sick''" | "leave_type_text Earned = ''earned''" | "leave_type_text Unpaid = ''unpaid''"

definition cancel_leave :: "env \<Rightarrow> auth_user \<Rightarrow> leave_row \<Rightarrow> db \<Rightarrow> (request_status \<times> db) result" where
  "cancel_leave e user l d =
    ebind (require (\<not> (lv_status l \<noteq> ReqPending \<and> lv_status l \<noteq> ReqApproved)) (BadRequest [Txt ''Only pending or approved leave can be cancelled''])) (\<lambda>_.
    ebind (if lv_status l = ReqApproved \<and> lv_type l \<noteq> Unpaid
           then ebind (lockBalance e user l d) (\<lambda>(b, d1). Inr (set_used b (max 0 (lb_used b - lv_days l)) d1)) else Inr d) (\<lambda>d1.
      Inr (ReqCancelled, close_leave e user (lv_id l) ReqCancelled None d1)))"

definition decide_leave :: "env \<Rightarrow> auth_user \<Rightarrow> leave_row \<Rightarrow> decision \<Rightarrow> db \<Rightarrow> (request_status \<times> db) result" where
  "decide_leave e user l input d =
    ebind (require (lv_status l = ReqPending) (BadRequest [Txt ''Request was already decided''])) (\<lambda>_.
      if \<not> dc_approve input then Inr (ReqRejected, close_leave e user (lv_id l) ReqRejected (dc_note input) d)
      else ebind (if lv_type l \<noteq> Unpaid then ebind (lockBalance e user l d) (\<lambda>(b, d1).
             let available = lb_allotted b - lb_used b
             in ebind (require (\<not> available < lv_days l) (BadRequest [Txt (''Insufficient '' @ leave_type_text (lv_type l) @ '' leave: ''), Num available,
                  Txt '' day(s) available''])) (\<lambda>_. Inr (set_used b (lb_used b + lv_days l) d1)))
           else Inr d) (\<lambda>d1. Inr (ReqApproved, close_leave e user (lv_id l) ReqApproved (dc_note input) d1)))"

definition decideLeave :: "env \<Rightarrow> auth_user \<Rightarrow> id \<Rightarrow> id \<Rightarrow> leave_decision \<Rightarrow> db \<Rightarrow> (request_status \<times> db) result" where
  "decideLeave e user outletId i input d =
    ebind (assertOutlet user outletId) (\<lambda>_.
    ebind (some_or (List.find (\<lambda>l. lv_id l = i \<and> lv_tenantId l = u_tenantId user \<and> lv_outletId l = outletId) (leaveRequests d))
        (NotFound [Txt ''Leave request not found''])) (\<lambda>l.
      case input of CancelLeave \<Rightarrow> cancel_leave e user l d | DecideLeave dc \<Rightarrow> decide_leave e user l dc d))"

section \<open>Balances\<close>

record leave_balance_dto =
  bd_type :: leave_type
  bd_allotted :: num
  bd_used :: num
  bd_available :: num

definition balance_line :: "id \<Rightarrow> id \<Rightarrow> int \<Rightarrow> db \<Rightarrow> leave_type \<Rightarrow> leave_balance_dto" where
  "balance_line tenantId staffId year d type =
    (let b = List.find (\<lambda>b. lb_tenantId b = tenantId \<and> balance_at staffId year type b) (leaveBalances d);
         allotted = (case b of None \<Rightarrow> 0 | Some b \<Rightarrow> lb_allotted b); used = (case b of None \<Rightarrow> 0 | Some b \<Rightarrow> lb_used b)
     in \<lparr> bd_type = type, bd_allotted = allotted, bd_used = used, bd_available = allotted - used \<rparr>)"

definition balances :: "auth_user \<Rightarrow> id \<Rightarrow> int \<Rightarrow> db \<Rightarrow> (id \<times> string \<times> leave_balance_dto list) list result" where
  "balances user outletId year d =
    ebind (assertOutlet user outletId) (\<lambda>_.
      Inr (map (\<lambda>s. (sf_id s, sf_name s, map (balance_line (u_tenantId user) (sf_id s) year d) [Casual, Sick, Earned]))
        (sort_key sf_name (filter (\<lambda>s. sf_tenantId s = u_tenantId user \<and> sf_outletId s = outletId \<and> sf_isActive s) (staffMembers d)))))"

record balance_input =
  bi_staffId :: id
  bi_year :: int
  bi_type :: leave_type
  bi_allotted :: num

definition setBalance :: "env \<Rightarrow> auth_user \<Rightarrow> id \<Rightarrow> balance_input \<Rightarrow> db \<Rightarrow> db result" where
  "setBalance e user outletId input d =
    ebind (assertOutlet user outletId) (\<lambda>_.
    ebind (some_or (List.find (\<lambda>s. sf_id s = bi_staffId input \<and> sf_tenantId s = u_tenantId user \<and> sf_outletId s = outletId) (staffMembers d))
        (NotFound [Txt ''Staff member not found''])) (\<lambda>staff.
      if \<exists>b \<in> set (leaveBalances d). balance_at (sf_id staff) (bi_year input) (bi_type input) b
      then Inr (leaveBalances_update (update_where (balance_at (sf_id staff) (bi_year input) (bi_type input)) (\<lambda>b. b\<lparr>lb_allotted := numeric_col 1 (bi_allotted input)\<rparr>)) d)
      else (case fresh e d of (i, d1) \<Rightarrow> Inr (leaveBalances_update (\<lambda>bs. bs @ [\<lparr> lb_id = i, lb_tenantId = u_tenantId user, lb_staffId = sf_id staff,
        lb_year = bi_year input, lb_type = bi_type input, lb_allotted = numeric_col 1 (bi_allotted input), lb_used = 0 \<rparr>]) d1))))"

end
