(* ===== verification/Leave_Books.thy ===== *)
theory Leave_Books
  imports Roster
begin

text \<open>
  What the roster and leave service keeps: the balances count exactly the approved leave, and the leaves of one member of staff do not
  overlap, after every history of requests, decisions and allotments; and what a stale swap request does.
\<close>

section \<open>The leave books\<close>

definition leave_used :: "id \<Rightarrow> int \<Rightarrow> leave_type \<Rightarrow> db \<Rightarrow> num" where
  "leave_used staffId year type d = (\<Sum>l\<leftarrow>leaveRequests d.
     if lv_staffId l = staffId \<and> fst (lv_fromDate l) = year \<and> lv_type l = type \<and> lv_status l = ReqApproved then lv_days l else 0)"

definition balance_used :: "id \<Rightarrow> int \<Rightarrow> leave_type \<Rightarrow> db \<Rightarrow> num" where
  "balance_used staffId year type d = (\<Sum>b\<leftarrow>leaveBalances d. if balance_at staffId year type b then lb_used b else 0)"

definition active :: "leave_row \<Rightarrow> bool" where
  "active l \<longleftrightarrow> lv_status l \<in> {ReqPending, ReqApproved}"

definition clashing :: "leave_row \<Rightarrow> leave_row \<Rightarrow> bool" where
  "clashing l m \<longleftrightarrow> lv_tenantId l = lv_tenantId m \<and> lv_staffId l = lv_staffId m \<and> lv_fromDate l \<le> lv_toDate m \<and> lv_fromDate m \<le> lv_toDate l"

definition leaves_ok :: "(nat \<Rightarrow> id) \<Rightarrow> db \<Rightarrow> bool" where
  "leaves_ok src d \<longleftrightarrow> distinct (map lv_id (leaveRequests d)) \<and> lv_id ` set (leaveRequests d) \<subseteq> src ` {..<seq d} \<and>
     (\<forall>l \<in> set (leaveRequests d). decimals 1 (lv_days l) \<and> 0 \<le> lv_days l) \<and>
     (\<forall>l \<in> set (leaveRequests d). \<forall>m \<in> set (leaveRequests d). active l \<longrightarrow> active m \<longrightarrow> clashing l m \<longrightarrow> lv_id l = lv_id m)"

definition key_of :: "leave_balance_row \<Rightarrow> id \<times> int \<times> leave_type" where
  "key_of b = (lb_staffId b, lb_year b, lb_type b)"

definition balances_ok :: "(nat \<Rightarrow> id) \<Rightarrow> db \<Rightarrow> bool" where
  "balances_ok src d \<longleftrightarrow> distinct (map lb_id (leaveBalances d)) \<and> lb_id ` set (leaveBalances d) \<subseteq> src ` {..<seq d} \<and>
     distinct (map key_of (leaveBalances d)) \<and> (\<forall>b \<in> set (leaveBalances d). decimals 1 (lb_used b))"

definition books_ok :: "(nat \<Rightarrow> id) \<Rightarrow> db \<Rightarrow> bool" where
  "books_ok src d \<longleftrightarrow> leaves_ok src d \<and> balances_ok src d \<and> (\<forall>s y ty. ty \<noteq> Unpaid \<longrightarrow> balance_used s y ty d = leave_used s y ty d)"

interpretation lvs: table "leaveRequests :: db \<Rightarrow> _" leaveRequests_update lv_id
  by unfold_locales simp_all

interpretation lbs: table "leaveBalances :: db \<Rightarrow> _" leaveBalances_update lb_id
  by unfold_locales simp_all

lemma balance_at_key: "balance_at s y ty b \<longleftrightarrow> key_of b = (s, y, ty)"
  by (simp add: balance_at_def key_of_def)

lemma leaves_ok_same: "leaves_ok src d \<Longrightarrow> leaveRequests d' = leaveRequests d \<Longrightarrow> seq d \<le> seq d' \<Longrightarrow> leaves_ok src d'"
  unfolding leaves_ok_def by (elim conjE, intro conjI) (simp_all only:, erule (1) drawn_mono)

lemma balances_ok_same: "balances_ok src d \<Longrightarrow> leaveBalances d' = leaveBalances d \<Longrightarrow> seq d \<le> seq d' \<Longrightarrow> balances_ok src d'"
  unfolding balances_ok_def by (elim conjE, intro conjI) (simp_all only:, erule (1) drawn_mono)

lemma books_ok_same:
  assumes "books_ok src d" and "leaveRequests d' = leaveRequests d" and "leaveBalances d' = leaveBalances d" and "seq d \<le> seq d'"
  shows "books_ok src d'"
  using assms leaves_ok_same [of src d d'] balances_ok_same [of src d d'] by (simp add: books_ok_def leave_used_def balance_used_def)

text \<open>The row of a key holds its whole balance.\<close>

lemma balance_row:
  assumes "balances_ok src d" and "b \<in> set (leaveBalances d)"
  shows "balance_used (lb_staffId b) (lb_year b) (lb_type b) d = lb_used b"
proof -
  have none: "(\<Sum>c\<leftarrow>bs. if key_of c = key_of b then lb_used c else 0) = 0" if "key_of b \<notin> key_of ` set bs" for bs
    using that by (induction bs) auto
  have "(\<Sum>c\<leftarrow>bs. if key_of c = key_of b then lb_used c else 0) = lb_used b" if "distinct (map key_of bs)" "b \<in> set bs" for bs
    using that
  proof (induction bs)
    case (Cons c bs)
    show ?case
    proof (cases "c = b")
      case True
      then show ?thesis using Cons.prems none [of bs] by simp
    next
      case False
      then have "b \<in> set bs" using Cons.prems by simp
      moreover from this have "key_of b \<in> key_of ` set bs" by (rule imageI)
      then have "key_of c \<noteq> key_of b" using Cons.prems(1) by (simp del: image_iff) metis
      ultimately show ?thesis using Cons by simp
    qed
  qed simp
  from this [of "leaveBalances d"] assms show ?thesis by (simp add: balance_used_def balance_at_key balances_ok_def key_of_def)
qed

lemma set_used_ok:
  assumes ok: "balances_ok src d" and b: "b \<in> set (leaveBalances d)"
  shows "balances_ok src (set_used b u d)"
    and "balance_used s y ty (set_used b u d) = balance_used s y ty d + (if balance_at s y ty b then numeric_col 1 u - lb_used b else 0)"
proof -
  let ?f = "\<lambda>b. b\<lparr>lb_used := numeric_col 1 u\<rparr>"
  have ids: "map lb_id (set_row lb_id (lb_id b) ?f (leaveBalances d)) = map lb_id (leaveBalances d)" by (rule map_key_set_row) simp
  have keys: "map key_of (set_row lb_id (lb_id b) ?f (leaveBalances d)) = map key_of (leaveBalances d)"
    unfolding set_row_def by (rule map_update_where) (simp add: key_of_def)
  have "decimals 1 (lb_used c)" if "c \<in> set (set_row lb_id (lb_id b) ?f (leaveBalances d))" for c
    using that by (cases rule: set_row_memberE) (use ok in \<open>auto simp: balances_ok_def\<close>)
  then show "balances_ok src (set_used b u d)"
    using ok ids keys by (simp add: balances_ok_def set_used_def image_key_set_row)
  have "row_by lb_id (lb_id b) (leaveBalances d) = Some b" using ok b by (intro row_by_distinct) (simp_all add: balances_ok_def)
  from sum_list_set_row [OF _ this, of "\<lambda>b. if balance_at s y ty b then lb_used b else 0" ?f] ok
  show "balance_used s y ty (set_used b u d) = balance_used s y ty d + (if balance_at s y ty b then numeric_col 1 u - lb_used b else 0)"
    by (simp add: balance_used_def set_used_def balances_ok_def balance_at_def)
qed

lemma new_balance:
  assumes ok: "balances_ok src d" and src: "inj src" and b: "lb_id b = src (seq d)" "decimals 1 (lb_used b)"
    and key: "\<And>c. c \<in> set (leaveBalances d) \<Longrightarrow> key_of c \<noteq> key_of b"
  shows "balances_ok src (leaveBalances_update (\<lambda>bs. bs @ [b]) (d\<lparr>seq := seq d + 1\<rparr>))"
proof -
  have new: "lb_id b \<notin> lb_id ` set (leaveBalances d)" unfolding b(1) using ok by (intro unused_id [OF src]) (simp add: balances_ok_def)
  have drawn: "lb_id ` set (leaveBalances d) \<subseteq> src ` {..<seq d + 1}" "lb_id b \<in> src ` {..<seq d + 1}"
    unfolding b(1) using ok by (simp_all only: balances_ok_def drawn_next)
  have "key_of b \<notin> key_of ` set (leaveBalances d)" using key by force
  then show ?thesis using ok b(2) new drawn by (simp add: balances_ok_def del: lessThan_Suc)
qed

lemma lockBalance_ok:
  assumes run: "lockBalance e user l d = Inr (b, d1)" and ok: "balances_ok (e_cuid e) d" and src: "inj (e_cuid e)"
  shows "balances_ok (e_cuid e) d1 \<and> b \<in> set (leaveBalances d1) \<and> key_of b = (lv_staffId l, fst (lv_fromDate l), lv_type l) \<and>
    leaveRequests d1 = leaveRequests d \<and> seq d \<le> seq d1 \<and> (\<forall>s y ty. balance_used s y ty d1 = balance_used s y ty d)"
proof -
  let ?here = "balance_at (lv_staffId l) (fst (lv_fromDate l)) (lv_type l)"
  define b0 where "b0 = \<lparr> lb_id = e_cuid e (seq d), lb_tenantId = u_tenantId user, lb_staffId = lv_staffId l,
             lb_year = fst (lv_fromDate l), lb_type = lv_type l, lb_allotted = 0, lb_used = 0 \<rparr>"
  define d2 where "d2 = leaveBalances_update (\<lambda>bs. bs @ [b0]) (d\<lparr>seq := seq d + 1\<rparr>)"
  from run have d1: "d1 = (if \<exists>b \<in> set (leaveBalances d). ?here b then d else d2)"
    and find: "List.find (\<lambda>b. ?here b \<and> lb_tenantId b = u_tenantId user) (leaveBalances d1) = Some b"
    by (auto simp: lockBalance_def Let_def guard_simps fresh_def b0_def d2_def)
  note b = find_SomeD [OF find]
  show ?thesis
  proof (cases "\<exists>b \<in> set (leaveBalances d). ?here b")
    case True
    then show ?thesis using d1 ok b by (simp add: balance_at_key)
  next
    case False
    then have "balances_ok (e_cuid e) d2" unfolding d2_def
      by (intro new_balance [OF ok src]) (auto simp: b0_def key_of_def balance_at_def)
    then show ?thesis using d1 False b by (simp add: balance_at_key d2_def balance_used_def b0_def)
  qed
qed

lemma close_leave_ok:
  assumes ok: "leaves_ok src d" and l: "l \<in> set (leaveRequests d)" and st: "status \<in> {ReqPending, ReqApproved} \<Longrightarrow> active l"
  shows "leaves_ok src (close_leave e user (lv_id l) status note d)"
    and "leave_used s y ty (close_leave e user (lv_id l) status note d) = leave_used s y ty d +
      (if lv_staffId l = s \<and> fst (lv_fromDate l) = y \<and> lv_type l = ty
       then (if status = ReqApproved then lv_days l else 0) - (if lv_status l = ReqApproved then lv_days l else 0) else 0)"
proof -
  let ?f = "\<lambda>l. l\<lparr>lv_status := status, lv_decidedById := Some (u_id user), lv_decidedAt := Some (e_now e), lv_decisionNote := note\<rparr>"
  let ?rows = "set_row lv_id (lv_id l) ?f (leaveRequests d)"
  have row: "row_by lv_id (lv_id x) (leaveRequests d) = Some x" if "x \<in> set (leaveRequests d)" for x
    using ok that by (intro row_by_distinct) (simp_all add: leaves_ok_def)
  have old: "\<exists>x \<in> set (leaveRequests d). lv_id x = lv_id m \<and> lv_days x = lv_days m \<and> (active m \<longrightarrow> active x) \<and> (\<forall>n. clashing m n = clashing x n \<and> clashing n m = clashing n x)"
    if "m \<in> set ?rows" for m
    using that
  proof (cases rule: set_row_memberE)
    case (1 x)
    have "Some x = Some l" unfolding row [OF 1(1), symmetric] row [OF l, symmetric] 1(2) ..
    then have m: "m = ?f l" using 1(3) by simp
    have "active m \<Longrightarrow> active l" using st by (simp add: m active_def)
    moreover have "clashing m n = clashing l n" "clashing n m = clashing n l" for n by (simp_all add: m clashing_def)
    moreover have "lv_id l = lv_id m" "lv_days l = lv_days m" by (simp_all add: m)
    ultimately show ?thesis using l by blast
  qed auto
  have ids: "map lv_id ?rows = map lv_id (leaveRequests d)" by (rule map_key_set_row) simp
  have "decimals 1 (lv_days m) \<and> 0 \<le> lv_days m" if "m \<in> set ?rows" for m using old [OF that] ok by (auto simp: leaves_ok_def)
  moreover have "lv_id m = lv_id n" if "m \<in> set ?rows" "n \<in> set ?rows" "active m" "active n" "clashing m n" for m n
    using old [OF that(1)] old [OF that(2)] that(3-5) ok unfolding leaves_ok_def by metis
  ultimately show "leaves_ok src (close_leave e user (lv_id l) status note d)"
    using ok ids by (simp add: leaves_ok_def close_leave_def image_key_set_row)
  show "leave_used s y ty (close_leave e user (lv_id l) status note d) = leave_used s y ty d +
      (if lv_staffId l = s \<and> fst (lv_fromDate l) = y \<and> lv_type l = ty
       then (if status = ReqApproved then lv_days l else 0) - (if lv_status l = ReqApproved then lv_days l else 0) else 0)"
    using ok sum_list_set_row [OF _ row [OF l], of "\<lambda>l. if lv_staffId l = s \<and> fst (lv_fromDate l) = y \<and> lv_type l = ty \<and> lv_status l = ReqApproved then lv_days l else 0" ?f]
    by (simp add: leave_used_def close_leave_def leaves_ok_def)
qed

lemma requestLeave_ok:
  assumes run: "requestLeave e user outletId input d = Inr (i, d')" and ok: "books_ok (e_cuid e) d" and src: "inj (e_cuid e)"
    and dates: "valid_date (li_fromDate input)" "valid_date (li_toDate input)" "li_fromDate input \<le> li_toDate input"
  shows "books_ok (e_cuid e) d'"
proof -
  from run obtain staff :: staff_row
    where free: "\<not> (\<exists>l \<in> set (leaveRequests d). lv_tenantId l = u_tenantId user \<and> lv_staffId l = sf_id staff \<and> overlaps input l)"
      and d': "d' = leaveRequests_update (\<lambda>ls. ls @ [new_leave user outletId input (e_cuid e (seq d)) (sf_id staff)]) (d\<lparr>seq := seq d + 1\<rparr>)"
    unfolding requestLeave_def guard_simps fresh_def prod.case sum.inject prod.inject
    by (elim exE conjE) (rule that, assumption, erule sym)
  let ?l = "new_leave user outletId input (e_cuid e (seq d)) (sf_id staff)"
  have leaves: "leaves_ok (e_cuid e) d" using ok by (simp add: books_ok_def)
  have new: "lv_id ?l \<notin> lv_id ` set (leaveRequests d)" unfolding new_leave_def leave_row.select_convs
    using leaves by (intro unused_id [OF src]) (simp add: leaves_ok_def)
  have drawn: "lv_id ` set (leaveRequests d) \<subseteq> e_cuid e ` {..<seq d + 1}" "lv_id ?l \<in> e_cuid e ` {..<seq d + 1}"
    using leaves by (simp_all only: leaves_ok_def drawn_next new_leave_def leave_row.select_convs)
  have "0 \<le> leaveDays (li_fromDate input) (li_toDate input) (li_halfDay input)"
    using dates day_of_le_iff [OF dates(1,2)] by (simp add: leaveDays_def daysBetween_eq del: daysBetween.simps)
  then have "0 \<le> lv_days ?l" using numeric_col_mono [of 0 "leaveDays (li_fromDate input) (li_toDate input) (li_halfDay input)" 1] numeric_col_exact [of 1 0]
    by (simp add: new_leave_def)
  moreover have "\<not> clashing ?l q \<and> \<not> clashing q ?l" if "q \<in> set (leaveRequests d)" "active q" for q
    using free that by (auto simp: clashing_def new_leave_def overlaps_def active_def)
  ultimately have "leaves_ok (e_cuid e) d'"
    using leaves new drawn by (auto simp: leaves_ok_def d' new_leave_def simp del: lessThan_Suc)
  moreover have "balances_ok (e_cuid e) d'" by (rule balances_ok_same [of _ d]) (use ok in \<open>simp_all add: books_ok_def d'\<close>)
  moreover have "leave_used s y ty d' = leave_used s y ty d" "balance_used s y ty d' = balance_used s y ty d" for s y ty
    by (simp_all add: leave_used_def balance_used_def d' new_leave_def)
  ultimately show ?thesis using ok by (simp add: books_ok_def)
qed

lemma setBalance_ok:
  assumes run: "setBalance e user outletId input d = Inr d'" and ok: "books_ok (e_cuid e) d" and src: "inj (e_cuid e)"
  shows "books_ok (e_cuid e) d'"
proof -
  from run obtain staff :: staff_row where rest: "(if \<exists>b \<in> set (leaveBalances d). balance_at (sf_id staff) (bi_year input) (bi_type input) b
      then Inr (leaveBalances_update (update_where (balance_at (sf_id staff) (bi_year input) (bi_type input)) (\<lambda>b. b\<lparr>lb_allotted := numeric_col 1 (bi_allotted input)\<rparr>)) d)
      else Inr (leaveBalances_update (\<lambda>bs. bs @ [\<lparr> lb_id = e_cuid e (seq d), lb_tenantId = u_tenantId user, lb_staffId = sf_id staff,
        lb_year = bi_year input, lb_type = bi_type input, lb_allotted = numeric_col 1 (bi_allotted input), lb_used = 0 \<rparr>]) (d\<lparr>seq := seq d + 1\<rparr>))) = (Inr d' :: db result)"
    unfolding setBalance_def guard_simps fresh_def prod.case by (elim exE conjE) (rule that, assumption)
  have d': "d' = (if \<exists>b \<in> set (leaveBalances d). balance_at (sf_id staff) (bi_year input) (bi_type input) b
      then leaveBalances_update (update_where (balance_at (sf_id staff) (bi_year input) (bi_type input)) (\<lambda>b. b\<lparr>lb_allotted := numeric_col 1 (bi_allotted input)\<rparr>)) d
      else leaveBalances_update (\<lambda>bs. bs @ [\<lparr> lb_id = e_cuid e (seq d), lb_tenantId = u_tenantId user, lb_staffId = sf_id staff,
        lb_year = bi_year input, lb_type = bi_type input, lb_allotted = numeric_col 1 (bi_allotted input), lb_used = 0 \<rparr>]) (d\<lparr>seq := seq d + 1\<rparr>))"
    using rest by (auto split: if_splits)
  let ?f = "\<lambda>b. b\<lparr>lb_allotted := numeric_col 1 (bi_allotted input)\<rparr>"
  let ?here = "balance_at (sf_id staff) (bi_year input) (bi_type input)"
  have bal: "balances_ok (e_cuid e) d" and leaves: "leaves_ok (e_cuid e) d" using ok by (simp_all add: books_ok_def)
  have "balances_ok (e_cuid e) d' \<and> (\<forall>s y ty. balance_used s y ty d' = balance_used s y ty d)"
  proof (cases "\<exists>b \<in> set (leaveBalances d). ?here b")
    case True
    have ids: "map lb_id (update_where ?here ?f (leaveBalances d)) = map lb_id (leaveBalances d)" by (rule map_update_where) simp
    have keys: "map key_of (update_where ?here ?f (leaveBalances d)) = map key_of (leaveBalances d)" by (rule map_update_where) (simp add: key_of_def)
    have "decimals 1 (lb_used b)" if "b \<in> set (update_where ?here ?f (leaveBalances d))" for b
      using that bal by (auto simp: set_update_where balances_ok_def)
    moreover have "lb_id ` set (update_where ?here ?f (leaveBalances d)) = lb_id ` set (leaveBalances d)" using ids by (metis list.set_map)
    ultimately have "balances_ok (e_cuid e) d'" using d' True bal ids keys by (auto simp: balances_ok_def)
    moreover have "map (\<lambda>b. if balance_at s y ty b then lb_used b else 0) (update_where ?here ?f (leaveBalances d)) =
        map (\<lambda>b. if balance_at s y ty b then lb_used b else 0) (leaveBalances d)" for s y ty
      by (rule map_update_where) (simp add: balance_at_def)
    ultimately show ?thesis using d' True by (auto simp: balance_used_def)
  next
    case False
    then show ?thesis using d' new_balance [OF bal src, of "\<lparr> lb_id = e_cuid e (seq d), lb_tenantId = u_tenantId user, lb_staffId = sf_id staff,
        lb_year = bi_year input, lb_type = bi_type input, lb_allotted = numeric_col 1 (bi_allotted input), lb_used = 0 \<rparr>"]
      by (auto simp: balance_used_def key_of_def balance_at_def)
  qed
  moreover have "leaves_ok (e_cuid e) d'" by (rule leaves_ok_same [OF leaves]) (use d' in \<open>auto split: if_splits\<close>)
  moreover have "leave_used s y ty d' = leave_used s y ty d" for s y ty using d' by (auto simp: leave_used_def split: if_splits)
  ultimately show ?thesis using ok by (simp add: books_ok_def)
qed

text \<open>A decision moves the balance and the status together.\<close>

lemma settle_leave:
  assumes ok: "books_ok (e_cuid e) d" and src: "inj (e_cuid e)" and l: "l \<in> set (leaveRequests d)"
    and lock: "lockBalance e user l d = Inr (b, d1)"
    and change: "(status = ReqApproved \<and> lv_status l = ReqPending \<and> u = lb_used b + lv_days l) \<or>
      (status = ReqCancelled \<and> lv_status l = ReqApproved \<and> u = max 0 (lb_used b - lv_days l))"
    and paid: "lv_type l \<noteq> Unpaid"
  shows "books_ok (e_cuid e) (close_leave e user (lv_id l) status note (set_used b u d1))"
proof -
  let ?k = "(lv_staffId l, fst (lv_fromDate l), lv_type l)"
  let ?d2 = "set_used b u d1"
  have bal: "balances_ok (e_cuid e) d" and leaves: "leaves_ok (e_cuid e) d"
    and eq: "\<And>s y ty. ty \<noteq> Unpaid \<Longrightarrow> balance_used s y ty d = leave_used s y ty d" using ok by (simp_all add: books_ok_def)
  note lk = lockBalance_ok [OF lock bal src]
  then have bal1: "balances_ok (e_cuid e) d1" and b: "b \<in> set (leaveBalances d1)" and key: "key_of b = ?k"
    and d1: "leaveRequests d1 = leaveRequests d" "seq d \<le> seq d1" "\<And>s y ty. balance_used s y ty d1 = balance_used s y ty d" by blast+
  have keys: "lb_staffId b = lv_staffId l" "lb_year b = fst (lv_fromDate l)" "lb_type b = lv_type l" using key by (simp_all add: key_of_def)
  have frame: "leaveRequests ?d2 = leaveRequests d" "seq ?d2 = seq d1" by (simp_all add: set_used_def d1(1))
  have leaves2: "leaves_ok (e_cuid e) ?d2" by (rule leaves_ok_same [OF leaves frame(1)]) (simp add: frame(2) d1(2))
  have used: "lb_used b = leave_used (lv_staffId l) (fst (lv_fromDate l)) (lv_type l) d"
    using balance_row [OF bal1 b] d1(3) eq [OF paid] by (simp add: keys)
  have dec: "decimals 1 (lb_used b)" "decimals 1 (lv_days l)" "0 \<le> lv_days l" using bal1 b leaves l by (auto simp: balances_ok_def leaves_ok_def)
  have cover: "lv_days l \<le> lb_used b" if "lv_status l = ReqApproved"
  proof -
    have "0 \<le> lv_days x" if "x \<in> set (leaveRequests d)" for x using leaves that by (simp add: leaves_ok_def)
    then have "lv_days l \<le> (\<Sum>x\<leftarrow>leaveRequests d. if lv_staffId x = lv_staffId l \<and> fst (lv_fromDate x) = fst (lv_fromDate l) \<and> lv_type x = lv_type l
        \<and> lv_status x = ReqApproved then lv_days x else 0)"
      using l that by (intro order_trans [OF _ member_le_sum_list [of "lv_days l"]]) (auto intro!: image_eqI [of _ _ l])
    then show ?thesis by (simp add: used leave_used_def)
  qed
  have u: "numeric_col 1 u - lb_used b = (if status = ReqApproved then lv_days l else 0) - (if lv_status l = ReqApproved then lv_days l else 0)"
    using change cover dec numeric_col_exact [of 1] decimals_add [OF dec(1,2)] decimals_diff [OF dec(1,2)] by (auto simp: max_def)
  have act: "status \<in> {ReqPending, ReqApproved} \<Longrightarrow> active l" using change by (auto simp: active_def)
  have l2: "l \<in> set (leaveRequests ?d2)" using l by (simp only: frame)
  have cl1: "leaves_ok (e_cuid e) (close_leave e user (lv_id l) status note ?d2)" using act by (rule close_leave_ok(1) [OF leaves2 l2])
  have cl2: "leave_used s y ty (close_leave e user (lv_id l) status note ?d2) = leave_used s y ty ?d2 +
      (if lv_staffId l = s \<and> fst (lv_fromDate l) = y \<and> lv_type l = ty
       then (if status = ReqApproved then lv_days l else 0) - (if lv_status l = ReqApproved then lv_days l else 0) else 0)" for s y ty
    using act by (rule close_leave_ok(2) [OF leaves2 l2])
  have "balance_used s y ty (close_leave e user (lv_id l) status note ?d2) = leave_used s y ty (close_leave e user (lv_id l) status note ?d2)"
    if "ty \<noteq> Unpaid" for s y ty
  proof -
    have "balance_used s y ty (close_leave e user (lv_id l) status note ?d2) = balance_used s y ty ?d2" by (simp add: balance_used_def close_leave_def)
    also have "\<dots> = leave_used s y ty d + (if balance_at s y ty b then numeric_col 1 u - lb_used b else 0)"
      using set_used_ok(2) [OF bal1 b, of s y ty u] d1(3) eq [OF that] by simp
    also have "leave_used s y ty d = leave_used s y ty ?d2" by (simp add: leave_used_def frame)
    finally show ?thesis unfolding cl2 u by (simp add: balance_at_def keys)
  qed
  moreover have "balances_ok (e_cuid e) (close_leave e user (lv_id l) status note ?d2)"
    by (rule balances_ok_same [OF set_used_ok(1) [OF bal1 b, of u]]) (simp_all add: close_leave_def)
  ultimately show ?thesis using cl1 by (simp add: books_ok_def)
qed

lemma close_plain:
  assumes ok: "books_ok src d" and l: "l \<in> set (leaveRequests d)" and act: "status \<in> {ReqPending, ReqApproved} \<Longrightarrow> active l"
    and plain: "lv_type l = Unpaid \<or> (status \<noteq> ReqApproved \<and> lv_status l \<noteq> ReqApproved)"
  shows "books_ok src (close_leave e user (lv_id l) status note d)"
proof -
  have leaves: "leaves_ok src d" and eq: "\<And>s y ty. ty \<noteq> Unpaid \<Longrightarrow> balance_used s y ty d = leave_used s y ty d"
    using ok by (simp_all add: books_ok_def)
  have cl: "leaves_ok src (close_leave e user (lv_id l) status note d)"
    "leave_used s y ty (close_leave e user (lv_id l) status note d) = leave_used s y ty d +
      (if lv_staffId l = s \<and> fst (lv_fromDate l) = y \<and> lv_type l = ty
       then (if status = ReqApproved then lv_days l else 0) - (if lv_status l = ReqApproved then lv_days l else 0) else 0)" for s y ty
    by (rule close_leave_ok [OF leaves l act], assumption)+
  have "balances_ok src (close_leave e user (lv_id l) status note d)"
    by (rule balances_ok_same [of _ d]) (use ok in \<open>simp_all add: books_ok_def close_leave_def\<close>)
  moreover have "balance_used s y ty (close_leave e user (lv_id l) status note d) = leave_used s y ty (close_leave e user (lv_id l) status note d)"
    if "ty \<noteq> Unpaid" for s y ty
  proof -
    have "balance_used s y ty (close_leave e user (lv_id l) status note d) = balance_used s y ty d" by (simp add: balance_used_def close_leave_def)
    then show ?thesis using plain that eq [OF that] unfolding cl(2) by auto
  qed
  ultimately show ?thesis using cl(1) by (simp add: books_ok_def)
qed

lemma decideLeave_ok:
  assumes run: "decideLeave e user outletId i input d = Inr (st, d')" and ok: "books_ok (e_cuid e) d" and src: "inj (e_cuid e)"
  shows "books_ok (e_cuid e) d'"
proof -
  from run obtain l :: leave_row where find: "List.find (\<lambda>l. lv_id l = i \<and> lv_tenantId l = u_tenantId user \<and> lv_outletId l = outletId) (leaveRequests d) = Some l"
    and rest: "(case input of CancelLeave \<Rightarrow> cancel_leave e user l d | DecideLeave dc \<Rightarrow> decide_leave e user l dc d) = Inr (st, d')"
    unfolding decideLeave_def guard_simps by (elim exE conjE) (rule that, assumption, assumption)
  note l = find_SomeD [OF find, THEN conjunct1]
  show ?thesis
  proof (cases input)
    case CancelLeave
    show ?thesis
    proof (cases "lv_status l = ReqApproved \<and> lv_type l \<noteq> Unpaid")
      case True
      with rest CancelLeave obtain b d1 where lock: "lockBalance e user l d = Inr (b, d1)"
        and d': "d' = close_leave e user (lv_id l) ReqCancelled None (set_used b (max 0 (lb_used b - lv_days l)) d1)"
        by (auto simp: cancel_leave_def guard_simps)
      show ?thesis unfolding d' by (rule settle_leave [OF ok src l lock]) (use True in auto)
    next
      case False
      with rest CancelLeave have d': "d' = close_leave e user (lv_id l) ReqCancelled None d" by (auto simp: cancel_leave_def guard_simps)
      show ?thesis unfolding d' by (rule close_plain [OF ok l]) (use False in auto)
    qed
  next
    case (DecideLeave dc)
    with rest have pending: "lv_status l = ReqPending" by (auto simp: decide_leave_def guard_simps)
    show ?thesis
    proof (cases "dc_approve dc \<and> lv_type l \<noteq> Unpaid")
      case True
      with rest DecideLeave obtain b d1 where lock: "lockBalance e user l d = Inr (b, d1)"
        and d': "d' = close_leave e user (lv_id l) ReqApproved (dc_note dc) (set_used b (lb_used b + lv_days l) d1)"
        by (auto simp: decide_leave_def guard_simps Let_def)
      show ?thesis unfolding d' by (rule settle_leave [OF ok src l lock]) (use True pending in auto)
    next
      case False
      with rest DecideLeave have d': "d' = close_leave e user (lv_id l) (if dc_approve dc then ReqApproved else ReqRejected) (dc_note dc) d"
        by (auto simp: decide_leave_def guard_simps split: if_splits)
      show ?thesis unfolding d' by (rule close_plain [OF ok l]) (use False pending in \<open>auto simp: active_def\<close>)
    qed
  qed
qed

inductive leave_step :: "(nat \<Rightarrow> id) \<Rightarrow> db \<Rightarrow> db \<Rightarrow> bool" for src where
  requested: "e_cuid e = src \<Longrightarrow> requestLeave e user outletId input d = Inr (i, d') \<Longrightarrow> valid_date (li_fromDate input) \<Longrightarrow> valid_date (li_toDate input)
    \<Longrightarrow> li_fromDate input \<le> li_toDate input \<Longrightarrow> leave_step src d d'"
| decided: "e_cuid e = src \<Longrightarrow> decideLeave e user outletId i decision d = Inr (st, d') \<Longrightarrow> leave_step src d d'"
| allotted: "e_cuid e = src \<Longrightarrow> setBalance e user outletId allotment d = Inr d' \<Longrightarrow> leave_step src d d'"
| elsewhere: "leaveRequests d' = leaveRequests d \<Longrightarrow> leaveBalances d' = leaveBalances d \<Longrightarrow> seq d \<le> seq d' \<Longrightarrow> leave_step src d d'"

lemma leave_step_ok: "leave_step src d d' \<Longrightarrow> inj src \<Longrightarrow> books_ok src d \<Longrightarrow> books_ok src d'"
proof (induction rule: leave_step.induct)
  case (requested e user outletId input d i d')
  then show ?case using requestLeave_ok by blast
next
  case (decided e user outletId i decision d st d')
  then show ?case using decideLeave_ok by blast
next
  case (allotted e user outletId allotment d d')
  then show ?case using setBalance_ok by blast
next
  case (elsewhere d' d)
  then show ?case using books_ok_same by blast
qed


text \<open>An allotment of twelve days, three of them requested and approved; a request that overlaps them is refused.\<close>

definition allotment0 :: balance_input where
  "allotment0 = \<lparr> bi_staffId = ''w'', bi_year = 2025, bi_type = Casual, bi_allotted = 12 \<rparr>"

definition leave0 :: leave_input where
  "leave0 = \<lparr> li_staffId = ''w'', li_type = Casual, li_fromDate = (2025, 3, 10), li_toDate = (2025, 3, 12), li_halfDay = False, li_reason = None \<rparr>"

definition approve0 :: leave_decision where
  "approve0 = DecideLeave \<lparr> dc_approve = True, dc_note = None \<rparr>"

lemma three_days: "leaveDays (2025, 3, 10) (2025, 3, 12) False = 3"
  by code_simp

lemma approved0:
  obtains d1 i d2 d3 b where "setBalance env0 manager0 ''k'' allotment0 floor_staff0 = Inr d1" and "requestLeave env0 manager0 ''k'' leave0 d1 = Inr (i, d2)"
    and "decideLeave env0 manager0 ''k'' i approve0 d2 = Inr (ReqApproved, d3)" and "leaveBalances d3 = [b]" and "lb_used b = 3" and "lb_type b = Casual"
    and "\<exists>m. requestLeave env0 manager0 ''k'' leave0 d3 = Inl (BadRequest m)"
proof -
  have "\<exists>d1 i d2 d3 b. setBalance env0 manager0 ''k'' allotment0 floor_staff0 = Inr d1 \<and> requestLeave env0 manager0 ''k'' leave0 d1 = Inr (i, d2)
    \<and> decideLeave env0 manager0 ''k'' i approve0 d2 = Inr (ReqApproved, d3) \<and> leaveBalances d3 = [b] \<and> lb_used b = 3 \<and> lb_type b = Casual
    \<and> (\<exists>m. requestLeave env0 manager0 ''k'' leave0 d3 = Inl (BadRequest m))"
    by (simp add: setBalance_def requestLeave_def decideLeave_def decide_leave_def lockBalance_def allotment0_def leave0_def approve0_def floor_staff0_def
        db0_def manager0_def waiter0_def assertOutlet_def assertSelfOrManager_def hasPerm_def fresh_def env0_def new_leave_def three_days numeric_col_exact
        balance_at_def set_used_def close_leave_def set_row_def overlaps_def Let_def require_def)
  then show ?thesis using that by blast
qed


text \<open>An approval never overdraws the balance it is made against.\<close>

theorem approval_within_allotment:
  assumes "decide_leave e user l input d = Inr (ReqApproved, d')" and "lv_type l \<noteq> Unpaid" and "dc_approve input"
  obtains b d1 where "lockBalance e user l d = Inr (b, d1)" and "lb_used b + lv_days l \<le> lb_allotted b"
    and "d' = close_leave e user (lv_id l) ReqApproved (dc_note input) (set_used b (lb_used b + lv_days l) d1)"
  using assms by (auto simp: decide_leave_def guard_simps Let_def)

section \<open>A stale swap\<close>

text \<open>
  \<open>decideSwap\<close> checks that the other shift still belongs to the colleague, but not that the first still belongs to its requester: two
  requests are made to cover the same shift of \<open>''a''\<close>, by \<open>''b''\<close> and by \<open>''c''\<close>. The first approval gives it to \<open>''b''\<close>; the second takes it
  away from \<open>''b''\<close>, who asked for nothing, and gives it to \<open>''c''\<close>.
\<close>

definition shift_of0 :: "id \<Rightarrow> roster_shift_row" where
  "shift_of0 staffId = \<lparr> rs_id = ''s'', rs_tenantId = ''t'', rs_outletId = ''k'', rs_staffId = staffId, rs_date = (2025, 3, 10), rs_templateId = None,
     rs_times = \<lparr> sh_startTime = (9, 0), sh_endTime = (17, 0), sh_breakMinutes = 30, sh_graceMinutes = 10 \<rparr> \<rparr>"

definition cover0 :: "id \<Rightarrow> id \<Rightarrow> swap_row" where
  "cover0 i staffId = \<lparr> sw_id = i, sw_tenantId = ''t'', sw_outletId = ''k'', sw_fromShiftId = ''s'', sw_toStaffId = staffId, sw_toShiftId = None,
     sw_reason = None, sw_status = ReqPending, sw_requestedById = Some ''a'', sw_decidedById = None, sw_decidedAt = None, sw_decisionNote = None \<rparr>"

definition roster0 :: db where
  "roster0 = db0\<lparr> rosterShifts := [shift_of0 ''a''], swapRequests := [cover0 ''x'' ''b'', cover0 ''y'' ''c''] \<rparr>"

theorem stale_swap:
  "\<exists>d1 d2. decideSwap env0 manager0 ''k'' ''x'' \<lparr> dc_approve = True, dc_note = None \<rparr> roster0 = Inr (ReqApproved, d1) \<and> rosterShifts d1 = [shift_of0 ''b'']
    \<and> decideSwap env0 manager0 ''k'' ''y'' \<lparr> dc_approve = True, dc_note = None \<rparr> d1 = Inr (ReqApproved, d2) \<and> rosterShifts d2 = [shift_of0 ''c'']"
  by (simp add: decideSwap_def roster0_def db0_def cover0_def shift_of0_def manager0_def assertOutlet_def require_def swap_shifts_def tenant_shift_def
      clash_def create_shift_def close_swap_def set_row_def shift_at_def Let_def)

end
