(* ===== verification/Printing_Text.thy ===== *)
theory Printing_Text
  imports Prelude
begin

text \<open>
  The text a receipt is made of (\<open>packages/shared/src/printing/codepages.ts\<close> and \<open>layout.ts\<close>): the code pages of thermal
  printers, the transcoding of text to printer bytes, wrapping, columns and amounts. A JavaScript string is the list of its
  UTF-16 code units; iterating over it with \<open>for of\<close> yields code points.
\<close>

type_synonym utext = "nat list"

text \<open>An ASCII literal of the source as code units.\<close>

definition lit :: "string \<Rightarrow> utext" where
  "lit s = map of_char s"

fun codePoints :: "utext \<Rightarrow> nat list" where
  "codePoints [] = []"
| "codePoints [c] = [c]"
| "codePoints (c # d # cs) = (if 0xD800 \<le> c \<and> c < 0xDC00 \<and> 0xDC00 \<le> d \<and> d < 0xE000
     then (0x10000 + (c - 0xD800) * 0x400 + (d - 0xDC00)) # codePoints cs else c # codePoints (d # cs))"

definition code_units :: "nat \<Rightarrow> utext" where
  "code_units c = (if c < 0x10000 then [c] else [0xD800 + (c - 0x10000) div 0x400, 0xDC00 + (c - 0x10000) mod 0x400])"

section \<open>Code pages\<close>

datatype codepage = CP437 | CP850 | CP858

fun CODEPAGE_TABLE :: "codepage \<Rightarrow> nat" where
  "CODEPAGE_TABLE CP437 = 0" | "CODEPAGE_TABLE CP850 = 2" | "CODEPAGE_TABLE CP858 = 19"

text \<open>The glyphs of the bytes 0x80 to 0xFF of each page, as code points.\<close>

definition HIGH_437 :: "nat list" where
  "HIGH_437 = [
   199, 252, 233, 226, 228, 224, 229, 231, 234, 235, 232, 239, 238, 236, 196, 197, 201, 230, 198, 244,
   246, 242, 251, 249, 255, 214, 220, 162, 163, 165, 8359, 402, 225, 237, 243, 250, 241, 209, 170, 186,
   191, 8976, 172, 189, 188, 161, 171, 187, 9617, 9618, 9619, 9474, 9508, 9569, 9570, 9558, 9557, 9571, 9553, 9559,
   9565, 9564, 9563, 9488, 9492, 9524, 9516, 9500, 9472, 9532, 9566, 9567, 9562, 9556, 9577, 9574, 9568, 9552, 9580, 9575,
   9576, 9572, 9573, 9561, 9560, 9554, 9555, 9579, 9578, 9496, 9484, 9608, 9604, 9612, 9616, 9600, 945, 223, 915, 960,
   931, 963, 181, 964, 934, 920, 937, 948, 8734, 966, 949, 8745, 8801, 177, 8805, 8804, 8992, 8993, 247, 8776,
   176, 8729, 183, 8730, 8319, 178, 9632, 160]"

definition HIGH_850 :: "nat list" where
  "HIGH_850 = [
   199, 252, 233, 226, 228, 224, 229, 231, 234, 235, 232, 239, 238, 236, 196, 197, 201, 230, 198, 244,
   246, 242, 251, 249, 255, 214, 220, 248, 163, 216, 215, 402, 225, 237, 243, 250, 241, 209, 170, 186,
   191, 174, 172, 189, 188, 161, 171, 187, 9617, 9618, 9619, 9474, 9508, 193, 194, 192, 169, 9571, 9553, 9559,
   9565, 162, 165, 9488, 9492, 9524, 9516, 9500, 9472, 9532, 227, 195, 9562, 9556, 9577, 9574, 9568, 9552, 9580, 164,
   240, 208, 202, 203, 200, 305, 205, 206, 207, 9496, 9484, 9608, 9604, 166, 204, 9600, 211, 223, 212, 210,
   245, 213, 181, 254, 222, 218, 219, 217, 253, 221, 175, 180, 173, 177, 8215, 190, 182, 167, 247, 184,
   176, 168, 183, 185, 179, 178, 9632, 160]"

definition HIGH_858 :: "nat list" where
  "HIGH_858 = take 0x55 HIGH_850 @ [0x20AC] @ drop 0x56 HIGH_850"

fun HIGH :: "codepage \<Rightarrow> nat list" where
  "HIGH CP437 = HIGH_437" | "HIGH CP850 = HIGH_850" | "HIGH CP858 = HIGH_858"

text \<open>The map from glyphs to bytes; a later glyph overwrites an earlier one.\<close>

definition reverse_page :: "nat list \<Rightarrow> nat \<Rightarrow> nat option" where
  "reverse_page high = map_of (rev (zip high [0x80..<0x80 + length high]))"

definition LOOKUP :: "codepage \<Rightarrow> nat \<Rightarrow> nat option" where
  "LOOKUP cp = reverse_page (HIGH cp)"

definition SUBSTITUTE :: "nat \<Rightarrow> utext option" where
  "SUBSTITUTE = map_of [(0x20B9, lit ''Rs.''), (0x2018, [39]), (0x2019, [39]), (0x201C, [34]), (0x201D, [34]), (0x2013, lit ''-''),
     (0x2014, lit ''-''), (0x2026, lit ''...''), (0x2022, lit ''*''), (0xD7, lit ''x''), (0x2192, lit ''->''), (0x21B3, lit ''>''),
     (0xA0, lit '' ''), (9, lit '' '')]"

definition normalizeReceiptText :: "utext \<Rightarrow> utext" where
  "normalizeReceiptText text = concat (map (\<lambda>ch. or_else (SUBSTITUTE ch) (code_units ch)) (codePoints text))"

text \<open>One character as printer bytes: the native glyph of the page, a stand-in, plain ASCII and newline, a question mark
  for what cannot be printed, and nothing for the other control characters.\<close>

definition encode_char :: "codepage \<Rightarrow> nat \<Rightarrow> nat list" where
  "encode_char cp ch = (case LOOKUP cp ch of Some native \<Rightarrow> [native] | None \<Rightarrow>
     (case SUBSTITUTE ch of Some sub \<Rightarrow> sub | None \<Rightarrow>
        if ch = 0x0A then [ch] else if 0x20 \<le> ch \<and> ch < 0x7F then [ch] else if ch < 0x20 \<or> ch = 0x7F then [] else [0x3F]))"

definition encodeText :: "utext \<Rightarrow> codepage \<Rightarrow> nat list" where
  "encodeText text cp = concat (map (encode_char cp) (codePoints text))"

section \<open>Wrapping\<close>

text \<open>The characters that \<open>\s\<close> matches.\<close>

definition blank_char :: "nat \<Rightarrow> bool" where
  "blank_char c \<longleftrightarrow> 9 \<le> c \<and> c \<le> 13 \<or> c \<in> {32, 160, 5760, 8232, 8233, 8239, 8287, 12288, 65279} \<or> 8192 \<le> c \<and> c \<le> 8202"

text \<open>\<open>replace(/\s+/g, " ")\<close> and \<open>trim()\<close>.\<close>

function collapse :: "utext \<Rightarrow> utext" where
  "collapse [] = []"
| "collapse (c # cs) = (if blank_char c then 32 # collapse (dropWhile blank_char cs) else c # collapse cs)"
  by pat_completeness auto

termination collapse
  by (relation "measure length") (auto simp: le_imp_less_Suc length_dropWhile_le)

definition trim_text :: "utext \<Rightarrow> utext" where
  "trim_text s = rev (dropWhile blank_char (rev (dropWhile blank_char s)))"

text \<open>\<open>split(" ")\<close>.\<close>

fun split_sp :: "utext \<Rightarrow> utext list" where
  "split_sp [] = [[]]"
| "split_sp (c # cs) = (if c = 32 then [] # split_sp cs else (c # hd (split_sp cs)) # tl (split_sp cs))"

text \<open>The inner loop of \<open>wrap\<close>: flush the current line, then cut pieces of a full line off a word that is too long.
  The width is positive, as \<open>wrap\<close> has returned otherwise.\<close>

function break_word :: "nat \<Rightarrow> utext list \<Rightarrow> utext \<Rightarrow> utext \<Rightarrow> utext list \<times> utext \<times> utext" where
  "break_word k ls current w =
     (if 0 < k \<and> length w > k
      then break_word k ((if current \<noteq> [] then ls @ [current] else ls) @ [take k w]) [] (drop k w)
      else (ls, current, w))"
  by pat_completeness auto

termination break_word
  by (relation "measure (\<lambda>(k, ls, current, w). length w)") auto

declare break_word.simps [simp del]

definition wrap_word :: "nat \<Rightarrow> utext list \<times> utext \<Rightarrow> utext \<Rightarrow> utext list \<times> utext" where
  "wrap_word k = (\<lambda>(ls, current) word.
     case break_word k ls current word of (ls, current, w) \<Rightarrow>
       if w = [] then (ls, current)
       else if current = [] then (ls, w)
       else if length current + 1 + length w \<le> k then (ls, current @ [32] @ w)
       else (ls @ [current], w))"

definition wrap :: "utext \<Rightarrow> int \<Rightarrow> utext list" where
  "wrap text width =
    (if width \<le> 0 then []
     else let clean = trim_text (collapse (normalizeReceiptText text))
          in if clean = [] then [[]]
             else case foldl (wrap_word (nat width)) ([], []) (split_sp clean) of (ls, current) \<Rightarrow>
                    if current \<noteq> [] then ls @ [current] else ls)"

section \<open>Rows and amounts\<close>

datatype align = AlignLeft | AlignCenter | AlignRight

definition spaces :: "int \<Rightarrow> utext" where
  "spaces n = replicate (nat n) 32"

definition pad :: "utext \<Rightarrow> int \<Rightarrow> align \<Rightarrow> utext" where
  "pad text width a =
    (let t = (if int (length text) > width then take (nat width) text else text); gap = width - int (length t)
     in case a of AlignRight \<Rightarrow> spaces gap @ t
          | AlignCenter \<Rightarrow> spaces (gap div 2) @ t @ spaces (gap - gap div 2)
          | AlignLeft \<Rightarrow> t @ spaces gap)"

record column =
  co_text :: utext
  co_width :: int
  co_align :: align

text \<open>\<open>parts.join(sep)\<close> and \<open>replace(/\s+$/, "")\<close>.\<close>

fun join :: "utext \<Rightarrow> utext list \<Rightarrow> utext" where
  "join sep [] = []" | "join sep [p] = p" | "join sep (p # q # ps) = p @ sep @ join sep (q # ps)"

definition trim_end :: "utext \<Rightarrow> utext" where
  "trim_end s = rev (dropWhile blank_char (rev s))"

text \<open>A cell shorter than the row is filled with blanks.\<close>

definition cell_at :: "utext list \<Rightarrow> nat \<Rightarrow> utext" where
  "cell_at w row = (if row < length w then w ! row else [])"

definition columns :: "column list \<Rightarrow> int \<Rightarrow> utext list" where
  "columns cells gap =
    (let wrapped = map (\<lambda>c. (c, wrap (co_text c) (co_width c))) cells; height = foldr max (map (length \<circ> snd) wrapped) 0
     in map (\<lambda>row. trim_end (join (spaces gap) (map (\<lambda>(c, w). pad (cell_at w row) (co_width c) (co_align c)) wrapped))) [0..<height])"

definition leftRight :: "utext \<Rightarrow> utext \<Rightarrow> int \<Rightarrow> utext list" where
  "leftRight left right width =
    (let l = normalizeReceiptText left; r = normalizeReceiptText right
     in if int (length l) + 1 + int (length r) \<le> width then [l @ spaces (width - int (length l) - int (length r)) @ r]
        else let leftLines = wrap l (max 1 (width - int (length r) - 1)); final = (if leftLines = [] then [] else last leftLines)
             in butlast leftLines @ [final @ spaces (max 1 (width - int (length final) - int (length r))) @ r])"

text \<open>\<open>\B(?=(\d{2})+(?!\d))\<close>: a comma wherever an even number of digits is left, but not at the start.\<close>

definition group_pairs :: "utext \<Rightarrow> utext" where
  "group_pairs ds = concat (map (\<lambda>i. (if 0 < i \<and> even (length ds - i) then [44] else []) @ [ds ! i]) [0..<length ds])"

definition two_digits :: "nat \<Rightarrow> utext" where
  "two_digits n = [n div 10 + 48, n mod 10 + 48]"

definition formatAmount :: "num \<Rightarrow> utext" where
  "formatAmount value =
    (let n = nat \<bar>js_round (value * 100)\<bar>; whole = lit (nat_digits (n div 100)); dec = two_digits (n mod 100);
         grouped = (if length whole > 3 then group_pairs (take (length whole - 3) whole) @ [44] @ drop (length whole - 3) whole else whole)
     in (if value < 0 then [45] else []) @ grouped @ [46] @ dec)"

datatype paper_width = Paper58 | Paper80

definition charsPerLine :: "paper_width \<Rightarrow> int" where
  "charsPerLine paper = (if paper = Paper58 then 32 else 48)"

section \<open>Bytes\<close>

text \<open>What the printer prints: a line feed, ASCII glyphs and the glyphs of the code page, but no control byte.\<close>

definition printable :: "nat \<Rightarrow> bool" where
  "printable b \<longleftrightarrow> b = 10 \<or> 32 \<le> b \<and> b < 127 \<or> 128 \<le> b \<and> b < 256"

lemma length_HIGH: "length (HIGH cp) = 128"
  by (cases cp) (simp_all add: HIGH_437_def HIGH_850_def HIGH_858_def)

lemma LOOKUP_range: "LOOKUP cp ch = Some b \<Longrightarrow> 128 \<le> b \<and> b < 256"
proof -
  assume "LOOKUP cp ch = Some b"
  then have "(ch, b) \<in> set (zip (HIGH cp) [128..<256])"
    unfolding LOOKUP_def reverse_page_def length_HIGH by (auto dest!: map_of_SomeD simp del: upt_rec_numeral)
  then have "b \<in> set [128..<256]" by (rule set_zip_rightD)
  then show ?thesis by (simp del: upt_rec_numeral)
qed

lemma SUBSTITUTE_ascii: "SUBSTITUTE ch = Some sub \<Longrightarrow> \<forall>b \<in> set sub. 32 \<le> b \<and> b < 127"
  unfolding SUBSTITUTE_def by (drule map_of_SomeD) (auto simp: lit_def)

lemma encode_char_printable: "b \<in> set (encode_char cp ch) \<Longrightarrow> printable b"
  unfolding encode_char_def printable_def
  by (auto split: option.splits if_splits dest: LOOKUP_range SUBSTITUTE_ascii)

text \<open>Text a user enters never reaches the printer as a command: whatever characters it holds, its bytes are line feeds and printable
  glyphs of the selected page, and an escape or another control character is dropped.\<close>

theorem encodeText_printable: "list_all printable (encodeText text cp)"
  by (auto simp: list_all_iff encodeText_def dest: encode_char_printable)

section \<open>Wrapping keeps every character\<close>

abbreviation ink :: "utext \<Rightarrow> utext" where
  "ink \<equiv> filter (\<lambda>c. \<not> blank_char c)"

lemma blank_char_32 [simp]: "blank_char 32"
  by (simp add: blank_char_def)

lemma ink_dropWhile [simp]: "ink (dropWhile blank_char s) = ink s"
  by (induction s) auto

lemma ink_collapse [simp]: "ink (collapse s) = ink s"
  by (induction s rule: collapse.induct) auto

lemma ink_trim [simp]: "ink (trim_text s) = ink s"
  by (metis ink_dropWhile rev_filter rev_rev_ident trim_text_def)

lemma split_sp_not_Nil [simp]: "split_sp s \<noteq> []"
  by (induction s) simp_all

lemma ink_split_sp: "ink (concat (split_sp s)) = ink s"
proof (induction s)
  case (Cons c cs)
  then show ?case by (cases "split_sp cs") (auto dest: split_sp_not_Nil [THEN notE])
qed simp

lemma break_word_ink:
  "break_word k ls current w = (ls', current', w') \<Longrightarrow>
    ink (concat ls') @ ink current' @ ink w' = ink (concat ls) @ ink current @ ink w"
proof (induction k ls current w rule: break_word.induct)
  case (1 k ls current w)
  have cut: "ink (take k w) @ ink (drop k w) = ink w" by (metis append_take_drop_id filter_append)
  show ?case
  proof (cases "0 < k \<and> length w > k")
    case True
    have "break_word k ((if current \<noteq> [] then ls @ [current] else ls) @ [take k w]) [] (drop k w) = (ls', current', w')"
      using 1(2) True by (simp add: break_word.simps [of k ls])
    from 1(1) [OF True this] cut show ?thesis by simp
  next
    case False
    with 1(2) show ?thesis by (simp add: break_word.simps [of k ls])
  qed
qed

lemma wrap_word_ink: "wrap_word k (ls, current) w = (ls', current') \<Longrightarrow> ink (concat ls') @ ink current' = ink (concat ls) @ ink current @ ink w"
  by (auto simp: wrap_word_def split: prod.splits if_splits dest!: break_word_ink)

lemma wrap_fold_ink:
  "foldl (wrap_word k) (ls, current) ws = (ls', current') \<Longrightarrow> ink (concat ls') @ ink current' = ink (concat ls) @ ink current @ ink (concat ws)"
proof (induction ws arbitrary: ls current)
  case (Cons w ws)
  obtain l c where step: "wrap_word k (ls, current) w = (l, c)" by fastforce
  from Cons.IH [of l c] Cons.prems step wrap_word_ink [OF step] show ?case by simp
qed simp

text \<open>Wrapping loses no character and invents none: read in order and without blanks, the lines are the text.\<close>

theorem wrap_keeps_text:
  assumes "0 < width"
  shows "ink (concat (wrap text width)) = ink (normalizeReceiptText text)"
proof -
  define clean where "clean = trim_text (collapse (normalizeReceiptText text))"
  have clean: "ink clean = ink (normalizeReceiptText text)" by (simp add: clean_def)
  obtain ls current where fold: "foldl (wrap_word (nat width)) ([], []) (split_sp clean) = (ls, current)" by fastforce
  from wrap_fold_ink [OF fold] have "ink (concat ls) @ ink current = ink clean" by (simp add: ink_split_sp)
  with assms fold clean show ?thesis by (auto simp: wrap_def clean_def [symmetric] Let_def)
qed

theorem wrap_keeps_text_witness: "ink (concat (wrap (lit ''a bc'') 2)) = ink (normalizeReceiptText (lit ''a bc''))"
  by (rule wrap_keeps_text) simp

section \<open>Widths\<close>

lemma break_word_width:
  "break_word k ls current w = (ls', current', w') \<Longrightarrow> 0 < k \<Longrightarrow> \<forall>l \<in> set ls. length l \<le> k \<Longrightarrow> length current \<le> k \<Longrightarrow>
    (\<forall>l \<in> set ls'. length l \<le> k) \<and> length current' \<le> k \<and> length w' \<le> k"
proof (induction k ls current w rule: break_word.induct)
  case (1 k ls current w)
  show ?case
  proof (cases "0 < k \<and> length w > k")
    case True
    have "break_word k ((if current \<noteq> [] then ls @ [current] else ls) @ [take k w]) [] (drop k w) = (ls', current', w')"
      using 1(2) True by (simp add: break_word.simps [of k ls])
    then show ?thesis by (rule 1(1) [OF True]) (use 1(3-5) in auto)
  next
    case False
    with 1(2-5) show ?thesis by (auto simp: break_word.simps [of k ls])
  qed
qed

lemma wrap_word_width:
  "wrap_word k (ls, current) w = (ls', current') \<Longrightarrow> 0 < k \<Longrightarrow> \<forall>l \<in> set ls. length l \<le> k \<Longrightarrow> length current \<le> k \<Longrightarrow>
    (\<forall>l \<in> set ls'. length l \<le> k) \<and> length current' \<le> k"
  by (auto simp: wrap_word_def split: prod.splits if_splits dest!: break_word_width)

lemma wrap_fold_width:
  "foldl (wrap_word k) (ls, current) ws = (ls', current') \<Longrightarrow> 0 < k \<Longrightarrow> \<forall>l \<in> set ls. length l \<le> k \<Longrightarrow> length current \<le> k \<Longrightarrow>
    (\<forall>l \<in> set ls'. length l \<le> k) \<and> length current' \<le> k"
proof (induction ws arbitrary: ls current)
  case (Cons w ws)
  obtain l c where step: "wrap_word k (ls, current) w = (l, c)" by fastforce
  from Cons.IH [of l c] Cons.prems step wrap_word_width [OF step] show ?case by simp
qed simp

text \<open>No line of a wrapped text is wider than asked for.\<close>

lemma wrap_width:
  assumes "l \<in> set (wrap text width)" shows "int (length l) \<le> width"
proof -
  define clean where "clean = trim_text (collapse (normalizeReceiptText text))"
  obtain ls current where fold: "foldl (wrap_word (nat width)) ([], []) (split_sp clean) = (ls, current)" by fastforce
  from assms have "0 < width" by (auto simp: wrap_def split: if_splits)
  with wrap_fold_width [OF fold] have "(\<forall>l \<in> set ls. length l \<le> nat width) \<and> length current \<le> nat width" by simp
  with assms fold \<open>0 < width\<close> have "length l \<le> nat width" by (auto simp: wrap_def clean_def [symmetric] Let_def split: if_splits)
  with \<open>0 < width\<close> show ?thesis by simp
qed

lemma length_spaces [simp]: "length (spaces n) = nat n"
  by (simp add: spaces_def)

lemma length_pad [simp]: "0 \<le> width \<Longrightarrow> length (pad text width a) = nat width"
  by (cases a) (auto simp: pad_def Let_def)

lemma length_dropWhile_rev: "length (rev (dropWhile P (rev s))) \<le> length s"
  by (metis length_dropWhile_le length_rev)

lemma length_trim_end: "length (trim_end s) \<le> length s"
  unfolding trim_end_def by (rule length_dropWhile_rev)

lemma length_join: "ps \<noteq> [] \<Longrightarrow> int (length (join sep ps)) = (\<Sum>p\<leftarrow>ps. int (length p)) + int (length sep) * (int (length ps) - 1)"
  by (induction sep ps rule: join.induct) (simp_all add: algebra_simps)

text \<open>A row is at most as wide as its columns and the gaps between them.\<close>

lemma columns_width:
  assumes line: "l \<in> set (columns cells gap)" and widths: "\<forall>c \<in> set cells. 0 \<le> co_width c" and "0 \<le> gap" "cells \<noteq> []"
  shows "int (length l) \<le> (\<Sum>c\<leftarrow>cells. co_width c) + gap * (int (length cells) - 1)"
proof -
  define wrapped where "wrapped = map (\<lambda>c. (c, wrap (co_text c) (co_width c))) cells"
  from line obtain row where l: "l = trim_end (join (spaces gap) (map (\<lambda>(c, w). pad (cell_at w row) (co_width c) (co_align c)) wrapped))"
    by (auto simp: columns_def wrapped_def [symmetric] Let_def)
  define parts where "parts = map (\<lambda>c. pad (cell_at (wrap (co_text c) (co_width c)) row) (co_width c) (co_align c)) cells"
  have parts: "map (\<lambda>(c, w). pad (cell_at w row) (co_width c) (co_align c)) wrapped = parts" by (simp add: wrapped_def parts_def)
  have sum: "(\<Sum>p\<leftarrow>parts. int (length p)) = (\<Sum>c\<leftarrow>cells. co_width c)"
    using widths unfolding parts_def by (simp add: o_def cong: map_cong)
  have "parts \<noteq> []" "length parts = length cells" using \<open>cells \<noteq> []\<close> by (simp_all add: parts_def)
  with length_join [of parts "spaces gap"] sum \<open>0 \<le> gap\<close>
  have "int (length (join (spaces gap) parts)) = (\<Sum>c\<leftarrow>cells. co_width c) + gap * (int (length cells) - 1)" by simp
  then show ?thesis using length_trim_end [of "join (spaces gap) parts"] unfolding l parts by linarith
qed

text \<open>A label and a value share a line of the paper whenever the value leaves two characters for the label.\<close>

lemma leftRight_width:
  assumes "l \<in> set (leftRight left right width)" and "int (length (normalizeReceiptText right)) + 2 \<le> width"
  shows "int (length l) \<le> width"
proof -
  define a r where "a = normalizeReceiptText left" and "r = normalizeReceiptText right"
  define ls where "ls = wrap a (max 1 (width - int (length r) - 1))"
  have short: "int (length x) \<le> width - int (length r) - 1" if "x \<in> set ls" for x
    using wrap_width [OF that [unfolded ls_def]] assms(2) unfolding r_def [symmetric] by simp
  have final: "int (length (if ls = [] then [] else last ls)) \<le> width - int (length r) - 1"
    using short [of "last ls"] assms(2) unfolding r_def [symmetric] by simp
  show ?thesis
  proof (cases "int (length a) + 1 + int (length r) \<le> width")
    case True
    with assms(1) show ?thesis by (auto simp: leftRight_def Let_def a_def [symmetric] r_def [symmetric])
  next
    case False
    with assms(1) have "l \<in> set (butlast ls) \<or>
        l = (if ls = [] then [] else last ls) @ spaces (max 1 (width - int (length (if ls = [] then [] else last ls)) - int (length r))) @ r"
      unfolding leftRight_def Let_def a_def [symmetric] r_def [symmetric] ls_def [symmetric] by (auto split: if_splits)
    then show ?thesis
    proof
      assume "l \<in> set (butlast ls)"
      then have "l \<in> set ls" by (rule in_set_butlastD)
      from short [OF this] show ?thesis by simp
    next
      assume "l = (if ls = [] then [] else last ls) @ spaces (max 1 (width - int (length (if ls = [] then [] else last ls)) - int (length r))) @ r"
      with final show ?thesis by simp
    qed
  qed
qed

section \<open>Amounts read back\<close>

text \<open>Reading an amount: the sign, then the digits without the grouping commas and the point, in paise.\<close>

definition digits_num :: "utext \<Rightarrow> nat" where
  "digits_num s = foldl (\<lambda>a c. a * 10 + (c - 48)) 0 s"

definition read_amount :: "utext \<Rightarrow> num" where
  "read_amount s =
    (let v = of_nat (digits_num (filter (\<lambda>c. c \<noteq> 44 \<and> c \<noteq> 46 \<and> c \<noteq> 45) s)) / 100
     in if s \<noteq> [] \<and> hd s = 45 then - v else v)"

lemma digits_num_append: "digits_num (s @ [c]) = digits_num s * 10 + (c - 48)"
  by (simp add: digits_num_def)

lemma digits_num_lit: "digits_num (lit (nat_digits n)) = n"
  using digits_value_nat_digits [of n] by (simp add: digits_num_def lit_def digits_value_def foldl_map)

lemma lit_digit: "c \<in> set (lit (nat_digits n)) \<Longrightarrow> 48 \<le> c \<and> c \<le> 57"
  by (auto simp: lit_def dest!: nat_digits_digit)

lemma filter_group_pairs:
  assumes "\<forall>c \<in> set ds. P c" and "\<not> P 44"
  shows "filter P (group_pairs ds) = ds"
proof -
  have "filter P (group_pairs ds) = concat (map (\<lambda>i. [ds ! i]) [0..<length ds])"
    using assms unfolding group_pairs_def filter_concat map_map
    by (intro arg_cong [where f = concat] map_cong) auto
  also have "\<dots> = ds" by (simp add: concat_map_singleton map_nth)
  finally show ?thesis .
qed

lemma set_group_pairs: "set (group_pairs ds) \<subseteq> insert 44 (set ds)"
  by (auto simp: group_pairs_def split: if_splits)

lemma digits_num_two_digits: "digits_num (s @ two_digits m) = digits_num s * 100 + m"
  using div_mult_mod_eq [of m 10] by (simp add: two_digits_def digits_num_def)

lemma two_digits_ok: "n < 100 \<Longrightarrow> c \<in> set (two_digits n) \<Longrightarrow> 48 \<le> c \<and> c \<le> 57"
  by (auto simp: two_digits_def)

text \<open>Printed amounts are exact: reading back the digits of a printed amount, with its Indian grouping and its sign, gives the amount
  rounded to the paisa.\<close>

theorem formatAmount_read: "read_amount (formatAmount value) = of_int (js_round (value * 100)) / 100"
proof -
  define n where "n = nat \<bar>js_round (value * 100)\<bar>"
  define w where "w = lit (nat_digits (n div 100))"
  define g where "g = (if length w > 3 then group_pairs (take (length w - 3) w) @ [44] @ drop (length w - 3) w else w)"
  define P where "P = (\<lambda>c::nat. c \<noteq> 44 \<and> c \<noteq> 46 \<and> c \<noteq> 45)"
  have shape: "formatAmount value = (if value < 0 then [45] else []) @ g @ [46] @ two_digits (n mod 100)"
    by (simp only: formatAmount_def Let_def n_def w_def g_def)
  have "\<not> P 44" "\<not> P 45" "\<not> P 46" by (simp_all add: P_def)
  have digits: "\<forall>c \<in> set w. P c" by (auto simp: w_def P_def dest: lit_digit)
  have "\<forall>c \<in> set (take k w). P c" "\<forall>c \<in> set (drop k w). P c" for k
    using digits by (auto dest: in_set_takeD in_set_dropD)
  then have "filter P (group_pairs (take k w)) = take k w" "filter P (drop k w) = drop k w" for k
    using filter_group_pairs [of "take k w" P] \<open>\<not> P 44\<close> by simp_all
  with digits \<open>\<not> P 44\<close> have "filter P g = w" unfolding g_def by simp
  moreover have "filter P (two_digits (n mod 100)) = two_digits (n mod 100)"
  proof (rule filter_True, rule ballI)
    fix c assume c: "c \<in> set (two_digits (n mod 100))"
    have "n mod 100 < 100" by (rule mod_less_divisor) simp
    from two_digits_ok [OF this c] show "P c" unfolding P_def by force
  qed
  ultimately have kept: "filter P (formatAmount value) = w @ two_digits (n mod 100)"
    unfolding shape using \<open>\<not> P 45\<close> \<open>\<not> P 46\<close> by simp
  have "digits_num (w @ two_digits (n mod 100)) = n div 100 * 100 + n mod 100"
    unfolding digits_num_two_digits unfolding w_def digits_num_lit ..
  also have "\<dots> = n" by (rule div_mult_mod_eq)
  finally have "digits_num (w @ two_digits (n mod 100)) = n" .
  then have v: "digits_num (filter P (formatAmount value)) = n" by (simp add: kept)
  have sign: "formatAmount value \<noteq> [] \<and> hd (formatAmount value) = 45 \<longleftrightarrow> value < 0"
  proof -
    have "w \<noteq> []" unfolding w_def lit_def by (subst nat_digits.simps) simp
    then have "g \<noteq> []" by (auto simp: g_def)
    moreover have "set g \<subseteq> insert 44 (set w)"
      unfolding g_def using set_group_pairs [of "take (length w - 3) w"] by (auto dest: in_set_takeD in_set_dropD)
    ultimately have first: "hd g \<in> insert 44 (set w)" using hd_in_set by blast
    have "hd g \<noteq> 45"
    proof
      assume "hd g = 45"
      with first have "45 \<in> set w" by simp
      with digits have "P 45" by blast
      with \<open>\<not> P 45\<close> show False ..
    qed
    with \<open>g \<noteq> []\<close> have "g \<noteq> []" "hd g \<noteq> 45" by simp_all
    then show ?thesis by (simp add: shape)
  qed
  have "js_round (value * 100) \<le> 0" if "value < 0"
    using js_round_mono [of "value * 100" 0] that by simp
  moreover have "0 \<le> js_round (value * 100)" if "\<not> value < 0"
    using js_round_nonneg [of "value * 100"] that by simp
  ultimately show ?thesis
    using sign v unfolding read_amount_def P_def [symmetric] Let_def by (auto simp: n_def)
qed

end
