(* ===== verification/Escpos.thy ===== *)
theory Escpos
  imports Printing_Text "HOL-Library.Word"
begin

text \<open>
  The ESC/POS encoder (\<open>packages/shared/src/printing/escpos.ts\<close>) and the encoding of a laid-out document (\<open>encodePrintDoc\<close> of
  \<open>document.ts\<close>), with the reader of the command stream a printer is, and the round trip between the two. Bytes are words of
  eight bits, so that the masks of the code are the wrap-around of the type.
\<close>

type_synonym byte = "8 word"

section \<open>The encoder\<close>

record encoder =
  en_bytes :: "byte list"
  en_cp :: codepage

definition newEncoder :: encoder where
  "newEncoder = \<lparr> en_bytes = [], en_cp = CP437 \<rparr>"

definition clampInt :: "num \<Rightarrow> int \<Rightarrow> int \<Rightarrow> nat" where
  "clampInt n lo hi = nat (min hi (max lo (js_round n)))"

definition raw :: "nat list \<Rightarrow> encoder \<Rightarrow> encoder" where
  "raw bs e = e\<lparr>en_bytes := en_bytes e @ map of_nat bs\<rparr>"

definition initialize :: "encoder \<Rightarrow> encoder" where
  "initialize = raw [0x1b, 0x40]"

definition select_codepage :: "codepage \<Rightarrow> encoder \<Rightarrow> encoder" where
  "select_codepage cp e = raw [0x1b, 0x74, CODEPAGE_TABLE cp] (e\<lparr>en_cp := cp\<rparr>)"

definition text_bytes :: "utext \<Rightarrow> encoder \<Rightarrow> encoder" where
  "text_bytes value e = raw (encodeText value (en_cp e)) e"

definition newline :: "encoder \<Rightarrow> encoder" where
  "newline = raw [0x0a]"

definition line :: "utext \<Rightarrow> encoder \<Rightarrow> encoder" where
  "line value e = newline (text_bytes value e)"

definition bold :: "bool \<Rightarrow> encoder \<Rightarrow> encoder" where
  "bold on = raw [0x1b, 0x45, if on then 1 else 0]"

definition underline :: "nat \<Rightarrow> encoder \<Rightarrow> encoder" where
  "underline n = raw [0x1b, 0x2d, n]"

definition invert :: "bool \<Rightarrow> encoder \<Rightarrow> encoder" where
  "invert on = raw [0x1d, 0x42, if on then 1 else 0]"

fun align_code :: "align \<Rightarrow> nat" where
  "align_code AlignLeft = 0" | "align_code AlignCenter = 1" | "align_code AlignRight = 2"

definition justify :: "align \<Rightarrow> encoder \<Rightarrow> encoder" where
  "justify a = raw [0x1b, 0x61, align_code a]"

definition char_size :: "int \<Rightarrow> int \<Rightarrow> encoder \<Rightarrow> encoder" where
  "char_size width height =
    (let w = clampInt (of_int width) 1 8 - 1; h = clampInt (of_int height) 1 8 - 1 in raw [0x1d, 0x21, or (push_bit 4 w) h])"

definition font :: "bool \<Rightarrow> encoder \<Rightarrow> encoder" where
  "font condensed = raw [0x1b, 0x4d, if condensed then 1 else 0]"

definition feed :: "int \<Rightarrow> encoder \<Rightarrow> encoder" where
  "feed lines = raw [0x1b, 0x64, clampInt (of_int lines) 0 255]"

definition rule_line :: "int \<Rightarrow> nat \<Rightarrow> encoder \<Rightarrow> encoder" where
  "rule_line width ch = line (replicate (nat (max 0 width)) ch)"

datatype qr_error_level = LevelL | LevelM | LevelQ | LevelH

fun error_level_code :: "qr_error_level \<Rightarrow> nat" where
  "error_level_code LevelL = 48" | "error_level_code LevelM = 49" | "error_level_code LevelQ = 50" | "error_level_code LevelH = 51"

text \<open>\<open>charCodeAt(0)\<close> of every character.\<close>

definition char_codes :: "utext \<Rightarrow> nat list" where
  "char_codes s = map (hd \<circ> code_units) (codePoints s)"

definition qrcode :: "utext \<Rightarrow> nat \<Rightarrow> int option \<Rightarrow> qr_error_level \<Rightarrow> encoder \<Rightarrow> encoder" where
  "qrcode data model sz level e =
    (let payload = char_codes data; storeLen = length payload + 3
     in raw [0x1d, 0x28, 0x6b, 0x03, 0x00, 0x31, 0x51, 0x30]
        (raw payload
        (raw [0x1d, 0x28, 0x6b, storeLen, drop_bit 8 storeLen, 0x31, 0x50, 0x30]
        (raw [0x1d, 0x28, 0x6b, 0x03, 0x00, 0x31, 0x45, error_level_code level]
        (raw [0x1d, 0x28, 0x6b, 0x03, 0x00, 0x31, 0x43, clampInt (of_int (or_else sz 6)) 1 16]
        (raw [0x1d, 0x28, 0x6b, 0x04, 0x00, 0x31, 0x41, if model = 1 then 49 else 50, 0x00] e))))))"

datatype barcode_type = CODE128 | CODE39 | EAN13

fun barcode_code :: "barcode_type \<Rightarrow> nat" where
  "barcode_code CODE128 = 73" | "barcode_code CODE39 = 69" | "barcode_code EAN13 = 67"

definition ean13_ok :: "utext \<Rightarrow> bool" where
  "ean13_ok data \<longleftrightarrow> (\<forall>c \<in> set data. 48 \<le> c \<and> c \<le> 57) \<and> length data \<in> {12, 13}"

definition code39_ok :: "utext \<Rightarrow> bool" where
  "code39_ok data \<longleftrightarrow> data \<noteq> [] \<and> (\<forall>c \<in> set data. 48 \<le> c \<and> c \<le> 57 \<or> 65 \<le> c \<and> c \<le> 90 \<or> c \<in> set (lit '' -.$/+%''))"

text \<open>The errors are plain \<open>Error\<close>s with a message.\<close>

type_synonym encoded = "string + encoder"

definition barcode :: "utext \<Rightarrow> barcode_type \<Rightarrow> int \<Rightarrow> int \<Rightarrow> nat \<Rightarrow> encoder \<Rightarrow> encoded" where
  "barcode data type height width hri e =
    (if type = EAN13 \<and> \<not> ean13_ok data then Inl ''EAN13 needs 12 or 13 digits''
     else if type = CODE39 \<and> \<not> code39_ok data then Inl ''CODE39 supports 0-9 A-Z and -.$/+% space''
     else let body = (if type = CODE128 then lit ''{B'' @ data else data); bytes = map (\<lambda>c. c mod 128) (char_codes body)
          in if length bytes > 255 then Inl ''Barcode data too long''
             else Inr (raw bytes
               (raw [0x1d, 0x6b, barcode_code type, length bytes]
               (raw [0x1d, 0x77, clampInt (of_int width) 2 6]
               (raw [0x1d, 0x68, clampInt (of_int height) 1 255]
               (raw [0x1d, 0x48, hri] e))))))"

definition cut :: "bool \<Rightarrow> encoder \<Rightarrow> encoder" where
  "cut full = raw [0x1d, 0x56, if full then 0 else 1]"

definition pulse :: "nat \<Rightarrow> int \<Rightarrow> int \<Rightarrow> encoder \<Rightarrow> encoder" where
  "pulse pin onMs offMs = raw [0x1b, 0x70, pin, clampInt (of_int onMs / 2) 0 255, clampInt (of_int offMs / 2) 0 255]"

section \<open>Documents\<close>

record text_style =
  st_align :: "align option"
  st_bold :: bool
  st_invert :: bool
  st_size :: "(int \<times> int) option"

datatype print_op =
    OpText utext text_style
  | OpRule "nat option"
  | OpQr utext "int option"
  | OpBarcode utext barcode_type
  | OpFeed int
  | OpCut
  | OpDrawer

record print_doc =
  pd_paperWidth :: paper_width
  pd_width :: int
  pd_ops :: "print_op list"

definition encode_text_op :: "utext \<Rightarrow> text_style \<Rightarrow> encoder \<Rightarrow> encoder" where
  "encode_text_op text st e =
    (case or_else (st_size st) (1, 1) of (w, h) \<Rightarrow>
     let e1 = justify (or_else (st_align st) AlignLeft) e;
         e2 = (if st_bold st then bold True e1 else e1);
         e3 = (if st_invert st then invert True e2 else e2);
         e4 = (if w \<noteq> 1 \<or> h \<noteq> 1 then char_size w h e3 else e3);
         e5 = line text e4;
         e6 = (if w \<noteq> 1 \<or> h \<noteq> 1 then char_size 1 1 e5 else e5);
         e7 = (if st_invert st then invert False e6 else e6)
     in (if st_bold st then bold False e7 else e7))"

fun encode_op :: "int \<Rightarrow> bool \<Rightarrow> print_op \<Rightarrow> encoder \<Rightarrow> encoded" where
  "encode_op width first (OpText text st) e = Inr (encode_text_op text st e)"
| "encode_op width first (OpRule ch) e = Inr (rule_line width (or_else ch 45) (justify AlignLeft e))"
| "encode_op width first (OpQr data sz) e = Inr (justify AlignLeft (newline (qrcode data 2 sz LevelM (justify AlignCenter e))))"
| "encode_op width first (OpBarcode data type) e =
     (case barcode data type 80 2 2 (justify AlignCenter e) of Inl m \<Rightarrow> Inl m | Inr e1 \<Rightarrow> Inr (justify AlignLeft (newline e1)))"
| "encode_op width first (OpFeed lines) e = Inr (feed lines e)"
| "encode_op width first OpCut e = Inr (cut False e)"
| "encode_op width first OpDrawer e = Inr (if first then pulse 0 100 200 e else e)"

fun encode_ops :: "int \<Rightarrow> bool \<Rightarrow> print_op list \<Rightarrow> encoder \<Rightarrow> encoded" where
  "encode_ops width first [] e = Inr e"
| "encode_ops width first (op # ops) e = (case encode_op width first op e of Inl m \<Rightarrow> Inl m | Inr e1 \<Rightarrow> encode_ops width first ops e1)"

fun encode_copies :: "print_doc \<Rightarrow> codepage \<Rightarrow> bool list \<Rightarrow> encoder \<Rightarrow> encoded" where
  "encode_copies doc cp [] e = Inr e"
| "encode_copies doc cp (first # cs) e =
     (case encode_ops (pd_width doc) first (pd_ops doc) (select_codepage cp (initialize e)) of Inl m \<Rightarrow> Inl m | Inr e1 \<Rightarrow> encode_copies doc cp cs e1)"

text \<open>The drawer is kicked in the first copy only.\<close>

definition encodePrintDoc :: "print_doc \<Rightarrow> codepage option \<Rightarrow> int option \<Rightarrow> string + byte list" where
  "encodePrintDoc doc cp copies =
    (case encode_copies doc (or_else cp CP437) (map (\<lambda>c. c = 0) [0..<nat (max 1 (or_else copies 1))]) newEncoder of
       Inl m \<Rightarrow> Inl m | Inr e \<Rightarrow> Inr (en_bytes e))"

section \<open>The printer's reading of the stream\<close>

text \<open>
  A printer reads commands off the stream: an escape or group separator starts one, its letter says how many bytes belong to it,
  and everything else is a glyph. The reader refuses bytes that are neither.
\<close>

datatype command =
    Initialize
  | EscCommand byte byte
  | Pulse byte byte byte
  | GsCommand byte byte
  | SymbolFunction "byte list"
  | PrintBarcode byte "byte list"
  | Glyph byte

definition esc_letters :: "byte list" where
  "esc_letters = [0x74, 0x45, 0x2d, 0x61, 0x4d, 0x64]"

definition gs_letters :: "byte list" where
  "gs_letters = [0x42, 0x21, 0x48, 0x68, 0x77, 0x56]"

definition counted :: "nat \<Rightarrow> byte list \<Rightarrow> (byte list \<times> byte list) option" where
  "counted n bs = (if n \<le> length bs then Some (take n bs, drop n bs) else None)"

fun peel_esc :: "byte list \<Rightarrow> (command \<times> byte list) option" where
  "peel_esc (c # n # rest) =
     (if c = 0x40 then Some (Initialize, n # rest)
      else if c \<in> set esc_letters then Some (EscCommand c n, rest)
      else if c = 0x70 then (case rest of t1 # t2 # rest' \<Rightarrow> Some (Pulse n t1 t2, rest') | _ \<Rightarrow> None)
      else None)"
| "peel_esc [c] = (if c = 0x40 then Some (Initialize, []) else None)"
| "peel_esc [] = None"

fun peel_gs :: "byte list \<Rightarrow> (command \<times> byte list) option" where
  "peel_gs (c # n # rest) =
     (if c \<in> set gs_letters then Some (GsCommand c n, rest)
      else if c = 0x28 \<and> n = 0x6b then
        (case rest of pL # pH # rest' \<Rightarrow> map_option (map_prod SymbolFunction id) (counted (unat pL + 256 * unat pH) rest') | _ \<Rightarrow> None)
      else if c = 0x6b then
        (case rest of k # rest' \<Rightarrow> map_option (map_prod (PrintBarcode n) id) (counted (unat k) rest') | _ \<Rightarrow> None)
      else None)"
| "peel_gs bs = None"

fun peel :: "byte list \<Rightarrow> (command \<times> byte list) option" where
  "peel [] = None"
| "peel (b # rest) =
     (if b = 0x1b then peel_esc rest else if b = 0x1d then peel_gs rest
      else if printable (unat b) then Some (Glyph b, rest) else None)"

lemma counted_shorter: "counted n bs = Some (xs, rest) \<Longrightarrow> length rest \<le> length bs"
  by (auto simp: counted_def split: if_splits)

lemma peel_esc_shorter: "peel_esc bs = Some (c, rest) \<Longrightarrow> length rest < length bs"
  by (cases bs rule: peel_esc.cases) (auto split: if_splits list.splits)

lemma peel_gs_shorter: "peel_gs bs = Some (c, rest) \<Longrightarrow> length rest < length bs"
  by (cases bs rule: peel_gs.cases) (auto split: if_splits list.splits dest!: counted_shorter)

lemma peel_shorter: "peel bs = Some (c, rest) \<Longrightarrow> length rest < length bs"
  by (cases bs) (auto split: if_splits dest!: peel_esc_shorter peel_gs_shorter)

function read_stream :: "byte list \<Rightarrow> command list option" where
  "read_stream bs = (if bs = [] then Some []
     else case peel bs of None \<Rightarrow> None | Some (c, rest) \<Rightarrow> map_option ((#) c) (read_stream rest))"
  by pat_completeness auto

termination read_stream
  by (relation "measure length") (auto dest: peel_shorter)

declare read_stream.simps [simp del]

text \<open>The bytes of a command.\<close>

fun write_command :: "command \<Rightarrow> byte list" where
  "write_command Initialize = [0x1b, 0x40]"
| "write_command (EscCommand c n) = [0x1b, c, n]"
| "write_command (Pulse m t1 t2) = [0x1b, 0x70, m, t1, t2]"
| "write_command (GsCommand c n) = [0x1d, c, n]"
| "write_command (SymbolFunction ps) = [0x1d, 0x28, 0x6b, of_nat (length ps), of_nat (drop_bit 8 (length ps))] @ ps"
| "write_command (PrintBarcode m ps) = [0x1d, 0x6b, m, of_nat (length ps)] @ ps"
| "write_command (Glyph b) = [b]"

fun proper :: "command \<Rightarrow> bool" where
  "proper (EscCommand c n) \<longleftrightarrow> c \<in> set esc_letters"
| "proper (GsCommand c n) \<longleftrightarrow> c \<in> set gs_letters"
| "proper (SymbolFunction ps) \<longleftrightarrow> length ps < 65536"
| "proper (PrintBarcode m ps) \<longleftrightarrow> length ps < 256"
| "proper (Glyph b) \<longleftrightarrow> printable (unat b)"
| "proper c \<longleftrightarrow> True"

lemma length_bytes: "n < 65536 \<Longrightarrow> unat (of_nat n :: byte) + 256 * unat (of_nat (drop_bit 8 n) :: byte) = n"
proof -
  assume "n < 65536"
  then have "n div 256 < 256" by simp
  then have "n div 256 mod 256 = n div 256" by simp
  then show ?thesis by (simp add: unat_of_nat drop_bit_eq_div)
qed

lemma peel_write:
  assumes "proper c"
  shows "peel (write_command c @ rest) = Some (c, rest)"
proof (cases c)
  case Initialize
  then show ?thesis by (cases rest) simp_all
next
  case (EscCommand l n)
  with assms show ?thesis by (auto simp: esc_letters_def)
next
  case (GsCommand l n)
  with assms show ?thesis by (auto simp: gs_letters_def)
next
  case (SymbolFunction ps)
  with assms length_bytes [of "length ps"] show ?thesis by (simp add: gs_letters_def counted_def)
next
  case (PrintBarcode m ps)
  with assms show ?thesis by (simp add: gs_letters_def counted_def unat_of_nat)
next
  case (Glyph b)
  with assms have "b \<noteq> 0x1b" "b \<noteq> 0x1d" by (auto simp: printable_def)
  with Glyph assms show ?thesis by simp
qed (simp_all add: esc_letters_def)

lemma write_command_not_Nil [simp]: "write_command c \<noteq> []"
  by (cases c) simp_all

lemma read_write: "list_all proper cs \<Longrightarrow> read_stream (concat (map write_command cs)) = Some cs"
proof (induction cs)
  case (Cons c cs)
  then show ?case
    using peel_write [of c "concat (map write_command cs)"] by (simp add: read_stream.simps [of "write_command c @ _"])
qed (simp add: read_stream.simps)

section \<open>What a document asks of the printer\<close>

text \<open>The commands of an operation, in the order the printer is to carry them out.\<close>

definition glyphs :: "codepage \<Rightarrow> utext \<Rightarrow> command list" where
  "glyphs cp s = map (Glyph \<circ> of_nat) (encodeText s cp @ [0x0a])"

definition styled :: "text_style \<Rightarrow> bool \<Rightarrow> command list" where
  "styled st on = (if st_bold st then [EscCommand 0x45 (if on then 1 else 0)] else [])"

definition inverted :: "text_style \<Rightarrow> bool \<Rightarrow> command list" where
  "inverted st on = (if st_invert st then [GsCommand 0x42 (if on then 1 else 0)] else [])"

definition sized :: "int \<times> int \<Rightarrow> int \<times> int \<Rightarrow> command list" where
  "sized wh target = (if fst wh \<noteq> 1 \<or> snd wh \<noteq> 1
     then [GsCommand 0x21 (of_nat (or (push_bit 4 (clampInt (of_int (fst target)) 1 8 - 1)) (clampInt (of_int (snd target)) 1 8 - 1)))] else [])"

definition justified :: "align \<Rightarrow> command" where
  "justified a = EscCommand 0x61 (of_nat (align_code a))"

definition qr_functions :: "utext \<Rightarrow> int option \<Rightarrow> command list" where
  "qr_functions data sz = map SymbolFunction
     [[0x31, 0x41, 50, 0], [0x31, 0x43, of_nat (clampInt (of_int (or_else sz 6)) 1 16)], [0x31, 0x45, 49],
      [0x31, 0x50, 0x30] @ map of_nat (char_codes data), [0x31, 0x51, 0x30]]"

definition barcode_payload :: "utext \<Rightarrow> barcode_type \<Rightarrow> byte list" where
  "barcode_payload data type = map (\<lambda>c. of_nat (c mod 128)) (char_codes (if type = CODE128 then lit ''{B'' @ data else data))"

fun op_commands :: "int \<Rightarrow> codepage \<Rightarrow> bool \<Rightarrow> print_op \<Rightarrow> command list" where
  "op_commands width cp first (OpText text st) =
     (let wh = or_else (st_size st) (1, 1)
      in justified (or_else (st_align st) AlignLeft) # styled st True @ inverted st True @ sized wh wh @ glyphs cp text
           @ sized wh (1, 1) @ inverted st False @ styled st False)"
| "op_commands width cp first (OpRule ch) = justified AlignLeft # glyphs cp (replicate (nat (max 0 width)) (or_else ch 45))"
| "op_commands width cp first (OpQr data sz) = justified AlignCenter # qr_functions data sz @ [Glyph 0x0a, justified AlignLeft]"
| "op_commands width cp first (OpBarcode data type) =
     [justified AlignCenter, GsCommand 0x48 2, GsCommand 0x68 80, GsCommand 0x77 2, PrintBarcode (of_nat (barcode_code type)) (barcode_payload data type),
      Glyph 0x0a, justified AlignLeft]"
| "op_commands width cp first (OpFeed lines) = [EscCommand 0x64 (of_nat (clampInt (of_int lines) 0 255))]"
| "op_commands width cp first OpCut = [GsCommand 0x56 1]"
| "op_commands width cp first OpDrawer = (if first then [Pulse 0 50 100] else [])"

definition copy_commands :: "print_doc \<Rightarrow> codepage \<Rightarrow> bool \<Rightarrow> command list" where
  "copy_commands doc cp first =
     Initialize # EscCommand 0x74 (of_nat (CODEPAGE_TABLE cp)) # concat (map (op_commands (pd_width doc) cp first) (pd_ops doc))"

definition doc_commands :: "print_doc \<Rightarrow> codepage \<Rightarrow> nat \<Rightarrow> command list" where
  "doc_commands doc cp copies = concat (map (\<lambda>c. copy_commands doc cp (c = 0)) [0..<copies])"

abbreviation written :: "command list \<Rightarrow> byte list" where
  "written cs \<equiv> concat (map write_command cs)"

lemma raw_simps [simp]: "en_bytes (raw bs e) = en_bytes e @ map of_nat bs" "en_cp (raw bs e) = en_cp e"
  by (simp_all add: raw_def)

lemmas encoder_defs = initialize_def select_codepage_def text_bytes_def newline_def line_def bold_def invert_def justify_def char_size_def
  feed_def rule_line_def cut_def pulse_def Let_def

lemma written_glyphs: "written (glyphs cp s) = map of_nat (encodeText s cp) @ [0x0a]"
  by (simp add: glyphs_def o_def concat_map_singleton)

lemma encode_text_op_bytes:
  "en_bytes (encode_text_op text st e) = en_bytes e @ written (op_commands width (en_cp e) first (OpText text st))
     \<and> en_cp (encode_text_op text st e) = en_cp e"
  by (cases "or_else (st_size st) (1, 1)")
    (simp add: encode_text_op_def encoder_defs written_glyphs styled_def inverted_def sized_def justified_def)

lemma qr_bytes:
  "en_bytes (qrcode data 2 sz LevelM e) = en_bytes e @ written (qr_functions data sz) \<and> en_cp (qrcode data 2 sz LevelM e) = en_cp e"
proof -
  have "drop_bit 8 (Suc (Suc (Suc (Suc 0)))) = 0" "drop_bit 8 (Suc (Suc (Suc 0))) = 0" by (simp_all add: drop_bit_eq_div)
  moreover have "drop_bit 8 (Suc (Suc (Suc n))) = drop_bit 8 (n + 3)" for n by (simp add: numeral_3_eq_3)
  ultimately show ?thesis by (simp add: qrcode_def qr_functions_def Let_def)
qed

lemma clampInt_id: "lo \<le> n \<Longrightarrow> n \<le> hi \<Longrightarrow> clampInt (of_int n) lo hi = nat n"
  by (simp add: clampInt_def)

lemma barcode_bytes:
  "barcode data type 80 2 2 e = Inr e' \<Longrightarrow>
     en_bytes e' = en_bytes e @ written [GsCommand 0x48 2, GsCommand 0x68 80, GsCommand 0x77 2, PrintBarcode (of_nat (barcode_code type)) (barcode_payload data type)]
     \<and> en_cp e' = en_cp e \<and> length (barcode_payload data type) < 256"
  using clampInt_id [of 2 2 6] clampInt_id [of 1 80 255]
  by (auto simp: barcode_def barcode_payload_def Let_def split: if_splits)

lemma encode_op_bytes:
  assumes "encode_op width first op e = Inr e'"
  shows "en_bytes e' = en_bytes e @ written (op_commands width (en_cp e) first op) \<and> en_cp e' = en_cp e"
proof (cases op)
  case (OpText tx st)
  with assms encode_text_op_bytes [of tx st e width first] show ?thesis by (simp del: op_commands.simps)
next
  case (OpRule ch)
  with assms show ?thesis by (auto simp: encoder_defs written_glyphs justified_def)
next
  case (OpQr data sz)
  with assms qr_bytes [of data sz "justify AlignCenter e"] show ?thesis by (auto simp: newline_def justify_def justified_def)
next
  case (OpBarcode data type)
  with assms show ?thesis
    by (auto simp: newline_def justify_def justified_def split: sum.splits dest!: barcode_bytes)
next
  case OpDrawer
  have "clampInt (of_int 100 / 2) 0 255 = 50" "clampInt (of_int 200 / 2) 0 255 = 100"
    using clampInt_id [of 0 50 255] clampInt_id [of 0 100 255] by simp_all
  with OpDrawer assms show ?thesis by (auto simp: pulse_def)
qed (use assms in \<open>auto simp: encoder_defs\<close>)

lemma encode_ops_bytes:
  "encode_ops width first ops e = Inr e' \<Longrightarrow>
     en_bytes e' = en_bytes e @ written (concat (map (op_commands width (en_cp e) first) ops)) \<and> en_cp e' = en_cp e"
proof (induction ops arbitrary: e)
  case (Cons op ops)
  then obtain e1 where "encode_op width first op e = Inr e1" "encode_ops width first ops e1 = Inr e'" by (auto split: sum.splits)
  with Cons.IH [of e1] encode_op_bytes [of width first op e e1] show ?case by simp
qed simp

lemma encode_copies_bytes:
  "encode_copies doc cp cs e = Inr e' \<Longrightarrow> en_bytes e' = en_bytes e @ written (concat (map (copy_commands doc cp) cs))"
proof (induction cs arbitrary: e)
  case (Cons first cs)
  then obtain e1 where run: "encode_ops (pd_width doc) first (pd_ops doc) (select_codepage cp (initialize e)) = Inr e1"
    and rest: "encode_copies doc cp cs e1 = Inr e'" by (auto split: sum.splits)
  from encode_ops_bytes [OF run] Cons.IH [OF rest] show ?case by (simp add: copy_commands_def encoder_defs)
qed simp

lemma proper_glyphs: "list_all proper (glyphs cp s)"
proof -
  have "printable (unat (of_nat b :: byte))" if "printable b" for b
  proof -
    from that have "b < 256" by (auto simp: printable_def)
    then have "b mod 256 = b" by simp
    with that show ?thesis by (simp add: unat_of_nat)
  qed
  moreover have "list_all printable (encodeText s cp @ [0x0a])"
    using encodeText_printable [of s cp] by (simp add: printable_def)
  ultimately show ?thesis unfolding glyphs_def by (simp add: list_all_iff del: map_append set_append)
qed

lemma proper_single [simp]:
  "list_all proper (styled st on)" "list_all proper (inverted st on)" "list_all proper (sized wh t)" "proper (justified a)"
  by (simp_all add: styled_def inverted_def sized_def justified_def esc_letters_def gs_letters_def)

lemma length_codePoints: "length (codePoints s) \<le> length s"
  by (induction s rule: codePoints.induct) auto

lemma proper_qr: "length data < 65533 \<Longrightarrow> list_all proper (qr_functions data sz)"
  using length_codePoints [of data] by (simp add: qr_functions_def char_codes_def)

lemma proper_op:
  assumes "encode_op width first op e = Inr e'" and "\<And>data sz. op = OpQr data sz \<Longrightarrow> length data < 65533"
  shows "list_all proper (op_commands w cp f op)"
proof (cases op)
  case (OpText tx st)
  then show ?thesis by (simp add: proper_glyphs Let_def)
next
  case (OpRule ch)
  then show ?thesis by (simp add: proper_glyphs)
next
  case (OpQr data sz)
  with assms(2) show ?thesis by (simp add: proper_qr printable_def)
next
  case (OpBarcode data type)
  with assms(1) have "length (barcode_payload data type) < 256" by (auto split: sum.splits dest!: barcode_bytes)
  with OpBarcode show ?thesis by (simp add: printable_def gs_letters_def)
qed (simp_all add: esc_letters_def gs_letters_def)

lemma proper_ops:
  "encode_ops width first ops e = Inr e' \<Longrightarrow> \<forall>data sz. OpQr data sz \<in> set ops \<longrightarrow> length data < 65533 \<Longrightarrow>
     list_all proper (concat (map (op_commands w cp f) ops))"
proof (induction ops arbitrary: e)
  case (Cons op ops)
  then obtain e1 where "encode_op width first op e = Inr e1" "encode_ops width first ops e1 = Inr e'" by (auto split: sum.splits)
  with Cons proper_op [of width first op e e1 w cp f] show ?case by auto
qed simp

lemma proper_copies:
  "encode_copies doc cp cs e = Inr e' \<Longrightarrow> \<forall>data sz. OpQr data sz \<in> set (pd_ops doc) \<longrightarrow> length data < 65533 \<Longrightarrow>
     list_all proper (concat (map (copy_commands doc cp) cs))"
proof (induction cs arbitrary: e)
  case (Cons first cs)
  then obtain e1 where run: "encode_ops (pd_width doc) first (pd_ops doc) (select_codepage cp (initialize e)) = Inr e1"
    and rest: "encode_copies doc cp cs e1 = Inr e'" by (auto split: sum.splits)
  from proper_ops [OF run Cons.prems(2)] Cons.IH [OF rest Cons.prems(2)] show ?case
    by (simp add: copy_commands_def esc_letters_def)
qed simp

definition is_pulse :: "command \<Rightarrow> bool" where
  "is_pulse c \<longleftrightarrow> (\<exists>m t1 t2. c = Pulse m t1 t2)"

lemma is_pulse_simps [simp]: "\<not> is_pulse Initialize" "\<not> is_pulse (EscCommand c n)"
  by (simp_all add: is_pulse_def)

lemma pulses_of_op: "length (filter is_pulse (op_commands width cp first op)) = (if op = OpDrawer \<and> first then 1 else 0)"
  by (cases op) (auto simp: is_pulse_def filter_empty_conv styled_def inverted_def sized_def justified_def glyphs_def qr_functions_def Let_def)

lemma pulses_of_ops:
  "length (filter is_pulse (concat (map (op_commands width cp first) ops))) = (if first then length (filter (\<lambda>op. op = OpDrawer) ops) else 0)"
  by (induction ops) (simp_all add: pulses_of_op)

lemma pulses_of_copy:
  "length (filter is_pulse (copy_commands doc cp first)) = (if first then length (filter (\<lambda>op. op = OpDrawer) (pd_ops doc)) else 0)"
  using pulses_of_ops [of "pd_width doc" cp first "pd_ops doc"] by (simp add: copy_commands_def)

lemma pulses_of_later_copies: "0 \<notin> set cs \<Longrightarrow> filter is_pulse (concat (map (\<lambda>c. copy_commands doc cp (c = 0)) cs)) = []"
  using pulses_of_copy [of doc cp False] by (induction cs) auto

text \<open>C17. What reaches the printer is what the document asks for. Read back command by command, the bytes of a print job are the commands
  of the document's operations, copy by copy, and nothing else: no text, barcode or QR payload is taken for a command, and the cash
  drawer is kicked once for every drawer operation, however many copies are printed. A QR payload must fit its sixteen-bit length.\<close>

theorem print_stream_reads_back:
  assumes "encodePrintDoc doc cp copies = Inr bytes" and "\<forall>data sz. OpQr data sz \<in> set (pd_ops doc) \<longrightarrow> length data < 65533"
  shows "\<exists>cs. read_stream bytes = Some cs
    \<and> cs = doc_commands doc (or_else cp CP437) (nat (max 1 (or_else copies 1)))
    \<and> length (filter is_pulse cs) = length (filter (\<lambda>op. op = OpDrawer) (pd_ops doc))"
proof -
  define n where "n = nat (max 1 (or_else copies 1))"
  define cs where "cs = doc_commands doc (or_else cp CP437) n"
  from assms(1) obtain e where run: "encode_copies doc (or_else cp CP437) (map (\<lambda>c. c = 0) [0..<n]) newEncoder = Inr e" and bytes: "bytes = en_bytes e"
    by (auto simp: encodePrintDoc_def n_def split: sum.splits)
  have cs: "concat (map (copy_commands doc (or_else cp CP437)) (map (\<lambda>c. c = 0) [0..<n])) = cs"
    by (simp add: cs_def doc_commands_def o_def)
  from encode_copies_bytes [OF run, unfolded cs] have "bytes = written cs" by (simp add: bytes newEncoder_def)
  moreover have "list_all proper cs" using proper_copies [OF run assms(2), unfolded cs] .
  ultimately have "read_stream bytes = Some cs" by (simp add: read_write)
  moreover have "length (filter is_pulse cs) = length (filter (\<lambda>op. op = OpDrawer) (pd_ops doc))"
  proof -
    have "[0..<n] = 0 # [1..<n]" by (simp add: n_def upt_conv_Cons)
    then show ?thesis
      using pulses_of_later_copies [of "[1..<n]" doc "or_else cp CP437"] by (simp add: cs_def doc_commands_def pulses_of_copy)
  qed
  ultimately show ?thesis by (auto simp: cs_def n_def)
qed

text \<open>A slip with a line of text, a QR code and the drawer, printed twice.\<close>

definition plain_style :: text_style where
  "plain_style = \<lparr> st_align = None, st_bold = False, st_invert = False, st_size = None \<rparr>"

definition slip0 :: print_doc where
  "slip0 = \<lparr> pd_paperWidth = Paper58, pd_width = 32,
     pd_ops = [OpDrawer, OpText (27 # lit ''p TOTAL'') plain_style, OpQr (lit ''upi://pay'') None, OpCut] \<rparr>"

theorem print_stream_reads_back_witness:
  "\<exists>bytes cs. encodePrintDoc slip0 None (Some 2) = Inr bytes \<and> read_stream bytes = Some cs \<and> length (filter is_pulse cs) = 1"
proof -
  have "\<exists>bytes. encodePrintDoc slip0 None (Some 2) = Inr bytes"
    by (simp add: encodePrintDoc_def slip0_def numeral_2_eq_2)
  then obtain bytes where run: "encodePrintDoc slip0 None (Some 2) = Inr bytes" by blast
  have "\<forall>data sz. OpQr data sz \<in> set (pd_ops slip0) \<longrightarrow> length data < 65533" by (simp add: slip0_def lit_def)
  from print_stream_reads_back [OF run this] run show ?thesis by (auto simp: slip0_def)
qed

end
