(* ===== verification/Receipts.thy ===== *)
theory Receipts
  imports Escpos Schema
begin

text \<open>
  Kitchen tickets, bills and test pages as laid-out documents (\<open>packages/shared/src/printing/document.ts\<close>) and the tax lines of a
  bill. The parts of a local date come from the time-zone database of the runtime and are an argument.
\<close>

section \<open>Numbers and dates as text\<close>

definition int_text :: "int \<Rightarrow> utext" where
  "int_text n = lit (int_string n)"

text \<open>\<open>String(r)\<close> of a number with at most two decimals.\<close>

definition hundredths_text :: "int \<Rightarrow> utext" where
  "hundredths_text n = (if n < 0 then [45] else []) @ lit (nat_digits (nat (\<bar>n\<bar> div 100)))
     @ (let f = nat (\<bar>n\<bar> mod 100) in if f = 0 then [] else if f mod 10 = 0 then [46, f div 10 + 48] else 46 # two_digits f)"

definition trimRate :: "num \<Rightarrow> utext" where
  "trimRate r = (if r \<in> \<int> then int_text \<lfloor>r\<rfloor> else hundredths_text (js_round (r * 100)))"

record date_parts =
  dp_day :: utext
  dp_month :: utext
  dp_year :: utext
  dp_hour :: utext
  dp_minute :: utext

definition formatDateTime :: "date_parts \<Rightarrow> utext" where
  "formatDateTime p =
    (let hour = (if dp_hour p = lit ''24'' then lit ''00'' else dp_hour p)
     in dp_day p @ [45] @ dp_month p @ [45] @ dp_year p @ [32] @ hour @ [58] @ dp_minute p)"

section \<open>Documents to print\<close>

record kot_item =
  ki_name :: utext
  ki_variationName :: "utext option"
  ki_quantity :: int
  ki_addons :: "utext list"
  ki_note :: "utext option"
  ki_comboName :: "utext option"

datatype ticket_source = TicketPos | TicketScan | TicketAggregator

record kot_ticket =
  kt_kotNumber :: int
  kt_orderType :: order_type
  kt_tableName :: "utext option"
  kt_stationName :: "utext option"
  kt_orderRef :: "utext option"
  kt_source :: "ticket_source option"
  kt_customerName :: "utext option"
  kt_staffName :: "utext option"
  kt_createdAt :: date_parts
  kt_items :: "kot_item list"
  kt_reprint :: bool
  kt_cancelled :: bool

record bill_item =
  bit_name :: utext
  bit_variationName :: "utext option"
  bit_addons :: "utext list"
  bit_quantity :: int
  bit_unitPrice :: num
  bit_lineTotal :: num
  bit_isComboComponent :: bool

datatype tax_label = CGST | SGST | IGST

record tax_line =
  tl_label :: tax_label
  tl_ratePercent :: num
  tl_amount :: num

record bill_doc =
  bl_brandName :: utext
  bl_outletName :: utext
  bl_address :: "utext option"
  bl_gstin :: "utext option"
  bl_fssaiNumber :: "utext option"
  bl_headerLines :: "utext list"
  bl_billNumber :: "utext option"
  bl_provisional :: bool
  bl_orderType :: order_type
  bl_tableName :: "utext option"
  bl_customerName :: "utext option"
  bl_customerPhone :: "utext option"
  bl_cashierName :: "utext option"
  bl_createdAt :: date_parts
  bl_items :: "bill_item list"
  bl_subtotal :: num
  bl_discounts :: "(utext \<times> num) list"
  bl_serviceCharge :: "num option"
  bl_taxableValue :: num
  bl_taxLines :: "tax_line list"
  bl_roundOff :: "num option"
  bl_total :: num
  bl_payments :: "(string \<times> num) list"
  bl_upiQr :: "utext option"
  bl_footerLines :: "utext list"
  bl_reprint :: bool

record test_page =
  tp_printerName :: utext
  tp_outletName :: utext
  tp_connection :: utext
  tp_paperWidth :: paper_width
  tp_codepage :: codepage
  tp_requestedAt :: date_parts

section \<open>Building blocks\<close>

text \<open>A nullable text that is there and not empty, and a nullable amount that is there and not zero.\<close>

definition given :: "utext option \<Rightarrow> bool" where
  "given t \<longleftrightarrow> t \<noteq> None \<and> t \<noteq> Some []"

definition charged :: "num option \<Rightarrow> bool" where
  "charged a \<longleftrightarrow> a \<noteq> None \<and> a \<noteq> Some 0"

definition centered :: text_style where
  "centered = plain_style\<lparr>st_align := Some AlignCenter\<rparr>"

definition strong :: "text_style \<Rightarrow> text_style" where
  "strong st = st\<lparr>st_bold := True\<rparr>"

definition big :: "int \<Rightarrow> int \<Rightarrow> text_style \<Rightarrow> text_style" where
  "big w h st = st\<lparr>st_size := Some (w, h)\<rparr>"

definition inverse :: "text_style \<Rightarrow> text_style" where
  "inverse st = st\<lparr>st_invert := True\<rparr>"

definition para :: "int \<Rightarrow> utext \<Rightarrow> text_style \<Rightarrow> print_op list" where
  "para width tx st =
    (let w = (case st_size st of Some s \<Rightarrow> if fst s = 2 then width div 2 else width | None \<Rightarrow> width) in map (\<lambda>l. OpText l st) (wrap tx w))"

definition lines :: "utext list \<Rightarrow> text_style \<Rightarrow> print_op list" where
  "lines ls st = map (\<lambda>l. OpText l st) ls"

fun order_type_label :: "order_type \<Rightarrow> utext" where
  "order_type_label DINE_IN = lit ''Dine-in''" | "order_type_label TAKEAWAY = lit ''Takeaway''" | "order_type_label DELIVERY = lit ''Delivery''"

definition cell :: "utext \<Rightarrow> int \<Rightarrow> column" where
  "cell tx w = \<lparr> co_text = tx, co_width = w, co_align = AlignLeft \<rparr>"

definition right_cell :: "utext \<Rightarrow> int \<Rightarrow> column" where
  "right_cell tx w = \<lparr> co_text = tx, co_width = w, co_align = AlignRight \<rparr>"

definition with_variation :: "utext \<Rightarrow> utext option \<Rightarrow> utext" where
  "with_variation name v = (if given v then name @ lit '' ('' @ the v @ lit '')'' else name)"

section \<open>Kitchen tickets\<close>

definition kot_meta :: "kot_ticket \<Rightarrow> utext list" where
  "kot_meta t =
     (case kt_source t of Some TicketScan \<Rightarrow> [lit ''Via: Scan & Order''] | Some TicketAggregator \<Rightarrow> [lit ''Via: Online''] | _ \<Rightarrow> [])
     @ (if given (kt_staffName t) then [lit ''By: '' @ the (kt_staffName t)] else [])
     @ (if given (kt_customerName t) then [lit ''Cust: '' @ the (kt_customerName t)] else [])"

definition kot_item_ops :: "int \<Rightarrow> bool \<Rightarrow> kot_item \<Rightarrow> print_op list" where
  "kot_item_ops W cancelled item =
    (let nameW = W - 5; qty = (if cancelled then [45] else []) @ int_text (ki_quantity item);
         indented = (\<lambda>tx. columns [cell [] 4, cell tx nameW] 1)
     in lines (columns [right_cell qty 4, cell (with_variation (ki_name item) (ki_variationName item)) nameW] 1) (big 1 2 (strong plain_style))
        @ (if given (ki_comboName item) then lines (indented (lit ''['' @ the (ki_comboName item) @ lit '']'')) plain_style else [])
        @ concat (map (\<lambda>a. lines (indented (lit ''+ '' @ a)) plain_style) (ki_addons item))
        @ (if given (ki_note item) then lines (indented (lit ''>> '' @ the (ki_note item))) (strong plain_style) else []))"

definition renderKot :: "kot_ticket \<Rightarrow> paper_width \<Rightarrow> print_doc" where
  "renderKot t paper =
    (let W = charsPerLine paper
     in \<lparr> pd_paperWidth = paper, pd_width = W, pd_ops =
       (if kt_cancelled t then para W (lit ''*** CANCELLED ***'') (big 2 2 (inverse (strong centered))) else [])
       @ para W (lit ''KOT #'' @ int_text (kt_kotNumber t)) (big 2 2 (strong centered))
       @ (if kt_reprint t then [OpText (lit ''REPRINT'') (inverse (strong centered))] else [])
       @ para W (if given (kt_tableName t) then lit ''Table '' @ the (kt_tableName t) else order_type_label (kt_orderType t)) (big 2 1 (strong centered))
       @ (if given (kt_tableName t) then [OpText (order_type_label (kt_orderType t)) centered] else [])
       @ (if given (kt_stationName t) then para W (lit ''Station: '' @ the (kt_stationName t)) (strong centered) else [])
       @ [OpRule (Some 45)]
       @ lines (leftRight (if given (kt_orderRef t) then lit ''Ref: '' @ the (kt_orderRef t) else []) (formatDateTime (kt_createdAt t)) W) plain_style
       @ concat (map (\<lambda>m. para W m plain_style) (kot_meta t))
       @ [OpRule (Some 45)]
       @ concat (map (kot_item_ops W (kt_cancelled t)) (kt_items t))
       @ [OpRule (Some 45)]
       @ lines (leftRight (lit ''Items: '' @ int_text (int (length (kt_items t)))) (lit ''Qty: '' @ int_text (\<Sum>i\<leftarrow>kt_items t. ki_quantity i)) W) plain_style
       @ (if kt_cancelled t then [OpText (lit ''STOP / DO NOT PREPARE'') (strong centered)] else [])
       @ [OpFeed 3, OpCut] \<rparr>)"

section \<open>Bills\<close>

definition MODE_LABEL :: "string \<Rightarrow> string option" where
  "MODE_LABEL = map_of [(''CASH'', ''Cash''), (''CARD'', ''Card''), (''UPI'', ''UPI''), (''WALLET'', ''Wallet''), (''OTHER'', ''Other'')]"

text \<open>80 mm paper has a rate column, 58 mm paper has not.\<close>

definition name_width :: "int \<Rightarrow> int" where
  "name_width W = (if W \<ge> 48 then W - 4 - 9 - 10 - 3 else W - 4 - 9 - 2)"

definition bill_row :: "int \<Rightarrow> utext \<Rightarrow> utext \<Rightarrow> utext \<Rightarrow> utext \<Rightarrow> utext list" where
  "bill_row W name qty rate amt =
    (if W \<ge> 48 then columns [cell name (name_width W), right_cell qty 4, right_cell rate 9, right_cell amt 10] 1
     else columns [cell name (name_width W), right_cell qty 4, right_cell amt 9] 1)"

definition bill_item_ops :: "int \<Rightarrow> bill_item \<Rightarrow> print_op list" where
  "bill_item_ops W item =
    (let indented = (\<lambda>tx. lines (columns [cell [] 2, cell tx (name_width W - 2)] 1) plain_style)
     in if bit_isComboComponent item then indented (lit ''> '' @ bit_name item)
        else lines (bill_row W (with_variation (bit_name item) (bit_variationName item)) (int_text (bit_quantity item))
               (formatAmount (bit_unitPrice item)) (formatAmount (bit_lineTotal item))) plain_style
             @ concat (map (\<lambda>a. indented (lit ''+ '' @ a)) (bit_addons item)))"

definition money_row :: "int \<Rightarrow> utext \<Rightarrow> num \<Rightarrow> print_op list" where
  "money_row W label amount = lines (leftRight label (formatAmount amount) W) plain_style"

fun tax_label_text :: "tax_label \<Rightarrow> utext" where
  "tax_label_text CGST = lit ''CGST''" | "tax_label_text SGST = lit ''SGST''" | "tax_label_text IGST = lit ''IGST''"

definition bill_head :: "int \<Rightarrow> bill_doc \<Rightarrow> print_op list" where
  "bill_head W b =
     para W (bl_brandName b) (big 2 2 (strong centered))
     @ (if bl_outletName b \<noteq> [] \<and> bl_outletName b \<noteq> bl_brandName b then para W (bl_outletName b) (strong centered) else [])
     @ (if given (bl_address b) then para W (the (bl_address b)) centered else [])
     @ concat (map (\<lambda>h. if trim_text h \<noteq> [] then para W h centered else []) (bl_headerLines b))
     @ (if given (bl_gstin b) then [OpText (lit ''GSTIN: '' @ the (bl_gstin b)) centered] else [])
     @ (if given (bl_fssaiNumber b) then [OpText (lit ''FSSAI Lic. No: '' @ the (bl_fssaiNumber b)) centered] else [])
     @ [OpRule (Some 45)]
     @ para W (if bl_provisional b then lit ''PRO-FORMA / NOT A TAX INVOICE'' else if given (bl_gstin b) then lit ''TAX INVOICE'' else lit ''BILL OF SUPPLY'') (strong centered)
     @ (if bl_reprint b then [OpText (lit ''DUPLICATE'') (inverse (strong centered))] else [])
     @ lines (leftRight (if given (bl_billNumber b) then lit ''Bill: '' @ the (bl_billNumber b) else lit ''Bill: (unsettled)'') (formatDateTime (bl_createdAt b)) W) plain_style
     @ lines (leftRight (if given (bl_tableName b) then lit ''Table '' @ the (bl_tableName b) @ [32, 183, 32] @ order_type_label (bl_orderType b)
                         else order_type_label (bl_orderType b))
         (if given (bl_cashierName b) then lit ''By: '' @ the (bl_cashierName b) else []) W) plain_style
     @ (if given (bl_customerName b) \<or> given (bl_customerPhone b)
        then para W (lit ''Customer: '' @ join [32, 183, 32] (map the (filter given [bl_customerName b, bl_customerPhone b]))) plain_style else [])
     @ [OpRule (Some 45)]"

definition bill_body :: "int \<Rightarrow> bill_doc \<Rightarrow> print_op list" where
  "bill_body W b =
     lines (bill_row W (lit ''Item'') (lit ''Qty'') (lit ''Rate'') (lit ''Amount'')) (strong plain_style)
     @ [OpRule (Some 45)]
     @ concat (map (bill_item_ops W) (bl_items b))
     @ [OpRule (Some 45)]"

definition bill_sums :: "int \<Rightarrow> bill_doc \<Rightarrow> print_op list" where
  "bill_sums W b =
     money_row W (lit ''Subtotal'') (bl_subtotal b)
     @ concat (map (\<lambda>(label, a). if a \<noteq> 0 then money_row W label (- a) else []) (bl_discounts b))
     @ (if charged (bl_serviceCharge b) then money_row W (lit ''Service charge'') (the (bl_serviceCharge b)) else [])
     @ (if (\<exists>d \<in> set (bl_discounts b). snd d \<noteq> 0) \<or> charged (bl_serviceCharge b) then money_row W (lit ''Taxable value'') (bl_taxableValue b) else [])
     @ concat (map (\<lambda>t. money_row W (tax_label_text (tl_label t) @ lit '' @'' @ trimRate (tl_ratePercent t) @ lit ''%'') (tl_amount t)) (bl_taxLines b))
     @ (if charged (bl_roundOff b) then money_row W (lit ''Round off'') (the (bl_roundOff b)) else [])
     @ [OpRule (Some 61)]
     @ lines (leftRight (lit ''TOTAL'') (lit ''Rs. '' @ formatAmount (bl_total b)) W) (big 1 2 (strong plain_style))
     @ [OpRule (Some 61)]"

definition bill_foot :: "int \<Rightarrow> paper_width \<Rightarrow> bill_doc \<Rightarrow> print_op list" where
  "bill_foot W paper b =
     lines (leftRight (lit ''Items: '' @ int_text (int (length (filter (\<lambda>i. \<not> bit_isComboComponent i) (bl_items b)))))
       (lit ''Qty: '' @ int_text (\<Sum>i\<leftarrow>filter (\<lambda>i. \<not> bit_isComboComponent i) (bl_items b). bit_quantity i)) W) plain_style
     @ (if bl_payments b \<noteq> [] then OpText (lit ''Paid by'') (strong plain_style)
          # concat (map (\<lambda>(m, a). money_row W (lit (''  '' @ or_else (MODE_LABEL m) m)) a) (bl_payments b)) else [])
     @ (if given (bl_upiQr b) then [OpText (lit ''Scan to pay with any UPI app'') centered,
          OpQr (the (bl_upiQr b)) (Some (if paper = Paper58 then 5 else 6))] else [])
     @ (if bl_footerLines b \<noteq> [] then [OpRule (Some 45)] else [])
     @ concat (map (\<lambda>f. if trim_text f \<noteq> [] then para W f centered else []) (bl_footerLines b))
     @ [OpFeed 3, OpCut]"

definition renderBill :: "bill_doc \<Rightarrow> paper_width \<Rightarrow> bool \<Rightarrow> print_doc" where
  "renderBill b paper openDrawer =
    (let W = charsPerLine paper
     in \<lparr> pd_paperWidth = paper, pd_width = W,
          pd_ops = (if openDrawer then [OpDrawer] else []) @ bill_head W b @ bill_body W b @ bill_sums W b @ bill_foot W paper b \<rparr>)"

section \<open>Test pages\<close>

fun codepage_text :: "codepage \<Rightarrow> utext" where
  "codepage_text CP437 = lit ''CP437''" | "codepage_text CP850 = lit ''CP850''" | "codepage_text CP858 = lit ''CP858''"

definition renderTestPage :: "test_page \<Rightarrow> paper_width \<Rightarrow> print_doc" where
  "renderTestPage t paper =
    (let W = charsPerLine paper
     in \<lparr> pd_paperWidth = paper, pd_width = W, pd_ops =
       para W (lit ''TEST PRINT'') (big 2 2 (strong centered))
       @ para W (tp_printerName t) (strong centered)
       @ para W (tp_outletName t) centered
       @ [OpRule (Some 45)]
       @ lines (leftRight (lit ''Connection'') (tp_connection t) W) plain_style
       @ lines (leftRight (lit ''Paper'') (int_text (if tp_paperWidth t = Paper58 then 58 else 80) @ lit ''mm / '' @ int_text W @ lit '' cols'') W) plain_style
       @ lines (leftRight (lit ''Code page'') (codepage_text (tp_codepage t)) W) plain_style
       @ lines (leftRight (lit ''Sent'') (formatDateTime (tp_requestedAt t)) W) plain_style
       @ [OpRule (Some 45)]
       @ [OpText (take (nat W) (concat (replicate (nat \<lceil>of_int W / 10 :: rat\<rceil>) (lit ''1234567890'')))) plain_style]
       @ [OpText (lit ''Normal  '') plain_style, OpText (lit ''Bold'') (strong plain_style), OpText (lit ''Inverted'') (inverse plain_style)]
       @ [OpText (lit ''Centered'') centered, OpText (lit ''Right'') (plain_style\<lparr>st_align := Some AlignRight\<rparr>)]
       @ para W (lit ''Double size'') (big 2 2 plain_style)
       @ para W (lit ''Accents: caf'' @ [233] @ lit '' cr'' @ [232] @ lit ''me na'' @ [239] @ lit ''ve'') plain_style
       @ [OpBarcode (lit ''STELLO-TEST'') CODE128, OpQr (lit ''https://kitchens.stellotechs.com'') (Some 5)]
       @ para W (lit ''If this prints cleanly, you'' @ [39] @ lit ''re set.'') centered
       @ [OpFeed 3, OpCut] \<rparr>)"

datatype print_payload = PrintKot kot_ticket | PrintBill bill_doc | PrintTest test_page | PrintDrawer

fun renderPayload :: "print_payload \<Rightarrow> paper_width \<Rightarrow> bool \<Rightarrow> print_doc" where
  "renderPayload (PrintKot t) paper openDrawer = renderKot t paper"
| "renderPayload (PrintBill b) paper openDrawer = renderBill b paper openDrawer"
| "renderPayload (PrintTest t) paper openDrawer = renderTestPage t paper"
| "renderPayload PrintDrawer paper openDrawer = \<lparr> pd_paperWidth = paper, pd_width = charsPerLine paper, pd_ops = [OpDrawer] \<rparr>"

section \<open>Tax lines\<close>

record tax_params =
  tx_lines :: "(num \<times> num) list"
  tx_subtotal :: num
  tx_discountAmount :: num
  tx_taxAmount :: num
  tx_interState :: bool

text \<open>The tax of every rate before the discount, in paise.\<close>

definition tax_groups :: "(num \<times> num) list \<Rightarrow> (num \<times> num) list" where
  "tax_groups ls = foldl (\<lambda>m (lineTotal, rate). if rate = 0 then m else js_map_add rate (of_int (toPaise lineTotal) * rate / 100) m) [] ls"

text \<open>The rounded share of every rate, and the residue on the rate with the biggest share.\<close>

definition raw_shares :: "tax_params \<Rightarrow> (num \<times> int) list" where
  "raw_shares p =
    (let subtotalPaise = toPaise (tx_subtotal p); taxablePaise = subtotalPaise - toPaise (tx_discountAmount p); groups = tax_groups (tx_lines p)
     in map (\<lambda>r. (r, js_round (the (map_of groups r) * of_int taxablePaise / of_int subtotalPaise))) (sort (map fst groups)))"

definition biggest_rate :: "(num \<times> int) list \<Rightarrow> num" where
  "biggest_rate shares = foldl (\<lambda>best r. if the (map_of shares r) > the (map_of shares best) then r else best) (fst (hd shares)) (map fst shares)"

definition tax_shares :: "tax_params \<Rightarrow> (num \<times> int) list" where
  "tax_shares p =
    (let shares = raw_shares p; residue = toPaise (tx_taxAmount p) - (\<Sum>s\<leftarrow>shares. snd s); biggest = biggest_rate shares
     in map (\<lambda>(r, s). (r, if r = biggest then s + residue else s)) shares)"

definition share_lines :: "bool \<Rightarrow> num \<times> int \<Rightarrow> tax_line list" where
  "share_lines crossState = (\<lambda>(rate, paise).
     if paise \<le> 0 then []
     else if crossState then [\<lparr> tl_label = IGST, tl_ratePercent = rate, tl_amount = fromPaise (of_int paise) \<rparr>]
     else [\<lparr> tl_label = CGST, tl_ratePercent = rate / 2, tl_amount = fromPaise (of_int (paise div 2)) \<rparr>,
           \<lparr> tl_label = SGST, tl_ratePercent = rate / 2, tl_amount = fromPaise (of_int (paise - paise div 2)) \<rparr>])"

definition billTaxLines :: "tax_params \<Rightarrow> tax_line list" where
  "billTaxLines p =
    (if tax_groups (tx_lines p) = [] \<or> toPaise (tx_taxAmount p) \<le> 0 \<or> toPaise (tx_subtotal p) \<le> 0 then []
     else concat (map (share_lines (tx_interState p)) (tax_shares p)))"

section \<open>The tax lines add up\<close>

lemma tax_groups_distinct: "distinct (map fst (tax_groups ls))"
proof -
  have "distinct (map fst m) \<Longrightarrow> distinct (map fst (foldl (\<lambda>m (lineTotal, rate). if rate = 0 then m else js_map_add rate (of_int (toPaise lineTotal) * rate / 100) m) m ls))"
    for m :: "(num \<times> num) list"
    by (induction ls arbitrary: m) (auto simp: distinct_js_map_add)
  then show ?thesis by (simp add: tax_groups_def)
qed

lemma biggest_rate_in: "shares \<noteq> [] \<Longrightarrow> biggest_rate shares \<in> set (map fst shares)"
proof -
  have "best \<in> R \<Longrightarrow> set rs \<subseteq> R \<Longrightarrow> foldl (\<lambda>best r. if the (map_of shares r) > the (map_of shares best) then r else best) best rs \<in> R" for best rs R
    by (induction rs arbitrary: best) auto
  then show "shares \<noteq> [] \<Longrightarrow> ?thesis" unfolding biggest_rate_def by simp
qed

text \<open>Adding to one entry of a list with distinct keys adds to the sum.\<close>

lemma sum_at_key:
  "distinct (map fst xs) \<Longrightarrow> k \<in> set (map fst xs) \<Longrightarrow>
     (\<Sum>x\<leftarrow>map (\<lambda>(r, s). (r, if r = k then s + d else s)) xs. snd x) = (\<Sum>x\<leftarrow>xs. snd x) + (d :: int)"
proof (induction xs)
  case (Cons x xs)
  obtain r s where x: "x = (r, s)" by force
  show ?case
  proof (cases "r = k")
    case True
    with Cons.prems x have "k \<notin> set (map fst xs)" by simp
    then have "map (\<lambda>(r, s). (r, if r = k then s + d else s)) xs = xs" by (induction xs) auto
    with x True show ?thesis by simp
  next
    case False
    with Cons x show ?thesis by auto
  qed
qed simp

lemma tax_shares_sum:
  assumes "tax_groups (tx_lines p) \<noteq> []"
  shows "(\<Sum>s\<leftarrow>tax_shares p. snd s) = toPaise (tx_taxAmount p)"
proof -
  have keys: "map fst (raw_shares p) = sort (map fst (tax_groups (tx_lines p)))" by (simp add: raw_shares_def Let_def o_def)
  from arg_cong [OF keys, of length] assms have "raw_shares p \<noteq> []" by auto
  moreover have "distinct (map fst (raw_shares p))" using tax_groups_distinct [of "tx_lines p"] by (simp add: keys)
  ultimately have "distinct (map fst (raw_shares p))" "raw_shares p \<noteq> []" by simp_all
  then show ?thesis
    using sum_at_key [OF _ biggest_rate_in] by (simp add: tax_shares_def Let_def)
qed

lemma share_lines_sum: "0 \<le> snd s \<Longrightarrow> (\<Sum>t\<leftarrow>share_lines crossState s. toPaise (tl_amount t)) = snd s"
  by (cases s) (auto simp: share_lines_def toPaise_fromPaise simp del: of_int_diff)

text \<open>C40. The tax lines of a bill add up to its tax: when no rate is left with a negative share, the printed CGST and SGST, or IGST, lines sum
  to exactly the stored tax of the order, whatever the rates, the discount and the rounding of the shares.\<close>

theorem billTaxLines_exact:
  assumes "tax_groups (tx_lines p) \<noteq> []" and "0 < toPaise (tx_taxAmount p)" and "0 < toPaise (tx_subtotal p)"
    and "\<forall>s \<in> set (tax_shares p). 0 \<le> snd s"
  shows "(\<Sum>t\<leftarrow>billTaxLines p. toPaise (tl_amount t)) = toPaise (tx_taxAmount p)"
proof -
  have "(\<Sum>t\<leftarrow>concat (map (share_lines (tx_interState p)) ss). toPaise (tl_amount t)) = (\<Sum>s\<leftarrow>ss. snd s)" if "\<forall>s \<in> set ss. 0 \<le> snd s" for ss
    using that by (induction ss) (simp_all add: share_lines_sum)
  with assms tax_shares_sum [OF assms(1)] show ?thesis by (simp add: billTaxLines_def)
qed

definition taxes0 :: tax_params where
  "taxes0 = \<lparr> tx_lines = [(100, 5), (50, 18)], tx_subtotal = 150, tx_discountAmount = 15, tx_taxAmount = 1261 / 100, tx_interState = False \<rparr>"

theorem billTaxLines_exact_witness:
  "(\<Sum>t\<leftarrow>billTaxLines taxes0. toPaise (tl_amount t)) = 1261"
proof -
  have "(\<Sum>t\<leftarrow>billTaxLines taxes0. toPaise (tl_amount t)) = toPaise (tx_taxAmount taxes0)"
    by (rule billTaxLines_exact) (code_simp+)
  also have "\<dots> = 1261" by code_simp
  finally show ?thesis .
qed

section \<open>Bills fit the paper\<close>

text \<open>The characters of a line, at their width, fit the columns of the paper.\<close>

definition fits :: "int \<Rightarrow> print_op \<Rightarrow> bool" where
  "fits W op = (case op of OpText tx st \<Rightarrow> (case st_size st of None \<Rightarrow> 1 | Some s \<Rightarrow> fst s) * int (length tx) \<le> W | _ \<Rightarrow> True)"

lemma fits_simps [simp]:
  "fits W (OpText tx st) \<longleftrightarrow> (case st_size st of None \<Rightarrow> 1 | Some s \<Rightarrow> fst s) * int (length tx) \<le> W" "fits W (OpRule ch)" "fits W (OpQr d sz)"
  "fits W (OpBarcode d ty)" "fits W (OpFeed n)" "fits W OpCut" "fits W OpDrawer"
  by (simp_all add: fits_def)

lemmas style_defs = plain_style_def centered_def strong_def big_def inverse_def

lemma size_simps [simp]:
  "st_size plain_style = None" "st_size centered = None" "st_size (strong st) = st_size st" "st_size (inverse st) = st_size st"
  "st_size (big w h st) = Some (w, h)"
  by (simp_all add: style_defs)

lemma fits_para:
  assumes "st_size st = None \<or> (\<exists>h. st_size st = Some (2, h))"
  shows "list_all (fits W) (para W tx st)"
proof -
  have "2 * int (length l) \<le> W" if "l \<in> set (wrap tx (W div 2))" for l
    using wrap_width [OF that] by simp
  with assms wrap_width [of _ tx W] show ?thesis by (auto simp: para_def list_all_iff)
qed

definition single :: "text_style \<Rightarrow> bool" where
  "single st \<longleftrightarrow> (case st_size st of None \<Rightarrow> True | Some s \<Rightarrow> fst s = 1)"

lemma fits_lines: "single st \<Longrightarrow> (\<And>l. l \<in> set ls \<Longrightarrow> int (length l) \<le> W) \<Longrightarrow> list_all (fits W) (lines ls st)"
  by (auto simp: lines_def list_all_iff single_def split: option.splits)

lemma single_simps [simp]: "single plain_style" "single (strong st) = single st" "single (big 1 h st)" "single centered"
  by (simp_all add: single_def)

lemma fits_leftRight: "int (length (normalizeReceiptText right)) + 2 \<le> W \<Longrightarrow> single st \<Longrightarrow> list_all (fits W) (lines (leftRight left right W) st)"
  by (auto intro!: fits_lines leftRight_width)

lemma fits_columns:
  "(\<Sum>c\<leftarrow>cells. co_width c) + (int (length cells) - 1) \<le> W \<Longrightarrow> \<forall>c \<in> set cells. 0 \<le> co_width c \<Longrightarrow> cells \<noteq> [] \<Longrightarrow> single st \<Longrightarrow>
     list_all (fits W) (lines (columns cells 1) st)"
  using columns_width [of _ cells 1] by (intro fits_lines) force+

lemma cell_width [simp]: "co_width (cell tx w) = w" "co_width (right_cell tx w) = w"
  by (simp_all add: cell_def right_cell_def)

text \<open>Plain ASCII stays as it is.\<close>

definition ascii :: "utext \<Rightarrow> bool" where
  "ascii s \<longleftrightarrow> (\<forall>c \<in> set s. 32 \<le> c \<and> c < 127)"

lemma codePoints_small: "\<forall>c \<in> set s. c < 0xD800 \<Longrightarrow> codePoints s = s"
  by (induction s rule: codePoints.induct) auto

lemma normalize_ascii: "ascii s \<Longrightarrow> normalizeReceiptText s = s"
proof -
  assume *: "ascii s"
  then have "codePoints s = s" by (intro codePoints_small) (auto simp: ascii_def)
  moreover have "SUBSTITUTE c = None" if "32 \<le> c \<and> c < 127" for c
    using that by (auto simp: SUBSTITUTE_def)
  ultimately have "normalizeReceiptText s = concat (map (\<lambda>c. [c]) s)"
    using * unfolding normalizeReceiptText_def by (intro arg_cong [where f = concat]) (auto simp: ascii_def code_units_def)
  then show ?thesis by simp
qed

lemma length_nat_digits: "n < 10 ^ k \<Longrightarrow> 0 < k \<Longrightarrow> length (nat_digits n) \<le> k"
proof (induction k arbitrary: n)
  case (Suc k)
  show ?case
  proof (cases "n < 10")
    case False
    with Suc.prems have "n div 10 < 10 ^ k" "0 < k" by (auto simp: less_mult_imp_div_less mult.commute intro: gr0I)
    with Suc.IH [of "n div 10"] False show ?thesis by (simp add: nat_digits.simps [of n])
  qed (simp add: nat_digits.simps [of n])
qed simp

lemma length_group_pairs: "length (group_pairs ds) \<le> 2 * length ds"
proof -
  have "length (concat (map f is)) \<le> 2 * length is" if "\<And>i. length (f i) \<le> 2" for f :: "nat \<Rightarrow> nat list" and "is"
  proof (induction "is")
    case (Cons i "is")
    with that [of i] show ?case by simp
  qed simp
  note bound = this
  show ?thesis unfolding group_pairs_def by (rule order.trans [OF bound]) auto
qed

lemma length_formatAmount:
  assumes "\<bar>v\<bar> \<le> 10 ^ 9" shows "length (formatAmount v) \<le> 24"
proof -
  define n where "n = nat \<bar>js_round (v * 100)\<bar>"
  define w where "w = lit (nat_digits (n div 100))"
  have "js_round (v * 100) \<le> 10 ^ 11" "- (10 ^ 11) \<le> js_round (v * 100)"
    using assms js_round_le_of_int [of "v * 100" "10 ^ 11"] js_round_ge_of_int [of "- (10 ^ 11)" "v * 100"] by auto
  then have "n \<le> 10 ^ 11" by (simp add: n_def)
  then have "n div 100 < 10 ^ 10" by simp
  then have w: "length w \<le> 10" using length_nat_digits [of "n div 100" 10] by (simp add: w_def lit_def)
  define g where "g = (if length w > 3 then group_pairs (take (length w - 3) w) @ [44] @ drop (length w - 3) w else w)"
  have "length g \<le> 20"
    using w length_group_pairs [of "take (length w - 3) w"] by (auto simp: g_def)
  moreover have "formatAmount v = (if v < 0 then [45] else []) @ g @ [46] @ two_digits (n mod 100)"
    by (simp only: formatAmount_def Let_def n_def w_def g_def)
  ultimately show ?thesis by (simp add: two_digits_def)
qed

lemma ascii_append [simp]: "ascii (s @ t) \<longleftrightarrow> ascii s \<and> ascii t"
  by (auto simp: ascii_def)

lemma ascii_Cons [simp]: "ascii (c # s) \<longleftrightarrow> 32 \<le> c \<and> c < 127 \<and> ascii s" and ascii_Nil [simp]: "ascii []"
  by (auto simp: ascii_def)

lemma ascii_digits [simp]: "ascii (lit (nat_digits n))"
  by (auto simp: ascii_def dest!: lit_digit)

lemma ascii_int_text [simp]: "ascii (int_text n)"
  unfolding int_text_def int_string_def by (simp add: lit_def) (simp add: lit_def [symmetric])

lemma ascii_formatAmount [simp]: "ascii (formatAmount v)"
proof -
  have "ascii (group_pairs ds)" if "ascii ds" for ds
    using set_group_pairs [of ds] that by (auto simp: ascii_def)
  moreover have "ascii (take k w)" "ascii (drop k w)" if "ascii w" for k w
    using that by (auto simp: ascii_def dest: in_set_takeD in_set_dropD)
  moreover have "ascii (two_digits (k mod 100))" for k
  proof -
    have "48 \<le> c \<and> c \<le> 57" if "c \<in> set (two_digits (k mod 100))" for c
      by (rule two_digits_ok [OF _ that]) simp
    then show ?thesis unfolding ascii_def by fastforce
  qed
  ultimately show ?thesis by (simp add: formatAmount_def Let_def)
qed

lemma length_int_text: "\<bar>n\<bar> < 10 ^ 9 \<Longrightarrow> length (int_text n) \<le> 10"
  using length_nat_digits [of "nat \<bar>n\<bar>" 9] by (auto simp: int_text_def int_string_def lit_def nat_less_iff)

lemma ascii_lit [simp]: "ascii (lit []) " "ascii (lit (c # s)) \<longleftrightarrow> 32 \<le> (of_char c :: nat) \<and> (of_char c :: nat) < 127 \<and> ascii (lit s)"
  by (simp_all add: lit_def)

lemma length_lit [simp]: "length (lit s) = length s"
  by (simp add: lit_def)

definition payable :: "num \<Rightarrow> bool" where
  "payable v \<longleftrightarrow> \<bar>v\<bar> \<le> 10 ^ 9"

lemma fits_money: "payable v \<Longrightarrow> 32 \<le> W \<Longrightarrow> list_all (fits W) (money_row W label v)"
  using length_formatAmount [of v] by (auto simp: money_row_def payable_def normalize_ascii intro!: fits_leftRight)

lemma payable_minus [simp]: "payable (- v) = payable v"
  by (simp add: payable_def)

definition dated :: "date_parts \<Rightarrow> bool" where
  "dated p \<longleftrightarrow> ascii (formatDateTime p) \<and> length (formatDateTime p) = 16"

lemma fits_date: "dated p \<Longrightarrow> 32 \<le> W \<Longrightarrow> list_all (fits W) (lines (leftRight left (formatDateTime p) W) plain_style)"
  by (auto simp: dated_def normalize_ascii intro!: fits_leftRight)

lemma fits_quantity: "\<bar>n\<bar> < 10 ^ 9 \<Longrightarrow> 32 \<le> W \<Longrightarrow> list_all (fits W) (lines (leftRight left (lit ''Qty: '' @ int_text n) W) plain_style)"
  using length_int_text [of n] by (auto simp: normalize_ascii intro!: fits_leftRight)

text \<open>Documents are put together by appending, by optional parts and by one part for each element of a list.\<close>

lemma fits_append: "list_all (fits W) a \<Longrightarrow> list_all (fits W) b \<Longrightarrow> list_all (fits W) (a @ b)"
  by simp

lemma fits_if: "(c \<Longrightarrow> list_all (fits W) a) \<Longrightarrow> (\<not> c \<Longrightarrow> list_all (fits W) b) \<Longrightarrow> list_all (fits W) (if c then a else b)"
  by simp

lemma fits_concat: "(\<And>x. x \<in> set xs \<Longrightarrow> list_all (fits W) (f x)) \<Longrightarrow> list_all (fits W) (concat (map f xs))"
  by (induction xs) auto

lemma fits_text: "st_size st = None \<Longrightarrow> int (length tx) \<le> W \<Longrightarrow> list_all (fits W) [OpText tx st]"
  by simp

lemma fits_Nil: "list_all (fits W) []" and fits_rule: "list_all (fits W) [OpRule ch]"
  by simp_all

lemmas fits_intros = fits_append fits_if fits_concat fits_text fits_Nil fits_rule

text \<open>What a bill may hold: registration numbers as long as they are issued, a cashier whose name leaves room for the label, amounts up to
  a hundred crore rupees and a date of sixteen characters.\<close>

definition bill_fields :: "int \<Rightarrow> bill_doc \<Rightarrow> bool" where
  "bill_fields W b \<longleftrightarrow>
     (\<forall>g. bl_gstin b = Some g \<longrightarrow> length g \<le> 15) \<and> (\<forall>f. bl_fssaiNumber b = Some f \<longrightarrow> length f \<le> 14)
     \<and> (\<forall>c. bl_cashierName b = Some c \<longrightarrow> int (length (normalizeReceiptText (lit ''By: '' @ c))) + 2 \<le> W)
     \<and> dated (bl_createdAt b) \<and> payable (bl_subtotal b) \<and> (\<forall>d \<in> set (bl_discounts b). payable (snd d))
     \<and> (\<forall>a. bl_serviceCharge b = Some a \<longrightarrow> payable a) \<and> payable (bl_taxableValue b) \<and> (\<forall>t \<in> set (bl_taxLines b). payable (tl_amount t))
     \<and> (\<forall>a. bl_roundOff b = Some a \<longrightarrow> payable a) \<and> payable (bl_total b) \<and> (\<forall>p \<in> set (bl_payments b). payable (snd p))
     \<and> \<bar>\<Sum>i\<leftarrow>filter (\<lambda>i. \<not> bit_isComboComponent i) (bl_items b). bit_quantity i\<bar> < 10 ^ 9"

lemma fits_head:
  assumes "bill_fields W b" "32 \<le> W" shows "list_all (fits W) (bill_head W b)"
proof -
  have "normalizeReceiptText [] = []" by (simp add: normalizeReceiptText_def)
  then have cashier: "list_all (fits W) (lines (leftRight l (if given (bl_cashierName b) then lit ''By: '' @ the (bl_cashierName b) else []) W) plain_style)" for l
    using assms by (auto simp: bill_fields_def given_def intro!: fits_leftRight)
  have "given (bl_gstin b) \<Longrightarrow> length (the (bl_gstin b)) \<le> 15" "given (bl_fssaiNumber b) \<Longrightarrow> length (the (bl_fssaiNumber b)) \<le> 14" "dated (bl_createdAt b)"
    using assms by (auto simp: bill_fields_def given_def)
  with assms(2) show ?thesis unfolding bill_head_def
    by (intro fits_intros fits_para fits_date cashier) simp_all
qed

lemma fits_row: "W = 32 \<or> W = 48 \<Longrightarrow> single st \<Longrightarrow> list_all (fits W) (lines (bill_row W name qty rate amt) st)"
  unfolding bill_row_def by (auto simp: name_width_def intro!: fits_columns)

lemma fits_item: "W = 32 \<or> W = 48 \<Longrightarrow> list_all (fits W) (bill_item_ops W item)"
  unfolding bill_item_ops_def Let_def by (intro fits_intros fits_row fits_columns) (auto simp: name_width_def)

lemma fits_body: "W = 32 \<or> W = 48 \<Longrightarrow> list_all (fits W) (bill_body W b)"
  unfolding bill_body_def by (intro fits_intros fits_row fits_item) simp_all

lemma fits_discount: "payable (snd d) \<Longrightarrow> 32 \<le> W \<Longrightarrow> list_all (fits W) ((\<lambda>(label, a). if a \<noteq> 0 then money_row W label (- a) else []) d)"
  by (cases d) (simp add: fits_money)

lemma fits_total: "payable v \<Longrightarrow> 32 \<le> W \<Longrightarrow> single st \<Longrightarrow> list_all (fits W) (lines (leftRight left (lit ''Rs. '' @ formatAmount v) W) st)"
  using length_formatAmount [of v] by (auto simp: payable_def normalize_ascii intro!: fits_leftRight)

lemma fits_sums: "bill_fields W b \<Longrightarrow> 32 \<le> W \<Longrightarrow> list_all (fits W) (bill_sums W b)"
  unfolding bill_sums_def by (intro fits_intros fits_money fits_total fits_discount) (auto simp: bill_fields_def charged_def)

lemma fits_foot: "bill_fields W b \<Longrightarrow> 32 \<le> W \<Longrightarrow> list_all (fits W) (bill_foot W paper b)"
  unfolding bill_foot_def append.simps
  by (intro fits_intros fits_quantity fits_para) (auto simp: bill_fields_def intro!: fits_concat fits_money)

lemma charsPerLine_cases: "charsPerLine paper = 32 \<or> charsPerLine paper = 48"
  by (simp add: charsPerLine_def)


text \<open>A bill of two dishes, one with a variation, with a discount, tax and a payment.\<close>

definition date0 :: date_parts where
  "date0 = \<lparr> dp_day = lit ''26'', dp_month = lit ''10'', dp_year = lit ''2026'', dp_hour = lit ''14'', dp_minute = lit ''05'' \<rparr>"

definition printed0 :: bill_doc where
  "printed0 = \<lparr> bl_brandName = lit ''Stello'', bl_outletName = lit ''Main Road'', bl_address = None, bl_gstin = Some (lit ''29ABCDE1234F1Z5''),
     bl_fssaiNumber = None, bl_headerLines = [], bl_billNumber = Some (lit ''7''), bl_provisional = False, bl_orderType = DINE_IN,
     bl_tableName = Some (lit ''T1''), bl_customerName = None, bl_customerPhone = None, bl_cashierName = Some (lit ''Asha''), bl_createdAt = date0,
     bl_items = [\<lparr> bit_name = lit ''Paneer tikka with extra chutney'', bit_variationName = Some (lit ''Half''), bit_addons = [], bit_quantity = 2,
       bit_unitPrice = 75, bit_lineTotal = 150, bit_isComboComponent = False \<rparr>],
     bl_subtotal = 150, bl_discounts = [(lit ''Discount'', 15)], bl_serviceCharge = None, bl_taxableValue = 135,
     bl_taxLines = [\<lparr> tl_label = IGST, tl_ratePercent = 5, tl_amount = 27 / 4 \<rparr>], bl_roundOff = None, bl_total = 567 / 4,
     bl_payments = [(''CASH'', 567 / 4)], bl_upiQr = None, bl_footerLines = [lit ''Thank you''], bl_reprint = False \<rparr>"


text \<open>A line total of a lakh has eleven characters, two more than its column on a narrow roll and one more than on a wide one: it is
  broken over two lines.\<close>

lemma lakh_amount_wide: "length (formatAmount 100000) = 11"
proof -
  have "js_round (100000 * 100) = 10000000" using js_round_of_int [of 10000000] by simp
  then show ?thesis by (simp add: formatAmount_def Let_def nat_digits.simps group_pairs_def two_digits_def)
qed

text \<open>Five rates with half a paisa of tax each: the lines sum to a paisa more than the tax of the bill.\<close>

definition taxes1 :: tax_params where
  "taxes1 = \<lparr> tx_lines = [(1 / 10, 5), (1 / 10, 5 + 1 / 100), (1 / 10, 5 + 2 / 100), (1 / 10, 5 + 3 / 100), (1 / 10, 5 + 4 / 100)],
     tx_subtotal = 1 / 2, tx_discountAmount = 0, tx_taxAmount = 3 / 100, tx_interState = True \<rparr>"

lemma tax_lines_over: "(\<Sum>t\<leftarrow>billTaxLines taxes1. toPaise (tl_amount t)) = 4"
  by code_simp

section \<open>Every job encodes\<close>

text \<open>Only a barcode can make the encoder throw. The one barcode a document holds is that of the test page, which it accepts.\<close>

definition sendable :: "print_op \<Rightarrow> bool" where
  "sendable op \<longleftrightarrow> (\<forall>data type e. op = OpBarcode data type \<longrightarrow> (\<exists>e'. barcode data type 80 2 2 e = Inr e'))"

lemma sendable_simps [simp]:
  "sendable (OpText tx st)" "sendable (OpRule ch)" "sendable (OpQr d sz)" "sendable (OpFeed n)" "sendable OpCut" "sendable OpDrawer"
  by (simp_all add: sendable_def)

lemma sendable_test: "sendable (OpBarcode (lit ''STELLO-TEST'') CODE128)"
proof -
  have "char_codes (lit ''{BSTELLO-TEST'') = lit ''{BSTELLO-TEST''" by (simp add: char_codes_def lit_def code_units_def)
  moreover have "lit ''{B'' @ lit ''STELLO-TEST'' = lit ''{BSTELLO-TEST''" by (simp add: lit_def)
  ultimately show ?thesis by (simp add: sendable_def barcode_def Let_def)
qed

lemma encode_op_total: "sendable op \<Longrightarrow> \<exists>e'. encode_op width first op e = Inr e'"
  by (cases op) (auto simp: sendable_def split: sum.split dest!: spec [of _ "justify AlignCenter e"])

lemma encode_ops_total: "list_all sendable ops \<Longrightarrow> \<exists>e'. encode_ops width first ops e = Inr e'"
proof (induction ops arbitrary: e)
  case (Cons op ops)
  then obtain e1 where "encode_op width first op e = Inr e1" using encode_op_total [of op width first e] by auto
  with Cons show ?case by simp
qed simp

lemma encode_copies_total: "list_all sendable (pd_ops doc) \<Longrightarrow> \<exists>e'. encode_copies doc cp cs e = Inr e'"
proof (induction cs arbitrary: e)
  case (Cons first cs)
  from encode_ops_total [OF Cons.prems] obtain e1 where "encode_ops (pd_width doc) first (pd_ops doc) (select_codepage cp (initialize e)) = Inr e1" by blast
  with Cons show ?case by simp
qed simp

lemma sendable_lines: "list_all sendable (lines ls st)" and sendable_para: "list_all sendable (para W tx st)"
  by (simp_all add: lines_def para_def Let_def list_all_iff)

lemma sendable_append: "list_all sendable a \<Longrightarrow> list_all sendable b \<Longrightarrow> list_all sendable (a @ b)"
  and sendable_if: "(c \<Longrightarrow> list_all sendable a) \<Longrightarrow> (\<not> c \<Longrightarrow> list_all sendable b) \<Longrightarrow> list_all sendable (if c then a else b)"
  and sendable_single: "sendable op \<Longrightarrow> list_all sendable [op]" and sendable_Cons: "sendable op \<Longrightarrow> list_all sendable a \<Longrightarrow> list_all sendable (op # a)"
  and sendable_Nil: "list_all sendable []"
  by simp_all

lemma sendable_concat: "(\<And>x. x \<in> set xs \<Longrightarrow> list_all sendable (f x)) \<Longrightarrow> list_all sendable (concat (map f xs))"
  by (induction xs) auto

lemma sendable_money: "list_all sendable (money_row W label v)"
  by (simp add: money_row_def sendable_lines)

lemma sendable_discount: "list_all sendable ((\<lambda>(label, a). if a \<noteq> 0 then money_row W label (- a) else []) d)"
  and sendable_payment: "list_all sendable ((\<lambda>(m, a). money_row W (lit (''  '' @ or_else (MODE_LABEL m) m)) a) p)"
  by (cases d, simp add: sendable_money) (cases p, simp add: sendable_money)

lemmas sendable_intros = sendable_append sendable_if sendable_concat sendable_single sendable_Cons sendable_Nil sendable_lines sendable_para
  sendable_money sendable_discount sendable_payment sendable_simps sendable_test

lemma sendable_payload: "list_all sendable (pd_ops (renderPayload p paper openDrawer))"
proof (cases p)
  case (PrintKot t)
  have "list_all sendable (kot_item_ops W c item)" for W c item unfolding kot_item_ops_def Let_def by (intro sendable_intros)
  then show ?thesis unfolding PrintKot renderPayload.simps renderKot_def Let_def print_doc.simps by (intro sendable_intros)
next
  case (PrintBill b)
  have "list_all sendable (bill_item_ops W item)" for W item unfolding bill_item_ops_def Let_def by (intro sendable_intros)
  then have "list_all sendable (bill_body W b)" for W unfolding bill_body_def by (intro sendable_intros)
  moreover have "list_all sendable (bill_head W b)" for W unfolding bill_head_def by (intro sendable_intros)
  moreover have "list_all sendable (bill_sums W b)" for W unfolding bill_sums_def by (intro sendable_intros)
  moreover have "list_all sendable (bill_foot W paper b)" for W unfolding bill_foot_def by (intro sendable_intros)
  ultimately show ?thesis by (simp add: PrintBill renderBill_def Let_def)
next
  case (PrintTest t)
  show ?thesis unfolding PrintTest renderPayload.simps renderTestPage_def Let_def print_doc.simps by (intro sendable_intros)
qed simp


end
