(* ===== verification/Reservations.thy ===== *)
theory Reservations
  imports Orders
begin

text \<open>
  Table bookings and the waitlist (\<open>apps/api/src/foh/reservations.service.ts\<close>, with the rules of \<open>packages/shared/src/foh.ts\<close>).
  A booking holds its tables for a half-open interval of time; the tables of a reservation are rows of their own. Events to the
  dashboard are not modelled; the notification provider is an argument.
\<close>

section \<open>Rules\<close>

definition MAX_DURATION_MIN :: int where
  "MAX_DURATION_MIN = 480"

definition BLOCKING_RESERVATION_STATUSES :: "reservation_status list" where
  "BLOCKING_RESERVATION_STATUSES = [Booked, Confirmed, Seated]"

fun RESERVATION_TRANSITIONS :: "reservation_status \<Rightarrow> reservation_status list" where
  "RESERVATION_TRANSITIONS Booked = [Confirmed, Seated, NoShow, Cancelled]"
| "RESERVATION_TRANSITIONS Confirmed = [Booked, Seated, NoShow, Cancelled]"
| "RESERVATION_TRANSITIONS Seated = []"
| "RESERVATION_TRANSITIONS NoShow = [Booked]"
| "RESERVATION_TRANSITIONS Cancelled = [Booked]"

definition intervalsOverlap :: "int \<Rightarrow> int \<Rightarrow> int \<Rightarrow> int \<Rightarrow> bool" where
  "intervalsOverlap aStart aMinutes bStart bMinutes \<longleftrightarrow> aStart < bStart + bMinutes * 60000 \<and> bStart < aStart + aMinutes * 60000"

fun reservation_status_name :: "reservation_status \<Rightarrow> string" where
  "reservation_status_name Booked = ''BOOKED''" | "reservation_status_name Confirmed = ''CONFIRMED''" | "reservation_status_name Seated = ''SEATED''"
| "reservation_status_name NoShow = ''NO_SHOW''" | "reservation_status_name Cancelled = ''CANCELLED''"

fun reservation_status_text :: "reservation_status \<Rightarrow> string" where
  "reservation_status_text Booked = ''booked''" | "reservation_status_text Confirmed = ''confirmed''" | "reservation_status_text Seated = ''seated''"
| "reservation_status_text NoShow = ''no_show''" | "reservation_status_text Cancelled = ''cancelled''"

section \<open>Inputs and replies\<close>

record reservation_input =
  rvi_guestName :: string
  rvi_phone :: string
  rvi_partySize :: int
  rvi_startAt :: int
  rvi_durationMinutes :: int
  rvi_tableIds :: "id list"
  rvi_notes :: "string option"
  rvi_source :: reservation_source

record reservation_update =
  rvu_guestName :: "string option"
  rvu_phone :: "string option"
  rvu_partySize :: "int option"
  rvu_startAt :: "int option"
  rvu_durationMinutes :: "int option"
  rvu_tableIds :: "id list option"
  rvu_notes :: "string option"
  rvu_source :: "reservation_source option"

record reservation_customer =
  rvc_id :: id
  rvc_name :: "string option"
  rvc_totalOrders :: int
  rvc_lastVisitAt :: "int option"

record reservation_dto =
  rvd_id :: id
  rvd_guestName :: string
  rvd_phone :: string
  rvd_partySize :: int
  rvd_startAt :: int
  rvd_durationMinutes :: int
  rvd_status :: reservation_status
  rvd_source :: reservation_source
  rvd_notes :: "string option"
  rvd_tables :: "(id \<times> string) list"
  rvd_customer :: "reservation_customer option"
  rvd_seatedAt :: "int option"
  rvd_createdAt :: int

section \<open>Reads\<close>

definition tables_of :: "id \<Rightarrow> db \<Rightarrow> id list" where
  "tables_of i d = map rvt_tableId (filter (\<lambda>t. rvt_reservationId t = i) (reservationTables d))"

definition reservation_dto_of :: "id \<Rightarrow> id \<Rightarrow> db \<Rightarrow> reservation_row \<Rightarrow> reservation_dto" where
  "reservation_dto_of tenantId outletId d r =
    (let table_name = (\<lambda>t. case List.find (\<lambda>x. dt_id x = t \<and> dt_tenantId x = tenantId \<and> dt_outletId x = outletId) (diningTables d) of
           Some x \<Rightarrow> dt_name x | None \<Rightarrow> ''?'')
     in \<lparr> rvd_id = rv_id r, rvd_guestName = rv_guestName r, rvd_phone = rv_phone r, rvd_partySize = rv_partySize r, rvd_startAt = rv_startAt r,
          rvd_durationMinutes = rv_durationMinutes r, rvd_status = rv_status r, rvd_source = rv_source r, rvd_notes = rv_notes r,
          rvd_tables = map (\<lambda>t. (t, table_name t)) (tables_of (rv_id r) d),
          rvd_customer = (if truthy (rv_customerId r)
            then map_option (\<lambda>c. \<lparr> rvc_id = cu_id c, rvc_name = cu_name c, rvc_totalOrders = cu_totalOrders c, rvc_lastVisitAt = cu_lastVisitAt c \<rparr>)
              (List.find (\<lambda>c. Some (cu_id c) = rv_customerId r \<and> cu_tenantId c = tenantId \<and> cu_outletId c = outletId) (customers d))
            else None),
          rvd_seatedAt = rv_seatedAt r, rvd_createdAt = rv_createdAt r \<rparr>)"

definition listReservations :: "auth_user \<Rightarrow> id \<Rightarrow> int option \<Rightarrow> int option \<Rightarrow> db \<Rightarrow> reservation_dto list result" where
  "listReservations user outletId from to d =
    ebind (assertOutlet user outletId) (\<lambda>_.
    ebind (require (from \<noteq> None \<and> to \<noteq> None \<and> the from < the to) (BadRequest [Txt ''Invalid date range''])) (\<lambda>_.
      Inr (map (reservation_dto_of (u_tenantId user) outletId d) (sort_key rv_startAt (filter (\<lambda>r. rv_tenantId r = u_tenantId user
        \<and> rv_outletId r = outletId \<and> the from \<le> rv_startAt r \<and> rv_startAt r < the to) (reservations d))))))"

definition lockReservation :: "id \<Rightarrow> id \<Rightarrow> id \<Rightarrow> db \<Rightarrow> reservation_row result" where
  "lockReservation tenantId outletId i d =
     some_or (List.find (\<lambda>r. rv_id r = i \<and> rv_tenantId r = tenantId \<and> rv_outletId r = outletId) (reservations d)) (NotFound [Txt ''Reservation not found''])"

definition getOne :: "auth_user \<Rightarrow> id \<Rightarrow> id \<Rightarrow> db \<Rightarrow> reservation_dto result" where
  "getOne user outletId i d =
    ebind (lockReservation (u_tenantId user) outletId i d) (\<lambda>r. Inr (reservation_dto_of (u_tenantId user) outletId d r))"

section \<open>The conflict check\<close>

text \<open>The scan looks at the reservations that start within the longest duration before the booking, and before its end.\<close>

definition candidates :: "id \<Rightarrow> id \<Rightarrow> id list \<Rightarrow> int \<Rightarrow> int \<Rightarrow> id option \<Rightarrow> db \<Rightarrow> reservation_row list" where
  "candidates tenantId outletId ids startAt durationMinutes excludeId d =
     filter (\<lambda>r. rv_tenantId r = tenantId \<and> rv_outletId r = outletId \<and> rv_status r \<in> set BLOCKING_RESERVATION_STATUSES
       \<and> startAt - MAX_DURATION_MIN * 60000 < rv_startAt r \<and> rv_startAt r < startAt + durationMinutes * 60000
       \<and> (\<exists>t \<in> set (tables_of (rv_id r) d). t \<in> set ids) \<and> excludeId \<noteq> Some (rv_id r)) (reservations d)"

definition lockAndCheck :: "id \<Rightarrow> id \<Rightarrow> id list \<Rightarrow> int \<Rightarrow> int \<Rightarrow> id option \<Rightarrow> db \<Rightarrow> unit result" where
  "lockAndCheck tenantId outletId tableIds startAt durationMinutes excludeId d =
    (let ids = sort (js_set tableIds);
         locked = filter (\<lambda>t. dt_id t \<in> set ids \<and> dt_tenantId t = tenantId \<and> dt_outletId t = outletId) (diningTables d)
     in if ids = [] then Inr ()
        else ebind (require (length locked = length ids) (BadRequest [Txt ''Table not found in this outlet''])) (\<lambda>_.
          case List.find (\<lambda>r. intervalsOverlap startAt durationMinutes (rv_startAt r) (rv_durationMinutes r))
                 (candidates tenantId outletId ids startAt durationMinutes excludeId d) of
            None \<Rightarrow> Inr ()
          | Some r \<Rightarrow> Inl (Conflict [Txt ((case List.find (\<lambda>n. n \<noteq> []) (map (\<lambda>t. case List.find (\<lambda>x. dt_id x = t) locked of Some x \<Rightarrow> dt_name x | None \<Rightarrow> [])
                 (tables_of (rv_id r) d)) of Some n \<Rightarrow> n | None \<Rightarrow> ''Table'') @ '' is already reserved for '' @ rv_guestName r @ '' (''),
               Num (of_int (rv_startAt r)), Txt '')''])))"

definition assertTableFree :: "id \<Rightarrow> id \<Rightarrow> id \<Rightarrow> db \<Rightarrow> unit result" where
  "assertTableFree tenantId outletId tableId d =
    ebind (lockTable tenantId outletId tableId d) (\<lambda>_.
      require (\<not> (\<exists>r \<in> set (orders d). o_tenantId r = tenantId \<and> o_outletId r = outletId \<and> o_tableId r = Some tableId \<and> o_status r \<in> {OPEN, BILLED}))
        (Conflict [Txt ''That table still has a running order'']))"

section \<open>Bookings\<close>

definition customer_by_phone :: "id \<Rightarrow> id \<Rightarrow> string \<Rightarrow> db \<Rightarrow> id option" where
  "customer_by_phone tenantId outletId phone d =
     map_option cu_id (List.find (\<lambda>c. cu_tenantId c = tenantId \<and> cu_outletId c = outletId \<and> cu_phone c = phone) (customers d))"

definition link_tables :: "id \<Rightarrow> id list \<Rightarrow> db \<Rightarrow> db" where
  "link_tables i tableIds = reservationTables_update (\<lambda>ts. ts @ map (\<lambda>t. \<lparr> rvt_reservationId = i, rvt_tableId = t \<rparr>) (js_set tableIds))"

definition set_reservation :: "id \<Rightarrow> (reservation_row \<Rightarrow> reservation_row) \<Rightarrow> db \<Rightarrow> db" where
  "set_reservation i f = reservations_update (set_row rv_id i f)"

definition new_reservation :: "env \<Rightarrow> auth_user \<Rightarrow> id \<Rightarrow> reservation_input \<Rightarrow> id \<Rightarrow> db \<Rightarrow> reservation_row" where
  "new_reservation e user outletId input i d = \<lparr> rv_id = i, rv_tenantId = u_tenantId user, rv_outletId = outletId, rv_guestName = rvi_guestName input,
     rv_phone = rvi_phone input, rv_partySize = rvi_partySize input, rv_startAt = rvi_startAt input, rv_durationMinutes = rvi_durationMinutes input,
     rv_status = Booked, rv_source = rvi_source input, rv_notes = rvi_notes input,
     rv_customerId = customer_by_phone (u_tenantId user) outletId (rvi_phone input) d, rv_createdById = Some (u_id user), rv_seatedAt = None,
     rv_createdAt = e_now e \<rparr>"

definition createReservation :: "env \<Rightarrow> auth_user \<Rightarrow> id \<Rightarrow> reservation_input \<Rightarrow> db \<Rightarrow> (reservation_dto \<times> db) result" where
  "createReservation e user outletId input d =
    ebind (assertOutlet user outletId) (\<lambda>_.
    ebind (lockAndCheck (u_tenantId user) outletId (rvi_tableIds input) (rvi_startAt input) (rvi_durationMinutes input) None d) (\<lambda>_.
      case fresh e d of (i, d1) \<Rightarrow>
      let d2 = reservations_update (\<lambda>rs. rs @ [new_reservation e user outletId input i d]) d1;
          d3 = audit (u_tenantId user) (Some (u_id user)) ''RESERVATION_CREATED'' ''reservation'' i (link_tables i (rvi_tableIds input) d2)
      in ebind (getOne user outletId i d3) (\<lambda>dto. Inr (dto, d3))))"

definition edit_reservation :: "reservation_update \<Rightarrow> int \<Rightarrow> int \<Rightarrow> id option \<Rightarrow> reservation_row \<Rightarrow> reservation_row" where
  "edit_reservation input startAt duration customerId r = r\<lparr> rv_guestName := or_else (rvu_guestName input) (rv_guestName r),
     rv_phone := or_else (rvu_phone input) (rv_phone r), rv_partySize := or_else (rvu_partySize input) (rv_partySize r), rv_startAt := startAt,
     rv_durationMinutes := duration, rv_notes := coalesce (rvu_notes input) (rv_notes r), rv_source := or_else (rvu_source input) (rv_source r),
     rv_customerId := customerId \<rparr>"

definition replace_tables :: "id \<Rightarrow> id list option \<Rightarrow> db \<Rightarrow> db" where
  "replace_tables i tableIds d = (case tableIds of None \<Rightarrow> d
     | Some ts \<Rightarrow> link_tables i ts (reservationTables_update (filter (\<lambda>t. rvt_reservationId t \<noteq> i)) d))"

definition updateReservation :: "auth_user \<Rightarrow> id \<Rightarrow> id \<Rightarrow> reservation_update \<Rightarrow> db \<Rightarrow> (reservation_dto \<times> db) result" where
  "updateReservation user outletId i input d =
    ebind (assertOutlet user outletId) (\<lambda>_.
    ebind (lockReservation (u_tenantId user) outletId i d) (\<lambda>current.
    ebind (require (rv_status current \<in> set BLOCKING_RESERVATION_STATUSES \<and> rv_status current \<noteq> Seated)
        (BadRequest [Txt (''A '' @ (if rv_status current = NoShow then ''no-show'' else reservation_status_text (rv_status current)) @ '' reservation cannot be edited'')])) (\<lambda>_.
      let tableIds = or_else (rvu_tableIds input) (tables_of i d); startAt = or_else (rvu_startAt input) (rv_startAt current);
          duration = or_else (rvu_durationMinutes input) (rv_durationMinutes current)
      in ebind (lockAndCheck (u_tenantId user) outletId tableIds startAt duration (Some i) d) (\<lambda>_.
           let customerId = customer_by_phone (u_tenantId user) outletId (or_else (rvu_phone input) (rv_phone current)) d;
               d2 = replace_tables i (rvu_tableIds input) (set_reservation i (edit_reservation input startAt duration customerId) d)
           in ebind (getOne user outletId i d2) (\<lambda>dto. Inr (dto, d2))))))"

text \<open>Reinstating a reservation claims its tables again, so it passes the conflict check again.\<close>

definition setReservationStatus :: "auth_user \<Rightarrow> id \<Rightarrow> id \<Rightarrow> reservation_status \<Rightarrow> db \<Rightarrow> (reservation_dto \<times> db) result" where
  "setReservationStatus user outletId i status d =
    ebind (assertOutlet user outletId) (\<lambda>_.
    ebind (require (status \<noteq> Seated) (BadRequest [Txt ''Use seat to seat a reservation''])) (\<lambda>_.
    ebind (lockReservation (u_tenantId user) outletId i d) (\<lambda>current.
    ebind (require (status \<in> set (RESERVATION_TRANSITIONS (rv_status current)))
        (BadRequest [Txt (''Cannot move a '' @ reservation_status_text (rv_status current) @ '' reservation to '' @ reservation_status_text status)])) (\<lambda>_.
    ebind (if status = Booked \<and> rv_status current \<notin> set BLOCKING_RESERVATION_STATUSES
           then lockAndCheck (u_tenantId user) outletId (tables_of i d) (rv_startAt current) (rv_durationMinutes current) (Some i) d else Inr ()) (\<lambda>_.
      let d2 = audit (u_tenantId user) (Some (u_id user)) (''RESERVATION_'' @ reservation_status_name status) ''reservation'' i
                 (set_reservation i (\<lambda>r. r\<lparr>rv_status := status\<rparr>) d)
      in ebind (getOne user outletId i d2) (\<lambda>dto. Inr (dto, d2)))))))"

definition seat_target :: "id option \<Rightarrow> id \<Rightarrow> db \<Rightarrow> id option" where
  "seat_target tableId i d = coalesce tableId (case tables_of i d of [] \<Rightarrow> None | t # _ \<Rightarrow> Some t)"

definition seat :: "env \<Rightarrow> auth_user \<Rightarrow> id \<Rightarrow> id \<Rightarrow> id option \<Rightarrow> db \<Rightarrow> ((id \<times> reservation_dto) \<times> db) result" where
  "seat e user outletId i tableId d =
    ebind (assertOutlet user outletId) (\<lambda>_.
    ebind (lockReservation (u_tenantId user) outletId i d) (\<lambda>current.
    ebind (require (rv_status current = Booked \<or> rv_status current = Confirmed)
        (BadRequest [Txt (''A '' @ reservation_status_text (rv_status current) @ '' reservation cannot be seated'')])) (\<lambda>_.
    ebind (require (truthy (seat_target tableId i d)) (BadRequest [Txt ''Pick a table to seat this party''])) (\<lambda>_.
      let target = the (seat_target tableId i d)
      in ebind (assertTableFree (u_tenantId user) outletId target d) (\<lambda>_.
           let d1 = (if target \<in> set (tables_of i d) then d else reservationTables_update (\<lambda>ts. ts @ [\<lparr> rvt_reservationId = i, rvt_tableId = target \<rparr>]) d);
               d2 = audit (u_tenantId user) (Some (u_id user)) ''RESERVATION_SEATED'' ''reservation'' i
                      (set_reservation i (\<lambda>r. r\<lparr>rv_status := Seated, rv_seatedAt := Some (e_now e)\<rparr>) d1)
           in ebind (getOne user outletId i d2) (\<lambda>dto. Inr ((target, dto), d2)))))))"

section \<open>The waitlist\<close>

record waitlist_input =
  wli_guestName :: string
  wli_phone :: "string option"
  wli_partySize :: int
  wli_quotedMinutes :: int
  wli_notes :: "string option"

definition waitlist :: "env \<Rightarrow> auth_user \<Rightarrow> id \<Rightarrow> db \<Rightarrow> waitlist_row list result" where
  "waitlist e user outletId d =
    ebind (assertOutlet user outletId) (\<lambda>_.
      Inr (sort_key wl_createdAt (filter (\<lambda>w. wl_tenantId w = u_tenantId user \<and> wl_outletId w = outletId
        \<and> (wl_status w \<in> {Waiting, Notified} \<or> e_now e - 12 * 3600000 \<le> wl_createdAt w)) (waitlistEntries d))))"

definition addToWaitlist :: "env \<Rightarrow> auth_user \<Rightarrow> id \<Rightarrow> waitlist_input \<Rightarrow> db \<Rightarrow> (waitlist_row \<times> db) result" where
  "addToWaitlist e user outletId input d =
    ebind (assertOutlet user outletId) (\<lambda>_.
      case fresh e d of (i, d1) \<Rightarrow>
      let w = \<lparr> wl_id = i, wl_tenantId = u_tenantId user, wl_outletId = outletId, wl_guestName = wli_guestName input, wl_phone = wli_phone input,
           wl_partySize = wli_partySize input, wl_quotedMinutes = wli_quotedMinutes input, wl_status = Waiting, wl_notes = wli_notes input, wl_tableId = None,
           wl_customerId = (if truthy (wli_phone input) then customer_by_phone (u_tenantId user) outletId (the (wli_phone input)) d else None),
           wl_notifiedAt = None, wl_seatedAt = None, wl_createdAt = e_now e \<rparr>
      in Inr (w, waitlistEntries_update (\<lambda>ws. ws @ [w]) d1))"

definition requireEntry :: "auth_user \<Rightarrow> id \<Rightarrow> id \<Rightarrow> db \<Rightarrow> waitlist_row result" where
  "requireEntry user outletId i d =
     some_or (List.find (\<lambda>w. wl_id w = i \<and> wl_tenantId w = u_tenantId user \<and> wl_outletId w = outletId) (waitlistEntries d))
       (NotFound [Txt ''Waitlist entry not found''])"

definition set_entry :: "id \<Rightarrow> (waitlist_row \<Rightarrow> waitlist_row) \<Rightarrow> db \<Rightarrow> db" where
  "set_entry i f = waitlistEntries_update (set_row wl_id i f)"

definition still_waiting :: "waitlist_row \<Rightarrow> unit result" where
  "still_waiting w = require (wl_status w \<in> {Waiting, Notified}) (BadRequest [Txt ''Guest is no longer waiting''])"

text \<open>The provider gets the number and the message, and may fail.\<close>

definition notify :: "(string \<Rightarrow> string \<Rightarrow> unit result) \<Rightarrow> env \<Rightarrow> auth_user \<Rightarrow> id \<Rightarrow> id \<Rightarrow> db \<Rightarrow> (waitlist_row \<times> db) result" where
  "notify send e user outletId i d =
    ebind (assertOutlet user outletId) (\<lambda>_.
    ebind (requireEntry user outletId i d) (\<lambda>entry.
    ebind (still_waiting entry) (\<lambda>_.
    ebind (require (truthy (wl_phone entry)) (BadRequest [Txt ''No phone number on this waitlist entry''])) (\<lambda>_.
    ebind (some_or (List.find (\<lambda>u. ou_id u = outletId \<and> ou_tenantId u = u_tenantId user) (outlets d)) RowMissing) (\<lambda>outlet.
    ebind (send (the (wl_phone entry)) (''Hi '' @ wl_guestName entry @ '', your table at '' @ ou_name outlet @ '' is ready. Please see the host.'')) (\<lambda>_.
      let w = entry\<lparr>wl_status := Notified, wl_notifiedAt := Some (e_now e)\<rparr>
      in Inr (w, set_entry i (\<lambda>w. w\<lparr>wl_status := Notified, wl_notifiedAt := Some (e_now e)\<rparr>) d)))))))"

definition seatFromWaitlist :: "env \<Rightarrow> auth_user \<Rightarrow> id \<Rightarrow> id \<Rightarrow> id \<Rightarrow> db \<Rightarrow> ((id \<times> waitlist_row) \<times> db) result" where
  "seatFromWaitlist e user outletId i tableId d =
    ebind (assertOutlet user outletId) (\<lambda>_.
    ebind (requireEntry user outletId i d) (\<lambda>entry.
    ebind (still_waiting entry) (\<lambda>_.
    ebind (assertTableFree (u_tenantId user) outletId tableId d) (\<lambda>_.
      let f = (\<lambda>w. w\<lparr>wl_status := WaitSeated, wl_seatedAt := Some (e_now e), wl_tableId := Some tableId\<rparr>)
      in Inr ((tableId, f entry), set_entry i f d)))))"

definition leaveWaitlist :: "auth_user \<Rightarrow> id \<Rightarrow> id \<Rightarrow> db \<Rightarrow> (waitlist_row \<times> db) result" where
  "leaveWaitlist user outletId i d =
    ebind (assertOutlet user outletId) (\<lambda>_.
    ebind (requireEntry user outletId i d) (\<lambda>_.
      let here = (\<lambda>w. wl_id w = i \<and> wl_tenantId w = u_tenantId user \<and> wl_outletId w = outletId \<and> wl_status w \<in> {Waiting, Notified});
          d1 = waitlistEntries_update (update_where here (\<lambda>w. w\<lparr>wl_status := Left\<rparr>)) d
      in ebind (require (\<exists>w \<in> set (waitlistEntries d). here w) (BadRequest [Txt ''Guest is no longer waiting''])) (\<lambda>_.
         ebind (requireEntry user outletId i d1) (\<lambda>w. Inr (w, d1)))))"

end
