(* ===== verification/Booking_Laws.thy ===== *)
theory Booking_Laws
  imports Reservations
begin

text \<open>
  What a booking promises: two reservations never hold a table at the same time. The conflict check only reads the reservations
  that start within the longest duration, which is enough because no reservation lasts longer.
\<close>

section \<open>Held tables\<close>

definition blocking :: "reservation_row \<Rightarrow> bool" where
  "blocking r \<longleftrightarrow> rv_status r \<in> set BLOCKING_RESERVATION_STATUSES"

definition meets :: "reservation_row \<Rightarrow> reservation_row \<Rightarrow> bool" where
  "meets r s \<longleftrightarrow> intervalsOverlap (rv_startAt r) (rv_durationMinutes r) (rv_startAt s) (rv_durationMinutes s)"

definition rivals :: "reservation_row \<Rightarrow> id list \<Rightarrow> reservation_row \<Rightarrow> id list \<Rightarrow> bool" where
  "rivals r ts s us \<longleftrightarrow> rv_id r \<noteq> rv_id s \<and> rv_tenantId r = rv_tenantId s \<and> rv_outletId r = rv_outletId s \<and> blocking r \<and> blocking s
     \<and> set ts \<inter> set us \<noteq> {} \<and> meets r s"

lemma meets_sym: "meets r s = meets s r"
  by (auto simp: meets_def intervalsOverlap_def)

lemma rivals_sym: "rivals r ts s us = rivals s us r ts"
  by (auto simp: rivals_def meets_sym)

definition bookings_ok :: "(nat \<Rightarrow> id) \<Rightarrow> db \<Rightarrow> bool" where
  "bookings_ok src d \<longleftrightarrow> distinct (map rv_id (reservations d)) \<and> rv_id ` set (reservations d) \<subseteq> src ` {..<seq d}
     \<and> rvt_reservationId ` set (reservationTables d) \<subseteq> rv_id ` set (reservations d)
     \<and> (\<forall>r \<in> set (reservations d). rv_durationMinutes r \<le> MAX_DURATION_MIN)
     \<and> (\<forall>r \<in> set (reservations d). \<forall>s \<in> set (reservations d). \<not> rivals r (tables_of (rv_id r) d) s (tables_of (rv_id s) d))"

lemma bookings_same: "reservations d' = reservations d \<Longrightarrow> reservationTables d' = reservationTables d \<Longrightarrow> seq d \<le> seq d' \<Longrightarrow> bookings_ok src d \<Longrightarrow> bookings_ok src d'"
  unfolding bookings_ok_def tables_of_def by (elim conjE, intro conjI) (simp_all only:, erule (1) drawn_mono)

section \<open>The scan finds every clash\<close>

text \<open>Since no reservation is longer than the scanned window, the check passes exactly when no reservation holds one of the tables at that time.\<close>

definition taken_by :: "id \<Rightarrow> id \<Rightarrow> id list \<Rightarrow> int \<Rightarrow> int \<Rightarrow> id option \<Rightarrow> db \<Rightarrow> reservation_row \<Rightarrow> bool" where
  "taken_by tenantId outletId tableIds startAt duration excludeId d r \<longleftrightarrow>
     rv_tenantId r = tenantId \<and> rv_outletId r = outletId \<and> blocking r \<and> excludeId \<noteq> Some (rv_id r)
     \<and> set tableIds \<inter> set (tables_of (rv_id r) d) \<noteq> {} \<and> intervalsOverlap startAt duration (rv_startAt r) (rv_durationMinutes r)"

definition known_tables :: "id \<Rightarrow> id \<Rightarrow> id list \<Rightarrow> db \<Rightarrow> bool" where
  "known_tables tenantId outletId tableIds d \<longleftrightarrow>
     (\<forall>i \<in> set tableIds. \<exists>t \<in> set (diningTables d). dt_id t = i \<and> dt_tenantId t = tenantId \<and> dt_outletId t = outletId)"

lemma scan_complete:
  assumes "\<forall>r \<in> set (reservations d). rv_durationMinutes r \<le> MAX_DURATION_MIN" "set ids = set tableIds"
  shows "List.find (\<lambda>r. intervalsOverlap startAt duration (rv_startAt r) (rv_durationMinutes r)) (candidates tenantId outletId ids startAt duration excludeId d) = None
    \<longleftrightarrow> (\<forall>r \<in> set (reservations d). \<not> taken_by tenantId outletId tableIds startAt duration excludeId d r)"
proof -
  have "taken_by tenantId outletId tableIds startAt duration excludeId d r \<longleftrightarrow>
      r \<in> set (candidates tenantId outletId ids startAt duration excludeId d) \<and> intervalsOverlap startAt duration (rv_startAt r) (rv_durationMinutes r)"
    if r: "r \<in> set (reservations d)" for r
  proof -
    from assms(1) r have "rv_durationMinutes r \<le> 480" by (simp add: MAX_DURATION_MIN_def)
    then have "intervalsOverlap startAt duration (rv_startAt r) (rv_durationMinutes r) \<Longrightarrow> startAt - MAX_DURATION_MIN * 60000 < rv_startAt r"
      unfolding intervalsOverlap_def MAX_DURATION_MIN_def by linarith
    with r assms(2) show ?thesis by (auto simp: candidates_def taken_by_def blocking_def intervalsOverlap_def)
  qed
  moreover have "set (candidates tenantId outletId ids startAt duration excludeId d) \<subseteq> set (reservations d)" by (auto simp: candidates_def)
  ultimately show ?thesis unfolding find_None_iff_ball by blast
qed

lemma locked_all:
  assumes "distinct (map dt_id (diningTables d))" "distinct ids"
  shows "length (filter (\<lambda>t. dt_id t \<in> set ids \<and> dt_tenantId t = tenantId \<and> dt_outletId t = outletId) (diningTables d)) = length ids
    \<longleftrightarrow> known_tables tenantId outletId ids d"
proof -
  define locked where "locked = filter (\<lambda>t. dt_id t \<in> set ids \<and> dt_tenantId t = tenantId \<and> dt_outletId t = outletId) (diningTables d)"
  have "distinct (map dt_id locked)" using assms(1) by (simp add: locked_def distinct_map_filter)
  then have "length locked = card (dt_id ` set locked)" by (metis distinct_card length_map set_map)
  moreover have "length ids = card (set ids)" using assms(2) by (simp add: distinct_card)
  moreover have "dt_id ` set locked \<subseteq> set ids" by (auto simp: locked_def)
  ultimately have "length locked = length ids \<longleftrightarrow> dt_id ` set locked = set ids"
    by (metis card_subset_eq List.finite_set)
  also have "\<dots> \<longleftrightarrow> known_tables tenantId outletId ids d"
  proof
    assume all: "dt_id ` set locked = set ids"
    have "\<exists>t \<in> set (diningTables d). dt_id t = i \<and> dt_tenantId t = tenantId \<and> dt_outletId t = outletId" if "i \<in> set ids" for i
      using that unfolding all [symmetric] by (auto simp: locked_def)
    then show "known_tables tenantId outletId ids d" by (simp add: known_tables_def)
  next
    assume "known_tables tenantId outletId ids d"
    then show "dt_id ` set locked = set ids" by (fastforce simp: locked_def known_tables_def)
  qed
  finally show ?thesis by (simp add: locked_def)
qed

lemma check_passes:
  assumes "\<forall>r \<in> set (reservations d). rv_durationMinutes r \<le> MAX_DURATION_MIN" "lockAndCheck tenantId outletId tableIds startAt duration excludeId d = Inr u"
  shows "\<forall>r \<in> set (reservations d). \<not> taken_by tenantId outletId tableIds startAt duration excludeId d r"
proof (cases "tableIds = []")
  case False
  then have "sort (js_set tableIds) \<noteq> []" by (metis set_empty set_js_set set_sort)
  with assms(2) have "List.find (\<lambda>r. intervalsOverlap startAt duration (rv_startAt r) (rv_durationMinutes r))
      (candidates tenantId outletId (sort (js_set tableIds)) startAt duration excludeId d) = None"
    by (auto simp: lockAndCheck_def Let_def guard_simps split: option.splits)
  with scan_complete [OF assms(1), of "sort (js_set tableIds)" tableIds] show ?thesis by simp
qed (simp add: taken_by_def)

lemma check_iff:
  assumes "\<forall>r \<in> set (reservations d). rv_durationMinutes r \<le> MAX_DURATION_MIN" "distinct (map dt_id (diningTables d))"
  shows "lockAndCheck tenantId outletId tableIds startAt duration excludeId d = Inr () \<longleftrightarrow>
    known_tables tenantId outletId tableIds d \<and> (\<forall>r \<in> set (reservations d). \<not> taken_by tenantId outletId tableIds startAt duration excludeId d r)"
proof (cases "tableIds = []")
  case True
  then show ?thesis by (simp add: lockAndCheck_def js_set_def known_tables_def taken_by_def)
next
  case False
  define ids where "ids = sort (js_set tableIds)"
  have ids: "set ids = set tableIds" "distinct ids" "ids \<noteq> []"
    using False by (auto simp: ids_def) (metis set_empty set_js_set set_sort)
  have "known_tables tenantId outletId ids d = known_tables tenantId outletId tableIds d" by (simp add: known_tables_def ids(1))
  moreover have "lockAndCheck tenantId outletId tableIds startAt duration excludeId d = Inr () \<longleftrightarrow>
      length (filter (\<lambda>t. dt_id t \<in> set ids \<and> dt_tenantId t = tenantId \<and> dt_outletId t = outletId) (diningTables d)) = length ids
      \<and> List.find (\<lambda>r. intervalsOverlap startAt duration (rv_startAt r) (rv_durationMinutes r)) (candidates tenantId outletId ids startAt duration excludeId d) = None"
    using ids(3) by (simp add: lockAndCheck_def Let_def ids_def [symmetric] require_def split: option.splits)
  ultimately show ?thesis
    using locked_all [OF assms(2) ids(2)] scan_complete [OF assms(1) ids(1)] by simp
qed

section \<open>Every service keeps the bookings apart\<close>

text \<open>One reservation is written or its tables change; the others stay, and it clashes with none of them.\<close>

lemma bookings_write:
  assumes ok: "bookings_ok src d" and ids: "distinct (map rv_id (reservations d'))" "rv_id ` set (reservations d') \<subseteq> src ` {..<seq d'}"
    and links: "rvt_reservationId ` set (reservationTables d') \<subseteq> rv_id ` set (reservations d')"
    and r: "r \<in> set (reservations d')" "rv_durationMinutes r \<le> MAX_DURATION_MIN"
    and others: "\<And>s. s \<in> set (reservations d') \<Longrightarrow> rv_id s \<noteq> rv_id r \<Longrightarrow> s \<in> set (reservations d) \<and> tables_of (rv_id s) d' = tables_of (rv_id s) d"
    and apart: "\<And>s. s \<in> set (reservations d) \<Longrightarrow> rv_id s \<noteq> rv_id r \<Longrightarrow> \<not> rivals r (tables_of (rv_id r) d') s (tables_of (rv_id s) d)"
  shows "bookings_ok src d'"
proof -
  have same: "s = r" if "s \<in> set (reservations d')" "rv_id s = rv_id r" for s
    using ids(1) that r(1) by (auto simp: distinct_map dest: inj_onD)
  have "rv_durationMinutes s \<le> MAX_DURATION_MIN" if "s \<in> set (reservations d')" for s
    using ok r(2) others [OF that] same [OF that] by (cases "rv_id s = rv_id r") (auto simp: bookings_ok_def)
  moreover have "\<not> rivals s (tables_of (rv_id s) d') t (tables_of (rv_id t) d')" if "s \<in> set (reservations d')" "t \<in> set (reservations d')" for s t
  proof (cases "rv_id s = rv_id r"; cases "rv_id t = rv_id r")
    assume "rv_id s = rv_id r" "rv_id t = rv_id r"
    then show ?thesis by (simp add: rivals_def)
  next
    assume "rv_id s = rv_id r" "rv_id t \<noteq> rv_id r"
    with same [OF that(1)] others [OF that(2)] apart [of t] show ?thesis by simp
  next
    assume "rv_id s \<noteq> rv_id r" "rv_id t = rv_id r"
    with same [OF that(2)] others [OF that(1)] apart [of s] show ?thesis by (simp add: rivals_sym [of s])
  next
    assume "rv_id s \<noteq> rv_id r" "rv_id t \<noteq> rv_id r"
    with others [OF that(1)] others [OF that(2)] ok show ?thesis by (simp add: bookings_ok_def)
  qed
  ultimately show ?thesis using ids links by (simp add: bookings_ok_def)
qed

lemma not_rivals:
  assumes "\<not> taken_by (rv_tenantId r) (rv_outletId r) ts (rv_startAt r) (rv_durationMinutes r) excludeId d s"
    and "excludeId \<noteq> Some (rv_id s)" "set us \<subseteq> set ts"
  shows "\<not> rivals r us s (tables_of (rv_id s) d)"
  using assms by (auto simp: taken_by_def rivals_def meets_def)

lemma tables_of_link: "tables_of i (link_tables j ts d) = tables_of i d @ (if i = j then js_set ts else [])"
  by (simp add: tables_of_def link_tables_def filter_map o_def)

lemma getOne_state: "ebind (getOne user outletId i d') (\<lambda>dto. Inr (dto, d')) = Inr (dto, d'') \<Longrightarrow> d'' = d'"
  by (auto simp: guard_simps)

lemma lockReservation_Some:
  "lockReservation tenantId outletId i d = Inr r \<Longrightarrow> r \<in> set (reservations d) \<and> rv_id r = i \<and> rv_tenantId r = tenantId \<and> rv_outletId r = outletId"
  by (auto simp: lockReservation_def guard_simps dest!: find_SomeD)

lemma createReservation_ok:
  assumes run: "createReservation e user outletId input d = Inr (dto, d')" and ok: "bookings_ok (e_cuid e) d" and src: "inj (e_cuid e)"
    and short: "rvi_durationMinutes input \<le> MAX_DURATION_MIN"
  shows "bookings_ok (e_cuid e) d'"
proof -
  define i where "i = e_cuid e (seq d)"
  define r where "r = new_reservation e user outletId input i d"
  from run have check: "lockAndCheck (u_tenantId user) outletId (rvi_tableIds input) (rvi_startAt input) (rvi_durationMinutes input) None d = Inr ()"
    and d': "d' = audit (u_tenantId user) (Some (u_id user)) ''RESERVATION_CREATED'' ''reservation'' i
      (link_tables i (rvi_tableIds input) (reservations_update (\<lambda>rs. rs @ [r]) (d\<lparr>seq := seq d + 1\<rparr>)))"
    by (auto simp: createReservation_def guard_simps fresh_def Let_def i_def r_def)
  have rows: "reservations d' = reservations d @ [r]" "seq d' = seq d + 1"
    and links: "reservationTables d' = reservationTables d @ map (\<lambda>t. \<lparr> rvt_reservationId = i, rvt_tableId = t \<rparr>) (js_set (rvi_tableIds input))"
    by (simp_all add: d' audit_def link_tables_def)
  have r: "rv_id r = i" "rv_tenantId r = u_tenantId user" "rv_outletId r = outletId" "rv_startAt r = rvi_startAt input" "rv_durationMinutes r = rvi_durationMinutes input"
    by (simp_all add: r_def new_reservation_def)
  have new: "i \<notin> rv_id ` set (reservations d)" unfolding i_def using ok by (intro unused_id [OF src]) (simp add: bookings_ok_def)
  then have none: "filter (\<lambda>t. rvt_reservationId t = i) (reservationTables d) = []"
    using ok by (auto simp: bookings_ok_def filter_empty_conv)
  have tables: "tables_of s d' = tables_of s d @ (if s = i then js_set (rvi_tableIds input) else [])" for s
    by (simp add: tables_of_def links filter_map o_def)
  have passed: "\<forall>s \<in> set (reservations d). \<not> taken_by (u_tenantId user) outletId (rvi_tableIds input) (rvi_startAt input) (rvi_durationMinutes input) None d s"
    using check_passes [OF _ check] ok by (simp add: bookings_ok_def)
  show ?thesis
  proof (rule bookings_write [OF ok, where r = r])
    show "distinct (map rv_id (reservations d'))" using ok new by (simp add: rows r bookings_ok_def)
    have "rv_id ` set (reservations d) \<subseteq> e_cuid e ` {..<seq d + 1}" "i \<in> e_cuid e ` {..<seq d + 1}"
      using ok by (simp_all only: bookings_ok_def drawn_next i_def)
    then show "rv_id ` set (reservations d') \<subseteq> e_cuid e ` {..<seq d'}" by (simp add: rows r del: lessThan_Suc)
    show "rvt_reservationId ` set (reservationTables d') \<subseteq> rv_id ` set (reservations d')" using ok by (auto simp: links rows r bookings_ok_def)
    show "r \<in> set (reservations d')" "rv_durationMinutes r \<le> MAX_DURATION_MIN" using short by (simp_all add: rows r)
    show "s \<in> set (reservations d) \<and> tables_of (rv_id s) d' = tables_of (rv_id s) d" if "s \<in> set (reservations d')" "rv_id s \<noteq> rv_id r" for s
      using that by (auto simp: rows tables r)
    show "\<not> rivals r (tables_of (rv_id r) d') s (tables_of (rv_id s) d)" if "s \<in> set (reservations d)" "rv_id s \<noteq> rv_id r" for s
    proof (rule not_rivals)
      show "\<not> taken_by (rv_tenantId r) (rv_outletId r) (rvi_tableIds input) (rv_startAt r) (rv_durationMinutes r) None d s" using passed that by (simp add: r)
      show "set (tables_of (rv_id r) d') \<subseteq> set (rvi_tableIds input)" using none by (simp add: tables r) (simp add: tables_of_def)
    qed simp
  qed
qed

text \<open>The same for a reservation that is edited in place.\<close>

lemma bookings_edit:
  assumes ok: "bookings_ok src d" and current: "current \<in> set (reservations d)" "rv_id current = i"
    and rows: "reservations d' = set_row rv_id i f (reservations d)" "seq d' = seq d"
    and f: "\<And>r. rv_id (f r) = rv_id r" "rv_tenantId (f current) = rv_tenantId current" "rv_outletId (f current) = rv_outletId current"
      "rv_durationMinutes (f current) \<le> MAX_DURATION_MIN"
    and links: "rvt_reservationId ` set (reservationTables d') \<subseteq> insert i (rvt_reservationId ` set (reservationTables d))"
    and tables: "\<And>j. j \<noteq> i \<Longrightarrow> tables_of j d' = tables_of j d"
    and apart: "blocking (f current) \<Longrightarrow> \<forall>s \<in> set (reservations d). \<not> taken_by (rv_tenantId current) (rv_outletId current) (tables_of i d')
      (rv_startAt (f current)) (rv_durationMinutes (f current)) (Some i) d s"
  shows "bookings_ok src d'"
proof (rule bookings_write [OF ok, where r = "f current"])
  show "distinct (map rv_id (reservations d'))" "rv_id ` set (reservations d') \<subseteq> src ` {..<seq d'}"
    using ok f(1) by (simp_all add: rows map_key_set_row image_key_set_row bookings_ok_def)
  have ids: "rv_id ` set (reservations d') = rv_id ` set (reservations d)" using f(1) by (simp add: rows image_key_set_row)
  have "i \<in> rv_id ` set (reservations d)" using current by auto
  moreover have "rvt_reservationId ` set (reservationTables d) \<subseteq> rv_id ` set (reservations d)" using ok by (simp add: bookings_ok_def)
  ultimately show "rvt_reservationId ` set (reservationTables d') \<subseteq> rv_id ` set (reservations d')" using links unfolding ids by blast
  show "f current \<in> set (reservations d')" using current by (auto simp: rows set_row_def set_update_where)
  show "rv_durationMinutes (f current) \<le> MAX_DURATION_MIN" by (rule f(4))
  show "s \<in> set (reservations d) \<and> tables_of (rv_id s) d' = tables_of (rv_id s) d" if "s \<in> set (reservations d')" "rv_id s \<noteq> rv_id (f current)" for s
    using that f(1) current(2) tables by (auto simp: rows set_row_def set_update_where split: if_splits)
  show "\<not> rivals (f current) (tables_of (rv_id (f current)) d') s (tables_of (rv_id s) d)" if s: "s \<in> set (reservations d)" "rv_id s \<noteq> rv_id (f current)" for s
  proof (cases "blocking (f current)")
    case True
    with apart s have "\<not> taken_by (rv_tenantId (f current)) (rv_outletId (f current)) (tables_of i d') (rv_startAt (f current)) (rv_durationMinutes (f current)) (Some i) d s"
      by (simp add: f(2,3))
    then show ?thesis by (rule not_rivals) (use s(2) current(2) in \<open>simp_all add: f(1)\<close>)
  qed (simp add: rivals_def)
qed

lemma untouched:
  assumes "bookings_ok src d" "r \<in> set (reservations d)" "blocking r"
  shows "\<forall>s \<in> set (reservations d). \<not> taken_by (rv_tenantId r) (rv_outletId r) (tables_of (rv_id r) d) (rv_startAt r) (rv_durationMinutes r) (Some (rv_id r)) d s"
proof (rule ballI, rule notI)
  fix s assume s: "s \<in> set (reservations d)"
  assume "taken_by (rv_tenantId r) (rv_outletId r) (tables_of (rv_id r) d) (rv_startAt r) (rv_durationMinutes r) (Some (rv_id r)) d s"
  with assms(3) have "rivals r (tables_of (rv_id r) d) s (tables_of (rv_id s) d)" by (simp add: taken_by_def rivals_def meets_def)
  with assms(1,2) s show False by (simp add: bookings_ok_def)
qed

lemma taken_by_mono: "set us \<subseteq> set ts \<Longrightarrow> taken_by t out us a b x d s \<Longrightarrow> taken_by t out ts a b x d s"
  by (auto simp: taken_by_def)

lemma tables_of_unlinked: "tables_of j (reservationTables_update (filter (\<lambda>t. rvt_reservationId t \<noteq> i)) d) = (if j = i then [] else tables_of j d)"
  by (auto simp: tables_of_def filter_empty_conv intro!: arg_cong [where f = "map rvt_tableId"] filter_cong)

lemma tables_of_replace: "tables_of j (replace_tables i ts d) = (case ts of Some us \<Rightarrow> if j = i then js_set us else tables_of j d | None \<Rightarrow> tables_of j d)"
  by (simp add: replace_tables_def tables_of_link tables_of_unlinked split: option.split)

lemma replace_tables_simps [simp]:
  "reservations (replace_tables i ts d) = reservations d" "seq (replace_tables i ts d) = seq d"
  "j \<noteq> i \<Longrightarrow> tables_of j (replace_tables i ts d) = tables_of j d"
  "set (tables_of i (replace_tables i ts d)) = set (or_else ts (tables_of i d))"
  by (simp_all add: tables_of_replace split: option.split) (simp_all add: replace_tables_def link_tables_def split: option.split)

lemma replace_tables_links:
  "rvt_reservationId ` set (reservationTables (replace_tables i ts d)) \<subseteq> insert i (rvt_reservationId ` set (reservationTables d))"
  by (auto simp: replace_tables_def link_tables_def split: option.splits)

lemma set_reservation_simps [simp]:
  "reservations (set_reservation i f d) = set_row rv_id i f (reservations d)" "seq (set_reservation i f d) = seq d"
  "reservationTables (set_reservation i f d) = reservationTables d" "tables_of j (set_reservation i f d) = tables_of j d"
  by (simp_all add: set_reservation_def tables_of_def)

lemma audit_simps [simp]:
  "reservations (audit t u a n i d) = reservations d" "seq (audit t u a n i d) = seq d" "reservationTables (audit t u a n i d) = reservationTables d"
  "tables_of j (audit t u a n i d) = tables_of j d"
  by (simp_all add: audit_def tables_of_def)

lemma updateReservation_ok:
  assumes run: "updateReservation user outletId i input d = Inr (dto, d')" and ok: "bookings_ok src d"
    and short: "\<forall>n. rvu_durationMinutes input = Some n \<longrightarrow> n \<le> MAX_DURATION_MIN"
  shows "bookings_ok src d'"
proof -
  from run obtain current where lock: "lockReservation (u_tenantId user) outletId i d = Inr current"
    and check: "lockAndCheck (u_tenantId user) outletId (or_else (rvu_tableIds input) (tables_of i d)) (or_else (rvu_startAt input) (rv_startAt current))
        (or_else (rvu_durationMinutes input) (rv_durationMinutes current)) (Some i) d = Inr ()"
    and d': "d' = replace_tables i (rvu_tableIds input) (set_reservation i (edit_reservation input (or_else (rvu_startAt input) (rv_startAt current))
        (or_else (rvu_durationMinutes input) (rv_durationMinutes current)) (customer_by_phone (u_tenantId user) outletId (or_else (rvu_phone input) (rv_phone current)) d)) d)"
    by (auto simp: updateReservation_def guard_simps Let_def)
  note current = lockReservation_Some [OF lock]
  have passed: "\<forall>s \<in> set (reservations d). \<not> taken_by (u_tenantId user) outletId (or_else (rvu_tableIds input) (tables_of i d)) (or_else (rvu_startAt input) (rv_startAt current))
        (or_else (rvu_durationMinutes input) (rv_durationMinutes current)) (Some i) d s"
    using check_passes [OF _ check] ok by (simp add: bookings_ok_def)
  have long: "or_else (rvu_durationMinutes input) (rv_durationMinutes current) \<le> MAX_DURATION_MIN"
    using ok current short by (cases "rvu_durationMinutes input") (auto simp: bookings_ok_def)
  show ?thesis
  proof (rule bookings_edit [OF ok, where current = current and i = i])
    show "reservations d' = set_row rv_id i (edit_reservation input (or_else (rvu_startAt input) (rv_startAt current))
        (or_else (rvu_durationMinutes input) (rv_durationMinutes current)) (customer_by_phone (u_tenantId user) outletId (or_else (rvu_phone input) (rv_phone current)) d)) (reservations d)"
      by (simp add: d')
    show "rvt_reservationId ` set (reservationTables d') \<subseteq> insert i (rvt_reservationId ` set (reservationTables d))"
      unfolding d' by (rule order.trans [OF replace_tables_links]) simp
    have "set (tables_of i d') \<subseteq> set (or_else (rvu_tableIds input) (tables_of i d))" by (simp add: d')
    then show "\<forall>s \<in> set (reservations d). \<not> taken_by (rv_tenantId current) (rv_outletId current) (tables_of i d')
        (rv_startAt (edit_reservation input (or_else (rvu_startAt input) (rv_startAt current)) (or_else (rvu_durationMinutes input) (rv_durationMinutes current))
          (customer_by_phone (u_tenantId user) outletId (or_else (rvu_phone input) (rv_phone current)) d) current))
        (rv_durationMinutes (edit_reservation input (or_else (rvu_startAt input) (rv_startAt current)) (or_else (rvu_durationMinutes input) (rv_durationMinutes current))
          (customer_by_phone (u_tenantId user) outletId (or_else (rvu_phone input) (rv_phone current)) d) current)) (Some i) d s"
      using passed current by (auto simp: edit_reservation_def dest: taken_by_mono)
  qed (use current long in \<open>simp_all add: d' edit_reservation_def\<close>)
qed

lemma setReservationStatus_ok:
  assumes run: "setReservationStatus user outletId i status d = Inr (dto, d')" and ok: "bookings_ok src d"
  shows "bookings_ok src d'"
proof -
  define f where "f = (\<lambda>r :: reservation_row. r\<lparr>rv_status := status\<rparr>)"
  from run obtain current where lock: "lockReservation (u_tenantId user) outletId i d = Inr current"
    and move: "status \<in> set (RESERVATION_TRANSITIONS (rv_status current))" "status \<noteq> Seated"
    and check: "(if status = Booked \<and> rv_status current \<notin> set BLOCKING_RESERVATION_STATUSES
        then lockAndCheck (u_tenantId user) outletId (tables_of i d) (rv_startAt current) (rv_durationMinutes current) (Some i) d else Inr ()) = Inr ()"
    and d': "d' = audit (u_tenantId user) (Some (u_id user)) (''RESERVATION_'' @ reservation_status_name status) ''reservation'' i (set_reservation i f d)"
    by (auto simp: setReservationStatus_def guard_simps Let_def f_def)
  note current = lockReservation_Some [OF lock]
  have durations: "\<forall>r \<in> set (reservations d). rv_durationMinutes r \<le> MAX_DURATION_MIN" using ok by (simp add: bookings_ok_def)
  have "\<forall>s \<in> set (reservations d). \<not> taken_by (rv_tenantId current) (rv_outletId current) (tables_of i d) (rv_startAt current) (rv_durationMinutes current) (Some i) d s"
    if "blocking (f current)"
  proof (cases "blocking current")
    case True
    from untouched [OF ok _ this] current show ?thesis by simp
  next
    case False
    with that move have "status = Booked" by (cases "rv_status current") (auto simp: blocking_def f_def BLOCKING_RESERVATION_STATUSES_def)
    with check False have "lockAndCheck (u_tenantId user) outletId (tables_of i d) (rv_startAt current) (rv_durationMinutes current) (Some i) d = Inr ()"
      by (simp add: blocking_def)
    from check_passes [OF durations this] current show ?thesis by simp
  qed
  then show ?thesis
    using current durations by (intro bookings_edit [OF ok, where current = current and i = i and f = f]) (auto simp: d' f_def)
qed

text \<open>A party that takes a table it had booked.\<close>

lemma seat_ok:
  assumes run: "seat e user outletId i tableId d = Inr ((target, dto), d')" and ok: "bookings_ok src d"
    and own: "\<forall>t. tableId = Some t \<longrightarrow> t \<in> set (tables_of i d)"
  shows "bookings_ok src d'"
proof -
  define f where "f = (\<lambda>r :: reservation_row. r\<lparr>rv_status := Seated, rv_seatedAt := Some (e_now e)\<rparr>)"
  from run obtain current where lock: "lockReservation (u_tenantId user) outletId i d = Inr current"
    and status: "rv_status current = Booked \<or> rv_status current = Confirmed" and target: "truthy (seat_target tableId i d)" "target = the (seat_target tableId i d)"
    and d': "d' = audit (u_tenantId user) (Some (u_id user)) ''RESERVATION_SEATED'' ''reservation'' i (set_reservation i f
      (if target \<in> set (tables_of i d) then d else reservationTables_update (\<lambda>ts. ts @ [\<lparr> rvt_reservationId = i, rvt_tableId = target \<rparr>]) d))"
    by (auto simp: seat_def guard_simps Let_def f_def)
  note current = lockReservation_Some [OF lock]
  have "target \<in> set (tables_of i d)"
    using target own by (auto simp: seat_target_def split: list.splits option.splits) (cases tableId; auto)+
  with d' have d': "d' = audit (u_tenantId user) (Some (u_id user)) ''RESERVATION_SEATED'' ''reservation'' i (set_reservation i f d)" by simp
  have "blocking current" using status by (auto simp: blocking_def BLOCKING_RESERVATION_STATUSES_def)
  from untouched [OF ok _ this] current
  have "\<forall>s \<in> set (reservations d). \<not> taken_by (rv_tenantId current) (rv_outletId current) (tables_of i d) (rv_startAt current) (rv_durationMinutes current) (Some i) d s"
    by simp
  moreover have "\<forall>r \<in> set (reservations d). rv_durationMinutes r \<le> MAX_DURATION_MIN" using ok by (simp add: bookings_ok_def)
  ultimately show ?thesis
    using current by (intro bookings_edit [OF ok, where current = current and i = i and f = f]) (auto simp: d' f_def)
qed

text \<open>A day at the host stand. Durations are those the request schema admits; a party is seated at a table of its reservation.\<close>

inductive booking_step :: "(nat \<Rightarrow> id) \<Rightarrow> db \<Rightarrow> db \<Rightarrow> bool" for src where
  created: "e_cuid e = src \<Longrightarrow> createReservation e user outletId input d = Inr (dto, d') \<Longrightarrow> rvi_durationMinutes input \<le> 480 \<Longrightarrow> booking_step src d d'"
| updated: "updateReservation user outletId i edit d = Inr (dto, d') \<Longrightarrow> \<forall>n. rvu_durationMinutes edit = Some n \<longrightarrow> n \<le> 480 \<Longrightarrow> booking_step src d d'"
| moved: "setReservationStatus user outletId i status d = Inr (dto, d') \<Longrightarrow> booking_step src d d'"
| seated: "seat e user outletId i tableId d = Inr (reply, d') \<Longrightarrow> \<forall>t. tableId = Some t \<longrightarrow> t \<in> set (tables_of i d) \<Longrightarrow> booking_step src d d'"
| queued: "e_cuid e = src \<Longrightarrow> addToWaitlist e user outletId entry d = Inr (w, d') \<Longrightarrow> booking_step src d d'"
| queue_seated: "seatFromWaitlist e user outletId i t d = Inr (w', d') \<Longrightarrow> booking_step src d d'"
| queue_left: "leaveWaitlist user outletId i d = Inr (w, d') \<Longrightarrow> booking_step src d d'"
| elsewhere: "reservations d' = reservations d \<Longrightarrow> reservationTables d' = reservationTables d \<Longrightarrow> seq d \<le> seq d' \<Longrightarrow> booking_step src d d'"

lemma booking_step_ok: "booking_step src d d' \<Longrightarrow> inj src \<Longrightarrow> bookings_ok src d \<Longrightarrow> bookings_ok src d'"
proof (induction rule: booking_step.induct)
  case (created e user outletId input d dto d')
  then show ?case using createReservation_ok by (metis MAX_DURATION_MIN_def)
next
  case (updated user outletId i edit d dto d')
  then show ?case using updateReservation_ok by (metis MAX_DURATION_MIN_def)
next
  case (moved user outletId i status d dto d')
  then show ?case using setReservationStatus_ok by blast
next
  case (seated e user outletId i tableId d reply d')
  then show ?case using seat_ok by (metis surj_pair)
next
  case (queued e user outletId entry d w d')
  then show ?case by (intro bookings_same [of d' d]) (auto simp: addToWaitlist_def guard_simps fresh_def Let_def)
next
  case (queue_seated e user outletId i t d w' d')
  then show ?case by (intro bookings_same [of d' d]) (auto simp: seatFromWaitlist_def guard_simps Let_def set_entry_def)
next
  case (queue_left user outletId i d w d')
  then show ?case by (intro bookings_same [of d' d]) (auto simp: leaveWaitlist_def guard_simps Let_def)
next
  case (elsewhere d' d)
  then show ?case using bookings_same by blast
qed

lemma bookings_reachable:
  assumes "(booking_step src)\<^sup>*\<^sup>* d0 d" "inj src" "reservations d0 = []" "reservationTables d0 = []" shows "bookings_ok src d"
  using assms(1)
proof (induction rule: rtranclp_induct)
  case base
  then show ?case using assms(3,4) by (simp add: bookings_ok_def)
qed (use assms(2) booking_step_ok in blast)

text \<open>C13. No double booking: whatever bookings are made, moved, edited, cancelled, reinstated and seated at their tables, two reservations that
  hold the same table of an outlet never overlap in time.\<close>

theorem no_double_booking:
  assumes "(booking_step src)\<^sup>*\<^sup>* d0 d" and "inj src" and "reservations d0 = []" and "reservationTables d0 = []"
    and "r \<in> set (reservations d)" "s \<in> set (reservations d)" "rv_id r \<noteq> rv_id s" "rv_tenantId r = rv_tenantId s" "rv_outletId r = rv_outletId s"
    and "rv_status r \<in> {Booked, Confirmed, Seated}" "rv_status s \<in> {Booked, Confirmed, Seated}"
    and "t \<in> set (tables_of (rv_id r) d)" "t \<in> set (tables_of (rv_id s) d)"
  shows "\<not> intervalsOverlap (rv_startAt r) (rv_durationMinutes r) (rv_startAt s) (rv_durationMinutes s)"
proof
  assume "intervalsOverlap (rv_startAt r) (rv_durationMinutes r) (rv_startAt s) (rv_durationMinutes s)"
  with assms(7-13) have "rivals r (tables_of (rv_id r) d) s (tables_of (rv_id s) d)"
    by (auto simp: rivals_def meets_def blocking_def BLOCKING_RESERVATION_STATUSES_def)
  with bookings_reachable [OF assms(1-4)] assms(5,6) show False by (simp add: bookings_ok_def)
qed


section \<open>An evening\<close>

definition host0 :: auth_user where
  "host0 = \<lparr> u_id = ''h'', u_tenantId = ''t'', u_outletIds = [''k''], u_permissions = [] \<rparr>"

definition hall0 :: db where
  "hall0 = db0\<lparr> diningTables :=
     [\<lparr> dt_id = ''a'', dt_tenantId = ''t'', dt_outletId = ''k'', dt_areaId = ''hall'', dt_name = ''T1'', dt_seats = 4, dt_publicToken = None \<rparr>,
      \<lparr> dt_id = ''b'', dt_tenantId = ''t'', dt_outletId = ''k'', dt_areaId = ''hall'', dt_name = ''T2'', dt_seats = 4, dt_publicToken = None \<rparr>] \<rparr>"

definition booking0 :: "id list \<Rightarrow> int \<Rightarrow> reservation_input" where
  "booking0 tables start = \<lparr> rvi_guestName = ''Asha'', rvi_phone = ''98'', rvi_partySize = 4, rvi_startAt = start, rvi_durationMinutes = 90,
     rvi_tableIds = tables, rvi_notes = None, rvi_source = FromPhone \<rparr>"

text \<open>The first reservation and its tables, at 0 and 90 minutes.\<close>

definition held0 :: "id \<Rightarrow> int \<Rightarrow> reservation_row" where
  "held0 i start = new_reservation env0 host0 ''k'' (booking0 [''a''] start) i hall0"

definition hall1 :: db where
  "hall1 = hall0\<lparr> seq := 1, reservations := [held0 [] 0], reservationTables := [\<lparr> rvt_reservationId = [], rvt_tableId = ''a'' \<rparr>],
     auditLogs := [\<lparr> au_tenantId = ''t'', au_userId = Some ''h'', au_action = ''RESERVATION_CREATED'', au_entity = ''reservation'', au_entityId = Some [] \<rparr>] \<rparr>"

lemma hall1_booked: "\<exists>dto. createReservation env0 host0 ''k'' (booking0 [''a''] 0) hall0 = Inr (dto, hall1)"
  by (simp add: createReservation_def hall0_def hall1_def held0_def booking0_def host0_def db0_def env0_def lockAndCheck_def js_set_def candidates_def fresh_def Let_def
      guard_simps assertOutlet_def getOne_def lockReservation_def new_reservation_def link_tables_def audit_def customer_by_phone_def)

lemma hall1_step: "(booking_step (e_cuid env0))\<^sup>*\<^sup>* hall0 hall1"
  using hall1_booked by (auto intro!: r_into_rtranclp booking_step.created [of env0] simp: booking0_def)

lemma hall0_empty: "reservations hall0 = []" "reservationTables hall0 = []" "inj (e_cuid env0)" "distinct (map dt_id (diningTables hall1))"
  by (simp_all add: hall0_def hall1_def db0_def env0_def inj_unary)


theorem no_double_booking_witness:
  "\<exists>d r s. r \<in> set (reservations d) \<and> s \<in> set (reservations d) \<and> rv_id r \<noteq> rv_id s \<and> ''a'' \<in> set (tables_of (rv_id r) d) \<and> ''a'' \<in> set (tables_of (rv_id s) d)
    \<and> \<not> intervalsOverlap (rv_startAt r) (rv_durationMinutes r) (rv_startAt s) (rv_durationMinutes s)"
proof -
  define d where "d = hall1\<lparr> seq := 2, reservations := [held0 [] 0, held0 ''x'' 5400000],
    reservationTables := [\<lparr> rvt_reservationId = [], rvt_tableId = ''a'' \<rparr>, \<lparr> rvt_reservationId = ''x'', rvt_tableId = ''a'' \<rparr>],
    auditLogs := auditLogs hall1 @ [\<lparr> au_tenantId = ''t'', au_userId = Some ''h'', au_action = ''RESERVATION_CREATED'', au_entity = ''reservation'', au_entityId = Some ''x'' \<rparr>] \<rparr>"
  have "\<exists>dto. createReservation env0 host0 ''k'' (booking0 [''a''] 5400000) hall1 = Inr (dto, d)"
    by (simp add: d_def createReservation_def hall0_def hall1_def held0_def booking0_def host0_def db0_def env0_def lockAndCheck_def js_set_def candidates_def fresh_def Let_def
        guard_simps assertOutlet_def getOne_def lockReservation_def new_reservation_def link_tables_def audit_def customer_by_phone_def
        intervalsOverlap_def tables_of_def BLOCKING_RESERVATION_STATUSES_def MAX_DURATION_MIN_def)
  then have "booking_step (e_cuid env0) hall1 d" by (auto intro!: booking_step.created [of env0] simp: booking0_def)
  with hall1_step have reach: "(booking_step (e_cuid env0))\<^sup>*\<^sup>* hall0 d" by simp
  have rows: "held0 [] 0 \<in> set (reservations d)" "held0 ''x'' 5400000 \<in> set (reservations d)" by (simp_all add: d_def)
  have held: "''a'' \<in> set (tables_of (rv_id (held0 [] 0)) d)" "''a'' \<in> set (tables_of (rv_id (held0 ''x'' 5400000)) d)"
    by (simp_all add: d_def tables_of_def held0_def new_reservation_def)
  have "\<not> intervalsOverlap (rv_startAt (held0 [] 0)) (rv_durationMinutes (held0 [] 0)) (rv_startAt (held0 ''x'' 5400000)) (rv_durationMinutes (held0 ''x'' 5400000))"
    by (rule no_double_booking [OF reach hall0_empty(3,1,2) rows _ _ _ _ _ held]) (simp_all add: held0_def new_reservation_def)
  moreover have "rv_id (held0 [] 0) \<noteq> rv_id (held0 ''x'' 5400000)" by (simp add: held0_def new_reservation_def)
  ultimately show ?thesis using rows held by blast
qed

text \<open>Seating asks only whether the table has a running order: a party may be seated at a table that another reservation holds at that time.\<close>

lemma seat_double_books:
  "\<exists>reply d'. createReservation env0 host0 ''k'' (booking0 [''b''] 0) hall1 = Inr reply \<and> seat env0 host0 ''k'' ''x'' (Some ''a'') (snd reply) = Inr d'
    \<and> tables_of [] (snd d') = [''a''] \<and> tables_of ''x'' (snd d') = [''b'', ''a''] \<and> map rv_status (reservations (snd d')) = [Booked, Seated]
    \<and> map rv_startAt (reservations (snd d')) = [0, 0]"
  by (simp add: createReservation_def seat_def seat_target_def assertTableFree_def lockTable_def set_reservation_def set_row_def update_where_def
      hall0_def hall1_def held0_def booking0_def host0_def db0_def env0_def lockAndCheck_def js_set_def candidates_def fresh_def Let_def
      guard_simps assertOutlet_def getOne_def lockReservation_def new_reservation_def link_tables_def audit_def customer_by_phone_def
      intervalsOverlap_def tables_of_def BLOCKING_RESERVATION_STATUSES_def MAX_DURATION_MIN_def del: set_map set_filter)

end
