(* ===== verification/Front_Desk.thy ===== *)
theory Front_Desk
  imports Orders
begin

text \<open>
  Held carts (\<open>apps/api/src/billing/parked.service.ts\<close>), calls for a server (\<open>apps/api/src/foh/server-calls.service.ts\<close>) and the
  kitchen display (\<open>apps/api/src/kds/kds.service.ts\<close>). Several terminals act on them at once, so an operation that reads before
  its transaction is given in two parts. Realtime events are not modelled.
\<close>

section \<open>Parked carts\<close>

record park_input =
  pki_label :: string
  pki_orderType :: order_type
  pki_tableId :: "id option"
  pki_orderId :: "id option"
  pki_customerName :: "string option"
  pki_customerPhone :: "string option"
  pki_lines :: "parked_line list"

record parked_dto =
  pkd_cart :: parked_cart_row
  pkd_tableName :: "string option"
  pkd_parkedBy :: "string option"

definition parked_dto_of :: "id \<Rightarrow> db \<Rightarrow> parked_cart_row \<Rightarrow> parked_dto" where
  "parked_dto_of tenantId d r = \<lparr> pkd_cart = r,
     pkd_tableName = (if truthy (pk_tableId r)
       then map_option dt_name (List.find (\<lambda>t. Some (dt_id t) = pk_tableId r \<and> dt_tenantId t = tenantId) (diningTables d)) else None),
     pkd_parkedBy = (if truthy (pk_parkedById r)
       then map_option us_name (List.find (\<lambda>u. Some (us_id u) = pk_parkedById r \<and> us_tenantId u = tenantId) (users d)) else None) \<rparr>"

definition listParked :: "auth_user \<Rightarrow> id \<Rightarrow> db \<Rightarrow> parked_dto list result" where
  "listParked user outletId d =
    ebind (assertOutlet user outletId) (\<lambda>_.
      Inr (map (parked_dto_of (u_tenantId user) d) (sort_key pk_createdAt
        (filter (\<lambda>r. pk_tenantId r = u_tenantId user \<and> pk_outletId r = outletId) (parkedCarts d)))))"

fun line_quantity :: "parked_line \<Rightarrow> int" where
  "line_quantity (ParkedItem i name var addons price) = li_quantity i" | "line_quantity (ParkedCombo c name comps price) = ci_quantity c"

fun line_price :: "parked_line \<Rightarrow> num" where
  "line_price (ParkedItem i name var addons price) = price" | "line_price (ParkedCombo c name comps price) = price"

definition new_cart :: "env \<Rightarrow> auth_user \<Rightarrow> id \<Rightarrow> park_input \<Rightarrow> id \<Rightarrow> parked_cart_row" where
  "new_cart e user outletId input i = \<lparr> pk_id = i, pk_tenantId = u_tenantId user, pk_outletId = outletId, pk_label = pki_label input,
     pk_orderType = pki_orderType input, pk_tableId = pki_tableId input, pk_orderId = pki_orderId input, pk_customerName = pki_customerName input,
     pk_customerPhone = pki_customerPhone input, pk_lines = pki_lines input, pk_itemCount = (\<Sum>l\<leftarrow>pki_lines input. line_quantity l),
     pk_amount = numeric_col 2 (fromPaise (of_int (\<Sum>l\<leftarrow>pki_lines input. lineTotalPaise (line_price l) (line_quantity l)))),
     pk_parkedById = Some (u_id user), pk_createdAt = e_now e \<rparr>"

definition park :: "env \<Rightarrow> auth_user \<Rightarrow> id \<Rightarrow> park_input \<Rightarrow> db \<Rightarrow> (parked_dto \<times> db) result" where
  "park e user outletId input d =
    ebind (assertOutlet user outletId) (\<lambda>_.
    ebind (if truthy (pki_tableId input) then lockTable (u_tenantId user) outletId (the (pki_tableId input)) d else Inr ()) (\<lambda>_.
    ebind (if truthy (pki_orderId input)
           then ebind (some_or (List.find (\<lambda>r. Some (o_id r) = pki_orderId input \<and> o_tenantId r = u_tenantId user \<and> o_outletId r = outletId) (orders d))
                  (BadRequest [Txt ''That bill is no longer open''])) (\<lambda>order.
                ebind (require (o_status order = OPEN) (BadRequest [Txt ''That bill is no longer open''])) (\<lambda>_.
                  require (\<not> (nonzero (o_splitCount order) \<or> truthy (o_parentOrderId order))) (BadRequest [Txt ''A split bill cannot take new items''])))
           else Inr ()) (\<lambda>_.
      case fresh e d of (i, d1) \<Rightarrow>
      let r = new_cart e user outletId input i;
          d2 = audit (u_tenantId user) (Some (u_id user)) ''ORDER_PARKED'' ''parked_cart'' i (parkedCarts_update (\<lambda>rs. rs @ [r]) d1)
      in Inr (parked_dto_of (u_tenantId user) d2 r, d2))))"

text \<open>A claim reads the cart, then deletes it in a transaction that checks that it was still there: the row read may be stale by then.\<close>

definition claim_read :: "auth_user \<Rightarrow> id \<Rightarrow> db \<Rightarrow> parked_cart_row result" where
  "claim_read user i d =
    ebind (some_or (List.find (\<lambda>r. pk_id r = i \<and> pk_tenantId r = u_tenantId user) (parkedCarts d))
        (Conflict [Txt ''That parked order was already resumed or discarded''])) (\<lambda>row.
    ebind (assertOutlet user (pk_outletId row)) (\<lambda>_. Inr row))"

definition claim_tx :: "auth_user \<Rightarrow> id \<Rightarrow> string \<Rightarrow> db \<Rightarrow> db result" where
  "claim_tx user i action d =
    (let here = (\<lambda>r. pk_id r = i \<and> pk_tenantId r = u_tenantId user)
     in ebind (require (length (filter here (parkedCarts d)) = 1) (Conflict [Txt ''That parked order was already resumed or discarded''])) (\<lambda>_.
          Inr (audit (u_tenantId user) (Some (u_id user)) action ''parked_cart'' i (parkedCarts_update (filter (\<lambda>r. \<not> here r)) d))))"

definition claim :: "auth_user \<Rightarrow> id \<Rightarrow> string \<Rightarrow> db \<Rightarrow> (parked_dto \<times> db) result" where
  "claim user i action d =
    ebind (claim_read user i d) (\<lambda>row.
    ebind (claim_tx user i action d) (\<lambda>d1. Inr (parked_dto_of (u_tenantId user) d row, d1)))"

definition resume :: "auth_user \<Rightarrow> id \<Rightarrow> db \<Rightarrow> (parked_dto \<times> db) result" where
  "resume user i d = claim user i ''ORDER_RESUMED'' d"

definition discard :: "auth_user \<Rightarrow> id \<Rightarrow> db \<Rightarrow> db result" where
  "discard user i d = ebind (claim user i ''ORDER_PARK_DISCARDED'' d) (\<lambda>(_, d1). Inr d1)"

section \<open>Server calls\<close>

definition ACTIVE_CALLS :: "server_call_status list" where
  "ACTIVE_CALLS = [CallOpen, CallAcknowledged]"

fun call_action :: "server_call_type \<Rightarrow> string" where
  "call_action CallWaiter = ''WAITER_CALLED''" | "call_action CallWater = ''SERVER_CALL_WATER''" | "call_action CallBill = ''SERVER_CALL_BILL''"

definition raise_call :: "env \<Rightarrow> id \<Rightarrow> id \<Rightarrow> id \<Rightarrow> server_call_type \<Rightarrow> server_call_source \<Rightarrow> id option \<Rightarrow> db \<Rightarrow> server_call_row \<times> db" where
  "raise_call e tenantId outletId tableId type source userId d =
    (case List.find (\<lambda>c. sv_tenantId c = tenantId \<and> sv_outletId c = outletId \<and> sv_tableId c = tableId \<and> sv_type c = type \<and> sv_status c \<in> set ACTIVE_CALLS) (serverCalls d) of
       Some c \<Rightarrow> (c, d)
     | None \<Rightarrow> (case fresh e d of (i, d1) \<Rightarrow>
         let c = \<lparr> sv_id = i, sv_tenantId = tenantId, sv_outletId = outletId, sv_tableId = tableId, sv_type = type, sv_source = source, sv_status = CallOpen,
              sv_createdById = userId, sv_acknowledgedById = None, sv_acknowledgedAt = None, sv_resolvedById = None, sv_resolvedAt = None, sv_createdAt = e_now e \<rparr>
         in (c, audit tenantId userId (call_action type) ''dining_table'' tableId (serverCalls_update (\<lambda>cs. cs @ [c]) d1))))"

definition callFromTable :: "env \<Rightarrow> string \<Rightarrow> server_call_type \<Rightarrow> db \<Rightarrow> ((string \<times> id) \<times> db) result" where
  "callFromTable e token type d =
    ebind (some_or (List.find (\<lambda>t. dt_publicToken t = Some token) (diningTables d)) (NotFound [Txt ''This QR code is no longer active''])) (\<lambda>t.
      case raise_call e (dt_tenantId t) (dt_outletId t) (dt_id t) type FromDiner None d of (c, d1) \<Rightarrow> Inr ((dt_name t, sv_id c), d1))"

definition callByStaff :: "env \<Rightarrow> auth_user \<Rightarrow> id \<Rightarrow> id \<Rightarrow> server_call_type \<Rightarrow> db \<Rightarrow> (server_call_row \<times> db) result" where
  "callByStaff e user outletId tableId type d =
    ebind (assertOutlet user outletId) (\<lambda>_.
    ebind (require (\<exists>t \<in> set (diningTables d). dt_id t = tableId \<and> dt_tenantId t = u_tenantId user \<and> dt_outletId t = outletId) (NotFound [Txt ''Table not found''])) (\<lambda>_.
      Inr (raise_call e (u_tenantId user) outletId tableId type FromStaff (Some (u_id user)) d)))"

fun call_status_text :: "server_call_status \<Rightarrow> string" where
  "call_status_text CallOpen = ''open''" | "call_status_text CallAcknowledged = ''acknowledged''" | "call_status_text CallResolved = ''resolved''"

definition advance_call :: "env \<Rightarrow> auth_user \<Rightarrow> server_call_status \<Rightarrow> server_call_row \<Rightarrow> server_call_row" where
  "advance_call e user to c = (if to = CallAcknowledged
     then c\<lparr>sv_status := to, sv_acknowledgedAt := Some (e_now e), sv_acknowledgedById := Some (u_id user)\<rparr>
     else c\<lparr>sv_status := to, sv_resolvedAt := Some (e_now e), sv_resolvedById := Some (u_id user)\<rparr>)"

definition call_transition :: "env \<Rightarrow> auth_user \<Rightarrow> id \<Rightarrow> id \<Rightarrow> server_call_status list \<Rightarrow> server_call_status \<Rightarrow> db \<Rightarrow> (server_call_row \<times> db) result" where
  "call_transition e user outletId i from to d =
    ebind (assertOutlet user outletId) (\<lambda>_.
      let mine = (\<lambda>c. sv_id c = i \<and> sv_tenantId c = u_tenantId user \<and> sv_outletId c = outletId);
          d1 = serverCalls_update (update_where (\<lambda>c. mine c \<and> sv_status c \<in> set from) (advance_call e user to)) d
      in ebind (some_or (List.find mine (serverCalls d1)) (NotFound [Txt ''Call not found''])) (\<lambda>c.
         ebind (require (\<exists>c \<in> set (serverCalls d). mine c \<and> sv_status c \<in> set from) (BadRequest [Txt (''Call is already '' @ call_status_text (sv_status c))])) (\<lambda>_.
           Inr (c, d1))))"

definition acknowledge :: "env \<Rightarrow> auth_user \<Rightarrow> id \<Rightarrow> id \<Rightarrow> db \<Rightarrow> (server_call_row \<times> db) result" where
  "acknowledge e user outletId i d = call_transition e user outletId i [CallOpen] CallAcknowledged d"

definition resolve_call :: "env \<Rightarrow> auth_user \<Rightarrow> id \<Rightarrow> id \<Rightarrow> db \<Rightarrow> (server_call_row \<times> db) result" where
  "resolve_call e user outletId i d = call_transition e user outletId i ACTIVE_CALLS CallResolved d"

definition resolveBillCalls :: "env \<Rightarrow> id \<Rightarrow> id \<Rightarrow> id \<Rightarrow> id option \<Rightarrow> db \<Rightarrow> db" where
  "resolveBillCalls e tenantId outletId tableId userId = serverCalls_update (update_where
     (\<lambda>c. sv_tenantId c = tenantId \<and> sv_outletId c = outletId \<and> sv_tableId c = tableId \<and> sv_type c = CallBill \<and> sv_status c \<in> set ACTIVE_CALLS)
     (\<lambda>c. c\<lparr>sv_status := CallResolved, sv_resolvedAt := Some (e_now e), sv_resolvedById := userId\<rparr>))"

definition listCalls :: "env \<Rightarrow> auth_user \<Rightarrow> id \<Rightarrow> bool \<Rightarrow> db \<Rightarrow> server_call_row list result" where
  "listCalls e user outletId includeResolved d =
    ebind (assertOutlet user outletId) (\<lambda>_.
      Inr (take 200 (sort_key sv_createdAt (filter (\<lambda>c. sv_tenantId c = u_tenantId user \<and> sv_outletId c = outletId
        \<and> (if includeResolved then e_now e - 12 * 3600000 \<le> sv_createdAt c else sv_status c \<in> set ACTIVE_CALLS)) (serverCalls d)))))"

section \<open>The kitchen display\<close>

definition READY_WINDOW_MS :: int where
  "READY_WINDOW_MS = 5 * 60 * 1000"

definition advance_ticket :: "env \<Rightarrow> auth_user \<Rightarrow> id \<Rightarrow> id option \<Rightarrow> prep_status \<Rightarrow> db \<Rightarrow> db result" where
  "advance_ticket e user kotId stationId toStatus d =
    ebind (some_or (row_by k_id kotId (kots d)) (NotFound [Txt ''KOT not found''])) (\<lambda>kot.
    ebind (require (k_tenantId kot = u_tenantId user) (NotFound [Txt ''KOT not found''])) (\<lambda>_.
    ebind (assertOutlet user (k_outletId kot)) (\<lambda>_.
      let here = (\<lambda>l. oi_kotId l = Some kotId \<and> oi_stationId l = stationId);
          preppedAt = (if toStatus = READY then Some (e_now e) else None)
      in ebind (require (\<exists>l \<in> set (orderItems d). here l) (BadRequest [Txt ''No items for that station on this KOT''])) (\<lambda>_.
           Inr (orderItems_update (update_where here (\<lambda>l. l\<lparr>oi_prepStatus := toStatus, oi_preppedAt := preppedAt\<rparr>)) d)))))"

text \<open>The lines a kitchen display shows: on a ticket of an order that is not cancelled, and not ready for longer than the window.\<close>

definition shown_on_kds :: "env \<Rightarrow> auth_user \<Rightarrow> id \<Rightarrow> db \<Rightarrow> order_item_row \<Rightarrow> bool" where
  "shown_on_kds e user outletId d l \<longleftrightarrow>
     (\<exists>o' \<in> set (orders d). o_id o' = oi_orderId l \<and> o_outletId o' = outletId \<and> o_tenantId o' = u_tenantId user \<and> o_status o' \<noteq> CANCELLED)
     \<and> oi_kotId l \<noteq> None \<and> (oi_prepStatus l \<noteq> READY \<or> (\<exists>t. oi_preppedAt l = Some t \<and> e_now e - READY_WINDOW_MS \<le> t))"

record kds_item =
  kdi_id :: id
  kdi_itemId :: id
  kdi_name :: string
  kdi_variationName :: "string option"
  kdi_addonNames :: "string list"
  kdi_quantity :: int
  kdi_note :: "string option"

record kds_ticket =
  kt_key :: string
  kt_kotId :: id
  kt_kotNumber :: int
  kt_orderId :: id
  kt_orderType :: order_type
  kt_tableName :: "string option"
  kt_stationId :: "id option"
  kt_stationName :: string
  kt_prepMinutes :: int
  kt_status :: prep_status
  kt_createdAt :: int
  kt_preppedAt :: "int option"
  kt_items :: "kds_item list"

definition kds_item_of :: "order_item_row \<Rightarrow> kds_item" where
  "kds_item_of l = \<lparr> kdi_id = oi_id l, kdi_itemId = oi_itemId l, kdi_name = oi_itemName l, kdi_variationName = oi_variationName l,
     kdi_addonNames = map la_name (oi_addons l), kdi_quantity = oi_quantity l, kdi_note = oi_note l \<rparr>"

text \<open>A station's slice of a ticket that holds one line; \<open>put_ticket\<close> merges it into the slice with its key, if there is one.\<close>

definition kds_key :: "id \<Rightarrow> id option \<Rightarrow> string" where
  "kds_key kotId stationId = kotId @ ''::'' @ or_else stationId ''none''"

definition ticket_of :: "auth_user \<Rightarrow> id \<Rightarrow> db \<Rightarrow> kot_row \<Rightarrow> order_row \<Rightarrow> order_item_row \<Rightarrow> kds_ticket" where
  "ticket_of user outletId d k order l =
    (let station = (if truthy (oi_stationId l) then List.find (\<lambda>s. st_tenantId s = u_tenantId user \<and> st_outletId s = outletId
                       \<and> Some (st_id s) = oi_stationId l) (stations d) else None);
         table = List.find (\<lambda>t. Some (dt_id t) = o_tableId order) (diningTables d)
     in \<lparr> kt_key = kds_key (k_id k) (oi_stationId l), kt_kotId = k_id k, kt_kotNumber = k_kotNumber k, kt_orderId = oi_orderId l,
          kt_orderType = o_orderType order, kt_tableName = map_option dt_name table, kt_stationId = oi_stationId l,
          kt_stationName = or_else (map_option st_name station) ''Kitchen'', kt_prepMinutes = or_else (map_option st_prepMinutes station) 10,
          kt_status = oi_prepStatus l, kt_createdAt = k_createdAt k, kt_preppedAt = oi_preppedAt l, kt_items = [kds_item_of l] \<rparr>)"

fun put_ticket :: "kds_ticket \<Rightarrow> kds_ticket list \<Rightarrow> kds_ticket list" where
  "put_ticket t [] = [t]"
| "put_ticket t (x # xs) = (if kt_key x = kt_key t
     then x\<lparr>kt_items := kt_items x @ kt_items t, kt_status := kt_status t,
            kt_preppedAt := (if kt_preppedAt t \<noteq> None then kt_preppedAt t else kt_preppedAt x)\<rparr> # xs
     else x # put_ticket t xs)"

definition add_to_tickets :: "auth_user \<Rightarrow> id \<Rightarrow> db \<Rightarrow> order_item_row \<Rightarrow> kds_ticket list \<Rightarrow> kds_ticket list" where
  "add_to_tickets user outletId d l ts =
    (case (List.find (\<lambda>k. Some (k_id k) = oi_kotId l) (kots d), List.find (\<lambda>o'. o_id o' = oi_orderId l) (orders d)) of
       (Some k, Some order) \<Rightarrow> put_ticket (ticket_of user outletId d k order l) ts
     | _ \<Rightarrow> ts)"

definition tickets :: "env \<Rightarrow> auth_user \<Rightarrow> id \<Rightarrow> db \<Rightarrow> kds_ticket list result" where
  "tickets e user outletId d =
    ebind (assertOutlet user outletId) (\<lambda>_.
      Inr (sort_key kt_createdAt (fold (add_to_tickets user outletId d) (filter (shown_on_kds e user outletId d) (orderItems d)) [])))"

end
