(* ===== verification/Desk_Laws.thy ===== *)
theory Desk_Laws
  imports Front_Desk "HOL-Library.Multiset"
begin

text \<open>
  What the front desk promises when several terminals act at once: a held cart goes to exactly one terminal, as it was held; a table
  has at most one unresolved call of a kind; and the kitchen display groups exactly the lines it shows.
\<close>

section \<open>Held carts\<close>

text \<open>
  The state is the database, the carts terminals have read and not yet claimed, the carts handed out and all carts ever held. A terminal
  claims with the row it read, however old that is.
\<close>

inductive cart_step :: "(nat \<Rightarrow> id) \<Rightarrow> db \<times> (auth_user \<times> parked_cart_row) list \<times> parked_cart_row list \<times> parked_cart_row list
    \<Rightarrow> db \<times> (auth_user \<times> parked_cart_row) list \<times> parked_cart_row list \<times> parked_cart_row list \<Rightarrow> bool" for src where
  held: "e_cuid e = src \<Longrightarrow> park e user outletId input d = Inr (dto, d') \<Longrightarrow> cart_step src (d, rs, hs, ms) (d', rs, hs, ms @ [pkd_cart dto])"
| seen: "claim_read user i d = Inr row \<Longrightarrow> cart_step src (d, rs, hs, ms) (d, (user, row) # rs, hs, ms)"
| won: "(user, row) \<in> set rs \<Longrightarrow> claim_tx user (pk_id row) action d = Inr d' \<Longrightarrow> cart_step src (d, rs, hs, ms) (d', remove1 (user, row) rs, hs @ [row], ms)"
| lost: "(user, row) \<in> set rs \<Longrightarrow> claim_tx user (pk_id row) action d = Inl err \<Longrightarrow> cart_step src (d, rs, hs, ms) (d, remove1 (user, row) rs, hs, ms)"
| other: "parkedCarts d' = parkedCarts d \<Longrightarrow> seq d \<le> seq d' \<Longrightarrow> cart_step src (d, rs, hs, ms) (d', rs, hs, ms)"

definition carts_ok :: "(nat \<Rightarrow> id) \<Rightarrow> db \<times> (auth_user \<times> parked_cart_row) list \<times> parked_cart_row list \<times> parked_cart_row list \<Rightarrow> bool" where
  "carts_ok src s = (case s of (d, rs, hs, ms) \<Rightarrow>
     mset (parkedCarts d) + mset hs = mset ms \<and> distinct (map pk_id ms) \<and> pk_id ` set ms \<subseteq> src ` {..<seq d}
     \<and> (\<forall>(user, row) \<in> set rs. row \<in> set ms \<and> pk_tenantId row = u_tenantId user))"

lemma park_appends:
  assumes "park e user outletId input d = Inr (dto, d')"
  shows "parkedCarts d' = parkedCarts d @ [pkd_cart dto]" "pk_id (pkd_cart dto) = e_cuid e (seq d)" "seq d' = seq d + 1"
  using assms by (auto simp: park_def guard_simps fresh_def Let_def audit_def parked_dto_of_def new_cart_def)

lemma one_row:
  assumes "distinct (map key ms)" "row \<in> set ms" "set rs \<subseteq> set ms" "length (filter P rs) = 1" "\<And>x. P x \<Longrightarrow> key x = key row"
  shows "mset (filter (\<lambda>x. \<not> P x) rs) + {#row#} = mset rs"
proof -
  from assms(4) obtain x where x: "filter P rs = [x]" by (cases "filter P rs") auto
  then have "x \<in> set (filter P rs)" by simp
  then have "x \<in> set rs" "P x" by simp_all
  with assms have "x = row" by (metis distinct_map inj_onD subsetD)
  moreover have "mset rs = mset (filter P rs) + mset (filter (\<lambda>x. \<not> P x) rs)" by simp
  ultimately show ?thesis by (simp only: x) simp
qed

lemma carts_drop:
  assumes "carts_ok src (d, rs, hs, ms)" "set rs' \<subseteq> set rs" "mset (parkedCarts d') + mset hs' = mset ms" "seq d' = seq d"
  shows "carts_ok src (d', rs', hs', ms)"
  using assms unfolding carts_ok_def by (simp only: case_prod_conv) blast

lemma cart_step_ok: "cart_step src s s' \<Longrightarrow> inj src \<Longrightarrow> carts_ok src s \<Longrightarrow> carts_ok src s'"
proof (induction rule: cart_step.induct)
  case (held e user outletId input d dto d' rs hs ms)
  note made = park_appends [OF held(2)]
  from held have "pk_id (pkd_cart dto) \<notin> pk_id ` set ms" by (auto simp: carts_ok_def made dest!: injD subsetD)
  with held show ?case by (auto simp: carts_ok_def made drawn_next)
next
  case (seen user i d row rs hs ms)
  from seen(1) have "row \<in> set (parkedCarts d)" "pk_tenantId row = u_tenantId user"
    by (auto simp: claim_read_def guard_simps dest: find_SomeD)
  moreover from seen(3) have "mset (parkedCarts d) + mset hs = mset ms" by (simp add: carts_ok_def)
  then have "set (parkedCarts d) \<subseteq> set ms" by (metis mset_subset_eq_add_left set_mset_mono set_mset_mset)
  ultimately show ?case using seen(3) by (auto simp: carts_ok_def)
next
  case (won user row rs action d d' hs ms)
  let ?P = "\<lambda>r. pk_id r = pk_id row \<and> pk_tenantId r = u_tenantId user"
  from won(2) have d': "parkedCarts d' = filter (\<lambda>r. \<not> ?P r) (parkedCarts d)" "seq d' = seq d" and one: "length (filter ?P (parkedCarts d)) = 1"
    by (auto simp: claim_tx_def guard_simps Let_def audit_def)
  from won(4) have ok: "mset (parkedCarts d) + mset hs = mset ms" "distinct (map pk_id ms)" by (simp_all add: carts_ok_def)
  from ok(1) have sub: "set (parkedCarts d) \<subseteq> set ms" by (metis mset_subset_eq_add_left set_mset_mono set_mset_mset)
  from won(1,4) have "row \<in> set ms" by (auto simp: carts_ok_def)
  from one_row [OF ok(2) this sub one] have "mset (parkedCarts d') + {#row#} = mset (parkedCarts d)" by (simp add: d')
  have "mset (parkedCarts d') + mset (hs @ [row]) = (mset (parkedCarts d') + {#row#}) + mset hs" by simp
  also have "\<dots> = mset ms" unfolding \<open>mset (parkedCarts d') + {#row#} = mset (parkedCarts d)\<close> by (rule ok(1))
  finally have "mset (parkedCarts d') + mset (hs @ [row]) = mset ms" .
  from carts_drop [OF won(4) set_remove1_subset this d'(2)] show ?case .
next
  case (lost user row rs action d err hs ms)
  from lost(4) have "mset (parkedCarts d) + mset hs = mset ms" by (simp add: carts_ok_def)
  from carts_drop [OF lost(4) set_remove1_subset this refl] show ?case .
next
  case (other d' d rs hs ms)
  then show ?case by (auto simp: carts_ok_def intro: drawn_later)
qed

lemma carts_reachable:
  assumes "(cart_step src)\<^sup>*\<^sup>* (d0, [], [], []) s" "inj src" "parkedCarts d0 = []" shows "carts_ok src s"
  using assms(1)
proof (induction rule: rtranclp_induct)
  case base
  then show ?case using assms(3) by (simp add: carts_ok_def)
next
  case (step s s')
  then show ?case using cart_step_ok assms(2) by blast
qed



section \<open>Calls\<close>

definition call_active :: "server_call_row \<Rightarrow> bool" where
  "call_active c \<longleftrightarrow> sv_status c = CallOpen \<or> sv_status c = CallAcknowledged"

definition call_key :: "server_call_row \<Rightarrow> id \<times> id \<times> id \<times> server_call_type" where
  "call_key c = (sv_tenantId c, sv_outletId c, sv_tableId c, sv_type c)"

definition calls_ok :: "db \<Rightarrow> bool" where
  "calls_ok d \<longleftrightarrow> distinct (map call_key (filter call_active (serverCalls d)))"

inductive call_step :: "db \<Rightarrow> db \<Rightarrow> bool" where
  diner: "callFromTable e token kind d = Inr (reply, d') \<Longrightarrow> call_step d d'"
| staff: "callByStaff e user outletId tableId kind d = Inr (c, d') \<Longrightarrow> call_step d d'"
| on_my_way: "acknowledge e user outletId i d = Inr (c, d') \<Longrightarrow> call_step d d'"
| handled: "resolve_call e user outletId i d = Inr (c, d') \<Longrightarrow> call_step d d'"
| billed: "call_step d (resolveBillCalls e tenantId outletId tableId userId d)"
| elsewhere: "serverCalls d' = serverCalls d \<Longrightarrow> call_step d d'"

lemma active_calls [simp]: "sv_status c \<in> set ACTIVE_CALLS \<longleftrightarrow> call_active c"
  by (simp add: ACTIVE_CALLS_def call_active_def)

lemma calls_update:
  assumes "\<And>c. P c \<Longrightarrow> call_key (f c) = call_key c \<and> (call_active (f c) \<longrightarrow> call_active c)" and "distinct (map call_key (filter call_active cs))"
  shows "distinct (map call_key (filter call_active (update_where P f cs)))
    \<and> (\<forall>c' \<in> set (update_where P f cs). call_active c' \<longrightarrow> (\<exists>c \<in> set cs. call_active c \<and> call_key c = call_key c'))"
  using assms(2)
proof (induction cs)
  case (Cons c cs)
  have head: "update_where P f (c # cs) = (if P c then f c else c) # update_where P f cs" by (simp add: update_where_def)
  from Cons have rest: "distinct (map call_key (filter call_active (update_where P f cs)))"
    "\<forall>c' \<in> set (update_where P f cs). call_active c' \<longrightarrow> (\<exists>c \<in> set cs. call_active c \<and> call_key c = call_key c')" by (auto split: if_splits)
  from Cons.prems have new: "call_active c \<Longrightarrow> x \<in> set cs \<Longrightarrow> call_active x \<Longrightarrow> call_key x \<noteq> call_key c" for x by (auto simp: image_iff)
  define c' where "c' = (if P c then f c else c)"
  from assms(1) [of c] have c': "call_key c' = call_key c" "call_active c' \<Longrightarrow> call_active c" by (cases "P c"; simp add: c'_def)+
  with new rest(2) have "call_active c' \<Longrightarrow> x \<in> set (update_where P f cs) \<Longrightarrow> call_active x \<Longrightarrow> call_key x \<noteq> call_key c'" for x by metis
  then have "call_active c' \<Longrightarrow> call_key c' \<notin> call_key ` set (filter call_active (update_where P f cs))" by fastforce
  with rest(1) have "distinct (map call_key (filter call_active (c' # update_where P f cs)))" by simp
  moreover have "\<forall>x \<in> set (c' # update_where P f cs). call_active x \<longrightarrow> (\<exists>y \<in> set (c # cs). call_active y \<and> call_key y = call_key x)"
    using rest(2) c' by auto
  ultimately show ?case unfolding head c'_def [symmetric] by blast
qed (simp add: update_where_def)

lemma find_only: "filter P xs = [c] \<Longrightarrow> List.find P xs = Some c"
  by (induction xs) (auto split: if_splits)

lemma raise_call_ok: "calls_ok d \<Longrightarrow> calls_ok (snd (raise_call e tenantId outletId tableId kind source userId d))"
  by (auto simp: raise_call_def calls_ok_def fresh_def Let_def audit_def call_key_def call_active_def find_None_iff_ball split: option.splits)

lemma call_transition_ok:
  assumes "call_transition e user outletId i from to d = Inr (c, d')" "calls_ok d" "set from \<subseteq> set ACTIVE_CALLS"
  shows "calls_ok d'"
proof -
  let ?P = "\<lambda>c. (sv_id c = i \<and> sv_tenantId c = u_tenantId user \<and> sv_outletId c = outletId) \<and> sv_status c \<in> set from"
  from assms(1) have "serverCalls d' = update_where ?P (advance_call e user to) (serverCalls d)"
    by (auto simp: call_transition_def guard_simps Let_def)
  moreover have "call_key (advance_call e user to c) = call_key c \<and> (call_active (advance_call e user to c) \<longrightarrow> call_active c)" if "?P c" for c
    using that assms(3) active_calls [of c] by (auto simp: advance_call_def call_key_def)
  ultimately show ?thesis using calls_update [of ?P "advance_call e user to" "serverCalls d"] assms(2) by (simp add: calls_ok_def)
qed

lemma call_step_ok: "call_step d d' \<Longrightarrow> calls_ok d \<Longrightarrow> calls_ok d'"
proof (induction rule: call_step.induct)
  case (diner e token kind d reply d')
  with raise_call_ok [OF diner(2)] show ?case by (auto simp: callFromTable_def guard_simps case_prod_beta)
next
  case (staff e user outletId tableId kind d c d')
  then have "d' = snd (raise_call e (u_tenantId user) outletId tableId kind FromStaff (Some (u_id user)) d)" by (auto simp: callByStaff_def guard_simps)
  with raise_call_ok staff(2) show ?case by simp
next
  case (on_my_way e user outletId i d c d')
  then show ?case using call_transition_ok [of e user outletId i "[CallOpen]"] by (simp add: acknowledge_def ACTIVE_CALLS_def)
next
  case (handled e user outletId i d c d')
  then show ?case using call_transition_ok [of e user outletId i ACTIVE_CALLS] by (simp add: resolve_call_def)
next
  case (billed d e tenantId outletId tableId userId)
  then show ?case unfolding calls_ok_def resolveBillCalls_def by (simp add: calls_update call_key_def call_active_def)
qed (simp add: calls_ok_def)

lemma calls_reachable:
  assumes "call_step\<^sup>*\<^sup>* d0 d" "serverCalls d0 = []" shows "calls_ok d"
  using assms(1)
proof (induction rule: rtranclp_induct)
  case base
  then show ?case using assms(2) by (simp add: calls_ok_def)
qed (use call_step_ok in blast)

text \<open>C36. However often diners and staff tap, a table has at most one unresolved call of a kind, and raising it again returns that call and writes
  nothing.\<close>

theorem one_call_per_table:
  assumes "call_step\<^sup>*\<^sup>* d0 d" "serverCalls d0 = []" and "c \<in> set (serverCalls d)" "sv_status c \<noteq> CallResolved"
  shows "length (filter (\<lambda>x. call_key x = call_key c \<and> sv_status x \<noteq> CallResolved) (serverCalls d)) = 1
    \<and> raise_call e (sv_tenantId c) (sv_outletId c) (sv_tableId c) (sv_type c) source userId d = (c, d)"
proof -
  have active: "sv_status x \<noteq> CallResolved \<longleftrightarrow> call_active x" for x by (cases "sv_status x") (simp_all add: call_active_def)
  from calls_reachable [OF assms(1,2)] have ok: "distinct (map call_key (filter call_active (serverCalls d)))" by (simp add: calls_ok_def)
  have c: "c \<in> set (filter call_active (serverCalls d))" using assms(3,4) by (simp add: active)
  have "filter (\<lambda>x. call_key x = call_key c) (filter call_active (serverCalls d)) = [c]" if "distinct (map call_key cs)" "c \<in> set cs" "cs = filter call_active (serverCalls d)" for cs
    using that(1,2) unfolding that(3) [symmetric] by (induction cs) (auto simp: image_iff filter_empty_conv)
  from this [OF ok c refl] have only: "filter (\<lambda>x. call_key x = call_key c \<and> call_active x) (serverCalls d) = [c]" by (simp add: conj_commute)
  let ?hit = "\<lambda>x. sv_tenantId x = sv_tenantId c \<and> sv_outletId x = sv_outletId c \<and> sv_tableId x = sv_tableId c \<and> sv_type x = sv_type c \<and> sv_status x \<in> set ACTIVE_CALLS"
  have hit: "?hit = (\<lambda>x. call_key x = call_key c \<and> call_active x)" by (auto simp: call_key_def)
  have "List.find ?hit (serverCalls d) = Some c" unfolding hit using only by (rule find_only)
  with only show ?thesis by (simp add: active raise_call_def)
qed

section \<open>The kitchen display\<close>

text \<open>The specification: the lines on the rail, and the ticket and station a line belongs to.\<close>

definition line_key :: "order_item_row \<Rightarrow> string" where
  "line_key l = kds_key (the (oi_kotId l)) (oi_stationId l)"

definition on_rail :: "env \<Rightarrow> auth_user \<Rightarrow> id \<Rightarrow> db \<Rightarrow> order_item_row \<Rightarrow> bool" where
  "on_rail e user outletId d l \<longleftrightarrow> shown_on_kds e user outletId d l \<and> (\<exists>k \<in> set (kots d). oi_kotId l = Some (k_id k))"

definition grouped :: "order_item_row list \<Rightarrow> kds_ticket list \<Rightarrow> bool" where
  "grouped ls ts \<longleftrightarrow> distinct (map kt_key ts) \<and> kt_key ` set ts = line_key ` set ls
     \<and> (\<forall>t \<in> set ts. kt_items t = map kds_item_of (filter (\<lambda>l. line_key l = kt_key t) ls)
          \<and> kt_status t = oi_prepStatus (last (filter (\<lambda>l. line_key l = kt_key t) ls)))"

definition merge_ticket :: "kds_ticket \<Rightarrow> kds_ticket \<Rightarrow> kds_ticket" where
  "merge_ticket t x = x\<lparr>kt_items := kt_items x @ kt_items t, kt_status := kt_status t,
     kt_preppedAt := (if kt_preppedAt t \<noteq> None then kt_preppedAt t else kt_preppedAt x)\<rparr>"

lemma merge_ticket_simps [simp]:
  "kt_key (merge_ticket t x) = kt_key x" "kt_items (merge_ticket t x) = kt_items x @ kt_items t" "kt_status (merge_ticket t x) = kt_status t"
  by (simp_all add: merge_ticket_def)

lemma put_ticket_merge: "put_ticket t (x # xs) = (if kt_key x = kt_key t then merge_ticket t x # xs else x # put_ticket t xs)"
  by (simp add: merge_ticket_def)

lemma put_ticket_keys:
  "map kt_key (put_ticket t ts) = (if kt_key t \<in> kt_key ` set ts then map kt_key ts else map kt_key ts @ [kt_key t])"
  by (induction ts) (auto simp: put_ticket_merge simp del: put_ticket.simps(2))

lemma put_ticket_member:
  assumes "distinct (map kt_key ts)" "x \<in> set (put_ticket t ts)"
  shows "x \<in> set ts \<and> kt_key x \<noteq> kt_key t \<or> (\<exists>y \<in> set ts. kt_key y = kt_key t \<and> x = merge_ticket t y) \<or> kt_key t \<notin> kt_key ` set ts \<and> x = t"
  using assms
proof (induction ts)
  case (Cons y ts)
  then show ?case by (cases "kt_key y = kt_key t") (auto simp: put_ticket_merge image_iff simp del: put_ticket.simps(2))
qed simp

lemma grouped_put:
  assumes "grouped ls ts" "kt_key t = line_key l" "kt_items t = [kds_item_of l]" "kt_status t = oi_prepStatus l"
  shows "grouped (ls @ [l]) (put_ticket t ts)"
proof -
  from assms(1) have ok: "distinct (map kt_key ts)" "kt_key ` set ts = line_key ` set ls" by (simp_all add: grouped_def)
  have "distinct (map kt_key (put_ticket t ts))" using ok(1) by (simp add: put_ticket_keys)
  moreover have "set (map kt_key (put_ticket t ts)) = line_key ` set (ls @ [l])"
    unfolding put_ticket_keys using ok(2) by (auto simp: assms(2))
  moreover have "kt_items x = map kds_item_of (filter (\<lambda>l. line_key l = kt_key x) (ls @ [l]))
      \<and> kt_status x = oi_prepStatus (last (filter (\<lambda>l. line_key l = kt_key x) (ls @ [l])))" if "x \<in> set (put_ticket t ts)" for x
    using put_ticket_member [OF ok(1) that]
  proof (elim disjE conjE bexE)
    assume "kt_key t \<notin> kt_key ` set ts" "x = t"
    then have "filter (\<lambda>l. line_key l = kt_key x) ls = []" unfolding ok(2) by (auto simp: filter_empty_conv image_iff)
    then show ?thesis using \<open>x = t\<close> assms(2-4) by simp
  qed (use assms in \<open>auto simp: grouped_def\<close>)
  ultimately show ?thesis unfolding grouped_def by simp
qed

lemma fold_groups:
  assumes "\<forall>l \<in> set ls. shown_on_kds e user outletId d l"
  shows "grouped (filter (on_rail e user outletId d) ls) (fold (add_to_tickets user outletId d) ls [])"
  using assms
proof (induction ls rule: rev_induct)
  case Nil
  show ?case by (simp add: grouped_def)
next
  case (snoc l ls)
  from snoc.prems have shown: "shown_on_kds e user outletId d l" by simp
  then obtain ord where ord: "List.find (\<lambda>o'. o_id o' = oi_orderId l) (orders d) = Some ord"
    by (cases "List.find (\<lambda>o'. o_id o' = oi_orderId l) (orders d)") (auto simp: shown_on_kds_def find_None_iff_ball)
  show ?case
  proof (cases "List.find (\<lambda>k. Some (k_id k) = oi_kotId l) (kots d)")
    case None
    then have "\<not> on_rail e user outletId d l" by (auto simp: on_rail_def find_None_iff_ball)
    with snoc None show ?thesis by (simp add: add_to_tickets_def)
  next
    case (Some k)
    from find_SomeD [OF Some] have k: "k \<in> set (kots d)" "oi_kotId l = Some (k_id k)" by auto
    with shown have "on_rail e user outletId d l" by (auto simp: on_rail_def)
    moreover have "grouped (filter (on_rail e user outletId d) ls @ [l]) (put_ticket (ticket_of user outletId d k ord l) (fold (add_to_tickets user outletId d) ls []))"
      using snoc k(2) by (intro grouped_put) (auto simp: ticket_of_def line_key_def Let_def)
    moreover have "add_to_tickets user outletId d l ts = put_ticket (ticket_of user outletId d k ord l) ts" for ts
      using Some ord by (simp add: add_to_tickets_def)
    ultimately show ?thesis by simp
  qed
qed

text \<open>C37. The kitchen display is the grouping of the lines on the rail by ticket and station: one card per group, oldest first, that holds
  exactly the lines of the group in order and shows the status of the last.\<close>

theorem kds_groups_lines:
  assumes "tickets e user outletId d = Inr ts"
  shows "distinct (map kt_key ts) \<and> sorted (map kt_createdAt ts) \<and> kt_key ` set ts = line_key ` set (filter (on_rail e user outletId d) (orderItems d))
    \<and> (\<forall>t \<in> set ts. kt_items t = map kds_item_of (filter (\<lambda>l. line_key l = kt_key t) (filter (on_rail e user outletId d) (orderItems d)))
        \<and> kt_status t = oi_prepStatus (last (filter (\<lambda>l. line_key l = kt_key t) (filter (on_rail e user outletId d) (orderItems d)))))"
proof -
  define us where "us = fold (add_to_tickets user outletId d) (filter (shown_on_kds e user outletId d) (orderItems d)) []"
  have "filter (on_rail e user outletId d) (filter (shown_on_kds e user outletId d) (orderItems d)) = filter (on_rail e user outletId d) (orderItems d)"
    by (auto simp: on_rail_def intro!: filter_cong)
  with fold_groups [of "filter (shown_on_kds e user outletId d) (orderItems d)" e user outletId d]
  have us: "grouped (filter (on_rail e user outletId d) (orderItems d)) us" unfolding us_def by simp
  from assms have ts: "ts = sort_key kt_createdAt us" by (auto simp: tickets_def guard_simps us_def)
  then have "set ts = set us" "mset (map kt_key ts) = mset (map kt_key us)" by simp_all
  then have "set ts = set us" "distinct (map kt_key ts) = distinct (map kt_key us)" using mset_eq_imp_distinct_iff by blast+
  with us ts show ?thesis unfolding grouped_def by simp
qed

section \<open>A shift at the desk\<close>

definition clerk0 :: auth_user where
  "clerk0 = \<lparr> u_id = ''c'', u_tenantId = ''t'', u_outletIds = [''k''], u_permissions = [] \<rparr>"

definition cart0 :: park_input where
  "cart0 = \<lparr> pki_label = ''Asha'', pki_orderType = TAKEAWAY, pki_tableId = None, pki_orderId = None, pki_customerName = None, pki_customerPhone = None,
     pki_lines = [ParkedCombo \<lparr> ci_comboId = ''m'', ci_quantity = 2, ci_note = None, ci_selections = [] \<rparr> ''Meal'' [] 120] \<rparr>"


definition desk0 :: db where
  "desk0 = db0\<lparr> diningTables :=
     [\<lparr> dt_id = ''a'', dt_tenantId = ''t'', dt_outletId = ''k'', dt_areaId = ''hall'', dt_name = ''T1'', dt_seats = 4, dt_publicToken = Some ''qr'' \<rparr>] \<rparr>"

text \<open>A diner taps for water; the captain's call for the same table is that call.\<close>

theorem one_call_per_table_witness:
  "\<exists>d c. callFromTable env0 ''qr'' CallWater desk0 = Inr ((''T1'', sv_id c), d) \<and> callByStaff env0 clerk0 ''k'' ''a'' CallWater d = Inr (c, d)"
proof -
  define c where "c = \<lparr> sv_id = [], sv_tenantId = ''t'', sv_outletId = ''k'', sv_tableId = ''a'', sv_type = CallWater, sv_source = FromDiner, sv_status = CallOpen,
    sv_createdById = None, sv_acknowledgedById = None, sv_acknowledgedAt = None, sv_resolvedById = None, sv_resolvedAt = None, sv_createdAt = e_now env0 \<rparr>"
  define d where "d = audit ''t'' None ''SERVER_CALL_WATER'' ''dining_table'' ''a'' (desk0\<lparr>seq := 1, serverCalls := [c]\<rparr>)"
  have call: "callFromTable env0 ''qr'' CallWater desk0 = Inr ((''T1'', sv_id c), d)"
    by (simp add: callFromTable_def raise_call_def desk0_def db0_def fresh_def Let_def c_def d_def) (simp add: env0_def)
  then have "call_step\<^sup>*\<^sup>* desk0 d" by (blast intro: r_into_rtranclp call_step.diner)
  then have "raise_call env0 (sv_tenantId c) (sv_outletId c) (sv_tableId c) (sv_type c) FromStaff (Some (u_id clerk0)) d = (c, d)"
    using one_call_per_table [of desk0 d c env0 FromStaff "Some (u_id clerk0)"] by (simp add: d_def audit_def c_def desk0_def db0_def)
  then have "callByStaff env0 clerk0 ''k'' ''a'' CallWater d = Inr (c, d)"
    by (simp add: callByStaff_def guard_simps assertOutlet_def clerk0_def c_def) (simp add: d_def audit_def desk0_def)
  with call show ?thesis by blast
qed

text \<open>A ticket of two stations, one line of which is done for longer than the window.\<close>

definition rail0 :: "string \<Rightarrow> id option \<Rightarrow> prep_status \<Rightarrow> int option \<Rightarrow> order_item_row" where
  "rail0 i station status done_at = \<lparr> oi_id = i, oi_orderId = ''o'', oi_itemId = ''dal'', oi_itemName = ''Dal'', oi_variationId = None, oi_variationName = None,
     oi_quantity = 1, oi_unitPrice = 90, oi_lineTotal = 90, oi_taxRate = 5, oi_note = None, oi_kotId = Some ''q'', oi_stationId = station, oi_prepStatus = status,
     oi_preppedAt = done_at, oi_comboId = None, oi_comboGroupId = None, oi_isComboComponent = False, oi_splitFromItemId = None, oi_splitParts = None, oi_addons = [] \<rparr>"

definition pass0 :: db where
  "pass0 = db0\<lparr> orders := [blank_order ''o'' ''t'' ''k'' TAKEAWAY],
     kots := [\<lparr> k_id = ''q'', k_tenantId = ''t'', k_outletId = ''k'', k_orderId = ''o'', k_kotNumber = 7, k_createdAt = 0 \<rparr>],
     orderItems := [rail0 ''1'' (Some ''grill'') PENDING None, rail0 ''2'' None PENDING None, rail0 ''3'' (Some ''grill'') PREPARING None,
       rail0 ''4'' None READY (Some 0)] \<rparr>"

theorem kds_groups_lines_witness:
  "\<exists>ts. tickets env0 clerk0 ''k'' pass0 = Inr ts \<and> map (map kdi_id \<circ> kt_items) ts = [[''1'', ''3''], [''2'']] \<and> sorted (map kt_createdAt ts)"
proof -
  obtain ts where ts: "tickets env0 clerk0 ''k'' pass0 = Inr ts" "map (map kdi_id \<circ> kt_items) ts = [[''1'', ''3''], [''2'']]"
    by (simp add: tickets_def guard_simps assertOutlet_def clerk0_def pass0_def db0_def rail0_def shown_on_kds_def blank_order_def READY_WINDOW_MS_def
        env0_def add_to_tickets_def ticket_of_def kds_key_def kds_item_of_def Let_def)
  from kds_groups_lines [OF ts(1)] have "sorted (map kt_createdAt ts)" by (elim conjE)
  with ts show ?thesis by (intro exI [of _ ts] conjI)
qed

end
