(* ===== verification/Scan_Orders.thy ===== *)
theory Scan_Orders
  imports Orders
begin

text \<open>
  Scan and order (\<open>apps/api/src/scan-order/scan-order.service.ts\<close>): a diner submits a cart from a table's or a kiosk's code, and a
  member of staff accepts or rejects it. Accepting is not one transaction: it claims the request, lets the order service ingest it,
  draws a token number and closes the request, each in a transaction of its own, so these are separate definitions that
  \<open>accept\<close> runs in order. The menu and the priced queue are reads and are left out.
\<close>

record submit_input =
  smi_items :: "submitted_item list"
  smi_combos :: "submitted_combo list option"
  smi_customerName :: "string option"
  smi_customerPhone :: "string option"
  smi_note :: "string option"

section \<open>Submission\<close>

definition check_item :: "env \<Rightarrow> id \<Rightarrow> string \<Rightarrow> db \<Rightarrow> submitted_item \<Rightarrow> unit result" where
  "check_item e outletId timezone d line =
    ebind (some_or (List.find (\<lambda>i. it_id i = sub_itemId line \<and> it_outletId i = outletId \<and> it_deletedAt i = None) (items d))
        (BadRequest [Txt ''An item is no longer on the menu''])) (\<lambda>item.
    ebind (require (it_inStock item) (BadRequest [Txt (it_name item @ '' is out of stock'')])) (\<lambda>_.
      assertAvailable e item timezone (e_now e)))"

definition check_combo :: "id \<Rightarrow> db \<Rightarrow> submitted_combo \<Rightarrow> unit result" where
  "check_combo outletId d c =
    ebind (some_or (List.find (\<lambda>x. co_id x = suc_comboId c \<and> co_outletId x = outletId \<and> co_deletedAt x = None) (combos d))
        (BadRequest [Txt ''A combo is no longer on the menu''])) (\<lambda>combo.
      require (co_inStock combo) (BadRequest [Txt (co_name combo @ '' is unavailable'')]))"

definition createRequest :: "env \<Rightarrow> id \<Rightarrow> id \<Rightarrow> request_mode \<Rightarrow> id option \<Rightarrow> submit_input \<Rightarrow> db \<Rightarrow> (string \<times> db) result" where
  "createRequest e tenantId outletId mode tableId input d =
    (let rules = loadBillingRules tenantId outletId d; combos = or_else (smi_combos input) []
     in ebind (emap (check_item e outletId (br_timezone rules) d) (smi_items input)) (\<lambda>_.
        ebind (emap (check_combo outletId d) combos) (\<lambda>_.
          case fresh e d of (i, d1) \<Rightarrow> case fresh e d1 of (token, d2) \<Rightarrow>
          Inr (token, orderRequests_update (\<lambda>rs. rs @ [\<lparr> orq_id = i, orq_tenantId = tenantId, orq_outletId = outletId, orq_tableId = tableId, orq_mode = mode,
            orq_customerName = smi_customerName input, orq_customerPhone = smi_customerPhone input, orq_items = smi_items input, orq_combos = Some combos,
            orq_note = smi_note input, orq_status = ScanPending, orq_token = token, orq_orderId = None, orq_tokenNumber = None,
            orq_createdAt = e_now e, orq_decidedAt = None \<rparr>]) d2))))"

definition submitFromTable :: "env \<Rightarrow> string \<Rightarrow> submit_input \<Rightarrow> db \<Rightarrow> (string \<times> db) result" where
  "submitFromTable e token input d =
    ebind (some_or (List.find (\<lambda>t. dt_publicToken t = Some token) (diningTables d)) (NotFound [Txt ''This QR code is no longer active''])) (\<lambda>t.
    ebind (some_or (row_by ou_id (dt_outletId t) (outlets d)) RowMissing) (\<lambda>u.
      createRequest e (ou_tenantId u) (dt_outletId t) ModeDineIn (Some (dt_id t)) input d))"

definition submitFromKiosk :: "env \<Rightarrow> string \<Rightarrow> submit_input \<Rightarrow> db \<Rightarrow> (string \<times> db) result" where
  "submitFromKiosk e token input d =
    ebind (some_or (List.find (\<lambda>u. ou_publicToken u = Some token) (outlets d)) (NotFound [Txt ''This kiosk link is no longer active''])) (\<lambda>u.
      createRequest e (ou_tenantId u) (ou_id u) ModeTakeaway None input d)"

definition request_status_of :: "string \<Rightarrow> db \<Rightarrow> (scan_status \<times> int option) result" where
  "request_status_of token d =
    ebind (some_or (List.find (\<lambda>r. orq_token r = token) (orderRequests d)) (NotFound [Txt ''Order request not found'']))
      (\<lambda>r. Inr (orq_status r, orq_tokenNumber r))"

text \<open>The token board: an accepted request is ready when all lines of its open order are, and is cleared once that is settled.\<close>

definition board :: "string \<Rightarrow> db \<Rightarrow> (int list \<times> int list) result" where
  "board outletToken d =
    ebind (some_or (List.find (\<lambda>u. ou_publicToken u = Some outletToken) (outlets d)) (NotFound [Txt ''Board link is no longer active''])) (\<lambda>u.
      let reqs = sort_key (\<lambda>r. the (orq_tokenNumber r)) (filter (\<lambda>r. orq_outletId r = ou_id u \<and> orq_status r = ScanAccepted \<and> orq_tokenNumber r \<noteq> None
            \<and> orq_orderId r \<noteq> None) (orderRequests d));
          lines = (\<lambda>r. filter (\<lambda>l. Some (oi_orderId l) = orq_orderId r) (orderItems d));
          live = filter (\<lambda>r. (\<exists>o' \<in> set (orders d). Some (o_id o') = orq_orderId r \<and> o_status o' = OPEN) \<and> lines r \<noteq> []) reqs;
          ready = (\<lambda>r. \<forall>l \<in> set (lines r). oi_prepStatus l = READY)
      in Inr (map (the \<circ> orq_tokenNumber) (filter (\<lambda>r. \<not> ready r) live), map (the \<circ> orq_tokenNumber) (filter ready live)))"

section \<open>Decision\<close>

definition requireRequest :: "auth_user \<Rightarrow> id \<Rightarrow> db \<Rightarrow> order_request_row result" where
  "requireRequest user i d =
    ebind (some_or (row_by orq_id i (orderRequests d)) (NotFound [Txt ''Order request not found''])) (\<lambda>req.
    ebind (require (orq_tenantId req = u_tenantId user) (NotFound [Txt ''Order request not found''])) (\<lambda>_.
    ebind (assertOutlet user (orq_outletId req)) (\<lambda>_. Inr req)))"

definition set_request :: "id \<Rightarrow> (order_request_row \<Rightarrow> order_request_row) \<Rightarrow> db \<Rightarrow> db" where
  "set_request i f = orderRequests_update (set_row orq_id i f)"

text \<open>Claiming moves a pending request to processing, in one conditional update.\<close>

definition accept_claim :: "auth_user \<Rightarrow> id \<Rightarrow> db \<Rightarrow> (order_request_row \<times> db) result" where
  "accept_claim user i d =
    (let mine = (\<lambda>r. orq_id r = i \<and> orq_tenantId r = u_tenantId user \<and> orq_outletId r \<in> set (u_outletIds user) \<and> orq_status r = ScanPending);
         d1 = orderRequests_update (update_where mine (\<lambda>r. r\<lparr>orq_status := ScanProcessing\<rparr>)) d
     in ebind (require (length (filter mine (orderRequests d)) = 1) (BadRequest [Txt ''Request already decided or unavailable''])) (\<lambda>_.
        ebind (requireRequest user i d1) (\<lambda>req. Inr (req, d1))))"

definition to_line :: "submitted_item \<Rightarrow> order_line_input" where
  "to_line s = \<lparr> li_itemId = sub_itemId s, li_variationId = sub_variationId s, li_addonIds = or_else (sub_addonIds s) [], li_quantity = sub_quantity s,
     li_note = sub_note s, li_offlineUnitPrice = None, li_offlineTaxRate = None \<rparr>"

definition to_combo :: "submitted_combo \<Rightarrow> combo_input" where
  "to_combo c = \<lparr> ci_comboId = suc_comboId c, ci_quantity = suc_quantity c, ci_note = suc_note c, ci_selections = or_else (suc_selections c) [] \<rparr>"

definition accept_ingest :: "env \<Rightarrow> auth_user \<Rightarrow> order_request_row \<Rightarrow> db \<Rightarrow> (ingest_reply \<times> db) result" where
  "accept_ingest e user req d = ingestScanOrder e (u_tenantId user) (orq_outletId req) (orq_mode req = ModeDineIn) (orq_tableId req)
     (map to_line (orq_items req)) (map to_combo (or_else (orq_combos req) [])) (orq_customerName req) (orq_customerPhone req) d"

text \<open>After a failed ingestion the request is pending again.\<close>

definition release :: "id \<Rightarrow> db \<Rightarrow> db" where
  "release i = orderRequests_update (update_where (\<lambda>r. orq_id r = i \<and> orq_status r = ScanProcessing) (\<lambda>r. r\<lparr>orq_status := ScanPending\<rparr>))"

definition next_token :: "id \<Rightarrow> db \<Rightarrow> int" where
  "next_token outletId d = foldr max (map (\<lambda>r. the (orq_tokenNumber r)) (filter (\<lambda>r. orq_outletId r = outletId \<and> orq_tokenNumber r \<noteq> None) (orderRequests d))) 0 + 1"

definition accept_close :: "env \<Rightarrow> auth_user \<Rightarrow> id \<Rightarrow> id \<Rightarrow> int \<Rightarrow> db \<Rightarrow> db" where
  "accept_close e user i orderId token d = audit (u_tenantId user) (Some (u_id user)) ''SCAN_ORDER_ACCEPTED'' ''order_request'' i
     (set_request i (\<lambda>r. r\<lparr>orq_status := ScanAccepted, orq_orderId := Some orderId, orq_tokenNumber := Some token, orq_decidedAt := Some (e_now e)\<rparr>) d)"

text \<open>The whole acceptance when nothing comes in between. A failed ingestion throws its error and leaves the request pending.\<close>

definition accept :: "env \<Rightarrow> auth_user \<Rightarrow> id \<Rightarrow> db \<Rightarrow> unit result \<times> db" where
  "accept e user i d =
    (case accept_claim user i d of
       Inl err \<Rightarrow> (Inl err, d)
     | Inr (req, d1) \<Rightarrow> (case accept_ingest e user req d1 of
         Inl err \<Rightarrow> (Inl err, release i d1)
       | Inr (reply, d2) \<Rightarrow> (Inr (), accept_close e user i (ir_orderId reply) (next_token (orq_outletId req) d2) d2)))"

text \<open>Rejecting reads the request, then writes it.\<close>

definition reject_read :: "auth_user \<Rightarrow> id \<Rightarrow> db \<Rightarrow> order_request_row result" where
  "reject_read user i d =
    ebind (requireRequest user i d) (\<lambda>req.
    ebind (require (orq_status req = ScanPending) (BadRequest [Txt ''Request already decided''])) (\<lambda>_. Inr req))"

definition reject_write :: "env \<Rightarrow> id \<Rightarrow> db \<Rightarrow> db" where
  "reject_write e i d = set_request i (\<lambda>r. r\<lparr>orq_status := ScanRejected, orq_decidedAt := Some (e_now e)\<rparr>) d"

definition reject :: "env \<Rightarrow> auth_user \<Rightarrow> id \<Rightarrow> db \<Rightarrow> db result" where
  "reject e user i d = ebind (reject_read user i d) (\<lambda>_. Inr (reject_write e i d))"

end
