(* ===== verification/Scan_Laws.thy ===== *)
theory Scan_Laws
  imports Scan_Orders
begin

text \<open>
  What accepting a diner's request promises. It is a sequence of transactions, so members of staff who accept and reject at once interleave: a
  request is cooked at most once however they do, and an acceptance that nothing interrupts either closes the request or leaves no trace.
\<close>

section \<open>What ingestion leaves alone\<close>

lemma ingest_frame:
  assumes "ingestScanOrder e t u dine tb inputs cs name phone d = Inr (reply, d')"
  shows "orderRequests d' = orderRequests d" "seq d \<le> seq d'" "ir_orderId reply \<in> o_id ` set (orders d')"
proof -
  from assms obtain orderId d1 x d2 row where open_order:
      "(case (if dine then open_on_table t u (the tb) d else None) of
          Some order \<Rightarrow> ebind (require (\<not> nonzero (o_splitCount order))
              (BadRequest [Txt ''This table's bill is being split; ask staff to finish billing first''])) (\<lambda>_. Inr (o_id order, d))
        | None \<Rightarrow> create_order e (\<lambda>i. (blank_order i t u (if dine then DINE_IN else TAKEAWAY))
              \<lparr> o_tableId := (if dine then tb else None), o_customerName := name, o_customerPhone := phone \<rparr>) d) = Inr (orderId, d1)"
    and punch: "punchItems e \<lparr> ac_tenantId = t, ac_id = None \<rparr> orderId u inputs cs \<lparr> po_source = SourceSCAN dine, po_offline = False, po_at = None \<rparr> d1 = Inr (x, d2)"
    and total: "recomputeTotals orderId None False d2 = Inr (row, d')" and reply: "ir_orderId reply = orderId"
    by (simp only: ingestScanOrder_def Let_def ebind_eq_Inr split_paired_Ex case_prod_conv sum.inject prod.inject)
      (elim exE conjE, rule that, assumption, assumption, auto)
  have create: "orderRequests d1 = orderRequests d \<and> seq d \<le> seq d1" if "create_order e mk d = Inr (i, d1)" for mk i
    using that by (simp only: create_order_def fresh_def case_prod_conv ebind_eq_Inr sum.inject prod.inject) auto
  have start: "orderRequests d1 = orderRequests d \<and> seq d \<le> seq d1"
  proof (cases "if dine then open_on_table t u (the tb) d else None")
    case None
    with open_order create show ?thesis by (simp only: option.case)
  next
    case (Some order)
    with open_order show ?thesis by (simp only: option.case ebind_eq_Inr sum.inject prod.inject) blast
  qed
  have mid: "orderRequests d2 = orderRequests d1 \<and> seq d1 \<le> seq d2"
    by (rule punchItems_frame [OF punch]) simp
  from total obtain old totals sc where "row_by o_id orderId (orders d2) = Some old"
    and d': "d' = orders_update (set_row o_id orderId (write_totals totals sc)) d2" by (elim recomputeTotals_Inr)
  then have "orderId \<in> o_id ` set (orders d2)" using row_by_Some [of o_id orderId "orders d2" old] by auto
  then show "ir_orderId reply \<in> o_id ` set (orders d')" by (simp add: reply d' image_key_set_row write_totals_def)
  show "orderRequests d' = orderRequests d" "seq d \<le> seq d'" using start mid by (simp_all add: d')
qed

section \<open>Staff at once\<close>

text \<open>
  The work in progress of a member of staff, between two transactions: a claimed request, one whose ingestion failed and that is to be released, one
  that is cooked and waits for its number or for its closing, and a rejection that has read the request.
\<close>

datatype scan_job =
    Claimed auth_user order_request_row
  | Failed order_request_row
  | Cooked auth_user order_request_row id
  | Numbered auth_user order_request_row id int
  | Refusing order_request_row

type_synonym scan_state = "db \<times> scan_job list \<times> (id \<times> id) list"

text \<open>The ghost list records the orders the kitchen received, by request.\<close>

inductive scan_step :: "(nat \<Rightarrow> id) \<Rightarrow> scan_state \<Rightarrow> scan_state \<Rightarrow> bool" for src where
  submitted: "e_cuid e = src \<Longrightarrow> createRequest e tenantId outletId mode tableId input d = Inr (token, d') \<Longrightarrow> scan_step src (d, js, served) (d', js, served)"
| claimed: "accept_claim user i d = Inr (req, d') \<Longrightarrow> scan_step src (d, js, served) (d', Claimed user req # js, served)"
| cooked: "Claimed user req \<in> set js \<Longrightarrow> accept_ingest e user req d = Inr (reply, d') \<Longrightarrow>
    scan_step src (d, js, served) (d', Cooked user req (ir_orderId reply) # remove1 (Claimed user req) js, served @ [(orq_id req, ir_orderId reply)])"
| failed: "Claimed user req \<in> set js \<Longrightarrow> accept_ingest e user req d = Inl err \<Longrightarrow>
    scan_step src (d, js, served) (d, Failed req # remove1 (Claimed user req) js, served)"
| released: "Failed req \<in> set js \<Longrightarrow> scan_step src (d, js, served) (release (orq_id req) d, remove1 (Failed req) js, served)"
| numbered: "Cooked user req oid \<in> set js \<Longrightarrow>
    scan_step src (d, js, served) (d, Numbered user req oid (next_token (orq_outletId req) d) # remove1 (Cooked user req oid) js, served)"
| closed: "Numbered user req oid token \<in> set js \<Longrightarrow>
    scan_step src (d, js, served) (accept_close e user (orq_id req) oid token d, remove1 (Numbered user req oid token) js, served)"
| refusing: "reject_read user i d = Inr req \<Longrightarrow> scan_step src (d, js, served) (d, Refusing req # js, served)"
| refused: "Refusing req \<in> set js \<Longrightarrow> scan_step src (d, js, served) (reject_write e (orq_id req) d, remove1 (Refusing req) js, served)"
| elsewhere: "map (\<lambda>r. (orq_id r, orq_status r)) (orderRequests d') = map (\<lambda>r. (orq_id r, orq_status r)) (orderRequests d) \<Longrightarrow> seq d \<le> seq d' \<Longrightarrow>
    scan_step src (d, js, served) (d', js, served)"

text \<open>How often a request is on its way to the kitchen or was sent there.\<close>

fun on_its_way :: "id \<Rightarrow> scan_job \<Rightarrow> bool" where
  "on_its_way i (Claimed user req) = (orq_id req = i)"
| "on_its_way i (Failed req) = (orq_id req = i)"
| "on_its_way i job = False"

definition load :: "id \<Rightarrow> scan_job list \<Rightarrow> (id \<times> id) list \<Rightarrow> nat" where
  "load i js served = length (filter (on_its_way i) js) + length (filter (\<lambda>p. fst p = i) served)"

lemma load_simps [simp]:
  "load i (j # js) served = (if on_its_way i j then Suc (load i js served) else load i js served)"
  "load i js (served @ [(k, oid)]) = (if k = i then Suc (load i js served) else load i js served)"
  by (simp_all add: load_def)

lemma load_remove1: "j \<in> set js \<Longrightarrow> load i js served = (if on_its_way i j then Suc (load i (remove1 j js) served) else load i (remove1 j js) served)"
proof (induction js)
  case (Cons k js)
  then show ?case by (cases "k = j") auto
qed simp

definition scans_ok :: "(nat \<Rightarrow> id) \<Rightarrow> scan_state \<Rightarrow> bool" where
  "scans_ok src s = (case s of (d, js, served) \<Rightarrow>
     distinct (map orq_id (orderRequests d)) \<and> orq_id ` set (orderRequests d) \<subseteq> src ` {..<seq d}
     \<and> (\<forall>i. load i js served \<le> 1 \<and> (0 < load i js served \<longrightarrow> i \<in> orq_id ` set (orderRequests d)))
     \<and> (\<forall>r \<in> set (orderRequests d). orq_status r = ScanPending \<longrightarrow> load (orq_id r) js served = 0))"

text \<open>A step that keeps the ids, may only take requests out of the queue, and adds no load.\<close>

lemma scans_shrink:
  assumes "scans_ok src (d, js, served)" "seq d \<le> seq d'" "map orq_id (orderRequests d') = map orq_id (orderRequests d)"
    and "\<And>i. load i js' served' \<le> load i js served"
    and "\<And>r'. r' \<in> set (orderRequests d') \<Longrightarrow> orq_status r' = ScanPending \<Longrightarrow> load (orq_id r') js served = 0 \<or> load (orq_id r') js' served' = 0"
  shows "scans_ok src (d', js', served')"
proof -
  from assms(3) have ids: "orq_id ` set (orderRequests d') = orq_id ` set (orderRequests d)" by (metis list.set_map)
  from assms(1) have "distinct (map orq_id (orderRequests d'))" by (simp add: scans_ok_def assms(3))
  moreover have "orq_id ` set (orderRequests d') \<subseteq> src ` {..<seq d'}"
    unfolding ids by (rule drawn_mono [OF _ assms(2)]) (use assms(1) in \<open>simp add: scans_ok_def\<close>)
  moreover have "load i js' served' \<le> 1 \<and> (0 < load i js' served' \<longrightarrow> i \<in> orq_id ` set (orderRequests d'))" for i
  proof -
    from assms(1) have "load i js served \<le> 1" "0 < load i js served \<Longrightarrow> i \<in> orq_id ` set (orderRequests d)" by (simp_all add: scans_ok_def)
    with assms(4) [of i] show ?thesis unfolding ids by linarith
  qed
  moreover have "load (orq_id r') js' served' = 0" if "r' \<in> set (orderRequests d')" "orq_status r' = ScanPending" for r'
    using assms(5) [OF that] assms(4) [of "orq_id r'"] by auto
  ultimately show ?thesis by (simp add: scans_ok_def)
qed

lemma scans_quiet:
  assumes "scans_ok src (d, js, served)" "seq d \<le> seq d'" "orderRequests d' = orderRequests d" "\<And>i. load i js' served' \<le> load i js served"
  shows "scans_ok src (d', js', served')"
  using assms(1) by (intro scans_shrink [OF assms(1,2) _ assms(4)]) (auto simp: assms(3) scans_ok_def)

lemma scans_update:
  assumes "scans_ok src (d, js, served)" "seq d' = seq d" "orderRequests d' = update_where P f (orderRequests d)" "\<And>r. orq_id (f r) = orq_id r"
    and "\<And>i. load i js' served' \<le> load i js served" and "\<And>r. P r \<Longrightarrow> orq_status (f r) = ScanPending \<Longrightarrow> load (orq_id r) js' served' = 0"
  shows "scans_ok src (d', js', served')"
proof (rule scans_shrink [OF assms(1)])
  show "map orq_id (orderRequests d') = map orq_id (orderRequests d)" unfolding assms(3) by (simp add: map_update_where assms(4))
  fix r' assume "r' \<in> set (orderRequests d')" "orq_status r' = ScanPending"
  then obtain r where "r \<in> set (orderRequests d)" "r' = (if P r then f r else r)" by (auto simp: assms(3) update_where_def)
  then show "load (orq_id r') js served = 0 \<or> load (orq_id r') js' served' = 0"
    using assms(1) assms(6) [of r] \<open>orq_status r' = ScanPending\<close> by (auto simp: scans_ok_def assms(4) split: if_splits)
qed (use assms(2,5) in simp_all)

lemma createRequest_appends:
  assumes "createRequest e tenantId outletId mode tableId input d = Inr (token, d')"
  obtains r where "orderRequests d' = orderRequests d @ [r]" "orq_id r = e_cuid e (seq d)" "seq d \<le> seq d'" "e_cuid e (seq d) \<in> e_cuid e ` {..<seq d'}"
  using assms by (auto simp: createRequest_def fresh_def guard_simps Let_def)

lemma accept_claim_takes:
  assumes "accept_claim user i d = Inr (req, d')"
  obtains P where "orderRequests d' = update_where P (\<lambda>r. r\<lparr>orq_status := ScanProcessing\<rparr>) (orderRequests d)" "seq d' = seq d" "orq_id req = i"
    and "\<exists>r \<in> set (orderRequests d). P r" "\<And>r. P r \<Longrightarrow> orq_id r = i \<and> orq_status r = ScanPending"
proof -
  let ?P = "\<lambda>r. orq_id r = i \<and> orq_tenantId r = u_tenantId user \<and> orq_outletId r \<in> set (u_outletIds user) \<and> orq_status r = ScanPending"
  from assms have d': "d' = orderRequests_update (update_where ?P (\<lambda>r. r\<lparr>orq_status := ScanProcessing\<rparr>)) d"
    and one: "length (filter ?P (orderRequests d)) = 1" and req: "requireRequest user i d' = Inr req"
    by (simp_all only: accept_claim_def Let_def ebind_eq_Inr require_eq_Inr sum.inject prod.inject) auto
  from one obtain x where "filter ?P (orderRequests d) = [x]" by (cases "filter ?P (orderRequests d)") auto
  then have "x \<in> set (filter ?P (orderRequests d))" by simp
  then have x: "x \<in> set (orderRequests d)" "?P x" by simp_all
  show ?thesis
  proof (rule that [of ?P])
    show "\<exists>r \<in> set (orderRequests d). ?P r" using x by (rule bexI [rotated])
    show "orq_id req = i" using req by (auto simp: requireRequest_def guard_simps dest: row_by_Some)
  qed (simp_all add: d')
qed

lemma scans_claim:
  assumes "accept_claim user i d = Inr (req, d')" and ok: "scans_ok src (d, js, served)"
  shows "scans_ok src (d', Claimed user req # js, served)"
proof -
  from assms(1) obtain P where rows: "orderRequests d' = update_where P (\<lambda>r. r\<lparr>orq_status := ScanProcessing\<rparr>) (orderRequests d)"
    and same: "seq d' = seq d" "orq_id req = i" and "\<exists>r \<in> set (orderRequests d). P r" and P: "\<And>r. P r \<Longrightarrow> orq_id r = i \<and> orq_status r = ScanPending"
    by (rule accept_claim_takes) (rule that)
  then obtain r where r: "r \<in> set (orderRequests d)" "P r" "orq_id r = i" "orq_status r = ScanPending" by blast
  with ok have idle: "load i js served = 0" by (auto simp: scans_ok_def)
  have map_ids: "map orq_id (orderRequests d') = map orq_id (orderRequests d)" by (simp add: rows map_update_where)
  then have ids: "orq_id ` set (orderRequests d') = orq_id ` set (orderRequests d)" by (metis list.set_map)
  have i: "i \<in> orq_id ` set (orderRequests d)" using r by blast
  have "load (orq_id r') (Claimed user req # js) served = 0" if new: "r' \<in> set (orderRequests d')" "orq_status r' = ScanPending" for r'
  proof -
    from new rows obtain q where q: "q \<in> set (orderRequests d)" "r' = (if P q then q\<lparr>orq_status := ScanProcessing\<rparr> else q)" by (auto simp: update_where_def)
    with new(2) have "r' = q" "\<not> P q" by (auto split: if_splits)
    moreover have "orq_id q \<noteq> i"
    proof
      assume "orq_id q = i"
      with r(1,3) q(1) have "q = r" using ok unfolding scans_ok_def by (metis (mono_tags, lifting) case_prod_conv distinct_map inj_onD)
      with r(2) \<open>\<not> P q\<close> show False by simp
    qed
    ultimately show ?thesis using ok q(1) new(2) same(2) by (simp add: scans_ok_def)
  qed
  with ok idle i same show ?thesis unfolding scans_ok_def case_prod_conv map_ids ids by simp
qed

lemma scans_submit:
  assumes "createRequest e tenantId outletId mode tableId input d = Inr (token, d')" and ok: "scans_ok (e_cuid e) (d, js, served)" and src: "inj (e_cuid e)"
  shows "scans_ok (e_cuid e) (d', js, served)"
proof -
  from assms(1) obtain r where rows: "orderRequests d' = orderRequests d @ [r]" and r: "orq_id r = e_cuid e (seq d)"
    and later: "seq d \<le> seq d'" "e_cuid e (seq d) \<in> e_cuid e ` {..<seq d'}" by (rule createRequest_appends)
  from ok have drawn: "orq_id ` set (orderRequests d) \<subseteq> e_cuid e ` {..<seq d}" by (simp add: scans_ok_def)
  have new: "orq_id r \<notin> orq_id ` set (orderRequests d)" unfolding r by (rule unused_id [OF src drawn])
  have "load (orq_id r) js served = 0" using ok new unfolding scans_ok_def by (metis (no_types, lifting) case_prod_conv gr0I)
  with ok new drawn_mono [OF drawn later(1)] later(2) show ?thesis by (simp add: scans_ok_def rows r)
qed

lemma scan_step_ok: "scan_step src s s' \<Longrightarrow> inj src \<Longrightarrow> scans_ok src s \<Longrightarrow> scans_ok src s'"
proof (induction rule: scan_step.induct)
  case (submitted e tenantId outletId mode tableId input d token d' js served)
  then show ?case using scans_submit by blast
next
  case (claimed user i d req d' js served)
  then show ?case using scans_claim by blast
next
  case (cooked user req js e d reply d' served)
  note frame = ingest_frame [OF cooked(2) [unfolded accept_ingest_def]]
  show ?case by (rule scans_quiet [OF cooked(4) frame(2,1)]) (use load_remove1 [OF cooked(1)] in simp)
next
  case (failed user req js e d err served)
  show ?case by (rule scans_quiet [OF failed(4)]) (use load_remove1 [OF failed(1)] in simp_all)
next
  case (released req js d served)
  have "load (orq_id req) js served \<le> 1" using released(3) by (simp add: scans_ok_def)
  then have idle: "load (orq_id req) (remove1 (Failed req) js) served = 0" using load_remove1 [OF released(1), of "orq_id req" served] by simp
  have rows: "orderRequests (release (orq_id req) d) = update_where (\<lambda>r. orq_id r = orq_id req \<and> orq_status r = ScanProcessing)
    (\<lambda>r. r\<lparr>orq_status := ScanPending\<rparr>) (orderRequests d)" by (simp add: release_def)
  show ?case by (rule scans_update [OF released(3) _ rows]) (use load_remove1 [OF released(1), of _ served] idle in \<open>simp_all add: release_def\<close>)
next
  case (numbered user req oid js d served)
  show ?case by (rule scans_quiet [OF numbered(3)]) (use load_remove1 [OF numbered(1)] in simp_all)
next
  case (closed user req oid token js d served e)
  show ?case unfolding accept_close_def set_request_def
    by (rule scans_update [OF closed(3), where P = "\<lambda>r. orq_id r = orq_id req" and f = "\<lambda>r. r\<lparr>orq_status := ScanAccepted, orq_orderId := Some oid,
        orq_tokenNumber := Some token, orq_decidedAt := Some (e_now e)\<rparr>"])
      (use load_remove1 [OF closed(1)] in \<open>simp_all add: audit_def set_row_def\<close>)
next
  case (refusing user i d req js served)
  show ?case by (rule scans_quiet [OF refusing(3)]) simp_all
next
  case (refused req js d served e)
  show ?case unfolding reject_write_def set_request_def
    by (rule scans_update [OF refused(3), where P = "\<lambda>r. orq_id r = orq_id req" and f = "\<lambda>r. r\<lparr>orq_status := ScanRejected,
        orq_decidedAt := Some (e_now e)\<rparr>"])
      (use load_remove1 [OF refused(1)] in \<open>simp_all add: set_row_def\<close>)
next
  case (elsewhere d' d js served)
  have "map orq_id (orderRequests d') = map orq_id (orderRequests d)" using arg_cong [OF elsewhere(1), of "map fst"] by (simp add: o_def)
  moreover have "load (orq_id r') js served = 0" if "r' \<in> set (orderRequests d')" "orq_status r' = ScanPending" for r'
  proof -
    from that(1) have "(orq_id r', orq_status r') \<in> set (map (\<lambda>r. (orq_id r, orq_status r)) (orderRequests d))"
      unfolding elsewhere(1) [symmetric] set_map by (rule imageI)
    then obtain r where "r \<in> set (orderRequests d)" "orq_id r = orq_id r'" "orq_status r = orq_status r'" by auto
    moreover from elsewhere(4) have "\<forall>r \<in> set (orderRequests d). orq_status r = ScanPending \<longrightarrow> load (orq_id r) js served = 0" by (simp add: scans_ok_def)
    ultimately show ?thesis using that(2) by metis
  qed
  ultimately show ?case by (intro scans_shrink [OF elsewhere(4,2)]) simp_all
qed

lemma distinct_keys: "(\<And>i. length (filter (\<lambda>p. fst p = i) xs) \<le> 1) \<Longrightarrow> distinct (map fst xs)"
proof (induction xs)
  case (Cons x xs)
  have "length (filter (\<lambda>p. fst p = i) xs) \<le> 1" for i using Cons.prems [of i] by (simp split: if_splits)
  moreover have "filter (\<lambda>p. fst p = fst x) xs = []" using Cons.prems [of "fst x"] by simp
  ultimately show ?case using Cons.IH by (auto simp: filter_empty_conv)
qed simp

lemma scans_reachable:
  assumes "(scan_step src)\<^sup>*\<^sup>* (d0, [], []) s" "inj src" "orderRequests d0 = []" shows "scans_ok src s"
  using assms(1)
proof (induction rule: rtranclp_induct)
  case base
  then show ?case using assms(3) by (simp add: scans_ok_def load_def)
qed (use assms(2) scan_step_ok in blast)

text \<open>C16. However the acceptances and rejections of several members of staff interleave, and however often ingestion fails and is tried again, a
  diner's request reaches the kitchen at most once; once it did, nobody can accept it again.\<close>

theorem scan_served_once:
  assumes "(scan_step src)\<^sup>*\<^sup>* (d0, [], []) (d, js, served)" "inj src" "orderRequests d0 = []"
  shows "distinct (map fst served) \<and> (\<forall>(i, oid) \<in> set served. \<forall>user. \<exists>err. accept_claim user i d = Inl err)"
proof -
  have ok: "scans_ok src (d, js, served)" by (rule scans_reachable [OF assms])
  have "length (filter (\<lambda>p. fst p = i) served) \<le> 1" for i
    using ok by (auto simp: scans_ok_def load_def intro: order.trans [OF le_add2])
  then have "distinct (map fst served)" by (rule distinct_keys)
  moreover have "\<exists>err. accept_claim user i d = Inl err" if "(i, oid) \<in> set served" for i oid user
  proof (cases "accept_claim user i d")
    case (Inr p)
    then obtain req d' where "accept_claim user i d = Inr (req, d')" by (cases p) simp
    then obtain P where "\<exists>r \<in> set (orderRequests d). P r" "\<And>r. P r \<Longrightarrow> orq_id r = i \<and> orq_status r = ScanPending" by (rule accept_claim_takes) (rule that)
    then have "load i js served = 0" using ok by (fastforce simp: scans_ok_def)
    with that show ?thesis by (auto simp: load_def filter_empty_conv)
  qed simp
  ultimately show ?thesis by blast
qed

section \<open>An acceptance on its own\<close>

interpretation scn: table "orderRequests :: db \<Rightarrow> _" orderRequests_update orq_id
  by unfold_locales simp_all

lemma requests_cong: "f (orderRequests d) = g (orderRequests d) \<Longrightarrow> orderRequests_update f d = orderRequests_update g d"
  by (cases d) simp

lemma next_token_above: "q \<in> set (orderRequests d) \<Longrightarrow> orq_outletId q = outletId \<Longrightarrow> orq_tokenNumber q = Some n \<Longrightarrow> n < next_token outletId d"
proof -
  have above: "x \<in> set xs \<Longrightarrow> x \<le> foldr max xs 0" for x :: int and xs
    by (induction xs) auto
  assume "q \<in> set (orderRequests d)" "orq_outletId q = outletId" "orq_tokenNumber q = Some n"
  then have "n \<in> set (map (\<lambda>r. the (orq_tokenNumber r)) (filter (\<lambda>r. orq_outletId r = outletId \<and> orq_tokenNumber r \<noteq> None) (orderRequests d)))"
    by (force simp: image_iff)
  from above [OF this] show ?thesis unfolding next_token_def by linarith
qed

lemma accept_claim_row:
  assumes "accept_claim user i d = Inr (req, d1)" "distinct (map orq_id (orderRequests d))"
  obtains r where "row_by orq_id i (orderRequests d) = Some r" "orq_status r = ScanPending" "req = r\<lparr>orq_status := ScanProcessing\<rparr>"
    and "d1 = orderRequests_update (set_row orq_id i (\<lambda>r. r\<lparr>orq_status := ScanProcessing\<rparr>)) d"
proof -
  let ?P = "\<lambda>r. orq_id r = i \<and> orq_tenantId r = u_tenantId user \<and> orq_outletId r \<in> set (u_outletIds user) \<and> orq_status r = ScanPending"
  let ?f = "\<lambda>r :: order_request_row. r\<lparr>orq_status := ScanProcessing\<rparr>"
  from assms have d1: "d1 = orderRequests_update (update_where ?P ?f) d"
    and one: "length (filter ?P (orderRequests d)) = 1" and req: "requireRequest user i d1 = Inr req"
    by (simp_all only: accept_claim_def Let_def ebind_eq_Inr require_eq_Inr sum.inject prod.inject) auto
  from one obtain r where "filter ?P (orderRequests d) = [r]" by (cases "filter ?P (orderRequests d)") auto
  then have "r \<in> set (filter ?P (orderRequests d))" by simp
  then have r: "r \<in> set (orderRequests d)" "?P r" by simp_all
  have only: "q \<in> set (orderRequests d) \<Longrightarrow> orq_id q = i \<Longrightarrow> q = r" for q using assms(2) r by (metis distinct_map inj_onD)
  have same: "update_where ?P ?f (orderRequests d) = set_row orq_id i ?f (orderRequests d)"
    unfolding update_where_def set_row_def by (rule map_cong [OF refl]) (use only r(2) in auto)
  have rows: "d1 = orderRequests_update (set_row orq_id i ?f) d" unfolding d1 by (rule requests_cong) (rule same)
  have row: "row_by orq_id i (orderRequests d) = Some r" using scn.row_by_member [OF assms(2) r(1)] r(2) by simp
  then have "row_by orq_id i (orderRequests d1) = Some (?f r)" unfolding rows using scn.lookup_set_row [of ?f i i d] by simp
  with req have "req = ?f r" by (simp add: requireRequest_def guard_simps)
  with row r(2) rows show ?thesis by (intro that) simp_all
qed


section \<open>A table orders\<close>

definition clerk1 :: auth_user where
  "clerk1 = \<lparr> u_id = ''c'', u_tenantId = ''t'', u_outletIds = [''k''], u_permissions = [] \<rparr>"

definition wish0 :: submit_input where
  "wish0 = \<lparr> smi_items = [\<lparr> sub_itemId = ''i'', sub_variationId = None, sub_addonIds = None, sub_quantity = 3, sub_note = None \<rparr>], smi_combos = None,
     smi_customerName = None, smi_customerPhone = None, smi_note = None \<rparr>"

definition asked0 :: order_request_row where
  "asked0 = \<lparr> orq_id = [], orq_tenantId = ''t'', orq_outletId = ''k'', orq_tableId = None, orq_mode = ModeTakeaway, orq_customerName = None,
     orq_customerPhone = None, orq_items = smi_items wish0, orq_combos = Some [], orq_note = None, orq_status = ScanPending, orq_token = ''x'',
     orq_orderId = None, orq_tokenNumber = None, orq_createdAt = e_now env0, orq_decidedAt = None \<rparr>"

definition kiosk0 :: db where
  "kiosk0 = kitchen0\<lparr>seq := 2, orderRequests := [asked0]\<rparr>"

definition kiosk1 :: db where
  "kiosk1 = kitchen0\<lparr>seq := 2, orderRequests := [asked0\<lparr>orq_status := ScanProcessing\<rparr>]\<rparr>"

lemma asked_run: "createRequest env0 ''t'' ''k'' ModeTakeaway None wish0 kitchen0 = Inr (''x'', kiosk0)"
  by (simp add: createRequest_def check_item_def wish0_def kitchen0_def kiosk0_def asked0_def dish0_def db0_def env0_def fresh_def Let_def
      assertAvailable_def isAvailableNow_def isWithinWindow_def parseHHMM_def)

lemma claim_run: "accept_claim clerk1 [] kiosk0 = Inr (asked0\<lparr>orq_status := ScanProcessing\<rparr>, kiosk1)"
  by (simp add: accept_claim_def kiosk0_def kiosk1_def asked0_def clerk1_def requireRequest_def guard_simps assertOutlet_def update_where_def Let_def)

lemma cook_run: "\<exists>reply d. accept_ingest env0 clerk1 (asked0\<lparr>orq_status := ScanProcessing\<rparr>) kiosk1 = Inr (reply, d)"
  by (simp add: accept_ingest_def asked0_def wish0_def to_line_def clerk1_def ingestScanOrder_def create_order_def kiosk1_def blank_order_def
      punchItems_def open_kot_def fresh_def Let_def kitchen0_def outlet0_def
      db0_def env0_def resolveChannelPrices_def ranked_channels_def punch_line_def find_item_def dish0_def check_window_def
      assertAvailable_def isAvailableNow_def isWithinWindow_def parseHHMM_def unit_price_def pick_addons_def create_line_def
      new_line_def consume_def item_recipe_def js_map_add_def lineTotalPaise_def deplete_def material0_def set_row_def
      numeric_col_exact stock_movement_def recomputeTotals_def billFor_def case_prod_beta)

text \<open>
  One clerk reads the request to reject it, another accepts it meanwhile, then the rejection is written: the kitchen cooks a request that is
  marked rejected. It is served once even so.
\<close>

theorem scan_served_once_witness:
  "\<exists>d oid. (scan_step (e_cuid env0))\<^sup>*\<^sup>* (kitchen0, [], []) (d, [Cooked clerk1 (asked0\<lparr>orq_status := ScanProcessing\<rparr>) oid], [([], oid)])
    \<and> map orq_status (orderRequests d) = [ScanRejected] \<and> (\<exists>err. accept_claim clerk1 [] d = Inl err)"
proof -
  let ?step = "scan_step (e_cuid env0)" and ?req = "asked0\<lparr>orq_status := ScanProcessing\<rparr>"
  obtain reply d2 where cook: "accept_ingest env0 clerk1 ?req kiosk1 = Inr (reply, d2)" using cook_run by blast
  note frame = ingest_frame [OF cook [unfolded accept_ingest_def]]
  define oid where "oid = ir_orderId reply"
  define d3 where "d3 = reject_write env0 [] d2"
  have id: "orq_id ?req = []" "orq_id asked0 = []" by (simp_all add: asked0_def)
  have read: "reject_read clerk1 [] kiosk0 = Inr asked0"
    by (simp add: reject_read_def requireRequest_def guard_simps assertOutlet_def kiosk0_def asked0_def clerk1_def)
  have "?step (kitchen0, [], []) (kiosk0, [], [])" by (rule scan_step.submitted [OF refl asked_run])
  moreover have "?step (kiosk0, [], []) (kiosk0, [Refusing asked0], [])" by (rule scan_step.refusing [OF read])
  moreover have "?step (kiosk0, [Refusing asked0], []) (kiosk1, [Claimed clerk1 ?req, Refusing asked0], [])" by (rule scan_step.claimed [OF claim_run])
  moreover have "?step (kiosk1, [Claimed clerk1 ?req, Refusing asked0], []) (d2, [Cooked clerk1 ?req oid, Refusing asked0], [([], oid)])"
    using scan_step.cooked [OF _ cook, of "[Claimed clerk1 ?req, Refusing asked0]" "e_cuid env0" "[]"] by (simp add: oid_def id)
  moreover have "?step (d2, [Cooked clerk1 ?req oid, Refusing asked0], [([], oid)]) (d3, [Cooked clerk1 ?req oid], [([], oid)])"
    using scan_step.refused [of asked0 "[Cooked clerk1 ?req oid, Refusing asked0]" "e_cuid env0" d2 "[([], oid)]" env0] by (simp add: d3_def id)
  ultimately have reach: "?step\<^sup>*\<^sup>* (kitchen0, [], []) (d3, [Cooked clerk1 ?req oid], [([], oid)])"
    by (meson rtranclp.rtrancl_into_rtrancl rtranclp.rtrancl_refl)
  have "inj (e_cuid env0)" "orderRequests kitchen0 = []" by (simp_all add: env0_def inj_unary kitchen0_def db0_def)
  with scan_served_once [OF reach] have "\<exists>err. accept_claim clerk1 [] d3 = Inl err" by simp
  moreover have "map orq_status (orderRequests d3) = [ScanRejected]"
    by (simp add: d3_def reject_write_def set_request_def frame(1) kiosk1_def set_row_def update_where_def asked0_def)
  ultimately show ?thesis using reach by (intro exI [of _ d3] exI [of _ oid] conjI)
qed


text \<open>A token number is read before it is written: two acceptances that both read first give their diners the same number.\<close>

lemma tokens_collide:
  assumes "i \<noteq> j" "orq_id r = i" "orq_id s = j" "orderRequests d = [r, s]" "n = next_token u d"
  shows "map orq_tokenNumber (orderRequests (accept_close e user j o2 n (accept_close e user' i o1 n d))) = [Some n, Some n]"
  using assms by (simp add: accept_close_def set_request_def audit_def set_row_def update_where_def)

end
