(* ===== verification/Spec2Isabelle.thy ===== *)
theory Spec2Isabelle
  imports Order_Laws Refunds Loyalty Stock_Ledger Payables Payroll_Laws Leave_Books
    Receipts Booking_Laws Desk_Laws Scan_Laws
begin

text \<open>
  A verification library for the core of a restaurant point of sale: the bill, the order and its settlement, the drawer,
  the stock, purchasing and its bills, the people who work there, the front of house and the printed slip. It models the TypeScript services of
  \<open>apps/api/src\<close> and the shared arithmetic of \<open>packages/shared/src\<close>, row by row and branch by branch, and proves what
  makes them correct over every history of requests.

  \<^bold>\<open>How the program is laid out.\<close> The services are stateless: all state is in a PostgreSQL database reached through Prisma.
  A request names the caller (\<open>AuthUser\<close>) and an outlet, reads rows, throws a \<open>HttpException\<close> or writes rows in a transaction.
  Money is computed in paise by the shared package, which the server, the dashboard and the edge till all use. The order
  service is the hub: punching a ticket consumes stock, settling takes gift cards, loyalty points and coupons, and writes to
  the drawer; purchasing receives goods through the inventory service and books supplier bills; payroll reads attendance,
  leave and the roster, and pays advances from the drawer. The front of house reserves tables and takes calls and requests from
  diners, and a request that is accepted becomes an order of the hub; tickets and bills leave as bytes for a thermal printer.

  \<^bold>\<open>Which theory models what.\<close>
  \<^item> \<open>Prelude\<close>: JavaScript rounding and decimal columns on exact rationals, errors as a sum type with its bind and loops,
    tables as lists of rows; the locales \<open>table\<close> (lookup, insert and update by key) and \<open>ledger\<close> (a balance beside the entries
    that explain it), which the components interpret on their own tables.
  \<^item> \<open>Money\<close>: \<open>money.ts\<close>, \<open>billing.ts\<close>, \<open>coupon.ts\<close> and the tax split of \<open>invoices.service.ts\<close>.
  \<^item> \<open>Dates\<close>, \<open>Attendance\<close>, \<open>Payslip\<close>: the parts of \<open>hr-accounting.ts\<close>: the IST calendar, a day and a month of attendance,
    the payslip and the profit-and-loss figures.
  \<^item> \<open>Schema\<close>: the rows of \<open>schema.prisma\<close> as records and the database as a record of tables.
  \<^item> \<open>Billing_Rules\<close>: the environment of a request, the outlet guard and the audit row, \<open>billing-rules.ts\<close> and the billing settings.
  \<^item> \<open>Punch\<close>, \<open>Orders\<close>, \<open>Order_Ops\<close>: \<open>orders.service.ts\<close> (punching, the life of an order, settlement, the aggregator, scan and
    offline ingests) and \<open>order-ops.service.ts\<close> (service charge, merge, transfer, split, unsplit).
  \<^item> \<open>Till\<close>, \<open>Order_Laws\<close>: an abstract machine of bills, tables and bill numbers, its invariants and its refinement by
    every order service, and the conservation laws of the bill operations.
  \<^item> \<open>Gift_Cards\<close>, \<open>Loyalty\<close>, \<open>Cash\<close>, \<open>Refunds\<close>: the services of the same names; refunds and drawer are both in \<open>cash.service.ts\<close>.
  \<^item> \<open>Inventory\<close>, \<open>Stocktake\<close>, \<open>Central_Kitchen\<close>, \<open>Purchasing\<close>, \<open>Stock_Ledger\<close>: materials, receipts and batches, stock counts,
    indents between outlets, purchase orders and goods receipts, and the stock ledger law across all of them and the kitchen.
  \<^item> \<open>Payables\<close>: supplier bills, payments and their allocation.
  \<^item> \<open>Staff\<close>, \<open>Roster\<close>, \<open>Leave_Books\<close>, \<open>Payroll\<close>, \<open>Payroll_Laws\<close>: profiles, the PIN clock and corrections; shifts, swaps and leave; advances,
    payroll runs and payslips, and what they keep.
  \<^item> \<open>Reservations\<close>, \<open>Booking_Laws\<close>: \<open>reservations.service.ts\<close>: bookings with their conflict check, seating and the waitlist, and
    that no two bookings share a table.
  \<^item> \<open>Front_Desk\<close>, \<open>Desk_Laws\<close>: held carts (\<open>parked.service.ts\<close>), calls (\<open>server-calls.service.ts\<close>) and the kitchen display
    (\<open>kds.service.ts\<close>), under terminals that act at once with stale reads.
  \<^item> \<open>Scan_Orders\<close>, \<open>Scan_Laws\<close>: \<open>scan-order.service.ts\<close>: requests of diners, and their acceptance as the separate transactions it is.
  \<^item> \<open>Printing_Text\<close>, \<open>Escpos\<close>, \<open>Receipts\<close>: \<open>packages/shared/src/printing\<close>: code pages, wrapping and columns, the ESC/POS encoder
    with a reader of its stream, and the kitchen tickets, bills, test pages and tax lines, which fit the paper and add up.

  Definitions carry the names of the functions they translate; a part of a long function has a definition of its own, named
  after what it does, and the function is the composition. Row fields have a prefix per table.

  \<^bold>\<open>What the lemmas show.\<close> Each component has the functional behaviour of its operations, an invariant of the rows it owns, and a
  step relation whose steps are successful requests with the parameters the request schemas admit, with a step \<open>elsewhere\<close> for
  any change that leaves its tables alone; the invariants hold after every history of such steps. The till is stated abstractly
  and refined. Failed requests change nothing, because a transaction that throws is rolled back: they are the left values of
  \<open>result\<close>; the one exception, the PIN clock, returns its error beside the database it commits.

  \<^bold>\<open>Modelling choices.\<close>
  \<^item> A JavaScript \<open>number\<close> is an exact rational and \<open>Math.round\<close> is exact on it; binary floating point is not modelled. A \<open>Decimal\<close>
    column rounds half away from zero to its scale when it is written.
  \<^item> Requests run one after another. Where a service reads before its transaction or writes without one, the read and
    the write are separate definitions, so that theorems can interleave them.
  \<^item> Row ids come from an injective source indexed by a counter of the database; the clock, the time zones, random draws, the digest
    of a code, the password check and the payment gateway are parameters.
  \<^item> Dates are civil dates, instants are milliseconds; JSON columns have the type their readers give them; the JSON payload of
    audit rows, events and notifications is left out; names are compared as ASCII, and the dash and the arrow in
    messages are written in ASCII.
  \<^item> Text for the printer is a list of UTF-16 code units and a printed byte a word of eight bits; other strings are lists of characters.
  \<^item> Every loop is structural or has a measure, so no fuel is needed.

  \<^bold>\<open>Not modelled\<close>, with the reasons in the manifest: the user interfaces and translations, the edge till in JavaScript and its
  legacy ingest and feed, identity and permissions, the administration of menus and chains, messaging and campaigns,
  the floor view, gateways, webhooks and e-invoicing clients, the print queue and the HTML preview, reports, plans and seeds.
\<close>

end
